(* ===== verification/Prelude.thy ===== *)
theory Prelude
  imports Main
    "HOL-Library.Product_Lexorder"
    "HOL-Library.List_Lexorder"
    "HOL-Library.Char_ord"
    "HOL-Library.Option_ord"
begin

text \<open>
  What every component shares: Python's insertion-ordered dictionaries as association lists,
  \<open>dict.fromkeys\<close> (first occurrences, in order), grouping with \<open>setdefault(k, []).append(x)\<close>,
  and the truth value of the things a Python condition tests. Dictionaries are presented to
  the components through the locale \<open>ordered_dict\<close>, interpreted below on the association lists.
\<close>

named_theorems dict_simps \<open>laws of the ordered dictionaries\<close>
named_theorems shape_defs \<open>unfolding of well-formedness predicates\<close>

section \<open>First occurrences: dict.fromkeys\<close>

primrec nub :: "'a list \<Rightarrow> 'a list" where
  "nub [] = []"
| "nub (x # xs) = x # filter (\<lambda>y. y \<noteq> x) (nub xs)"

lemma set_nub [simp]: "set (nub xs) = set xs"
  by (induction xs) auto

lemma distinct_nub [simp]: "distinct (nub xs)"
  by (induction xs) auto

lemma nub_distinct: "distinct xs \<Longrightarrow> nub xs = xs"
  by (induction xs) (auto simp: filter_id_conv)

lemma nub_Nil_iff [simp]: "nub xs = [] \<longleftrightarrow> xs = []"
  by (cases xs) auto

lemma nub_filter: "nub (filter P xs) = filter P (nub xs)"
proof (induction xs)
  case Nil
  then show ?case by simp
next
  case (Cons x xs)
  then show ?case
    by (auto simp: filter_filter intro!: filter_cong)
qed

lemma nub_append: "nub (xs @ ys) = nub xs @ filter (\<lambda>y. y \<notin> set xs) (nub ys)"
  by (induction xs) (auto intro!: filter_cong)

lemma nub_snoc: "nub (xs @ [x]) = (if x \<in> set xs then nub xs else nub xs @ [x])"
  by (simp add: nub_append)

lemma length_nub_le: "length (nub xs) \<le> length xs"
  by (induction xs) (auto intro: le_trans [OF length_filter_le])

section \<open>Insertion-ordered dictionaries\<close>

type_synonym ('k, 'v) dict = "('k \<times> 'v) list"

primrec dict_set :: "'k \<Rightarrow> 'v \<Rightarrow> ('k, 'v) dict \<Rightarrow> ('k, 'v) dict" where
  "dict_set k v [] = [(k, v)]"
| "dict_set k v (e # d) = (if fst e = k then (k, v) # d else e # dict_set k v d)"

abbreviation dict_get :: "('k, 'v) dict \<Rightarrow> 'k \<Rightarrow> 'v option" where
  "dict_get d k \<equiv> map_of d k"

abbreviation dict_keys :: "('k, 'v) dict \<Rightarrow> 'k list" where
  "dict_keys d \<equiv> map fst d"

lemma dict_get_set [dict_simps]: "dict_get (dict_set k v d) k' = (if k' = k then Some v else dict_get d k')"
  by (induction d) auto

lemma dict_keys_set [dict_simps]:
  "dict_keys (dict_set k v d) = (if k \<in> set (dict_keys d) then dict_keys d else dict_keys d @ [k])"
  by (induction d) auto

lemma dict_get_None_iff: "dict_get d k = None \<longleftrightarrow> k \<notin> set (dict_keys d)"
  by (simp add: map_of_eq_None_iff)

text \<open>The interface the components use: a dictionary reads back what was last set, keeps the
  order in which keys first came in, and holds each key once.\<close>

locale ordered_dict =
  fixes empty :: 'd
    and get :: "'d \<Rightarrow> 'k \<Rightarrow> 'v option"
    and set_item :: "'k \<Rightarrow> 'v \<Rightarrow> 'd \<Rightarrow> 'd"
    and keys :: "'d \<Rightarrow> 'k list"
  assumes get_empty: "get empty k = None"
    and keys_empty: "keys empty = []"
    and get_set_item: "get (set_item k v d) k' = (if k' = k then Some v else get d k')"
    and keys_set_item: "keys (set_item k v d) = (if k \<in> set (keys d) then keys d else keys d @ [k])"
begin

text \<open>\<open>for x in xs: out[f(x)] = g(x)\<close>\<close>

lemma get_fold_other:
  "k \<notin> f ` set xs \<Longrightarrow> get (fold (\<lambda>x. set_item (f x) (g x)) xs d) k = get d k"
  by (induction xs arbitrary: d) (auto simp: get_set_item)

lemma get_fold:
  "get (fold (\<lambda>x. set_item (f x) (g x)) xs d) k =
     (case filter (\<lambda>x. f x = k) xs of [] \<Rightarrow> get d k | y # ys \<Rightarrow> Some (g (last (y # ys))))"
proof (induction xs arbitrary: d)
  case Nil
  then show ?case by simp
next
  case (Cons x xs)
  show ?case
    by (cases "filter (\<lambda>x. f x = k) xs") (auto simp: Cons.IH get_set_item)
qed

lemma keys_fold_gen:
  "keys (fold (\<lambda>x. set_item (f x) (g x)) xs d) =
     keys d @ filter (\<lambda>k. k \<notin> set (keys d)) (nub (map f xs))"
proof (induction xs arbitrary: d)
  case Nil
  then show ?case by simp
next
  case (Cons x xs)
  show ?case
    by (auto simp: Cons.IH keys_set_item filter_filter conj_commute intro!: filter_cong)
qed

lemma keys_fold: "keys (fold (\<lambda>x. set_item (f x) (g x)) xs empty) = nub (map f xs)"
  by (simp add: keys_fold_gen keys_empty)

lemma distinct_keys_fold: "distinct (keys (fold (\<lambda>x. set_item (f x) (g x)) xs empty))"
  by (simp add: keys_fold)

end

interpretation alist: ordered_dict "[]" dict_get dict_set dict_keys
  by unfold_locales (auto simp: dict_simps)

text \<open>Items of a dictionary whose keys are distinct, in key order.\<close>

lemma dict_items_eq:
  assumes "distinct (dict_keys d)"
  shows "d = map (\<lambda>k. (k, the (dict_get d k))) (dict_keys d)"
  using assms
proof (induction d)
  case Nil
  then show ?case by simp
next
  case (Cons e d)
  obtain a b where e: "e = (a, b)" by (cases e)
  from Cons.prems have "a \<notin> fst ` set d" and d: "distinct (dict_keys d)" by (auto simp: e)
  then have "map (\<lambda>k. (k, the (dict_get ((a, b) # d) k))) (dict_keys d) =
      map (\<lambda>k. (k, the (dict_get d k))) (dict_keys d)"
    by (auto simp: image_iff)
  with Cons.IH [OF d] show ?case by (simp add: e)
qed

section \<open>Grouping: out.setdefault(key(x), []).append(x)\<close>

definition dict_append :: "'k \<Rightarrow> 'v \<Rightarrow> ('k, 'v list) dict \<Rightarrow> ('k, 'v list) dict" where
  "dict_append k x d = dict_set k ((case dict_get d k of None \<Rightarrow> [] | Some xs \<Rightarrow> xs) @ [x]) d"

definition group_by :: "('a \<Rightarrow> 'k) \<Rightarrow> 'a list \<Rightarrow> ('k, 'a list) dict" where
  "group_by key xs = fold (\<lambda>x. dict_append (key x) x) xs []"

lemma dict_get_append [dict_simps]:
  "dict_get (dict_append k x d) k' =
     (if k' = k then Some ((case dict_get d k of None \<Rightarrow> [] | Some xs \<Rightarrow> xs) @ [x]) else dict_get d k')"
  by (simp add: dict_append_def dict_simps)

lemma dict_keys_append [dict_simps]:
  "dict_keys (dict_append k x d) = (if k \<in> set (dict_keys d) then dict_keys d else dict_keys d @ [k])"
  by (simp add: dict_append_def dict_simps)

lemma group_by_get_gen:
  "dict_get (fold (\<lambda>x. dict_append (key x) x) xs d) k =
     (if filter (\<lambda>x. key x = k) xs = [] then dict_get d k
      else Some ((case dict_get d k of None \<Rightarrow> [] | Some ys \<Rightarrow> ys) @ filter (\<lambda>x. key x = k) xs))"
proof (induction xs arbitrary: d)
  case Nil
  then show ?case by simp
next
  case (Cons x xs)
  show ?case
    by (cases "key x = k") (auto simp: Cons.IH dict_get_append split: option.splits)
qed

lemma group_by_get [dict_simps]:
  "dict_get (group_by key xs) k =
     (if filter (\<lambda>x. key x = k) xs = [] then None else Some (filter (\<lambda>x. key x = k) xs))"
  by (simp add: group_by_def group_by_get_gen)

lemma group_by_keys_gen:
  "dict_keys (fold (\<lambda>x. dict_append (key x) x) xs d) =
     dict_keys d @ filter (\<lambda>k. k \<notin> set (dict_keys d)) (nub (map key xs))"
proof (induction xs arbitrary: d)
  case Nil
  then show ?case by simp
next
  case (Cons x xs)
  show ?case
    by (auto simp: Cons.IH dict_keys_append filter_filter conj_commute intro!: filter_cong)
qed

lemma group_by_keys [dict_simps]: "dict_keys (group_by key xs) = nub (map key xs)"
  by (simp add: group_by_def group_by_keys_gen)

lemma group_by_items:
  "group_by key xs = map (\<lambda>k. (k, filter (\<lambda>x. key x = k) xs)) (nub (map key xs))"
proof -
  have "group_by key xs = map (\<lambda>k. (k, the (dict_get (group_by key xs) k))) (dict_keys (group_by key xs))"
    by (rule dict_items_eq) (simp add: group_by_keys)
  also have "\<dots> = map (\<lambda>k. (k, filter (\<lambda>x. key x = k) xs)) (nub (map key xs))"
    unfolding group_by_keys
    by (rule map_cong) (auto simp: group_by_get filter_empty_conv)
  finally show ?thesis .
qed

lemma group_by_set:
  "(k, ys) \<in> set (group_by key xs) \<longleftrightarrow> k \<in> key ` set xs \<and> ys = filter (\<lambda>x. key x = k) xs"
  by (auto simp: group_by_items)

section \<open>Optional values in conditions\<close>

text \<open>Python's \<open>x or None\<close> on strings, and the truth value of an optional string.\<close>

definition str_or_none :: "string option \<Rightarrow> string option" where
  "str_or_none s = (case s of Some t \<Rightarrow> (if t = '''' then None else Some t) | None \<Rightarrow> None)"

definition truthy_str :: "string option \<Rightarrow> bool" where
  "truthy_str s = (case s of Some t \<Rightarrow> t \<noteq> '''' | None \<Rightarrow> False)"

definition or_empty :: "string option \<Rightarrow> string" where
  "or_empty s = (case s of Some t \<Rightarrow> t | None \<Rightarrow> '''')"

lemma truthy_str_simps [simp]: "truthy_str None = False" "truthy_str (Some t) = (t \<noteq> '''')"
  by (simp_all add: truthy_str_def)

lemma or_empty_simps [simp]: "or_empty None = ''''" "or_empty (Some t) = t"
  by (simp_all add: or_empty_def)

lemma str_or_none_simps [simp]:
  "str_or_none None = None" "str_or_none (Some t) = (if t = '''' then None else Some t)"
  by (simp_all add: str_or_none_def)

section \<open>Stable sorting by a key\<close>

lemma set_sort_key_filter: "set (sort_key f (filter P xs)) = {x \<in> set xs. P x}"
  by simp

lemma sorted_sort_key_take: "sorted (map f (take n (sort_key f xs)))"
  by (simp add: sorted_wrt_take flip: take_map)

lemma set_take_sort_subset: "set (take n (sort_key f xs)) \<subseteq> set xs"
  using set_take_subset by fastforce

end
