(* ===== verification/PyStr.thy ===== *)
theory PyStr
  imports Prelude
begin

text \<open>
  The Python strings the code works on. A \<open>char\<close> stands for one code point U+0000 to U+00FF,
  so \<open>str\<close> operations are exact for Latin-1 text: \<open>lower\<close> maps A-Z and the capital letters of
  Latin-1, \<open>strip\<close> removes Unicode white space in that range, comparison and sorting go by code
  point. Code points beyond U+00FF do not occur in the model.
\<close>

section \<open>Lower case\<close>

definition is_upper_ascii :: "char \<Rightarrow> bool" where
  "is_upper_ascii c = (65 \<le> (of_char c :: int) \<and> (of_char c :: int) \<le> 90)"

definition ascii_lower_char :: "char \<Rightarrow> char" where
  "ascii_lower_char c = (if is_upper_ascii c then char_of ((of_char c :: int) + 32) else c)"

text \<open>\<open>str.lower\<close> on Latin-1: besides ASCII, U+00C0 to U+00DE without U+00D7.\<close>

definition py_lower_char :: "char \<Rightarrow> char" where
  "py_lower_char c =
     (let n = (of_char c :: int) in
      if (65 \<le> n \<and> n \<le> 90) \<or> (192 \<le> n \<and> n \<le> 222 \<and> n \<noteq> 215) then char_of (n + 32) else c)"

definition py_lower :: "string \<Rightarrow> string" where
  "py_lower s = map py_lower_char s"

lemma of_char_int_nat: "(of_char c :: int) = int (of_char c)"
  by (cases c) (simp add: of_char_def)

lemma of_char_bounds [simp]: "0 \<le> (of_char c :: int)" "(of_char c :: int) < 256"
  using nat_of_char_less_256 [of c] by (simp_all add: of_char_int_nat)

lemma of_char_int_inj: "(of_char c :: int) = of_char d \<longleftrightarrow> c = d"
  by (simp add: of_char_int_nat)

lemma of_char_of_int [simp]: "0 \<le> n \<Longrightarrow> n < 256 \<Longrightarrow> (of_char (char_of (n :: int)) :: int) = n"
  by simp

lemma of_char_ascii_lower:
  "(of_char (ascii_lower_char c) :: int) = (if is_upper_ascii c then of_char c + 32 else of_char c)"
  by (auto simp: ascii_lower_char_def is_upper_ascii_def)

lemma ascii_lower_char_idem [simp]: "ascii_lower_char (ascii_lower_char c) = ascii_lower_char c"
proof -
  have "\<not> is_upper_ascii (ascii_lower_char c)"
    by (auto simp: is_upper_ascii_def of_char_ascii_lower)
  then show ?thesis by (simp add: ascii_lower_char_def)
qed

lemma of_char_py_lower:
  "(of_char (py_lower_char c) :: int) =
     (let n = of_char c in
      if (65 \<le> n \<and> n \<le> 90) \<or> (192 \<le> n \<and> n \<le> 222 \<and> n \<noteq> 215) then n + 32 else n)"
  by (auto simp: py_lower_char_def Let_def)

lemma py_lower_char_idem [simp]: "py_lower_char (py_lower_char c) = py_lower_char c"
proof -
  have "(of_char (py_lower_char (py_lower_char c)) :: int) = of_char (py_lower_char c)"
    by (simp add: of_char_py_lower Let_def)
  then show ?thesis by (simp only: of_char_int_inj)
qed

lemma py_lower_idem [simp]: "py_lower (py_lower s) = py_lower s"
  by (simp add: py_lower_def)

lemma py_lower_append [simp]: "py_lower (s @ t) = py_lower s @ py_lower t"
  by (simp add: py_lower_def)

lemma py_lower_Nil_iff [simp]: "py_lower s = [] \<longleftrightarrow> s = []" "[] = py_lower s \<longleftrightarrow> s = []"
  by (auto simp: py_lower_def)

text \<open>Characters that are no letters are left alone, and no letter becomes one of them.\<close>

lemma py_lower_char_eq_iff:
  "\<not> (97 \<le> (of_char d :: int) \<and> (of_char d :: int) \<le> 122) \<Longrightarrow> (of_char d :: int) < 128 \<Longrightarrow>
     \<not> is_upper_ascii d \<Longrightarrow> py_lower_char c = d \<longleftrightarrow> c = d"
proof -
  assume d: "\<not> (97 \<le> (of_char d :: int) \<and> (of_char d :: int) \<le> 122)" "(of_char d :: int) < 128"
    "\<not> is_upper_ascii d"
  have "(of_char (py_lower_char c) :: int) = of_char d \<longleftrightarrow> (of_char c :: int) = of_char d"
    using d by (auto simp: of_char_py_lower Let_def is_upper_ascii_def)
  then show ?thesis by (simp only: of_char_int_inj)
qed

lemma py_lower_mem:
  assumes "\<not> (97 \<le> (of_char d :: int) \<and> (of_char d :: int) \<le> 122)" "(of_char d :: int) < 128"
    "\<not> is_upper_ascii d"
  shows "d \<in> set (py_lower s) \<longleftrightarrow> d \<in> set s"
  using py_lower_char_eq_iff [OF assms] by (auto simp: py_lower_def image_iff) metis+

section \<open>White space, prefixes, splitting\<close>

definition py_space :: "char \<Rightarrow> bool" where
  "py_space c = (let n = (of_char c :: int) in
     (9 \<le> n \<and> n \<le> 13) \<or> (28 \<le> n \<and> n \<le> 32) \<or> n = 133 \<or> n = 160)"

definition py_strip :: "string \<Rightarrow> string" where
  "py_strip s = rev (dropWhile py_space (rev (dropWhile py_space s)))"

text \<open>\<open>str.startswith\<close>, \<open>str.endswith\<close>\<close>

fun startswith :: "string \<Rightarrow> string \<Rightarrow> bool" where
  "startswith s [] = True"
| "startswith [] (p # ps) = False"
| "startswith (c # s) (p # ps) = (c = p \<and> startswith s ps)"

definition endswith :: "string \<Rightarrow> string \<Rightarrow> bool" where
  "endswith s p = startswith (rev s) (rev p)"

lemma startswith_iff: "startswith s p \<longleftrightarrow> (\<exists>t. s = p @ t)"
  by (induction s p rule: startswith.induct) auto

lemma startswith_append [simp]: "startswith (p @ t) p"
  by (simp add: startswith_iff)

text \<open>\<open>str.split(sep)\<close> with a separator of one character: never the empty list.\<close>

fun split_on :: "char \<Rightarrow> string \<Rightarrow> string list" where
  "split_on c [] = [[]]"
| "split_on c (x # xs) =
     (if x = c then [] # split_on c xs
      else (case split_on c xs of [] \<Rightarrow> [[x]] | p # ps \<Rightarrow> (x # p) # ps))"

lemma split_on_nonempty [simp]: "split_on c s \<noteq> []"
  by (cases s) (auto split: list.splits)

fun py_join :: "string \<Rightarrow> string list \<Rightarrow> string" where
  "py_join sep [] = []"
| "py_join sep [s] = s"
| "py_join sep (s # t # ss) = s @ sep @ py_join sep (t # ss)"

lemma py_join_Cons: "ss \<noteq> [] \<Longrightarrow> py_join sep (s # ss) = s @ sep @ py_join sep ss"
  by (cases ss) auto

lemma py_join_Cons_append: "py_join sep ((x # p) # ps) = x # py_join sep (p # ps)"
  by (cases ps) auto

lemma join_split_on: "py_join [c] (split_on c s) = s"
proof (induction s)
  case Nil
  then show ?case by simp
next
  case (Cons x xs)
  obtain p ps where p: "split_on c xs = p # ps"
    by (cases "split_on c xs") (simp_all add: split_on_nonempty)
  with Cons.IH have "py_join [c] (p # ps) = xs" by simp
  then show ?case
    by (auto simp: p py_join_Cons py_join_Cons_append)
qed

lemma split_on_no_sep: "c \<notin> set p \<Longrightarrow> split_on c p = [p]"
  by (induction p) auto

lemma split_on_parts: "p \<in> set (split_on c s) \<Longrightarrow> c \<notin> set p"
  by (induction s arbitrary: p) (auto split: if_splits list.splits)

lemma split_on_append_sep:
  "c \<notin> set p \<Longrightarrow> split_on c (p @ c # s) = p # split_on c s"
proof (induction p)
  case Nil
  then show ?case by simp
next
  case (Cons x p)
  then show ?case by (auto split: list.splits)
qed

lemma split_on_join:
  "ps \<noteq> [] \<Longrightarrow> (\<forall>p \<in> set ps. c \<notin> set p) \<Longrightarrow> split_on c (py_join [c] ps) = ps"
proof (induction ps)
  case Nil
  then show ?case by simp
next
  case (Cons p ps)
  then show ?case
    by (cases ps) (simp_all add: split_on_no_sep split_on_append_sep)
qed

text \<open>\<open>str.split(sep, 1)\<close>: the part before the first separator and what follows it.\<close>

fun split_once :: "char \<Rightarrow> string \<Rightarrow> (string \<times> string) option" where
  "split_once c [] = None"
| "split_once c (x # xs) =
     (if x = c then Some ([], xs) else map_option (\<lambda>(a, b). (x # a, b)) (split_once c xs))"

text \<open>\<open>str.replace(old, new)\<close> for an \<open>old\<close> of one character.\<close>

definition replace_char :: "char \<Rightarrow> string \<Rightarrow> string \<Rightarrow> string" where
  "replace_char c new s = concat (map (\<lambda>x. if x = c then new else [x]) s)"

lemma replace_char_Nil [simp]: "replace_char c new [] = []"
  by (simp add: replace_char_def)

lemma replace_char_Cons [simp]:
  "replace_char c new (x # s) = (if x = c then new else [x]) @ replace_char c new s"
  by (simp add: replace_char_def)

lemma replace_char_append [simp]:
  "replace_char c new (s @ t) = replace_char c new s @ replace_char c new t"
  by (simp add: replace_char_def)

lemma replace_char_id: "c \<notin> set s \<Longrightarrow> replace_char c new s = s"
  by (induction s) auto

section \<open>Decimal numbers\<close>

definition digit_char :: "int \<Rightarrow> char" where
  "digit_char n = char_of (48 + n)"

function dec_str :: "int \<Rightarrow> string" where
  "dec_str n = (if n < 10 then [digit_char n] else dec_str (n div 10) @ [digit_char (n mod 10)])"
  by pat_completeness auto
termination
  by (relation "measure nat") auto

declare dec_str.simps [simp del]

definition str_of_int :: "int \<Rightarrow> string" where
  "str_of_int i = (if i < 0 then ''-'' @ dec_str (- i) else dec_str i)"

definition is_digit :: "char \<Rightarrow> bool" where
  "is_digit c = (48 \<le> (of_char c :: int) \<and> (of_char c :: int) \<le> 57)"

definition digit_val :: "char \<Rightarrow> int" where
  "digit_val c = (of_char c :: int) - 48"

definition int_of_digits :: "string \<Rightarrow> int" where
  "int_of_digits s = foldl (\<lambda>a c. 10 * a + digit_val c) 0 s"

lemma digit_char_props:
  "0 \<le> n \<Longrightarrow> n < 10 \<Longrightarrow> is_digit (digit_char n)"
  "0 \<le> n \<Longrightarrow> n < 10 \<Longrightarrow> digit_val (digit_char n) = n"
  by (simp_all add: is_digit_def digit_val_def digit_char_def)

lemma dec_str_digits: "0 \<le> n \<Longrightarrow> \<forall>c \<in> set (dec_str n). is_digit c"
proof (induction n rule: dec_str.induct)
  case (1 n)
  show ?case
  proof (cases "n < 10")
    case True
    with 1 show ?thesis by (subst dec_str.simps) (simp add: digit_char_props)
  next
    case False
    with 1 have "\<forall>c \<in> set (dec_str (n div 10)). is_digit c" by simp
    with False show ?thesis by (subst dec_str.simps) (auto simp: digit_char_props)
  qed
qed

lemma dec_str_nonempty [simp]: "dec_str n \<noteq> []"
  by (subst dec_str.simps) simp

lemma int_of_digits_snoc: "int_of_digits (s @ [c]) = 10 * int_of_digits s + digit_val c"
  by (simp add: int_of_digits_def)

lemma int_of_dec_str: "0 \<le> n \<Longrightarrow> int_of_digits (dec_str n) = n"
proof (induction n rule: dec_str.induct)
  case (1 n)
  show ?case
  proof (cases "n < 10")
    case True
    with 1 show ?thesis
      by (subst dec_str.simps) (simp add: int_of_digits_def digit_char_props)
  next
    case False
    with 1 have "int_of_digits (dec_str (n div 10)) = n div 10" by simp
    with False show ?thesis
      by (subst dec_str.simps) (simp add: int_of_digits_snoc digit_char_props)
  qed
qed

lemma dec_str_inj: "0 \<le> m \<Longrightarrow> 0 \<le> n \<Longrightarrow> dec_str m = dec_str n \<longleftrightarrow> m = n"
  by (metis int_of_dec_str)

lemma is_digit_not: "is_digit c \<Longrightarrow> c \<noteq> CHR ''.'' \<and> c \<noteq> CHR ''/'' \<and> c \<noteq> CHR '':'' \<and> c \<noteq> CHR ''-''"
  by (auto simp: is_digit_def)

end
