(* ===== verification/Values.thy ===== *)
theory Values
  imports PyStr
begin

text \<open>
  The value domains of \<open>domain/values.py\<close>: one datatype per \<open>StrEnum\<close>, its constructors prefixed
  by the enum's initials (\<open>PD_\<close> for \<open>PolicyDecision\<close>), and \<open><type>_value\<close> for the string the
  member is. Severities are a linear order, by \<open>SEVERITY_ORDER\<close>.
\<close>

datatype policy_decision = PD_ALLOWED | PD_POTENTIALLY_BLOCKED | PD_BLOCKED | PD_UNKNOWN

fun policy_decision_value :: "policy_decision \<Rightarrow> string" where
  "policy_decision_value PD_ALLOWED = ''allowed''"
| "policy_decision_value PD_POTENTIALLY_BLOCKED = ''potentially_blocked''"
| "policy_decision_value PD_BLOCKED = ''blocked''"
| "policy_decision_value PD_UNKNOWN = ''unknown''"

datatype rule_action = RA_ALLOW | RA_DENY | RA_OVERRIDE_DENY

fun rule_action_value :: "rule_action \<Rightarrow> string" where
  "rule_action_value RA_ALLOW = ''allow''"
| "rule_action_value RA_DENY = ''deny''"
| "rule_action_value RA_OVERRIDE_DENY = ''override_deny''"

datatype alert_rule_type = ART_EVENT | ART_TRAFFIC | ART_BANDWIDTH | ART_VOLUME | ART_SYSTEM
    | ART_LATERAL

fun alert_rule_type_value :: "alert_rule_type \<Rightarrow> string" where
  "alert_rule_type_value ART_EVENT = ''event''"
| "alert_rule_type_value ART_TRAFFIC = ''traffic''"
| "alert_rule_type_value ART_BANDWIDTH = ''bandwidth''"
| "alert_rule_type_value ART_VOLUME = ''volume''"
| "alert_rule_type_value ART_SYSTEM = ''system''"
| "alert_rule_type_value ART_LATERAL = ''lateral''"

datatype threshold_type = TT_IMMEDIATE | TT_COUNT

datatype system_check = SC_PCE_HEALTH | SC_COLLECTION_FAILING | SC_DATA_LOSS | SC_JOB_FAILING
    | SC_DISK_LOW | SC_SIEM_BACKLOG

fun system_check_value :: "system_check \<Rightarrow> string" where
  "system_check_value SC_PCE_HEALTH = ''pce_health''"
| "system_check_value SC_COLLECTION_FAILING = ''collection_failing''"
| "system_check_value SC_DATA_LOSS = ''data_loss''"
| "system_check_value SC_JOB_FAILING = ''job_failing''"
| "system_check_value SC_DISK_LOW = ''disk_low''"
| "system_check_value SC_SIEM_BACKLOG = ''siem_backlog''"

datatype flow_direction = FD_INBOUND | FD_OUTBOUND

fun flow_direction_value :: "flow_direction \<Rightarrow> string" where
  "flow_direction_value FD_INBOUND = ''inbound''"
| "flow_direction_value FD_OUTBOUND = ''outbound''"

datatype visibility_level = VL_FLOW_SUMMARY | VL_ENHANCED_DATA_COLLECTION | VL_FLOW_DROPS
    | VL_FLOW_OFF

fun visibility_level_value :: "visibility_level \<Rightarrow> string" where
  "visibility_level_value VL_FLOW_SUMMARY = ''flow_summary''"
| "visibility_level_value VL_ENHANCED_DATA_COLLECTION = ''enhanced_data_collection''"
| "visibility_level_value VL_FLOW_DROPS = ''flow_drops''"
| "visibility_level_value VL_FLOW_OFF = ''flow_off''"

datatype severity = SEV_LOW | SEV_MEDIUM | SEV_HIGH | SEV_CRITICAL

fun severity_value :: "severity \<Rightarrow> string" where
  "severity_value SEV_LOW = ''low''"
| "severity_value SEV_MEDIUM = ''medium''"
| "severity_value SEV_HIGH = ''high''"
| "severity_value SEV_CRITICAL = ''critical''"

datatype detector_kind = DK_FANOUT | DK_NEW_ADMIN_CONNECTION | DK_PIVOT_CHAIN | DK_BLOCKED_SURGE
    | DK_NON_ADMIN_GROUP | DK_CROSS_ENV | DK_ACCOUNT_FANOUT | DK_UNEXPECTED_INITIATOR
    | DK_PEER_DEVIATION | DK_VOLUME_SURGE | DK_ACCOUNT_NEW_SOURCE | DK_SUSPICIOUS_TOOL
    | DK_NEW_PROCESS | DK_AUTH_TO_NON_DC | DK_NEW_DC_CLIENT | DK_DIRECTORY_SURGE
    | DK_DIRECTION_REVERSAL | DK_NEW_PAIR_PORT | DK_QUIET_HOST_WAKES | DK_DATA_STAGING
    | DK_OFF_HOURS

fun detector_kind_value :: "detector_kind \<Rightarrow> string" where
  "detector_kind_value DK_FANOUT = ''fanout''"
| "detector_kind_value DK_NEW_ADMIN_CONNECTION = ''new_admin_connection''"
| "detector_kind_value DK_PIVOT_CHAIN = ''pivot_chain''"
| "detector_kind_value DK_BLOCKED_SURGE = ''blocked_surge''"
| "detector_kind_value DK_NON_ADMIN_GROUP = ''non_admin_group''"
| "detector_kind_value DK_CROSS_ENV = ''cross_env''"
| "detector_kind_value DK_ACCOUNT_FANOUT = ''account_fanout''"
| "detector_kind_value DK_UNEXPECTED_INITIATOR = ''unexpected_initiator''"
| "detector_kind_value DK_PEER_DEVIATION = ''peer_deviation''"
| "detector_kind_value DK_VOLUME_SURGE = ''volume_surge''"
| "detector_kind_value DK_ACCOUNT_NEW_SOURCE = ''account_new_source''"
| "detector_kind_value DK_SUSPICIOUS_TOOL = ''suspicious_tool''"
| "detector_kind_value DK_NEW_PROCESS = ''new_process''"
| "detector_kind_value DK_AUTH_TO_NON_DC = ''auth_to_non_dc''"
| "detector_kind_value DK_NEW_DC_CLIENT = ''new_dc_client''"
| "detector_kind_value DK_DIRECTORY_SURGE = ''directory_surge''"
| "detector_kind_value DK_DIRECTION_REVERSAL = ''direction_reversal''"
| "detector_kind_value DK_NEW_PAIR_PORT = ''new_pair_port''"
| "detector_kind_value DK_QUIET_HOST_WAKES = ''quiet_host_wakes''"
| "detector_kind_value DK_DATA_STAGING = ''data_staging''"
| "detector_kind_value DK_OFF_HOURS = ''off_hours''"

datatype port_class = PC_REMOTE | PC_DIRECTORY | PC_DATABASE

datatype detector_state = DS_OK | DS_DISABLED | DS_ACCUMULATING | DS_NO_DATA | DS_COLLECTION_OFF
    | DS_INCOMPLETE

datatype segment_dimension = SD_SRC_HOST | SD_DST_HOST | SD_SRC_LABEL | SD_DST_LABEL | SD_SERVICE
    | SD_INITIATOR_PROCESS | SD_INITIATOR_USER | SD_SERVICE_PROCESS | SD_SERVICE_USER | SD_DECISION
    | SD_DIRECTION | SD_EVENT_TYPE | SD_EVENT_HOST | SD_EVENT_SEVERITY | SD_ACTOR

datatype segment_metric = SM_FLOWS | SM_CONNECTIONS | SM_DISTINCT_DST | SM_DISTINCT_SRC
    | SM_DISTINCT_PORTS | SM_BYTES | SM_EVENTS

datatype segment_view = SV_DETAIL | SV_RANKING | SV_PREDICTED_BLOCK

datatype edge_state = ES_ALLOWED | ES_POTENTIALLY_BLOCKED | ES_UNKNOWN

fun edge_state_value :: "edge_state \<Rightarrow> string" where
  "edge_state_value ES_ALLOWED = ''allowed''"
| "edge_state_value ES_POTENTIALLY_BLOCKED = ''potentially_blocked''"
| "edge_state_value ES_UNKNOWN = ''unknown''"

datatype tamper_pattern = TP_REGULAR_CYCLE | TP_BURST | TP_SPORADIC | TP_TOO_FEW

fun tamper_pattern_value :: "tamper_pattern \<Rightarrow> string" where
  "tamper_pattern_value TP_REGULAR_CYCLE = ''regular_cycle''"
| "tamper_pattern_value TP_BURST = ''burst''"
| "tamper_pattern_value TP_SPORADIC = ''sporadic''"
| "tamper_pattern_value TP_TOO_FEW = ''too_few''"

datatype tamper_action = TA_ADD_RULE | TA_DELETE_RULE | TA_ADD_CHAIN | TA_DELETE_CHAIN
    | TA_ADD_TABLE | TA_DELETE_TABLE

datatype precursor_kind = PK_TAMPER | PK_SUSPEND | PK_OFFLINE

datatype ransomware_traffic_class = RT_PRIORITY | RT_SAFE_TO_BLOCK | RT_SUSPICIOUS | RT_PROTECTED
    | RT_UNKNOWN

datatype focus_kind = FK_DETECTION | FK_EXPOSURE_ASSET | FK_PIVOT_HOST | FK_CROSS_ENV | FK_TAMPER
    | FK_RANSOMWARE_PRIORITY | FK_VENDOR_CONTRADICTION | FK_MODE_SWITCH_BLOCKER | FK_DATA_COVERAGE
    | FK_VISIBILITY | FK_COLLECTION_GAP | FK_SYSTEM_HEALTH | FK_SETUP_REQUIRED | FK_STALE_SELECTOR

fun focus_kind_value :: "focus_kind \<Rightarrow> string" where
  "focus_kind_value FK_DETECTION = ''detection''"
| "focus_kind_value FK_EXPOSURE_ASSET = ''exposure_asset''"
| "focus_kind_value FK_PIVOT_HOST = ''pivot_host''"
| "focus_kind_value FK_CROSS_ENV = ''cross_env''"
| "focus_kind_value FK_TAMPER = ''tamper''"
| "focus_kind_value FK_RANSOMWARE_PRIORITY = ''ransomware_priority''"
| "focus_kind_value FK_VENDOR_CONTRADICTION = ''vendor_contradiction''"
| "focus_kind_value FK_MODE_SWITCH_BLOCKER = ''mode_switch_blocker''"
| "focus_kind_value FK_DATA_COVERAGE = ''data_coverage''"
| "focus_kind_value FK_VISIBILITY = ''visibility''"
| "focus_kind_value FK_COLLECTION_GAP = ''collection_gap''"
| "focus_kind_value FK_SYSTEM_HEALTH = ''system_health''"
| "focus_kind_value FK_SETUP_REQUIRED = ''setup_required''"
| "focus_kind_value FK_STALE_SELECTOR = ''stale_selector''"

datatype confidence = CF_HIGH | CF_MEDIUM | CF_LOW

section \<open>Severities\<close>

definition SEVERITY_ORDER :: "severity list" where
  "SEVERITY_ORDER = [SEV_LOW, SEV_MEDIUM, SEV_HIGH, SEV_CRITICAL]"

text \<open>\<open>SEVERITY_ORDER.index\<close>\<close>

fun severity_index :: "severity \<Rightarrow> nat" where
  "severity_index SEV_LOW = 0"
| "severity_index SEV_MEDIUM = 1"
| "severity_index SEV_HIGH = 2"
| "severity_index SEV_CRITICAL = 3"

lemma severity_index_nth: "SEVERITY_ORDER ! severity_index s = s" "severity_index s < length SEVERITY_ORDER"
  by (cases s; simp add: SEVERITY_ORDER_def)+

lemma severity_index_inj [simp]: "severity_index s = severity_index t \<longleftrightarrow> s = t"
  by (cases s; cases t) simp_all

instantiation severity :: linorder
begin

definition less_eq_severity :: "severity \<Rightarrow> severity \<Rightarrow> bool" where
  "less_eq_severity s t = (severity_index s \<le> severity_index t)"

definition less_severity :: "severity \<Rightarrow> severity \<Rightarrow> bool" where
  "less_severity s t = (severity_index s < severity_index t)"

instance
  by standard (auto simp: less_eq_severity_def less_severity_def)

end

definition EVENT_SEVERITY_TO_ALERT :: "(string, severity) dict" where
  "EVENT_SEVERITY_TO_ALERT =
     [(''err'', SEV_HIGH), (''error'', SEV_HIGH), (''warning'', SEV_MEDIUM), (''info'', SEV_LOW)]"

definition alert_severity_of_event :: "string option \<Rightarrow> severity" where
  "alert_severity_of_event s =
     (case dict_get EVENT_SEVERITY_TO_ALERT (py_lower (py_strip (or_empty s))) of
        Some v \<Rightarrow> v | None \<Rightarrow> SEV_MEDIUM)"

definition raise_severity :: "severity \<Rightarrow> nat \<Rightarrow> severity" where
  "raise_severity s steps = SEVERITY_ORDER ! min (severity_index s + steps) (length SEVERITY_ORDER - 1)"

lemma raise_severity_index: "severity_index (raise_severity s n) = min (severity_index s + n) 3"
proof -
  have "severity_index (SEVERITY_ORDER ! k) = k" if "k \<le> 3" for k
    using that by (auto simp: SEVERITY_ORDER_def numeral_3_eq_3 le_Suc_eq)
  then show ?thesis by (simp add: raise_severity_def SEVERITY_ORDER_def)
qed

lemma raise_severity_ge: "s \<le> raise_severity s n"
  using severity_index_nth(2) [of s]
  by (simp add: less_eq_severity_def raise_severity_index SEVERITY_ORDER_def)

lemma raise_severity_mono: "s \<le> t \<Longrightarrow> raise_severity s n \<le> raise_severity t n"
  by (simp add: less_eq_severity_def raise_severity_index)

section \<open>Management ports\<close>

definition LATERAL_PORTS_DEFAULT :: "(int \<times> string \<times> port_class) list" where
  "LATERAL_PORTS_DEFAULT =
     [(445, ''SMB'', PC_REMOTE), (135, ''RPC'', PC_REMOTE), (139, ''NetBIOS'', PC_REMOTE),
      (3389, ''RDP'', PC_REMOTE), (22, ''SSH'', PC_REMOTE), (5985, ''WinRM-HTTP'', PC_REMOTE),
      (5986, ''WinRM-HTTPS'', PC_REMOTE), (23, ''Telnet'', PC_REMOTE), (2049, ''NFS'', PC_REMOTE),
      (111, ''RPC Portmapper'', PC_REMOTE), (5900, ''VNC'', PC_REMOTE), (5938, ''TeamViewer'', PC_REMOTE),
      (88, ''Kerberos'', PC_DIRECTORY), (464, ''Kerberos-PW'', PC_DIRECTORY), (389, ''LDAP'', PC_DIRECTORY),
      (636, ''LDAPS'', PC_DIRECTORY), (3268, ''LDAP-GC'', PC_DIRECTORY), (3269, ''LDAPS-GC'', PC_DIRECTORY),
      (9389, ''ADWS'', PC_DIRECTORY), (1433, ''MSSQL'', PC_DATABASE), (3306, ''MySQL'', PC_DATABASE),
      (5432, ''PostgreSQL'', PC_DATABASE)]"

definition BUILTIN_UDP_PORTS :: "int list" where
  "BUILTIN_UDP_PORTS = [88, 464, 389, 3389, 2049, 111, 5938]"

definition builtin_protocols :: "int \<Rightarrow> int list" where
  "builtin_protocols p = (if p \<in> set BUILTIN_UDP_PORTS then [6, 17] else [6])"

section \<open>Visibility and draft decisions\<close>

definition visibility_sees_allowed :: "string option \<Rightarrow> bool option" where
  "visibility_sees_allowed level =
     (case level of
        None \<Rightarrow> None
      | Some l \<Rightarrow> dict_get [(''flow_summary'', True), (''enhanced_data_collection'', True),
                           (''flow_drops'', False), (''flow_off'', False)] l)"

definition parse_draft_policy_decision :: "string \<Rightarrow> string" where
  "parse_draft_policy_decision raw = py_lower (py_strip raw)"

section \<open>Value strings identify their members\<close>

lemma decision_value_inj: "policy_decision_value a = policy_decision_value b \<longleftrightarrow> a = b"
  by (cases a; cases b) simp_all

end
