(* ===== verification/Ipaddress.thy ===== *)
theory Ipaddress
  imports PyStr
begin

text \<open>
  What the code uses of Python's \<open>ipaddress\<close> module (3.12): addresses and networks of both
  families as integers, parsing and printing of their text forms, containment, overlap,
  \<open>supernet_of\<close>, \<open>address_exclude\<close>, \<open>summarize_address_range\<close> and \<open>is_global\<close>. A parse that
  raises \<open>ValueError\<close> is \<open>None\<close>. IPv6 zone identifiers (\<open>%eth0\<close>) are not read: an address with
  one does not parse here.
\<close>

section \<open>Addresses and networks\<close>

datatype ipver = V4 | V6

fun ip_width :: "ipver \<Rightarrow> nat" where
  "ip_width V4 = 32"
| "ip_width V6 = 128"

datatype ipaddr = Addr (addr_ver: ipver) (addr_int: int)
datatype ipnet = Net (net_ver: ipver) (net_int: int) (net_len: nat)

definition host_bits :: "ipnet \<Rightarrow> nat" where
  "host_bits n = ip_width (net_ver n) - net_len n"

definition num_addresses :: "ipnet \<Rightarrow> int" where
  "num_addresses n = 2 ^ host_bits n"

definition network_address :: "ipnet \<Rightarrow> ipaddr" where
  "network_address n = Addr (net_ver n) (net_int n)"

definition broadcast_int :: "ipnet \<Rightarrow> int" where
  "broadcast_int n = net_int n + num_addresses n - 1"

text \<open>\<open>ip_network((ip, prefix), strict=False)\<close>: the host bits are masked off.\<close>

definition net_of :: "ipver \<Rightarrow> int \<Rightarrow> nat \<Rightarrow> ipnet" where
  "net_of v i l = Net v (i - i mod 2 ^ (ip_width v - l)) l"

text \<open>\<open>addr in net\<close> compares the masked address with the network address; an address of the
  other family is in no network.\<close>

definition addr_in :: "ipaddr \<Rightarrow> ipnet \<Rightarrow> bool" where
  "addr_in a n = (addr_ver a = net_ver n \<and>
     addr_int a - addr_int a mod num_addresses n = net_int n)"

definition wf_addr :: "ipaddr \<Rightarrow> bool" where
  [shape_defs]: "wf_addr a = (0 \<le> addr_int a \<and> addr_int a < 2 ^ ip_width (addr_ver a))"

definition wf_net :: "ipnet \<Rightarrow> bool" where
  [shape_defs]: "wf_net n = (net_len n \<le> ip_width (net_ver n) \<and>
     0 \<le> net_int n \<and> net_int n < 2 ^ ip_width (net_ver n) \<and> net_int n mod num_addresses n = 0)"

text \<open>\<open>_BaseNetwork.overlaps\<close>, \<open>supernet_of\<close> (the families already agree where the code
  calls it) and the two halves \<open>subnets()\<close> yields.\<close>

definition net_overlaps :: "ipnet \<Rightarrow> ipnet \<Rightarrow> bool" where
  "net_overlaps m n =
     (addr_in (network_address n) m \<or> addr_in (Addr (net_ver n) (broadcast_int n)) m \<or>
      addr_in (network_address m) n \<or> addr_in (Addr (net_ver m) (broadcast_int m)) n)"

definition supernet_of :: "ipnet \<Rightarrow> ipnet \<Rightarrow> bool" where
  "supernet_of a b = (net_int a \<le> net_int b \<and> broadcast_int b \<le> broadcast_int a)"

definition lower_half :: "ipnet \<Rightarrow> ipnet" where
  "lower_half n = Net (net_ver n) (net_int n) (Suc (net_len n))"

definition upper_half :: "ipnet \<Rightarrow> ipnet" where
  "upper_half n = Net (net_ver n) (net_int n + 2 ^ (host_bits n - 1)) (Suc (net_len n))"

text \<open>\<open>address_exclude\<close>: halve until one half is what is excluded, yielding the other half each
  time. The last two branches are the source's \<open>AssertionError\<close>; on well-formed networks they
  are not reached (\<open>exclude_loop_addrs\<close>).\<close>

function exclude_loop :: "ipnet \<Rightarrow> ipnet \<Rightarrow> ipnet \<Rightarrow> ipnet list" where
  "exclude_loop s1 s2 other =
     (if s1 = other then [s2]
      else if s2 = other then [s1]
      else if net_len other \<le> net_len s1 \<or> net_len other \<le> net_len s2 then []
      else if supernet_of s1 other then s2 # exclude_loop (lower_half s1) (upper_half s1) other
      else if supernet_of s2 other then s1 # exclude_loop (lower_half s2) (upper_half s2) other
      else [])"
  by pat_completeness auto
termination
  by (relation "measure (\<lambda>(s1, s2, other). net_len other - min (net_len s1) (net_len s2))")
     (auto simp: lower_half_def upper_half_def)

declare exclude_loop.simps [simp del]

definition address_exclude :: "ipnet \<Rightarrow> ipnet \<Rightarrow> ipnet list" where
  "address_exclude n other =
     (if other = n then [] else exclude_loop (lower_half n) (upper_half n) other)"

text \<open>\<open>summarize_address_range\<close>: from the first address on, the widest aligned block that stays
  within the range.\<close>

fun trailing_zeros :: "nat \<Rightarrow> int \<Rightarrow> nat" where
  "trailing_zeros 0 n = 0"
| "trailing_zeros (Suc b) n = (if n mod 2 = 0 then Suc (trailing_zeros b (n div 2)) else 0)"

function log2_floor :: "int \<Rightarrow> nat" where
  "log2_floor n = (if n < 2 then 0 else Suc (log2_floor (n div 2)))"
  by pat_completeness auto
termination
  by (relation "measure nat") auto

declare log2_floor.simps [simp del]

function summarize_loop :: "ipver \<Rightarrow> int \<Rightarrow> int \<Rightarrow> ipnet list" where
  "summarize_loop v lo hi =
     (if lo \<le> hi then
        (let nbits = min (trailing_zeros (ip_width v) lo) (log2_floor (hi - lo + 1))
         in Net v lo (ip_width v - nbits) # summarize_loop v (lo + 2 ^ nbits) hi)
      else [])"
  by pat_completeness auto
termination
  by (relation "measure (\<lambda>(v, lo, hi). nat (hi + 1 - lo))") (auto simp: Let_def)

declare summarize_loop.simps [simp del]

definition summarize_address_range :: "ipaddr \<Rightarrow> ipaddr \<Rightarrow> ipnet list option" where
  "summarize_address_range a b =
     (if addr_ver a \<noteq> addr_ver b then None          \<comment> \<open>TypeError\<close>
      else if addr_int b < addr_int a then None      \<comment> \<open>ValueError\<close>
      else Some (summarize_loop (addr_ver a) (addr_int a) (addr_int b)))"

section \<open>Text forms\<close>

definition parse_octet :: "string \<Rightarrow> int option" where
  "parse_octet s =
     (if s = '''' \<or> \<not> list_all is_digit s \<or> 3 < length s \<or> (s \<noteq> ''0'' \<and> hd s = CHR ''0'') then None
      else if 255 < int_of_digits s then None else Some (int_of_digits s))"

fun sequence_opt :: "'a option list \<Rightarrow> 'a list option" where
  "sequence_opt [] = Some []"
| "sequence_opt (None # xs) = None"
| "sequence_opt (Some x # xs) = map_option (\<lambda>ys. x # ys) (sequence_opt xs)"

definition ipv4_int :: "string \<Rightarrow> int option" where
  "ipv4_int s =
     (case sequence_opt (map parse_octet (split_on CHR ''.'' s)) of
        Some [a, b, c, d] \<Rightarrow> Some (((a * 256 + b) * 256 + c) * 256 + d)
      | _ \<Rightarrow> None)"

definition hex_val :: "char \<Rightarrow> int option" where
  "hex_val c = (let n = (of_char c :: int) in
     if 48 \<le> n \<and> n \<le> 57 then Some (n - 48)
     else if 97 \<le> n \<and> n \<le> 102 then Some (n - 87)
     else if 65 \<le> n \<and> n \<le> 70 then Some (n - 55) else None)"

definition parse_hextet :: "string \<Rightarrow> int option" where
  "parse_hextet s =
     (if s = '''' \<or> 4 < length s then None
      else map_option (foldl (\<lambda>a d. 16 * a + d) 0) (sequence_opt (map hex_val s)))"

definition hextets_int :: "string list \<Rightarrow> int option" where
  "hextets_int ps = map_option (foldl (\<lambda>a d. 65536 * a + d) 0) (sequence_opt (map parse_hextet ps))"

definition hex_digit :: "int \<Rightarrow> char" where
  "hex_digit n = (if n < 10 then char_of (48 + n) else char_of (87 + n))"

function hex_str :: "int \<Rightarrow> string" where
  "hex_str n = (if n < 16 then [hex_digit n] else hex_str (n div 16) @ [hex_digit (n mod 16)])"
  by pat_completeness auto
termination
  by (relation "measure nat") auto

declare hex_str.simps [simp del]

text \<open>\<open>_BaseV6._ip_int_from_string\<close>: an IPv4 tail becomes two hextets; the one \<open>::\<close> (an empty part
  that is neither first nor last) stands for the missing hextets.\<close>

definition expand_v4_tail :: "string list \<Rightarrow> string list option" where
  "expand_v4_tail parts =
     (if CHR ''.'' \<in> set (last parts) then
        map_option (\<lambda>i. butlast parts @ [hex_str (i div 65536), hex_str (i mod 65536)]) (ipv4_int (last parts))
      else Some parts)"

definition skip_indices :: "string list \<Rightarrow> nat list" where
  "skip_indices parts = filter (\<lambda>i. parts ! i = '''') [1..<length parts - 1]"

definition ipv6_parts_int :: "string list \<Rightarrow> int option" where
  "ipv6_parts_int parts =
     (if 9 < length parts then None
      else case skip_indices parts of
        [] \<Rightarrow> (if length parts \<noteq> 8 \<or> hd parts = '''' \<or> last parts = '''' then None else hextets_int parts)
      | [k] \<Rightarrow>
          (let hi = (if hd parts = '''' then k - 1 else k);
               lo0 = length parts - k - 1;
               lo = (if last parts = '''' then lo0 - 1 else lo0)
           in if (hd parts = '''' \<and> hi \<noteq> 0) \<or> (last parts = '''' \<and> lo \<noteq> 0) \<or> 7 < hi + lo then None
              else case (hextets_int (take hi parts), hextets_int (drop (length parts - lo) parts)) of
                     (Some h, Some l) \<Rightarrow> Some (h * 65536 ^ (8 - hi) + l)
                   | _ \<Rightarrow> None)
      | _ \<Rightarrow> None)"

definition ipv6_int :: "string \<Rightarrow> int option" where
  "ipv6_int s =
     (let parts = split_on CHR '':'' s
      in if length parts < 3 then None else Option.bind (expand_v4_tail parts) ipv6_parts_int)"

definition ip_address :: "string \<Rightarrow> ipaddr option" where
  "ip_address s =
     (if CHR ''/'' \<in> set s then None
      else case ipv4_int s of
        Some i \<Rightarrow> Some (Addr V4 i)
      | None \<Rightarrow> map_option (Addr V6) (ipv6_int s))"

text \<open>The part after the slash: a prefix length; for IPv4 also a netmask or a host mask.\<close>

definition prefix_of_digits :: "nat \<Rightarrow> string \<Rightarrow> nat option" where
  "prefix_of_digits w s =
     (if s \<noteq> '''' \<and> list_all is_digit s \<and> int_of_digits s \<le> int w then Some (nat (int_of_digits s)) else None)"

definition prefix_of_mask :: "int \<Rightarrow> nat option" where
  "prefix_of_mask m =
     (let tz = trailing_zeros 32 m; l = 32 - tz
      in if m div 2 ^ tz = 2 ^ l - 1 then Some l else None)"

definition v4_prefix :: "string \<Rightarrow> nat option" where
  "v4_prefix s =
     (case prefix_of_digits 32 s of
        Some l \<Rightarrow> Some l
      | None \<Rightarrow>
          Option.bind (ipv4_int s) (\<lambda>m.
            case prefix_of_mask m of
              Some l \<Rightarrow> Some l
            | None \<Rightarrow> prefix_of_mask (2 ^ 32 - 1 - m)))"

definition make_net :: "ipver \<Rightarrow> int option \<Rightarrow> nat option \<Rightarrow> ipnet option" where
  "make_net v i l = (case (i, l) of (Some i', Some l') \<Rightarrow> Some (net_of v i' l') | _ \<Rightarrow> None)"

definition ip_network :: "string \<Rightarrow> ipnet option" where
  "ip_network s =
     (case split_on CHR ''/'' s of
        [a] \<Rightarrow> (case make_net V4 (ipv4_int a) (Some 32) of
                  Some n \<Rightarrow> Some n | None \<Rightarrow> make_net V6 (ipv6_int a) (Some 128))
      | [a, m] \<Rightarrow> (case make_net V4 (ipv4_int a) (v4_prefix m) of
                  Some n \<Rightarrow> Some n | None \<Rightarrow> make_net V6 (ipv6_int a) (prefix_of_digits 128 m))
      | _ \<Rightarrow> None)"

text \<open>Printing: dotted quads, and hextets with the first longest run of two or more zeros
  replaced by \<open>::\<close>.\<close>

definition ipv4_str :: "int \<Rightarrow> string" where
  "ipv4_str i = py_join ''.'' (map dec_str [i div 16777216, i div 65536 mod 256, i div 256 mod 256, i mod 256])"

definition hextets_of :: "int \<Rightarrow> int list" where
  "hextets_of i = map (\<lambda>k. i div 65536 ^ k mod 65536) [7, 6, 5, 4, 3, 2, 1, 0]"

definition zero_run :: "int list \<Rightarrow> nat \<Rightarrow> nat" where
  "zero_run hs i = length (takeWhile (\<lambda>h. h = 0) (drop i hs))"

definition best_run :: "int list \<Rightarrow> nat \<times> nat" where
  "best_run hs = foldl (\<lambda>(s, l) i. if l < zero_run hs i then (i, zero_run hs i) else (s, l)) (0, 0) [0..<8]"

definition ipv6_str :: "int \<Rightarrow> string" where
  "ipv6_str i =
     (let hs = hextets_of i; (s, l) = best_run hs; ts = map hex_str hs
      in if l < 2 then py_join '':'' ts
         else py_join '':'' ((if s = 0 then [''''] else []) @ take s ts @ [''''] @
                drop (s + l) ts @ (if s + l = 8 then [''''] else [])))"

fun addr_str :: "ipaddr \<Rightarrow> string" where
  "addr_str (Addr V4 i) = ipv4_str i"
| "addr_str (Addr V6 i) = ipv6_str i"

definition net_str :: "ipnet \<Rightarrow> string" where
  "net_str n = addr_str (network_address n) @ ''/'' @ dec_str (int (net_len n))"

section \<open>Globally reachable addresses\<close>

definition v4_net :: "int \<Rightarrow> int \<Rightarrow> int \<Rightarrow> int \<Rightarrow> nat \<Rightarrow> ipnet" where
  "v4_net a b c d l = Net V4 (((a * 256 + b) * 256 + c) * 256 + d) l"

definition v6_net :: "int \<Rightarrow> int \<Rightarrow> int \<Rightarrow> int \<Rightarrow> nat \<Rightarrow> ipnet" where
  "v6_net a b c z l = Net V6 (((a * 65536 + b) * 65536 + c) * 65536 ^ 5 + z) l"

definition v4_private :: "ipnet list" where
  "v4_private =
     [v4_net 0 0 0 0 8, v4_net 10 0 0 0 8, v4_net 127 0 0 0 8, v4_net 169 254 0 0 16, v4_net 172 16 0 0 12,
      v4_net 192 0 0 0 24, v4_net 192 0 0 170 31, v4_net 192 0 2 0 24, v4_net 192 168 0 0 16,
      v4_net 198 18 0 0 15, v4_net 198 51 100 0 24, v4_net 203 0 113 0 24, v4_net 240 0 0 0 4,
      v4_net 255 255 255 255 32]"

definition v4_private_exceptions :: "ipnet list" where
  "v4_private_exceptions = [v4_net 192 0 0 9 32, v4_net 192 0 0 10 32]"

definition v6_private :: "ipnet list" where
  "v6_private =
     [v6_net 0 0 0 1 128, v6_net 0 0 0 0 128, v6_net 0 0 0 0xFFFF00000000 96, v6_net 0x64 0xFF9B 1 0 48,
      v6_net 0x100 0 0 0 64, v6_net 0x2001 0 0 0 23, v6_net 0x2001 0xDB8 0 0 32, v6_net 0x2002 0 0 0 16,
      v6_net 0xFC00 0 0 0 7, v6_net 0xFE80 0 0 0 10]"

definition v6_private_exceptions :: "ipnet list" where
  "v6_private_exceptions =
     [v6_net 0x2001 1 0 1 128, v6_net 0x2001 1 0 2 128, v6_net 0x2001 3 0 0 32, v6_net 0x2001 4 0x112 0 48,
      v6_net 0x2001 0x20 0 0 28, v6_net 0x2001 0x30 0 0 28]"

definition is_private_in :: "ipnet list \<Rightarrow> ipnet list \<Rightarrow> ipaddr \<Rightarrow> bool" where
  "is_private_in nets exceptions a =
     (list_ex (addr_in a) nets \<and> list_all (\<lambda>n. \<not> addr_in a n) exceptions)"

definition ipv4_mapped :: "ipaddr \<Rightarrow> ipaddr option" where
  "ipv4_mapped a =
     (if addr_ver a = V6 \<and> addr_int a div 2 ^ 32 = 0xFFFF then Some (Addr V4 (addr_int a mod 2 ^ 32)) else None)"

definition is_private4 :: "ipaddr \<Rightarrow> bool" where
  "is_private4 a = is_private_in v4_private v4_private_exceptions a"

definition is_global :: "ipaddr \<Rightarrow> bool" where
  "is_global a =
     (case addr_ver a of
        V4 \<Rightarrow> \<not> addr_in a (v4_net 100 64 0 0 10) \<and> \<not> is_private4 a
      | V6 \<Rightarrow> (case ipv4_mapped a of
                 Some m \<Rightarrow> \<not> is_private4 m
               | None \<Rightarrow> \<not> is_private_in v6_private v6_private_exceptions a))"

end
