(* ===== verification/IpBlocks.thy ===== *)
theory IpBlocks
  imports Ipaddress
begin

text \<open>
  Networks as the sets of addresses they stand for: two well-formed networks are nested or apart,
  \<open>overlaps\<close> and \<open>supernet_of\<close> decide intersection and inclusion, \<open>address_exclude\<close> and
  \<open>summarize_address_range\<close> cover exactly the difference and the range. The locale
  \<open>address_blocks\<close> is the interface the policy resolver's subtraction is written against.
\<close>


section \<open>Networks as sets of addresses\<close>

definition net_addrs :: "ipnet \<Rightarrow> ipaddr set" where
  "net_addrs n = {a. addr_in a n}"

lemma mem_net_addrs [simp]: "a \<in> net_addrs n \<longleftrightarrow> addr_in a n"
  by (simp add: net_addrs_def)

lemma num_addresses_pos [simp]: "0 < num_addresses n"
  by (simp add: num_addresses_def)

lemma masked_eq_iff:
  fixes x b m :: int
  assumes "0 < m" "b mod m = 0"
  shows "x - x mod m = b \<longleftrightarrow> b \<le> x \<and> x < b + m"
proof
  assume "x - x mod m = b"
  moreover have "0 \<le> x mod m" "x mod m < m" using assms by simp_all
  ultimately show "b \<le> x \<and> x < b + m" by linarith
next
  assume x: "b \<le> x \<and> x < b + m"
  have "x mod m = (x - b) mod m" using assms(2) by (metis diff_zero mod_diff_right_eq)
  also have "\<dots> = x - b" using x by (intro mod_pos_pos_trivial) auto
  finally show "x - x mod m = b" by simp
qed

lemma addr_in_iff:
  "wf_net n \<Longrightarrow> addr_in a n \<longleftrightarrow>
     addr_ver a = net_ver n \<and> net_int n \<le> addr_int a \<and> addr_int a < net_int n + num_addresses n"
  unfolding addr_in_def wf_net_def by (metis masked_eq_iff num_addresses_pos)

lemma network_address_in: "wf_net n \<Longrightarrow> addr_in (network_address n) n"
  by (simp add: addr_in_iff network_address_def)

lemma net_addrs_nonempty: "wf_net n \<Longrightarrow> net_addrs n \<noteq> {}"
  using network_address_in by fastforce

text \<open>Aligned blocks are nested or apart.\<close>

lemma block_nested_int:
  fixes x q s :: int
  assumes "0 < q" "0 < s"
  shows "x - x mod (s * q) \<le> x - x mod s" "x - x mod s + s \<le> x - x mod (s * q) + s * q"
proof -
  have "x div (s * q) = x div s div q" using assms by (intro zdiv_zmult2_eq) simp
  then have e: "x - x mod s = (x div s) * s" "x - x mod (s * q) = (x div s div q) * q * s"
    by (simp_all add: minus_mod_eq_div_mult)
  have "(x div s div q) * q \<le> x div s" using assms
    by (simp add: minus_mod_eq_div_mult [symmetric])
  then show "x - x mod (s * q) \<le> x - x mod s"
    unfolding e using assms by simp
  have "x div s mod q < q" using assms by simp
  then have "x div s + 1 \<le> (x div s div q) * q + q"
    by (simp add: minus_mod_eq_div_mult [symmetric])
  then have "(x div s + 1) * s \<le> ((x div s div q) * q + q) * s"
    using assms by (intro mult_right_mono) auto
  then show "x - x mod s + s \<le> x - x mod (s * q) + s * q"
    unfolding e by (simp add: algebra_simps)
qed

lemma net_nested:
  assumes "wf_net m" "wf_net n" "net_len n \<le> net_len m" "addr_in a m" "addr_in a n"
  shows "net_addrs m \<subseteq> net_addrs n"
proof -
  from assms have v: "net_ver m = net_ver n" by (simp add: addr_in_def)
  have len: "net_len m \<le> ip_width (net_ver n)" using assms v by (simp add: wf_net_def)
  have hb: "host_bits n = host_bits m + (net_len m - net_len n)"
    using len assms(3) v by (simp add: host_bits_def)
  define s :: int where "s = num_addresses m"
  define q :: int where "q = 2 ^ (net_len m - net_len n)"
  have sq: "num_addresses n = s * q"
    by (simp add: s_def q_def num_addresses_def hb power_add)
  have pos: "0 < s" "0 < q" by (simp_all add: s_def q_def)
  have m: "net_int m = addr_int a - addr_int a mod s" and n: "net_int n = addr_int a - addr_int a mod (s * q)"
    using assms(4,5) sq by (simp_all add: addr_in_def s_def)
  have "net_int n \<le> net_int m" "net_int m + s \<le> net_int n + s * q"
    unfolding m n using block_nested_int [OF pos(2,1)] by simp_all
  then show ?thesis
    using assms(1,2) v sq by (auto simp: addr_in_iff s_def)
qed

lemma broadcast_in: "wf_net n \<Longrightarrow> addr_in (Addr (net_ver n) (broadcast_int n)) n"
  using num_addresses_pos [of n] by (auto simp: addr_in_iff broadcast_int_def)

lemma overlaps_iff:
  assumes "wf_net m" "wf_net n"
  shows "net_overlaps m n \<longleftrightarrow> net_addrs m \<inter> net_addrs n \<noteq> {}"
proof
  assume "net_overlaps m n"
  then show "net_addrs m \<inter> net_addrs n \<noteq> {}"
    using network_address_in [OF assms(1)] network_address_in [OF assms(2)]
      broadcast_in [OF assms(1)] broadcast_in [OF assms(2)]
    unfolding net_overlaps_def by (auto simp: disjoint_iff)
next
  assume "net_addrs m \<inter> net_addrs n \<noteq> {}"
  then obtain a where a: "addr_in a m" "addr_in a n" by auto
  show "net_overlaps m n"
  proof (cases "net_len n \<le> net_len m")
    case True
    from net_nested [OF assms True a] network_address_in [OF assms(1)] show ?thesis
      by (auto simp: net_overlaps_def)
  next
    case False
    then have "net_len m \<le> net_len n" by simp
    from net_nested [OF assms(2,1) this a(2,1)] network_address_in [OF assms(2)] show ?thesis
      by (auto simp: net_overlaps_def)
  qed
qed

lemma supernet_iff:
  assumes "wf_net a" "wf_net b" "net_ver a = net_ver b"
  shows "supernet_of a b \<longleftrightarrow> net_addrs b \<subseteq> net_addrs a"
proof
  assume "supernet_of a b"
  then show "net_addrs b \<subseteq> net_addrs a"
    using assms by (auto simp: supernet_of_def broadcast_int_def addr_in_iff)
next
  assume "net_addrs b \<subseteq> net_addrs a"
  then have "addr_in (network_address b) a" "addr_in (Addr (net_ver b) (broadcast_int b)) a"
    using network_address_in [OF assms(2)] broadcast_in [OF assms(2)] by auto
  then show "supernet_of a b"
    using assms by (auto simp: supernet_of_def addr_in_iff network_address_def broadcast_int_def)
qed

subsection \<open>Halving\<close>

lemma half_bits: "net_len n < ip_width (net_ver n) \<Longrightarrow> host_bits n = Suc (host_bits n - 1)"
  by (simp add: host_bits_def)

lemma halves:
  assumes "wf_net n" "net_len n < ip_width (net_ver n)"
  shows "wf_net (lower_half n)" "wf_net (upper_half n)"
    "net_addrs (lower_half n) \<union> net_addrs (upper_half n) = net_addrs n"
    "net_addrs (lower_half n) \<inter> net_addrs (upper_half n) = {}"
proof -
  define h :: int where "h = 2 ^ (host_bits n - 1)"
  have size: "num_addresses n = 2 * h"
    using half_bits [OF assms(2)] by (metis h_def num_addresses_def power_Suc)
  have bits: "num_addresses (lower_half n) = h" "num_addresses (upper_half n) = h"
    using assms(2) by (simp_all add: num_addresses_def host_bits_def lower_half_def upper_half_def h_def)
  have h: "0 < h" by (simp add: h_def)
  have mod2: "net_int n mod (2 * h) = 0" and lt: "0 \<le> net_int n" "net_int n < 2 ^ ip_width (net_ver n)"
    using assms(1) by (simp_all add: wf_net_def size)
  then have mod1: "net_int n mod h = 0"
    by (metis mod_mod_cancel dvd_triv_right mod_0)
  have dvd: "(2 * h) dvd 2 ^ ip_width (net_ver n)"
    using assms(2) by (simp add: size [symmetric] num_addresses_def host_bits_def le_imp_power_dvd)
  have top: "net_int n + 2 * h \<le> 2 ^ ip_width (net_ver n)"
  proof -
    obtain k where k: "net_int n = 2 * h * k" using mod2 by (metis mod_0_imp_dvd dvdE)
    obtain l where l: "2 ^ ip_width (net_ver n) = 2 * h * l" using dvd by (metis dvdE)
    have "k < l" using lt(2) h unfolding k l by (simp add: mult_less_cancel_left_pos)
    then have "k + 1 \<le> l" by simp
    then have "2 * h * (k + 1) \<le> 2 * h * l" using h by (intro mult_left_mono) auto
    then show ?thesis unfolding k l by (simp add: algebra_simps)
  qed
  show wl: "wf_net (lower_half n)"
    using assms lt mod1 bits(1) by (simp add: wf_net_def lower_half_def)
  show wu: "wf_net (upper_half n)"
  proof -
    have "(net_int n + h) mod h = 0" using mod1 by simp
    moreover have "net_int n + h < 2 ^ ip_width (net_ver n)" using top h by linarith
    moreover have "net_int (upper_half n) = net_int n + h" by (simp add: upper_half_def h_def)
    ultimately show ?thesis
      unfolding wf_net_def bits(2) using assms(2) lt(1) h by (simp add: upper_half_def)
  qed
  have "net_int (lower_half n) = net_int n" "net_int (upper_half n) = net_int n + h"
    "net_ver (lower_half n) = net_ver n" "net_ver (upper_half n) = net_ver n"
    by (simp_all add: lower_half_def upper_half_def h_def)
  then show "net_addrs (lower_half n) \<union> net_addrs (upper_half n) = net_addrs n"
    "net_addrs (lower_half n) \<inter> net_addrs (upper_half n) = {}"
    using wl wu assms(1) bits size h by (auto simp: addr_in_iff)
qed

lemma half_fields [simp]:
  "net_len (lower_half n) = Suc (net_len n)" "net_len (upper_half n) = Suc (net_len n)"
  "net_ver (lower_half n) = net_ver n" "net_ver (upper_half n) = net_ver n"
  by (simp_all add: lower_half_def upper_half_def)

lemma within_half:
  assumes "wf_net n" "wf_net other" "net_len n < net_len other" "net_addrs other \<subseteq> net_addrs n"
  shows "net_addrs other \<subseteq> net_addrs (lower_half n) \<or> net_addrs other \<subseteq> net_addrs (upper_half n)"
proof -
  from assms network_address_in [OF assms(2)] have "addr_in (network_address other) n" by auto
  then have v: "net_ver other = net_ver n" by (simp add: addr_in_def network_address_def)
  then have l: "net_len n < ip_width (net_ver n)"
    using assms(2,3) by (simp add: wf_net_def)
  note h = halves [OF assms(1) l]
  from h(3) \<open>addr_in (network_address other) n\<close>
  have "addr_in (network_address other) (lower_half n) \<or> addr_in (network_address other) (upper_half n)"
    by auto
  then show ?thesis
    using net_nested [OF assms(2) h(1)] net_nested [OF assms(2) h(2)] network_address_in [OF assms(2)] assms(3)
    by auto
qed

lemma same_len_eq:
  assumes "wf_net m" "wf_net n" "net_len m = net_len n" "addr_in a m" "addr_in a n"
  shows "m = n"
proof -
  have "net_ver m = net_ver n" using assms by (simp add: addr_in_def)
  moreover from this have "num_addresses m = num_addresses n"
    using assms(3) by (simp add: num_addresses_def host_bits_def)
  moreover have "net_int m = addr_int a - addr_int a mod num_addresses m"
    "net_int n = addr_int a - addr_int a mod num_addresses n"
    by (rule assms(4) [unfolded addr_in_def, THEN conjunct2, symmetric]) (rule assms(5) [unfolded addr_in_def, THEN conjunct2, symmetric])
  ultimately have "net_ver m = net_ver n \<and> net_int m = net_int n" by metis
  with assms(3) show ?thesis by (simp add: ipnet.expand)
qed

lemma exclude_loop_hit:
  "exclude_loop s1 s2 s1 = [s2]" "s1 \<noteq> s2 \<Longrightarrow> exclude_loop s1 s2 s2 = [s1]"
  by (subst exclude_loop.simps; simp)+

lemma exclude_loop_addrs:
  assumes "wf_net s1" "wf_net s2" "wf_net other" "net_ver s1 = net_ver s2" "net_ver other = net_ver s1"
    "net_len s1 = net_len s2" "net_len s1 \<le> net_len other"
    "net_addrs s1 \<inter> net_addrs s2 = {}"
    "net_addrs other \<subseteq> net_addrs s1 \<or> net_addrs other \<subseteq> net_addrs s2"
  shows "(\<Union>n \<in> set (exclude_loop s1 s2 other). net_addrs n) = (net_addrs s1 \<union> net_addrs s2) - net_addrs other \<and>
     (\<forall>n \<in> set (exclude_loop s1 s2 other). wf_net n \<and> net_ver n = net_ver other)"
  using assms
proof (induction s1 s2 other rule: exclude_loop.induct)
  case (1 s1 s2 other)
  note wf = "1.prems"
  note rec = exclude_loop.simps [of s1 s2 other]
  have narrower: "net_len s1 < net_len other" if "s1 \<noteq> other" "s2 \<noteq> other"
  proof -
    have "addr_in (network_address other) s1 \<or> addr_in (network_address other) s2"
      using wf(9) network_address_in [OF wf(3)] by auto
    moreover have na: "addr_in (network_address other) other" by (rule network_address_in [OF wf(3)])
    ultimately have "net_len s1 = net_len other \<Longrightarrow> False"
    proof (elim disjE)
      assume e: "net_len s1 = net_len other" and "addr_in (network_address other) s1"
      with same_len_eq [OF wf(1,3) e _ na] that show False by blast
    next
      assume "net_len s1 = net_len other" and a: "addr_in (network_address other) s2"
      then have "net_len s2 = net_len other" using wf(6) by simp
      from same_len_eq [OF wf(2,3) this a na] that show False by blast
    qed
    then show ?thesis using wf(7) le_neq_implies_less by blast
  qed
  show ?case
  proof (cases "s1 = other \<or> s2 = other")
    case True
    have "s1 = other \<Longrightarrow> exclude_loop s1 s2 other = [s2]"
      "s1 \<noteq> other \<Longrightarrow> s2 = other \<Longrightarrow> exclude_loop s1 s2 other = [s1]"
      by (simp_all add: exclude_loop_hit)
    moreover have "net_addrs s2 = (net_addrs s1 \<union> net_addrs s2) - net_addrs s1"
      "net_addrs s1 = (net_addrs s1 \<union> net_addrs s2) - net_addrs s2"
      using wf(8) by (simp_all only: Un_Diff Diff_cancel Un_empty_left Un_empty_right Diff_triv Int_commute)
    ultimately show ?thesis using True wf(1,2) wf(4) [symmetric] by (cases "s1 = other") simp_all
  next
    case False
    then have lt: "net_len s1 < net_len other" "net_len s2 < net_len other"
      using narrower wf(6) by auto
    have w: "net_len s1 < ip_width (net_ver s1)" "net_len s2 < ip_width (net_ver s2)"
      using lt wf(3,4,5) by (simp_all add: wf_net_def)
    show ?thesis
    proof (cases "supernet_of s1 other")
      case True
      then have sub: "net_addrs other \<subseteq> net_addrs s1" using wf by (simp add: supernet_iff)
      note h = halves [OF wf(1) w(1)]
      have "(\<Union>n \<in> set (exclude_loop (lower_half s1) (upper_half s1) other). net_addrs n) =
          net_addrs s1 - net_addrs other \<and>
          (\<forall>n \<in> set (exclude_loop (lower_half s1) (upper_half s1) other). wf_net n \<and> net_ver n = net_ver other)"
        using "1.IH"(1) False lt True h wf within_half [OF wf(1,3) lt(1) sub] by simp
      moreover have "exclude_loop s1 s2 other = s2 # exclude_loop (lower_half s1) (upper_half s1) other"
        using False lt True by (simp add: rec)
      ultimately show ?thesis using sub wf(2,4,5,8) by (auto simp del: mem_net_addrs)
    next
      case nsup: False
      then have sub: "net_addrs other \<subseteq> net_addrs s2" and sup2: "supernet_of s2 other"
        using wf by (auto simp: supernet_iff)
      note h = halves [OF wf(2) w(2)]
      have "(\<Union>n \<in> set (exclude_loop (lower_half s2) (upper_half s2) other). net_addrs n) =
          net_addrs s2 - net_addrs other \<and>
          (\<forall>n \<in> set (exclude_loop (lower_half s2) (upper_half s2) other). wf_net n \<and> net_ver n = net_ver other)"
        using "1.IH"(2) False lt nsup sup2 h wf within_half [OF wf(2,3) lt(2) sub] by simp
      moreover have "exclude_loop s1 s2 other = s1 # exclude_loop (lower_half s2) (upper_half s2) other"
        using False lt nsup sup2 by (simp add: rec)
      ultimately show ?thesis using sub wf(1,5,8) by (auto simp del: mem_net_addrs)
    qed
  qed
qed

text \<open>What the source's \<open>address_exclude\<close> leaves of a network that strictly holds the other.\<close>

lemma address_exclude_addrs:
  assumes "wf_net n" "wf_net other" "net_addrs other \<subseteq> net_addrs n"
  shows "(\<Union>k \<in> set (address_exclude n other). net_addrs k) = net_addrs n - net_addrs other \<and>
    (\<forall>k \<in> set (address_exclude n other). wf_net k \<and> net_ver k = net_ver n)"
proof (cases "other = n")
  case True
  then show ?thesis by (simp add: address_exclude_def)
next
  case False
  have a: "addr_in (network_address other) n" using assms network_address_in [OF assms(2)] by auto
  then have v: "net_ver other = net_ver n" by (simp add: addr_in_def network_address_def)
  have lt: "net_len n < net_len other"
  proof (rule ccontr)
    assume "\<not> net_len n < net_len other"
    then have "net_addrs n \<subseteq> net_addrs other"
      using net_nested [OF assms(1,2) _ a] network_address_in [OF assms(2)] by auto
    then have "net_addrs n = net_addrs other" using assms(3) by auto
    then have "net_int n = net_int other" "num_addresses n = num_addresses other"
      using assms(1,2) v supernet_iff [OF assms(1,2) v [symmetric]] supernet_iff [OF assms(2,1) v]
      by (auto simp: supernet_of_def broadcast_int_def)
    then have "ip_width (net_ver n) - net_len n = ip_width (net_ver n) - net_len other"
      using v by (simp add: num_addresses_def host_bits_def)
    moreover have "net_len n \<le> ip_width (net_ver n)" "net_len other \<le> ip_width (net_ver n)"
      using assms(1,2) v by (simp_all add: wf_net_def)
    ultimately have "net_len n = net_len other" by linarith
    with \<open>net_int n = net_int other\<close> v False show False by (cases n; cases other) auto
  qed
  have w: "net_len n < ip_width (net_ver n)" using lt assms(2) v by (simp add: wf_net_def)
  note h = halves [OF assms(1) w]
  show ?thesis
    using False exclude_loop_addrs [OF h(1,2) assms(2)] lt v h within_half [OF assms(1,2) lt assms(3)]
    by (simp add: address_exclude_def)
qed

subsection \<open>Ranges\<close>

lemma trailing_zeros_le: "trailing_zeros w n \<le> w"
  by (induction w n rule: trailing_zeros.induct) auto

lemma trailing_zeros_dvd: "(2::int) ^ trailing_zeros w n dvd n"
proof (induction w n rule: trailing_zeros.induct)
  case (2 b n)
  show ?case
  proof (cases "n mod 2 = 0")
    case True
    with 2 have "2 * 2 ^ trailing_zeros b (n div 2) dvd 2 * (n div 2)" by (intro mult_dvd_mono) auto
    with True show ?thesis by auto
  next
    case False
    then show ?thesis by simp
  qed
qed simp

lemma log2_floor_le: "0 < n \<Longrightarrow> (2::int) ^ log2_floor n \<le> n"
proof (induction n rule: log2_floor.induct)
  case (1 n)
  show ?case
  proof (cases "n < 2")
    case True
    with 1 show ?thesis by (simp add: log2_floor.simps)
  next
    case False
    with 1 have "2 ^ log2_floor (n div 2) \<le> n div 2" by simp
    with False show ?thesis by (simp add: log2_floor.simps [of n])
  qed
qed

lemma summarize_loop_addrs:
  assumes "0 \<le> lo" "hi < 2 ^ ip_width v"
  shows "(\<Union>n \<in> set (summarize_loop v lo hi). net_addrs n) = {a. addr_ver a = v \<and> lo \<le> addr_int a \<and> addr_int a \<le> hi} \<and>
    (\<forall>n \<in> set (summarize_loop v lo hi). wf_net n)"
  using assms
proof (induction v lo hi rule: summarize_loop.induct)
  case (1 v lo hi)
  note rec = summarize_loop.simps [of v lo hi]
  show ?case
  proof (cases "lo \<le> hi")
    case False
    then show ?thesis by (auto simp: rec)
  next
    case True
    define nb where "nb = min (trailing_zeros (ip_width v) lo) (log2_floor (hi - lo + 1))"
    define n where "n = Net v lo (ip_width v - nb)"
    have nb: "nb \<le> ip_width v" using trailing_zeros_le [of "ip_width v" lo] by (simp add: nb_def)
    then have size: "num_addresses n = 2 ^ nb" by (simp add: n_def num_addresses_def host_bits_def)
    have "(2::int) ^ nb \<le> 2 ^ log2_floor (hi - lo + 1)" by (simp add: nb_def)
    also have "\<dots> \<le> hi - lo + 1" using True by (intro log2_floor_le) simp
    finally have fits: "lo + 2 ^ nb \<le> hi + 1" by simp
    have "(2::int) ^ nb dvd 2 ^ trailing_zeros (ip_width v) lo"
      by (intro le_imp_power_dvd) (simp add: nb_def)
    then have "(2::int) ^ nb dvd lo" by (rule dvd_trans [OF _ trailing_zeros_dvd])
    then have wf: "wf_net n"
      using "1.prems" True unfolding wf_net_def size by (simp add: n_def)
    have step: "summarize_loop v lo hi = n # summarize_loop v (lo + 2 ^ nb) hi"
      using True by (simp add: rec n_def nb_def Let_def)
    have ih: "(\<Union>n \<in> set (summarize_loop v (lo + 2 ^ nb) hi). net_addrs n) =
        {a. addr_ver a = v \<and> lo + 2 ^ nb \<le> addr_int a \<and> addr_int a \<le> hi} \<and>
        (\<forall>n \<in> set (summarize_loop v (lo + 2 ^ nb) hi). wf_net n)"
      using "1.IH" [OF True nb_def] "1.prems" by simp
    have head: "net_addrs n = {a. addr_ver a = v \<and> lo \<le> addr_int a \<and> addr_int a < lo + 2 ^ nb}"
      using addr_in_iff [OF wf] size by (auto simp: net_addrs_def n_def)
    have pos: "(0::int) < 2 ^ nb" by simp
    have parts: "{a. addr_ver a = v \<and> lo \<le> addr_int a \<and> addr_int a \<le> hi} =
        net_addrs n \<union> {a. addr_ver a = v \<and> lo + 2 ^ nb \<le> addr_int a \<and> addr_int a \<le> hi}"
      unfolding head using fits pos by (intro set_eqI iffI; clarsimp; linarith)
    show ?thesis
      unfolding step using ih wf by (simp add: parts del: mem_net_addrs)
  qed
qed

lemma summarize_address_range_addrs:
  assumes "summarize_address_range a b = Some ns" "wf_addr a" "wf_addr b"
  shows "(\<Union>n \<in> set ns. net_addrs n) =
      {x. addr_ver x = addr_ver a \<and> addr_int a \<le> addr_int x \<and> addr_int x \<le> addr_int b}"
    "\<forall>n \<in> set ns. wf_net n"
  using assms summarize_loop_addrs [of "addr_int a" "addr_int b" "addr_ver a"]
  by (auto simp: summarize_address_range_def wf_addr_def split: if_splits)

section \<open>What a subtraction of networks relies on\<close>

text \<open>\<open>_minus\<close> of the policy resolver, over whatever decides overlap and inclusion and splits a
  network: for each excluded network in turn, a network apart from it stays, one it covers goes,
  and of one it cuts the rest is kept.\<close>

definition minus_one :: "('n \<Rightarrow> 'n \<Rightarrow> bool) \<Rightarrow> ('n \<Rightarrow> 'n \<Rightarrow> bool) \<Rightarrow> ('n \<Rightarrow> 'n \<Rightarrow> 'n list) \<Rightarrow> 'n list \<Rightarrow> 'n \<Rightarrow> 'n list" where
  "minus_one overlaps covers carve nets ex =
     concat (map (\<lambda>n. if \<not> overlaps n ex then [n] else if \<not> covers ex n then carve n ex else []) nets)"

definition blocks_minus ::
  "('n \<Rightarrow> 'n \<Rightarrow> bool) \<Rightarrow> ('n \<Rightarrow> 'n \<Rightarrow> bool) \<Rightarrow> ('n \<Rightarrow> 'n \<Rightarrow> 'n list) \<Rightarrow> 'n list \<Rightarrow> 'n list \<Rightarrow> 'n list" where
  "blocks_minus overlaps covers carve nets excluded = foldl (minus_one overlaps covers carve) nets excluded"

locale address_blocks =
  fixes ok :: "'n \<Rightarrow> bool"
    and addrs :: "'n \<Rightarrow> 'a set"
    and overlaps :: "'n \<Rightarrow> 'n \<Rightarrow> bool"
    and covers :: "'n \<Rightarrow> 'n \<Rightarrow> bool"
    and carve :: "'n \<Rightarrow> 'n \<Rightarrow> 'n list"
  assumes overlaps_law: "ok m \<Longrightarrow> ok n \<Longrightarrow> overlaps m n \<longleftrightarrow> addrs m \<inter> addrs n \<noteq> {}"
    and covers_law: "ok m \<Longrightarrow> ok n \<Longrightarrow> overlaps n m \<Longrightarrow> covers m n \<longleftrightarrow> addrs n \<subseteq> addrs m"
    and carve_law: "ok m \<Longrightarrow> ok n \<Longrightarrow> overlaps n m \<Longrightarrow> \<not> covers m n \<Longrightarrow>
      (\<Union>k \<in> set (carve n m). addrs k) = addrs n - addrs m"
    and carve_ok: "ok m \<Longrightarrow> ok n \<Longrightarrow> overlaps n m \<Longrightarrow> \<not> covers m n \<Longrightarrow> k \<in> set (carve n m) \<Longrightarrow> ok k"
begin

lemma kept_part:
  assumes "ok n" "ok ex"
  shows "(\<Union>k \<in> set (if \<not> overlaps n ex then [n] else if \<not> covers ex n then carve n ex else []). addrs k) =
      addrs n - addrs ex"
    and "\<forall>k \<in> set (if \<not> overlaps n ex then [n] else if \<not> covers ex n then carve n ex else []). ok k"
proof -
  consider "\<not> overlaps n ex" | "overlaps n ex" "\<not> covers ex n" | "overlaps n ex" "covers ex n" by blast
  then show "(\<Union>k \<in> set (if \<not> overlaps n ex then [n] else if \<not> covers ex n then carve n ex else []). addrs k) =
      addrs n - addrs ex"
    using overlaps_law [OF assms] covers_law [OF assms(2,1)] carve_law [OF assms(2,1)]
    by cases auto
  show "\<forall>k \<in> set (if \<not> overlaps n ex then [n] else if \<not> covers ex n then carve n ex else []). ok k"
    using assms carve_ok [OF assms(2,1)] by simp
qed

lemma minus_one_ok: "\<forall>n \<in> set nets. ok n \<Longrightarrow> ok ex \<Longrightarrow> \<forall>n \<in> set (minus_one overlaps covers carve nets ex). ok n"
  unfolding minus_one_def set_concat set_map using kept_part(2) by blast

lemma minus_one_addrs:
  assumes "\<forall>n \<in> set nets. ok n" "ok ex"
  shows "(\<Union>n \<in> set (minus_one overlaps covers carve nets ex). addrs n) = (\<Union>n \<in> set nets. addrs n) - addrs ex"
proof -
  have "(\<Union>n \<in> set (minus_one overlaps covers carve nets ex). addrs n) =
      (\<Union>n \<in> set nets. \<Union>k \<in> set (if \<not> overlaps n ex then [n] else if \<not> covers ex n then carve n ex else []). addrs k)"
    unfolding minus_one_def set_concat set_map by blast
  also have "\<dots> = (\<Union>n \<in> set nets. addrs n - addrs ex)"
    using kept_part(1) assms by (intro SUP_cong refl) blast
  finally show ?thesis by blast
qed

lemma minus_addrs:
  assumes "\<forall>n \<in> set nets. ok n" "\<forall>n \<in> set excluded. ok n"
  shows "(\<Union>n \<in> set (blocks_minus overlaps covers carve nets excluded). addrs n) =
      (\<Union>n \<in> set nets. addrs n) - (\<Union>n \<in> set excluded. addrs n) \<and>
    (\<forall>n \<in> set (blocks_minus overlaps covers carve nets excluded). ok n)"
  using assms
proof (induction excluded arbitrary: nets)
  case Nil
  then show ?case by (simp add: blocks_minus_def)
next
  case (Cons ex excluded)
  have "\<forall>n \<in> set (minus_one overlaps covers carve nets ex). ok n"
    using Cons.prems by (intro minus_one_ok) auto
  from Cons.IH [OF this] Cons.prems minus_one_addrs [of nets ex] show ?case
    by (auto simp: blocks_minus_def)
qed

end

interpretation net_blocks: address_blocks wf_net net_addrs net_overlaps supernet_of address_exclude
proof
  fix m n k
  assume wf: "wf_net m" "wf_net n"
  show "net_overlaps m n \<longleftrightarrow> net_addrs m \<inter> net_addrs n \<noteq> {}" by (rule overlaps_iff [OF wf])
  assume ov: "net_overlaps n m"
  then obtain a where a: "addr_in a m" "addr_in a n" using overlaps_iff [OF wf(2,1)] by auto
  then have v: "net_ver m = net_ver n" by (simp add: addr_in_def)
  then show cov: "supernet_of m n \<longleftrightarrow> net_addrs n \<subseteq> net_addrs m" by (rule supernet_iff [OF wf])
  assume "\<not> supernet_of m n"
  then have "\<not> net_addrs n \<subseteq> net_addrs m" using cov by simp
  then have "net_addrs m \<subseteq> net_addrs n"
    using net_nested [OF wf _ a] net_nested [OF wf(2,1) _ a(2,1)] by linarith
  from address_exclude_addrs [OF wf(2,1) this]
  show "(\<Union>k \<in> set (address_exclude n m). net_addrs k) = net_addrs n - net_addrs m"
    and "k \<in> set (address_exclude n m) \<Longrightarrow> wf_net k" by auto
qed

section \<open>Parsed values are well-formed\<close>

lemma wf_net_of: "0 \<le> i \<Longrightarrow> i < 2 ^ ip_width v \<Longrightarrow> l \<le> ip_width v \<Longrightarrow> wf_net (net_of v i l)"
proof -
  assume i: "0 \<le> i" "i < 2 ^ ip_width v" and l: "l \<le> ip_width v"
  have "(i - i mod 2 ^ (ip_width v - l)) mod 2 ^ (ip_width v - l) = 0"
    by (simp add: minus_mod_eq_div_mult)
  moreover have "0 \<le> i mod 2 ^ (ip_width v - l)" "i mod 2 ^ (ip_width v - l) \<le> i"
    using i by (simp_all add: zmod_le_nonneg_dividend)
  moreover from this i have "i - i mod 2 ^ (ip_width v - l) < 2 ^ ip_width v" by linarith
  ultimately show ?thesis using i l
    by (simp add: wf_net_def net_of_def num_addresses_def host_bits_def)
qed

lemma sequence_opt_Some: "sequence_opt xs = Some ys \<Longrightarrow> xs = map Some ys"
  by (induction xs arbitrary: ys rule: sequence_opt.induct) auto

lemma int_of_digits_nonneg: "list_all is_digit s \<Longrightarrow> 0 \<le> int_of_digits s"
proof (induction s rule: rev_induct)
  case (snoc c s)
  then show ?case by (simp add: int_of_digits_snoc is_digit_def digit_val_def)
qed (simp add: int_of_digits_def)

lemma parse_octet_bounds: "parse_octet s = Some n \<Longrightarrow> 0 \<le> n \<and> n \<le> 255"
  using int_of_digits_nonneg [of s] by (auto simp: parse_octet_def split: if_splits)

lemma ipv4_int_bounds: "ipv4_int s = Some i \<Longrightarrow> 0 \<le> i \<and> i < 2 ^ 32"
proof -
  assume "ipv4_int s = Some i"
  then obtain a b c d where q: "sequence_opt (map parse_octet (split_on CHR ''.'' s)) = Some [a, b, c, d]"
    and i: "i = ((a * 256 + b) * 256 + c) * 256 + d"
    by (auto simp: ipv4_int_def split: option.splits list.splits)
  have "Some ` set [a, b, c, d] \<subseteq> set (map parse_octet (split_on CHR ''.'' s))"
    using sequence_opt_Some [OF q] by (metis set_map order_refl)
  then have "\<forall>n \<in> set [a, b, c, d]. 0 \<le> n \<and> n \<le> 255"
    using parse_octet_bounds by (fastforce simp: image_subset_iff image_iff)
  then show ?thesis unfolding i by simp
qed

end
