(* ===== verification/Netaddr.thy ===== *)
theory Netaddr
  imports IpBlocks
begin

text \<open>
  \<open>domain/netaddr.py\<close>: addresses and networks as the filters accept them. A parse that raises
  \<open>ValueError\<close> is \<open>None\<close>; an IPv4-mapped IPv6 address or network is the IPv4 one it maps.
\<close>

datatype ip_token = TokAddr ipaddr | TokNet ipnet

definition mapped_net :: "ipnet \<Rightarrow> ipnet" where
  "mapped_net n =
     (case ipv4_mapped (network_address n) of
        Some m \<Rightarrow> net_of V4 (addr_int m) (net_len n - 96)
      | None \<Rightarrow> n)"

definition mapped_addr :: "ipaddr \<Rightarrow> ipaddr" where
  "mapped_addr a = (case ipv4_mapped a of Some m \<Rightarrow> m | None \<Rightarrow> a)"

text \<open>Python's \<open>net.network_address.ipv4_mapped\<close> is an address object, which is always true.\<close>

definition parse_ip_token :: "string \<Rightarrow> ip_token option" where
  "parse_ip_token value =
     (let token = py_strip value
      in if token = '''' then None
         else if CHR ''/'' \<in> set token then map_option (\<lambda>n. TokNet (mapped_net n)) (ip_network token)
         else map_option (\<lambda>a. TokAddr (mapped_addr a)) (ip_address token))"

definition is_public :: "string option \<Rightarrow> bool" where
  "is_public value =
     (case ip_address (py_strip (or_empty value)) of
        None \<Rightarrow> False
      | Some a \<Rightarrow> is_global (mapped_addr a))"

definition outside :: "string option \<Rightarrow> string option \<Rightarrow> bool" where
  "outside ip href = (\<not> truthy_str href \<and> is_public ip)"

text \<open>A workload the PCE knows is never outside, whatever its address; nor is what is no address.\<close>

lemma outside_managed: "truthy_str href \<Longrightarrow> \<not> outside ip href"
  by (simp add: outside_def)

lemma is_public_not_address: "ip_address (py_strip s) = None \<Longrightarrow> \<not> is_public (Some s)"
  by (simp add: is_public_def)

text \<open>The mapped address decides: \<open>::ffff:a.b.c.d\<close> is public exactly when \<open>a.b.c.d\<close> is.\<close>

lemma mapped_addr_idem: "mapped_addr (mapped_addr a) = mapped_addr a"
  by (auto simp: mapped_addr_def ipv4_mapped_def split: option.splits if_splits)

lemma mapped_addr_v4: "addr_ver a = V4 \<Longrightarrow> mapped_addr a = a"
  by (simp add: mapped_addr_def ipv4_mapped_def)

lemma mapped_addr_mapped:
  "0 \<le> i \<Longrightarrow> i < 2 ^ 32 \<Longrightarrow> mapped_addr (Addr V6 (0xFFFF * 2 ^ 32 + i)) = Addr V4 i"
proof -
  assume i: "0 \<le> i" "i < 2 ^ 32"
  then have "(0xFFFF * 2 ^ 32 + i) div 2 ^ 32 = 0xFFFF" "(0xFFFF * 2 ^ 32 + i) mod 2 ^ 32 = i"
    by (simp_all only: div_mult_self3 mod_mult_self3 div_pos_pos_trivial mod_pos_pos_trivial)
  then show ?thesis by (simp add: mapped_addr_def ipv4_mapped_def)
qed

text \<open>No RFC 1918, loopback, link-local or shared (RFC 6598) address is global.\<close>

lemma v4_private_not_global:
  assumes "addr_ver a = V4" "n \<in> set v4_private" "addr_in a n"
    "\<not> addr_in a (v4_net 192 0 0 9 32)" "\<not> addr_in a (v4_net 192 0 0 10 32)"
  shows "\<not> is_global a"
  using assms by (auto simp: is_global_def is_private4_def is_private_in_def v4_private_exceptions_def list_ex_iff)

end
