(* ===== verification/Identity.thy ===== *)
theory Identity
  imports PyStr
begin

text \<open>
  \<open>domain/identity.py\<close>: how processes and accounts are named so that the spellings of one thing
  compare equal. Domain accounts (\<open>DOMAIN\\acct\<close>, \<open>acct@domain\<close>) are case-insensitive, local ones
  are not.
\<close>

definition SYSTEM_ACCOUNTS :: "string list" where
  "SYSTEM_ACCOUNTS =
     [''nt authority'' @ [CHR 92] @ ''system'', ''nt authority'' @ [CHR 92] @ ''local service'',
      ''nt authority'' @ [CHR 92] @ ''network service'', ''system'', ''root'', ''daemon'', ''nobody'']"

definition endpoint_key :: "string option \<Rightarrow> string \<Rightarrow> string" where
  "endpoint_key href ip = (if truthy_str href then or_empty href else ''ip:'' @ ip)"

text \<open>\<open>re.split(r"[\\/]", name)[-1]\<close>: what follows the last separator.\<close>

definition base_name :: "string \<Rightarrow> string" where
  "base_name name = rev (takeWhile (\<lambda>c. c \<noteq> CHR 92 \<and> c \<noteq> CHR ''/'') (rev name))"

definition normalize_process :: "string option \<Rightarrow> string option" where
  "normalize_process name =
     (case name of
        None \<Rightarrow> None
      | Some s \<Rightarrow>
          (let base = base_name s
           in if base = '''' then None
              else if endswith (py_lower base) ''.exe'' \<or> CHR 92 \<in> set s then Some (py_lower base)
              else Some base))"

definition name_qualified :: "string \<Rightarrow> bool" where
  "name_qualified s = (CHR 92 \<in> set s \<or> CHR ''@'' \<in> set s)"

text \<open>\<open>name.rpartition("\\\\")\<close> and \<open>name.partition("@")\<close>, each empty part given as \<open>None\<close>.\<close>

definition split_user :: "string option \<Rightarrow> string option \<times> string option" where
  "split_user name =
     (if \<not> truthy_str name then (None, None)
      else let s = or_empty name in
        if CHR 92 \<in> set s then
          (let a = rev (takeWhile (\<lambda>c. c \<noteq> CHR 92) (rev s))
           in (str_or_none (Some (take (length s - length a - 1) s)), str_or_none (Some a)))
        else case split_once CHR ''@'' s of
          Some (a, d) \<Rightarrow> (str_or_none (Some d), str_or_none (Some a))
        | None \<Rightarrow> (None, Some s))"

definition is_system_account :: "string option \<Rightarrow> bool" where
  "is_system_account user =
     (if \<not> truthy_str user then False
      else let low = py_lower (or_empty user) in
        if low \<in> set SYSTEM_ACCOUNTS then True
        else if CHR 92 \<in> set low \<or> CHR ''@'' \<in> set low then False
        else startswith low ''systemd-'' \<or> startswith low ''_'')"

definition account_key :: "string option \<Rightarrow> string option" where
  "account_key user =
     (if \<not> truthy_str user then None
      else let s = or_empty user in Some (if name_qualified s then py_lower s else s))"

section \<open>Normal forms\<close>

lemma name_qualified_lower [simp]: "name_qualified (py_lower s) = name_qualified s"
  by (simp add: name_qualified_def py_lower_mem is_upper_ascii_def)

lemma base_name_idem: "base_name (base_name s) = base_name s"
  by (auto simp: base_name_def takeWhile_eq_all_conv dest: set_takeWhileD)

lemma base_name_no_sep: "c \<in> set (base_name s) \<Longrightarrow> c \<noteq> CHR 92 \<and> c \<noteq> CHR ''/''"
  by (auto simp: base_name_def dest: set_takeWhileD)

lemma base_name_id: "CHR 92 \<notin> set s \<Longrightarrow> CHR ''/'' \<notin> set s \<Longrightarrow> base_name s = s"
proof -
  assume "CHR 92 \<notin> set s" "CHR ''/'' \<notin> set s"
  then have "takeWhile (\<lambda>c. c \<noteq> CHR 92 \<and> c \<noteq> CHR ''/'') (rev s) = rev s"
    by (intro takeWhile_eq_all_conv [THEN iffD2]) auto
  then show ?thesis by (simp only: base_name_def rev_rev_ident)
qed

lemma base_name_lower_base: "base_name (py_lower (base_name s)) = py_lower (base_name s)"
  using base_name_no_sep [of _ s]
  by (intro base_name_id) (auto simp: py_lower_mem is_upper_ascii_def)

text \<open>Normalizing a normalized name changes nothing, so a stored name and a typed one compare
  by \<open>==\<close>.\<close>

lemma normalize_process_idem:
  "normalize_process name = Some p \<Longrightarrow> normalize_process (Some p) = Some p"
proof -
  assume n: "normalize_process name = Some p"
  then obtain s where s: "name = Some s" "base_name s \<noteq> ''''"
    by (auto simp: normalize_process_def Let_def split: option.splits if_splits)
  consider "p = py_lower (base_name s)" | "p = base_name s" "\<not> endswith (py_lower (base_name s)) ''.exe''"
    using n s by (auto simp: normalize_process_def Let_def split: if_splits)
  then show ?thesis
  proof cases
    case 1
    then show ?thesis using s(2) by (simp add: normalize_process_def base_name_lower_base Let_def)
  next
    case 2
    moreover have "CHR 92 \<notin> set (base_name s)" using base_name_no_sep [of _ s] by blast
    ultimately show ?thesis using s(2) by (simp add: normalize_process_def base_name_idem Let_def)
  qed
qed

text \<open>Two spellings of one Windows executable normalize alike.\<close>

lemma normalize_process_exe:
  "endswith (py_lower (base_name s)) ''.exe'' \<Longrightarrow> py_lower (base_name s) = py_lower (base_name t) \<Longrightarrow>
   normalize_process (Some s) = normalize_process (Some t)"
  by (auto simp: normalize_process_def Let_def) (metis py_lower_Nil_iff(1))+

text \<open>A qualified account is a system account only by its full listed name.\<close>

lemma name_qualified_system_account:
  "name_qualified u \<Longrightarrow> is_system_account (Some u) \<longleftrightarrow> u \<noteq> '''' \<and> py_lower u \<in> set SYSTEM_ACCOUNTS"
  using name_qualified_lower [of u] by (auto simp: is_system_account_def name_qualified_def Let_def)

lemma account_key_idem: "account_key u = Some k \<Longrightarrow> account_key (Some k) = Some k"
  by (auto simp: account_key_def Let_def truthy_str_def split: if_splits option.splits)

end
