(* ===== verification/Json.thy ===== *)
theory Json
  imports PyStr
begin

text \<open>
  JSON as the PCE sends it and Python reads it: objects keep their order and hold each key once;
  numbers are integers (no field the model reads is fractional). \<open>jget\<close> is \<open>dict.get\<close>, which
  gives \<open>None\<close> for a missing key as for a null; \<open>py_str\<close> is \<open>str()\<close>.
\<close>

datatype json =
    JNull
  | JBool bool
  | JInt int
  | JStr string
  | JList "json list"
  | JObj "(string \<times> json) list"

type_synonym jobj = "(string \<times> json) list"

definition jget :: "jobj \<Rightarrow> string \<Rightarrow> json" where
  "jget ps k = (case map_of ps k of Some v \<Rightarrow> v | None \<Rightarrow> JNull)"

text \<open>The truth value of what a condition tests.\<close>

fun truthy :: "json \<Rightarrow> bool" where
  "truthy JNull = False"
| "truthy (JBool b) = b"
| "truthy (JInt i) = (i \<noteq> 0)"
| "truthy (JStr s) = (s \<noteq> '''')"
| "truthy (JList xs) = (xs \<noteq> [])"
| "truthy (JObj ps) = (ps \<noteq> [])"

text \<open>\<open>isinstance\<close> tests, as partial readings. \<open>j_int\<close> leaves out \<open>bool\<close>, as the code does.\<close>

fun j_obj :: "json \<Rightarrow> jobj option" where
  "j_obj (JObj ps) = Some ps"
| "j_obj _ = None"

fun j_str :: "json \<Rightarrow> string option" where
  "j_str (JStr s) = Some s"
| "j_str _ = None"

fun j_int :: "json \<Rightarrow> int option" where
  "j_int (JInt i) = Some i"
| "j_int _ = None"

text \<open>\<open>x or []\<close> and \<open>x if isinstance(x, Mapping) else {}\<close> where the value is iterated or read.\<close>

fun j_list :: "json \<Rightarrow> json list" where
  "j_list (JList xs) = xs"
| "j_list _ = []"

fun j_dict :: "json \<Rightarrow> jobj" where
  "j_dict (JObj ps) = ps"
| "j_dict _ = []"

text \<open>A text field passed on as it is (\<open>x or None\<close>).\<close>

definition text_or_none :: "json \<Rightarrow> string option" where
  "text_or_none j = str_or_none (j_str j)"

section \<open>str()\<close>

definition hex2 :: "int \<Rightarrow> string" where
  "hex2 n = (let d = (\<lambda>k. char_of (if k < 10 then 48 + k else 87 + k)) in [d (n div 16), d (n mod 16)])"

definition repr_char :: "char \<Rightarrow> char \<Rightarrow> string" where
  "repr_char q c =
     (let n = (of_char c :: int) in
      if c = q \<or> c = CHR 92 then [CHR 92, c]
      else if n = 9 then [CHR 92, CHR ''t'']
      else if n = 10 then [CHR 92, CHR ''n'']
      else if n = 13 then [CHR 92, CHR ''r'']
      else if n < 32 \<or> (127 \<le> n \<and> n \<le> 160) \<or> n = 173 then [CHR 92, CHR ''x''] @ hex2 n
      else [c])"

definition py_repr_str :: "string \<Rightarrow> string" where
  "py_repr_str s =
     (let q = (if CHR 39 \<in> set s \<and> CHR 34 \<notin> set s then CHR 34 else CHR 39)
      in [q] @ concat (map (repr_char q) s) @ [q])"

fun py_repr :: "json \<Rightarrow> string" where
  "py_repr JNull = ''None''"
| "py_repr (JBool b) = (if b then ''True'' else ''False'')"
| "py_repr (JInt i) = str_of_int i"
| "py_repr (JStr s) = py_repr_str s"
| "py_repr (JList xs) = ''['' @ py_join '', '' (map py_repr xs) @ '']''"
| "py_repr (JObj ps) = ''{'' @ py_join '', '' (map (\<lambda>(k, v). py_repr_str k @ '': '' @ py_repr v) ps) @ ''}''"

fun py_str :: "json \<Rightarrow> string" where
  "py_str (JStr s) = s"
| "py_str j = py_repr j"

text \<open>\<open>str(x or "")\<close>\<close>

definition str_or_blank :: "json \<Rightarrow> string" where
  "str_or_blank j = (if truthy j then py_str j else '''')"

lemma jget_Nil [simp]: "jget [] k = JNull"
  by (simp add: jget_def)

lemma jget_Cons [simp]: "jget ((k', v) # ps) k = (if k' = k then v else jget ps k)"
  by (auto simp: jget_def)

lemma text_or_none_Some: "text_or_none j = Some s \<longleftrightarrow> j = JStr s \<and> s \<noteq> ''''"
  by (cases j) (auto simp: text_or_none_def)

end
