(* ===== verification/PyTime.thy ===== *)
theory PyTime
  imports PyStr
begin

text \<open>
  Times. An aware \<open>datetime\<close> is the number of microseconds since 1970-01-01T00:00Z (an \<open>int\<close>);
  a \<open>timedelta\<close> is a number of microseconds. The calendar is Python's proleptic Gregorian one
  (\<open>datetime.toordinal\<close>). \<open>fromisoformat\<close> reads the extended calendar form the PCE and this
  program write (\<open>YYYY-MM-DD\<close>, any separator, \<open>HH:MM[:SS[.fff[fff]]]\<close>, \<open>Z\<close> or \<open>+HH:MM\<close>); the
  basic and week-date forms Python also takes read as unreadable.
\<close>

type_synonym time = int

definition SECOND :: int where "SECOND = 1000000"
definition MINUTE :: int where "MINUTE = 60 * 1000000"
definition HOUR :: int where "HOUR = 3600 * 1000000"
definition DAY :: int where "DAY = 86400 * 1000000"

lemmas time_units = SECOND_def MINUTE_def HOUR_def DAY_def

section \<open>Calendar\<close>

definition is_leap :: "int \<Rightarrow> bool" where
  "is_leap y = (y mod 4 = 0 \<and> (y mod 100 \<noteq> 0 \<or> y mod 400 = 0))"

definition days_in_month :: "int \<Rightarrow> int \<Rightarrow> int" where
  "days_in_month y m =
     (if m = 2 then (if is_leap y then 29 else 28) else if m \<in> {4, 6, 9, 11} then 30 else 31)"

definition days_before_month :: "int \<Rightarrow> int \<Rightarrow> int" where
  "days_before_month y m =
     (if m = 1 then 0 else [31, 59, 90, 120, 151, 181, 212, 243, 273, 304, 334] ! nat (m - 2)
        + (if 2 < m \<and> is_leap y then 1 else 0))"

definition ymd_ord :: "int \<Rightarrow> int \<Rightarrow> int \<Rightarrow> int" where
  "ymd_ord y m d =
     (y - 1) * 365 + (y - 1) div 4 - (y - 1) div 100 + (y - 1) div 400 + days_before_month y m + d"

definition EPOCH_ORD :: int where
  "EPOCH_ORD = 719163"

text \<open>\<open>date.weekday\<close>: Monday is 0.\<close>

definition weekday_of_ord :: "int \<Rightarrow> nat" where
  "weekday_of_ord n = nat ((n + 6) mod 7)"

text \<open>\<open>_ord2ymd\<close>: cycles of 400, 100, 4 and 1 years, then the month.\<close>

fun month_from :: "int \<Rightarrow> int \<Rightarrow> nat \<Rightarrow> int \<Rightarrow> int \<times> int" where
  "month_from y m 0 n = (m, n + 1)"
| "month_from y m (Suc k) n =
     (if n < days_in_month y m then (m, n + 1) else month_from y (m + 1) k (n - days_in_month y m))"

definition ord_ymd :: "int \<Rightarrow> int \<times> int \<times> int" where
  "ord_ymd n0 =
     (let n = n0 - 1;
          n400 = n div 146097; r400 = n mod 146097;
          n100 = r400 div 36524; r100 = r400 mod 36524;
          n4 = r100 div 1461; r4 = r100 mod 1461;
          n1 = r4 div 365; r1 = r4 mod 365;
          year = n400 * 400 + 1 + n100 * 100 + n4 * 4 + n1
      in if n1 = 4 \<or> n100 = 4 then (year - 1, 12, 31)
         else let (m, d) = month_from year 1 11 r1 in (year, m, d))"

section \<open>Text forms\<close>

definition pad :: "nat \<Rightarrow> int \<Rightarrow> string" where
  "pad w n = (let s = dec_str n in replicate (w - length s) (CHR ''0'') @ s)"

text \<open>\<open>%Y-%m-%d\<close> and \<open>%H:%M:%S\<close> of an instant read in UTC.\<close>

definition date_text :: "time \<Rightarrow> string" where
  "date_text t = (let (y, m, d) = ord_ymd (t div DAY + EPOCH_ORD)
     in pad 4 y @ ''-'' @ pad 2 m @ ''-'' @ pad 2 d)"

definition hm_text :: "time \<Rightarrow> string" where
  "hm_text t = pad 2 (t mod DAY div HOUR) @ '':'' @ pad 2 (t mod HOUR div MINUTE)"

definition clock_text :: "time \<Rightarrow> string" where
  "clock_text t = hm_text t @ '':'' @ pad 2 (t mod MINUTE div SECOND)"

definition isoformat :: "time \<Rightarrow> string" where
  "isoformat t = date_text t @ ''T'' @ clock_text t @
     (if t mod SECOND = 0 then '''' else ''.'' @ pad 6 (t mod SECOND)) @ ''+00:00''"

definition digits_value :: "nat \<Rightarrow> string \<Rightarrow> (int \<times> string) option" where
  "digits_value n s =
     (if n \<le> length s \<and> list_all is_digit (take n s) then Some (int_of_digits (take n s), drop n s) else None)"

definition skip_char :: "char \<Rightarrow> string \<Rightarrow> string option" where
  "skip_char c s = (case s of [] \<Rightarrow> None | x # xs \<Rightarrow> if x = c then Some xs else None)"

definition parse_date :: "string \<Rightarrow> (int \<times> string) option" where
  "parse_date s =
     Option.bind (digits_value 4 s) (\<lambda>(y, s1).
     Option.bind (skip_char CHR ''-'' s1) (\<lambda>s2.
     Option.bind (digits_value 2 s2) (\<lambda>(m, s3).
     Option.bind (skip_char CHR ''-'' s3) (\<lambda>s4.
     Option.bind (digits_value 2 s4) (\<lambda>(d, s5).
       if 1 \<le> y \<and> 1 \<le> m \<and> m \<le> 12 \<and> 1 \<le> d \<and> d \<le> days_in_month y m
       then Some (ymd_ord y m d, s5) else None)))))"

definition parse_fraction :: "string \<Rightarrow> (int \<times> string) option" where
  "parse_fraction s =
     (case s of
        c # r \<Rightarrow>
          (if c = CHR ''.'' \<or> c = CHR '','' then
             (let ds = takeWhile is_digit r
              in if ds = '''' then None
                 else Some (int_of_digits (take 6 (ds @ ''000000'')), drop (length ds) r))
           else Some (0, s))
      | [] \<Rightarrow> Some (0, s))"

definition parse_clock :: "string \<Rightarrow> (int \<times> string) option" where
  "parse_clock s =
     Option.bind (digits_value 2 s) (\<lambda>(h, s1).
     case skip_char CHR '':'' s1 of
       None \<Rightarrow> if h < 24 then Some (h * HOUR, s1) else None
     | Some s2 \<Rightarrow>
         Option.bind (digits_value 2 s2) (\<lambda>(mi, s3).
         case skip_char CHR '':'' s3 of
           None \<Rightarrow> if h < 24 \<and> mi < 60 then Some (h * HOUR + mi * MINUTE, s3) else None
         | Some s4 \<Rightarrow>
             Option.bind (digits_value 2 s4) (\<lambda>(se, s5).
             Option.bind (parse_fraction s5) (\<lambda>(us, s6).
               if h < 24 \<and> mi < 60 \<and> se < 60
               then Some (h * HOUR + mi * MINUTE + se * SECOND + us, s6) else None))))"

text \<open>The offset: \<open>Some None\<close> when there is none (a naive time), an error otherwise \<open>None\<close>.\<close>

definition parse_offset :: "string \<Rightarrow> int option option" where
  "parse_offset s =
     (case s of
        [] \<Rightarrow> Some None
      | c # r \<Rightarrow>
          if s = ''Z'' then Some (Some 0)
          else if c = CHR ''+'' \<or> c = CHR ''-'' then
            (case parse_clock r of
               Some (o1, []) \<Rightarrow> Some (Some (if c = CHR ''-'' then - o1 else o1))
             | _ \<Rightarrow> None)
          else None)"

datatype iso_time = Naive int | Aware time

definition fromisoformat :: "string \<Rightarrow> iso_time option" where
  "fromisoformat s =
     Option.bind (parse_date s) (\<lambda>(n, r).
       let base = (n - EPOCH_ORD) * DAY in
       case r of
         [] \<Rightarrow> Some (Naive base)
       | _ # r1 \<Rightarrow>
           Option.bind (parse_clock r1) (\<lambda>(c, r2).
           Option.bind (parse_offset r2) (\<lambda>off.
             case off of None \<Rightarrow> Some (Naive (base + c)) | Some z \<Rightarrow> Some (Aware (base + c - z)))))"

end
