(* ===== verification/Flows.thy ===== *)
theory Flows
  imports Json Identity Values PyTime "HOL-Library.Multiset"
begin

text \<open>
  \<open>domain/flows.py\<close>: one PCE traffic-flow record (a JSON object) read into a \<open>flow_record\<close>, the
  identity of a record, the merge of two sightings of it, and the pairing of the records both
  ends of one connection report. Fields the code passes on as text are text or null here; the
  digest \<open>hashlib.sha256(...).hexdigest\<close> is the parameter \<open>sha\<close>.
\<close>

definition PAIRING_MAX_GAP_SECONDS :: int where
  "PAIRING_MAX_GAP_SECONDS = 600"

datatype flow_shape_error = FlowShapeError string

record flow_record =
  fl_direction :: flow_direction
  fl_src_ip :: string
  fl_dst_ip :: string
  fl_src_href :: "string option"
  fl_dst_href :: "string option"
  fl_src_hostname :: "string option"
  fl_dst_hostname :: "string option"
  fl_src_managed :: bool
  fl_dst_managed :: bool
  fl_src_mode :: "string option"
  fl_dst_mode :: "string option"
  fl_src_labels :: "(string \<times> string) list"
  fl_dst_labels :: "(string \<times> string) list"
  fl_port :: "int option"
  fl_proto :: int
  fl_own_process :: "string option"
  fl_own_user :: "string option"
  fl_windows_service :: "string option"
  fl_policy_decision :: string
  fl_first :: time
  fl_last :: time
  fl_num_connections :: int
  fl_bytes_in :: "int option"
  fl_bytes_out :: "int option"
  fl_state :: "string option"
  fl_transmission :: "string option"
  fl_network_href :: "string option"

section \<open>Reading a record\<close>

definition parse_time :: "json \<Rightarrow> flow_shape_error + time" where
  "parse_time value =
     (case value of
        JStr s \<Rightarrow>
          (if s = '''' then Inl (FlowShapeError ''missing timestamp'')
           else case fromisoformat s of
             None \<Rightarrow> Inl (FlowShapeError ''unreadable timestamp'')
           | Some (Naive _) \<Rightarrow> Inl (FlowShapeError ''timestamp without a time zone'')
           | Some (Aware t) \<Rightarrow> Inr t)
      | _ \<Rightarrow> Inl (FlowShapeError ''missing timestamp''))"

definition flow_side :: "jobj \<Rightarrow> string \<Rightarrow> flow_shape_error + string \<times> jobj" where
  "flow_side raw name =
     (case jget raw name of
        JObj side \<Rightarrow>
          (case jget side ''ip'' of
             JStr ip \<Rightarrow>
               (if ip = '''' then Inl (FlowShapeError (''missing '' @ name @ ''.ip''))
                else Inr (ip, j_dict (jget side ''workload'')))
           | _ \<Rightarrow> Inl (FlowShapeError (''missing '' @ name @ ''.ip'')))
      | _ \<Rightarrow> Inl (FlowShapeError (''missing '' @ name @ ''.ip'')))"

definition flow_label :: "json \<Rightarrow> (string \<times> string) option" where
  "flow_label lb =
     (case lb of
        JObj ps \<Rightarrow>
          (if jget ps ''key'' \<noteq> JNull \<and> jget ps ''value'' \<noteq> JNull
           then Some (py_str (jget ps ''key''), py_str (jget ps ''value'')) else None)
      | _ \<Rightarrow> None)"

definition flow_labels :: "jobj \<Rightarrow> (string \<times> string) list" where
  "flow_labels wl = sort (nub (List.map_filter flow_label (j_list (jget wl ''labels''))))"

definition known_bytes :: "json \<Rightarrow> int option" where
  "known_bytes j = j_int j"

definition no_bytes :: "int option \<Rightarrow> bool" where
  "no_bytes b = (b = None \<or> b = Some 0)"

definition flow_bytes :: "jobj \<Rightarrow> int option \<times> int option" where
  "flow_bytes raw =
     (let bi = known_bytes (jget raw ''dst_bi''); bo = known_bytes (jget raw ''dst_bo'')
      in if no_bytes bi \<and> no_bytes bo then (None, None) else (bi, bo))"

definition flow_direction_of :: "json \<Rightarrow> flow_direction option" where
  "flow_direction_of j =
     (if j = JStr ''inbound'' then Some FD_INBOUND
      else if j = JStr ''outbound'' then Some FD_OUTBOUND else None)"

definition connection_count :: "json \<Rightarrow> int" where
  "connection_count conns =
     (case conns of
        JInt n \<Rightarrow> (if 0 \<le> n then n else 0)
      | JBool b \<Rightarrow> (if b then 1 else 0)         \<comment> \<open>\<open>isinstance(True, int)\<close>\<close>
      | _ \<Rightarrow> 0)"

definition first_text :: "json \<Rightarrow> json \<Rightarrow> string option" where
  "first_text a b = (case text_or_none a of Some s \<Rightarrow> Some s | None \<Rightarrow> text_or_none b)"

definition flow_of_parts ::
  "jobj \<Rightarrow> string \<times> jobj \<Rightarrow> string \<times> jobj \<Rightarrow> flow_direction \<Rightarrow> string \<Rightarrow> time \<Rightarrow> time \<Rightarrow> jobj \<Rightarrow> int \<Rightarrow> flow_record" where
  "flow_of_parts raw src dst dir decision first_t last_t svc proto =
     (let src_wl = snd src; dst_wl = snd dst; network = j_dict (jget raw ''network'') in
      \<lparr> fl_direction = dir,
        fl_src_ip = fst src, fl_dst_ip = fst dst,
        fl_src_href = text_or_none (jget src_wl ''href''), fl_dst_href = text_or_none (jget dst_wl ''href''),
        fl_src_hostname = first_text (jget src_wl ''hostname'') (jget src_wl ''name''),
        fl_dst_hostname = first_text (jget dst_wl ''hostname'') (jget dst_wl ''name''),
        fl_src_managed = truthy (jget src_wl ''managed''), fl_dst_managed = truthy (jget dst_wl ''managed''),
        fl_src_mode = text_or_none (jget src_wl ''enforcement_mode''),
        fl_dst_mode = text_or_none (jget dst_wl ''enforcement_mode''),
        fl_src_labels = flow_labels src_wl, fl_dst_labels = flow_labels dst_wl,
        fl_port = j_int (jget svc ''port''),
        fl_proto = proto,
        fl_own_process = normalize_process (j_str (jget svc ''process_name'')),
        fl_own_user = text_or_none (jget svc ''user_name''),
        fl_windows_service = text_or_none (jget svc ''windows_service_name''),
        fl_policy_decision = py_lower (py_strip decision),
        fl_first = first_t, fl_last = last_t,
        fl_num_connections = connection_count (jget raw ''num_connections''),
        fl_bytes_in = fst (flow_bytes raw), fl_bytes_out = snd (flow_bytes raw),
        fl_state = text_or_none (jget raw ''state''),
        fl_transmission = text_or_none (jget raw ''transmission''),
        fl_network_href = text_or_none (jget network ''href'') \<rparr>)"

text \<open>The checks in the order the function makes them.\<close>

definition normalize_flow :: "jobj \<Rightarrow> flow_shape_error + flow_record" where
  "normalize_flow raw =
     (case flow_side raw ''src'' of Inl e \<Rightarrow> Inl e | Inr src \<Rightarrow>
     (case flow_side raw ''dst'' of Inl e \<Rightarrow> Inl e | Inr dst \<Rightarrow>
     (case flow_direction_of (jget raw ''flow_direction'') of
        None \<Rightarrow> Inl (FlowShapeError ''missing or unknown flow_direction'') | Some dir \<Rightarrow>
     (case text_or_none (jget raw ''policy_decision'') of
        None \<Rightarrow> Inl (FlowShapeError ''missing policy_decision'') | Some decision \<Rightarrow>
     (case j_obj (jget raw ''timestamp_range'') of
        None \<Rightarrow> Inl (FlowShapeError ''missing timestamp_range'') | Some tr \<Rightarrow>
     (case parse_time (jget tr ''first_detected'') of Inl e \<Rightarrow> Inl e | Inr first_t \<Rightarrow>
     (case parse_time (jget tr ''last_detected'') of Inl e \<Rightarrow> Inl e | Inr last_t \<Rightarrow>
     (case j_int (jget (j_dict (jget raw ''service'')) ''proto'') of
        None \<Rightarrow> Inl (FlowShapeError ''missing service.proto'') | Some proto \<Rightarrow>
      Inr (flow_of_parts raw src dst dir decision first_t last_t (j_dict (jget raw ''service'')) proto)))))))))"

section \<open>Identity and pairing\<close>

definition port_text :: "int option \<Rightarrow> string" where
  "port_text p = (case p of None \<Rightarrow> ''None'' | Some n \<Rightarrow> str_of_int n)"

definition record_key_text :: "flow_record \<Rightarrow> string" where
  "record_key_text r =
     py_join ''|'' [flow_direction_value (fl_direction r), fl_src_ip r, fl_dst_ip r, port_text (fl_port r),
       str_of_int (fl_proto r), isoformat (fl_first r)]"

definition record_key :: "(string \<Rightarrow> string) \<Rightarrow> flow_record \<Rightarrow> string" where
  "record_key sha r = take 32 (sha (record_key_text r))"

definition ranges_within :: "time \<Rightarrow> time \<Rightarrow> time \<Rightarrow> time \<Rightarrow> int \<Rightarrow> bool" where
  "ranges_within a_first a_last b_first b_last max_gap_seconds =
     (max a_first b_first - min a_last b_last \<le> max_gap_seconds * SECOND)"

definition conn_tuple :: "flow_record \<Rightarrow> string \<times> string \<times> int option \<times> int" where
  "conn_tuple r = (fl_src_ip r, fl_dst_ip r, fl_port r, fl_proto r)"

definition flows_within :: "flow_record \<Rightarrow> flow_record \<Rightarrow> int \<Rightarrow> bool" where
  "flows_within a b gap = ranges_within (fl_first a) (fl_last a) (fl_first b) (fl_last b) gap"

definition same_connection :: "flow_record \<Rightarrow> flow_record \<Rightarrow> int \<Rightarrow> bool" where
  "same_connection a b max_gap_seconds =
     (if fl_direction a = fl_direction b then False
      else if conn_tuple a \<noteq> conn_tuple b then False
      else flows_within a b max_gap_seconds)"

fun larger_known :: "int option \<Rightarrow> int option \<Rightarrow> int option" where
  "larger_known None b = b"
| "larger_known (Some a) None = Some a"
| "larger_known (Some a) (Some b) = Some (max a b)"

definition text_or :: "string option \<Rightarrow> string option \<Rightarrow> string option" where
  "text_or a b = (if truthy_str a then a else b)"

definition merge_sightings :: "flow_record \<Rightarrow> flow_record \<Rightarrow> flow_record" where
  "merge_sightings a b =
     (let (later, earlier) = (if fl_last a \<le> fl_last b then (b, a) else (a, b)) in
      later \<lparr> fl_num_connections := max (fl_num_connections a) (fl_num_connections b),
              fl_bytes_in := larger_known (fl_bytes_in a) (fl_bytes_in b),
              fl_bytes_out := larger_known (fl_bytes_out a) (fl_bytes_out b),
              fl_own_process := text_or (fl_own_process later) (fl_own_process earlier),
              fl_own_user := text_or (fl_own_user later) (fl_own_user earlier) \<rparr>)"

text \<open>The pairing of one 4-tuple: \<open>used\<close> holds the indices of the inbound records taken.\<close>

primrec first_unused :: "('i \<Rightarrow> bool) \<Rightarrow> nat set \<Rightarrow> nat \<Rightarrow> 'i list \<Rightarrow> (nat \<times> 'i) option" where
  "first_unused ok used idx [] = None"
| "first_unused ok used idx (i # ins) =
     (if idx \<notin> used \<and> ok i then Some (idx, i) else first_unused ok used (Suc idx) ins)"

primrec match_outs :: "('o \<Rightarrow> 'i \<Rightarrow> bool) \<Rightarrow> 'i list \<Rightarrow> nat set \<Rightarrow> 'o list \<Rightarrow> ('o \<times> 'i option) list \<times> nat set" where
  "match_outs ok ins used [] = ([], used)"
| "match_outs ok ins used (out # outs) =
     (case first_unused (ok out) used 0 ins of
        None \<Rightarrow> (let (ps, u) = match_outs ok ins used outs in ((out, None) # ps, u))
      | Some (idx, i) \<Rightarrow>
          (let (ps, u) = match_outs ok ins (insert idx used) outs in ((out, Some i) # ps, u)))"

primrec unused_from :: "nat set \<Rightarrow> nat \<Rightarrow> 'i list \<Rightarrow> 'i list" where
  "unused_from used idx [] = []"
| "unused_from used idx (i # ins) =
     (if idx \<notin> used then i # unused_from used (Suc idx) ins else unused_from used (Suc idx) ins)"

definition pair_group :: "(string \<Rightarrow> string) \<Rightarrow> flow_record list \<Rightarrow> (flow_record \<times> flow_record option) list" where
  "pair_group sha recs =
     (let sorted_group = sort_key (\<lambda>r. (fl_first r, record_key sha r)) recs;
          outs = filter (\<lambda>r. fl_direction r = FD_OUTBOUND) sorted_group;
          ins = filter (\<lambda>r. fl_direction r = FD_INBOUND) sorted_group;
          (pairs, used) = match_outs (\<lambda>out i. flows_within out i PAIRING_MAX_GAP_SECONDS) ins {} outs
      in pairs @ map (\<lambda>i. (i, None)) (unused_from used 0 ins))"

definition group_pairs :: "(string \<Rightarrow> string) \<Rightarrow> flow_record list \<Rightarrow> (flow_record \<times> flow_record option) list" where
  "group_pairs sha records = concat (map (\<lambda>(_, recs). pair_group sha recs) (group_by conn_tuple records))"

section \<open>What every stored record satisfies\<close>

definition wf_flow :: "flow_record \<Rightarrow> bool" where
  "wf_flow r =
     (fl_src_ip r \<noteq> '''' \<and> fl_dst_ip r \<noteq> '''' \<and> 0 \<le> fl_num_connections r \<and>
      \<not> (fl_bytes_in r = Some 0 \<and> no_bytes (fl_bytes_out r)) \<and> \<not> (fl_bytes_out r = Some 0 \<and> no_bytes (fl_bytes_in r)) \<and>
      sorted (fl_src_labels r) \<and> distinct (fl_src_labels r) \<and>
      sorted (fl_dst_labels r) \<and> distinct (fl_dst_labels r) \<and>
      fl_own_user r \<noteq> Some '''' \<and> py_lower (fl_policy_decision r) = fl_policy_decision r)"

lemma flow_side_nonempty: "flow_side raw name = Inr (ip, wl) \<Longrightarrow> ip \<noteq> ''''"
  by (auto simp: flow_side_def split: json.splits if_splits)

lemma flow_labels_sorted [simp]: "sorted (flow_labels wl)" "distinct (flow_labels wl)"
  by (simp_all add: flow_labels_def)

lemma flow_bytes_known:
  "flow_bytes raw = (bi, bo) \<Longrightarrow> \<not> (bi = Some 0 \<and> no_bytes bo) \<and> \<not> (bo = Some 0 \<and> no_bytes bi)"
  by (auto simp: flow_bytes_def no_bytes_def Let_def split: if_splits)

lemma connection_count_nonneg [simp]: "0 \<le> connection_count j"
  by (simp add: connection_count_def split: json.splits)

lemma text_or_none_not_blank [simp]: "text_or_none j \<noteq> Some ''''"
  by (simp add: text_or_none_Some)

lemma normalize_flow_Inr:
  assumes "normalize_flow raw = Inr r"
  obtains src dst dir decision tr t1 t2 proto where
    "flow_side raw ''src'' = Inr src" "flow_side raw ''dst'' = Inr dst"
    "flow_direction_of (jget raw ''flow_direction'') = Some dir"
    "text_or_none (jget raw ''policy_decision'') = Some decision"
    "j_obj (jget raw ''timestamp_range'') = Some tr"
    "parse_time (jget tr ''first_detected'') = Inr t1" "parse_time (jget tr ''last_detected'') = Inr t2"
    "j_int (jget (j_dict (jget raw ''service'')) ''proto'') = Some proto"
    "r = flow_of_parts raw src dst dir decision t1 t2 (j_dict (jget raw ''service'')) proto"
  using assms unfolding normalize_flow_def
  by (auto split: sum.splits option.splits)

text \<open>What \<open>normalize_flow\<close> requires of a record, field by field.\<close>

definition side_present :: "jobj \<Rightarrow> string \<Rightarrow> bool" where
  "side_present raw name =
     (case jget raw name of JObj side \<Rightarrow> text_or_none (jget side ''ip'') \<noteq> None | _ \<Rightarrow> False)"

definition aware_time :: "json \<Rightarrow> bool" where
  "aware_time j =
     (case j of JStr s \<Rightarrow> (case fromisoformat s of Some (Aware _) \<Rightarrow> True | _ \<Rightarrow> False) | _ \<Rightarrow> False)"

definition has_flow_fields :: "jobj \<Rightarrow> bool" where
  "has_flow_fields raw =
     (side_present raw ''src'' \<and> side_present raw ''dst'' \<and>
      jget raw ''flow_direction'' \<in> {JStr ''inbound'', JStr ''outbound''} \<and>
      text_or_none (jget raw ''policy_decision'') \<noteq> None \<and>
      (case jget raw ''timestamp_range'' of
         JObj tr \<Rightarrow> aware_time (jget tr ''first_detected'') \<and> aware_time (jget tr ''last_detected'')
       | _ \<Rightarrow> False) \<and>
      j_int (jget (j_dict (jget raw ''service'')) ''proto'') \<noteq> None)"

lemma flow_side_present: "side_present raw name \<longleftrightarrow> (\<exists>v. flow_side raw name = Inr v)"
  by (auto simp: side_present_def flow_side_def text_or_none_def split: json.splits)

lemma fromisoformat_Nil [simp]: "fromisoformat [] = None"
  by (simp add: fromisoformat_def parse_date_def digits_value_def)

lemma parse_time_aware: "aware_time j \<longleftrightarrow> (\<exists>t. parse_time j = Inr t)"
  by (auto simp: aware_time_def parse_time_def split: json.splits option.splits iso_time.splits)

lemma flow_direction_present:
  "j \<in> {JStr ''inbound'', JStr ''outbound''} \<longleftrightarrow> (\<exists>d. flow_direction_of j = Some d)"
  by (auto simp: flow_direction_of_def)

lemma has_flow_fields_parts:
  "has_flow_fields raw \<longleftrightarrow>
     (\<exists>v. flow_side raw ''src'' = Inr v) \<and> (\<exists>v. flow_side raw ''dst'' = Inr v) \<and>
     (\<exists>d. flow_direction_of (jget raw ''flow_direction'') = Some d) \<and>
     (\<exists>d. text_or_none (jget raw ''policy_decision'') = Some d) \<and>
     (\<exists>tr. j_obj (jget raw ''timestamp_range'') = Some tr \<and>
        (\<exists>t. parse_time (jget tr ''first_detected'') = Inr t) \<and> (\<exists>t. parse_time (jget tr ''last_detected'') = Inr t)) \<and>
     (\<exists>p. j_int (jget (j_dict (jget raw ''service'')) ''proto'') = Some p)"
  unfolding has_flow_fields_def flow_side_present parse_time_aware flow_direction_present not_None_eq
  by (cases "jget raw ''timestamp_range''") (simp_all add: parse_time_aware)

text \<open>The first property of the flow pipeline: exactly the records with every field a flow has
  are read, and what is read is well formed.\<close>

lemma normalize_flow_accepts: "(\<exists>r. normalize_flow raw = Inr r) \<longleftrightarrow> has_flow_fields raw"
  unfolding has_flow_fields_parts normalize_flow_def
  by (auto split: sum.splits option.splits)

lemma normalize_flow_wf: "normalize_flow raw = Inr r \<Longrightarrow> wf_flow r"
proof -
  assume n: "normalize_flow raw = Inr r"
  have b: "\<not> (fst (flow_bytes raw) = Some 0 \<and> no_bytes (snd (flow_bytes raw)))"
      "\<not> (snd (flow_bytes raw) = Some 0 \<and> no_bytes (fst (flow_bytes raw)))"
    using flow_bytes_known [OF prod.collapse [symmetric], of raw] by blast+
  from n show ?thesis
    by (rule normalize_flow_Inr) (use b in \<open>auto simp: wf_flow_def flow_of_parts_def Let_def dest: flow_side_nonempty\<close>)
qed

section \<open>Merging two sightings\<close>

lemma larger_known_comm: "larger_known a b = larger_known b a"
  by (cases a; cases b) auto

lemma larger_known_idem [simp]: "larger_known a a = a"
  by (cases a) auto

lemma larger_known_assoc: "larger_known (larger_known a b) c = larger_known a (larger_known b c)"
  by (cases a; cases b; cases c) (auto simp: max.assoc)

lemma larger_known_None [simp]: "larger_known a b = None \<longleftrightarrow> a = None \<and> b = None"
  by (cases a; cases b) auto

lemma larger_known_ge: "a = Some x \<Longrightarrow> \<exists>y. larger_known a b = Some y \<and> x \<le> y"
  by (cases b) auto

lemma larger_known_zero: "larger_known a b = Some 0 \<Longrightarrow> no_bytes a \<or> (\<exists>x. a = Some x \<and> x < 0)"
  by (cases a; cases b) (auto simp: no_bytes_def max_def split: if_splits)

lemma merge_sightings_fields:
  "fl_num_connections (merge_sightings a b) = max (fl_num_connections a) (fl_num_connections b)"
  "fl_bytes_in (merge_sightings a b) = larger_known (fl_bytes_in a) (fl_bytes_in b)"
  "fl_bytes_out (merge_sightings a b) = larger_known (fl_bytes_out a) (fl_bytes_out b)"
  "fl_last (merge_sightings a b) = max (fl_last a) (fl_last b)"
  by (auto simp: merge_sightings_def)

lemma merge_sightings_idem: "merge_sightings a a = a"
  by (cases a) (simp add: merge_sightings_def text_or_def)

text \<open>A merge of two sightings of one record is a sighting of that record.\<close>

definition same_record :: "flow_record \<Rightarrow> flow_record \<Rightarrow> bool" where
  "same_record a b = (fl_direction a = fl_direction b \<and> conn_tuple a = conn_tuple b \<and> fl_first a = fl_first b)"

lemma record_key_same: "same_record a b \<Longrightarrow> record_key sha a = record_key sha b"
  by (simp add: same_record_def record_key_def record_key_text_def conn_tuple_def)

lemma merge_sightings_same_record: "same_record a b \<Longrightarrow> same_record (merge_sightings a b) a"
  by (auto simp: same_record_def merge_sightings_def conn_tuple_def)

definition nonneg_bytes :: "flow_record \<Rightarrow> bool" where
  "nonneg_bytes r = (\<forall>n. fl_bytes_in r = Some n \<or> fl_bytes_out r = Some n \<longrightarrow> 0 \<le> n)"

lemma merge_bytes_known:
  assumes "\<not> (ia = Some 0 \<and> no_bytes oa)" "\<not> (ib = Some 0 \<and> no_bytes ob)"
    and "\<And>n. ia = Some n \<or> ib = Some n \<or> oa = Some n \<or> ob = Some n \<Longrightarrow> 0 \<le> n"
  shows "\<not> (larger_known ia ib = Some 0 \<and> no_bytes (larger_known oa ob))"
proof
  assume z: "larger_known ia ib = Some 0 \<and> no_bytes (larger_known oa ob)"
  then have "ia = Some 0 \<or> ib = Some 0"
    by (cases ia; cases ib) (auto simp: max_def split: if_splits)
  with assms(1,2) have k: "\<not> no_bytes oa \<or> \<not> no_bytes ob" by blast
  have "0 < k" if "\<not> no_bytes x" "x = Some k" "x = oa \<or> x = ob" for x k
    using that assms(3) [of k] by (auto simp: no_bytes_def)
  moreover have "\<exists>m. larger_known oa ob = Some m \<and> k \<le> m" if "oa = Some k \<or> ob = Some k" for k
    using that by (cases oa; cases ob) auto
  ultimately have "\<exists>m. larger_known oa ob = Some m \<and> 0 < m"
    using k by (metis less_le_trans no_bytes_def not_None_eq)
  with z show False by (auto simp: no_bytes_def)
qed

lemma merge_sightings_wf:
  assumes "wf_flow a" "wf_flow b" "nonneg_bytes a" "nonneg_bytes b"
  shows "wf_flow (merge_sightings a b)" and "nonneg_bytes (merge_sightings a b)"
proof -
  have "\<not> (fl_bytes_in (merge_sightings a b) = Some 0 \<and> no_bytes (fl_bytes_out (merge_sightings a b)))"
    unfolding merge_sightings_fields
    by (rule merge_bytes_known) (use assms in \<open>auto simp: wf_flow_def nonneg_bytes_def\<close>)
  moreover have "\<not> (fl_bytes_out (merge_sightings a b) = Some 0 \<and> no_bytes (fl_bytes_in (merge_sightings a b)))"
    unfolding merge_sightings_fields
    by (rule merge_bytes_known) (use assms in \<open>auto simp: wf_flow_def nonneg_bytes_def\<close>)
  ultimately show "wf_flow (merge_sightings a b)"
    using assms(1,2) by (auto simp: wf_flow_def merge_sightings_def text_or_def)
  show "nonneg_bytes (merge_sightings a b)"
    using assms(3,4) unfolding nonneg_bytes_def merge_sightings_fields
    by (cases "fl_bytes_in a"; cases "fl_bytes_in b"; cases "fl_bytes_out a"; cases "fl_bytes_out b") (auto simp: max_def)
qed

section \<open>The key of a record\<close>

lemma str_of_int_inj: "str_of_int m = str_of_int n \<longleftrightarrow> m = n"
proof -
  have d: "\<And>k. 0 \<le> k \<Longrightarrow> hd (dec_str k) \<noteq> CHR ''-''"
    using dec_str_digits is_digit_not by (metis dec_str_nonempty hd_in_set)
  have s: "str_of_int i = (if i < 0 then ''-'' @ dec_str (- i) else dec_str i)" for i by (simp add: str_of_int_def)
  show ?thesis
  proof (cases "m < 0"; cases "n < 0")
    assume "m < 0" "\<not> n < 0"
    then show ?thesis using d [of n] by (auto simp: s dest: sym)
  next
    assume "\<not> m < 0" "n < 0"
    then show ?thesis using d [of m] by (auto simp: s)
  qed (auto simp: s dec_str_inj)
qed

lemma str_of_int_chars: "c \<in> set (str_of_int n) \<Longrightarrow> is_digit c \<or> c = CHR ''-''"
  using dec_str_digits [of n] dec_str_digits [of "- n"] by (auto simp: str_of_int_def split: if_splits)

lemma port_text_inj: "port_text p = port_text q \<longleftrightarrow> p = q"
proof -
  have "str_of_int n \<noteq> ''None''" for n
  proof
    assume "str_of_int n = ''None''"
    then have "CHR ''N'' \<in> set (str_of_int n)" by simp
    then show False by (auto dest!: str_of_int_chars simp: is_digit_def)
  qed
  from this this [symmetric] show ?thesis
    by (cases p; cases q) (auto simp: port_text_def str_of_int_inj)
qed

lemma port_text_no_bar: "CHR ''|'' \<notin> set (port_text p)" "CHR ''|'' \<notin> set (str_of_int n)"
  by (auto simp: port_text_def is_digit_def split: option.splits dest!: str_of_int_chars)

text \<open>Two records share their key text only when they agree on everything the key names.\<close>

lemma cut_at_sep:
  fixes c :: char
  assumes "c \<notin> set p" "c \<notin> set q"
  shows "p @ [c] @ s = q @ [c] @ t \<longleftrightarrow> p = q \<and> s = t"
proof
  assume "p @ [c] @ s = q @ [c] @ t"
  then have "split_on c (p @ c # s) = split_on c (q @ c # t)" by simp
  with assms have "p = q" "split_on c s = split_on c t" by (simp_all add: split_on_append_sep)
  then show "p = q \<and> s = t" by (metis join_split_on)
qed simp

lemma flow_direction_text:
  "flow_direction_value d = flow_direction_value e \<longleftrightarrow> d = e" "CHR ''|'' \<notin> set (flow_direction_value d)"
  by (cases d; cases e; simp) (cases d; simp)

lemma record_key_text_eq:
  assumes "CHR ''|'' \<notin> set (fl_src_ip a @ fl_dst_ip a)" "CHR ''|'' \<notin> set (fl_src_ip b @ fl_dst_ip b)"
  shows "record_key_text a = record_key_text b \<longleftrightarrow>
     fl_direction a = fl_direction b \<and> conn_tuple a = conn_tuple b \<and> isoformat (fl_first a) = isoformat (fl_first b)"
  using assms
  by (simp add: record_key_text_def conn_tuple_def cut_at_sep flow_direction_text
      port_text_no_bar port_text_inj str_of_int_inj del: append_Cons)

section \<open>Pairing: nothing is lost, nothing pairable is left\<close>

lemma unused_from_insert_less: "k < n \<Longrightarrow> unused_from (insert k used) n ins = unused_from used n ins"
  by (induction ins arbitrary: n) auto

lemma unused_from_mono: "used \<subseteq> u \<Longrightarrow> set (unused_from u n ins) \<subseteq> set (unused_from used n ins)"
  by (induction ins arbitrary: n) auto

lemma unused_from_empty [simp]: "unused_from {} n ins = ins"
  by (induction ins arbitrary: n) auto

lemma first_unused_Some:
  "first_unused ok used n ins = Some (k, i) \<Longrightarrow>
     n \<le> k \<and> k \<notin> used \<and> i \<in> set ins \<and> ok i \<and>
     mset (unused_from used n ins) = add_mset i (mset (unused_from (insert k used) n ins))"
proof (induction ins arbitrary: n)
  case Nil
  then show ?case by simp
next
  case (Cons j ins)
  show ?case
  proof (cases "n \<notin> used \<and> ok j")
    case True
    with Cons.prems show ?thesis by (auto simp: unused_from_insert_less)
  next
    case False
    with Cons.prems have "first_unused ok used (Suc n) ins = Some (k, i)" by simp
    from Cons.IH [OF this] show ?thesis by auto
  qed
qed

lemma first_unused_None: "first_unused ok used n ins = None \<Longrightarrow> i \<in> set (unused_from used n ins) \<Longrightarrow> \<not> ok i"
  by (induction ins arbitrary: n) (auto split: if_splits)

lemma match_outs_grows: "match_outs ok ins used outs = (ps, u) \<Longrightarrow> used \<subseteq> u"
proof (induction outs arbitrary: used ps u)
  case Nil
  then show ?case by simp
next
  case (Cons out outs)
  then show ?case by (fastforce split: option.splits prod.splits)
qed

definition partners :: "('o \<times> 'i option) list \<Rightarrow> 'i list" where
  "partners ps = List.map_filter snd ps"

lemma partners_simps [simp]:
  "partners [] = []" "partners ((x, None) # ps) = partners ps" "partners ((x, Some i) # ps) = i # partners ps"
  "partners (ps @ qs) = partners ps @ partners qs" "partners (map (\<lambda>i. (i, None)) xs) = []"
  by (simp_all add: partners_def List.map_filter_def)

lemma match_outs_mset:
  "match_outs ok ins used outs = (ps, u) \<Longrightarrow>
     map fst ps = outs \<and> mset (partners ps) + mset (unused_from u 0 ins) = mset (unused_from used 0 ins)"
proof (induction outs arbitrary: used ps u)
  case Nil
  then show ?case by auto
next
  case (Cons out outs)
  show ?case
  proof (cases "first_unused (ok out) used 0 ins")
    case None
    with Cons show ?thesis by (auto split: prod.splits)
  next
    case (Some r)
    obtain k i where r: "r = (k, i)" by (cases r)
    obtain qs w where m: "match_outs ok ins (insert k used) outs = (qs, w)" by fastforce
    from Cons.prems Some r m have "ps = (out, Some i) # qs" "u = w" by simp_all
    with Cons.IH [OF m] first_unused_Some [OF Some [unfolded r]] show ?thesis by simp
  qed
qed

text \<open>What the greedy pass leaves: a partner that fits, or no free inbound record that would.\<close>

definition pair_ok :: "('o \<Rightarrow> 'i \<Rightarrow> bool) \<Rightarrow> 'i list \<Rightarrow> 'i list \<Rightarrow> 'o \<times> 'i option \<Rightarrow> bool" where
  "pair_ok ok ins free x =
     (case snd x of Some i \<Rightarrow> i \<in> set ins \<and> ok (fst x) i | None \<Rightarrow> (\<forall>i \<in> set free. \<not> ok (fst x) i))"

lemma match_outs_pairs:
  "match_outs ok ins used outs = (ps, u) \<Longrightarrow> x \<in> set ps \<Longrightarrow> pair_ok ok ins (unused_from u 0 ins) x"
proof (induction outs arbitrary: used ps u)
  case Nil
  then show ?case by simp
next
  case (Cons out outs)
  show ?case
  proof (cases "first_unused (ok out) used 0 ins")
    case None
    obtain qs w where m: "match_outs ok ins used outs = (qs, w)" by fastforce
    have ps: "ps = (out, None) # qs" "u = w" using Cons.prems(1) None m by simp_all
    have "pair_ok ok ins (unused_from w 0 ins) (out, None)"
      using first_unused_None [OF None] unused_from_mono [OF match_outs_grows [OF m], of 0 ins]
      by (simp add: pair_ok_def subset_iff)
    with Cons.prems(2) Cons.IH [OF m] show ?thesis by (auto simp: ps)
  next
    case (Some r)
    obtain k i where r: "r = (k, i)" by (cases r)
    obtain qs w where m: "match_outs ok ins (insert k used) outs = (qs, w)" by fastforce
    have ps: "ps = (out, Some i) # qs" "u = w" using Cons.prems(1) Some r m by simp_all
    have "pair_ok ok ins (unused_from w 0 ins) (out, Some i)"
      using first_unused_Some [OF Some [unfolded r]] by (simp add: pair_ok_def)
    with Cons.prems(2) Cons.IH [OF m] show ?thesis by (auto simp: ps)
  qed
qed

lemma mset_by_groups:
  "distinct ks \<Longrightarrow> set (map key xs) \<subseteq> set ks \<Longrightarrow>
     mset (concat (map (\<lambda>k. filter (\<lambda>x. key x = k) xs) ks)) = mset xs"
proof (induction ks arbitrary: xs)
  case Nil
  then show ?case by simp
next
  case (Cons k ks)
  let ?rest = "filter (\<lambda>x. key x \<noteq> k) xs"
  have "filter (\<lambda>x. key x = l) ?rest = filter (\<lambda>x. key x = l) xs" if "l \<in> set ks" for l
    using that Cons.prems(1) by (auto simp: filter_filter intro!: filter_cong)
  then have m: "map (\<lambda>k. filter (\<lambda>x. key x = k) xs) ks = map (\<lambda>k. filter (\<lambda>x. key x = k) ?rest) ks"
    by simp
  have "mset (concat (map (\<lambda>k. filter (\<lambda>x. key x = k) ?rest) ks)) = mset ?rest"
    by (rule Cons.IH) (use Cons.prems in auto)
  then show ?case
    using multiset_partition [of "mset xs" "\<lambda>x. key x = k"] by (simp add: m)
qed

lemma pair_group_parts:
  fixes recs :: "flow_record list" and sha :: "string \<Rightarrow> string"
  defines "srt \<equiv> sort_key (\<lambda>r. (fl_first r, record_key sha r)) recs"
  obtains ps u where
    "match_outs (\<lambda>out i. flows_within out i PAIRING_MAX_GAP_SECONDS)
       (filter (\<lambda>r. fl_direction r = FD_INBOUND) srt) {} (filter (\<lambda>r. fl_direction r = FD_OUTBOUND) srt) = (ps, u)"
    "pair_group sha recs = ps @ map (\<lambda>i. (i, None)) (unused_from u 0 (filter (\<lambda>r. fl_direction r = FD_INBOUND) srt))"
proof -
  obtain ps u where "match_outs (\<lambda>out i. flows_within out i PAIRING_MAX_GAP_SECONDS)
       (filter (\<lambda>r. fl_direction r = FD_INBOUND) srt) {} (filter (\<lambda>r. fl_direction r = FD_OUTBOUND) srt) = (ps, u)"
    by fastforce
  then show thesis using that by (simp add: pair_group_def srt_def [symmetric] Let_def)
qed

lemma other_direction: "fl_direction r \<noteq> FD_INBOUND \<longleftrightarrow> fl_direction r = FD_OUTBOUND"
  by (cases "fl_direction r") auto

lemma pair_group_mset:
  "mset (map fst (pair_group sha recs)) + mset (partners (pair_group sha recs)) = mset recs"
proof -
  let ?s = "sort_key (\<lambda>r. (fl_first r, record_key sha r)) recs"
  let ?ins = "filter (\<lambda>r. fl_direction r = FD_INBOUND) ?s"
  let ?outs = "filter (\<lambda>r. fl_direction r = FD_OUTBOUND) ?s"
  obtain ps u where m: "match_outs (\<lambda>out i. flows_within out i PAIRING_MAX_GAP_SECONDS) ?ins {} ?outs = (ps, u)"
    and g: "pair_group sha recs = ps @ map (\<lambda>i. (i, None)) (unused_from u 0 ?ins)"
    by (rule pair_group_parts)
  from match_outs_mset [OF m]
  have p: "map fst ps = ?outs" "mset (partners ps) + mset (unused_from u 0 ?ins) = mset ?ins" by simp_all
  have "mset (map fst (pair_group sha recs)) + mset (partners (pair_group sha recs)) =
      mset ?outs + (mset (partners ps) + mset (unused_from u 0 ?ins))"
    by (simp add: g p(1) comp_def)
  also have "\<dots> = mset ?outs + mset ?ins" by (simp only: p(2))
  also have "\<dots> = mset ?s"
    using multiset_partition [of "mset ?s" "\<lambda>r. fl_direction r = FD_OUTBOUND"]
    by (simp flip: other_direction)
  finally show ?thesis by simp
qed

definition loose :: "flow_record list \<Rightarrow> flow_record \<Rightarrow> bool" where
  "loose free r = (\<forall>i \<in> set free. \<not> flows_within r i PAIRING_MAX_GAP_SECONDS)"

lemma pair_group_pairs:
  assumes x: "x \<in> set (pair_group sha recs)"
  shows "fst x \<in> set recs"
    and "snd x = Some i \<Longrightarrow> i \<in> set recs \<and> fl_direction (fst x) = FD_OUTBOUND \<and> fl_direction i = FD_INBOUND \<and>
           flows_within (fst x) i PAIRING_MAX_GAP_SECONDS"
    and "snd x = None \<Longrightarrow> fl_direction (fst x) = FD_OUTBOUND \<Longrightarrow> (i, None) \<in> set (pair_group sha recs) \<Longrightarrow>
           fl_direction i = FD_INBOUND \<Longrightarrow> \<not> flows_within (fst x) i PAIRING_MAX_GAP_SECONDS"
proof -
  let ?s = "sort_key (\<lambda>r. (fl_first r, record_key sha r)) recs"
  let ?ins = "filter (\<lambda>r. fl_direction r = FD_INBOUND) ?s"
  let ?outs = "filter (\<lambda>r. fl_direction r = FD_OUTBOUND) ?s"
  obtain ps u where m: "match_outs (\<lambda>out i. flows_within out i PAIRING_MAX_GAP_SECONDS) ?ins {} ?outs = (ps, u)"
    and g: "pair_group sha recs = ps @ map (\<lambda>i. (i, None)) (unused_from u 0 ?ins)"
    by (rule pair_group_parts)
  have outs: "\<And>y. y \<in> set ps \<Longrightarrow> fst y \<in> set recs \<and> fl_direction (fst y) = FD_OUTBOUND"
  proof -
    fix y assume "y \<in> set ps"
    then have "fst y \<in> set ?outs" using match_outs_mset [OF m] by (metis image_eqI list.set_map)
    then show "fst y \<in> set recs \<and> fl_direction (fst y) = FD_OUTBOUND" by simp
  qed
  have free: "\<And>y. y \<in> set (unused_from u 0 ?ins) \<Longrightarrow> y \<in> set recs \<and> fl_direction y = FD_INBOUND"
    using unused_from_mono [of "{}" u 0 ?ins] by auto
  note ok = match_outs_pairs [OF m, unfolded pair_ok_def]
  from x consider "x \<in> set ps" | "fst x \<in> set (unused_from u 0 ?ins)" by (auto simp: g)
  then show "fst x \<in> set recs"
  proof cases
    case 1
    then show ?thesis using outs [of x] by simp
  next
    case 2
    then show ?thesis using free [of "fst x"] by simp
  qed
  show "snd x = Some i \<Longrightarrow> i \<in> set recs \<and> fl_direction (fst x) = FD_OUTBOUND \<and> fl_direction i = FD_INBOUND \<and>
           flows_within (fst x) i PAIRING_MAX_GAP_SECONDS"
  proof -
    assume n: "snd x = Some i"
    with x have "x \<in> set ps" by (auto simp: g)
    with outs [of x] ok [of x] n show ?thesis by simp
  qed
  show "\<not> flows_within (fst x) i PAIRING_MAX_GAP_SECONDS"
    if n: "snd x = None" "fl_direction (fst x) = FD_OUTBOUND" "(i, None) \<in> set (pair_group sha recs)"
      "fl_direction i = FD_INBOUND"
  proof -
    have xp: "x \<in> set ps \<or> fst x \<in> set (unused_from u 0 ?ins)" using x by (auto simp: g)
    have "x \<in> set ps" using xp free [of "fst x"] n(2) by (elim disjE) simp_all
    moreover have ip: "(i, None) \<in> set ps \<or> i \<in> set (unused_from u 0 ?ins)" using n(3) by (auto simp: g)
    have "i \<in> set (unused_from u 0 ?ins)" using ip outs [of "(i, None)"] n(4) by (elim disjE) simp_all
    ultimately show ?thesis using ok [of x] n(1) by simp
  qed
qed

text \<open>From one 4-tuple to all of them.\<close>

lemma group_pairs_groups:
  "group_pairs sha records =
     concat (map (\<lambda>k. pair_group sha (filter (\<lambda>r. conn_tuple r = k) records)) (nub (map conn_tuple records)))"
  by (simp add: group_pairs_def group_by_items comp_def)

lemma partners_concat: "partners (concat xss) = concat (map partners xss)"
  by (induction xss) auto

lemma mset_concat_map_add:
  "mset (concat (map f ks)) + mset (concat (map g ks)) = sum_list (map (\<lambda>k. mset (f k) + mset (g k)) ks)"
  by (induction ks) auto

lemma group_pairs_mset: "mset (map fst (group_pairs sha records)) + mset (partners (group_pairs sha records)) = mset records"
proof -
  let ?ks = "nub (map conn_tuple records)"
  let ?g = "\<lambda>k. filter (\<lambda>r. conn_tuple r = k) records"
  have "mset (map fst (group_pairs sha records)) + mset (partners (group_pairs sha records)) =
      sum_list (map (\<lambda>k. mset (map fst (pair_group sha (?g k))) + mset (partners (pair_group sha (?g k)))) ?ks)"
    by (simp only: group_pairs_groups partners_concat map_concat map_map comp_def mset_concat_map_add)
  also have "\<dots> = sum_list (map (\<lambda>k. mset (?g k)) ?ks)"
    by (simp only: pair_group_mset)
  also have "\<dots> = mset (concat (map ?g ?ks))"
    by (simp add: mset_concat comp_def)
  also have "\<dots> = mset records"
    by (rule mset_by_groups) auto
  finally show ?thesis .
qed

lemma group_pairs_member:
  "x \<in> set (group_pairs sha records) \<longleftrightarrow>
     x \<in> set (pair_group sha (filter (\<lambda>r. conn_tuple r = conn_tuple (fst x)) records))"
proof
  assume "x \<in> set (group_pairs sha records)"
  then obtain k where k: "x \<in> set (pair_group sha (filter (\<lambda>r. conn_tuple r = k) records))"
    by (simp only: group_pairs_groups set_concat set_map UN_iff image_iff) blast
  from pair_group_pairs(1) [OF k] have "conn_tuple (fst x) = k" by simp
  with k show "x \<in> set (pair_group sha (filter (\<lambda>r. conn_tuple r = conn_tuple (fst x)) records))" by simp
next
  assume x: "x \<in> set (pair_group sha (filter (\<lambda>r. conn_tuple r = conn_tuple (fst x)) records))"
  from pair_group_pairs(1) [OF x] have "conn_tuple (fst x) \<in> set (nub (map conn_tuple records))" by simp
  with x show "x \<in> set (group_pairs sha records)" unfolding group_pairs_groups by fastforce
qed

lemma same_connection_sym: "same_connection a b gap = same_connection b a gap"
  by (auto simp: same_connection_def flows_within_def ranges_within_def max.commute min.commute)

lemma group_pairs_partner:
  assumes "(a, Some i) \<in> set (group_pairs sha records)"
  shows "fl_direction a = FD_OUTBOUND \<and> same_connection a i PAIRING_MAX_GAP_SECONDS"
  using pair_group_pairs(2) [OF assms [unfolded group_pairs_member [of "(a, Some i)"]], of i]
  by (simp add: same_connection_def)

lemma group_pairs_alone:
  assumes "(a, None) \<in> set (group_pairs sha records)" "(i, None) \<in> set (group_pairs sha records)"
    "fl_direction a = FD_OUTBOUND"
  shows "\<not> same_connection a i PAIRING_MAX_GAP_SECONDS"
proof
  assume s: "same_connection a i PAIRING_MAX_GAP_SECONDS"
  then have t: "conn_tuple a = conn_tuple i" "fl_direction i = FD_INBOUND" "flows_within a i PAIRING_MAX_GAP_SECONDS"
    using assms(3) by (auto simp: same_connection_def other_direction split: if_splits) (metis other_direction)
  show False
    using pair_group_pairs(3) [OF assms(1) [unfolded group_pairs_member [of "(a, None)"]], of i] assms(2,3) t
    by (simp add: group_pairs_member [of "(i, None)"])
qed

section \<open>Properties\<close>

text \<open>A flow used in the examples below: a workload reaching a server over SMB.\<close>

definition example_flow :: "flow_direction \<Rightarrow> time \<Rightarrow> time \<Rightarrow> flow_record" where
  "example_flow dir t1 t2 =
     \<lparr> fl_direction = dir, fl_src_ip = ''10.0.0.1'', fl_dst_ip = ''10.0.0.2'', fl_src_href = None, fl_dst_href = None,
       fl_src_hostname = None, fl_dst_hostname = None, fl_src_managed = True, fl_dst_managed = True,
       fl_src_mode = None, fl_dst_mode = None, fl_src_labels = [], fl_dst_labels = [], fl_port = Some 445, fl_proto = 6,
       fl_own_process = None, fl_own_user = None, fl_windows_service = None, fl_policy_decision = ''allowed'',
       fl_first = t1, fl_last = t2, fl_num_connections = 1, fl_bytes_in = None, fl_bytes_out = Some 10,
       fl_state = None, fl_transmission = None, fl_network_href = None \<rparr>"


text \<open>C25. Merging two sightings of one record keeps its identity and its well-formedness, takes the
  larger of the counters, never loses a known byte count, reaches the later end, and merging a
  sighting with itself changes nothing.\<close>

theorem merge_sightings_sound:
  assumes "wf_flow a" "wf_flow b" "nonneg_bytes a" "nonneg_bytes b" "same_record a b"
  shows "wf_flow (merge_sightings a b) \<and>
    record_key sha (merge_sightings a b) = record_key sha a \<and>
    fl_num_connections (merge_sightings a b) = max (fl_num_connections a) (fl_num_connections b) \<and>
    fl_bytes_in (merge_sightings a b) = larger_known (fl_bytes_in a) (fl_bytes_in b) \<and>
    fl_bytes_out (merge_sightings a b) = larger_known (fl_bytes_out a) (fl_bytes_out b) \<and>
    fl_last (merge_sightings a b) = max (fl_last a) (fl_last b) \<and>
    merge_sightings a a = a"
  using merge_sightings_wf [OF assms(1-4)] record_key_same [OF merge_sightings_same_record [OF assms(5)]]
  by (simp add: merge_sightings_fields merge_sightings_idem)

theorem merge_sightings_sound_witness:
  "wf_flow (merge_sightings (example_flow FD_OUTBOUND 5 9) (example_flow FD_OUTBOUND 5 7)) \<and>
   fl_last (merge_sightings (example_flow FD_OUTBOUND 5 9) (example_flow FD_OUTBOUND 5 7)) = 9"
  using merge_sightings_sound [of "example_flow FD_OUTBOUND 5 9" "example_flow FD_OUTBOUND 5 7"]
  by (simp add: wf_flow_def nonneg_bytes_def same_record_def conn_tuple_def example_flow_def no_bytes_def py_lower_def py_lower_char_def)

text \<open>C24. \<open>group_pairs\<close> loses no record and repeats none: primaries and partners together are the
  records. Every partnered primary is the outbound record of one connection with its partner, and
  no outbound record is left alone while an inbound record of the same connection is.\<close>

theorem group_pairs_sound:
  "mset (map fst (group_pairs sha records)) + mset (partners (group_pairs sha records)) = mset records \<and>
   (\<forall>a i. (a, Some i) \<in> set (group_pairs sha records) \<longrightarrow>
      fl_direction a = FD_OUTBOUND \<and> same_connection a i PAIRING_MAX_GAP_SECONDS) \<and>
   (\<forall>a i. (a, None) \<in> set (group_pairs sha records) \<longrightarrow> (i, None) \<in> set (group_pairs sha records) \<longrightarrow>
      fl_direction a = FD_OUTBOUND \<longrightarrow> \<not> same_connection a i PAIRING_MAX_GAP_SECONDS)"
  using group_pairs_mset [of sha records] group_pairs_partner [of _ _ sha records] group_pairs_alone [of _ sha records]
  by blast

theorem group_pairs_sound_witness:
  "group_pairs id [example_flow FD_INBOUND 5 9, example_flow FD_OUTBOUND 6 9] =
     [(example_flow FD_OUTBOUND 6 9, Some (example_flow FD_INBOUND 5 9))] \<and>
   same_connection (example_flow FD_OUTBOUND 6 9) (example_flow FD_INBOUND 5 9) PAIRING_MAX_GAP_SECONDS"
proof -
  have g: "group_pairs id [example_flow FD_INBOUND 5 9, example_flow FD_OUTBOUND 6 9] =
      [(example_flow FD_OUTBOUND 6 9, Some (example_flow FD_INBOUND 5 9))]"
    by (simp add: group_pairs_def group_by_def dict_append_def pair_group_def conn_tuple_def example_flow_def
        flows_within_def ranges_within_def PAIRING_MAX_GAP_SECONDS_def SECOND_def)
  with group_pairs_sound [of id "[example_flow FD_INBOUND 5 9, example_flow FD_OUTBOUND 6 9]"]
  show ?thesis by simp
qed

text \<open>The text a record's key is the digest of determines the record: two records have the same
  text exactly when direction, addresses, port, protocol and printed first time agree.\<close>

lemma record_key_text_identity:
  assumes "CHR ''|'' \<notin> set (fl_src_ip a @ fl_dst_ip a)" "CHR ''|'' \<notin> set (fl_src_ip b @ fl_dst_ip b)"
  shows "record_key_text a = record_key_text b \<longleftrightarrow>
    fl_direction a = fl_direction b \<and> conn_tuple a = conn_tuple b \<and> isoformat (fl_first a) = isoformat (fl_first b)"
  by (rule record_key_text_eq) (fact assms)+

lemma record_key_text_identity_witness:
  "record_key_text (example_flow FD_OUTBOUND 5 9) \<noteq> record_key_text (example_flow FD_INBOUND 5 9)"
  using record_key_text_identity [of "example_flow FD_OUTBOUND 5 9" "example_flow FD_INBOUND 5 9"]
  by (simp add: example_flow_def)

end
