(* ===== verification/FlowFilter.thy ===== *)
theory FlowFilter
  imports Flows Netaddr
begin

text \<open>
  \<open>domain/filter.py\<close>, the part that is common to its three executions, and \<open>matches\<close>: the filter
  specification with its validation, partial text matching, and the test of one connection. A
  connection is a \<open>flow_view\<close>, what \<open>_view\<close> gives for a record or a stored row. What IP lists,
  label groups and services stand for is passed in as dictionaries, as the code does.
\<close>

section \<open>The specification\<close>

record label_cond =
  lc_key :: string
  lc_values :: "string list"

record port_proto =
  pp_port :: "int option"
  pp_to_port :: "int option"
  pp_proto :: "int option"

datatype filter_error = ValueError string

text \<open>The field bounds and \<open>_shape\<close>.\<close>

definition within_opt :: "int \<Rightarrow> int \<Rightarrow> int option \<Rightarrow> bool" where
  "within_opt lo hi x = (case x of None \<Rightarrow> True | Some n \<Rightarrow> lo \<le> n \<and> n \<le> hi)"

definition port_proto_shape :: "port_proto \<Rightarrow> filter_error + port_proto" where
  "port_proto_shape p =
     (if \<not> (within_opt (- 1) 65535 (pp_port p) \<and> within_opt 0 65535 (pp_to_port p) \<and> within_opt 0 255 (pp_proto p))
      then Inl (ValueError ''out of range'')
      else if pp_port p = None \<and> pp_proto p = None then Inl (ValueError ''a port or a protocol is required'')
      else case pp_to_port p of
        None \<Rightarrow> Inr p
      | Some hi \<Rightarrow>
          (case pp_port p of
             None \<Rightarrow> Inl (ValueError ''to_port needs a port no larger than it'')
           | Some lo \<Rightarrow> (if lo < 0 \<or> hi < lo then Inl (ValueError ''to_port needs a port no larger than it'') else Inr p)))"

datatype match_mode = MatchAny | MatchAll

record endpoint_filter =
  ep_labels :: "label_cond list"
  ep_hrefs :: "string list"
  ep_ips :: "string list"
  ep_ip_lists :: "string list"
  ep_public :: bool
  ep_match :: match_mode
  ep_label_groups :: "string list"

definition has_labels :: "endpoint_filter \<Rightarrow> bool" where
  "has_labels ep = (ep_labels ep \<noteq> [] \<or> ep_label_groups ep \<noteq> [])"

definition has_hosts :: "endpoint_filter \<Rightarrow> bool" where
  "has_hosts ep = (ep_hrefs ep \<noteq> [] \<or> ep_ips ep \<noteq> [] \<or> ep_ip_lists ep \<noteq> [] \<or> ep_public ep)"

definition intersects :: "endpoint_filter \<Rightarrow> bool" where
  "intersects ep = (ep_match ep = MatchAll \<and> has_labels ep \<and> has_hosts ep)"

definition ep_is_empty :: "endpoint_filter \<Rightarrow> bool" where
  "ep_is_empty ep = (\<not> (has_labels ep \<or> has_hosts ep))"

definition ips_valid :: "endpoint_filter \<Rightarrow> bool" where
  "ips_valid ep = list_all (\<lambda>token. parse_ip_token token \<noteq> None) (ep_ips ep)"

datatype transmission = Unicast | Broadcast | Multicast

fun transmission_value :: "transmission \<Rightarrow> string" where
  "transmission_value Unicast = ''unicast''"
| "transmission_value Broadcast = ''broadcast''"
| "transmission_value Multicast = ''multicast''"

record flow_condition =
  fc_src :: "endpoint_filter option"
  fc_dst :: "endpoint_filter option"
  fc_src_exclude :: "endpoint_filter option"
  fc_dst_exclude :: "endpoint_filter option"
  fc_ports :: "port_proto list"
  fc_exclude_ports :: "port_proto list"
  fc_decisions :: "policy_decision list"
  fc_initiator_process :: "string option"
  fc_initiator_user :: "string option"
  fc_service_process :: "string option"
  fc_service_user :: "string option"
  fc_initiator_processes :: "string list"
  fc_initiator_users :: "string list"
  fc_service_processes :: "string list"
  fc_service_users :: "string list"
  fc_text :: "string option"
  fc_exclude_system_accounts :: bool
  fc_either :: "endpoint_filter option"
  fc_either_exclude :: "endpoint_filter option"
  fc_services :: "string list"
  fc_exclude_services :: "string list"
  fc_windows_services :: "string list"
  fc_exclude_windows_services :: "string list"
  fc_transmissions :: "transmission list"
  fc_exclude_transmissions :: "transmission list"
  fc_exclude_processes :: "string list"

record filter_spec = flow_condition +
  fs_start :: time
  fs_end :: time

text \<open>The condition that sets nothing: the default of every field.\<close>

definition any_flow :: flow_condition where
  "any_flow =
     \<lparr> fc_src = None, fc_dst = None, fc_src_exclude = None, fc_dst_exclude = None, fc_ports = [], fc_exclude_ports = [],
       fc_decisions = [], fc_initiator_process = None, fc_initiator_user = None, fc_service_process = None,
       fc_service_user = None, fc_initiator_processes = [], fc_initiator_users = [], fc_service_processes = [],
       fc_service_users = [], fc_text = None, fc_exclude_system_accounts = False, fc_either = None,
       fc_either_exclude = None, fc_services = [], fc_exclude_services = [], fc_windows_services = [],
       fc_exclude_windows_services = [], fc_transmissions = [], fc_exclude_transmissions = [],
       fc_exclude_processes = [] \<rparr>"

definition any_endpoint :: endpoint_filter where
  "any_endpoint =
     \<lparr> ep_labels = [], ep_hrefs = [], ep_ips = [], ep_ip_lists = [], ep_public = False, ep_match = MatchAny,
       ep_label_groups = [] \<rparr>"

text \<open>\<open>_processes\<close>: the excluded process names as the store keeps them.\<close>

fun stored_processes :: "string list \<Rightarrow> filter_error + string list" where
  "stored_processes [] = Inr []"
| "stored_processes (name # names) =
     (case normalize_process (Some (py_strip name)) of
        None \<Rightarrow> Inl (ValueError ''a process name cannot be empty'')
      | Some n \<Rightarrow> map_sum id (\<lambda>ns. n # ns) (stored_processes names))"

text \<open>\<open>_start_ms\<close>, \<open>_end_ms\<close>: bounds moved inward to whole milliseconds; \<open>_window\<close>; \<open>within\<close>.\<close>

definition MS :: int where "MS = 1000"

definition start_ms :: "time \<Rightarrow> time" where
  "start_ms v = (if v mod MS = 0 then v else v + (MS - v mod MS))"

definition end_ms :: "time \<Rightarrow> time" where
  "end_ms v = v - v mod MS"

definition spec_within :: "flow_condition \<Rightarrow> time \<Rightarrow> time \<Rightarrow> filter_error + filter_spec" where
  "spec_within c start stop =
     (case stored_processes (fc_exclude_processes c) of
        Inl e \<Rightarrow> Inl e
      | Inr ps \<Rightarrow>
          (if end_ms stop \<le> start_ms start then Inl (ValueError ''end must be after start'')
           else Inr (flow_condition.extend (c \<lparr> fc_exclude_processes := ps \<rparr>)
                      (filter_spec.fields (start_ms start) (end_ms stop)))))"

definition spec_condition :: "filter_spec \<Rightarrow> flow_condition" where
  "spec_condition s = flow_condition.truncate s"

section \<open>Partial text matching\<close>

definition like_pattern :: "string \<Rightarrow> string" where
  "like_pattern term =
     (let escaped = replace_char CHR ''_'' [CHR 92, CHR ''_''] (replace_char CHR ''%'' [CHR 92, CHR ''%'']
                      (replace_char CHR 92 [CHR 92, CHR 92] term))
      in if CHR ''*'' \<in> set term then replace_char CHR ''*'' ''%'' escaped
         else [CHR ''%''] @ escaped @ [CHR ''%''])"

text \<open>The regular expression \<open>_like_regex\<close> builds, as its elements, and \<open>fullmatch\<close> with
  \<open>IGNORECASE | ASCII | DOTALL\<close>.\<close>

datatype pat = AnyRun | AnyChar | Lit char

definition pat_of :: "char \<Rightarrow> pat" where
  "pat_of c = (if c = CHR ''%'' then AnyRun else if c = CHR ''_'' then AnyChar else Lit c)"

fun like_regex :: "string \<Rightarrow> pat list" where
  "like_regex [] = []"
| "like_regex [c] = [pat_of c]"
| "like_regex (c # d # cs) = (if c = CHR 92 then Lit d # like_regex cs else pat_of c # like_regex (d # cs))"

definition same_ascii :: "char \<Rightarrow> char \<Rightarrow> bool" where
  "same_ascii c d = (ascii_lower_char c = ascii_lower_char d)"

fun fullmatch :: "pat list \<Rightarrow> string \<Rightarrow> bool" where
  "fullmatch [] s = (s = [])"
| "fullmatch (Lit c # ps) [] = False"
| "fullmatch (Lit c # ps) (x # s) = (same_ascii c x \<and> fullmatch ps s)"
| "fullmatch (AnyChar # ps) [] = False"
| "fullmatch (AnyChar # ps) (x # s) = fullmatch ps s"
| "fullmatch (AnyRun # ps) [] = fullmatch ps []"
| "fullmatch (AnyRun # ps) (x # s) = (fullmatch ps (x # s) \<or> fullmatch (AnyRun # ps) s)"

definition like :: "string option \<Rightarrow> string \<Rightarrow> bool" where
  "like value term = (case value of None \<Rightarrow> False | Some s \<Rightarrow> fullmatch (like_regex (like_pattern term)) s)"

section \<open>One end of a connection\<close>

definition split_ips :: "string list \<Rightarrow> string list \<times> string list" where
  "split_ips ips = (filter (\<lambda>t. CHR ''/'' \<notin> set t) ips, filter (\<lambda>t. CHR ''/'' \<in> set t) ips)"

definition ip_in_net :: "string \<Rightarrow> string \<Rightarrow> bool" where
  "ip_in_net ip net =
     (case (parse_ip_token ip, ip_network net) of
        (Some (TokAddr a), Some n) \<Rightarrow> addr_in a n
      | _ \<Rightarrow> False)"

definition user_key :: "string \<Rightarrow> string" where
  "user_key name = (if CHR 92 \<in> set name \<or> CHR ''@'' \<in> set name then py_lower name else name)"

definition ascii_lower :: "string \<Rightarrow> string" where
  "ascii_lower value = map ascii_lower_char value"

record flow_view =
  v_is_primary :: int
  v_src_ip :: string
  v_dst_ip :: string
  v_src_href :: "string option"
  v_dst_href :: "string option"
  v_src_hostname :: "string option"
  v_dst_hostname :: "string option"
  v_src_labels :: "(string, string) dict"
  v_dst_labels :: "(string, string) dict"
  v_port :: "int option"
  v_proto :: int
  v_policy_decision :: string
  v_initiator_process :: "string option"
  v_initiator_user :: "string option"
  v_service_process :: "string option"
  v_service_user :: "string option"
  v_windows_service :: "string option"
  v_transmission :: "string option"
  v_first :: time
  v_last :: time

text \<open>\<open>dict(pairs)\<close>: the last pair of a key counts.\<close>

definition dict_of :: "(string \<times> string) list \<Rightarrow> (string, string) dict" where
  "dict_of ps = fold (\<lambda>(k, v). dict_set k v) ps []"

definition flow_view_of :: "flow_record \<Rightarrow> flow_view" where
  "flow_view_of r =
     (let outbound = (fl_direction r = FD_OUTBOUND) in
      \<lparr> v_is_primary = 1, v_src_ip = fl_src_ip r, v_dst_ip = fl_dst_ip r, v_src_href = fl_src_href r,
        v_dst_href = fl_dst_href r, v_src_hostname = fl_src_hostname r, v_dst_hostname = fl_dst_hostname r,
        v_src_labels = dict_of (fl_src_labels r), v_dst_labels = dict_of (fl_dst_labels r),
        v_port = fl_port r, v_proto = fl_proto r, v_policy_decision = fl_policy_decision r,
        v_initiator_process = (if outbound then fl_own_process r else None),
        v_initiator_user = (if outbound then fl_own_user r else None),
        v_service_process = (if outbound then None else fl_own_process r),
        v_service_user = (if outbound then None else fl_own_user r),
        v_windows_service = fl_windows_service r, v_transmission = fl_transmission r,
        v_first = fl_first r, v_last = fl_last r \<rparr>)"

datatype side = Src | Dst

fun side_ip :: "flow_view \<Rightarrow> side \<Rightarrow> string" where
  "side_ip v Src = v_src_ip v" | "side_ip v Dst = v_dst_ip v"

fun side_href :: "flow_view \<Rightarrow> side \<Rightarrow> string option" where
  "side_href v Src = v_src_href v" | "side_href v Dst = v_dst_href v"

fun side_labels :: "flow_view \<Rightarrow> side \<Rightarrow> (string, string) dict" where
  "side_labels v Src = v_src_labels v" | "side_labels v Dst = v_dst_labels v"

type_synonym ip_lists = "(string, string list) dict"
type_synonym label_groups = "(string, string \<times> string list) dict"
type_synonym service_ports = "(string, (int option \<times> int option \<times> int option) list) dict"

text \<open>\<open>allowed.setdefault(key, set()).update(values)\<close>\<close>

definition allow :: "string \<Rightarrow> string list \<Rightarrow> (string, string list) dict \<Rightarrow> (string, string list) dict" where
  "allow k vs d = dict_set k ((case dict_get d k of None \<Rightarrow> [] | Some ws \<Rightarrow> ws) @ vs) d"

fun allow_groups :: "label_groups \<Rightarrow> string list \<Rightarrow> (string, string list) dict \<Rightarrow> (string, string list) dict option" where
  "allow_groups groups [] d = Some d"
| "allow_groups groups (h # hs) d =
     (case dict_get groups h of
        None \<Rightarrow> None
      | Some (k, members) \<Rightarrow> allow_groups groups hs (allow k members d))"

definition labels_hold :: "endpoint_filter \<Rightarrow> (string, string) dict \<Rightarrow> label_groups \<Rightarrow> bool" where
  "labels_hold ep labels groups =
     (case allow_groups groups (ep_label_groups ep) (fold (\<lambda>c. allow (lc_key c) (lc_values c)) (ep_labels ep) []) of
        None \<Rightarrow> False
      | Some allowed \<Rightarrow>
          list_all (\<lambda>(k, vs). case dict_get labels k of None \<Rightarrow> False | Some x \<Rightarrow> x \<in> set vs) allowed)"

definition listed_nets :: "string list \<Rightarrow> ip_lists \<Rightarrow> string list" where
  "listed_nets hs ipls = concat (map (\<lambda>h. case dict_get ipls h of None \<Rightarrow> [] | Some ns \<Rightarrow> ns) hs)"

definition hosts_hold :: "endpoint_filter \<Rightarrow> string option \<Rightarrow> string \<Rightarrow> ip_lists \<Rightarrow> bool" where
  "hosts_hold ep href ip ipls =
     (let (exact, nets) = split_ips (ep_ips ep) in
      or_empty href \<in> set (ep_hrefs ep) \<or> ip \<in> set exact \<or> list_ex (ip_in_net ip) nets \<or>
      (ep_public ep \<and> outside (Some ip) href) \<or> list_ex (ip_in_net ip) (listed_nets (ep_ip_lists ep) ipls))"

definition end_matches ::
  "endpoint_filter \<Rightarrow> string option \<Rightarrow> string \<Rightarrow> (string, string) dict \<Rightarrow> ip_lists \<Rightarrow> label_groups \<Rightarrow> bool" where
  "end_matches ep href ip labels ipls groups =
     (let held = [(has_labels ep, has_labels ep \<and> labels_hold ep labels groups), (has_hosts ep, hosts_hold ep href ip ipls)]
      in if ep_match ep = MatchAll then list_all (\<lambda>(is_set, ok). is_set \<longrightarrow> ok) held
         else list_ex (\<lambda>(is_set, ok). is_set \<and> ok) held)"

definition side_matches :: "endpoint_filter \<Rightarrow> flow_view \<Rightarrow> side \<Rightarrow> ip_lists \<Rightarrow> label_groups \<Rightarrow> bool" where
  "side_matches ep v sd ipls groups = end_matches ep (side_href v sd) (side_ip v sd) (side_labels v sd) ipls groups"

definition endpoint_matches ::
  "endpoint_filter \<Rightarrow> string option \<Rightarrow> string \<Rightarrow> (string, string) dict \<Rightarrow> ip_lists \<Rightarrow> label_groups \<Rightarrow> bool" where
  "endpoint_matches ep href ip labels ipls groups = end_matches ep href ip labels ipls groups"

section \<open>Ports and services\<close>

definition port_number :: "int option \<Rightarrow> int" where
  "port_number p = (case p of None \<Rightarrow> - 1 | Some n \<Rightarrow> n)"

definition port_matches :: "port_proto \<Rightarrow> int option \<Rightarrow> int \<Rightarrow> bool" where
  "port_matches p port proto =
     (if pp_proto p \<noteq> None \<and> Some proto \<noteq> pp_proto p then False
      else case pp_to_port p of
        Some hi \<Rightarrow> (case pp_port p of None \<Rightarrow> False | Some lo \<Rightarrow> lo \<le> port_number port \<and> port_number port \<le> hi)
      | None \<Rightarrow> (case pp_port p of None \<Rightarrow> True | Some n \<Rightarrow> port_number port = n))"

definition service_matches :: "(int option \<times> int option \<times> int option) list \<Rightarrow> int option \<Rightarrow> int \<Rightarrow> bool" where
  "service_matches entries port proto =
     list_ex (\<lambda>(lo, hi, pr). (pr = None \<or> Some proto = pr) \<and>
        (case lo of None \<Rightarrow> True
         | Some l \<Rightarrow> l \<le> port_number port \<and> port_number port \<le> (case hi of Some h \<Rightarrow> h | None \<Rightarrow> l))) entries"

definition service_set :: "port_proto list \<Rightarrow> string list \<Rightarrow> flow_view \<Rightarrow> service_ports \<Rightarrow> bool" where
  "service_set ports services v known =
     (list_ex (\<lambda>p. port_matches p (v_port v) (v_proto v)) ports \<or>
      list_ex (\<lambda>h. service_matches (case dict_get known h of None \<Rightarrow> [] | Some es \<Rightarrow> es) (v_port v) (v_proto v)) services)"

definition in_ci :: "string option \<Rightarrow> string list \<Rightarrow> bool" where
  "in_ci value values =
     (case value of None \<Rightarrow> False | Some s \<Rightarrow> ascii_lower s \<in> set (map ascii_lower values))"

section \<open>matches\<close>

text \<open>One endpoint condition, included or excluded: \<open>True\<close> when the loop's body returns \<open>False\<close>.\<close>

definition side_rejects ::
  "endpoint_filter option \<Rightarrow> bool \<Rightarrow> flow_view \<Rightarrow> side \<Rightarrow> ip_lists \<Rightarrow> label_groups \<Rightarrow> bool" where
  "side_rejects ep negate v sd ipls groups =
     (case ep of None \<Rightarrow> False | Some e \<Rightarrow> \<not> ep_is_empty e \<and> side_matches e v sd ipls groups = negate)"

definition either_rejects ::
  "endpoint_filter option \<Rightarrow> bool \<Rightarrow> flow_view \<Rightarrow> ip_lists \<Rightarrow> label_groups \<Rightarrow> bool" where
  "either_rejects ep negate v ipls groups =
     (case ep of None \<Rightarrow> False
      | Some e \<Rightarrow> \<not> ep_is_empty e \<and> (side_matches e v Src ipls groups \<or> side_matches e v Dst ipls groups) = negate)"

text \<open>A process or user column: the partial term and the exact set.\<close>

definition term_rejects :: "string option \<Rightarrow> string option \<Rightarrow> bool" where
  "term_rejects term got = (truthy_str term \<and> \<not> like got (or_empty term))"

definition process_rejects :: "string list \<Rightarrow> string option \<Rightarrow> bool" where
  "process_rejects values got = (values \<noteq> [] \<and> (case got of None \<Rightarrow> True | Some s \<Rightarrow> s \<notin> set values))"

definition user_rejects :: "string list \<Rightarrow> string option \<Rightarrow> bool" where
  "user_rejects values got =
     (values \<noteq> [] \<and> (case got of None \<Rightarrow> True | Some s \<Rightarrow> user_key s \<notin> set (map user_key values)))"

definition text_columns :: "flow_view \<Rightarrow> string option list" where
  "text_columns v =
     [v_src_hostname v, v_dst_hostname v, Some (v_src_ip v), Some (v_dst_ip v), v_initiator_process v,
      v_initiator_user v, v_service_process v, v_service_user v]"

definition in_opt :: "string option \<Rightarrow> string list \<Rightarrow> bool" where
  "in_opt x xs = (case x of None \<Rightarrow> False | Some s \<Rightarrow> s \<in> set xs)"

definition matches ::
  "filter_spec \<Rightarrow> flow_view \<Rightarrow> ip_lists \<Rightarrow> label_groups \<Rightarrow> service_ports \<Rightarrow> bool" where
  "matches spec v nets groups known =
     (if v_is_primary v \<noteq> 1 then False
      else if v_last v < fs_start spec \<or> fs_end spec < v_first v then False
      else if side_rejects (fc_src spec) False v Src nets groups then False
      else if side_rejects (fc_dst spec) False v Dst nets groups then False
      else if side_rejects (fc_src_exclude spec) True v Src nets groups then False
      else if side_rejects (fc_dst_exclude spec) True v Dst nets groups then False
      else if either_rejects (fc_either spec) False v nets groups then False
      else if either_rejects (fc_either_exclude spec) True v nets groups then False
      else if (fc_ports spec \<noteq> [] \<or> fc_services spec \<noteq> []) \<and> \<not> service_set (fc_ports spec) (fc_services spec) v known
      then False
      else if (fc_exclude_ports spec \<noteq> [] \<or> fc_exclude_services spec \<noteq> []) \<and>
        service_set (fc_exclude_ports spec) (fc_exclude_services spec) v known then False
      else if fc_windows_services spec \<noteq> [] \<and> \<not> in_ci (v_windows_service v) (fc_windows_services spec) then False
      else if fc_exclude_windows_services spec \<noteq> [] \<and> in_ci (v_windows_service v) (fc_exclude_windows_services spec)
      then False
      else if fc_transmissions spec \<noteq> [] \<and>
        \<not> in_ci (v_transmission v) (map transmission_value (fc_transmissions spec)) then False
      else if fc_exclude_transmissions spec \<noteq> [] \<and>
        in_ci (v_transmission v) (map transmission_value (fc_exclude_transmissions spec)) then False
      else if fc_exclude_processes spec \<noteq> [] \<and>
        (in_opt (v_initiator_process v) (fc_exclude_processes spec) \<or>
         in_opt (v_service_process v) (fc_exclude_processes spec)) then False
      else if fc_decisions spec \<noteq> [] \<and> v_policy_decision v \<notin> set (map policy_decision_value (fc_decisions spec))
      then False
      else if term_rejects (fc_initiator_process spec) (v_initiator_process v) then False
      else if process_rejects (fc_initiator_processes spec) (v_initiator_process v) then False
      else if term_rejects (fc_initiator_user spec) (v_initiator_user v) then False
      else if user_rejects (fc_initiator_users spec) (v_initiator_user v) then False
      else if term_rejects (fc_service_process spec) (v_service_process v) then False
      else if process_rejects (fc_service_processes spec) (v_service_process v) then False
      else if term_rejects (fc_service_user spec) (v_service_user v) then False
      else if user_rejects (fc_service_users spec) (v_service_user v) then False
      else if truthy_str (fc_text spec) \<and> \<not> list_ex (\<lambda>c. like c (or_empty (fc_text spec))) (text_columns v) then False
      else \<not> (fc_exclude_system_accounts spec \<and> is_system_account (v_initiator_user v)))"

definition endpoints :: "('a flow_condition_scheme) \<Rightarrow> endpoint_filter list" where
  "endpoints spec =
     List.map_filter id [fc_src spec, fc_dst spec, fc_src_exclude spec, fc_dst_exclude spec, fc_either spec,
       fc_either_exclude spec]"

definition ip_list_hrefs :: "('a flow_condition_scheme) \<Rightarrow> string list" where
  "ip_list_hrefs spec = nub (concat (map ep_ip_lists (endpoints spec)))"

definition label_group_hrefs :: "('a flow_condition_scheme) \<Rightarrow> string list" where
  "label_group_hrefs spec = nub (concat (map ep_label_groups (endpoints spec)))"

definition service_hrefs :: "('a flow_condition_scheme) \<Rightarrow> string list" where
  "service_hrefs spec = nub (fc_services spec @ fc_exclude_services spec)"

end
