(* ===== verification/FilterMatch.thy ===== *)
theory FilterMatch
  imports FlowFilter
begin

text \<open>
  What the filter's helpers mean: partial text matching is substring search (or a glob anchored
  at both ends when it has a \<open>*\<close>), the allowed label values of a key are the union of what the
  conditions and groups name, bounds moved to milliseconds stay inside the window asked for, and
  \<open>matches\<close> is the conjunction of its parts.
\<close>

section \<open>Partial text matching\<close>

definition esc :: "char \<Rightarrow> string" where
  "esc c = (if c = CHR 92 \<or> c = CHR ''%'' \<or> c = CHR ''_'' then [CHR 92, c] else [c])"

lemma escaped_chars:
  "replace_char CHR ''_'' [CHR 92, CHR ''_''] (replace_char CHR ''%'' [CHR 92, CHR ''%'']
     (replace_char CHR 92 [CHR 92, CHR 92] term)) = concat (map esc term)"
  by (induction "term") (auto simp: esc_def)

lemma star_chars:
  "replace_char CHR ''*'' ''%'' (concat (map esc term)) =
     concat (map (\<lambda>c. if c = CHR ''*'' then ''%'' else esc c) term)"
  by (induction "term") (auto simp: esc_def)

lemma like_regex_plain: "c \<noteq> CHR 92 \<Longrightarrow> like_regex (c # s) = pat_of c # like_regex s"
  by (cases s) auto

lemma like_regex_esc [simp]: "like_regex (esc c @ s) = Lit c # like_regex s"
  by (auto simp: esc_def like_regex_plain pat_of_def)

lemma like_regex_pattern:
  "like_regex (like_pattern term) =
     (if CHR ''*'' \<in> set term then map (\<lambda>c. if c = CHR ''*'' then AnyRun else Lit c) term
      else AnyRun # map Lit term @ [AnyRun])"
proof -
  have s: "like_regex (concat (map (\<lambda>c. if c = CHR ''*'' then ''%'' else esc c) t)) =
      map (\<lambda>c. if c = CHR ''*'' then AnyRun else Lit c) t" for t
    by (induction t) (auto simp: like_regex_plain pat_of_def)
  have p: "like_regex (concat (map esc t) @ ''%'') = map Lit t @ [AnyRun]" for t
    by (induction t) (auto simp: pat_of_def)
  show ?thesis
    by (simp add: like_pattern_def escaped_chars star_chars s like_regex_plain p) (simp add: pat_of_def)
qed

lemma fullmatch_any_run: "fullmatch (AnyRun # ps) s \<longleftrightarrow> (\<exists>u w. s = u @ w \<and> fullmatch ps w)"
proof (induction s)
  case Nil
  then show ?case by simp
next
  case (Cons x s)
  show ?case
  proof
    assume "fullmatch (AnyRun # ps) (x # s)"
    then have "fullmatch ps (x # s) \<or> (\<exists>u w. s = u @ w \<and> fullmatch ps w)" using Cons.IH by simp
    then consider "fullmatch ps (x # s)" | u w where "s = u @ w" "fullmatch ps w" by blast
    then show "\<exists>u w. x # s = u @ w \<and> fullmatch ps w"
    proof cases
      case 1
      then show ?thesis by (intro exI [of _ "[]"] exI [of _ "x # s"]) simp
    next
      case 2
      then show ?thesis by (intro exI [of _ "x # u"] exI [of _ w]) simp
    qed
  next
    assume "\<exists>u w. x # s = u @ w \<and> fullmatch ps w"
    then obtain u w where "x # s = u @ w" "fullmatch ps w" by blast
    then show "fullmatch (AnyRun # ps) (x # s)" using Cons.IH by (cases u) auto
  qed
qed

lemma fullmatch_text:
  "fullmatch (map Lit t @ ps) s \<longleftrightarrow> (\<exists>u w. s = u @ w \<and> ascii_lower u = ascii_lower t \<and> fullmatch ps w)"
proof (induction t arbitrary: s)
  case Nil
  then show ?case by (simp add: ascii_lower_def)
next
  case (Cons c t)
  show ?case
  proof (cases s)
    case Nil
    then show ?thesis by (auto simp: ascii_lower_def)
  next
    case (Cons x r)
    show ?thesis
    proof
      assume "fullmatch (map Lit (c # t) @ ps) s"
      then obtain u w where "same_ascii c x" "r = u @ w" "ascii_lower u = ascii_lower t" "fullmatch ps w"
        using Cons.IH Cons by auto
      then show "\<exists>u w. s = u @ w \<and> ascii_lower u = ascii_lower (c # t) \<and> fullmatch ps w"
        by (intro exI [of _ "x # u"] exI [of _ w]) (auto simp: Cons ascii_lower_def same_ascii_def)
    next
      assume "\<exists>u w. s = u @ w \<and> ascii_lower u = ascii_lower (c # t) \<and> fullmatch ps w"
      then obtain u w where u: "s = u @ w" "ascii_lower u = ascii_lower (c # t)" "fullmatch ps w" by blast
      then obtain u' where "u = x # u'" using Cons by (cases u) (auto simp: ascii_lower_def)
      with u Cons show "fullmatch (map Lit (c # t) @ ps) s"
        using Cons.IH by (auto simp: ascii_lower_def same_ascii_def)
    qed
  qed
qed

text \<open>The specification: a substring, or pieces in order that start and end the text.\<close>

definition has_part :: "string \<Rightarrow> string \<Rightarrow> bool" where
  "has_part term s = (\<exists>a b c. s = a @ b @ c \<and> ascii_lower b = ascii_lower term)"

fun glob :: "string list \<Rightarrow> string \<Rightarrow> bool" where
  "glob [] s = False"
| "glob [p] s = (ascii_lower s = ascii_lower p)"
| "glob (p # q # ps) s = (\<exists>u w r. s = u @ w @ r \<and> ascii_lower u = ascii_lower p \<and> glob (q # ps) r)"

definition partial_text :: "string \<Rightarrow> string \<Rightarrow> bool" where
  "partial_text term s = (if CHR ''*'' \<in> set term then glob (split_on CHR ''*'' term) s else has_part term s)"

lemma fullmatch_whole: "fullmatch (map Lit t) s \<longleftrightarrow> ascii_lower s = ascii_lower t"
  using fullmatch_text [of t "[]" s] by auto

lemma fullmatch_glob:
  "fullmatch (map (\<lambda>c. if c = CHR ''*'' then AnyRun else Lit c) t) s \<longleftrightarrow> glob (split_on CHR ''*'' t) s"
proof (induction "length t" arbitrary: t s rule: less_induct)
  case less
  show ?case
  proof (cases "CHR ''*'' \<in> set t")
    case False
    then have "map (\<lambda>c. if c = CHR ''*'' then AnyRun else Lit c) t = map Lit t" by (auto intro!: map_cong)
    then show ?thesis by (simp only: split_on_no_sep [OF False] glob.simps fullmatch_whole)
  next
    case True
    then obtain p q where t: "t = p @ CHR ''*'' # q" "CHR ''*'' \<notin> set p" by (metis split_list_first)
    have m: "map (\<lambda>c. if c = CHR ''*'' then AnyRun else Lit c) p = map Lit p" using t(2) by (auto intro!: map_cong)
    obtain r rs where r: "split_on CHR ''*'' q = r # rs" by (cases "split_on CHR ''*'' q") simp_all
    have q: "\<And>s. fullmatch (map (\<lambda>c. if c = CHR ''*'' then AnyRun else Lit c) q) s \<longleftrightarrow> glob (r # rs) s"
      using less.hyps [of q] by (simp add: t(1) r)
    show ?thesis
      using t(2) by (simp add: t(1) m split_on_append_sep r fullmatch_text fullmatch_any_run q) blast
  qed
qed

lemma like_partial_text: "like (Some s) term \<longleftrightarrow> partial_text term s"
proof (cases "CHR ''*'' \<in> set term")
  case True
  then show ?thesis by (simp add: like_def like_regex_pattern partial_text_def fullmatch_glob)
next
  case False
  have "fullmatch (map Lit term @ [AnyRun]) w \<longleftrightarrow> (\<exists>b c. w = b @ c \<and> ascii_lower b = ascii_lower term)" for w
    by (auto simp: fullmatch_text fullmatch_any_run)
  with False show ?thesis
    by (simp add: like_def like_regex_pattern partial_text_def has_part_def fullmatch_any_run del: fullmatch.simps) blast
qed

section \<open>Allowed label values\<close>

text \<open>What the conditions and the groups name for a key.\<close>

definition named_values :: "label_cond list \<Rightarrow> (string \<times> string list) list \<Rightarrow> string \<Rightarrow> string set" where
  "named_values conds gs k =
     (\<Union>c \<in> {c \<in> set conds. lc_key c = k}. set (lc_values c)) \<union> (\<Union>g \<in> {g \<in> set gs. fst g = k}. set (snd g))"

definition named_keys :: "label_cond list \<Rightarrow> (string \<times> string list) list \<Rightarrow> string set" where
  "named_keys conds gs = lc_key ` set conds \<union> fst ` set gs"

text \<open>The specification of the labels part: every named group exists, and for every key named the
  end's label is one of the values named for it.\<close>

definition labels_part :: "endpoint_filter \<Rightarrow> (string, string) dict \<Rightarrow> label_groups \<Rightarrow> bool" where
  "labels_part ep labels groups =
     ((\<forall>h \<in> set (ep_label_groups ep). dict_get groups h \<noteq> None) \<and>
      (\<forall>k \<in> named_keys (ep_labels ep) (map (\<lambda>h. the (dict_get groups h)) (ep_label_groups ep)).
         \<exists>x. dict_get labels k = Some x \<and>
           x \<in> named_values (ep_labels ep) (map (\<lambda>h. the (dict_get groups h)) (ep_label_groups ep)) k))"

definition allowed_set :: "(string, string list) dict \<Rightarrow> string \<Rightarrow> string set" where
  "allowed_set d k = (case dict_get d k of None \<Rightarrow> {} | Some vs \<Rightarrow> set vs)"

lemma dict_keys_allow: "set (dict_keys (allow k vs d)) = insert k (set (dict_keys d))"
  by (simp only: allow_def dict_keys_set) auto

lemma distinct_allow: "distinct (dict_keys d) \<Longrightarrow> distinct (dict_keys (allow k vs d))"
  by (simp only: allow_def dict_keys_set) simp

lemma allowed_set_allow: "allowed_set (allow k vs d) k' = allowed_set d k' \<union> (if k' = k then set vs else {})"
  by (auto simp: allowed_set_def allow_def dict_get_set split: option.splits)

lemma allow_conds:
  "set (dict_keys (fold (\<lambda>c. allow (lc_key c) (lc_values c)) cs d)) = set (dict_keys d) \<union> lc_key ` set cs"
  "allowed_set (fold (\<lambda>c. allow (lc_key c) (lc_values c)) cs d) k = allowed_set d k \<union> named_values cs [] k"
  "distinct (dict_keys d) \<Longrightarrow> distinct (dict_keys (fold (\<lambda>c. allow (lc_key c) (lc_values c)) cs d))"
  by (induction cs arbitrary: d)
     (auto simp: dict_keys_allow allowed_set_allow distinct_allow named_values_def simp del: set_map)

lemma allow_groups_ok:
  "allow_groups groups hs d \<noteq> None \<longleftrightarrow> (\<forall>h \<in> set hs. dict_get groups h \<noteq> None)"
  by (induction hs arbitrary: d) (auto split: option.splits)

lemma allow_groups_Some:
  "allow_groups groups hs d = Some d' \<Longrightarrow>
     set (dict_keys d') = set (dict_keys d) \<union> fst ` set (map (\<lambda>h. the (dict_get groups h)) hs) \<and>
     (\<forall>k. allowed_set d' k = allowed_set d k \<union> named_values [] (map (\<lambda>h. the (dict_get groups h)) hs) k) \<and>
     (distinct (dict_keys d) \<longrightarrow> distinct (dict_keys d'))"
proof (induction hs arbitrary: d)
  case Nil
  then show ?case by (simp add: named_values_def)
next
  case (Cons h hs)
  then obtain k ms where g: "dict_get groups h = Some (k, ms)" "allow_groups groups hs (allow k ms d) = Some d'"
    by (auto split: option.splits)
  from Cons.IH [OF g(2)] show ?case
    by (auto simp: g(1) dict_keys_allow allowed_set_allow distinct_allow named_values_def simp del: set_map)
qed

lemma list_all_allowed:
  assumes "distinct (dict_keys d)"
  shows "list_all (\<lambda>(k, vs). case dict_get labels k of None \<Rightarrow> False | Some x \<Rightarrow> x \<in> set vs) d \<longleftrightarrow>
    (\<forall>k \<in> set (dict_keys d). \<exists>x. dict_get labels k = Some x \<and> x \<in> allowed_set d k)"
proof -
  have "allowed_set d k = set vs" if "(k, vs) \<in> set d" for k vs
    using that assms by (simp add: allowed_set_def)
  then show ?thesis by (fastforce simp: list_all_iff split: option.splits)
qed

text \<open>\<open>_labels_hold\<close> is its specification.\<close>

lemma labels_hold_part: "labels_hold ep labels groups \<longleftrightarrow> labels_part ep labels groups"
proof (cases "\<forall>h \<in> set (ep_label_groups ep). dict_get groups h \<noteq> None")
  case False
  then have "allow_groups groups (ep_label_groups ep) (fold (\<lambda>c. allow (lc_key c) (lc_values c)) (ep_labels ep) []) = None"
    using allow_groups_ok by blast
  with False show ?thesis by (simp only: labels_hold_def labels_part_def option.case simp_thms)
next
  case True
  let ?d0 = "fold (\<lambda>c. allow (lc_key c) (lc_values c)) (ep_labels ep) []"
  let ?gs = "map (\<lambda>h. the (dict_get groups h)) (ep_label_groups ep)"
  obtain d where d: "allow_groups groups (ep_label_groups ep) ?d0 = Some d"
    using True allow_groups_ok [of groups "ep_label_groups ep" ?d0] by auto
  have k: "set (dict_keys d) = named_keys (ep_labels ep) ?gs"
    using allow_groups_Some [OF d] allow_conds(1) [of "ep_labels ep" "[]"] by (simp add: named_keys_def)
  have v: "allowed_set d k = named_values (ep_labels ep) ?gs k" for k
    using allow_groups_Some [OF d] allow_conds(2) [of "ep_labels ep" "[]" k]
    by (simp add: allowed_set_def [of "[]"] named_values_def)
  have "distinct (dict_keys d)"
    using allow_groups_Some [OF d] allow_conds(3) [of "[]" "ep_labels ep"] by simp
  then show ?thesis
    using True unfolding labels_hold_def labels_part_def d by (simp only: option.case list_all_allowed k v) simp
qed

section \<open>The window\<close>

lemma start_ms_bound: "v \<le> start_ms v" "start_ms v < v + MS" "start_ms v mod MS = 0"
proof -
  have "0 \<le> v mod MS" "v mod MS < MS" by (simp_all add: MS_def)
  then show "v \<le> start_ms v" "start_ms v < v + MS" by (auto simp: start_ms_def)
  have "v + (MS - v mod MS) = (v div MS + 1) * MS" by (metis add.commute add_diff_eq distrib_right minus_mod_eq_div_mult mult_1)
  then show "start_ms v mod MS = 0" by (simp add: start_ms_def)
qed

lemma end_ms_bound: "end_ms v \<le> v" "v < end_ms v + MS" "end_ms v mod MS = 0"
proof -
  have "0 \<le> v mod MS" "v mod MS < MS" by (simp_all add: MS_def)
  then show "end_ms v \<le> v" "v < end_ms v + MS" by (auto simp: end_ms_def)
  show "end_ms v mod MS = 0" by (simp add: end_ms_def mod_diff_right_eq)
qed

text \<open>A time of whole milliseconds lies in the moved window exactly when it lies in the one asked for.\<close>

lemma start_ms_iff: "t mod MS = 0 \<Longrightarrow> start_ms v \<le> t \<longleftrightarrow> v \<le> t"
proof
  assume t: "t mod MS = 0" and v: "v \<le> t"
  from v start_ms_bound(2) [of v] have "start_ms v < t + MS" by simp
  moreover have "MS dvd start_ms v" "MS dvd t" using t start_ms_bound(3) [of v] by (simp_all add: dvd_eq_mod_eq_0)
  ultimately show "start_ms v \<le> t" by (auto simp: dvd_def MS_def)
qed (use start_ms_bound(1) [of v] in simp)

lemma end_ms_iff: "t mod MS = 0 \<Longrightarrow> t \<le> end_ms v \<longleftrightarrow> t \<le> v"
proof
  assume t: "t mod MS = 0" and v: "t \<le> v"
  from v end_ms_bound(2) [of v] have "t < end_ms v + MS" by simp
  moreover have "MS dvd end_ms v" "MS dvd t" using t end_ms_bound(3) [of v] by (simp_all add: dvd_eq_mod_eq_0)
  ultimately show "t \<le> end_ms v" by (auto simp: dvd_def MS_def)
qed (use end_ms_bound(1) [of v] in simp)

section \<open>Properties\<close>

text \<open>C27. A partial term matches exactly the texts that contain it, without ASCII case; with a \<open>*\<close> in
  it, the texts that consist of its pieces in order, from the first character to the last, with
  anything at each \<open>*\<close>. The characters LIKE gives a meaning (percent, underscore, backslash)
  have none in a term.\<close>

theorem like_is_partial_text: "like (Some s) term \<longleftrightarrow> partial_text term s"
  by (rule like_partial_text)

text \<open>A filter specification is accepted exactly when its window, moved inward to whole milliseconds,
  is not empty and no excluded process name is empty; the accepted window lies within the one
  asked for, and a stored time (whole milliseconds) is in the one exactly when it is in the other.\<close>

lemma spec_within_window:
  "case spec_within c start stop of
     Inr spec \<Rightarrow> start \<le> fs_start spec \<and> fs_start spec < fs_end spec \<and> fs_end spec \<le> stop \<and>
       (\<forall>t. t mod MS = 0 \<longrightarrow> (fs_start spec \<le> t \<and> t \<le> fs_end spec \<longleftrightarrow> start \<le> t \<and> t \<le> stop)) \<and>
       (\<exists>ps. stored_processes (fc_exclude_processes c) = Inr ps \<and>
          spec_condition spec = c \<lparr> fc_exclude_processes := ps \<rparr>)
   | Inl e \<Rightarrow> end_ms stop \<le> start_ms start \<or> (\<exists>e. stored_processes (fc_exclude_processes c) = Inl e)"
  using start_ms_bound(1) [of start] end_ms_bound(1) [of stop] start_ms_iff end_ms_iff
  by (auto simp: spec_within_def spec_condition_def flow_condition.defs filter_spec.defs split: sum.splits)

lemma spec_within_window_witness:
  "spec_within any_flow 1 5000000 = Inr (flow_condition.extend any_flow (filter_spec.fields 1000 5000000)) \<and>
   (case spec_within any_flow 1 5000000 of Inr spec \<Rightarrow> 1 \<le> fs_start spec \<and> fs_end spec \<le> 5000000 | Inl e \<Rightarrow> False)"
proof -
  have s: "spec_within any_flow 1 5000000 = Inr (flow_condition.extend any_flow (filter_spec.fields 1000 5000000))"
    by code_simp
  with spec_within_window [where c = any_flow and start = 1 and stop = 5000000] show ?thesis by simp
qed

text \<open>A record that is not stored keeps microseconds: one that starts within the last, dropped fraction of
  a millisecond is in the window asked for and outside the specification's, while its stored row
  (cut to the millisecond) is inside.\<close>

lemma window_end_microseconds:
  "end_ms 5000999 = 5000000 \<and> \<not> (5000500 \<le> end_ms 5000999) \<and> 5000500 - 5000500 mod MS \<le> end_ms 5000999"
  by code_simp

end
