(* ===== verification/FlowTables.thy ===== *)
theory FlowTables
  imports FlowFilter
begin

text \<open>
  The tables of the flow store that a filter reads, and the modules that own them: label sets
  (\<open>store/flowdb/labels.py\<close>), IP lists (\<open>ip_lists.py\<close>), services and label groups
  (\<open>policy_objects.py\<close>). A table is the list of its rows in rowid order; a statement is a
  function on the tables. Names and fetch times, which no filter reads, are left out.
\<close>

record flow_tables =
  t_label_sets :: "(int \<times> string) list"                     \<comment> \<open>id, signature\<close>
  t_label_members :: "(int \<times> string \<times> string) list"          \<comment> \<open>set id, key, value\<close>
  t_ip_list_nets :: "(string \<times> string) list"                \<comment> \<open>href, net\<close>
  t_service_ports :: "(string \<times> int option \<times> int option \<times> int option) list"
  t_label_groups :: "(string \<times> string) list"                \<comment> \<open>href, key\<close>
  t_group_members :: "(string \<times> string \<times> string) list"       \<comment> \<open>href, key, value\<close>

definition empty_tables :: flow_tables where
  "empty_tables = \<lparr> t_label_sets = [], t_label_members = [], t_ip_list_nets = [], t_service_ports = [],
     t_label_groups = [], t_group_members = [] \<rparr>"

section \<open>Label sets\<close>

definition label_pairs :: "(string \<times> string) list \<Rightarrow> (string \<times> string) list" where
  "label_pairs labels = sort (nub labels)"

definition label_signature :: "(string \<times> string) list \<Rightarrow> string" where
  "label_signature pairs = py_join [CHR 10] (map (\<lambda>(k, v). k @ ''='' @ v) pairs)"

text \<open>The rowid SQLite gives a new row: one more than the largest.\<close>

definition next_rowid :: "(int \<times> 'a) list \<Rightarrow> int" where
  "next_rowid rows = foldr (\<lambda>(i, _). max i) rows 0 + 1"

definition find_set :: "flow_tables \<Rightarrow> string \<Rightarrow> int option" where
  "find_set t sg = map_option fst (List.find (\<lambda>(i, s). s = sg) (t_label_sets t))"

definition label_set_id :: "(string \<times> string) list \<Rightarrow> flow_tables \<Rightarrow> int option \<times> flow_tables" where
  "label_set_id labels t =
     (if labels = [] then (None, t)
      else let pairs = label_pairs labels; sg = label_signature pairs in
        case find_set t sg of
          Some i \<Rightarrow> (Some i, t)
        | None \<Rightarrow>
            let i = next_rowid (t_label_sets t) in
            (Some i, t \<lparr> t_label_sets := t_label_sets t @ [(i, sg)],
                         t_label_members := t_label_members t @ map (\<lambda>(k, v). (i, k, v)) (dict_of pairs) \<rparr>))"

text \<open>\<open>label_sets(conn, [id])\<close>, read for one id; a missing set has no labels.\<close>

definition set_labels :: "flow_tables \<Rightarrow> int option \<Rightarrow> (string, string) dict" where
  "set_labels t i =
     (case i of None \<Rightarrow> []
      | Some n \<Rightarrow> dict_of (map snd (filter (\<lambda>(m, _). m = n) (t_label_members t))))"

section \<open>IP lists, services, label groups\<close>

definition replace_ip_lists :: "(string \<times> string list) list \<Rightarrow> flow_tables \<Rightarrow> flow_tables" where
  "replace_ip_lists rows t = t \<lparr> t_ip_list_nets := concat (map (\<lambda>(h, nets). map (\<lambda>n. (h, n)) nets) rows) \<rparr>"

definition forget_networks :: "flow_tables \<Rightarrow> flow_tables" where
  "forget_networks t = t \<lparr> t_ip_list_nets := [] \<rparr>"

definition networks :: "flow_tables \<Rightarrow> string list \<Rightarrow> ip_lists" where
  "networks t hrefs =
     (if hrefs = [] then [] else map (\<lambda>(h, es). (h, map snd es)) (group_by fst (filter (\<lambda>(h, _). h \<in> set hrefs) (t_ip_list_nets t))))"

definition replace_services ::
  "(string \<times> (int option \<times> int option \<times> int option) list) list \<Rightarrow> flow_tables \<Rightarrow> flow_tables" where
  "replace_services rows t = t \<lparr> t_service_ports := concat (map (\<lambda>(h, ports). map (\<lambda>p. (h, p)) ports) rows) \<rparr>"

definition forget_service_ports :: "flow_tables \<Rightarrow> flow_tables" where
  "forget_service_ports t = t \<lparr> t_service_ports := [] \<rparr>"

definition service_ports_of :: "flow_tables \<Rightarrow> string list \<Rightarrow> service_ports" where
  "service_ports_of t hrefs =
     (if hrefs = [] then [] else map (\<lambda>(h, es). (h, map snd es)) (group_by fst (filter (\<lambda>(h, _). h \<in> set hrefs) (t_service_ports t))))"

definition replace_label_groups :: "(string \<times> string \<times> string list) list \<Rightarrow> flow_tables \<Rightarrow> flow_tables" where
  "replace_label_groups rows t =
     t \<lparr> t_label_groups := map (\<lambda>(h, k, _). (h, k)) rows,
         t_group_members := concat (map (\<lambda>(h, k, vs). map (\<lambda>v. (h, k, v)) (sort (nub vs))) rows) \<rparr>"

definition forget_label_group_members :: "flow_tables \<Rightarrow> flow_tables" where
  "forget_label_group_members t = t \<lparr> t_group_members := [] \<rparr>"

definition label_groups_of :: "flow_tables \<Rightarrow> string list \<Rightarrow> label_groups" where
  "label_groups_of t hrefs =
     (if hrefs = [] then []
      else map (\<lambda>(h, k). (h, k, nub (map (\<lambda>(_, _, v). v) (filter (\<lambda>(g, _, _). g = h) (t_group_members t)))))
             (filter (\<lambda>(h, _). h \<in> set hrefs) (t_label_groups t)))"

section \<open>The constraints of the schema, kept by every statement\<close>

text \<open>Primary keys of the tables, the signature's uniqueness, ids that are positive, and every member
  of a set or group belonging to one that has its key.\<close>

definition tables_ok :: "flow_tables \<Rightarrow> bool" where
  "tables_ok t =
     (distinct (map fst (t_label_sets t)) \<and> distinct (map snd (t_label_sets t)) \<and>
      (\<forall>(i, _) \<in> set (t_label_sets t). 0 < i) \<and>
      (\<forall>(i, k, v) \<in> set (t_label_members t). i \<in> fst ` set (t_label_sets t)) \<and>
      distinct (map (\<lambda>(i, k, v). (i, k)) (t_label_members t)) \<and>
      distinct (map fst (t_label_groups t)) \<and>
      (\<forall>(h, k, v) \<in> set (t_group_members t). (h, k) \<in> set (t_label_groups t)))"

lemma next_rowid_above: "(i, x) \<in> set rows \<Longrightarrow> i < next_rowid rows"
proof -
  have "i \<le> foldr (\<lambda>(i, _). max i) rows 0" if "(i, x) \<in> set rows" for i x
    using that by (induction rows) (auto simp: max_def)
  then show "(i, x) \<in> set rows \<Longrightarrow> i < next_rowid rows" by (fastforce simp: next_rowid_def)
qed

lemma next_rowid_pos: "0 < next_rowid rows"
proof -
  have "0 \<le> foldr (\<lambda>(i, _). max i) rows (0 :: int)" by (induction rows) (auto simp: max_def)
  then show ?thesis by (simp add: next_rowid_def)
qed

lemma next_rowid_fresh: "next_rowid rows \<notin> fst ` set rows"
  using next_rowid_above by fastforce

lemma find_set_Some: "find_set t sg = Some i \<Longrightarrow> (i, sg) \<in> set (t_label_sets t)"
  by (auto simp: find_set_def find_Some_iff in_set_conv_nth)

lemma find_set_None: "find_set t sg = None \<longleftrightarrow> sg \<notin> snd ` set (t_label_sets t)"
  by (force simp: find_set_def find_None_iff)

lemma dict_of_keys: "dict_keys (dict_of ps) = nub (map fst ps)"
  using alist.keys_fold [of fst snd ps] by (simp add: dict_of_def case_prod_beta')

lemma distinct_dict_of: "distinct (dict_keys (dict_of ps))"
  by (simp only: dict_of_keys distinct_nub)

lemma dict_of_get: "dict_get (dict_of ps) k = (case filter (\<lambda>p. fst p = k) ps of [] \<Rightarrow> None | q # qs \<Rightarrow> Some (snd (last (q # qs))))"
  using alist.get_fold [of fst snd ps "[]" k] by (simp only: dict_of_def case_prod_beta' map_of.simps)

lemma dict_of_distinct: "distinct (map fst ps) \<Longrightarrow> dict_of ps = ps"
proof -
  have "fold (\<lambda>(k, v). dict_set k v) ps d = d @ ps" if "distinct (map fst (d @ ps))" for d
    using that
  proof (induction ps arbitrary: d)
    case Nil
    then show ?case by simp
  next
    case (Cons p ps)
    obtain k v where p: "p = (k, v)" by (cases p)
    have "k \<notin> set (map fst d)" using Cons.prems p by auto
    then have "dict_set k v d = d @ [(k, v)]" by (induction d) auto
    with Cons.IH [of "d @ [(k, v)]"] Cons.prems show ?case by (simp add: p)
  qed
  then show "distinct (map fst ps) \<Longrightarrow> dict_of ps = ps" by (simp add: dict_of_def)
qed

section \<open>A label set reads back the labels it was stored for\<close>

text \<open>The signature tells label sets apart as long as no key holds \<open>=\<close> and nothing a line feed.\<close>

definition clean_labels :: "(string \<times> string) list \<Rightarrow> bool" where
  "clean_labels ps = (\<forall>(k, v) \<in> set ps. CHR ''='' \<notin> set k \<and> CHR 10 \<notin> set k \<and> CHR 10 \<notin> set v)"

lemma label_signature_inj:
  assumes "clean_labels ps" "clean_labels qs" "ps \<noteq> []" "qs \<noteq> []" "label_signature ps = label_signature qs"
  shows "ps = qs"
proof -
  let ?f = "\<lambda>(k, v). k @ ''='' @ v"
  have n: "\<forall>l \<in> set (map ?f rs). CHR 10 \<notin> set l" if "clean_labels rs" for rs
    using that by (fastforce simp: clean_labels_def)
  have "split_on (CHR 10) (label_signature ps) = map ?f ps" "split_on (CHR 10) (label_signature qs) = map ?f qs"
    unfolding label_signature_def using assms n by (simp_all add: split_on_join)
  then have m: "map ?f ps = map ?f qs" using assms(5) by simp
  have "inj_on ?f (set ps \<union> set qs)"
  proof (rule inj_onI)
    fix x y assume "x \<in> set ps \<union> set qs" "y \<in> set ps \<union> set qs" "?f x = ?f y"
    moreover obtain a b c d where "x = (a, b)" "y = (c, d)" by fastforce
    ultimately have "CHR ''='' \<notin> set a" "CHR ''='' \<notin> set c" "a @ ''='' @ b = c @ ''='' @ d"
      using assms(1,2) by (auto simp: clean_labels_def)
    then show "x = y" using cut_at_sep [of "CHR ''=''" a c b d] \<open>x = (a, b)\<close> \<open>y = (c, d)\<close> by simp
  qed
  with m show ?thesis by (metis map_inj_on)
qed

definition set_rows :: "flow_tables \<Rightarrow> int \<Rightarrow> (string \<times> string) list" where
  "set_rows t i = map snd (filter (\<lambda>(m, _). m = i) (t_label_members t))"

text \<open>Every stored set was stored for clean labels.\<close>

definition sets_ok :: "flow_tables \<Rightarrow> bool" where
  "sets_ok t =
     (\<forall>(i, sg) \<in> set (t_label_sets t). \<exists>ps. clean_labels ps \<and> ps \<noteq> [] \<and> sg = label_signature ps \<and> set_rows t i = dict_of ps)"

lemma label_pairs_props [simp]:
  "set (label_pairs labels) = set labels" "label_pairs labels = [] \<longleftrightarrow> labels = []"
  "clean_labels (label_pairs labels) = clean_labels labels"
  by (auto simp: label_pairs_def clean_labels_def simp flip: set_empty)

lemma label_set_id_new_tables:
  assumes "labels \<noteq> []" "find_set t (label_signature (label_pairs labels)) = None"
  defines "i \<equiv> next_rowid (t_label_sets t)"
  shows "label_set_id labels t = (Some i, t \<lparr> t_label_sets := t_label_sets t @ [(i, label_signature (label_pairs labels))],
     t_label_members := t_label_members t @ map (\<lambda>(k, v). (i, k, v)) (dict_of (label_pairs labels)) \<rparr>)"
  using assms by (simp add: label_set_id_def Let_def)

lemma new_member_keys:
  "distinct (dict_keys d) \<Longrightarrow> distinct (map (\<lambda>(i, k, v). (i, k)) (map (\<lambda>(k, v). (n, k, v)) d))"
  by (induction d) (auto simp: image_iff)

lemma label_set_id_tables_ok:
  assumes ok: "tables_ok t"
  shows "tables_ok (snd (label_set_id labels t))"
proof (cases "labels = [] \<or> find_set t (label_signature (label_pairs labels)) \<noteq> None")
  case True
  with ok show ?thesis by (auto simp: label_set_id_def Let_def)
next
  case False
  let ?i = "next_rowid (t_label_sets t)"
  let ?new = "map (\<lambda>(k, v). (?i, k, v)) (dict_of (label_pairs labels))"
  have f: "?i \<notin> fst ` set (t_label_sets t)" "0 < ?i" by (rule next_rowid_fresh, rule next_rowid_pos)
  have g: "label_signature (label_pairs labels) \<notin> snd ` set (t_label_sets t)"
    using False find_set_None by blast
  have old: "i \<noteq> ?i" if "(i, k, v) \<in> set (t_label_members t)" for i k v
    using ok that f(1) by (fastforce simp: tables_ok_def)
  have "distinct (map (\<lambda>(i, k, v). (i, k)) (t_label_members t @ ?new))"
    using ok new_member_keys [OF distinct_dict_of [of "label_pairs labels"], of ?i] old
    by (fastforce simp: tables_ok_def simp del: set_map simp add: set_map)
  with ok f g False show ?thesis
    by (subst label_set_id_new_tables) (auto simp: tables_ok_def)
qed

lemma set_rows_new:
  assumes "tables_ok t" "i \<in> fst ` set (t_label_sets t)"
  shows "set_rows (t \<lparr> t_label_sets := ss, t_label_members := t_label_members t @
           map (\<lambda>(k, v). (next_rowid (t_label_sets t), k, v)) d \<rparr>) i = set_rows t i"
  using assms(2) next_rowid_fresh [of "t_label_sets t"]
  by (auto simp: set_rows_def filter_empty_conv)

lemma set_rows_fresh:
  assumes "tables_ok t"
  shows "set_rows (t \<lparr> t_label_sets := ss, t_label_members := t_label_members t @
           map (\<lambda>(k, v). (next_rowid (t_label_sets t), k, v)) d \<rparr>) (next_rowid (t_label_sets t)) = d"
proof -
  have "filter (\<lambda>(m, _). m = next_rowid (t_label_sets t)) (t_label_members t) = []"
    using assms next_rowid_fresh [of "t_label_sets t"] by (fastforce simp: tables_ok_def filter_empty_conv)
  moreover have "map snd (filter (\<lambda>(m, _). m = n) (map (\<lambda>(k, v). (n, k, v)) d)) = d" for n :: int
    by (induction d) auto
  ultimately show ?thesis by (simp add: set_rows_def)
qed

lemma set_labels_rows: "tables_ok t \<Longrightarrow> set_labels t (Some i) = set_rows t i"
proof -
  assume ok: "tables_ok t"
  have "distinct (map fst (set_rows t i))"
  proof -
    have "distinct (map (\<lambda>(i, k, v). (i, k)) (filter (\<lambda>(m, _). m = i) (t_label_members t)))"
      using ok by (intro distinct_map_filter) (simp add: tables_ok_def)
    moreover have "map (\<lambda>(i, k, v). (i, k)) (filter (\<lambda>(m, _). m = i) ms) =
        map (\<lambda>k. (i, k)) (map fst (map snd (filter (\<lambda>(m, _). m = i) ms)))" for ms :: "(int \<times> string \<times> string) list"
      by (induction ms) auto
    ultimately show ?thesis unfolding set_rows_def by (metis distinct_map)
  qed
  then show ?thesis by (simp add: set_labels_def set_rows_def dict_of_distinct)
qed

lemma label_set_id_sets_ok:
  assumes ok: "tables_ok t" "sets_ok t" and c: "clean_labels labels"
  shows "sets_ok (snd (label_set_id labels t))"
proof (cases "labels = [] \<or> find_set t (label_signature (label_pairs labels)) \<noteq> None")
  case True
  with ok show ?thesis by (auto simp: label_set_id_def Let_def)
next
  case False
  then have l: "labels \<noteq> []" "find_set t (label_signature (label_pairs labels)) = None" by simp_all
  show ?thesis unfolding sets_ok_def label_set_id_new_tables [OF l] snd_conv
  proof (intro ballI, clarify)
    fix i sg
    assume i: "(i, sg) \<in> set (t_label_sets (t \<lparr> t_label_sets := t_label_sets t @
       [(next_rowid (t_label_sets t), label_signature (label_pairs labels))],
       t_label_members := t_label_members t @ map (\<lambda>(k, v). (next_rowid (t_label_sets t), k, v)) (dict_of (label_pairs labels)) \<rparr>))"
    then consider "(i, sg) \<in> set (t_label_sets t)"
      | "i = next_rowid (t_label_sets t)" "sg = label_signature (label_pairs labels)" by auto
    then show "\<exists>ps. clean_labels ps \<and> ps \<noteq> [] \<and> sg = label_signature ps \<and>
       set_rows (t \<lparr> t_label_sets := t_label_sets t @ [(next_rowid (t_label_sets t), label_signature (label_pairs labels))],
         t_label_members := t_label_members t @ map (\<lambda>(k, v). (next_rowid (t_label_sets t), k, v)) (dict_of (label_pairs labels)) \<rparr>) i =
       dict_of ps"
    proof cases
      case 1
      then have "i \<in> fst ` set (t_label_sets t)" by force
      with 1 ok(2) show ?thesis unfolding set_rows_new [OF ok(1) \<open>i \<in> fst ` set (t_label_sets t)\<close>]
        by (auto simp: sets_ok_def)
    next
      case 2
      have "clean_labels (label_pairs labels)" "label_pairs labels \<noteq> []" using c l by simp_all
      with 2 show ?thesis using set_rows_fresh [OF ok(1)] by blast
    qed
  qed
qed

lemma label_set_id_reads_back:
  assumes ok: "tables_ok t" "sets_ok t" and c: "clean_labels labels"
    and s: "label_set_id labels t = (i, t')"
  shows "set_labels t' i = dict_of (label_pairs labels)"
proof (cases "labels = []")
  case True
  with s show ?thesis by (auto simp: label_set_id_def set_labels_def label_pairs_def dict_of_def)
next
  case l: False
  have cp: "clean_labels (label_pairs labels)" "label_pairs labels \<noteq> []" using c l by simp_all
  show ?thesis
  proof (cases "find_set t (label_signature (label_pairs labels))")
    case None
    then have t': "i = Some (next_rowid (t_label_sets t))" "tables_ok t'"
      using s label_set_id_new_tables [OF l None] label_set_id_tables_ok [OF ok(1), of labels] by auto
    show ?thesis
      using s set_rows_fresh [OF ok(1)] label_set_id_new_tables [OF l None] set_labels_rows [OF t'(2)] by (auto simp: t')
  next
    case (Some n)
    then have t: "i = Some n" "t' = t" using s l by (auto simp: label_set_id_def Let_def)
    obtain ps where "clean_labels ps" "ps \<noteq> []" "label_signature (label_pairs labels) = label_signature ps"
      "set_rows t n = dict_of ps"
      using find_set_Some [OF Some] ok(2) by (fastforce simp: sets_ok_def)
    moreover have "label_pairs labels = ps"
      by (rule label_signature_inj) (use calculation cp in auto)
    ultimately show ?thesis using set_labels_rows [OF ok(1), of n] by (simp add: t)
  qed
qed

text \<open>Storing a set leaves every set already stored as it was.\<close>

lemma label_set_id_keeps:
  assumes ok: "tables_ok t" and i: "i \<in> fst ` set (t_label_sets t)"
  shows "set_labels (snd (label_set_id labels t)) (Some i) = set_labels t (Some i)"
proof (cases "labels = [] \<or> find_set t (label_signature (label_pairs labels)) \<noteq> None")
  case True
  then show ?thesis by (auto simp: label_set_id_def Let_def)
next
  case False
  then have l: "labels \<noteq> []" "find_set t (label_signature (label_pairs labels)) = None" by simp_all
  show ?thesis
    using set_labels_rows [OF ok] set_labels_rows [OF label_set_id_tables_ok [OF ok], of labels] set_rows_new [OF ok i]
    unfolding label_set_id_new_tables [OF l] by simp
qed

section \<open>What the readers give\<close>

lemma map_group_by_get:
  fixes xs :: "('k \<times> 'w) list"
  shows "dict_get (map (\<lambda>(h, es). (h, map snd es)) (group_by fst (filter (\<lambda>(h, _). P h) xs))) k =
     (let ys = filter (\<lambda>(h, _). h = k) xs in if P k \<and> ys \<noteq> [] then Some (map snd ys) else None)"
proof -
  have g: "dict_get (map (\<lambda>(h, es). (h, f es)) d) k = map_option f (dict_get d k)" for f and d :: "('k, ('k \<times> 'w) list) dict"
    by (induction d) auto
  have "filter (\<lambda>x. fst x = k) (filter (\<lambda>(h, _). P h) xs) = (if P k then filter (\<lambda>(h, _). h = k) xs else [])"
    by (induction xs) auto
  then show ?thesis unfolding g group_by_get by (auto simp: Let_def)
qed

lemma networks_get:
  "dict_get (networks t hrefs) h =
     (let ns = map snd (filter (\<lambda>(g, _). g = h) (t_ip_list_nets t)) in if h \<in> set hrefs \<and> ns \<noteq> [] then Some ns else None)"
  by (simp add: networks_def map_group_by_get Let_def)

lemma service_ports_get:
  "dict_get (service_ports_of t hrefs) h =
     (let ps = map snd (filter (\<lambda>(g, _). g = h) (t_service_ports t)) in if h \<in> set hrefs \<and> ps \<noteq> [] then Some ps else None)"
  by (simp add: service_ports_of_def map_group_by_get Let_def)

lemma label_groups_get:
  "dict_get (label_groups_of t hrefs) h =
     (if h \<in> set hrefs
      then map_option (\<lambda>k. (k, nub (map (\<lambda>(_, _, v). v) (filter (\<lambda>(g, _, _). g = h) (t_group_members t))))) (map_of (t_label_groups t) h)
      else None)"
proof -
  have "map_of (map (\<lambda>(h, k). (h, k, f h)) (filter (\<lambda>(h, _). h \<in> set hrefs) gs)) h =
      (if h \<in> set hrefs then map_option (\<lambda>k. (k, f h)) (map_of gs h) else None)" for f :: "string \<Rightarrow> string list" and gs :: "(string \<times> string) list"
    by (induction gs) auto
  then show ?thesis by (auto simp: label_groups_of_def)
qed

lemma replace_label_groups_ok:
  "tables_ok t \<Longrightarrow> distinct (map fst rows) \<Longrightarrow> tables_ok (replace_label_groups rows t)"
proof -
  assume t: "tables_ok t" "distinct (map fst rows)"
  have a: "map (fst \<circ> (\<lambda>(h, k, vs). (h, k))) rows = map fst rows" by auto
  have d: "distinct (map (fst \<circ> (\<lambda>(h, k, vs). (h, k))) rows)" using t(2) by (simp only: a)
  have b: "\<forall>(h, k, v) \<in> set (concat (map (\<lambda>(h, k, vs). map (\<lambda>v. (h, k, v)) (sort (nub vs))) rows)).
      (h, k) \<in> set (map (\<lambda>(h, k, vs). (h, k)) rows)"
    by (force simp: image_iff)
  show ?thesis
    using t(1) d b by (simp add: tables_ok_def replace_label_groups_def del: set_map set_concat)
qed

lemma other_statements_ok:
  "tables_ok t \<Longrightarrow> tables_ok (replace_ip_lists ls t)" "tables_ok t \<Longrightarrow> tables_ok (forget_networks t)"
  "tables_ok t \<Longrightarrow> tables_ok (replace_services ss t)" "tables_ok t \<Longrightarrow> tables_ok (forget_service_ports t)"
  "tables_ok t \<Longrightarrow> tables_ok (forget_label_group_members t)"
  by (auto simp: tables_ok_def replace_ip_lists_def forget_networks_def replace_services_def
      forget_service_ports_def forget_label_group_members_def)

lemma filter_concat_rows:
  "distinct (map fst rows) \<Longrightarrow> (h, vs) \<in> set rows \<Longrightarrow>
     map snd (filter (\<lambda>(g, _). g = h) (concat (map (\<lambda>(h, vs). map (\<lambda>v. (h, v)) vs) rows))) = vs"
proof (induction rows)
  case Nil
  then show ?case by simp
next
  case (Cons r rows)
  obtain g ws where r: "r = (g, ws)" by (cases r)
  have n: "filter (\<lambda>(k, _). k = h) (map (\<lambda>v. (g, v)) ws) = (if g = h then map (\<lambda>v. (g, v)) ws else [])" by auto
  have o: "h \<notin> fst ` set rows \<Longrightarrow>
      filter (\<lambda>(k, _). k = h) (concat (map (\<lambda>(h, vs). map (\<lambda>v. (h, v)) vs) rows)) = []"
    by (force simp: filter_empty_conv)
  show ?case
  proof (cases "g = h")
    case True
    with Cons.prems r have "ws = vs" "h \<notin> fst ` set rows" by (auto simp: image_iff)
    with True show ?thesis by (simp add: r n o comp_def)
  next
    case False
    with Cons.prems r have "(h, vs) \<in> set rows" by auto
    with Cons.IH Cons.prems(1) False show ?thesis by (simp add: r n)
  qed
qed

text \<open>What was stored for an IP list or a service is what the reader gives.\<close>

lemma networks_replace:
  "distinct (map fst rows) \<Longrightarrow> (h, nets) \<in> set rows \<Longrightarrow> h \<in> set hrefs \<Longrightarrow> nets \<noteq> [] \<Longrightarrow>
     dict_get (networks (replace_ip_lists rows t) hrefs) h = Some nets"
  by (simp add: networks_get replace_ip_lists_def filter_concat_rows Let_def)

lemma service_ports_replace:
  "distinct (map fst rows) \<Longrightarrow> (h, ports) \<in> set rows \<Longrightarrow> h \<in> set hrefs \<Longrightarrow> ports \<noteq> [] \<Longrightarrow>
     dict_get (service_ports_of (replace_services rows t) hrefs) h = Some ports"
  by (simp add: service_ports_get replace_services_def filter_concat_rows Let_def)

lemma networks_forget: "dict_get (networks (forget_networks t) hrefs) h = None"
  by (simp add: networks_get forget_networks_def Let_def)

lemma service_ports_forget: "dict_get (service_ports_of (forget_service_ports t) hrefs) h = None"
  by (simp add: service_ports_get forget_service_ports_def Let_def)

lemma label_groups_forget:
  "dict_get (label_groups_of (forget_label_group_members t) hrefs) h =
     (if h \<in> set hrefs then map_option (\<lambda>k. (k, [])) (map_of (t_label_groups t) h) else None)"
  by (simp add: label_groups_get forget_label_group_members_def)

section \<open>Properties\<close>

text \<open>C26. Storing a label combination and reading its id back gives the combination (of a key given
  twice, the larger value), keeps the constraints of the tables, and changes no set already
  stored, for labels whose keys hold no \<open>=\<close> and that hold no line feed.\<close>

theorem label_set_roundtrip:
  assumes "tables_ok t" "sets_ok t" "clean_labels labels"
  shows "case label_set_id labels t of (i, t') \<Rightarrow>
    set_labels t' i = dict_of (label_pairs labels) \<and> tables_ok t' \<and> sets_ok t' \<and>
    (\<forall>n \<in> fst ` set (t_label_sets t). set_labels t' (Some n) = set_labels t (Some n))"
proof (cases "label_set_id labels t")
  case (Pair i t')
  then have s: "snd (label_set_id labels t) = t'" by simp
  show ?thesis
    using label_set_id_reads_back [OF assms Pair] label_set_id_tables_ok [OF assms(1), of labels]
      label_set_id_sets_ok [OF assms] label_set_id_keeps [OF assms(1), of _ labels]
    by (simp add: Pair s)
qed

theorem label_set_roundtrip_witness:
  "label_set_id [(''role'', ''db''), (''env'', ''prod'')] empty_tables =
     (Some 1, empty_tables \<lparr> t_label_sets := [(1, ''env=prod'' @ [CHR 10] @ ''role=db'')],
        t_label_members := [(1, ''env'', ''prod''), (1, ''role'', ''db'')] \<rparr>) \<and>
   set_labels (snd (label_set_id [(''role'', ''db''), (''env'', ''prod'')] empty_tables)) (Some 1) =
     [(''env'', ''prod''), (''role'', ''db'')]"
proof -
  have l: "label_set_id [(''role'', ''db''), (''env'', ''prod'')] empty_tables =
     (Some 1, empty_tables \<lparr> t_label_sets := [(1, ''env=prod'' @ [CHR 10] @ ''role=db'')],
        t_label_members := [(1, ''env'', ''prod''), (1, ''role'', ''db'')] \<rparr>)"
    by code_simp
  moreover have "dict_of (label_pairs [(''role'', ''db''), (''env'', ''prod'')]) = [(''env'', ''prod''), (''role'', ''db'')]"
    by code_simp
  ultimately show ?thesis
    using label_set_roundtrip [of empty_tables "[(''role'', ''db''), (''env'', ''prod'')]"]
    by (simp add: tables_ok_def sets_ok_def empty_tables_def clean_labels_def)
qed

text \<open>Without that condition: with a \<open>=\<close> in a label key, two combinations share one signature and with
  it one stored set, so the second combination reads back as the first.\<close>

lemma label_set_collision:
  "let t1 = snd (label_set_id [(''a'', ''b=c'')] empty_tables); (i, t2) = label_set_id [(''a=b'', ''c'')] t1
   in set_labels t2 i = [(''a'', ''b=c'')]"
  by code_simp

end
