(* ===== verification/FilterSql.thy ===== *)
theory FilterSql
  imports FilterMatch FlowTables
begin

text \<open>
  \<open>to_sql\<close>: the filter as a WHERE clause over the flow store's rows. The clause is built as a
  syntax tree (\<open>sql\<close>), \<open>render\<close> prints it with its parameters as the code writes it, and \<open>eval\<close>
  is its meaning in SQLite: three-valued (\<open>None\<close> is NULL), over the tables of \<open>FlowTables\<close>. The
  module's own promise, that \<open>to_sql\<close> and \<open>matches\<close> agree, is proved here, with the two
  conditions it needs. Stored times compare as times: their text is of fixed width.
\<close>

section \<open>Rows\<close>

record stored_row =
  sr_is_primary :: int
  sr_src_ip :: string
  sr_dst_ip :: string
  sr_src_href :: "string option"
  sr_dst_href :: "string option"
  sr_src_hostname :: "string option"
  sr_dst_hostname :: "string option"
  sr_src_label_set :: "int option"
  sr_dst_label_set :: "int option"
  sr_port :: "int option"
  sr_proto :: int
  sr_policy_decision :: string
  sr_initiator_process :: "string option"
  sr_initiator_user :: "string option"
  sr_service_process :: "string option"
  sr_service_user :: "string option"
  sr_windows_service :: "string option"
  sr_transmission :: "string option"
  sr_first :: time
  sr_last :: time

definition row_view :: "flow_tables \<Rightarrow> stored_row \<Rightarrow> flow_view" where
  "row_view t r =
     \<lparr> v_is_primary = sr_is_primary r, v_src_ip = sr_src_ip r, v_dst_ip = sr_dst_ip r, v_src_href = sr_src_href r,
       v_dst_href = sr_dst_href r, v_src_hostname = sr_src_hostname r, v_dst_hostname = sr_dst_hostname r,
       v_src_labels = set_labels t (sr_src_label_set r), v_dst_labels = set_labels t (sr_dst_label_set r),
       v_port = sr_port r, v_proto = sr_proto r, v_policy_decision = sr_policy_decision r,
       v_initiator_process = sr_initiator_process r, v_initiator_user = sr_initiator_user r,
       v_service_process = sr_service_process r, v_service_user = sr_service_user r,
       v_windows_service = sr_windows_service r, v_transmission = sr_transmission r,
       v_first = sr_first r, v_last = sr_last r \<rparr>"

fun row_label_set :: "stored_row \<Rightarrow> side \<Rightarrow> int option" where
  "row_label_set r Src = sr_src_label_set r" | "row_label_set r Dst = sr_dst_label_set r"

fun row_ip :: "stored_row \<Rightarrow> side \<Rightarrow> string" where
  "row_ip r Src = sr_src_ip r" | "row_ip r Dst = sr_dst_ip r"

fun row_href :: "stored_row \<Rightarrow> side \<Rightarrow> string option" where
  "row_href r Src = sr_src_href r" | "row_href r Dst = sr_dst_href r"

datatype text_col = InitiatorProcess | InitiatorUser | ServiceProcess | ServiceUser | SrcHostname | DstHostname
  | SrcIp | DstIp | WindowsServiceCol | TransmissionCol | PolicyDecisionCol

fun col_name :: "text_col \<Rightarrow> string" where
  "col_name InitiatorProcess = ''initiator_process''"
| "col_name InitiatorUser = ''initiator_user''"
| "col_name ServiceProcess = ''service_process''"
| "col_name ServiceUser = ''service_user''"
| "col_name SrcHostname = ''src_hostname''"
| "col_name DstHostname = ''dst_hostname''"
| "col_name SrcIp = ''src_ip''"
| "col_name DstIp = ''dst_ip''"
| "col_name WindowsServiceCol = ''windows_service''"
| "col_name TransmissionCol = ''transmission''"
| "col_name PolicyDecisionCol = ''policy_decision''"

fun cell :: "stored_row \<Rightarrow> text_col \<Rightarrow> string option" where
  "cell r InitiatorProcess = sr_initiator_process r"
| "cell r InitiatorUser = sr_initiator_user r"
| "cell r ServiceProcess = sr_service_process r"
| "cell r ServiceUser = sr_service_user r"
| "cell r SrcHostname = sr_src_hostname r"
| "cell r DstHostname = sr_dst_hostname r"
| "cell r SrcIp = Some (sr_src_ip r)"
| "cell r DstIp = Some (sr_dst_ip r)"
| "cell r WindowsServiceCol = sr_windows_service r"
| "cell r TransmissionCol = sr_transmission r"
| "cell r PolicyDecisionCol = Some (sr_policy_decision r)"

section \<open>The clause\<close>

datatype sql_exp = Col text_col | Lower text_col | UserKey text_col

datatype sql =
    SqlOne
  | SqlPrimary
  | SqlLastFrom bool time
  | SqlFirstTo time
  | SqlLabel side string "string list"
  | SqlLabelGroups side "string list" "(string \<times> string) list" "string list"
  | SqlHref side "string list"
  | SqlIpIn side "string list"
  | SqlIpNet side string
  | SqlIpLists side "string list"
  | SqlOutside side
  | SqlProto int
  | SqlPortBetween "int option" int
  | SqlPortIs int
  | SqlServices "string list"
  | SqlIn sql_exp "string list"
  | SqlNotIn sql_exp "string list"
  | SqlLike text_col string
  | SqlNotSystem
  | SqlAnd "sql list"
  | SqlOr "sql list"
  | SqlNot sql

definition sql_labels :: "endpoint_filter \<Rightarrow> side \<Rightarrow> sql list" where
  "sql_labels ep sd =
     (if ep_label_groups ep \<noteq> [] then
        [SqlLabelGroups sd (sort (nub (ep_label_groups ep)))
           (concat (map (\<lambda>c. map (\<lambda>v. (lc_key c, v)) (lc_values c)) (ep_labels ep)))
           (sort (nub (map lc_key (ep_labels ep))))]
      else if ep_labels ep \<noteq> [] then [SqlAnd (map (\<lambda>c. SqlLabel sd (lc_key c) (lc_values c)) (ep_labels ep))]
      else [])"

definition sql_addresses :: "endpoint_filter \<Rightarrow> side \<Rightarrow> sql list" where
  "sql_addresses ep sd =
     (let (exact, nets) = split_ips (ep_ips ep) in
      (if ep_hrefs ep \<noteq> [] then [SqlHref sd (ep_hrefs ep)] else []) @
      (if exact \<noteq> [] then [SqlIpIn sd exact] else []) @
      map (SqlIpNet sd) nets @
      (if ep_ip_lists ep \<noteq> [] then [SqlIpLists sd (ep_ip_lists ep)] else []) @
      (if ep_public ep then [SqlOutside sd] else []))"

definition sql_side :: "endpoint_filter \<Rightarrow> side \<Rightarrow> sql" where
  "sql_side ep sd =
     (let addresses = sql_addresses ep sd;
          parts = sql_labels ep sd @ (if addresses \<noteq> [] then [SqlOr addresses] else [])
      in if parts = [] then SqlOne else if ep_match ep = MatchAll then SqlAnd parts else SqlOr parts)"

definition sql_port :: "port_proto \<Rightarrow> sql" where
  "sql_port p =
     SqlAnd ((case pp_proto p of None \<Rightarrow> [] | Some n \<Rightarrow> [SqlProto n]) @
       (case pp_to_port p of
          Some hi \<Rightarrow> [SqlPortBetween (pp_port p) hi]
        | None \<Rightarrow> (case pp_port p of None \<Rightarrow> [] | Some n \<Rightarrow> [SqlPortIs n])))"

definition sql_endpoint :: "endpoint_filter option \<Rightarrow> bool \<Rightarrow> side \<Rightarrow> sql list" where
  "sql_endpoint ep negate sd =
     (case ep of
        None \<Rightarrow> []
      | Some e \<Rightarrow> (if ep_is_empty e then [] else [if negate then SqlNot (sql_side e sd) else sql_side e sd]))"

definition sql_either :: "endpoint_filter option \<Rightarrow> bool \<Rightarrow> sql list" where
  "sql_either ep negate =
     (case ep of
        None \<Rightarrow> []
      | Some e \<Rightarrow>
          (if ep_is_empty e then []
           else let clause = SqlOr [sql_side e Src, sql_side e Dst] in [if negate then SqlNot clause else clause]))"

definition sql_service_set :: "port_proto list \<Rightarrow> string list \<Rightarrow> bool \<Rightarrow> sql list" where
  "sql_service_set ports services negate =
     (let terms = map sql_port ports @ (if services \<noteq> [] then [SqlServices services] else [])
      in if terms = [] then [] else [if negate then SqlNot (SqlOr terms) else SqlOr terms])"

definition sql_term :: "text_col \<Rightarrow> string option \<Rightarrow> sql list" where
  "sql_term c term = (if truthy_str term then [SqlLike c (like_pattern (or_empty term))] else [])"

definition sql_values :: "sql_exp \<Rightarrow> string list \<Rightarrow> sql list" where
  "sql_values e vs = (if vs \<noteq> [] then [SqlIn e vs] else [])"

definition sql_not_values :: "sql_exp \<Rightarrow> string list \<Rightarrow> sql list" where
  "sql_not_values e vs = (if vs \<noteq> [] then [SqlNotIn e vs] else [])"

definition TEXT_COLUMNS :: "text_col list" where
  "TEXT_COLUMNS = [SrcHostname, DstHostname, SrcIp, DstIp, InitiatorProcess, InitiatorUser, ServiceProcess, ServiceUser]"

definition to_sql :: "bool \<Rightarrow> filter_spec \<Rightarrow> sql list" where
  "to_sql wide spec =
     [SqlPrimary, SqlLastFrom wide (fs_start spec), SqlFirstTo (fs_end spec)] @
     sql_endpoint (fc_src spec) False Src @ sql_endpoint (fc_dst spec) False Dst @
     sql_endpoint (fc_src_exclude spec) True Src @ sql_endpoint (fc_dst_exclude spec) True Dst @
     sql_either (fc_either spec) False @ sql_either (fc_either_exclude spec) True @
     sql_service_set (fc_ports spec) (fc_services spec) False @
     sql_service_set (fc_exclude_ports spec) (fc_exclude_services spec) True @
     sql_values (Lower WindowsServiceCol) (map ascii_lower (fc_windows_services spec)) @
     sql_not_values (Lower WindowsServiceCol) (map ascii_lower (fc_exclude_windows_services spec)) @
     sql_values (Lower TransmissionCol) (map transmission_value (fc_transmissions spec)) @
     sql_not_values (Lower TransmissionCol) (map transmission_value (fc_exclude_transmissions spec)) @
     sql_not_values (Col InitiatorProcess) (fc_exclude_processes spec) @
     sql_not_values (Col ServiceProcess) (fc_exclude_processes spec) @
     sql_values (Col PolicyDecisionCol) (map policy_decision_value (fc_decisions spec)) @
     sql_term InitiatorProcess (fc_initiator_process spec) @
     sql_values (Col InitiatorProcess) (fc_initiator_processes spec) @
     sql_term InitiatorUser (fc_initiator_user spec) @
     sql_values (UserKey InitiatorUser) (map user_key (fc_initiator_users spec)) @
     sql_term ServiceProcess (fc_service_process spec) @
     sql_values (Col ServiceProcess) (fc_service_processes spec) @
     sql_term ServiceUser (fc_service_user spec) @
     sql_values (UserKey ServiceUser) (map user_key (fc_service_users spec)) @
     (if truthy_str (fc_text spec)
      then [SqlOr (map (\<lambda>c. SqlLike c (like_pattern (or_empty (fc_text spec)))) TEXT_COLUMNS)] else []) @
     (if fc_exclude_system_accounts spec then [SqlNotSystem] else [])"

section \<open>Its text\<close>

datatype sparam = PText string | PInt int | PNull

definition store_time :: "time \<Rightarrow> string" where
  "store_time t = date_text t @ ''T'' @ clock_text t @ ''.'' @ pad 3 (t mod SECOND div MS) @ ''+00:00''"

definition marks :: "'a list \<Rightarrow> string" where
  "marks xs = py_join '','' (map (\<lambda>_. ''?'') xs)"

fun side_name :: "side \<Rightarrow> string" where
  "side_name Src = ''src''" | "side_name Dst = ''dst''"

definition side_col :: "string \<Rightarrow> side \<Rightarrow> string \<Rightarrow> string" where
  "side_col a sd col = a @ ''.'' @ side_name sd @ ''_'' @ col"

definition text_column :: "string \<Rightarrow> text_col \<Rightarrow> string" where
  "text_column a c = a @ ''.'' @ col_name c"

definition user_sql :: "string \<Rightarrow> string" where
  "user_sql col =
     ''CASE WHEN instr('' @ col @ '', '' @ [CHR 39, CHR 92, CHR 39] @ '') > 0 OR instr('' @ col @ '', '' @
       [CHR 39, CHR ''@'', CHR 39] @ '') > 0 THEN lower('' @ col @ '') ELSE '' @ col @ '' END''"

fun render_exp :: "string \<Rightarrow> sql_exp \<Rightarrow> string" where
  "render_exp a (Col c) = text_column a c"
| "render_exp a (Lower c) = ''lower('' @ text_column a c @ '')''"
| "render_exp a (UserKey c) = user_sql (text_column a c)"

definition render_groups :: "string \<Rightarrow> side \<Rightarrow> string list \<Rightarrow> (string \<times> string) list \<Rightarrow> string list \<Rightarrow> string" where
  "render_groups a sd groups pairs cond_keys =
     (let gm = marks groups;
          allowed = ''SELECT key, value FROM label_group_members WHERE href IN ('' @ gm @ '')'' @
            concat (map (\<lambda>_. '' UNION ALL SELECT ?, ?'') pairs);
          keys = ''SELECT key FROM label_groups WHERE href IN ('' @ gm @ '')'' @
            concat (map (\<lambda>_. '' UNION SELECT ?'') cond_keys)
      in ''((SELECT COUNT(*) FROM label_groups WHERE href IN ('' @ gm @ '')) = '' @ dec_str (int (length groups)) @
         '' AND COALESCE('' @ side_col a sd ''label_set'' @
         '', -1) IN (SELECT m.set_id FROM label_set_members m WHERE (m.key, m.value) IN ('' @ allowed @
         '') GROUP BY m.set_id HAVING COUNT(DISTINCT m.key) = (SELECT COUNT(DISTINCT key) FROM ('' @ keys @ ''))))'')"

definition escape_clause :: string where
  "escape_clause = '' LIKE ? ESCAPE '' @ [CHR 39, CHR 92, CHR 39]"

fun render :: "string \<Rightarrow> sql \<Rightarrow> string \<times> sparam list" where
  "render a SqlOne = (''1'', [])"
| "render a SqlPrimary = (a @ ''.is_primary = 1'', [])"
| "render a (SqlLastFrom wide t) = ((if wide then ''+'' else '''') @ a @ ''.last_detected >= ?'', [PText (store_time t)])"
| "render a (SqlFirstTo t) = (a @ ''.first_detected <= ?'', [PText (store_time t)])"
| "render a (SqlLabel sd k vs) =
     (''COALESCE('' @ side_col a sd ''label_set'' @
      '', -1) IN (SELECT set_id FROM label_set_members WHERE key = ? AND value IN ('' @ marks vs @ ''))'',
      PText k # map PText vs)"
| "render a (SqlLabelGroups sd groups pairs cond_keys) =
     (render_groups a sd groups pairs cond_keys,
      map PText groups @ map PText groups @ concat (map (\<lambda>(k, v). [PText k, PText v]) pairs) @ map PText groups @
      map PText cond_keys)"
| "render a (SqlHref sd hs) =
     (''COALESCE('' @ side_col a sd ''href'' @ '', '' @ [CHR 39, CHR 39] @ '') IN ('' @ marks hs @ '')'', map PText hs)"
| "render a (SqlIpIn sd ips) = (side_col a sd ''ip'' @ '' IN ('' @ marks ips @ '')'', map PText ips)"
| "render a (SqlIpNet sd net) = (''ip_in_net('' @ side_col a sd ''ip'' @ '', ?) = 1'', [PText net])"
| "render a (SqlIpLists sd hs) =
     (''EXISTS (SELECT 1 FROM ip_list_nets n WHERE n.href IN ('' @ marks hs @ '') AND ip_in_net('' @
      side_col a sd ''ip'' @ '', n.net) = 1)'', map PText hs)"
| "render a (SqlOutside sd) = (''is_outside('' @ side_col a sd ''ip'' @ '', '' @ side_col a sd ''href'' @ '') = 1'', [])"
| "render a (SqlProto n) = (a @ ''.proto = ?'', [PInt n])"
| "render a (SqlPortBetween lo hi) =
     (''COALESCE('' @ a @ ''.port, -1) BETWEEN ? AND ?'', [case lo of Some l \<Rightarrow> PInt l | None \<Rightarrow> PNull, PInt hi])"
| "render a (SqlPortIs n) = (''COALESCE('' @ a @ ''.port, -1) = ?'', [PInt n])"
| "render a (SqlServices hs) =
     (''EXISTS (SELECT 1 FROM pce_service_ports s WHERE s.href IN ('' @ marks hs @ '') AND (s.proto IS NULL OR s.proto = '' @ a @
      ''.proto) AND (s.port IS NULL OR COALESCE('' @ a @ ''.port, -1) BETWEEN s.port AND COALESCE(s.to_port, s.port)))'',
      map PText hs)"
| "render a (SqlIn e vs) = (render_exp a e @ '' IN ('' @ marks vs @ '')'', map PText vs)"
| "render a (SqlNotIn e vs) = (''NOT COALESCE('' @ render_exp a e @ '' IN ('' @ marks vs @ ''), 0)'', map PText vs)"
| "render a (SqlLike c pattern) = (text_column a c @ escape_clause, [PText pattern])"
| "render a SqlNotSystem = (''is_system_account('' @ text_column a InitiatorUser @ '') = 0'', [])"
| "render a (SqlAnd cs) =
     (''('' @ py_join '' AND '' (map (\<lambda>c. fst (render a c)) cs) @ '')'', concat (map (\<lambda>c. snd (render a c)) cs))"
| "render a (SqlOr cs) =
     (''('' @ py_join '' OR '' (map (\<lambda>c. fst (render a c)) cs) @ '')'', concat (map (\<lambda>c. snd (render a c)) cs))"
| "render a (SqlNot c) = (''NOT '' @ fst (render a c), snd (render a c))"

definition to_sql_text :: "string \<Rightarrow> bool \<Rightarrow> filter_spec \<Rightarrow> string \<times> sparam list" where
  "to_sql_text a wide spec =
     (py_join '' AND '' (map (\<lambda>c. fst (render a c)) (to_sql wide spec)),
      concat (map (\<lambda>c. snd (render a c)) (to_sql wide spec)))"

section \<open>Its meaning\<close>

definition and3 :: "bool option list \<Rightarrow> bool option" where
  "and3 xs = (if Some False \<in> set xs then Some False else if None \<in> set xs then None else Some True)"

definition or3 :: "bool option list \<Rightarrow> bool option" where
  "or3 xs = (if Some True \<in> set xs then Some True else if None \<in> set xs then None else Some False)"

text \<open>SQLite's \<open>patternCompare\<close> with a backslash as its escape: \<open>%\<close>, \<open>_\<close>, an escaped character,
  anything else compared without ASCII case.\<close>

function sqlite_like :: "string \<Rightarrow> string \<Rightarrow> bool" where
  "sqlite_like [] s = (s = [])"
| "sqlite_like (c # cs) s =
     (if c = CHR 92 then
        (case cs of [] \<Rightarrow> False
         | d # ds \<Rightarrow> (case s of [] \<Rightarrow> False | x # xs \<Rightarrow> same_ascii d x \<and> sqlite_like ds xs))
      else if c = CHR ''%'' then
        sqlite_like cs s \<or> (case s of [] \<Rightarrow> False | x # xs \<Rightarrow> sqlite_like (c # cs) xs)
      else (case s of [] \<Rightarrow> False | x # xs \<Rightarrow> (c = CHR ''_'' \<or> same_ascii c x) \<and> sqlite_like cs xs))"
  by pat_completeness auto
termination
  by (relation "measure (\<lambda>(p, s). length p + length s)") auto

definition set_number :: "int option \<Rightarrow> int" where
  "set_number i = (case i of None \<Rightarrow> - 1 | Some n \<Rightarrow> n)"

fun eval_exp :: "stored_row \<Rightarrow> sql_exp \<Rightarrow> string option" where
  "eval_exp r (Col c) = cell r c"
| "eval_exp r (Lower c) = map_option ascii_lower (cell r c)"
| "eval_exp r (UserKey c) =
     map_option (\<lambda>s. if CHR 92 \<in> set s \<or> CHR ''@'' \<in> set s then ascii_lower s else s) (cell r c)"

text \<open>The labels part with groups: the groups that exist, and the label sets whose members among the
  allowed pairs have as many different keys as the groups and conditions name.\<close>

definition allowed_pairs :: "flow_tables \<Rightarrow> string list \<Rightarrow> (string \<times> string) list \<Rightarrow> (string \<times> string) list" where
  "allowed_pairs t groups pairs = map snd (filter (\<lambda>(h, _). h \<in> set groups) (t_group_members t)) @ pairs"

definition named_key_list :: "flow_tables \<Rightarrow> string list \<Rightarrow> string list \<Rightarrow> string list" where
  "named_key_list t groups cond_keys =
     nub (map snd (filter (\<lambda>(h, _). h \<in> set groups) (t_label_groups t)) @ cond_keys)"

definition matched_keys :: "flow_tables \<Rightarrow> int \<Rightarrow> (string \<times> string) list \<Rightarrow> string list" where
  "matched_keys t n allowed = map fst (filter (\<lambda>kv. kv \<in> set allowed) (set_rows t n))"

definition eval_groups :: "flow_tables \<Rightarrow> int option \<Rightarrow> string list \<Rightarrow> (string \<times> string) list \<Rightarrow> string list \<Rightarrow> bool" where
  "eval_groups t i groups pairs cond_keys =
     (length (filter (\<lambda>(h, _). h \<in> set groups) (t_label_groups t)) = length groups \<and>
      (let ks = matched_keys t (set_number i) (allowed_pairs t groups pairs)
       in ks \<noteq> [] \<and> length (nub ks) = length (named_key_list t groups cond_keys)))"

fun eval :: "flow_tables \<Rightarrow> stored_row \<Rightarrow> sql \<Rightarrow> bool option" where
  "eval t r SqlOne = Some True"
| "eval t r SqlPrimary = Some (sr_is_primary r = 1)"
| "eval t r (SqlLastFrom _ x) = Some (x \<le> sr_last r)"
| "eval t r (SqlFirstTo x) = Some (sr_first r \<le> x)"
| "eval t r (SqlLabel sd k vs) =
     Some (list_ex (\<lambda>(i, k', v). i = set_number (row_label_set r sd) \<and> k' = k \<and> v \<in> set vs) (t_label_members t))"
| "eval t r (SqlLabelGroups sd groups pairs cond_keys) = Some (eval_groups t (row_label_set r sd) groups pairs cond_keys)"
| "eval t r (SqlHref sd hs) = Some (or_empty (row_href r sd) \<in> set hs)"
| "eval t r (SqlIpIn sd ips) = Some (row_ip r sd \<in> set ips)"
| "eval t r (SqlIpNet sd net) = Some (ip_in_net (row_ip r sd) net)"
| "eval t r (SqlIpLists sd hs) =
     Some (list_ex (\<lambda>(h, net). h \<in> set hs \<and> ip_in_net (row_ip r sd) net) (t_ip_list_nets t))"
| "eval t r (SqlOutside sd) = Some (outside (Some (row_ip r sd)) (row_href r sd))"
| "eval t r (SqlProto n) = Some (sr_proto r = n)"
| "eval t r (SqlPortBetween lo hi) =
     and3 [map_option (\<lambda>l. l \<le> port_number (sr_port r)) lo, Some (port_number (sr_port r) \<le> hi)]"
| "eval t r (SqlPortIs n) = Some (port_number (sr_port r) = n)"
| "eval t r (SqlServices hs) =
     Some (list_ex (\<lambda>(h, p). h \<in> set hs \<and> service_matches [p] (sr_port r) (sr_proto r)) (t_service_ports t))"
| "eval t r (SqlIn e vs) = map_option (\<lambda>s. s \<in> set vs) (eval_exp r e)"
| "eval t r (SqlNotIn e vs) = Some (\<not> (case eval_exp r e of None \<Rightarrow> False | Some s \<Rightarrow> s \<in> set vs))"
| "eval t r (SqlLike c pattern) = map_option (sqlite_like pattern) (cell r c)"
| "eval t r SqlNotSystem = Some (\<not> is_system_account (sr_initiator_user r))"
| "eval t r (SqlAnd cs) = and3 (map (eval t r) cs)"
| "eval t r (SqlOr cs) = or3 (map (eval t r) cs)"
| "eval t r (SqlNot c) = map_option Not (eval t r c)"

text \<open>A WHERE clause keeps a row when it is true, not when it is NULL.\<close>

definition sql_holds :: "flow_tables \<Rightarrow> stored_row \<Rightarrow> sql list \<Rightarrow> bool" where
  "sql_holds t r clauses = (and3 (map (eval t r) clauses) = Some True)"

lemma sql_holds_iff: "sql_holds t r cs \<longleftrightarrow> (\<forall>c \<in> set cs. eval t r c = Some True)"
proof -
  have "and3 xs = Some True \<longleftrightarrow> (\<forall>x \<in> set xs. x = Some True)" for xs
    by (auto simp: and3_def) (metis (full_types) not_Some_eq)
  then show ?thesis by (simp add: sql_holds_def)
qed

lemma sql_holds_append: "sql_holds t r (cs @ ds) \<longleftrightarrow> sql_holds t r cs \<and> sql_holds t r ds"
  by (auto simp: sql_holds_iff)

end
