(* ===== verification/SqlAgree.thy ===== *)
theory SqlAgree
  imports FilterSql
begin

text \<open>
  \<open>to_sql\<close> and \<open>matches\<close> agree: every clause \<open>to_sql\<close> builds means what the corresponding test of
  \<open>matches\<close> checks, over the same tables, for specifications that \<open>FilterSpec\<close> accepts, whose
  endpoints name each label key once (or use label groups) and whose domain accounts are ASCII.
  Two examples at the end show that both conditions are needed.
\<close>

section \<open>Text\<close>

fun escapes_closed :: "string \<Rightarrow> bool" where
  "escapes_closed [] = True"
| "escapes_closed [c] = (c \<noteq> CHR 92)"
| "escapes_closed (c # d # cs) = (if c = CHR 92 then escapes_closed cs else escapes_closed (d # cs))"

lemma sqlite_like_any: "sqlite_like (CHR ''%'' # p) s \<longleftrightarrow> (\<exists>u w. s = u @ w \<and> sqlite_like p w)"
proof (induction s)
  case Nil
  then show ?case by (subst sqlite_like.simps) simp
next
  case (Cons x s)
  have "sqlite_like (CHR ''%'' # p) (x # s) \<longleftrightarrow> sqlite_like p (x # s) \<or> (\<exists>u w. s = u @ w \<and> sqlite_like p w)"
    by (subst sqlite_like.simps) (simp add: Cons.IH del: sqlite_like.simps)
  also have "\<dots> \<longleftrightarrow> (\<exists>u w. x # s = u @ w \<and> sqlite_like p w)"
    by (metis Cons_eq_append_conv)
  finally show ?case .
qed

lemma sqlite_like_regex: "escapes_closed p \<Longrightarrow> sqlite_like p s \<longleftrightarrow> fullmatch (like_regex p) s"
proof (induction p arbitrary: s rule: escapes_closed.induct)
  case 1
  then show ?case by simp
next
  case (2 c)
  show ?case
  proof (cases "c = CHR ''%''")
    case True
    then show ?thesis by (simp add: pat_of_def sqlite_like_any fullmatch_any_run del: sqlite_like.simps(2))
  next
    case False
    with 2 show ?thesis by (cases s) (auto simp: pat_of_def)
  qed
next
  case (3 c d cs)
  show ?case
  proof (cases "c = CHR ''%''")
    case True
    with 3 show ?thesis by (simp add: pat_of_def sqlite_like_any fullmatch_any_run del: sqlite_like.simps(2))
  next
    case False
    show ?thesis
    proof (cases "c = CHR 92")
      case True
      with 3 show ?thesis by (cases s) auto
    next
      case n: False
      with 3 False have ih: "\<And>s. sqlite_like (d # cs) s \<longleftrightarrow> fullmatch (like_regex (d # cs)) s" by simp
      show ?thesis
        by (cases s) (use n False in \<open>auto simp: pat_of_def ih simp del: sqlite_like.simps(2) simp: sqlite_like.simps(2) [of c]\<close>)
    qed
  qed
qed

lemma escapes_closed_plain: "c \<noteq> CHR 92 \<Longrightarrow> escapes_closed (c # s) = escapes_closed s"
  by (cases s) auto

lemma escapes_closed_esc [simp]: "escapes_closed (esc c @ s) = escapes_closed s"
  by (auto simp: esc_def escapes_closed_plain)

lemma escapes_closed_pattern: "escapes_closed (like_pattern term)"
proof -
  have "escapes_closed (concat (map (\<lambda>c. if c = CHR ''*'' then ''%'' else esc c) t))" for t
    by (induction t) (auto simp: escapes_closed_plain)
  moreover have "escapes_closed (concat (map esc t) @ ''%'')" for t
    by (induction t) auto
  ultimately show ?thesis by (simp add: like_pattern_def Let_def escaped_chars star_chars escapes_closed_plain)
qed

lemma sqlite_like_like: "sqlite_like (like_pattern term) s \<longleftrightarrow> like (Some s) term"
  by (simp add: like_def sqlite_like_regex escapes_closed_pattern)

section \<open>Label sets\<close>

lemma set_rows_distinct: "tables_ok t \<Longrightarrow> distinct (map fst (set_rows t n))"
  using set_labels_rows [of t n] distinct_dict_of by (metis option.simps(5) set_labels_def)

lemma set_rows_none: "tables_ok t \<Longrightarrow> set_rows t (- 1) = []"
proof -
  assume ok: "tables_ok t"
  have "i \<noteq> - 1" if "(i, k, v) \<in> set (t_label_members t)" for i k v
    using ok that by (fastforce simp: tables_ok_def)
  then show ?thesis by (auto simp: set_rows_def filter_empty_conv)
qed

lemma set_labels_number: "tables_ok t \<Longrightarrow> set_labels t i = set_rows t (set_number i)"
  by (cases i) (simp_all add: set_labels_rows set_number_def set_rows_none, simp add: set_labels_def)

lemma set_rows_mem: "(k, v) \<in> set (set_rows t n) \<longleftrightarrow> (n, k, v) \<in> set (t_label_members t)"
  by (force simp: set_rows_def)

lemma set_labels_get:
  "tables_ok t \<Longrightarrow> dict_get (set_labels t i) k = Some v \<longleftrightarrow> (set_number i, k, v) \<in> set (t_label_members t)"
  by (simp add: set_labels_number set_rows_distinct flip: set_rows_mem)

lemma group_key:
  "tables_ok t \<Longrightarrow> (h, k) \<in> set (t_label_groups t) \<Longrightarrow> map_of (t_label_groups t) h = Some k"
  by (simp add: tables_ok_def)

lemma members_mem:
  "tables_ok t \<Longrightarrow> (h, k) \<in> set (t_label_groups t) \<Longrightarrow>
     v \<in> set (nub (map (\<lambda>(_, _, v). v) (filter (\<lambda>(g, _, _). g = h) (t_group_members t)))) \<longleftrightarrow>
     (h, k, v) \<in> set (t_group_members t)"
proof -
  assume ok: "tables_ok t" and h: "(h, k) \<in> set (t_label_groups t)"
  have "k' = k" if "(h, k', v') \<in> set (t_group_members t)" for k' v'
  proof -
    have k': "(h, k') \<in> set (t_label_groups t)" using ok that unfolding tables_ok_def by blast
    show ?thesis using group_key [OF ok h] group_key [OF ok k'] by simp
  qed
  moreover have "v \<in> set (nub (map (\<lambda>(_, _, v). v) (filter (\<lambda>(g, _, _). g = h) ms))) \<longleftrightarrow> (\<exists>k'. (h, k', v) \<in> set ms)"
    for ms :: "(string \<times> string \<times> string) list"
    by (induction ms) auto
  ultimately show ?thesis by blast
qed

text \<open>All groups of an endpoint exist exactly when the rows the count finds are as many as the
  groups it names.\<close>

lemma groups_exist_count:
  assumes "tables_ok t"
  shows "length (filter (\<lambda>(h, _). h \<in> set gs) (t_label_groups t)) = length (sort (nub gs)) \<longleftrightarrow>
    (\<forall>h \<in> set gs. \<exists>k. (h, k) \<in> set (t_label_groups t))"
proof -
  let ?f = "filter (\<lambda>(h, _). h \<in> set gs) (t_label_groups t)"
  have "distinct (map fst ?f)" using assms by (simp add: tables_ok_def distinct_map_filter)
  then have "length ?f = card (fst ` set ?f)" by (metis distinct_card length_map list.set_map)
  also have "fst ` set ?f = set gs \<inter> fst ` set (t_label_groups t)" by force
  finally have l: "length ?f = card (set gs \<inter> fst ` set (t_label_groups t))" .
  have n: "length (sort (nub gs)) = card (set gs)" by (metis distinct_nub distinct_card length_sort set_nub)
  have "card (set gs \<inter> fst ` set (t_label_groups t)) = card (set gs) \<longleftrightarrow> set gs \<subseteq> fst ` set (t_label_groups t)"
  proof
    assume "card (set gs \<inter> fst ` set (t_label_groups t)) = card (set gs)"
    then have "set gs \<inter> fst ` set (t_label_groups t) = set gs" by (intro card_subset_eq) auto
    then show "set gs \<subseteq> fst ` set (t_label_groups t)" by blast
  qed (simp add: inf.absorb1)
  then show ?thesis unfolding l n by force
qed

lemma card_eq_subset: "distinct ks \<Longrightarrow> set ks \<subseteq> set ns \<Longrightarrow> distinct ns \<Longrightarrow> length ks = length ns \<longleftrightarrow> set ns \<subseteq> set ks"
  by (metis List.finite_set card_subset_eq distinct_card subset_antisym)

text \<open>What the reader gives for the groups an endpoint names.\<close>

definition named_groups :: "flow_tables \<Rightarrow> string list \<Rightarrow> endpoint_filter \<Rightarrow> (string \<times> string list) list" where
  "named_groups t hrefs ep = map (\<lambda>h. the (dict_get (label_groups_of t hrefs) h)) (ep_label_groups ep)"

definition groups_present :: "flow_tables \<Rightarrow> string list \<Rightarrow> endpoint_filter \<Rightarrow> bool" where
  "groups_present t hrefs ep =
     (tables_ok t \<and> set (ep_label_groups ep) \<subseteq> set hrefs \<and>
      (\<forall>h \<in> set (ep_label_groups ep). \<exists>k. (h, k) \<in> set (t_label_groups t)))"

lemma group_get:
  assumes "tables_ok t" "h \<in> set hrefs" "(h, k) \<in> set (t_label_groups t)"
  shows "dict_get (label_groups_of t hrefs) h =
    Some (k, nub (map (\<lambda>(_, _, v). v) (filter (\<lambda>(g, _, _). g = h) (t_group_members t))))"
  using assms group_key [OF assms(1,3)] by (simp add: label_groups_get)

lemma named_groups_value:
  assumes p: "groups_present t hrefs ep"
  shows "(\<exists>g \<in> set (named_groups t hrefs ep). fst g = k \<and> v \<in> set (snd g)) \<longleftrightarrow>
    (\<exists>h \<in> set (ep_label_groups ep). (h, k, v) \<in> set (t_group_members t))"
proof -
  have ok: "tables_ok t" using p by (simp add: groups_present_def)
  have "fst (the (dict_get (label_groups_of t hrefs) h)) = k \<and> v \<in> set (snd (the (dict_get (label_groups_of t hrefs) h))) \<longleftrightarrow>
      (h, k, v) \<in> set (t_group_members t)" if h: "h \<in> set (ep_label_groups ep)" for h
  proof -
    obtain k' where hk: "(h, k') \<in> set (t_label_groups t)" "h \<in> set hrefs" using p h by (auto simp: groups_present_def)
    have "k = k'" if "(h, k, v) \<in> set (t_group_members t)"
    proof -
      have "(h, k) \<in> set (t_label_groups t)" using ok that unfolding tables_ok_def by blast
      then show ?thesis using group_key [OF ok] hk(1) by (metis option.inject)
    qed
    then show ?thesis using members_mem [OF ok hk(1), of v] group_get [OF ok hk(2,1)] by auto
  qed
  then show ?thesis by (simp add: named_groups_def)
qed

lemma allowed_pairs_iff:
  assumes "groups_present t hrefs ep"
  shows "(k, v) \<in> set (allowed_pairs t (sort (nub (ep_label_groups ep)))
      (concat (map (\<lambda>c. map (\<lambda>v. (lc_key c, v)) (lc_values c)) (ep_labels ep)))) \<longleftrightarrow>
    v \<in> named_values (ep_labels ep) (named_groups t hrefs ep) k"
proof -
  have "(k, v) \<in> set (allowed_pairs t (sort (nub (ep_label_groups ep)))
      (concat (map (\<lambda>c. map (\<lambda>v. (lc_key c, v)) (lc_values c)) (ep_labels ep)))) \<longleftrightarrow>
      (\<exists>h \<in> set (ep_label_groups ep). (h, k, v) \<in> set (t_group_members t)) \<or>
      (\<exists>c \<in> set (ep_labels ep). lc_key c = k \<and> v \<in> set (lc_values c))"
    by (force simp: allowed_pairs_def)
  then show ?thesis
    unfolding named_groups_value [OF assms, symmetric] by (simp add: named_values_def Bex_def) blast
qed

lemma named_key_list_set:
  assumes p: "groups_present t hrefs ep"
  shows "set (named_key_list t (sort (nub (ep_label_groups ep))) (sort (nub (map lc_key (ep_labels ep))))) =
    named_keys (ep_labels ep) (named_groups t hrefs ep)"
proof -
  have ok: "tables_ok t" using p by (simp add: groups_present_def)
  have f: "fst (the (dict_get (label_groups_of t hrefs) h)) = k \<longleftrightarrow> (h, k) \<in> set (t_label_groups t)"
    if h: "h \<in> set (ep_label_groups ep)" for h k
  proof -
    obtain k' where hk: "(h, k') \<in> set (t_label_groups t)" "h \<in> set hrefs" using p h by (auto simp: groups_present_def)
    then show ?thesis using group_get [OF ok hk(2,1)] group_key [OF ok] by (metis fst_conv option.inject option.sel)
  qed
  have "k \<in> fst ` set (named_groups t hrefs ep) \<longleftrightarrow>
      k \<in> snd ` {x \<in> set (t_label_groups t). fst x \<in> set (ep_label_groups ep)}" for k
  proof -
    have "k \<in> fst ` set (named_groups t hrefs ep) \<longleftrightarrow>
        (\<exists>h \<in> set (ep_label_groups ep). fst (the (dict_get (label_groups_of t hrefs) h)) = k)"
      by (auto simp: named_groups_def image_iff)
    also have "\<dots> \<longleftrightarrow> (\<exists>h \<in> set (ep_label_groups ep). (h, k) \<in> set (t_label_groups t))"
      using f by blast
    finally show ?thesis by force
  qed
  moreover have "set (named_key_list t (sort (nub (ep_label_groups ep))) (sort (nub (map lc_key (ep_labels ep))))) =
      snd ` {x \<in> set (t_label_groups t). fst x \<in> set (ep_label_groups ep)} \<union> lc_key ` set (ep_labels ep)"
    by (auto simp: named_key_list_def image_iff)
  ultimately show ?thesis by (auto simp: named_keys_def)
qed

lemma matched_keys_set:
  "set (matched_keys t n allowed) = {k. \<exists>v. (n, k, v) \<in> set (t_label_members t) \<and> (k, v) \<in> set allowed}"
  by (force simp: matched_keys_def simp flip: set_rows_mem)

lemma matched_keys_distinct: "tables_ok t \<Longrightarrow> distinct (matched_keys t n allowed)"
  using set_rows_distinct unfolding matched_keys_def by (rule distinct_map_filter)

lemma named_values_key: "v \<in> named_values cs gs k \<Longrightarrow> k \<in> named_keys cs gs"
  by (force simp: named_values_def named_keys_def)

lemma count_all_keys:
  assumes "distinct ks" "distinct ns" "ns \<noteq> []" "set ks \<subseteq> set ns"
  shows "ks \<noteq> [] \<and> length (nub ks) = length ns \<longleftrightarrow> set ns \<subseteq> set ks"
  using card_eq_subset [OF assms(1,4,2)] assms(3) nub_distinct [OF assms(1)] by (cases "ks = []") simp_all

lemma eval_groups_present:
  assumes p: "groups_present t hrefs ep" and gs: "ep_label_groups ep \<noteq> []"
  shows "eval_groups t i (sort (nub (ep_label_groups ep)))
      (concat (map (\<lambda>c. map (\<lambda>v. (lc_key c, v)) (lc_values c)) (ep_labels ep))) (sort (nub (map lc_key (ep_labels ep)))) \<longleftrightarrow>
    labels_part ep (set_labels t i) (label_groups_of t hrefs)"
    (is "eval_groups t i ?G ?pairs ?keys \<longleftrightarrow> _")
proof -
  let ?ks = "matched_keys t (set_number i) (allowed_pairs t ?G ?pairs)"
  let ?N = "named_key_list t ?G ?keys"
  let ?gs = "named_groups t hrefs ep"
  have ok: "tables_ok t" using p by (simp add: groups_present_def)
  note ks = matched_keys_set [of t "set_number i" "allowed_pairs t ?G ?pairs", unfolded allowed_pairs_iff [OF p]]
  note N = named_key_list_set [OF p]
  have "set ?ks \<subseteq> set ?N" unfolding ks N using named_values_key by blast
  moreover have "?N \<noteq> []"
    using N gs by (auto simp: named_keys_def named_groups_def simp flip: set_empty)
  ultimately have c: "?ks \<noteq> [] \<and> length (nub ?ks) = length ?N \<longleftrightarrow> set ?N \<subseteq> set ?ks"
    by (intro count_all_keys) (simp_all add: matched_keys_distinct [OF ok] named_key_list_def)
  have "dict_get (label_groups_of t hrefs) h \<noteq> None" if "h \<in> set (ep_label_groups ep)" for h
    using that p group_get [OF ok] by (fastforce simp: groups_present_def)
  then have l: "labels_part ep (set_labels t i) (label_groups_of t hrefs) \<longleftrightarrow>
      (\<forall>k \<in> named_keys (ep_labels ep) ?gs. \<exists>x. dict_get (set_labels t i) k = Some x \<and> x \<in> named_values (ep_labels ep) ?gs k)"
    by (simp add: labels_part_def named_groups_def)
  have "length (filter (\<lambda>(h, _). h \<in> set ?G) (t_label_groups t)) = length ?G"
    using groups_exist_count [OF ok, of "ep_label_groups ep"] p by (simp add: groups_present_def)
  then show ?thesis
    unfolding eval_groups_def Let_def c l N ks by (auto simp: set_labels_get [OF ok] subset_iff)
qed

lemma eval_groups_part:
  assumes ok: "tables_ok t" and gs: "ep_label_groups ep \<noteq> []" "set (ep_label_groups ep) \<subseteq> set hrefs"
  shows "eval_groups t i (sort (nub (ep_label_groups ep)))
      (concat (map (\<lambda>c. map (\<lambda>v. (lc_key c, v)) (lc_values c)) (ep_labels ep))) (sort (nub (map lc_key (ep_labels ep)))) \<longleftrightarrow>
    labels_part ep (set_labels t i) (label_groups_of t hrefs)"
proof (cases "groups_present t hrefs ep")
  case True
  then show ?thesis by (rule eval_groups_present) (rule gs)
next
  case False
  then obtain h where h: "h \<in> set (ep_label_groups ep)" "\<forall>k. (h, k) \<notin> set (t_label_groups t)"
    using ok gs(2) by (auto simp: groups_present_def)
  have "map_of (t_label_groups t) h = None" using h(2) by (auto simp: map_of_eq_None_iff)
  then have "dict_get (label_groups_of t hrefs) h = None" by (simp add: label_groups_get)
  with h(1) have "\<not> labels_part ep (set_labels t i) (label_groups_of t hrefs)" unfolding labels_part_def by blast
  moreover have "length (filter (\<lambda>(h, _). h \<in> set (sort (nub (ep_label_groups ep)))) (t_label_groups t)) \<noteq>
      length (sort (nub (ep_label_groups ep)))"
    using h groups_exist_count [OF ok, of "ep_label_groups ep"] by auto
  ultimately show ?thesis by (simp only: eval_groups_def simp_thms)
qed

section \<open>One endpoint\<close>

definition ep_keys_ok :: "endpoint_filter \<Rightarrow> bool" where
  "ep_keys_ok ep = (ep_label_groups ep \<noteq> [] \<or> distinct (map lc_key (ep_labels ep)))"

lemma or3_known: "None \<notin> set xs \<Longrightarrow> or3 xs = Some (Some True \<in> set xs)"
  by (simp add: or3_def)

lemma and3_known: "None \<notin> set xs \<Longrightarrow> and3 xs = Some (Some False \<notin> set xs)"
  by (simp add: and3_def)

lemma or3_map_Some: "or3 (map (\<lambda>x. Some (f x)) xs) = Some (list_ex f xs)"
  by (subst or3_known) (auto simp: list_ex_iff image_iff)

lemma and3_map_Some: "and3 (map (\<lambda>x. Some (f x)) xs) = Some (list_all f xs)"
  by (subst and3_known) (auto simp: list_all_iff image_iff)

lemma or3_append_Some: "or3 xs = Some a \<Longrightarrow> or3 ys = Some b \<Longrightarrow> or3 (xs @ ys) = Some (a \<or> b)"
  by (auto simp: or3_def split: if_splits)

lemma or3_simps [simp]: "or3 [] = Some False" "or3 [Some a] = Some a"
  by (auto simp: or3_def)

lemma named_values_single:
  "distinct (map lc_key cs) \<Longrightarrow> c \<in> set cs \<Longrightarrow> named_values cs [] (lc_key c) = set (lc_values c)"
  by (auto simp: named_values_def distinct_map dest: inj_onD)

lemma eval_labels_plain:
  assumes ok: "tables_ok t" and n: "ep_label_groups ep = []" and d: "distinct (map lc_key (ep_labels ep))"
  shows "eval t r (SqlAnd (map (\<lambda>c. SqlLabel sd (lc_key c) (lc_values c)) (ep_labels ep))) =
    Some (labels_part ep (set_labels t (row_label_set r sd)) groups)"
proof -
  have "(\<exists>x. dict_get (set_labels t i) (lc_key c) = Some x \<and> x \<in> named_values (ep_labels ep) [] (lc_key c)) \<longleftrightarrow>
      list_ex (\<lambda>(j, k', v). j = set_number i \<and> k' = lc_key c \<and> v \<in> set (lc_values c)) (t_label_members t)"
    if "c \<in> set (ep_labels ep)" for c i
    by (auto simp: named_values_single [OF d that] set_labels_get [OF ok] list_ex_iff)
  then have "labels_part ep (set_labels t i) groups \<longleftrightarrow>
      list_all (\<lambda>c. list_ex (\<lambda>(j, k', v). j = set_number i \<and> k' = lc_key c \<and> v \<in> set (lc_values c)) (t_label_members t)) (ep_labels ep)" for i
    by (simp add: labels_part_def named_keys_def n list_all_iff)
  then show ?thesis by (simp add: comp_def and3_map_Some)
qed

lemma eval_sql_labels:
  assumes "tables_ok t" "ep_keys_ok ep" "has_labels ep" "set (ep_label_groups ep) \<subseteq> set hrefs"
  shows "\<exists>c. sql_labels ep sd = [c] \<and>
    eval t r c = Some (labels_hold ep (set_labels t (row_label_set r sd)) (label_groups_of t hrefs))"
proof (cases "ep_label_groups ep = []")
  case True
  with assms show ?thesis
    by (simp only: sql_labels_def eval_labels_plain labels_hold_part) (simp add: ep_keys_ok_def has_labels_def eval_labels_plain del: eval.simps)
next
  case False
  with assms show ?thesis by (simp add: sql_labels_def eval_groups_part labels_hold_part)
qed

lemma sql_labels_none: "\<not> has_labels ep \<Longrightarrow> sql_labels ep sd = []"
  by (simp add: sql_labels_def has_labels_def)

lemma listed_nets_mem:
  assumes "set hs \<subseteq> set hrefs"
  shows "list_ex P (listed_nets hs (networks t hrefs)) \<longleftrightarrow> list_ex (\<lambda>(h, net). h \<in> set hs \<and> P net) (t_ip_list_nets t)"
proof -
  have "set (case dict_get (networks t hrefs) h of None \<Rightarrow> [] | Some ns \<Rightarrow> ns) = {n. (h, n) \<in> set (t_ip_list_nets t)}"
    if "h \<in> set hs" for h
  proof -
    have n: "{n. (h, n) \<in> set (t_ip_list_nets t)} = set (map snd (filter (\<lambda>(g, _). g = h) (t_ip_list_nets t)))" by force
    have "h \<in> set hrefs" using that assms by blast
    then show ?thesis unfolding n networks_get Let_def by (simp add: filter_empty_conv)
  qed
  then show ?thesis by (auto simp: list_ex_iff listed_nets_def)
qed

lemma eval_sql_addresses:
  assumes "set (ep_ip_lists ep) \<subseteq> set hrefs"
  shows "or3 (map (eval t r) (sql_addresses ep sd)) =
    Some (hosts_hold ep (row_href r sd) (row_ip r sd) (networks t hrefs))"
proof -
  obtain exact nets where sp: "split_ips (ep_ips ep) = (exact, nets)" by fastforce
  have "or3 (map (eval t r) (sql_addresses ep sd)) =
     Some (or_empty (row_href r sd) \<in> set (ep_hrefs ep) \<or> row_ip r sd \<in> set exact \<or>
       list_ex (ip_in_net (row_ip r sd)) nets \<or>
       list_ex (\<lambda>(h, net). h \<in> set (ep_ip_lists ep) \<and> ip_in_net (row_ip r sd) net) (t_ip_list_nets t) \<or>
       ep_public ep \<and> outside (Some (row_ip r sd)) (row_href r sd))"
    unfolding sql_addresses_def sp Let_def prod.case map_append
    by (intro or3_append_Some) (auto simp: comp_def or3_map_Some split_def list_ex_iff)
  then show ?thesis
    by (auto simp: hosts_hold_def sp Let_def listed_nets_mem [OF assms])
qed

lemma sql_addresses_none: "sql_addresses ep sd = [] \<longleftrightarrow> \<not> has_hosts ep"
proof -
  have "fst (split_ips ips) = [] \<and> snd (split_ips ips) = [] \<longleftrightarrow> ips = []" for ips
    by (cases ips) (auto simp: split_ips_def)
  then show ?thesis by (auto simp: sql_addresses_def has_hosts_def Let_def split_def)
qed

lemma row_view_side [simp]:
  "side_ip (row_view t r) sd = row_ip r sd" "side_href (row_view t r) sd = row_href r sd"
  "side_labels (row_view t r) sd = set_labels t (row_label_set r sd)"
  by (cases sd; simp add: row_view_def)+

lemma eval_sql_side:
  assumes "tables_ok t" "ep_keys_ok ep" "\<not> ep_is_empty ep" "set (ep_label_groups ep) \<subseteq> set ghrefs"
    "set (ep_ip_lists ep) \<subseteq> set lhrefs"
  shows "eval t r (sql_side ep sd) = Some (side_matches ep (row_view t r) sd (networks t lhrefs) (label_groups_of t ghrefs))"
proof -
  let ?L = "labels_hold ep (set_labels t (row_label_set r sd)) (label_groups_of t ghrefs)"
  let ?H = "hosts_hold ep (row_href r sd) (row_ip r sd) (networks t lhrefs)"
  have h: "eval t r (SqlOr (sql_addresses ep sd)) = Some ?H"
    using eval_sql_addresses [OF assms(5)] by simp
  have m: "ep_match ep = MatchAll \<or> ep_match ep = MatchAny" by (cases "ep_match ep") auto
  define d where "d = SqlOr (sql_addresses ep sd)"
  note h = h [folded d_def]
  have s: "sql_side ep sd = (let parts = sql_labels ep sd @ (if has_hosts ep then [d] else [])
      in if parts = [] then SqlOne else if ep_match ep = MatchAll then SqlAnd parts else SqlOr parts)"
    by (simp add: sql_side_def d_def Let_def sql_addresses_none)
  show ?thesis
  proof (cases "has_labels ep")
    case True
    then obtain c where c: "sql_labels ep sd = [c]" "eval t r c = Some ?L" using eval_sql_labels [OF assms(1,2) True assms(4)] by blast
    show ?thesis
      using m h True
      by (cases "has_hosts ep") (auto simp: s c Let_def side_matches_def end_matches_def and3_def or3_def)
  next
    case False
    then have "has_hosts ep" using assms(3) by (simp add: ep_is_empty_def)
    then show ?thesis
      using m h False
      by (auto simp: s sql_labels_none Let_def side_matches_def end_matches_def and3_def or3_def)
  qed
qed

section \<open>All clauses\<close>

text \<open>What \<open>PortProto\<close>'s validation leaves.\<close>

definition port_ok :: "port_proto \<Rightarrow> bool" where
  "port_ok p = (port_proto_shape p = Inr p)"

lemma port_ok_parts: "port_ok p \<Longrightarrow> (pp_port p \<noteq> None \<or> pp_proto p \<noteq> None) \<and> (pp_to_port p \<noteq> None \<longrightarrow> pp_port p \<noteq> None)"
  by (auto simp: port_ok_def port_proto_shape_def split: if_splits option.splits)

lemma eval_sql_port: "port_ok p \<Longrightarrow> eval t r (sql_port p) = Some (port_matches p (sr_port r) (sr_proto r))"
  by (drule port_ok_parts, cases "pp_proto p"; cases "pp_to_port p"; cases "pp_port p")
     (auto simp: sql_port_def port_matches_def and3_def)

lemma service_matches_each: "service_matches es port proto \<longleftrightarrow> list_ex (\<lambda>e. service_matches [e] port proto) es"
  by (simp add: service_matches_def)

lemma eval_sql_services:
  assumes "set hs \<subseteq> set hrefs"
  shows "eval t r (SqlServices hs) =
    Some (list_ex (\<lambda>h. service_matches (case dict_get (service_ports_of t hrefs) h of None \<Rightarrow> [] | Some es \<Rightarrow> es) (sr_port r) (sr_proto r)) hs)"
proof -
  have "service_matches (case dict_get (service_ports_of t hrefs) h of None \<Rightarrow> [] | Some es \<Rightarrow> es) (sr_port r) (sr_proto r) \<longleftrightarrow>
      list_ex (\<lambda>(g, p). g = h \<and> service_matches [p] (sr_port r) (sr_proto r)) (t_service_ports t)" if "h \<in> set hs" for h
  proof -
    have "h \<in> set hrefs" using that assms by blast
    then have "(case dict_get (service_ports_of t hrefs) h of None \<Rightarrow> [] | Some es \<Rightarrow> es) =
        map snd (filter (\<lambda>(g, _). g = h) (t_service_ports t))"
      unfolding service_ports_get Let_def by (simp add: filter_empty_conv)
    then show ?thesis
      by (subst service_matches_each) (auto simp: list_ex_iff)
  qed
  then show ?thesis by (fastforce simp: list_ex_iff)
qed

lemma eval_sql_service_set:
  assumes "\<forall>p \<in> set ports. port_ok p" "set services \<subseteq> set hrefs"
  shows "sql_holds t r (sql_service_set ports services negate) \<longleftrightarrow>
    ((ports \<noteq> [] \<or> services \<noteq> []) \<longrightarrow> service_set ports services (row_view t r) (service_ports_of t hrefs) \<noteq> negate)"
proof -
  have p: "map (eval t r) (map sql_port ports) = map (\<lambda>p. Some (port_matches p (sr_port r) (sr_proto r))) ports"
    using assms(1) by (simp add: eval_sql_port)
  have o: "eval t r (SqlOr (map sql_port ports @ (if services \<noteq> [] then [SqlServices services] else []))) =
      Some (service_set ports services (row_view t r) (service_ports_of t hrefs))"
    unfolding eval.simps map_append p service_set_def
    by (rule or3_append_Some, rule or3_map_Some [THEN trans])
       (auto simp: row_view_def eval_sql_services [OF assms(2)] simp del: eval.simps)
  show ?thesis
    using o by (auto simp: sql_service_set_def sql_holds_iff Let_def simp del: eval.simps(21))
qed

lemma holds_endpoint:
  assumes "tables_ok t" "\<And>e. ep = Some e \<Longrightarrow> ep_keys_ok e \<and> set (ep_label_groups e) \<subseteq> set gh \<and> set (ep_ip_lists e) \<subseteq> set lh"
  shows "sql_holds t r (sql_endpoint ep negate sd) \<longleftrightarrow>
    \<not> side_rejects ep negate (row_view t r) sd (networks t lh) (label_groups_of t gh)"
proof (cases ep)
  case None
  then show ?thesis by (simp add: sql_endpoint_def side_rejects_def sql_holds_iff)
next
  case (Some e)
  then show ?thesis
    using eval_sql_side [OF assms(1), of e gh lh r sd] assms(2) [OF Some]
    by (cases "ep_is_empty e") (auto simp: sql_endpoint_def side_rejects_def sql_holds_iff)
qed

lemma holds_either:
  assumes "tables_ok t" "\<And>e. ep = Some e \<Longrightarrow> ep_keys_ok e \<and> set (ep_label_groups e) \<subseteq> set gh \<and> set (ep_ip_lists e) \<subseteq> set lh"
  shows "sql_holds t r (sql_either ep negate) \<longleftrightarrow>
    \<not> either_rejects ep negate (row_view t r) (networks t lh) (label_groups_of t gh)"
proof (cases ep)
  case None
  then show ?thesis by (simp add: sql_either_def either_rejects_def sql_holds_iff)
next
  case (Some e)
  show ?thesis
  proof (cases "ep_is_empty e")
    case True
    then show ?thesis by (simp add: Some sql_either_def either_rejects_def sql_holds_iff)
  next
    case False
    then have "eval t r (SqlOr [sql_side e Src, sql_side e Dst]) =
        Some (side_matches e (row_view t r) Src (networks t lh) (label_groups_of t gh) \<or>
              side_matches e (row_view t r) Dst (networks t lh) (label_groups_of t gh))"
      using eval_sql_side [OF assms(1), of e gh lh r] assms(2) [OF Some] by (auto simp: or3_def)
    with False show ?thesis
      by (auto simp: Some sql_either_def either_rejects_def sql_holds_iff Let_def simp del: eval.simps(21))
  qed
qed

lemma holds_term: "sql_holds t r (sql_term c term) \<longleftrightarrow> \<not> term_rejects term (cell r c)"
  by (cases "cell r c") (auto simp: sql_term_def term_rejects_def sql_holds_iff sqlite_like_like like_def)

lemma holds_values: "sql_holds t r (sql_values e vs) \<longleftrightarrow> (vs = [] \<or> (\<exists>s. eval_exp r e = Some s \<and> s \<in> set vs))"
  by (auto simp: sql_values_def sql_holds_iff)

lemma holds_not_values: "sql_holds t r (sql_not_values e vs) \<longleftrightarrow> (vs = [] \<or> \<not> (\<exists>s. eval_exp r e = Some s \<and> s \<in> set vs))"
  by (auto simp: sql_not_values_def sql_holds_iff split: option.splits)

lemma holds_text:
  "eval t r (SqlOr (map (\<lambda>c. SqlLike c (like_pattern term)) TEXT_COLUMNS)) = Some True \<longleftrightarrow>
     list_ex (\<lambda>c. like c term) (text_columns (row_view t r))"
proof -
  have l: "eval t r (SqlLike c (like_pattern term)) = Some True \<longleftrightarrow> like (cell r c) term" for c
    by (cases "cell r c") (auto simp: sqlite_like_like like_def)
  have o: "or3 (map f cs) = Some True \<longleftrightarrow> (\<exists>c \<in> set cs. f c = Some True)" for f :: "'x \<Rightarrow> bool option" and cs
    by (auto simp: or3_def image_iff)
  have "text_columns (row_view t r) = map (cell r) TEXT_COLUMNS"
    by (simp add: TEXT_COLUMNS_def text_columns_def row_view_def)
  then show ?thesis
    by (simp add: o l list_ex_iff comp_def del: eval.simps(18))
qed

text \<open>Accounts for which Python's \<open>lower\<close> and SQLite's agree: what is qualified is ASCII.\<close>

definition ascii_account :: "string \<Rightarrow> bool" where
  "ascii_account s = ((CHR 92 \<in> set s \<or> CHR ''@'' \<in> set s) \<longrightarrow> py_lower s = ascii_lower s)"

lemma holds_users:
  assumes "\<And>s. cell r c = Some s \<Longrightarrow> ascii_account s"
  shows "sql_holds t r (sql_values (UserKey c) (map user_key vs)) \<longleftrightarrow> \<not> user_rejects vs (cell r c)"
proof (cases "cell r c")
  case None
  then show ?thesis by (simp add: holds_values user_rejects_def)
next
  case (Some s)
  then have "eval_exp r (UserKey c) = Some (user_key s)"
    using assms [OF Some] by (auto simp: user_key_def ascii_account_def)
  then show ?thesis by (auto simp: holds_values user_rejects_def Some simp del: eval_exp.simps)
qed

section \<open>The agreement\<close>

definition spec_ok :: "filter_spec \<Rightarrow> bool" where
  "spec_ok spec =
     ((\<forall>e \<in> set (endpoints spec). ep_keys_ok e) \<and>
      (\<forall>p \<in> set (fc_ports spec) \<union> set (fc_exclude_ports spec). port_ok p))"

definition row_accounts_ok :: "stored_row \<Rightarrow> bool" where
  "row_accounts_ok r =
     (\<forall>s. sr_initiator_user r = Some s \<or> sr_service_user r = Some s \<longrightarrow> ascii_account s)"

lemma ascii_lower_values: "ascii_lower (transmission_value x) = transmission_value x"
  by (cases x) (simp_all add: ascii_lower_def ascii_lower_char_def is_upper_ascii_def)

lemma endpoint_in_spec:
  assumes "e \<in> set (endpoints spec)"
  shows "set (ep_label_groups e) \<subseteq> set (label_group_hrefs spec) \<and> set (ep_ip_lists e) \<subseteq> set (ip_list_hrefs spec)"
  using assms by (auto simp: label_group_hrefs_def ip_list_hrefs_def)

lemma endpoints_mem:
  "fc_src spec = Some e \<Longrightarrow> e \<in> set (endpoints spec)" "fc_dst spec = Some e \<Longrightarrow> e \<in> set (endpoints spec)"
  "fc_src_exclude spec = Some e \<Longrightarrow> e \<in> set (endpoints spec)" "fc_dst_exclude spec = Some e \<Longrightarrow> e \<in> set (endpoints spec)"
  "fc_either spec = Some e \<Longrightarrow> e \<in> set (endpoints spec)" "fc_either_exclude spec = Some e \<Longrightarrow> e \<in> set (endpoints spec)"
  by (simp_all add: endpoints_def List.map_filter_def)

lemma matches_parts:
  "matches spec v nets groups known \<longleftrightarrow>
     v_is_primary v = 1 \<and> fs_start spec \<le> v_last v \<and> v_first v \<le> fs_end spec \<and>
     \<not> side_rejects (fc_src spec) False v Src nets groups \<and> \<not> side_rejects (fc_dst spec) False v Dst nets groups \<and>
     \<not> side_rejects (fc_src_exclude spec) True v Src nets groups \<and>
     \<not> side_rejects (fc_dst_exclude spec) True v Dst nets groups \<and>
     \<not> either_rejects (fc_either spec) False v nets groups \<and> \<not> either_rejects (fc_either_exclude spec) True v nets groups \<and>
     ((fc_ports spec \<noteq> [] \<or> fc_services spec \<noteq> []) \<longrightarrow>
        service_set (fc_ports spec) (fc_services spec) v known \<noteq> False) \<and>
     ((fc_exclude_ports spec \<noteq> [] \<or> fc_exclude_services spec \<noteq> []) \<longrightarrow>
        service_set (fc_exclude_ports spec) (fc_exclude_services spec) v known \<noteq> True) \<and>
     (fc_windows_services spec = [] \<or> in_ci (v_windows_service v) (fc_windows_services spec)) \<and>
     (fc_exclude_windows_services spec = [] \<or> \<not> in_ci (v_windows_service v) (fc_exclude_windows_services spec)) \<and>
     (fc_transmissions spec = [] \<or> in_ci (v_transmission v) (map transmission_value (fc_transmissions spec))) \<and>
     (fc_exclude_transmissions spec = [] \<or>
        \<not> in_ci (v_transmission v) (map transmission_value (fc_exclude_transmissions spec))) \<and>
     (fc_exclude_processes spec = [] \<or> \<not> in_opt (v_initiator_process v) (fc_exclude_processes spec) \<and>
        \<not> in_opt (v_service_process v) (fc_exclude_processes spec)) \<and>
     (fc_decisions spec = [] \<or> v_policy_decision v \<in> set (map policy_decision_value (fc_decisions spec))) \<and>
     \<not> term_rejects (fc_initiator_process spec) (v_initiator_process v) \<and>
     \<not> process_rejects (fc_initiator_processes spec) (v_initiator_process v) \<and>
     \<not> term_rejects (fc_initiator_user spec) (v_initiator_user v) \<and>
     \<not> user_rejects (fc_initiator_users spec) (v_initiator_user v) \<and>
     \<not> term_rejects (fc_service_process spec) (v_service_process v) \<and>
     \<not> process_rejects (fc_service_processes spec) (v_service_process v) \<and>
     \<not> term_rejects (fc_service_user spec) (v_service_user v) \<and>
     \<not> user_rejects (fc_service_users spec) (v_service_user v) \<and>
     (truthy_str (fc_text spec) \<longrightarrow> list_ex (\<lambda>c. like c (or_empty (fc_text spec))) (text_columns v)) \<and>
     (fc_exclude_system_accounts spec \<longrightarrow> \<not> is_system_account (v_initiator_user v))"
proof -
  have "(if A then False else B) \<longleftrightarrow> \<not> A \<and> B" for A B by simp
  then show ?thesis
    by (simp only: matches_def not_less de_Morgan_conj de_Morgan_disj not_not imp_conv_disj conj_assoc simp_thms)
qed

lemma holds_basic:
  "sql_holds t r [SqlPrimary, SqlLastFrom wide a, SqlFirstTo b] \<longleftrightarrow>
     v_is_primary (row_view t r) = 1 \<and> a \<le> v_last (row_view t r) \<and> v_first (row_view t r) \<le> b"
  by (auto simp: sql_holds_iff row_view_def)

lemma holds_lower:
  "sql_holds t r (sql_values (Lower WindowsServiceCol) (map ascii_lower vs)) \<longleftrightarrow> (vs = [] \<or> in_ci (v_windows_service (row_view t r)) vs)"
  "sql_holds t r (sql_not_values (Lower WindowsServiceCol) (map ascii_lower vs)) \<longleftrightarrow>
     (vs = [] \<or> \<not> in_ci (v_windows_service (row_view t r)) vs)"
  "sql_holds t r (sql_values (Lower TransmissionCol) (map transmission_value xs)) \<longleftrightarrow>
     (xs = [] \<or> in_ci (v_transmission (row_view t r)) (map transmission_value xs))"
  "sql_holds t r (sql_not_values (Lower TransmissionCol) (map transmission_value xs)) \<longleftrightarrow>
     (xs = [] \<or> \<not> in_ci (v_transmission (row_view t r)) (map transmission_value xs))"
  by (auto simp: holds_values holds_not_values in_ci_def row_view_def ascii_lower_values image_image split: option.splits)

lemma holds_processes:
  "sql_holds t r (sql_not_values (Col InitiatorProcess) vs) \<longleftrightarrow> (vs = [] \<or> \<not> in_opt (v_initiator_process (row_view t r)) vs)"
  "sql_holds t r (sql_not_values (Col ServiceProcess) vs) \<longleftrightarrow> (vs = [] \<or> \<not> in_opt (v_service_process (row_view t r)) vs)"
  "sql_holds t r (sql_values (Col InitiatorProcess) vs) \<longleftrightarrow> \<not> process_rejects vs (v_initiator_process (row_view t r))"
  "sql_holds t r (sql_values (Col ServiceProcess) vs) \<longleftrightarrow> \<not> process_rejects vs (v_service_process (row_view t r))"
  "sql_holds t r (sql_values (Col PolicyDecisionCol) (map policy_decision_value ds)) \<longleftrightarrow>
     (ds = [] \<or> v_policy_decision (row_view t r) \<in> set (map policy_decision_value ds))"
  by (auto simp: holds_values holds_not_values in_opt_def process_rejects_def row_view_def split: option.splits)

lemma holds_terms:
  "sql_holds t r (sql_term InitiatorProcess x) \<longleftrightarrow> \<not> term_rejects x (v_initiator_process (row_view t r))"
  "sql_holds t r (sql_term InitiatorUser x) \<longleftrightarrow> \<not> term_rejects x (v_initiator_user (row_view t r))"
  "sql_holds t r (sql_term ServiceProcess x) \<longleftrightarrow> \<not> term_rejects x (v_service_process (row_view t r))"
  "sql_holds t r (sql_term ServiceUser x) \<longleftrightarrow> \<not> term_rejects x (v_service_user (row_view t r))"
  by (simp_all add: holds_term row_view_def)

lemma holds_user_sets:
  assumes "row_accounts_ok r"
  shows "sql_holds t r (sql_values (UserKey InitiatorUser) (map user_key vs)) \<longleftrightarrow> \<not> user_rejects vs (v_initiator_user (row_view t r))"
    and "sql_holds t r (sql_values (UserKey ServiceUser) (map user_key vs)) \<longleftrightarrow> \<not> user_rejects vs (v_service_user (row_view t r))"
  using assms by (subst holds_users; auto simp: row_accounts_ok_def row_view_def)+

lemma holds_last:
  "sql_holds t r (if truthy_str x then [SqlOr (map (\<lambda>c. SqlLike c (like_pattern (or_empty x))) TEXT_COLUMNS)] else []) \<longleftrightarrow>
     (truthy_str x \<longrightarrow> list_ex (\<lambda>c. like c (or_empty x)) (text_columns (row_view t r)))"
  "sql_holds t r (if b then [SqlNotSystem] else []) \<longleftrightarrow> (b \<longrightarrow> \<not> is_system_account (v_initiator_user (row_view t r)))"
  using holds_text [of t r "or_empty x"] by (simp_all add: sql_holds_iff row_view_def del: eval.simps(21))

lemmas clause_meanings = holds_basic holds_lower holds_processes holds_terms holds_last

lemma to_sql_matches_gen:
  assumes ok: "tables_ok t" "spec_ok spec" "row_accounts_ok r"
  shows "sql_holds t r (to_sql wide spec) \<longleftrightarrow>
    matches spec (row_view t r) (networks t (ip_list_hrefs spec)) (label_groups_of t (label_group_hrefs spec))
      (service_ports_of t (service_hrefs spec))"
proof -
  have e: "ep_keys_ok e \<and> set (ep_label_groups e) \<subseteq> set (label_group_hrefs spec) \<and>
      set (ep_ip_lists e) \<subseteq> set (ip_list_hrefs spec)" if "e \<in> set (endpoints spec)" for e
    using endpoint_in_spec [OF that] that ok(2) by (simp add: spec_ok_def)
  note side = holds_endpoint [OF ok(1), of _ "label_group_hrefs spec" "ip_list_hrefs spec"]
    and both = holds_either [OF ok(1), of _ "label_group_hrefs spec" "ip_list_hrefs spec"]
  have s: "set (fc_services spec) \<subseteq> set (service_hrefs spec)" "set (fc_exclude_services spec) \<subseteq> set (service_hrefs spec)"
    "\<forall>p \<in> set (fc_ports spec). port_ok p" "\<forall>p \<in> set (fc_exclude_ports spec). port_ok p"
    using ok(2) by (auto simp: service_hrefs_def spec_ok_def)
  note services = eval_sql_service_set [OF s(3,1)] eval_sql_service_set [OF s(4,2)]
  note ends = side [OF e, OF endpoints_mem(1)] side [OF e, OF endpoints_mem(2)] side [OF e, OF endpoints_mem(3)]
    side [OF e, OF endpoints_mem(4)] both [OF e, OF endpoints_mem(5)] both [OF e, OF endpoints_mem(6)]
  show ?thesis
    unfolding to_sql_def sql_holds_append matches_parts
    by (simp only: ends services clause_meanings holds_user_sets [OF ok(3)] conj_assoc disj_conj_distribL)
qed

section \<open>Properties\<close>

text \<open>C1. \<open>to_sql\<close> and \<open>matches\<close> agree: the WHERE clause keeps a stored row exactly when the test of the
  row's fields accepts it, with the IP lists, label groups and services the store's readers give,
  for every accepted specification whose endpoints name each label key once (or use groups) and
  whose rows' domain accounts are ASCII.\<close>

theorem to_sql_agrees_with_matches:
  assumes "tables_ok t" "spec_ok spec" "row_accounts_ok r"
  shows "sql_holds t r (to_sql wide spec) \<longleftrightarrow>
    matches spec (row_view t r) (networks t (ip_list_hrefs spec)) (label_groups_of t (label_group_hrefs spec))
      (service_ports_of t (service_hrefs spec))"
  using assms by (rule to_sql_matches_gen)

definition example_row :: stored_row where
  "example_row =
     \<lparr> sr_is_primary = 1, sr_src_ip = ''10.0.0.1'', sr_dst_ip = ''10.0.0.2'', sr_src_href = None, sr_dst_href = None,
       sr_src_hostname = Some ''web1'', sr_dst_hostname = None, sr_src_label_set = Some 1, sr_dst_label_set = None,
       sr_port = Some 445, sr_proto = 6, sr_policy_decision = ''allowed'', sr_initiator_process = None,
       sr_initiator_user = Some ''svc'', sr_service_process = None, sr_service_user = None, sr_windows_service = None,
       sr_transmission = None, sr_first = 2000000, sr_last = 3000000 \<rparr>"

definition example_tables :: flow_tables where
  "example_tables = snd (label_set_id [(''env'', ''prod'')] empty_tables)"

definition example_spec :: "label_cond list \<Rightarrow> filter_spec" where
  "example_spec labels = flow_condition.extend (any_flow \<lparr> fc_src := Some (any_endpoint \<lparr> ep_labels := labels \<rparr>) \<rparr>)
     (filter_spec.fields 1000000 9000000)"

theorem to_sql_agrees_with_matches_witness:
  "sql_holds example_tables example_row (to_sql False (example_spec [\<lparr> lc_key = ''env'', lc_values = [''prod''] \<rparr>]))"
proof -
  let ?spec = "example_spec [\<lparr> lc_key = ''env'', lc_values = [''prod''] \<rparr>]"
  have "tables_ok example_tables"
    unfolding example_tables_def by (rule label_set_id_tables_ok) (simp add: tables_ok_def empty_tables_def)
  moreover have "spec_ok ?spec" by code_simp
  moreover have "row_accounts_ok example_row"
    by (simp add: row_accounts_ok_def example_row_def ascii_account_def)
  moreover have "matches ?spec (row_view example_tables example_row) (networks example_tables (ip_list_hrefs ?spec))
      (label_groups_of example_tables (label_group_hrefs ?spec)) (service_ports_of example_tables (service_hrefs ?spec))"
    by code_simp
  ultimately show ?thesis using to_sql_agrees_with_matches by blast
qed

text \<open>The condition on label keys is needed: two conditions on one label key are a union for
  \<open>matches\<close> and an intersection for \<open>to_sql\<close>. A specification every check of \<open>FilterSpec\<close> accepts
  matches a stored row that its WHERE clause leaves out.\<close>

lemma repeated_label_key_disagrees:
  "let spec = example_spec [\<lparr> lc_key = ''env'', lc_values = [''prod''] \<rparr>, \<lparr> lc_key = ''env'', lc_values = [''dev''] \<rparr>]
   in matches spec (row_view example_tables example_row) [] [] [] \<and>
      \<not> sql_holds example_tables example_row (to_sql False spec)"
  by code_simp

text \<open>So is the one on accounts: a domain account with a capital beyond ASCII is found by \<open>matches\<close>
  whatever its case, and not by \<open>to_sql\<close>, which lower-cases it differently on the two sides.\<close>

lemma non_ascii_account_disagrees:
  "let spec = (example_spec []) \<lparr> fc_initiator_users := [[CHR ''D'', CHR 92, CHR 0xDC]] \<rparr>;
       row = example_row \<lparr> sr_initiator_user := Some [CHR ''D'', CHR 92, CHR 0xDC] \<rparr>
   in matches spec (row_view example_tables row) [] [] [] \<and> \<not> sql_holds example_tables row (to_sql False spec)"
  by code_simp

end
