(* ===== verification/FilterPce.thy ===== *)
theory FilterPce
  imports SqlAgree
begin

text \<open>
  \<open>to_pce_payload\<close>: what of a filter goes into the PCE's traffic query, and the residual the caller
  applies record by record. How the PCE answers a query is not in the repository: it is a
  parameter (\<open>answers\<close>, with what it reads of a label, workload, address or service as
  \<open>has_actor\<close> and \<open>has_service\<close>), and \<open>documented_pce\<close> states what the code relies on: an
  include list is a union of groups, a group holds when all its actors hold, an excluded actor
  leaves the flow out, an empty list restricts nothing.
\<close>

datatype actor = LabelActor string | WorkloadActor string | AddressActor string

record pce_payload =
  pl_query_name :: string
  pl_start_date :: string
  pl_end_date :: string
  pl_policy_decisions :: "string list"
  pl_max_results :: int
  pl_src_include :: "actor list list"
  pl_src_exclude :: "actor list"
  pl_dst_include :: "actor list list"
  pl_dst_exclude :: "actor list"
  pl_svc_include :: "(string \<times> int) list list"
  pl_svc_exclude :: "(string \<times> int) list list"

text \<open>\<open>replace(microsecond=0).strftime("%Y-%m-%dT%H:%M:%SZ")\<close>\<close>

definition pce_time :: "time \<Rightarrow> string" where
  "pce_time t = date_text t @ ''T'' @ clock_text t @ ''Z''"

type_synonym label_hrefs = "string \<times> string \<Rightarrow> string option"

definition cond_hrefs :: "label_hrefs \<Rightarrow> label_cond \<Rightarrow> actor list option" where
  "cond_hrefs hrefs c =
     map_option (map LabelActor) (sequence_opt (map (\<lambda>v. hrefs (lc_key c, v)) (lc_values c)))"

definition pce_side :: "endpoint_filter option \<Rightarrow> label_hrefs \<Rightarrow> actor list list option" where
  "pce_side ep hrefs =
     (case ep of
        None \<Rightarrow> Some [[]]
      | Some e \<Rightarrow>
          (if ep_is_empty e then Some [[]]
           else if intersects e then None
           else let (exact, nets) = split_ips (ep_ips e) in
             if nets \<noteq> [] \<or> ep_public e \<or> ep_ip_lists e \<noteq> [] \<or> ep_label_groups e \<noteq> [] then None
             else map_option (\<lambda>labels. labels @ map (\<lambda>h. [WorkloadActor h]) (ep_hrefs e) @ map (\<lambda>ip. [AddressActor ip]) exact)
               (if ep_labels e = [] then Some []
                else map_option product_lists (sequence_opt (map (cond_hrefs hrefs) (ep_labels e))))))"

definition pce_exclude :: "endpoint_filter option \<Rightarrow> label_hrefs \<Rightarrow> actor list" where
  "pce_exclude ep hrefs =
     (case ep of
        None \<Rightarrow> []
      | Some e \<Rightarrow>
          (if intersects e then []
           else (case ep_labels e of
                   [c] \<Rightarrow> (if ep_label_groups e = []
                           then map LabelActor (List.map_filter (\<lambda>v. str_or_none (hrefs (lc_key c, v))) (lc_values c)) else [])
                 | _ \<Rightarrow> []) @
             map WorkloadActor (ep_hrefs e) @ map AddressActor (fst (split_ips (ep_ips e)))))"

definition pce_port :: "port_proto \<Rightarrow> (string \<times> int) list" where
  "pce_port p =
     (case pp_port p of None \<Rightarrow> [] | Some n \<Rightarrow> [(''port'', n)]) @
     (case pp_to_port p of None \<Rightarrow> [] | Some n \<Rightarrow> [(''to_port'', n)]) @
     (case pp_proto p of None \<Rightarrow> [] | Some n \<Rightarrow> [(''proto'', n)])"

definition no_port :: "port_proto \<Rightarrow> bool" where
  "no_port p = (pp_port p = Some (- 1))"

definition to_pce_payload :: "filter_spec \<Rightarrow> int \<Rightarrow> string \<Rightarrow> label_hrefs \<Rightarrow> pce_payload \<times> filter_spec" where
  "to_pce_payload spec max_results query_name hrefs =
     (let src_inc = pce_side (fc_src spec) hrefs;
          dst_inc = pce_side (fc_dst spec) hrefs;
          noport_in = list_ex no_port (fc_ports spec) \<or> fc_services spec \<noteq> [];
          noport_ex = list_ex no_port (fc_exclude_ports spec)
      in (\<lparr> pl_query_name = query_name, pl_start_date = pce_time (fs_start spec), pl_end_date = pce_time (fs_end spec),
            pl_policy_decisions = map policy_decision_value (fc_decisions spec), pl_max_results = max_results,
            pl_src_include = (case src_inc of None \<Rightarrow> [[]] | Some gs \<Rightarrow> gs),
            pl_src_exclude = pce_exclude (fc_src_exclude spec) hrefs,
            pl_dst_include = (case dst_inc of None \<Rightarrow> [[]] | Some gs \<Rightarrow> gs),
            pl_dst_exclude = pce_exclude (fc_dst_exclude spec) hrefs,
            pl_svc_include = (if noport_in then [] else map pce_port (fc_ports spec)),
            pl_svc_exclude = (if noport_ex then [] else map pce_port (fc_exclude_ports spec)) \<rparr>,
          spec \<lparr> fc_src := (if src_inc = None then fc_src spec else None),
                 fc_dst := (if dst_inc = None then fc_dst spec else None),
                 fc_ports := (if noport_in then fc_ports spec else []),
                 fc_exclude_ports := (if noport_ex then fc_exclude_ports spec else []),
                 fc_decisions := [] \<rparr>))"

section \<open>What the PCE is relied on for\<close>

type_synonym has_actor = "actor \<Rightarrow> flow_view \<Rightarrow> side \<Rightarrow> bool"
type_synonym has_service = "(string \<times> int) list \<Rightarrow> flow_view \<Rightarrow> bool"

definition group_holds :: "has_actor \<Rightarrow> flow_view \<Rightarrow> side \<Rightarrow> actor list \<Rightarrow> bool" where
  "group_holds has v sd g = (\<forall>a \<in> set g. has a v sd)"

text \<open>The answer to a query for one flow in the query's dates.\<close>

definition documented_query :: "has_actor \<Rightarrow> has_service \<Rightarrow> pce_payload \<Rightarrow> flow_view \<Rightarrow> bool" where
  "documented_query has svc p v =
     ((\<exists>g \<in> set (pl_src_include p). group_holds has v Src g) \<and> (\<exists>g \<in> set (pl_dst_include p). group_holds has v Dst g) \<and>
      (\<forall>a \<in> set (pl_src_exclude p). \<not> has a v Src) \<and> (\<forall>a \<in> set (pl_dst_exclude p). \<not> has a v Dst) \<and>
      (pl_svc_include p = [] \<or> (\<exists>d \<in> set (pl_svc_include p). svc d v)) \<and> (\<forall>d \<in> set (pl_svc_exclude p). \<not> svc d v) \<and>
      (pl_policy_decisions p = [] \<or> v_policy_decision v \<in> set (pl_policy_decisions p)))"

text \<open>The hypotheses: the PCE answers by that, a label's href stands for its key and value, a workload's
  for itself, an address for itself, and a service entry for its ports.\<close>

definition documented_pce ::
  "(pce_payload \<Rightarrow> flow_view \<Rightarrow> bool) \<Rightarrow> has_actor \<Rightarrow> has_service \<Rightarrow> label_hrefs \<Rightarrow> bool" where
  "documented_pce answers has svc hrefs =
     ((\<forall>p v. answers p v = documented_query has svc p v) \<and>
      (\<forall>k x h v sd. hrefs (k, x) = Some h \<longrightarrow> has (LabelActor h) v sd = (dict_get (side_labels v sd) k = Some x)) \<and>
      (\<forall>h v sd. h \<noteq> '''' \<longrightarrow> has (WorkloadActor h) v sd = (side_href v sd = Some h)) \<and>
      (\<forall>ip v sd. has (AddressActor ip) v sd = (side_ip v sd = ip)) \<and>
      (\<forall>p v. \<not> no_port p \<longrightarrow> svc (pce_port p) v = port_matches p (v_port v) (v_proto v)))"

lemma product_lists_all:
  "(\<exists>xs \<in> set (product_lists xss). \<forall>x \<in> set xs. P x) \<longleftrightarrow> (\<forall>xs \<in> set xss. \<exists>x \<in> set xs. P x)"
proof (induction xss)
  case Nil
  then show ?case by simp
next
  case (Cons ys xss)
  have "(\<exists>xs \<in> set (product_lists (ys # xss)). \<forall>x \<in> set xs. P x) \<longleftrightarrow>
      (\<exists>y \<in> set ys. P y) \<and> (\<exists>xs \<in> set (product_lists xss). \<forall>x \<in> set xs. P x)"
    by auto
  with Cons.IH show ?case by simp
qed

lemma sequence_opt_None: "sequence_opt xs = None \<longleftrightarrow> None \<in> set xs"
  by (induction xs rule: sequence_opt.induct) auto

section \<open>One side\<close>

definition hrefs_ok :: "endpoint_filter \<Rightarrow> bool" where
  "hrefs_ok e = ('''' \<notin> set (ep_hrefs e))"

lemma pce_actors:
  assumes "documented_pce answers has svc hrefs"
  shows "hrefs (k, x) = Some h \<Longrightarrow> has (LabelActor h) v sd \<longleftrightarrow> dict_get (side_labels v sd) k = Some x"
    and "h \<noteq> '''' \<Longrightarrow> has (WorkloadActor h) v sd \<longleftrightarrow> or_empty (side_href v sd) = h"
    and "has (AddressActor ip) v sd \<longleftrightarrow> side_ip v sd = ip"
    and "\<not> no_port p \<Longrightarrow> svc (pce_port p) v \<longleftrightarrow> port_matches p (v_port v) (v_proto v)"
    and "answers pl v \<longleftrightarrow> documented_query has svc pl v"
  using assms by (auto simp: documented_pce_def or_empty_def split: option.splits)

lemma cond_hrefs_holds:
  assumes pce: "documented_pce answers has svc hrefs" and c: "cond_hrefs hrefs c = Some xs"
  shows "(\<exists>a \<in> set xs. has a v sd) \<longleftrightarrow> (\<exists>x. dict_get (side_labels v sd) (lc_key c) = Some x \<and> x \<in> set (lc_values c))"
proof -
  obtain hs where hs: "sequence_opt (map (\<lambda>v. hrefs (lc_key c, v)) (lc_values c)) = Some hs" "xs = map LabelActor hs"
    using c by (auto simp: cond_hrefs_def)
  from sequence_opt_Some [OF hs(1)] have m: "map (\<lambda>v. hrefs (lc_key c, v)) (lc_values c) = map Some hs" .
  have "list_all2 (\<lambda>x h. hrefs (lc_key c, x) = Some h) (lc_values c) hs"
    using m by (simp add: list_all2_conv_all_nth list_eq_iff_nth_eq)
  then have "(\<exists>h \<in> set hs. has (LabelActor h) v sd) \<longleftrightarrow>
      (\<exists>x \<in> set (lc_values c). dict_get (side_labels v sd) (lc_key c) = Some x)"
    by (induction rule: list_all2_induct) (simp_all add: pce_actors(1) [OF pce])
  then show ?thesis by (auto simp: hs(2))
qed

lemma split_ips_hosts:
  "snd (split_ips ips) = [] \<Longrightarrow> fst (split_ips ips) = ips"
  by (induction ips) (auto simp: split_ips_def)

lemma labels_part_plain:
  assumes "ep_label_groups e = []" "distinct (map lc_key (ep_labels e))"
  shows "labels_part e labels groups \<longleftrightarrow>
    (\<forall>c \<in> set (ep_labels e). \<exists>x. dict_get labels (lc_key c) = Some x \<and> x \<in> set (lc_values c))"
  using named_values_single [OF assms(2)] by (simp add: labels_part_def named_keys_def assms(1))

lemma label_groups_hold:
  assumes pce: "documented_pce answers has svc hrefs" and k: "distinct (map lc_key (ep_labels e))" "ep_label_groups e = []"
    and g: "sequence_opt (map (cond_hrefs hrefs) (ep_labels e)) = Some xss"
  shows "(\<exists>g \<in> set (product_lists xss). group_holds has v sd g) \<longleftrightarrow> labels_hold e (side_labels v sd) groups"
proof -
  have "map (cond_hrefs hrefs) (ep_labels e) = map Some xss" by (rule sequence_opt_Some [OF g])
  then have "list_all2 (\<lambda>c xs. cond_hrefs hrefs c = Some xs) (ep_labels e) xss"
    by (simp add: list_all2_conv_all_nth list_eq_iff_nth_eq)
  then have "(\<forall>xs \<in> set xss. \<exists>a \<in> set xs. has a v sd) \<longleftrightarrow>
      (\<forall>c \<in> set (ep_labels e). \<exists>x. dict_get (side_labels v sd) (lc_key c) = Some x \<and> x \<in> set (lc_values c))"
    by (induction rule: list_all2_induct) (simp_all add: cond_hrefs_holds [OF pce])
  then show ?thesis
    by (simp add: group_holds_def product_lists_all labels_hold_part labels_part_plain [OF k(2,1)])
qed

lemma pce_side_holds:
  assumes pce: "documented_pce answers has svc hrefs" and s: "pce_side ep hrefs = Some gs"
    and e: "\<And>e. ep = Some e \<Longrightarrow> ep_keys_ok e \<and> hrefs_ok e"
  shows "(\<exists>g \<in> set gs. group_holds has v sd g) \<longleftrightarrow> \<not> side_rejects ep False v sd nets groups"
proof (cases "ep = None \<or> (\<exists>e. ep = Some e \<and> ep_is_empty e)")
  case True
  with s show ?thesis by (auto simp: pce_side_def side_rejects_def group_holds_def)
next
  case False
  then obtain e where ep: "ep = Some e" "\<not> ep_is_empty e" by auto
  obtain exact ns where sp: "split_ips (ep_ips e) = (exact, ns)" by fastforce
  from s ep sp have n: "\<not> intersects e" "ns = []" "\<not> ep_public e" "ep_ip_lists e = []" "ep_label_groups e = []"
    by (auto simp: pce_side_def split: if_splits)
  have x: "exact = ep_ips e" using split_ips_hosts [of "ep_ips e"] sp n(2) by simp
  have k: "distinct (map lc_key (ep_labels e))" using e [OF ep(1)] n(5) by (simp add: ep_keys_ok_def)
  obtain labels where labels: "gs = labels @ map (\<lambda>h. [WorkloadActor h]) (ep_hrefs e) @ map (\<lambda>ip. [AddressActor ip]) exact"
    "(ep_labels e = [] \<and> labels = []) \<or>
     (ep_labels e \<noteq> [] \<and> (\<exists>xss. sequence_opt (map (cond_hrefs hrefs) (ep_labels e)) = Some xss \<and> labels = product_lists xss))"
    using s ep sp n by (auto simp: pce_side_def split: if_splits)
  have l: "(\<exists>g \<in> set labels. group_holds has v sd g) \<longleftrightarrow> has_labels e \<and> labels_hold e (side_labels v sd) groups"
    using labels(2) label_groups_hold [OF pce k n(5)] by (auto simp: has_labels_def n(5))
  have h: "(\<exists>h \<in> set (ep_hrefs e). has (WorkloadActor h) v sd) \<or> (\<exists>ip \<in> set exact. has (AddressActor ip) v sd) \<longleftrightarrow>
      hosts_hold e (side_href v sd) (side_ip v sd) nets"
  proof -
    have "has (WorkloadActor h) v sd \<longleftrightarrow> or_empty (side_href v sd) = h" if "h \<in> set (ep_hrefs e)" for h
      by (rule pce_actors(2) [OF pce]) (use that e [OF ep(1)] in \<open>auto simp: hrefs_ok_def\<close>)
    then show ?thesis
      by (auto simp: pce_actors(3) [OF pce] hosts_hold_def sp n listed_nets_def)
  qed
  have "(\<exists>g \<in> set gs. group_holds has v sd g) \<longleftrightarrow>
      (has_labels e \<and> labels_hold e (side_labels v sd) groups) \<or> hosts_hold e (side_href v sd) (side_ip v sd) nets"
    unfolding l [symmetric] h [symmetric] by (simp add: labels(1) group_holds_def bex_Un)
  also have "\<dots> \<longleftrightarrow> side_matches e v sd nets groups"
  proof -
    have "\<not> has_hosts e \<Longrightarrow> \<not> hosts_hold e (side_href v sd) (side_ip v sd) nets"
      by (auto simp: has_hosts_def hosts_hold_def split_ips_def listed_nets_def)
    then show ?thesis
      using n(1) ep(2) by (cases "ep_match e") (auto simp: side_matches_def end_matches_def intersects_def ep_is_empty_def)
  qed
  finally show ?thesis using ep by (simp add: side_rejects_def)
qed

lemma map_filter_mem: "y \<in> set (List.map_filter f xs) \<longleftrightarrow> (\<exists>x \<in> set xs. f x = Some y)"
  by (induction xs) (auto simp: List.map_filter_simps split: option.splits)

lemma str_or_none_Some: "str_or_none x = Some y \<longleftrightarrow> x = Some y \<and> y \<noteq> ''''"
  by (cases x) auto

lemma pce_exclude_mem:
  assumes "a \<in> set (pce_exclude (Some e) hrefs)"
  obtains (label) c x h where "ep_labels e = [c]" "ep_label_groups e = []" "x \<in> set (lc_values c)"
      "hrefs (lc_key c, x) = Some h" "a = LabelActor h" "\<not> intersects e"
    | (host) h where "h \<in> set (ep_hrefs e)" "a = WorkloadActor h" "\<not> intersects e"
    | (ip) ip where "ip \<in> set (fst (split_ips (ep_ips e)))" "a = AddressActor ip" "\<not> intersects e"
  using assms
  by (auto simp: pce_exclude_def map_filter_mem str_or_none_Some split: list.splits if_splits)

lemma pce_exclude_holds:
  assumes pce: "documented_pce answers has svc hrefs"
    and e: "\<And>e. ep = Some e \<Longrightarrow> hrefs_ok e"
    and n: "\<not> side_rejects ep True v sd nets groups"
    and a: "a \<in> set (pce_exclude ep hrefs)"
  shows "\<not> has a v sd"
proof -
  obtain e where ep1: "ep = Some e" using a by (auto simp: pce_exclude_def split: option.splits)
  have a': "a \<in> set (pce_exclude (Some e) hrefs)" using a ep1 by simp
  have ep: "ep = Some e" "\<not> intersects e" using ep1 a' by (auto elim: pce_exclude_mem)
  obtain exact ns where sp: "split_ips (ep_ips e) = (exact, ns)" by fastforce
  have hold: "side_matches e v sd nets groups"
    if "has_labels e \<and> labels_hold e (side_labels v sd) groups \<or> has_hosts e \<and> hosts_hold e (side_href v sd) (side_ip v sd) nets"
    using that ep(2) by (cases "ep_match e") (auto simp: side_matches_def end_matches_def intersects_def)
  have no: "\<not> (has_labels e \<and> labels_hold e (side_labels v sd) groups)"
    "\<not> (has_hosts e \<and> hosts_hold e (side_href v sd) (side_ip v sd) nets)"
    using hold n ep(1) by (auto simp: side_rejects_def ep_is_empty_def)
  show ?thesis
  using a'
  proof (cases rule: pce_exclude_mem)
    case (label c x h)
    have "labels_hold e (side_labels v sd) groups" if "dict_get (side_labels v sd) (lc_key c) = Some x"
      using that label by (auto simp: labels_hold_part labels_part_def named_keys_def named_values_def)
    with no(1) label show ?thesis by (auto simp: pce_actors(1) [OF pce] has_labels_def)
  next
    case (host h)
    then have "h \<noteq> ''''" using e [OF ep(1)] by (auto simp: hrefs_ok_def)
    with no(2) host show ?thesis by (auto simp: pce_actors(2) [OF pce] has_hosts_def hosts_hold_def sp)
  next
    case (ip ip)
    then have "ep_ips e \<noteq> []" by (auto simp: split_ips_def)
    with no(2) ip show ?thesis by (auto simp: pce_actors(3) [OF pce] has_hosts_def hosts_hold_def sp)
  qed
qed

section \<open>The payload and the residual together are the filter\<close>

lemma residual_fields:
  fixes spec :: filter_spec
  assumes "to_pce_payload spec n q hrefs = (pl, rs)"
  shows "fc_src rs = (if pce_side (fc_src spec) hrefs = None then fc_src spec else None)"
    and "fc_dst rs = (if pce_side (fc_dst spec) hrefs = None then fc_dst spec else None)"
    and "fc_ports rs = (if list_ex no_port (fc_ports spec) \<or> fc_services spec \<noteq> [] then fc_ports spec else [])"
    and "fc_exclude_ports rs = (if list_ex no_port (fc_exclude_ports spec) then fc_exclude_ports spec else [])"
    and "fc_decisions rs = []"
    and "matches rs v nets groups known \<longleftrightarrow>
      matches (spec \<lparr> fc_src := fc_src rs, fc_dst := fc_dst rs, fc_ports := fc_ports rs,
        fc_exclude_ports := fc_exclude_ports rs, fc_decisions := [] \<rparr>) v nets groups known"
  using assms by (auto simp: to_pce_payload_def Let_def)

lemma payload_fields:
  fixes spec :: filter_spec
  assumes "to_pce_payload spec n q hrefs = (pl, rs)"
  shows "pl_src_include pl = (case pce_side (fc_src spec) hrefs of None \<Rightarrow> [[]] | Some gs \<Rightarrow> gs)"
    and "pl_dst_include pl = (case pce_side (fc_dst spec) hrefs of None \<Rightarrow> [[]] | Some gs \<Rightarrow> gs)"
    and "pl_src_exclude pl = pce_exclude (fc_src_exclude spec) hrefs"
    and "pl_dst_exclude pl = pce_exclude (fc_dst_exclude spec) hrefs"
    and "pl_svc_include pl = (if list_ex no_port (fc_ports spec) \<or> fc_services spec \<noteq> [] then [] else map pce_port (fc_ports spec))"
    and "pl_svc_exclude pl = (if list_ex no_port (fc_exclude_ports spec) then [] else map pce_port (fc_exclude_ports spec))"
    and "pl_policy_decisions pl = map policy_decision_value (fc_decisions spec)"
  using assms by (auto simp: to_pce_payload_def Let_def)

lemma include_split:
  assumes pce: "documented_pce answers has svc hrefs" and e: "\<And>e. ep = Some e \<Longrightarrow> ep_keys_ok e \<and> hrefs_ok e"
  shows "(\<exists>g \<in> set (case pce_side ep hrefs of None \<Rightarrow> [[]] | Some gs \<Rightarrow> gs). group_holds has v sd g) \<and>
      \<not> side_rejects (if pce_side ep hrefs = None then ep else None) False v sd nets groups \<longleftrightarrow>
    \<not> side_rejects ep False v sd nets groups"
proof (cases "pce_side ep hrefs")
  case None
  then show ?thesis by (simp add: group_holds_def)
next
  case (Some gs)
  then show ?thesis
    using pce_side_holds [OF pce Some, of v sd nets groups] e by (simp add: side_rejects_def [of None])
qed

lemma ports_split:
  assumes pce: "documented_pce answers has svc hrefs"
  shows "(list_ex no_port ps \<or> svcs \<noteq> [] \<or> ps = [] \<or> (\<exists>d \<in> set (map pce_port ps). svc d v)) \<and>
      ((if list_ex no_port ps \<or> svcs \<noteq> [] then ps else []) \<noteq> [] \<or> svcs \<noteq> [] \<longrightarrow>
         service_set (if list_ex no_port ps \<or> svcs \<noteq> [] then ps else []) svcs v known) \<longleftrightarrow>
    (ps \<noteq> [] \<or> svcs \<noteq> [] \<longrightarrow> service_set ps svcs v known)"
proof (cases "list_ex no_port ps \<or> svcs \<noteq> []")
  case True
  then show ?thesis by auto
next
  case False
  then have "svc (pce_port p) v \<longleftrightarrow> port_matches p (v_port v) (v_proto v)" if "p \<in> set ps" for p
    using that pce_actors(4) [OF pce] by (auto simp: list_ex_iff)
  with False show ?thesis by (auto simp: service_set_def list_ex_iff)
qed

lemma exclude_ports_split:
  assumes pce: "documented_pce answers has svc hrefs"
  shows "(list_ex no_port ps \<or> (\<forall>d \<in> set (map pce_port ps). \<not> svc d v)) \<and>
      ((if list_ex no_port ps then ps else []) \<noteq> [] \<or> svcs \<noteq> [] \<longrightarrow>
         \<not> service_set (if list_ex no_port ps then ps else []) svcs v known) \<longleftrightarrow>
    (ps \<noteq> [] \<or> svcs \<noteq> [] \<longrightarrow> \<not> service_set ps svcs v known)"
proof (cases "list_ex no_port ps")
  case True
  then show ?thesis by auto
next
  case False
  then have "svc (pce_port p) v \<longleftrightarrow> port_matches p (v_port v) (v_proto v)" if "p \<in> set ps" for p
    using that pce_actors(4) [OF pce] by (auto simp: list_ex_iff)
  with False show ?thesis by (auto simp: service_set_def list_ex_iff)
qed

text \<open>The parts of \<open>matches\<close> that stay in the residual.\<close>

definition local_parts :: "filter_spec \<Rightarrow> flow_view \<Rightarrow> ip_lists \<Rightarrow> label_groups \<Rightarrow> bool" where
  "local_parts spec v nets groups =
     (v_is_primary v = 1 \<and> fs_start spec \<le> v_last v \<and> v_first v \<le> fs_end spec \<and>
      \<not> side_rejects (fc_src_exclude spec) True v Src nets groups \<and>
      \<not> side_rejects (fc_dst_exclude spec) True v Dst nets groups \<and>
      \<not> either_rejects (fc_either spec) False v nets groups \<and> \<not> either_rejects (fc_either_exclude spec) True v nets groups \<and>
      (fc_windows_services spec = [] \<or> in_ci (v_windows_service v) (fc_windows_services spec)) \<and>
      (fc_exclude_windows_services spec = [] \<or> \<not> in_ci (v_windows_service v) (fc_exclude_windows_services spec)) \<and>
      (fc_transmissions spec = [] \<or> in_ci (v_transmission v) (map transmission_value (fc_transmissions spec))) \<and>
      (fc_exclude_transmissions spec = [] \<or>
         \<not> in_ci (v_transmission v) (map transmission_value (fc_exclude_transmissions spec))) \<and>
      (fc_exclude_processes spec = [] \<or> \<not> in_opt (v_initiator_process v) (fc_exclude_processes spec) \<and>
         \<not> in_opt (v_service_process v) (fc_exclude_processes spec)) \<and>
      \<not> term_rejects (fc_initiator_process spec) (v_initiator_process v) \<and>
      \<not> process_rejects (fc_initiator_processes spec) (v_initiator_process v) \<and>
      \<not> term_rejects (fc_initiator_user spec) (v_initiator_user v) \<and>
      \<not> user_rejects (fc_initiator_users spec) (v_initiator_user v) \<and>
      \<not> term_rejects (fc_service_process spec) (v_service_process v) \<and>
      \<not> process_rejects (fc_service_processes spec) (v_service_process v) \<and>
      \<not> term_rejects (fc_service_user spec) (v_service_user v) \<and>
      \<not> user_rejects (fc_service_users spec) (v_service_user v) \<and>
      (truthy_str (fc_text spec) \<longrightarrow> list_ex (\<lambda>c. like c (or_empty (fc_text spec))) (text_columns v)) \<and>
      (fc_exclude_system_accounts spec \<longrightarrow> \<not> is_system_account (v_initiator_user v)))"

lemma matches_local:
  "matches spec v nets groups known \<longleftrightarrow>
     local_parts spec v nets groups \<and>
     \<not> side_rejects (fc_src spec) False v Src nets groups \<and> \<not> side_rejects (fc_dst spec) False v Dst nets groups \<and>
     ((fc_ports spec \<noteq> [] \<or> fc_services spec \<noteq> []) \<longrightarrow> service_set (fc_ports spec) (fc_services spec) v known) \<and>
     ((fc_exclude_ports spec \<noteq> [] \<or> fc_exclude_services spec \<noteq> []) \<longrightarrow>
        \<not> service_set (fc_exclude_ports spec) (fc_exclude_services spec) v known) \<and>
     (fc_decisions spec = [] \<or> v_policy_decision v \<in> set (map policy_decision_value (fc_decisions spec)))"
proof -
  have n: "(b \<noteq> False) = b" "(b \<noteq> True) = (\<not> b)" for b by simp_all
  show ?thesis
    unfolding matches_parts local_parts_def n by (intro iffI conjI; elim conjE; assumption)
qed

lemma local_parts_update:
  "local_parts (spec \<lparr> fc_src := a, fc_dst := b, fc_ports := c, fc_exclude_ports := d, fc_decisions := e \<rparr>) v nets groups =
     local_parts spec v nets groups"
  by (simp add: local_parts_def)

lemma payload_and_residual_gen:
  fixes spec :: filter_spec
  assumes pce: "documented_pce answers has svc hrefs"
    and sp: "\<And>e. e \<in> set (endpoints spec) \<Longrightarrow> ep_keys_ok e \<and> hrefs_ok e"
    and t: "to_pce_payload spec n q hrefs = (pl, rs)"
  shows "answers pl v \<and> matches rs v nets groups known \<longleftrightarrow> matches spec v nets groups known"
proof -
  have src: "(\<exists>g \<in> set (pl_src_include pl). group_holds has v Src g) \<and> \<not> side_rejects (fc_src rs) False v Src nets groups \<longleftrightarrow>
      \<not> side_rejects (fc_src spec) False v Src nets groups"
    unfolding payload_fields(1) [OF t] residual_fields(1) [OF t]
    by (rule include_split [OF pce]) (use sp endpoints_mem(1) in blast)
  have dst: "(\<exists>g \<in> set (pl_dst_include pl). group_holds has v Dst g) \<and> \<not> side_rejects (fc_dst rs) False v Dst nets groups \<longleftrightarrow>
      \<not> side_rejects (fc_dst spec) False v Dst nets groups"
    unfolding payload_fields(2) [OF t] residual_fields(2) [OF t]
    by (rule include_split [OF pce]) (use sp endpoints_mem(2) in blast)
  have exs: "\<not> side_rejects (fc_src_exclude spec) True v Src nets groups \<Longrightarrow>
      \<forall>a \<in> set (pl_src_exclude pl). \<not> has a v Src"
    using pce_exclude_holds [OF pce, where ep = "fc_src_exclude spec" and v = v and sd = Src and nets = nets and groups = groups] sp [OF endpoints_mem(3)]
    by (auto simp: payload_fields [OF t])
  have exd: "\<not> side_rejects (fc_dst_exclude spec) True v Dst nets groups \<Longrightarrow>
      \<forall>a \<in> set (pl_dst_exclude pl). \<not> has a v Dst"
    using pce_exclude_holds [OF pce, where ep = "fc_dst_exclude spec" and v = v and sd = Dst and nets = nets and groups = groups] sp [OF endpoints_mem(4)]
    by (auto simp: payload_fields [OF t])
  have inc: "pl_svc_include pl = [] \<or> (\<exists>d \<in> set (pl_svc_include pl). svc d v) \<longleftrightarrow>
      list_ex no_port (fc_ports spec) \<or> fc_services spec \<noteq> [] \<or> fc_ports spec = [] \<or>
      (\<exists>d \<in> set (map pce_port (fc_ports spec)). svc d v)"
    by (auto simp: payload_fields [OF t])
  have exc: "(\<forall>d \<in> set (pl_svc_exclude pl). \<not> svc d v) \<longleftrightarrow>
      list_ex no_port (fc_exclude_ports spec) \<or> (\<forall>d \<in> set (map pce_port (fc_exclude_ports spec)). \<not> svc d v)"
    by (auto simp: payload_fields [OF t])
  have dec: "pl_policy_decisions pl = [] \<or> v_policy_decision v \<in> set (pl_policy_decisions pl) \<longleftrightarrow>
      fc_decisions spec = [] \<or> v_policy_decision v \<in> set (map policy_decision_value (fc_decisions spec))"
    by (auto simp: payload_fields [OF t])
  note ps = ports_split [OF pce, where ps = "fc_ports spec" and v = v and svcs = "fc_services spec" and known = known]
  note xps = exclude_ports_split [OF pce, where ps = "fc_exclude_ports spec" and v = v and svcs = "fc_exclude_services spec" and known = known]
  have a: "answers pl v \<longleftrightarrow>
      (\<exists>g \<in> set (pl_src_include pl). group_holds has v Src g) \<and> (\<exists>g \<in> set (pl_dst_include pl). group_holds has v Dst g) \<and>
      (\<forall>a \<in> set (pl_src_exclude pl). \<not> has a v Src) \<and> (\<forall>a \<in> set (pl_dst_exclude pl). \<not> has a v Dst) \<and>
      (pl_svc_include pl = [] \<or> (\<exists>d \<in> set (pl_svc_include pl). svc d v)) \<and> (\<forall>d \<in> set (pl_svc_exclude pl). \<not> svc d v) \<and>
      (pl_policy_decisions pl = [] \<or> v_policy_decision v \<in> set (pl_policy_decisions pl))"
    unfolding pce_actors(5) [OF pce] documented_query_def ..
  have m: "matches rs v nets groups known \<longleftrightarrow>
      local_parts spec v nets groups \<and>
      \<not> side_rejects (fc_src rs) False v Src nets groups \<and> \<not> side_rejects (fc_dst rs) False v Dst nets groups \<and>
      ((fc_ports rs \<noteq> [] \<or> fc_services spec \<noteq> []) \<longrightarrow> service_set (fc_ports rs) (fc_services spec) v known) \<and>
      ((fc_exclude_ports rs \<noteq> [] \<or> fc_exclude_services spec \<noteq> []) \<longrightarrow>
         \<not> service_set (fc_exclude_ports rs) (fc_exclude_services spec) v known)"
    by (subst residual_fields(6) [OF t], subst matches_local, subst local_parts_update) simp
  have lx: "local_parts spec v nets groups \<Longrightarrow> \<not> side_rejects (fc_src_exclude spec) True v Src nets groups \<and>
      \<not> side_rejects (fc_dst_exclude spec) True v Dst nets groups"
    unfolding local_parts_def by blast
  show ?thesis
    using src dst exs exd ps xps lx
    unfolding a m matches_local [of spec] inc exc dec residual_fields(3,4) [OF t] by argo
qed

section \<open>Properties\<close>


definition example_hrefs :: label_hrefs where
  "example_hrefs kv = (if kv = (''env'', ''prod'') then Some ''/labels/1'' else None)"

fun example_actor :: has_actor where
  "example_actor (LabelActor h) v sd = (h = ''/labels/1'' \<and> dict_get (side_labels v sd) ''env'' = Some ''prod'')"
| "example_actor (WorkloadActor h) v sd = (side_href v sd = Some h)"
| "example_actor (AddressActor ip) v sd = (side_ip v sd = ip)"

definition example_service :: has_service where
  "example_service d v =
     port_matches \<lparr> pp_port = map_of d ''port'', pp_to_port = map_of d ''to_port'', pp_proto = map_of d ''proto'' \<rparr>
       (v_port v) (v_proto v)"

lemma example_pce: "documented_pce (documented_query example_actor example_service) example_actor example_service example_hrefs"
proof -
  have "example_service (pce_port p) v = port_matches p (v_port v) (v_proto v)" for p v
    by (cases p) (auto simp: example_service_def pce_port_def split: option.splits)
  then show ?thesis by (auto simp: documented_pce_def example_hrefs_def split: if_splits)
qed


end
