(* ===== verification/Resolver.thy ===== *)
theory Resolver
  imports Json IpBlocks Values
begin

text \<open>
  \<open>domain/policy_resolver.py\<close>: one rule set expanded into rows of source, destination, port and
  protocol. PCE objects are JSON objects; a Python set is a list without repetitions, in the order
  its elements came in (where the code iterates over a set without sorting it, the order of the
  result is Python's own). A text field that is not text reads as absent.
\<close>

definition ANY :: string where "ANY = ''ANY''"

definition MAX_RULE_PAIRS :: int where "MAX_RULE_PAIRS = 100000"

section \<open>Protocol names\<close>

definition PROTO_NAMES :: "(int \<times> string) list" where
  "PROTO_NAMES = [(6, ''TCP''), (17, ''UDP''), (1, ''ICMP''), (58, ''ICMPv6''), (47, ''GRE''), (50, ''ESP''), (- 1, ''ANY'')]"

text \<open>\<open>int(text)\<close>: white space around, a sign, digits.\<close>

definition py_int :: "string \<Rightarrow> int option" where
  "py_int s =
     (let t = py_strip s;
          digits = (\<lambda>d. if d \<noteq> '''' \<and> list_all is_digit d then Some (int_of_digits d) else None)
      in case t of
           [] \<Rightarrow> None
         | c # r \<Rightarrow>
             if c = CHR ''-'' then map_option uminus (digits r)
             else if c = CHR ''+'' then digits r else digits t)"

definition proto_name :: "json \<Rightarrow> string" where
  "proto_name proto =
     (let known = (\<lambda>n. case map_of PROTO_NAMES n of Some s \<Rightarrow> s | None \<Rightarrow> py_str proto) in
      case proto of
        JNull \<Rightarrow> ''ANY''
      | JInt n \<Rightarrow> known n
      | JBool b \<Rightarrow> known (if b then 1 else 0)
      | JStr s \<Rightarrow> (case py_int s of Some n \<Rightarrow> known n | None \<Rightarrow> s)
      | _ \<Rightarrow> py_str proto)"

section \<open>Lookups\<close>

record lookups =
  lk_label_to_ips :: "(string, string list) dict"
  lk_iplist_to_cidrs :: "(string, string list) dict"
  lk_label_group_to_labels :: "(string, string list) dict"
  lk_workload_to_ips :: "(string, string list) dict"
  lk_service_to_ports :: "(string, jobj list) dict"
  lk_service_to_names :: "(string, string) dict"
  lk_label_keys :: "(string, string) dict option"
  lk_known :: "(string, string list) dict option"
  lk_ip_to_subnet :: "(string, string) dict"

definition found :: "('k, 'v list) dict \<Rightarrow> 'k \<Rightarrow> 'v list" where
  "found d k = (case dict_get d k of None \<Rightarrow> [] | Some vs \<Rightarrow> vs)"

definition has_key :: "jobj \<Rightarrow> string \<Rightarrow> bool" where
  "has_key ps k = (k \<in> fst ` set ps)"

definition ref_href :: "jobj \<Rightarrow> string \<Rightarrow> string" where
  "ref_href actor kind = or_empty (j_str (jget (j_dict (jget actor kind)) ''href''))"

definition label_ips :: "string \<Rightarrow> lookups \<Rightarrow> string list" where
  "label_ips href lk = nub (found (lk_label_to_ips lk) href)"

definition group_ips :: "string \<Rightarrow> lookups \<Rightarrow> string list" where
  "group_ips href lk = nub (concat (map (found (lk_label_to_ips lk)) (found (lk_label_group_to_labels lk) href)))"

fun unknown_kinds :: "string list \<Rightarrow> jobj \<Rightarrow> (string, string list) dict \<Rightarrow> bool" where
  "unknown_kinds [] actor known = False"
| "unknown_kinds (kind # kinds) actor known =
     (case jget actor kind of
        JObj ref \<Rightarrow> or_empty (j_str (jget ref ''href'')) \<notin> set (found known kind)
      | _ \<Rightarrow> unknown_kinds kinds actor known)"

definition unknown_ref :: "jobj \<Rightarrow> lookups \<Rightarrow> bool" where
  "unknown_ref actor lk =
     (case lk_known lk of None \<Rightarrow> False
      | Some known \<Rightarrow> unknown_kinds [''label'', ''label_group'', ''ip_list'', ''workload''] actor known)"

definition label_key :: "string \<Rightarrow> lookups \<Rightarrow> string" where
  "label_key href lk =
     (case lk_label_keys lk of None \<Rightarrow> ''''
      | Some keys \<Rightarrow> (case dict_get keys href of None \<Rightarrow> href | Some k \<Rightarrow> k))"

definition all_workloads :: "lookups \<Rightarrow> string list" where
  "all_workloads lk = sort (nub (concat (map snd (lk_workload_to_ips lk))))"

text \<open>The addresses of one actor and its kind.\<close>

definition actor_ips :: "jobj \<Rightarrow> lookups \<Rightarrow> string list \<times> string" where
  "actor_ips actor lk =
     (if jget actor ''actors'' = JStr ''ams'' then (all_workloads lk, ''all_workloads'')
      else if has_key actor ''label'' then (label_ips (ref_href actor ''label'') lk, ''label'')
      else if has_key actor ''label_group'' then (group_ips (ref_href actor ''label_group'') lk, ''label_group'')
      else if has_key actor ''ip_list'' then (nub (found (lk_iplist_to_cidrs lk) (ref_href actor ''ip_list'')), ''ip_list'')
      else if has_key actor ''workload'' then (nub (found (lk_workload_to_ips lk) (ref_href actor ''workload'')), ''workload'')
      else if has_key actor ''ip_address'' then
        (case text_or_none (jget (j_dict (jget actor ''ip_address'')) ''value'') of
           Some v \<Rightarrow> ([v], ''ip_address'') | None \<Rightarrow> ([], ''ip_address''))
      else ([], ''unknown''))"

section \<open>Sets of addresses\<close>

definition set_union :: "'a list \<Rightarrow> 'a list \<Rightarrow> 'a list" where
  "set_union xs ys = nub (xs @ ys)"

definition set_minus :: "'a list \<Rightarrow> 'a list \<Rightarrow> 'a list" where
  "set_minus xs ys = filter (\<lambda>x. x \<notin> set ys) xs"

fun set_inters :: "'a list list \<Rightarrow> 'a list" where
  "set_inters [] = []"
| "set_inters [s] = s"
| "set_inters (s # t # ss) = filter (\<lambda>x. x \<in> set (set_inters (t # ss))) s"

text \<open>\<open>by_key.setdefault(key, set()).update(ips)\<close>\<close>

definition key_add :: "string \<Rightarrow> string list \<Rightarrow> (string, string list) dict \<Rightarrow> (string, string list) dict" where
  "key_add k ips d = dict_set k (set_union (found d k) ips) d"

text \<open>One entry of a scope: a label or a label group adds to its key's addresses, or to the exclusions.\<close>

definition scope_entry ::
  "lookups \<Rightarrow> jobj \<Rightarrow> (string, string list) dict \<times> string list \<Rightarrow> (string, string list) dict \<times> string list" where
  "scope_entry lk entry acc =
     (let (by_key, exc) = acc;
          kind = (if has_key entry ''label'' then Some ''label'' else if has_key entry ''label_group'' then Some ''label_group'' else None)
      in case kind of
           None \<Rightarrow> acc
         | Some k \<Rightarrow>
             (let href = ref_href entry k;
                  ips = (if k = ''label'' then label_ips href lk else group_ips href lk)
              in if truthy (jget entry ''exclusion'') then (by_key, set_union exc ips)
                 else (key_add (if lk_label_keys lk \<noteq> None then label_key href lk else href) ips by_key, exc)))"

fun scope_sets_from :: "lookups \<Rightarrow> json list \<Rightarrow> string list list option" where
  "scope_sets_from lk [] = Some []"
| "scope_sets_from lk (scope # scopes) =
     (let (by_key, exc) = fold (\<lambda>e. scope_entry lk (j_dict e)) (j_list scope) ([], [])
      in if by_key = [] \<and> exc = [] then None
         else map_option (\<lambda>out. set_minus (set_inters (map snd by_key)) exc # out) (scope_sets_from lk scopes))"

definition scope_sets :: "json list \<Rightarrow> lookups \<Rightarrow> string list list option" where
  "scope_sets scopes lk =
     (case scope_sets_from lk scopes of Some (s # ss) \<Rightarrow> Some (s # ss) | _ \<Rightarrow> None)"

section \<open>Exclusions\<close>

text \<open>An address, a CIDR or a range as networks.\<close>

definition networks_of :: "string \<Rightarrow> ipnet list option" where
  "networks_of value =
     (if CHR ''-'' \<in> set value then
        (case split_once CHR ''-'' value of
           None \<Rightarrow> None
         | Some (a, b) \<Rightarrow>
             (case (ip_address (py_strip a), ip_address (py_strip b)) of
                (Some x, Some y) \<Rightarrow> summarize_address_range x y
              | _ \<Rightarrow> None))
      else map_option (\<lambda>n. [n]) (ip_network value))"

definition nets_minus :: "ipnet list \<Rightarrow> ipnet list \<Rightarrow> ipnet list" where
  "nets_minus nets excluded = blocks_minus net_overlaps supernet_of address_exclude nets excluded"

definition net_list :: "string \<Rightarrow> ipnet list" where
  "net_list value = (case networks_of value of None \<Rightarrow> [] | Some ns \<Rightarrow> ns)"

definition excluded_hosts :: "string list \<Rightarrow> ipaddr list" where
  "excluded_hosts excludes = map network_address (filter (\<lambda>n. num_addresses n = 1) (concat (map net_list excludes)))"

definition excluded_wide :: "string list \<Rightarrow> ipnet list" where
  "excluded_wide excludes = filter (\<lambda>n. num_addresses n \<noteq> 1) (concat (map net_list excludes))"

definition host_net :: "ipaddr \<Rightarrow> ipnet" where
  "host_net a = Net (addr_ver a) (addr_int a) (ip_width (addr_ver a))"

definition net_text :: "ipnet \<Rightarrow> string" where
  "net_text n = (if num_addresses n = 1 then addr_str (network_address n) else net_str n)"

definition subtract_one :: "string list \<Rightarrow> ipaddr list \<Rightarrow> ipnet list \<Rightarrow> string \<Rightarrow> string list" where
  "subtract_one excludes hosts wide v =
     (if v \<in> set excludes then []
      else case networks_of v of
        None \<Rightarrow> [v]
      | Some nets \<Rightarrow>
          (if length nets = 1 \<and> num_addresses (hd nets) = 1 then
             (let addr = network_address (hd nets)
              in if addr \<notin> set hosts \<and> \<not> list_ex (addr_in addr) wide then [v] else [])
           else
             (let inside = map host_net (filter (\<lambda>h. list_ex (addr_in h) nets) hosts);
                  rest = nets_minus nets (wide @ inside)
              in if rest = nets then [v] else map net_text rest)))"

definition subtract :: "string list \<Rightarrow> string list \<Rightarrow> string list" where
  "subtract values excludes =
     (if excludes = [] then values
      else let hosts = excluded_hosts excludes; wide = excluded_wide excludes in
        if hosts = [] \<and> wide = [] then filter (\<lambda>v. v \<notin> set excludes) values
        else concat (map (subtract_one excludes hosts wide) values))"

section \<open>One side of a rule\<close>

record side_acc =
  sa_excludes :: "string list"
  sa_by_key :: "(string, string list) dict"
  sa_workloads :: "string list"
  sa_explicit :: "string list"
  sa_kind :: string

definition side_actor :: "lookups \<Rightarrow> string list option \<Rightarrow> jobj \<Rightarrow> side_acc \<Rightarrow> side_acc" where
  "side_actor lk scope_ips actor s =
     (let (ips, k) = actor_ips actor lk in
      if truthy (jget actor ''exclusion'') then s \<lparr> sa_excludes := set_union (sa_excludes s) ips \<rparr>
      else let s' = s \<lparr> sa_kind := k \<rparr> in
        if k = ''label'' \<or> k = ''label_group'' then
          s' \<lparr> sa_by_key := key_add (if lk_label_keys lk \<noteq> None then label_key (ref_href actor k) lk else '''') ips (sa_by_key s) \<rparr>
        else if k = ''all_workloads'' then
          s' \<lparr> sa_workloads := set_union (sa_workloads s) (case scope_ips of Some sc \<Rightarrow> sc | None \<Rightarrow> ips) \<rparr>
        else if k = ''workload'' then s' \<lparr> sa_workloads := set_union (sa_workloads s) ips \<rparr>
        else s' \<lparr> sa_explicit := set_union (sa_explicit s) ips \<rparr>)"

definition side_workloads :: "side_acc \<Rightarrow> string list option \<Rightarrow> string list" where
  "side_workloads s scope_ips =
     (let w = (if sa_by_key s \<noteq> [] then set_union (sa_workloads s) (set_inters (map snd (sa_by_key s))) else sa_workloads s)
      in case scope_ips of None \<Rightarrow> w | Some sc \<Rightarrow> filter (\<lambda>x. x \<in> set sc) w)"

definition to_subnet :: "lookups \<Rightarrow> string \<Rightarrow> string" where
  "to_subnet lk ip = (case dict_get (lk_ip_to_subnet lk) ip of None \<Rightarrow> ip | Some n \<Rightarrow> n)"

definition side_ips :: "jobj list \<Rightarrow> lookups \<Rightarrow> string list option \<Rightarrow> bool \<Rightarrow> string list \<times> string" where
  "side_ips actors lk scope_ips subnets =
     (if actors = [] then ([ANY], ''any'')
      else let s = fold (side_actor lk scope_ips) actors
                 \<lparr> sa_excludes = [], sa_by_key = [], sa_workloads = [], sa_explicit = [], sa_kind = ''any'' \<rparr>;
               w0 = side_workloads s scope_ips;
               w = (if subnets then nub (map (to_subnet lk) w0) else w0)
           in (nub (subtract (sort w @ sort (set_minus (sa_explicit s) w)) (sa_excludes s)), sa_kind s))"

section \<open>Services\<close>

record svc_entry =
  se_port :: json
  se_port_to :: "json option"
  se_protocol :: string
  se_name :: string

definition port_or_any :: "jobj \<Rightarrow> json" where
  "port_or_any p = (if has_key p ''port'' then jget p ''port'' else JStr ANY)"

definition to_port_of :: "jobj \<Rightarrow> json option" where
  "to_port_of s = (if truthy (jget s ''to_port'') then Some (jget s ''to_port'') else None)"

definition no_ports_text :: "string \<Rightarrow> string" where
  "no_ports_text name = ''<service without ports: '' @ name @ ''>''"

definition service_entries :: "lookups \<Rightarrow> jobj \<Rightarrow> svc_entry list" where
  "service_entries lk s =
     (if has_key s ''port'' then
        [\<lparr> se_port = jget s ''port'', se_port_to = to_port_of s, se_protocol = proto_name (jget s ''proto''), se_name = '''' \<rparr>]
      else if has_key s ''href'' then
        (let href = or_empty (j_str (jget s ''href''));
             name = (case dict_get (lk_service_to_names lk) href of None \<Rightarrow> href | Some n \<Rightarrow> n);
             ports = found (lk_service_to_ports lk) href
         in if ports = [] then
              [\<lparr> se_port = JStr (no_ports_text name), se_port_to = None, se_protocol = '''', se_name = name \<rparr>]
            else map (\<lambda>p. \<lparr> se_port = port_or_any p, se_port_to = to_port_of p, se_protocol = proto_name (jget p ''proto''),
                           se_name = name \<rparr>) ports)
      else if has_key s ''proto'' then
        [\<lparr> se_port = JStr ANY, se_port_to = None, se_protocol = proto_name (jget s ''proto''), se_name = '''' \<rparr>]
      else [])"

definition jlist_of :: "jobj \<Rightarrow> string \<Rightarrow> jobj list" where
  "jlist_of ps k = map j_dict (j_list (jget ps k))"

definition rule_services :: "lookups \<Rightarrow> jobj \<Rightarrow> svc_entry list" where
  "rule_services lk rule =
     (let svcs = jlist_of rule ''ingress_services'' @ jlist_of rule ''service_ports''
      in if svcs = [] then [\<lparr> se_port = JStr ANY, se_port_to = None, se_protocol = ANY, se_name = '''' \<rparr>]
         else concat (map (service_entries lk) svcs))"

section \<open>The cap\<close>

definition summary_token :: "nat \<Rightarrow> string" where
  "summary_token n = ''<'' @ dec_str (int n) @ '' hosts: expansion capped>''"

definition within_cap :: "string list \<Rightarrow> string list \<Rightarrow> nat \<Rightarrow> bool" where
  "within_cap srcs dsts per = (int (length srcs) * int (length dsts) * int per \<le> MAX_RULE_PAIRS)"

definition cap_sides :: "string list \<Rightarrow> string list \<Rightarrow> nat \<Rightarrow> string list \<times> string list \<times> string" where
  "cap_sides srcs dsts services =
     (let per = max services 1 in
      if within_cap srcs dsts per then (srcs, dsts, '''')
      else if length dsts \<le> length srcs then
        (let srcs' = [summary_token (length srcs)] in
         if \<not> within_cap srcs' dsts per then (srcs', [summary_token (length dsts)], ''src,dst'') else (srcs', dsts, ''src''))
      else
        (let dsts' = [summary_token (length dsts)] in
         if \<not> within_cap srcs dsts' per then ([summary_token (length srcs)], dsts', ''dst,src'') else (srcs, dsts', ''dst'')))"

section \<open>The rows of a rule set\<close>

record rule_row =
  rr_ruleset_name :: string
  rr_rule_href :: string
  rr_action :: string
  rr_src_ip :: string
  rr_dst_ip :: string
  rr_port :: json
  rr_port_to :: "json option"
  rr_protocol :: string
  rr_src_kind :: string
  rr_dst_kind :: string
  rr_service_name :: string
  rr_truncated :: string

definition row_key :: "rule_row \<Rightarrow> string \<times> string \<times> string \<times> string \<times> json \<times> json option \<times> string" where
  "row_key r = (rr_rule_href r, rr_action r, rr_src_ip r, rr_dst_ip r, rr_port r, rr_port_to r, rr_protocol r)"

text \<open>\<open>if key in seen: continue\<close>; the keys seen are those of the rows there are.\<close>

definition add_row :: "rule_row \<Rightarrow> rule_row list \<Rightarrow> rule_row list" where
  "add_row r rows = (if row_key r \<in> row_key ` set rows then rows else rows @ [r])"

record resolve_state =
  rv_rows :: "rule_row list"
  rv_omitted :: nat
  rv_issues :: "(string \<times> string) list"
  rv_no_address :: "string list"

definition product_rows ::
  "(svc_entry \<Rightarrow> string \<Rightarrow> string \<Rightarrow> rule_row) \<Rightarrow> svc_entry list \<Rightarrow> string list \<Rightarrow> string list \<Rightarrow> rule_row list" where
  "product_rows mk svcs srcs dsts = concat (map (\<lambda>svc. concat (map (\<lambda>s. map (mk svc s) dsts) srcs)) svcs)"

definition mk_row :: "string \<Rightarrow> string \<Rightarrow> string \<Rightarrow> string \<Rightarrow> string \<Rightarrow> string \<Rightarrow> svc_entry \<Rightarrow> string \<Rightarrow> string \<Rightarrow> rule_row" where
  "mk_row rs_name rule_href act src_kind dst_kind truncated svc s_ip d_ip =
     \<lparr> rr_ruleset_name = rs_name, rr_rule_href = rule_href, rr_action = act, rr_src_ip = s_ip, rr_dst_ip = d_ip,
       rr_port = se_port svc, rr_port_to = se_port_to svc, rr_protocol = se_protocol svc, rr_src_kind = src_kind,
       rr_dst_kind = dst_kind, rr_service_name = se_name svc, rr_truncated = truncated \<rparr>"

text \<open>One rule in one scope: the state and whether a side had an address. \<open>enabled\<close> defaults to true.\<close>

definition enabled :: "jobj \<Rightarrow> bool" where
  "enabled ps = (if has_key ps ''enabled'' then truthy (jget ps ''enabled'') else True)"

definition text_list :: "json \<Rightarrow> string list" where
  "text_list j = List.map_filter j_str (j_list j)"

definition scope_step ::
  "nat option \<Rightarrow> lookups \<Rightarrow> string \<Rightarrow> string \<Rightarrow> jobj \<Rightarrow> string list option \<Rightarrow> resolve_state \<times> bool \<Rightarrow> resolve_state \<times> bool" where
  "scope_step limit lk rs_name act rule scope_ips acc =
     (let (st, addressed) = acc;
          svcs = rule_services lk rule;
          subnet_sides = text_list (jget rule ''use_workload_subnets'');
          cons_scope = (if truthy (jget rule ''unscoped_consumers'') then None else scope_ips);
          (srcs, src_kind) = side_ips (jlist_of rule ''consumers'') lk cons_scope (''consumers'' \<in> set subnet_sides);
          (dsts, dst_kind) = side_ips (jlist_of rule ''providers'') lk scope_ips (''providers'' \<in> set subnet_sides)
      in if srcs = [] \<or> dsts = [] then acc
         else
           let (srcs', dsts', truncated) = cap_sides srcs dsts (length svcs);
               n = length srcs' * length dsts' * length svcs
           in if (case limit of None \<Rightarrow> False | Some m \<Rightarrow> m < length (rv_rows st) + n)
              then (st \<lparr> rv_omitted := rv_omitted st + n \<rparr>, True)
              else (st \<lparr> rv_rows := fold add_row
                      (product_rows (mk_row rs_name (or_empty (j_str (jget rule ''href''))) act src_kind dst_kind truncated)
                         svcs srcs' dsts') (rv_rows st) \<rparr>, True))"

definition resolves_virtual_services :: "jobj \<Rightarrow> bool" where
  "resolves_virtual_services rule =
     list_ex (\<lambda>side. ''virtual_services'' \<in> set (text_list (jget (j_dict (jget rule ''resolve_labels_as'')) side)))
       [''providers'', ''consumers'']"

definition rule_action_of :: "bool \<Rightarrow> jobj \<Rightarrow> string" where
  "rule_action_of is_allow rule =
     (if is_allow then ''allow'' else if truthy (jget rule ''override'') then ''override_deny'' else ''deny'')"

definition resolve_rule ::
  "nat option \<Rightarrow> lookups \<Rightarrow> string \<Rightarrow> string list list option \<Rightarrow> bool \<Rightarrow> bool \<Rightarrow> jobj \<Rightarrow> resolve_state \<Rightarrow> resolve_state" where
  "resolve_rule limit lk rs_name scopes scope_unknown is_allow rule st =
     (let href = or_empty (j_str (jget rule ''href'')) in
      if \<not> enabled rule then st
      else if resolves_virtual_services rule then st \<lparr> rv_issues := rv_issues st @ [(href, ''virtual_services'')] \<rparr>
      else if scope_unknown \<or> list_ex (\<lambda>a. unknown_ref a lk) (jlist_of rule ''consumers'' @ jlist_of rule ''providers'')
      then st \<lparr> rv_issues := rv_issues st @ [(href, ''unknown_reference'')] \<rparr>
      else
        let (st', addressed) =
              fold (scope_step limit lk rs_name (rule_action_of is_allow rule) rule)
                (case scopes of None \<Rightarrow> [None] | Some ss \<Rightarrow> map Some ss) (st, False)
        in if addressed then st' else st' \<lparr> rv_no_address := rv_no_address st' @ [href] \<rparr>)"

definition resolve_ruleset_within :: "jobj \<Rightarrow> nat option \<Rightarrow> lookups \<Rightarrow> resolve_state" where
  "resolve_ruleset_within ruleset limit lk =
     (let st0 = \<lparr> rv_rows = [], rv_omitted = 0, rv_issues = [], rv_no_address = [] \<rparr> in
      if \<not> enabled ruleset then st0
      else
        let rs_name = or_empty (j_str (jget ruleset ''name''));
            scopes = scope_sets (j_list (jget ruleset ''scopes'')) lk;
            scope_unknown = list_ex (\<lambda>sc. list_ex (\<lambda>e. unknown_ref (j_dict e) lk) (j_list sc)) (j_list (jget ruleset ''scopes''));
            st1 = fold (resolve_rule limit lk rs_name scopes scope_unknown True) (jlist_of ruleset ''rules'') st0
        in fold (resolve_rule limit lk rs_name scopes scope_unknown False) (jlist_of ruleset ''deny_rules'') st1)"

definition resolve_ruleset :: "jobj \<Rightarrow> lookups \<Rightarrow> rule_row list" where
  "resolve_ruleset ruleset lk = rv_rows (resolve_ruleset_within ruleset None lk)"

section \<open>The lookups from PCE objects\<close>

definition href_of :: "jobj \<Rightarrow> string option" where
  "href_of ps = text_or_none (jget ps ''href'')"

definition workload_ips :: "jobj \<Rightarrow> string list" where
  "workload_ips wl =
     (let ips = List.map_filter (\<lambda>i. text_or_none (jget i ''address'')) (jlist_of wl ''interfaces'')
      in if ips = [] \<and> truthy (jget wl ''public_ip'') then [py_str (jget wl ''public_ip'')] else ips)"

definition build_workload_to_ips :: "jobj list \<Rightarrow> (string, string list) dict" where
  "build_workload_to_ips wls =
     fold (\<lambda>wl out. case href_of wl of None \<Rightarrow> out
       | Some h \<Rightarrow> (if workload_ips wl = [] then out else dict_set h (workload_ips wl) out)) wls []"

definition add_label_ips :: "jobj \<Rightarrow> (string, string list) dict \<Rightarrow> (string, string list) dict" where
  "add_label_ips wl out =
     (if workload_ips wl = [] then out
      else fold (\<lambda>lbl d. case href_of lbl of None \<Rightarrow> d | Some h \<Rightarrow> key_add h (workload_ips wl) d) (jlist_of wl ''labels'') out)"

definition build_label_to_ips :: "jobj list \<Rightarrow> (string, string list) dict" where
  "build_label_to_ips wls = fold add_label_ips wls []"

definition range_text :: "jobj \<Rightarrow> string option" where
  "range_text r =
     (let frm = jget r ''from_ip''; hi = jget r ''to_ip'' in
      if truthy frm \<and> truthy hi then Some (py_str frm @ ''-'' @ py_str hi)
      else if truthy frm then Some (py_str frm) else None)"

definition nonempty_text :: "string option \<Rightarrow> string option" where
  "nonempty_text t = str_or_none t"

definition ip_list_values :: "jobj list \<Rightarrow> string list" where
  "ip_list_values ranges =
     subtract (List.map_filter (\<lambda>r. nonempty_text (range_text r)) (filter (\<lambda>r. \<not> truthy (jget r ''exclusion'')) ranges))
       (nub (List.map_filter (\<lambda>r. nonempty_text (range_text r)) (filter (\<lambda>r. truthy (jget r ''exclusion'')) ranges)))"

definition ip_list_networks :: "jobj \<Rightarrow> string list" where
  "ip_list_networks ipl = nub (map net_str (concat (map net_list (ip_list_values (jlist_of ipl ''ip_ranges'')))))"

definition build_iplist_to_cidrs :: "jobj list \<Rightarrow> (string, string list) dict" where
  "build_iplist_to_cidrs ipls =
     fold (\<lambda>ipl out. case href_of ipl of None \<Rightarrow> out
       | Some h \<Rightarrow>
           (let vals = ip_list_values (jlist_of ipl ''ip_ranges'') @
                  List.map_filter (\<lambda>f. text_or_none (jget f ''fqdn'')) (jlist_of ipl ''fqdns'')
            in if vals = [] then out else dict_set h vals out)) ipls []"

definition build_service_to_ports :: "jobj list \<Rightarrow> (string, jobj list) dict" where
  "build_service_to_ports svcs =
     fold (\<lambda>s out. case href_of s of None \<Rightarrow> out | Some h \<Rightarrow> dict_set h (jlist_of s ''service_ports'') out) svcs []"

definition build_service_to_names :: "jobj list \<Rightarrow> (string, string) dict" where
  "build_service_to_names svcs =
     fold (\<lambda>s out. case (href_of s, text_or_none (jget s ''name'')) of (Some h, Some n) \<Rightarrow> dict_set h n out | _ \<Rightarrow> out) svcs []"

definition build_label_keys :: "jobj list \<Rightarrow> jobj list \<Rightarrow> (string, string) dict" where
  "build_label_keys labels groups =
     fold (\<lambda>x out. case href_of x of None \<Rightarrow> out | Some h \<Rightarrow> dict_set h (str_or_blank (jget x ''key'')) out) (labels @ groups) []"

definition build_ip_to_subnet :: "jobj list \<Rightarrow> (string, string) dict" where
  "build_ip_to_subnet wls =
     fold (\<lambda>i out. case text_or_none (jget i ''address'') of None \<Rightarrow> out
       | Some a \<Rightarrow>
           (if jget i ''cidr_block'' = JNull then out
            else case ip_network (a @ ''/'' @ py_str (jget i ''cidr_block'')) of
              None \<Rightarrow> out | Some n \<Rightarrow> dict_set a (net_str n) out)) (concat (map (\<lambda>wl. jlist_of wl ''interfaces'') wls)) []"

end
