(* ===== verification/LabelGroups.thy ===== *)
theory LabelGroups
  imports Resolver
begin

text \<open>
  Nested label groups, flattened in two places: recursively with a shared set of groups seen
  (\<open>build_label_group_to_labels\<close> of \<open>domain/policy_resolver.py\<close>) and with a stack
  (\<open>label_group_values\<close> of \<open>domain/policy_objects.py\<close>, whose \<open>service_port_entries\<close> is here too). A
  walk that visits what it should is the locale \<open>visits_all\<close>; both are shown to read exactly the
  groups reachable from the one asked for, cycles included.
\<close>

section \<open>Reachability\<close>

definition edges :: "('h, 'h list) dict \<Rightarrow> ('h \<times> 'h) set" where
  "edges d = {(x, y). y \<in> set (found d x)}"

definition reachable :: "('h, 'h list) dict \<Rightarrow> 'h \<Rightarrow> 'h set" where
  "reachable d h = {x. (h, x) \<in> (edges d)\<^sup>*}"

locale visits_all =
  fixes visited :: "('h, 'h list) dict \<Rightarrow> 'h \<Rightarrow> 'h set"
  assumes start: "h \<in> visited d h"
    and closed: "x \<in> visited d h \<Longrightarrow> y \<in> set (found d x) \<Longrightarrow> y \<in> visited d h"
    and sound: "x \<in> visited d h \<Longrightarrow> x \<in> reachable d h"
begin

lemma visited_reachable: "visited d h = reachable d h"
proof
  have "x \<in> visited d h" if "(h, x) \<in> (edges d)\<^sup>*" for x
    using that
  proof (induction rule: rtrancl_induct)
    case base
    show ?case by (rule start)
  next
    case (step y z)
    then show ?case by (auto simp: edges_def intro: closed)
  qed
  then show "reachable d h \<subseteq> visited d h" by (auto simp: reachable_def)
qed (auto intro: sound)

end

section \<open>Recursion with a shared set\<close>

text \<open>\<open>expand(href, seen)\<close>: the labels found and the set afterwards. The first argument bounds the
  depth of the recursion.\<close>

fun expand :: "('h \<Rightarrow> 'l list) \<Rightarrow> ('h \<Rightarrow> 'h list) \<Rightarrow> nat \<Rightarrow> 'h \<Rightarrow> 'h list \<Rightarrow> 'l list \<times> 'h list"
and expand_subs :: "('h \<Rightarrow> 'l list) \<Rightarrow> ('h \<Rightarrow> 'h list) \<Rightarrow> nat \<Rightarrow> 'h list \<Rightarrow> 'h list \<Rightarrow> 'l list \<times> 'h list" where
  "expand lab sub 0 h seen = ([], seen)"
| "expand lab sub (Suc n) h seen =
     (if h \<in> set seen then ([], seen)
      else let (ls, seen') = expand_subs lab sub n (sub h) (h # seen) in (nub (lab h @ ls), seen'))"
| "expand_subs lab sub n [] seen = ([], seen)"
| "expand_subs lab sub n (g # gs) seen =
     (let (ls, seen1) = expand lab sub n g seen; (ms, seen2) = expand_subs lab sub n gs seen1 in (ls @ ms, seen2))"

text \<open>What a walk adds: it marks the start, everything a newly marked group has, nothing that cannot be
  reached, and it returns the labels of the newly marked groups.\<close>

definition walk_ok :: "('h \<Rightarrow> 'l list) \<Rightarrow> ('h \<Rightarrow> 'h list) \<Rightarrow> 'h list \<Rightarrow> 'h set \<Rightarrow> 'l list \<times> 'h list \<Rightarrow> bool" where
  "walk_ok lab sub seen starts res =
     (set seen \<union> starts \<subseteq> set (snd res) \<and>
      (\<forall>x \<in> set (snd res) - set seen. set (sub x) \<subseteq> set (snd res)) \<and>
      (\<forall>x \<in> set (snd res) - set seen. \<exists>s \<in> starts. (s, x) \<in> {(a, b). b \<in> set (sub a)}\<^sup>*) \<and>
      set (fst res) = (\<Union>x \<in> set (snd res) - set seen. set (lab x)))"

lemma walk_ok_subs:
  assumes f: "walk_ok lab sub seen {g} r1" and r: "walk_ok lab sub (snd r1) (set gs) r2"
  shows "walk_ok lab sub seen (set (g # gs)) (fst r1 @ fst r2, snd r2)"
proof -
  have s: "set seen \<subseteq> set (snd r1)" "set (snd r1) \<subseteq> set (snd r2)" using f r by (auto simp: walk_ok_def)
  have split: "set (snd r2) - set seen = (set (snd r1) - set seen) \<union> (set (snd r2) - set (snd r1))" using s by blast
  show ?thesis unfolding walk_ok_def split fst_conv snd_conv
    using f r s unfolding walk_ok_def by (intro conjI) (auto, blast+)
qed

lemma walk_ok_node:
  assumes h: "h \<notin> set seen" and r: "walk_ok lab sub (h # seen) (set (sub h)) r"
  shows "walk_ok lab sub seen {h} (nub (lab h @ fst r), snd r)"
proof -
  have s: "h \<in> set (snd r)" "set (sub h) \<subseteq> set (snd r)" using r by (auto simp: walk_ok_def)
  have split: "set (snd r) - set seen = insert h (set (snd r) - set (h # seen))" using h s by auto
  have "(h, x) \<in> {(a, b). b \<in> set (sub a)}\<^sup>*" if "x \<in> set (snd r) - set (h # seen)" for x
  proof -
    obtain s where "s \<in> set (sub h)" "(s, x) \<in> {(a, b). b \<in> set (sub a)}\<^sup>*" using r \<open>x \<in> _\<close> unfolding walk_ok_def by blast
    then show ?thesis by (intro converse_rtrancl_into_rtrancl [of h s]) auto
  qed
  then show ?thesis unfolding walk_ok_def split fst_conv snd_conv
    using r s unfolding walk_ok_def by (intro conjI) auto
qed

lemma expand_walk:
  fixes V :: "'h set"
  assumes V: "finite V"
  shows "card (V - set seen) \<le> n \<Longrightarrow> \<forall>x \<in> V. set (sub x) \<subseteq> V \<Longrightarrow> h \<in> V \<Longrightarrow>
      walk_ok lab sub seen {h} (expand lab sub n h seen)"
    and "card (V - set seen) \<le> n \<Longrightarrow> \<forall>x \<in> V. set (sub x) \<subseteq> V \<Longrightarrow> set gs \<subseteq> V \<Longrightarrow>
      walk_ok lab sub seen (set gs) (expand_subs lab sub n gs seen)"
proof (induction lab sub n h seen and lab sub n gs seen rule: expand_expand_subs.induct)
  case (1 lab sub h seen)
  then have "V - set seen = {}" using V by simp
  then show ?case using 1 by (auto simp: walk_ok_def)
next
  case (2 lab sub n h seen)
  show ?case
  proof (cases "h \<in> set seen")
    case True
    then show ?thesis by (simp add: walk_ok_def)
  next
    case False
    have "V - set (h # seen) = (V - set seen) - {h}" "h \<in> V - set seen" using 2 False by auto
    then have "card (V - set (h # seen)) \<le> n" using 2 V by simp
    then have "walk_ok lab sub (h # seen) (set (sub h)) (expand_subs lab sub n (sub h) (h # seen))"
      using 2 False by blast
    with False show ?thesis using walk_ok_node [OF False] by (simp add: split_def Let_def)
  qed
next
  case (3 lab sub n seen)
  then show ?case by (simp add: walk_ok_def)
next
  case (4 lab sub n g gs seen)
  obtain ls s1 where e1: "expand lab sub n g seen = (ls, s1)" by fastforce
  obtain ms s2 where e2: "expand_subs lab sub n gs s1 = (ms, s2)" by fastforce
  have w1: "walk_ok lab sub seen {g} (ls, s1)" using "4.IH"(1) "4.prems" e1 by simp
  then have "card (V - set s1) \<le> card (V - set seen)"
    using V by (intro card_mono) (auto simp: walk_ok_def)
  then have w2: "walk_ok lab sub s1 (set gs) (ms, s2)"
    using "4.IH"(2) [OF e1 [symmetric] refl] "4.prems" e2 by simp
  show ?case using walk_ok_subs [OF w1, of gs "(ms, s2)"] w2 e1 e2 by simp
qed

text \<open>All groups of a dictionary and the sub-groups they name: as many as the depth can be.\<close>

definition group_nodes :: "('h, 'h list) dict \<Rightarrow> 'h \<Rightarrow> 'h list" where
  "group_nodes d h = nub (h # dict_keys d @ concat (map snd d))"

definition expand_all :: "('h \<Rightarrow> 'l list) \<Rightarrow> ('h, 'h list) dict \<Rightarrow> 'h \<Rightarrow> 'l list \<times> 'h list" where
  "expand_all lab d h = expand lab (found d) (length (group_nodes d h)) h []"

lemma found_subset: "set (found d x) \<subseteq> set (concat (map snd d))"
proof (cases "dict_get d x")
  case (Some vs)
  then have "(x, vs) \<in> set d" by (rule map_of_SomeD)
  with Some show ?thesis by (force simp: found_def)
qed (simp add: found_def)

lemma expand_all_walk: "walk_ok lab (found d) [] {h} (expand_all lab d h)"
  unfolding expand_all_def
proof (rule expand_walk(1) [where V = "set (group_nodes d h)"])
  show "card (set (group_nodes d h) - set []) \<le> length (group_nodes d h)" by (simp add: card_length)
  show "\<forall>x \<in> set (group_nodes d h). set (found d x) \<subseteq> set (group_nodes d h)"
    using found_subset [of d] by (fastforce simp: group_nodes_def)
qed (simp_all add: group_nodes_def)

interpretation expand_walks: visits_all "\<lambda>d h. set (snd (expand_all (\<lambda>x. [x]) d h))"
proof
  fix d :: "('h, 'h list) dict" and h x y
  note w = expand_all_walk [of "\<lambda>x. [x]" d h, unfolded walk_ok_def]
  show "h \<in> set (snd (expand_all (\<lambda>x. [x]) d h))" using w by auto
  show "y \<in> set (snd (expand_all (\<lambda>x. [x]) d h))"
    if "x \<in> set (snd (expand_all (\<lambda>x. [x]) d h))" "y \<in> set (found d x)"
    using w that by auto
  show "x \<in> reachable d h" if "x \<in> set (snd (expand_all (\<lambda>x. [x]) d h))"
    using w that by (auto simp: reachable_def edges_def)
qed

text \<open>The labels found do not steer the walk.\<close>

lemma expand_seen:
  "snd (expand lab sub n h seen) = snd (expand lab' sub n h seen)"
  "snd (expand_subs lab sub n gs seen) = snd (expand_subs lab' sub n gs seen)"
proof (induction lab sub n h seen and lab sub n gs seen rule: expand_expand_subs.induct)
  case (4 lab sub n g gs seen)
  obtain ls s1 where e: "expand lab sub n g seen = (ls, s1)" by fastforce
  with 4 have "snd (expand lab' sub n g seen) = s1" "snd (expand_subs lab sub n gs s1) = snd (expand_subs lab' sub n gs s1)"
    by simp_all
  with e show ?case by (simp add: split_def Let_def)
qed (simp_all add: split_def Let_def)

lemma expand_all_labels: "set (fst (expand_all lab d h)) = (\<Union>x \<in> reachable d h. set (lab x))"
proof -
  have "set (snd (expand_all lab d h)) = reachable d h"
    using expand_walks.visited_reachable [of d h]
      expand_seen(1) [of lab "found d" "length (group_nodes d h)" h "[]" "\<lambda>x. [x]"] by (simp add: expand_all_def)
  then show ?thesis using expand_all_walk [of lab d h] by (simp add: walk_ok_def)
qed

lemma expand_distinct: "distinct (fst (expand lab sub n h seen))"
  by (cases n) (simp_all add: split_def Let_def)

section \<open>build\_label\_group\_to\_labels\<close>

definition ref_hrefs :: "jobj \<Rightarrow> string \<Rightarrow> string list" where
  "ref_hrefs g k = List.map_filter href_of (jlist_of g k)"

text \<open>\<open>by_href\<close>: the groups by their href, the last one of an href kept.\<close>

definition groups_by_href :: "jobj list \<Rightarrow> (string, jobj) dict" where
  "groups_by_href groups = fold (\<lambda>g d. case href_of g of None \<Rightarrow> d | Some h \<Rightarrow> dict_set h g d) groups []"

definition group_at :: "(string, jobj) dict \<Rightarrow> string \<Rightarrow> jobj" where
  "group_at d h = (case dict_get d h of None \<Rightarrow> [] | Some g \<Rightarrow> g)"

definition sub_groups :: "(string, jobj) dict \<Rightarrow> (string, string list) dict" where
  "sub_groups d = map (\<lambda>(h, g). (h, ref_hrefs g ''sub_groups'')) d"

definition build_label_group_to_labels :: "jobj list \<Rightarrow> (string, string list) dict" where
  "build_label_group_to_labels groups =
     (let by_href = groups_by_href groups
      in map (\<lambda>h. (h, fst (expand_all (\<lambda>x. ref_hrefs (group_at by_href x) ''labels'') (sub_groups by_href) h))) (dict_keys by_href))"

lemma group_labels_get:
  assumes "h \<in> set (dict_keys (groups_by_href groups))"
  shows "dict_get (build_label_group_to_labels groups) h =
    Some (fst (expand_all (\<lambda>x. ref_hrefs (group_at (groups_by_href groups) x) ''labels'') (sub_groups (groups_by_href groups)) h))"
proof -
  have "map_of (map (\<lambda>h. (h, f h)) hs) h = (if h \<in> set hs then Some (f h) else None)" for f :: "string \<Rightarrow> string list" and hs
    by (induction hs) auto
  from this [of _ "dict_keys (groups_by_href groups)"] assms show ?thesis
    by (simp only: build_label_group_to_labels_def Let_def if_True)
qed

section \<open>label\_group\_values\<close>

text \<open>\<open>while todo: g = todo.pop()\<close>: the top of the stack is the head of the list.\<close>

definition group_href :: "jobj \<Rightarrow> string" where
  "group_href g = str_or_blank (jget g ''href'')"

definition member_values :: "(string, string \<times> string) dict \<Rightarrow> json \<Rightarrow> jobj \<Rightarrow> string list" where
  "member_values labels key g =
     List.map_filter (\<lambda>ref. case dict_get labels ref of
       Some (k, v) \<Rightarrow> (if JStr k = key then Some v else None) | None \<Rightarrow> None) (ref_hrefs g ''labels'')"

definition next_groups :: "(string, jobj) dict \<Rightarrow> jobj \<Rightarrow> jobj list" where
  "next_groups groups g = List.map_filter (dict_get groups) (ref_hrefs g ''sub_groups'')"

lemma next_groups_subset: "set (next_groups groups g) \<subseteq> snd ` set groups"
  by (force simp: next_groups_def List.map_filter_def dest: map_of_SomeD split: option.splits)

text \<open>Each round takes a group off the stack, or marks one of the finitely many hrefs.\<close>

definition unmarked :: "(string, jobj) dict \<Rightarrow> string list \<Rightarrow> jobj list \<Rightarrow> string set" where
  "unmarked groups seen todo = group_href ` (set todo \<union> snd ` set groups) - set seen"

lemma unmarked_finite [simp]: "finite (unmarked groups seen todo)"
  by (simp add: unmarked_def)

lemma unmarked_pop: "card (unmarked groups seen todo) \<le> card (unmarked groups seen (g # todo))"
  by (intro card_mono) (auto simp: unmarked_def)

lemma unmarked_mark:
  "group_href g \<notin> set seen \<Longrightarrow>
     card (unmarked groups (group_href g # seen) (rev (next_groups groups g) @ todo)) < card (unmarked groups seen (g # todo))"
  using next_groups_subset [of groups g] by (intro psubset_card_mono) (auto simp: unmarked_def)

function group_values_loop ::
  "(string, jobj) dict \<Rightarrow> (string, string \<times> string) dict \<Rightarrow> json \<Rightarrow> string list \<Rightarrow> string list \<Rightarrow> jobj list \<Rightarrow> string list" where
  "group_values_loop groups labels key seen values [] = values"
| "group_values_loop groups labels key seen values (g # todo) =
     (if group_href g \<in> set seen then group_values_loop groups labels key seen values todo
      else group_values_loop groups labels key (group_href g # seen) (values @ member_values labels key g)
             (rev (next_groups groups g) @ todo))"
  by pat_completeness auto

termination
  using unmarked_pop unmarked_mark
  by (relation "measures [\<lambda>(groups, labels, key, seen, values, todo). card (unmarked groups seen todo),
        \<lambda>(groups, labels, key, seen, values, todo). length todo]") (auto simp: le_less)

definition label_group_values :: "jobj \<Rightarrow> (string, jobj) dict \<Rightarrow> (string, string \<times> string) dict \<Rightarrow> string list" where
  "label_group_values g groups labels = sort (nub (group_values_loop groups labels (jget g ''key'') [] [] [g]))"

section \<open>service\_port\_entries\<close>

definition port_entry :: "json \<Rightarrow> (int option \<times> int option \<times> int option) option" where
  "port_entry e =
     (case e of
        JObj entry \<Rightarrow>
          (if jget entry ''port'' = JNull \<and> jget entry ''proto'' = JNull then None
           else let proto = j_int (jget entry ''proto''); port = j_int (jget entry ''port'');
                    to_port = (if port = None then None else j_int (jget entry ''to_port''))
                in Some (port,
                     (case to_port of None \<Rightarrow> None
                      | Some hi \<Rightarrow> (if (case port of None \<Rightarrow> 0 | Some p \<Rightarrow> p) \<le> hi then Some hi else None)),
                     (case proto of None \<Rightarrow> None | Some n \<Rightarrow> (if 0 \<le> n then Some n else None))))
      | _ \<Rightarrow> None)"

definition service_port_entries :: "jobj \<Rightarrow> (int option \<times> int option \<times> int option) list" where
  "service_port_entries service =
     nub (List.map_filter port_entry (j_list (jget service ''service_ports'') @ j_list (jget service ''windows_services'')))"

section \<open>The stack reads what can be reached\<close>

definition next_rel :: "(string, jobj) dict \<Rightarrow> (jobj \<times> jobj) set" where
  "next_rel groups = {(x, y). y \<in> set (next_groups groups x)}"

definition reached_groups :: "(string, jobj) dict \<Rightarrow> jobj \<Rightarrow> jobj set" where
  "reached_groups groups g = {x. (g, x) \<in> (next_rel groups)\<^sup>*}"

lemma group_values_loop_set:
  "inj_on group_href R \<Longrightarrow> \<forall>x \<in> R. set (next_groups groups x) \<subseteq> R \<Longrightarrow> set todo \<subseteq> R \<Longrightarrow> P \<subseteq> R \<Longrightarrow>
     group_href ` P = set seen \<Longrightarrow> \<forall>x \<in> P. set (next_groups groups x) \<subseteq> P \<union> set todo \<Longrightarrow>
    \<exists>Q. P \<union> set todo \<subseteq> Q \<and> (\<forall>x \<in> Q. set (next_groups groups x) \<subseteq> Q) \<and>
      Q \<subseteq> (next_rel groups)\<^sup>* `` (P \<union> set todo) \<and>
      set (group_values_loop groups labels key seen values todo) =
        set values \<union> (\<Union>x \<in> Q - P. set (member_values labels key x))"
proof (induction groups labels key seen "values" todo arbitrary: P rule: group_values_loop.induct)
  case (1 groups labels key seen "values")
  then show ?case by (intro exI [of _ P]) auto
next
  case (2 groups labels key seen "values" g todo)
  show ?case
  proof (cases "group_href g \<in> set seen")
    case True
    then obtain p where "p \<in> P" "group_href p = group_href g" using "2.prems"(5) by (metis imageE)
    moreover from this have "p = g" using "2.prems"(1,3,4) by (auto dest: inj_onD)
    ultimately have "g \<in> P" by simp
    then have P: "P \<union> set (g # todo) = P \<union> set todo" by auto
    show ?thesis unfolding P using "2.IH"(1) [OF True "2.prems"(1,2) _ "2.prems"(4,5)] "2.prems"(3,6) True P by simp
  next
    case False
    let ?P = "insert g P" and ?todo = "rev (next_groups groups g) @ todo"
    have "\<exists>Q. ?P \<union> set ?todo \<subseteq> Q \<and> (\<forall>x \<in> Q. set (next_groups groups x) \<subseteq> Q) \<and> Q \<subseteq> (next_rel groups)\<^sup>* `` (?P \<union> set ?todo) \<and>
        set (group_values_loop groups labels key (group_href g # seen) (values @ member_values labels key g) ?todo) =
        set (values @ member_values labels key g) \<union> (\<Union>x \<in> Q - ?P. set (member_values labels key x))"
      by (rule "2.IH"(2) [OF False "2.prems"(1,2)]) (use "2.prems"(2-6) in auto)
    then obtain Q where Q: "?P \<union> set ?todo \<subseteq> Q" "\<forall>x \<in> Q. set (next_groups groups x) \<subseteq> Q"
      "Q \<subseteq> (next_rel groups)\<^sup>* `` (?P \<union> set ?todo)"
      "set (group_values_loop groups labels key (group_href g # seen) (values @ member_values labels key g) ?todo) =
        set (values @ member_values labels key g) \<union> (\<Union>x \<in> Q - ?P. set (member_values labels key x))" by blast
    have "(next_rel groups)\<^sup>* `` (?P \<union> set ?todo) \<subseteq> (next_rel groups)\<^sup>* `` (P \<union> set (g # todo))"
      by (auto simp: next_rel_def intro: converse_rtrancl_into_rtrancl)
    moreover have "g \<notin> P" using False "2.prems"(5) by auto
    then have "Q - P = insert g (Q - ?P)" using Q(1) by auto
    ultimately show ?thesis using Q False by (intro exI [of _ Q]) auto
  qed
qed

text \<open>Groups are told apart by their hrefs.\<close>

definition hrefs_distinguish :: "(string, jobj) dict \<Rightarrow> jobj \<Rightarrow> bool" where
  "hrefs_distinguish groups g = inj_on group_href (reached_groups groups g)"

lemma label_group_values_set:
  assumes "hrefs_distinguish groups g"
  shows "set (label_group_values g groups labels) =
    (\<Union>x \<in> reached_groups groups g. set (member_values labels (jget g ''key'') x))"
proof -
  let ?R = "reached_groups groups g"
  have "\<forall>x \<in> ?R. set (next_groups groups x) \<subseteq> ?R"
    by (auto simp: reached_groups_def next_rel_def intro: rtrancl_into_rtrancl)
  then obtain Q where Q: "g \<in> Q" "\<forall>x \<in> Q. set (next_groups groups x) \<subseteq> Q" "Q \<subseteq> (next_rel groups)\<^sup>* `` {g}"
    "set (group_values_loop groups labels (jget g ''key'') [] [] [g]) = (\<Union>x \<in> Q. set (member_values labels (jget g ''key'') x))"
    using group_values_loop_set [of ?R groups "[g]" "{}" "[]" labels "jget g ''key''" "[]"] assms
    by (auto simp: hrefs_distinguish_def reached_groups_def)
  have "x \<in> Q" if "(g, x) \<in> (next_rel groups)\<^sup>*" for x
    using that Q(1,2) by (induction rule: rtrancl_induct) (auto simp: next_rel_def)
  then have "Q = ?R" using Q(3) by (auto simp: reached_groups_def)
  with Q(4) show ?thesis by (simp add: label_group_values_def)
qed

section \<open>Properties\<close>

text \<open>C28. Flattening nested label groups gives each group exactly the labels of the groups that can
  be reached from it through sub-groups, each once, and it ends on every input, cycles included.\<close>

theorem group_labels_closure:
  assumes "h \<in> set (dict_keys (groups_by_href groups))"
  shows "\<exists>ls. dict_get (build_label_group_to_labels groups) h = Some ls \<and> distinct ls \<and>
    set ls = (\<Union>x \<in> reachable (sub_groups (groups_by_href groups)) h. set (ref_hrefs (group_at (groups_by_href groups) x) ''labels''))"
  using group_labels_get [OF assms] by (simp add: expand_all_labels) (simp add: expand_all_def expand_distinct)

theorem group_labels_closure_witness:
  "dict_get (build_label_group_to_labels
      [[(''href'', JStr ''a''), (''labels'', JList [JObj [(''href'', JStr ''l1'')]]), (''sub_groups'', JList [JObj [(''href'', JStr ''b'')]])],
       [(''href'', JStr ''b''), (''labels'', JList [JObj [(''href'', JStr ''l2'')]]), (''sub_groups'', JList [JObj [(''href'', JStr ''a'')]])]]) ''a'' =
     Some [''l1'', ''l2''] \<and> distinct [''l1'', ''l2'']"
proof -
  let ?gs = "[[(''href'', JStr ''a''), (''labels'', JList [JObj [(''href'', JStr ''l1'')]]), (''sub_groups'', JList [JObj [(''href'', JStr ''b'')]])],
       [(''href'', JStr ''b''), (''labels'', JList [JObj [(''href'', JStr ''l2'')]]), (''sub_groups'', JList [JObj [(''href'', JStr ''a'')]])]]"
  have "''a'' \<in> set (dict_keys (groups_by_href ?gs))" by code_simp
  moreover have "dict_get (build_label_group_to_labels ?gs) ''a'' = Some [''l1'', ''l2'']" by code_simp
  ultimately show ?thesis using group_labels_closure by fastforce
qed

text \<open>The values a label group stands for in a filter are those of the member labels, of the
  group's own key, of every group reachable from it, sorted and each once.\<close>

lemma label_group_values_closure:
  assumes "hrefs_distinguish groups g"
  shows "set (label_group_values g groups labels) =
      (\<Union>x \<in> reached_groups groups g. set (member_values labels (jget g ''key'') x)) \<and>
    sorted (label_group_values g groups labels) \<and> distinct (label_group_values g groups labels)"
  using label_group_values_set [OF assms] by (simp add: label_group_values_def)

lemma label_group_values_closure_witness:
  "sorted (label_group_values [(''href'', JStr ''a''), (''key'', JStr ''env'')] [] [])"
proof -
  have "hrefs_distinguish [] [(''href'', JStr ''a''), (''key'', JStr ''env'')]"
  proof -
    have "next_rel [] = {}" by (auto simp: next_rel_def next_groups_def List.map_filter_def)
    then show ?thesis by (simp add: hrefs_distinguish_def reached_groups_def inj_on_def)
  qed
  from label_group_values_closure [OF this] show ?thesis by blast
qed

end
