(* ===== verification/ResolverSubtract.thy ===== *)
theory ResolverSubtract
  imports Resolver
begin

text \<open>
  The exclusions of the policy resolver (\<open>_subtract\<close>): whatever texts the values and the exclusions
  are written in, exactly the excluded addresses go. The proof reads printed networks back and uses
  the subtraction of networks of the interface \<open>address_blocks\<close>.
\<close>

section \<open>Printed networks read back (IPv4)\<close>

lemma dec_str_hd: "0 < n \<Longrightarrow> hd (dec_str n) \<noteq> CHR ''0''"
proof (induction n rule: dec_str.induct)
  case (1 n)
  show ?case
  proof (cases "n < 10")
    case True
    have "(of_char (digit_char n) :: int) \<noteq> of_char (CHR ''0'')"
      using 1 True by (simp add: digit_char_def)
    then have "digit_char n \<noteq> CHR ''0''" by auto
    with True show ?thesis by (subst dec_str.simps) simp
  next
    case False
    then have "hd (dec_str (n div 10)) \<noteq> CHR ''0''" using 1 by simp
    with False show ?thesis by (subst dec_str.simps) simp
  qed
qed

lemma dec_str_length: "0 \<le> n \<Longrightarrow> n < 1000 \<Longrightarrow> length (dec_str n) \<le> 3"
proof -
  assume n: "0 \<le> n" "n < 1000"
  have one: "length (dec_str m) = 1" if "m < 10" for m using that by (subst dec_str.simps) simp
  have two: "length (dec_str m) \<le> 2" if "m < 100" "0 \<le> m" for m
    using that one by (subst dec_str.simps) simp
  show ?thesis using n two [of "n div 10"] by (subst dec_str.simps) simp
qed

lemma dec_str_zero: "dec_str 0 = ''0''"
  by code_simp

lemma parse_octet_print: "0 \<le> n \<Longrightarrow> n \<le> 255 \<Longrightarrow> parse_octet (dec_str n) = Some n"
  using dec_str_digits [of n] dec_str_length [of n] dec_str_hd [of n] int_of_dec_str [of n]
  by (cases "n = 0") (auto simp: parse_octet_def list_all_iff dec_str_zero is_digit_def int_of_digits_def digit_val_def)

lemma dec_str_no: "0 \<le> n \<Longrightarrow> CHR ''.'' \<notin> set (dec_str n) \<and> CHR ''/'' \<notin> set (dec_str n) \<and> CHR ''-'' \<notin> set (dec_str n)"
  using dec_str_digits [of n] is_digit_not by blast

lemma octets_value:
  fixes i :: int
  assumes "0 \<le> i" "i < 2 ^ 32"
  shows "((i div 16777216 * 256 + i div 65536 mod 256) * 256 + i div 256 mod 256) * 256 + i mod 256 = i"
proof -
  have b: "i div 65536 = i div 256 div 256" and c: "i div 16777216 = i div 65536 div 256"
    by (simp_all add: zdiv_zmult2_eq [of 256 i 256, simplified] zdiv_zmult2_eq [of 256 i 65536, simplified])
  show ?thesis unfolding c by (simp only: b div_mult_mod_eq)
qed

lemma parse_four_octets:
  assumes "\<forall>n \<in> set [a, b, c, d]. 0 \<le> n \<and> n \<le> 255"
  shows "ipv4_int (py_join ''.'' (map dec_str [a, b, c, d])) = Some (((a * 256 + b) * 256 + c) * 256 + d)"
proof -
  have "split_on CHR ''.'' (py_join ''.'' (map dec_str [a, b, c, d])) = map dec_str [a, b, c, d]"
    by (rule split_on_join) (use assms dec_str_no in auto)
  moreover have "map parse_octet (map dec_str [a, b, c, d]) = map Some [a, b, c, d]"
    using assms parse_octet_print by simp
  ultimately show ?thesis by (simp add: ipv4_int_def)
qed

lemma ipv4_parse_print:
  assumes "0 \<le> i" "i < 2 ^ 32"
  shows "ipv4_int (ipv4_str i) = Some i"
proof -
  have top: "i div 16777216 \<le> 255" "0 \<le> i div 16777216" using assms by simp_all
  have low: "0 \<le> n mod 256 \<and> n mod 256 \<le> 255" for n :: int using pos_mod_bound [of 256 n] by simp
  have "\<forall>n \<in> set [i div 16777216, i div 65536 mod 256, i div 256 mod 256, i mod 256]. 0 \<le> n \<and> n \<le> 255"
    using top low by (simp only: list.set ball_simps insert_iff)
  from parse_four_octets [OF this] show ?thesis
    unfolding octets_value [OF assms] ipv4_str_def by simp
qed

lemma ipv4_str_no: "0 \<le> i \<Longrightarrow> CHR ''/'' \<notin> set (ipv4_str i) \<and> CHR ''-'' \<notin> set (ipv4_str i)"
  using dec_str_no by (simp add: ipv4_str_def)

lemma host_bits_one: "num_addresses n = 1 \<Longrightarrow> host_bits n = 0"
proof (cases "host_bits n")
  case (Suc k)
  assume "num_addresses n = 1"
  then have "(2::int) * 2 ^ k = 1" using Suc by (simp add: num_addresses_def)
  then have "even (1::int)" by (metis dvd_triv_left)
  then show ?thesis by simp
qed

lemma wf_v4: "wf_net n \<Longrightarrow> net_ver n = V4 \<Longrightarrow> 0 \<le> net_int n \<and> net_int n < 2 ^ 32 \<and> net_len n \<le> 32"
  by (simp add: wf_net_def)

lemma net_of_wf: "wf_net n \<Longrightarrow> net_of (net_ver n) (net_int n) (net_len n) = n"
  by (cases n) (simp add: wf_net_def net_of_def num_addresses_def host_bits_def)

lemma networks_of_net_text:
  assumes "wf_net n" "net_ver n = V4"
  shows "networks_of (net_text n) = Some [n]"
proof -
  note b = wf_v4 [OF assms]
  show ?thesis
  proof (cases "num_addresses n = 1")
    case True
    have "host_bits n = 0" using True by (rule host_bits_one)
    then have l: "net_len n = 32" using b assms(2) by (simp add: host_bits_def)
    have t: "net_text n = ipv4_str (net_int n)" using True assms(2) by (simp add: net_text_def network_address_def)
    have "ip_network (ipv4_str (net_int n)) = Some n"
      using ipv4_str_no [of "net_int n"] b ipv4_parse_print [of "net_int n"] net_of_wf [OF assms(1)] assms(2) l
      by (simp add: ip_network_def split_on_no_sep make_net_def)
    then show ?thesis using ipv4_str_no [of "net_int n"] b by (simp add: networks_of_def t)
  next
    case False
    have t: "net_text n = ipv4_str (net_int n) @ CHR ''/'' # dec_str (int (net_len n))"
      using False assms(2) by (simp add: net_text_def net_str_def network_address_def)
    have "v4_prefix (dec_str (int (net_len n))) = Some (net_len n)"
      using b dec_str_digits [of "int (net_len n)"] int_of_dec_str [of "int (net_len n)"]
      by (simp add: v4_prefix_def prefix_of_digits_def list_all_iff)
    moreover have "split_on CHR ''/'' (ipv4_str (net_int n) @ CHR ''/'' # dec_str (int (net_len n))) =
        [ipv4_str (net_int n), dec_str (int (net_len n))]"
      using ipv4_str_no [of "net_int n"] b dec_str_no [of "int (net_len n)"] by (simp add: split_on_append_sep split_on_no_sep)
    ultimately have "ip_network (net_text n) = Some n"
      using b ipv4_parse_print [of "net_int n"] net_of_wf [OF assms(1)] assms(2)
      by (simp add: ip_network_def t make_net_def)
    moreover have "CHR ''-'' \<notin> set (net_text n)"
      using ipv4_str_no [of "net_int n"] b dec_str_no [of "int (net_len n)"] by (simp add: t)
    ultimately show ?thesis by (simp add: networks_of_def)
  qed
qed

section \<open>Parsed networks are well formed (IPv4)\<close>

lemma v4_prefix_bound: "v4_prefix s = Some l \<Longrightarrow> l \<le> 32"
  by (auto simp: v4_prefix_def prefix_of_digits_def prefix_of_mask_def Let_def bind_eq_Some_conv split: option.splits if_splits)

lemma ip_network_v4_wf:
  assumes "ip_network s = Some n" "net_ver n = V4"
  shows "wf_net n"
proof -
  obtain i l where "n = net_of V4 i l" "0 \<le> i" "i < 2 ^ 32" "l \<le> 32"
    using assms ipv4_int_bounds v4_prefix_bound
    by (auto simp: ip_network_def make_net_def net_of_def split: list.splits option.splits)
  then show ?thesis using wf_net_of [of i V4 l] by simp
qed

lemma ip_address_v4_wf: "ip_address s = Some a \<Longrightarrow> addr_ver a = V4 \<Longrightarrow> wf_addr a"
  using ipv4_int_bounds by (auto simp: ip_address_def wf_addr_def split: option.splits if_splits)

text \<open>A text of IPv4 networks.\<close>

definition v4_text :: "string \<Rightarrow> bool" where
  "v4_text v = (\<forall>n \<in> set (net_list v). net_ver n = V4)"

definition text_addrs :: "string \<Rightarrow> ipaddr set" where
  "text_addrs v = (\<Union>n \<in> set (net_list v). net_addrs n)"

lemma summarize_loop_ver: "n \<in> set (summarize_loop v lo hi) \<Longrightarrow> net_ver n = v"
proof (induction v lo hi rule: summarize_loop.induct)
  case (1 v lo hi)
  from "1.prems" show ?case
    by (subst (asm) summarize_loop.simps) (use "1.IH" in \<open>auto simp: Let_def split: if_splits\<close>)
qed

lemma summarize_loop_nonempty: "lo \<le> hi \<Longrightarrow> summarize_loop v lo hi \<noteq> []"
  by (subst summarize_loop.simps) (simp add: Let_def)

lemma networks_of_wf:
  assumes "v4_text v" "networks_of v = Some ns" "n \<in> set ns"
  shows "wf_net n"
proof -
  have v: "net_ver n = V4" using assms by (simp add: v4_text_def net_list_def)
  show ?thesis
  proof (cases "CHR ''-'' \<in> set v")
    case False
    then show ?thesis using assms v ip_network_v4_wf by (auto simp: networks_of_def)
  next
    case True
    then obtain s t a b where ab: "summarize_address_range a b = Some ns" "ip_address s = Some a" "ip_address t = Some b"
      using assms(2) by (auto simp: networks_of_def split: option.splits)
    then have v4: "addr_ver a = V4" "addr_ver b = V4"
      using summarize_loop_ver [of n "addr_ver a" "addr_int a" "addr_int b"] assms(3) v
      by (simp_all add: summarize_address_range_def split: if_splits)
    show ?thesis
      using summarize_address_range_addrs(2) [OF ab(1)] ip_address_v4_wf [OF ab(2) v4(1)] ip_address_v4_wf [OF ab(3) v4(2)]
        assms(3) by blast
  qed
qed

lemma net_list_wf: "v4_text v \<Longrightarrow> n \<in> set (net_list v) \<Longrightarrow> wf_net n"
  using networks_of_wf [of v _ n] by (cases "networks_of v") (auto simp: net_list_def)

lemma text_addrs_net_text: "wf_net n \<Longrightarrow> net_ver n = V4 \<Longrightarrow> text_addrs (net_text n) = net_addrs n"
  by (simp add: text_addrs_def net_list_def networks_of_net_text)

section \<open>The exclusions of one set\<close>

lemma host_addrs:
  assumes "wf_net n" "num_addresses n = 1"
  shows "net_addrs n = {network_address n}" "host_net (network_address n) = n"
proof -
  show "net_addrs n = {network_address n}"
    using assms by (auto simp: addr_in_iff network_address_def intro: ipaddr.expand)
  have "host_bits n = 0" using assms(2) by (rule host_bits_one)
  then show "host_net (network_address n) = n"
    using assms(1) by (cases n) (simp add: host_net_def network_address_def wf_net_def host_bits_def)
qed

lemma host_net_wf: "wf_addr a \<Longrightarrow> wf_net (host_net a)"
  by (simp add: wf_addr_def wf_net_def host_net_def num_addresses_def host_bits_def)

lemma excluded_addrs:
  assumes "\<forall>e \<in> set excludes. v4_text e"
  shows "(\<Union>e \<in> set excludes. text_addrs e) = set (excluded_hosts excludes) \<union> (\<Union>n \<in> set (excluded_wide excludes). net_addrs n)"
proof -
  have "(\<Union>e \<in> set excludes. text_addrs e) = (\<Union>n \<in> (\<Union>e \<in> set excludes. set (net_list e)). net_addrs n)"
    by (simp add: text_addrs_def)
  also have "\<dots> = (\<Union>n \<in> {n \<in> (\<Union>e \<in> set excludes. set (net_list e)). num_addresses n = 1}. net_addrs n) \<union>
      (\<Union>n \<in> {n \<in> (\<Union>e \<in> set excludes. set (net_list e)). num_addresses n \<noteq> 1}. net_addrs n)"
    by blast
  also have "(\<Union>n \<in> {n \<in> (\<Union>e \<in> set excludes. set (net_list e)). num_addresses n = 1}. net_addrs n) = set (excluded_hosts excludes)"
    using assms net_list_wf host_addrs(1) by (fastforce simp: excluded_hosts_def)
  also have "{n \<in> (\<Union>e \<in> set excludes. set (net_list e)). num_addresses n \<noteq> 1} = set (excluded_wide excludes)"
    by (auto simp: excluded_wide_def)
  finally show ?thesis .
qed

lemma excluded_wf:
  assumes "\<forall>e \<in> set excludes. v4_text e"
  shows "\<forall>n \<in> set (excluded_wide excludes). wf_net n" "\<forall>a \<in> set (excluded_hosts excludes). wf_addr a"
proof -
  have w: "wf_net n" if "e \<in> set excludes" "n \<in> set (net_list e)" for e n
    using net_list_wf [of e n] that assms by blast
  show "\<forall>n \<in> set (excluded_wide excludes). wf_net n" using w by (auto simp: excluded_wide_def)
  have "wf_addr (network_address n)" if "wf_net n" for n
    using that by (simp add: wf_addr_def network_address_def wf_net_def)
  then show "\<forall>a \<in> set (excluded_hosts excludes). wf_addr a" using w by (auto simp: excluded_hosts_def)
qed

lemma nets_minus_addrs:
  assumes "\<forall>n \<in> set nets. wf_net n" "\<forall>n \<in> set excluded. wf_net n"
  shows "(\<Union>n \<in> set (nets_minus nets excluded). net_addrs n) =
      (\<Union>n \<in> set nets. net_addrs n) - (\<Union>n \<in> set excluded. net_addrs n)"
    and "\<forall>n \<in> set (nets_minus nets excluded). wf_net n"
  using net_blocks.minus_addrs [OF assms] by (simp_all add: nets_minus_def)

lemma nets_minus_v4:
  assumes "\<forall>n \<in> set nets. wf_net n \<and> net_ver n = V4" "\<forall>n \<in> set excluded. wf_net n" "n \<in> set (nets_minus nets excluded)"
  shows "wf_net n \<and> net_ver n = V4"
proof -
  have wn: "\<forall>n \<in> set nets. wf_net n" using assms(1) by blast
  note rest = nets_minus_addrs [OF wn assms(2)]
  have wf: "wf_net n" using rest(2) assms(3) by blast
  have "net_addrs n \<subseteq> (\<Union>n \<in> set nets. net_addrs n)" using rest(1) assms(3) by blast
  then obtain m where "m \<in> set nets" "addr_in (network_address n) m" using network_address_in [OF wf] by auto
  then show ?thesis using wf assms(1) by (auto simp: addr_in_def network_address_def)
qed

lemma host_net_addrs: "wf_addr a \<Longrightarrow> net_addrs (host_net a) = {a}"
  using host_addrs(1) [OF host_net_wf [of a]] by (cases a) (simp add: host_net_def num_addresses_def host_bits_def network_address_def)

lemma subtract_one_v4:
  assumes v: "v4_text v" and e: "\<forall>e \<in> set excludes. v4_text e"
  shows "(\<Union>w \<in> set (subtract_one excludes (excluded_hosts excludes) (excluded_wide excludes) v). text_addrs w) =
      text_addrs v - (\<Union>e \<in> set excludes. text_addrs e)" (is "?L = _ - ?X")
proof -
  let ?hs = "excluded_hosts excludes" and ?ws = "excluded_wide excludes"
  note X = excluded_addrs [OF e]
  consider (excluded) "v \<in> set excludes" | (noaddr) "v \<notin> set excludes" "networks_of v = None"
    | (host) n where "v \<notin> set excludes" "networks_of v = Some [n]" "num_addresses n = 1"
    | (wide) nets where "v \<notin> set excludes" "networks_of v = Some nets" "\<not> (length nets = 1 \<and> num_addresses (hd nets) = 1)"
  proof (cases "networks_of v")
    case (Some nets)
    then show ?thesis using that
      by (cases "v \<in> set excludes"; cases "length nets = 1 \<and> num_addresses (hd nets) = 1") (auto simp: length_Suc_conv)
  qed (use that in blast)
  then show ?thesis
  proof cases
    case excluded
    then have "text_addrs v \<subseteq> ?X" by blast
    with excluded show ?thesis by (simp add: subtract_one_def)
  next
    case noaddr
    then show ?thesis by (simp add: subtract_one_def text_addrs_def net_list_def)
  next
    case host
    have "text_addrs v = {network_address n}"
      using host(2,3) net_list_wf [OF v, of n] host_addrs(1) by (simp add: text_addrs_def net_list_def)
    moreover have "network_address n \<in> ?X \<longleftrightarrow> network_address n \<in> set ?hs \<or> list_ex (addr_in (network_address n)) ?ws"
      unfolding X by (auto simp: list_ex_iff)
    ultimately show ?thesis using host by (auto simp: subtract_one_def Let_def)
  next
    case wide
    let ?inside = "map host_net (filter (\<lambda>h. list_ex (addr_in h) nets) ?hs)"
    let ?rest = "nets_minus nets (?ws @ ?inside)"
    have t: "text_addrs v = (\<Union>n \<in> set nets. net_addrs n)" using wide(2) by (simp add: text_addrs_def net_list_def)
    have wn: "\<forall>n \<in> set nets. wf_net n \<and> net_ver n = V4"
      using wide(2) net_list_wf [OF v] v by (simp add: v4_text_def net_list_def)
    have we: "\<forall>n \<in> set (?ws @ ?inside). wf_net n"
      using excluded_wf [OF e] host_net_wf by auto
    have "(\<Union>n \<in> set ?inside. net_addrs n) = {a \<in> set ?hs. a \<in> text_addrs v}"
      using host_net_addrs excluded_wf(2) [OF e] by (auto simp: t list_ex_iff)
    then have "(\<Union>n \<in> set (?ws @ ?inside). net_addrs n) = (\<Union>n \<in> set ?ws. net_addrs n) \<union> {a \<in> set ?hs. a \<in> text_addrs v}"
      unfolding set_append UN_Un by (rule arg_cong)
    note inside = this
    have wn': "\<forall>n \<in> set nets. wf_net n" using wn by blast
    have "(\<Union>n \<in> set ?rest. net_addrs n) = text_addrs v - (\<Union>n \<in> set (?ws @ ?inside). net_addrs n)"
      unfolding t by (rule nets_minus_addrs(1) [OF wn' we])
    also have "\<dots> = text_addrs v - ?X" unfolding inside X by blast
    finally have rest: "(\<Union>n \<in> set ?rest. net_addrs n) = text_addrs v - ?X" .
    have rest_wf: "\<forall>n \<in> set ?rest. wf_net n" by (rule nets_minus_addrs(2) [OF wn' we])
    have "net_ver n = V4" if "n \<in> set ?rest" for n using nets_minus_v4 [OF wn we that] by blast
    then have texts: "(\<Union>n \<in> set ?rest. text_addrs (net_text n)) = (\<Union>n \<in> set ?rest. net_addrs n)"
      using rest_wf text_addrs_net_text by (intro SUP_cong refl) blast
    have one: "subtract_one excludes ?hs ?ws v = (if ?rest = nets then [v] else map net_text ?rest)"
      using wide by (auto simp: subtract_one_def Let_def)
    show ?thesis
    proof (cases "?rest = nets")
      case True
      then show ?thesis using rest t one by simp
    next
      case False
      then have "(\<Union>w \<in> set (subtract_one excludes ?hs ?ws v). text_addrs w) = (\<Union>n \<in> set ?rest. text_addrs (net_text n))"
        unfolding one by (simp only: if_False set_map image_image)
      then show ?thesis unfolding texts rest .
    qed
  qed
qed

text \<open>A value that is no address (an FQDN) stays unless it is excluded itself.\<close>

lemma subtract_one_plain:
  assumes "v4_text v" "\<forall>e \<in> set excludes. v4_text e" "networks_of w = None"
  shows "w \<in> set (subtract_one excludes (excluded_hosts excludes) (excluded_wide excludes) v) \<longleftrightarrow> w = v \<and> w \<notin> set excludes"
proof (cases "networks_of v")
  case (Some nets)
  let ?rest = "nets_minus nets (excluded_wide excludes @ map host_net (filter (\<lambda>h. list_ex (addr_in h) nets) (excluded_hosts excludes)))"
  have wn: "\<forall>n \<in> set nets. wf_net n \<and> net_ver n = V4"
    using Some net_list_wf [OF assms(1)] assms(1) by (simp add: v4_text_def net_list_def)
  have we: "\<forall>n \<in> set (excluded_wide excludes @ map host_net (filter (\<lambda>h. list_ex (addr_in h) nets) (excluded_hosts excludes))). wf_net n"
    using excluded_wf [OF assms(2)] host_net_wf by auto
  have "networks_of (net_text n) = Some [n]" if "n \<in> set ?rest" for n
    using nets_minus_v4 [OF wn we that] networks_of_net_text by blast
  then have "net_text n \<noteq> w" if "n \<in> set ?rest" for n
    using that assms(3) by (metis option.distinct(1))
  then have "w \<notin> set (map net_text ?rest)" by auto
  moreover have "w \<noteq> v" using Some assms(3) by auto
  ultimately show ?thesis using Some by (simp add: subtract_one_def Let_def del: set_map)
qed (auto simp: subtract_one_def)

definition texts_addrs :: "string list \<Rightarrow> ipaddr set" where
  "texts_addrs vs = (\<Union>v \<in> set vs. text_addrs v)"

text \<open>C3. An exclusion takes out exactly the excluded addresses, whatever texts (addresses, CIDRs, ranges) the
  values and the exclusions are written in, and a value that is no address stays unless it is excluded
  word for word. For IPv4 texts.\<close>

theorem subtract_exact:
  assumes "\<forall>v \<in> set vs. v4_text v" "\<forall>e \<in> set excludes. v4_text e"
  shows "texts_addrs (subtract vs excludes) = texts_addrs vs - texts_addrs excludes \<and>
    (\<forall>w. networks_of w = None \<longrightarrow> (w \<in> set (subtract vs excludes) \<longleftrightarrow> w \<in> set vs \<and> w \<notin> set excludes))"
proof -
  let ?one = "subtract_one excludes (excluded_hosts excludes) (excluded_wide excludes)"
  consider "excludes = []" | "excluded_hosts excludes = [] \<and> excluded_wide excludes = []" "excludes \<noteq> []"
    | "subtract vs excludes = concat (map ?one vs)"
    unfolding subtract_def Let_def by argo
  then show ?thesis
  proof cases
    case 1
    then show ?thesis by (simp add: subtract_def texts_addrs_def)
  next
    case 2
    then have s: "subtract vs excludes = filter (\<lambda>v. v \<notin> set excludes) vs" by (simp add: subtract_def)
    have e: "texts_addrs excludes = {}" using excluded_addrs [OF assms(2)] 2 by (simp add: texts_addrs_def)
    then have "text_addrs v = {}" if "v \<in> set excludes" for v using that by (auto simp: texts_addrs_def)
    then show ?thesis by (auto simp: s e texts_addrs_def)
  next
    case 3
    have "texts_addrs (subtract vs excludes) = (\<Union>v \<in> set vs. \<Union>w \<in> set (?one v). text_addrs w)"
      by (simp add: 3 texts_addrs_def)
    also have "\<dots> = (\<Union>v \<in> set vs. text_addrs v - texts_addrs excludes)"
      using subtract_one_v4 assms by (simp add: texts_addrs_def del: UN_simps)
    finally have "texts_addrs (subtract vs excludes) = texts_addrs vs - texts_addrs excludes"
      by (auto simp: texts_addrs_def)
    moreover have "w \<in> set (subtract vs excludes) \<longleftrightarrow> w \<in> set vs \<and> w \<notin> set excludes" if "networks_of w = None" for w
      using subtract_one_plain [of _ excludes w] assms that by (auto simp: 3)
    ultimately show ?thesis by blast
  qed
qed

theorem subtract_exact_witness:
  "texts_addrs (subtract [''10.0.0.0/30'', ''a.example''] [''10.0.0.1'', ''10.0.0.2-10.0.0.3'']) =
     texts_addrs [''10.0.0.0/30'', ''a.example''] - texts_addrs [''10.0.0.1'', ''10.0.0.2-10.0.0.3''] \<and>
   subtract [''10.0.0.0/30'', ''a.example''] [''10.0.0.1'', ''10.0.0.2-10.0.0.3''] = [''10.0.0.0'', ''a.example'']"
proof -
  have "\<forall>v \<in> set [''10.0.0.0/30'', ''a.example'']. v4_text v" "\<forall>v \<in> set [''10.0.0.1'', ''10.0.0.2-10.0.0.3'']. v4_text v"
    by code_simp+
  moreover have "subtract [''10.0.0.0/30'', ''a.example''] [''10.0.0.1'', ''10.0.0.2-10.0.0.3''] = [''10.0.0.0'', ''a.example'']"
    by code_simp
  ultimately show ?thesis
    using subtract_exact [of "[''10.0.0.0/30'', ''a.example'']" "[''10.0.0.1'', ''10.0.0.2-10.0.0.3'']"] by metis
qed

end
