(* ===== verification/ResolverProofs.thy ===== *)
theory ResolverProofs
  imports ResolverSubtract
begin

text \<open>
  The rows of a rule set: the cap bounds what one rule adds, and expanding a rule set gives rows
  without repetition, within the limit, of its enabled rules only, every other rule accounted for.
\<close>

section \<open>The cap\<close>

text \<open>What a rule adds stays within the cap of rows, and a side is only summarised when the rule would pass it,
  which the mark of the rows says.\<close>

lemma cap_sides_bounded:
  assumes "cap_sides srcs dsts services = (srcs', dsts', truncated)" "int services \<le> MAX_RULE_PAIRS"
  shows "int (length srcs') * int (length dsts') * int services \<le> MAX_RULE_PAIRS \<and>
    (truncated = '''' \<longleftrightarrow> int (length srcs) * int (length dsts) * int (max services 1) \<le> MAX_RULE_PAIRS) \<and>
    (truncated = '''' \<longrightarrow> srcs' = srcs \<and> dsts' = dsts) \<and>
    (srcs' = srcs \<or> srcs' = [summary_token (length srcs)]) \<and> (dsts' = dsts \<or> dsts' = [summary_token (length dsts)])"
proof -
  have one: "int services \<le> int (max services 1)" by simp
  have mono: "int a * int b * int services \<le> MAX_RULE_PAIRS" if "int a * int b * int (max services 1) \<le> MAX_RULE_PAIRS" for a b
    using mult_left_mono [OF one, of "int a * int b"] that by simp
  show ?thesis
    using assms mono [of "length srcs" "length dsts"] mono [of 1 "length dsts"] mono [of "length srcs" 1]
    by (auto simp: cap_sides_def within_cap_def Let_def split: if_splits)
qed

lemma cap_sides_bounded_witness:
  "fst (cap_sides (replicate 400 ''s'') (replicate 300 ''d'') 2) = [''<400 hosts: expansion capped>''] \<and>
   int (length (fst (cap_sides (replicate 400 ''s'') (replicate 300 ''d'') 2))) *
   int (length (fst (snd (cap_sides (replicate 400 ''s'') (replicate 300 ''d'') 2)))) * int (2::nat) \<le> MAX_RULE_PAIRS"
proof -
  have c: "cap_sides (replicate 400 ''s'') (replicate 300 ''d'') 2 = ([summary_token 400], replicate 300 ''d'', ''src'')"
    by (simp add: cap_sides_def within_cap_def MAX_RULE_PAIRS_def Let_def)
  moreover have "summary_token 400 = ''<400 hosts: expansion capped>''" by code_simp
  ultimately show ?thesis using cap_sides_bounded [OF c] by (simp add: MAX_RULE_PAIRS_def)
qed

section \<open>The accounts of a rule set\<close>

text \<open>Where the rules of a rule set may end: \<open>hrefs\<close> those of its enabled rules.\<close>

definition rows_ok :: "nat option \<Rightarrow> string set \<Rightarrow> resolve_state \<Rightarrow> bool" where
  "rows_ok limit hrefs st =
     (distinct (map row_key (rv_rows st)) \<and>
      (case limit of None \<Rightarrow> rv_omitted st = 0 | Some m \<Rightarrow> length (rv_rows st) \<le> m) \<and>
      rr_rule_href ` set (rv_rows st) \<union> fst ` set (rv_issues st) \<union> set (rv_no_address st) \<subseteq> hrefs)"

text \<open>A rule that has rows, was counted as omitted, or is named with the reason it has none.\<close>

definition accounted :: "resolve_state \<Rightarrow> string \<Rightarrow> bool" where
  "accounted st h \<longleftrightarrow>
     h \<in> rr_rule_href ` set (rv_rows st) \<or> 0 < rv_omitted st \<or> h \<in> fst ` set (rv_issues st) \<or> h \<in> set (rv_no_address st)"

definition grows :: "resolve_state \<Rightarrow> resolve_state \<Rightarrow> bool" where
  "grows st st' \<longleftrightarrow> set (rv_rows st) \<subseteq> set (rv_rows st') \<and> rv_omitted st \<le> rv_omitted st' \<and>
     set (rv_issues st) \<subseteq> set (rv_issues st') \<and> set (rv_no_address st) \<subseteq> set (rv_no_address st')"

lemma grows_refl [simp]: "grows st st" by (simp add: grows_def)

lemma grows_trans: "grows a b \<Longrightarrow> grows b c \<Longrightarrow> grows a c" by (auto simp: grows_def)

lemma accounted_mono: "grows st st' \<Longrightarrow> accounted st h \<Longrightarrow> accounted st' h"
  by (auto simp: accounted_def grows_def)

lemma fold_grows: "(\<And>x st. grows st (f x st)) \<Longrightarrow> grows st (fold f xs st)"
  by (induction xs arbitrary: st) (auto intro: grows_trans)

text \<open>Adding rows.\<close>

lemma add_row_distinct: "distinct (map row_key rows) \<Longrightarrow> distinct (map row_key (add_row r rows))"
  by (auto simp: add_row_def)

lemma add_row_set: "set rows \<subseteq> set (add_row r rows)" "set (add_row r rows) \<subseteq> insert r (set rows)"
  by (auto simp: add_row_def)

lemma add_rows:
  "distinct (map row_key rows) \<Longrightarrow> distinct (map row_key (fold add_row rs rows))"
  "set rows \<subseteq> set (fold add_row rs rows)" "set (fold add_row rs rows) \<subseteq> set rows \<union> set rs"
  "length (fold add_row rs rows) \<le> length rows + length rs"
  "row_key ` set (fold add_row rs rows) = row_key ` set rows \<union> row_key ` set rs"
proof (induction rs arbitrary: rows)
  case (Cons r rs)
  { case 1 then show ?case using Cons.IH(1) add_row_distinct by simp }
  { case 2 show ?case using Cons.IH(2) add_row_set(1) by force }
  { case 3 show ?case using Cons.IH(3) [of "add_row r rows"] add_row_set(2) [of r rows] by auto }
  { case 4 show ?case using Cons.IH(4) [of "add_row r rows"] by (auto simp: add_row_def) }
  { case 5 show ?case using Cons.IH(5) [of "add_row r rows"] by (auto simp: add_row_def) }
qed auto

lemma length_product_rows: "length (product_rows mk svcs srcs dsts) = length svcs * (length srcs * length dsts)"
  by (simp add: product_rows_def length_concat comp_def sum_list_triv)

lemma set_product_rows:
  "set (product_rows mk svcs srcs dsts) = {mk svc s d | svc s d. svc \<in> set svcs \<and> s \<in> set srcs \<and> d \<in> set dsts}"
  by (auto simp: product_rows_def)

lemma row_key_href: "row_key ` A = row_key ` B \<Longrightarrow> rr_rule_href ` A = rr_rule_href ` B"
proof -
  have "rr_rule_href ` A = fst ` row_key ` A" for A by (auto simp: row_key_def image_image)
  then show "row_key ` A = row_key ` B \<Longrightarrow> rr_rule_href ` A = rr_rule_href ` B" by metis
qed

text \<open>One rule in one scope.\<close>

lemma cap_sides_nonempty:
  "srcs \<noteq> [] \<Longrightarrow> dsts \<noteq> [] \<Longrightarrow> cap_sides srcs dsts n = (srcs', dsts', t) \<Longrightarrow> srcs' \<noteq> [] \<and> dsts' \<noteq> []"
  by (auto simp: cap_sides_def Let_def split: if_splits)

abbreviation rule_href :: "jobj \<Rightarrow> string" where
  "rule_href rule \<equiv> or_empty (j_str (jget rule ''href''))"

lemma scope_step_cases:
  obtains (unaddressed) "scope_step limit lk rs_name act rule scope_ips (st, b) = (st, b)"
  | (omitted) n where "rule_services lk rule \<noteq> [] \<Longrightarrow> 0 < n" "limit \<noteq> None"
      "scope_step limit lk rs_name act rule scope_ips (st, b) = (st \<lparr> rv_omitted := rv_omitted st + n \<rparr>, True)"
  | (added) rs where "rule_services lk rule \<noteq> [] \<Longrightarrow> rs \<noteq> []" "\<forall>r \<in> set rs. rr_rule_href r = rule_href rule"
      "\<And>m. limit = Some m \<Longrightarrow> length (rv_rows st) + length rs \<le> m"
      "scope_step limit lk rs_name act rule scope_ips (st, b) = (st \<lparr> rv_rows := fold add_row rs (rv_rows st) \<rparr>, True)"
proof -
  let ?svcs = "rule_services lk rule" and ?subnets = "text_list (jget rule ''use_workload_subnets'')"
  obtain srcs sk where s: "side_ips (jlist_of rule ''consumers'') lk (if truthy (jget rule ''unscoped_consumers'') then None else scope_ips)
      (''consumers'' \<in> set ?subnets) = (srcs, sk)" by fastforce
  obtain dsts dk where d: "side_ips (jlist_of rule ''providers'') lk scope_ips (''providers'' \<in> set ?subnets) = (dsts, dk)" by fastforce
  obtain srcs' dsts' t where c: "cap_sides srcs dsts (length ?svcs) = (srcs', dsts', t)" by (metis surj_pair)
  let ?n = "length srcs' * length dsts' * length ?svcs"
  let ?rs = "product_rows (mk_row rs_name (rule_href rule) act sk dk t) ?svcs srcs' dsts'"
  show thesis
  proof (cases "srcs = [] \<or> dsts = []")
    case True
    then have "scope_step limit lk rs_name act rule scope_ips (st, b) = (st, b)"
      by (simp add: scope_step_def Let_def s d split del: if_split)
    then show thesis by (rule unaddressed)
  next
    case False
    then have ne: "srcs' \<noteq> []" "dsts' \<noteq> []" using cap_sides_nonempty [OF _ _ c] by blast+
    let ?over = "case limit of None \<Rightarrow> False | Some m \<Rightarrow> m < length (rv_rows st) + ?n"
    have step: "scope_step limit lk rs_name act rule scope_ips (st, b) =
        (if ?over then (st \<lparr> rv_omitted := rv_omitted st + ?n \<rparr>, True)
         else (st \<lparr> rv_rows := fold add_row ?rs (rv_rows st) \<rparr>, True))"
      using False by (simp add: scope_step_def Let_def s d c split del: if_split)
    show thesis
    proof (cases ?over)
      case True
      then show thesis using step ne by (intro omitted [of ?n]) (auto split: option.splits)
    next
      case False
      have len: "length ?rs = ?n" by (simp add: length_product_rows)
      show thesis
      proof (rule added [of ?rs])
        show "rule_services lk rule \<noteq> [] \<Longrightarrow> ?rs \<noteq> []" using ne len by (metis length_0_conv mult_is_0)
        show "\<forall>r \<in> set ?rs. rr_rule_href r = rule_href rule" by (auto simp: set_product_rows mk_row_def)
        show "length (rv_rows st) + length ?rs \<le> m" if "limit = Some m" for m using that False len by simp
        show "scope_step limit lk rs_name act rule scope_ips (st, b) = (st \<lparr> rv_rows := fold add_row ?rs (rv_rows st) \<rparr>, True)"
          using step False by simp
      qed
    qed
  qed
qed

definition step_ok :: "nat option \<Rightarrow> string set \<Rightarrow> jobj \<Rightarrow> lookups \<Rightarrow> resolve_state \<times> bool \<Rightarrow> resolve_state \<times> bool \<Rightarrow> bool" where
  "step_ok limit hrefs rule lk acc acc' \<longleftrightarrow>
     grows (fst acc) (fst acc') \<and>
     (rule_href rule \<in> hrefs \<longrightarrow> rows_ok limit hrefs (fst acc) \<longrightarrow> rows_ok limit hrefs (fst acc')) \<and>
     (rule_services lk rule \<noteq> [] \<longrightarrow> (snd acc \<longrightarrow> accounted (fst acc) (rule_href rule)) \<longrightarrow>
       snd acc' \<longrightarrow> accounted (fst acc') (rule_href rule))"

lemma scope_step_ok: "step_ok limit hrefs rule lk acc (scope_step limit lk rs_name act rule scope_ips acc)"
proof (cases acc)
  case (Pair st b)
  show ?thesis
  proof (rule scope_step_cases [of limit lk rs_name act rule scope_ips st b])
    assume "scope_step limit lk rs_name act rule scope_ips (st, b) = (st, b)"
    then show ?thesis by (simp add: step_ok_def Pair)
  next
    fix n
    assume "rule_services lk rule \<noteq> [] \<Longrightarrow> 0 < n" "limit \<noteq> None"
      "scope_step limit lk rs_name act rule scope_ips (st, b) = (st \<lparr> rv_omitted := rv_omitted st + n \<rparr>, True)"
    then show ?thesis by (auto simp: step_ok_def Pair grows_def rows_ok_def accounted_def split: option.splits)
  next
    fix rs
    assume added: "rule_services lk rule \<noteq> [] \<Longrightarrow> rs \<noteq> []" "\<forall>r \<in> set rs. rr_rule_href r = rule_href rule"
      "\<And>m. limit = Some m \<Longrightarrow> length (rv_rows st) + length rs \<le> m"
      "scope_step limit lk rs_name act rule scope_ips (st, b) = (st \<lparr> rv_rows := fold add_row rs (rv_rows st) \<rparr>, True)"
    have hrefs: "rr_rule_href ` set (fold add_row rs (rv_rows st)) = rr_rule_href ` set (rv_rows st) \<union> rr_rule_href ` set rs"
      using row_key_href [of "set (fold add_row rs (rv_rows st))" "set (rv_rows st) \<union> set rs"] add_rows(5) [of rs "rv_rows st"]
      by (simp add: image_Un)
    have "rows_ok limit hrefs (st \<lparr> rv_rows := fold add_row rs (rv_rows st) \<rparr>)"
      if "rows_ok limit hrefs st" "rule_href rule \<in> hrefs"
      using that add_rows(1) [of "rv_rows st" rs] add_rows(4) [of rs "rv_rows st"] added(2,3) hrefs
      by (force simp: rows_ok_def split: option.splits)
    moreover have "rule_href rule \<in> rr_rule_href ` set (fold add_row rs (rv_rows st))" if "rule_services lk rule \<noteq> []"
      using added(1) [OF that] added(2) unfolding hrefs by (cases rs) auto
    ultimately show ?thesis
      using added(4) add_rows(2) [of "rv_rows st" rs] by (simp add: step_ok_def Pair grows_def accounted_def)
  qed
qed

lemma step_ok_refl: "step_ok limit hrefs rule lk acc acc"
  by (simp add: step_ok_def)

lemma step_ok_trans:
  "step_ok limit hrefs rule lk a b \<Longrightarrow> step_ok limit hrefs rule lk b c \<Longrightarrow> step_ok limit hrefs rule lk a c"
  unfolding step_ok_def using grows_trans by blast

lemma fold_scopes_ok:
  "step_ok limit hrefs rule lk acc (fold (scope_step limit lk rs_name act rule) scs acc)"
proof (induction scs arbitrary: acc)
  case (Cons sc scs)
  show ?case using step_ok_trans [OF scope_step_ok Cons.IH] by simp
qed (simp add: step_ok_refl)

text \<open>One rule.\<close>

lemma resolve_rule_ok:
  fixes limit lk rs_name scopes unknown is_allow rule st
  defines "st' \<equiv> resolve_rule limit lk rs_name scopes unknown is_allow rule st"
  shows "grows st st'"
    "(enabled rule \<Longrightarrow> rule_href rule \<in> hrefs) \<Longrightarrow> rows_ok limit hrefs st \<Longrightarrow> rows_ok limit hrefs st'"
    "enabled rule \<Longrightarrow> rule_services lk rule \<noteq> [] \<Longrightarrow> accounted st' (rule_href rule)"
proof -
  let ?scs = "case scopes of None \<Rightarrow> [None] | Some ss \<Rightarrow> map Some ss"
  obtain st1 addressed where f: "fold (scope_step limit lk rs_name (rule_action_of is_allow rule) rule) ?scs (st, False) = (st1, addressed)"
    by fastforce
  have ok: "step_ok limit hrefs rule lk (st, False) (st1, addressed)" using fold_scopes_ok f by metis
  have issue: "\<exists>why. st \<lparr> rv_issues := rv_issues st @ [(rule_href rule, w)] \<rparr> = st \<lparr> rv_issues := rv_issues st @ [(rule_href rule, why)] \<rparr>" for w
    by blast
  have "(\<not> enabled rule \<and> st' = st) \<or>
      (enabled rule \<and> (\<exists>why. st' = st \<lparr> rv_issues := rv_issues st @ [(rule_href rule, why)] \<rparr>)) \<or>
      (enabled rule \<and> addressed \<and> st' = st1) \<or>
      (enabled rule \<and> \<not> addressed \<and> st' = st1 \<lparr> rv_no_address := rv_no_address st1 @ [rule_href rule] \<rparr>)"
    unfolding st'_def resolve_rule_def Let_def f prod.case using issue by presburger
  then consider "\<not> enabled rule" "st' = st" | why where "enabled rule" "st' = st \<lparr> rv_issues := rv_issues st @ [(rule_href rule, why)] \<rparr>"
    | "enabled rule" addressed "st' = st1"
    | "enabled rule" "\<not> addressed" "st' = st1 \<lparr> rv_no_address := rv_no_address st1 @ [rule_href rule] \<rparr>"
    by blast
  note cases = this
  show "grows st st'" using cases ok by cases (auto simp: step_ok_def grows_def)
  show "(enabled rule \<Longrightarrow> rule_href rule \<in> hrefs) \<Longrightarrow> rows_ok limit hrefs st \<Longrightarrow> rows_ok limit hrefs st'"
    using cases ok by cases (auto simp: step_ok_def rows_ok_def split: option.splits)
  show "enabled rule \<Longrightarrow> rule_services lk rule \<noteq> [] \<Longrightarrow> accounted st' (rule_href rule)"
    using cases ok by cases (auto simp: step_ok_def accounted_def)
qed

lemma fold_rules_ok:
  fixes limit lk rs_name scopes unknown is_allow
  assumes "\<forall>rule \<in> set rules. enabled rule \<longrightarrow> rule_href rule \<in> hrefs"
  defines "f \<equiv> resolve_rule limit lk rs_name scopes unknown is_allow"
  shows "grows st (fold f rules st) \<and> (rows_ok limit hrefs st \<longrightarrow> rows_ok limit hrefs (fold f rules st)) \<and>
    (\<forall>rule \<in> set rules. enabled rule \<longrightarrow> rule_services lk rule \<noteq> [] \<longrightarrow> accounted (fold f rules st) (rule_href rule))"
  using assms(1)
proof (induction rules arbitrary: st)
  case (Cons rule rules)
  let ?st = "f rule st"
  have IH: "grows ?st (fold f rules ?st) \<and> (rows_ok limit hrefs ?st \<longrightarrow> rows_ok limit hrefs (fold f rules ?st)) \<and>
    (\<forall>rule \<in> set rules. enabled rule \<longrightarrow> rule_services lk rule \<noteq> [] \<longrightarrow> accounted (fold f rules ?st) (rule_href rule))"
    by (rule Cons.IH) (use Cons.prems in simp)
  have ok: "grows st ?st" "rows_ok limit hrefs st \<Longrightarrow> rows_ok limit hrefs ?st"
    "enabled rule \<Longrightarrow> rule_services lk rule \<noteq> [] \<Longrightarrow> accounted ?st (rule_href rule)"
    unfolding f_def using Cons.prems by (auto intro: resolve_rule_ok)
  then show ?case
    using IH grows_trans [OF ok(1)] accounted_mono [of ?st "fold f rules ?st"] by simp
qed simp

definition rules_of :: "jobj \<Rightarrow> jobj list" where
  "rules_of ruleset = jlist_of ruleset ''rules'' @ jlist_of ruleset ''deny_rules''"

text \<open>C4. Expanding a rule set gives no row twice, no more rows than the limit (and leaves nothing out without one),
  and rows, issues and rules without an address of its enabled rules only; and every enabled rule with a service
  is accounted for: it has rows, it is named as not expandable or without an address, or rows were left out.\<close>

theorem resolve_ruleset_accounts:
  assumes "enabled ruleset"
  shows "rows_ok limit (rule_href ` {rule \<in> set (rules_of ruleset). enabled rule}) (resolve_ruleset_within ruleset limit lk) \<and>
    (\<forall>rule \<in> set (rules_of ruleset). enabled rule \<longrightarrow> rule_services lk rule \<noteq> [] \<longrightarrow>
       accounted (resolve_ruleset_within ruleset limit lk) (rule_href rule))"
proof -
  let ?hrefs = "rule_href ` {rule \<in> set (rules_of ruleset). enabled rule}"
  let ?st0 = "\<lparr> rv_rows = [], rv_omitted = 0, rv_issues = [], rv_no_address = [] \<rparr>"
  have h: "\<forall>rule \<in> set (jlist_of ruleset ''rules''). enabled rule \<longrightarrow> rule_href rule \<in> ?hrefs"
    "\<forall>rule \<in> set (jlist_of ruleset ''deny_rules''). enabled rule \<longrightarrow> rule_href rule \<in> ?hrefs"
    by (auto simp: rules_of_def)
  let ?f = "resolve_rule limit lk (or_empty (j_str (jget ruleset ''name''))) (scope_sets (j_list (jget ruleset ''scopes'')) lk)
      (list_ex (\<lambda>sc. list_ex (\<lambda>e. unknown_ref (j_dict e) lk) (j_list sc)) (j_list (jget ruleset ''scopes'')))"
  let ?st1 = "fold (?f True) (jlist_of ruleset ''rules'') ?st0"
  have r: "resolve_ruleset_within ruleset limit lk = fold (?f False) (jlist_of ruleset ''deny_rules'') ?st1" (is "_ = ?st2")
    using assms by (simp add: resolve_ruleset_within_def Let_def)
  have "rows_ok limit ?hrefs ?st0" by (simp add: rows_ok_def split: option.splits)
  then have "rows_ok limit ?hrefs ?st2" using fold_rules_ok [OF h(1)] fold_rules_ok [OF h(2)] by blast
  moreover have "accounted ?st2 (rule_href rule)"
    if "rule \<in> set (rules_of ruleset)" "enabled rule" "rule_services lk rule \<noteq> []" for rule
  proof (cases "rule \<in> set (jlist_of ruleset ''deny_rules'')")
    case True
    then show ?thesis using fold_rules_ok [OF h(2)] that by blast
  next
    case False
    then have "accounted ?st1 (rule_href rule)" using fold_rules_ok [OF h(1)] that by (simp add: rules_of_def)
    moreover have "grows ?st1 ?st2" using fold_rules_ok [OF h(2)] by blast
    ultimately show ?thesis by (rule accounted_mono [rotated])
  qed
  ultimately show ?thesis unfolding r by blast
qed

definition example_ruleset :: jobj where
  "example_ruleset =
     [(''name'', JStr ''web''), (''scopes'', JList [JList []]),
      (''rules'', JList
        [JObj [(''href'', JStr ''/r/1''), (''consumers'', JList [JObj [(''ip_list'', JObj [(''href'', JStr ''/ip/1'')])]]),
               (''providers'', JList [JObj [(''label'', JObj [(''href'', JStr ''/l/1'')])]]),
               (''ingress_services'', JList [JObj [(''port'', JInt 443), (''proto'', JInt 6)]])],
         JObj [(''href'', JStr ''/r/2''), (''enabled'', JBool False)],
         JObj [(''href'', JStr ''/r/3''), (''consumers'', JList [JObj [(''label'', JObj [(''href'', JStr ''/l/2'')])]])]])]"

definition example_lookups :: lookups where
  "example_lookups =
     \<lparr> lk_label_to_ips = [(''/l/1'', [''10.0.0.1'', ''10.0.0.2''])], lk_iplist_to_cidrs = [(''/ip/1'', [''192.0.2.0/24''])],
       lk_label_group_to_labels = [], lk_workload_to_ips = [], lk_service_to_ports = [], lk_service_to_names = [],
       lk_label_keys = None, lk_known = None, lk_ip_to_subnet = [] \<rparr>"

theorem resolve_ruleset_accounts_witness:
  "map (\<lambda>r. (rr_rule_href r, rr_dst_ip r)) (rv_rows (resolve_ruleset_within example_ruleset (Some 5) example_lookups)) =
     [(''/r/1'', ''10.0.0.1''), (''/r/1'', ''10.0.0.2'')] \<and>
   rv_no_address (resolve_ruleset_within example_ruleset (Some 5) example_lookups) = [''/r/3''] \<and>
   rows_ok (Some 5) {''/r/1'', ''/r/3''} (resolve_ruleset_within example_ruleset (Some 5) example_lookups)"
proof -
  have e: "enabled example_ruleset" by code_simp
  have "rule_href ` {rule \<in> set (rules_of example_ruleset). enabled rule} = {''/r/1'', ''/r/3''}"
  proof -
    have "map rule_href (filter enabled (rules_of example_ruleset)) = [''/r/1'', ''/r/3'']" by code_simp
    then have "set (map rule_href (filter enabled (rules_of example_ruleset))) = set [''/r/1'', ''/r/3'']" by (rule arg_cong)
    then show ?thesis by (simp only: set_map set_filter list.set)
  qed
  moreover have "map (\<lambda>r. (rr_rule_href r, rr_dst_ip r)) (rv_rows (resolve_ruleset_within example_ruleset (Some 5) example_lookups)) =
     [(''/r/1'', ''10.0.0.1''), (''/r/1'', ''10.0.0.2'')]" by code_simp
  moreover have "rv_no_address (resolve_ruleset_within example_ruleset (Some 5) example_lookups) = [''/r/3'']" by code_simp
  ultimately show ?thesis using resolve_ruleset_accounts [OF e, of "Some 5" example_lookups] by simp
qed

section \<open>Scopes\<close>

text \<open>Actors a scope narrows (\<open>_WORKLOAD_KINDS\<close> and All Workloads), and exclusions.\<close>

definition scoped_actor :: "lookups \<Rightarrow> jobj \<Rightarrow> bool" where
  "scoped_actor lk actor \<longleftrightarrow> truthy (jget actor ''exclusion'') \<or>
     snd (actor_ips actor lk) \<in> {''label'', ''label_group'', ''all_workloads'', ''workload''}"

lemma fold_side_explicit:
  "\<forall>actor \<in> set actors. scoped_actor lk actor \<Longrightarrow> sa_explicit (fold (side_actor lk sc) actors s) = sa_explicit s"
  by (induction actors arbitrary: s) (auto simp: side_actor_def scoped_actor_def Let_def split: prod.splits)

lemma fold_side_excludes:
  "set (sa_excludes (fold (side_actor lk sc) actors s)) \<subseteq>
     set (sa_excludes s) \<union> (\<Union>actor \<in> {a \<in> set actors. truthy (jget a ''exclusion'')}. set (fst (actor_ips actor lk)))"
proof (induction actors arbitrary: s)
  case (Cons a actors)
  have "set (sa_excludes (side_actor lk sc a s)) \<subseteq>
      set (sa_excludes s) \<union> (if truthy (jget a ''exclusion'') then set (fst (actor_ips a lk)) else {})"
    by (auto simp: side_actor_def set_union_def Let_def split: prod.splits)
  with Cons.IH [of "side_actor lk sc a s"] show ?case by (fastforce split: if_splits)
qed simp

lemma texts_addrs_mono: "set vs \<subseteq> set ws \<Longrightarrow> texts_addrs vs \<subseteq> texts_addrs ws"
  by (auto simp: texts_addrs_def)

lemma texts_addrs_nub [simp]: "texts_addrs (nub vs) = texts_addrs vs"
  by (simp add: texts_addrs_def)

text \<open>A scope holds: a side that names labels, label groups, workloads or All Workloads expands to no address
  outside the scope's addresses, whatever the exclusions cut.\<close>

lemma side_within_scope:
  assumes "actors \<noteq> []" "\<forall>actor \<in> set actors. scoped_actor lk actor" "\<forall>v \<in> set scope. v4_text v"
    and "\<forall>actor \<in> set actors. truthy (jget actor ''exclusion'') \<longrightarrow> (\<forall>v \<in> set (fst (actor_ips actor lk)). v4_text v)"
  shows "texts_addrs (fst (side_ips actors lk (Some scope) False)) \<subseteq> texts_addrs scope \<and>
    (\<forall>w \<in> set (fst (side_ips actors lk (Some scope) False)). networks_of w = None \<longrightarrow> w \<in> set scope)"
proof -
  let ?s = "fold (side_actor lk (Some scope)) actors
    \<lparr> sa_excludes = [], sa_by_key = [], sa_workloads = [], sa_explicit = [], sa_kind = ''any'' \<rparr>"
  let ?w = "side_workloads ?s (Some scope)"
  have e: "sa_explicit ?s = []" using fold_side_explicit [OF assms(2), of "Some scope"] by simp
  have x: "\<forall>v \<in> set (sa_excludes ?s). v4_text v"
    using fold_side_excludes [of lk "Some scope" actors "\<lparr> sa_excludes = [], sa_by_key = [], sa_workloads = [], sa_explicit = [], sa_kind = ''any'' \<rparr>"]
      assms(4) by fastforce
  have w: "set ?w \<subseteq> set scope" by (auto simp: side_workloads_def Let_def)
  have r: "fst (side_ips actors lk (Some scope) False) = nub (subtract (sort ?w) (sa_excludes ?s))"
    using assms(1) by (simp add: side_ips_def Let_def e set_minus_def)
  have "\<forall>v \<in> set (sort ?w). v4_text v" using w assms(3) by auto
  from subtract_exact [OF this x] show ?thesis
    unfolding r texts_addrs_nub set_nub using w texts_addrs_mono [of "sort ?w" scope] by auto
qed

lemma side_within_scope_witness:
  "fst (side_ips [[(''label'', JObj [(''href'', JStr ''/l/1'')])],
                  [(''exclusion'', JBool True), (''ip_address'', JObj [(''value'', JStr ''10.0.0.2'')])]]
         example_lookups (Some [''10.0.0.2'', ''10.0.0.1'', ''10.9.0.1'']) False) = [''10.0.0.1''] \<and>
   texts_addrs (fst (side_ips [[(''label'', JObj [(''href'', JStr ''/l/1'')])],
                  [(''exclusion'', JBool True), (''ip_address'', JObj [(''value'', JStr ''10.0.0.2'')])]]
         example_lookups (Some [''10.0.0.2'', ''10.0.0.1'', ''10.9.0.1'']) False)) \<subseteq> texts_addrs [''10.0.0.2'', ''10.0.0.1'', ''10.9.0.1'']"
  (is "?a \<and> _")
proof -
  let ?actors = "[[(''label'', JObj [(''href'', JStr ''/l/1'')])],
                  [(''exclusion'', JBool True), (''ip_address'', JObj [(''value'', JStr ''10.0.0.2'')])]] :: jobj list"
  have "?actors \<noteq> []" by simp
  moreover have "\<forall>actor \<in> set ?actors. scoped_actor example_lookups actor" by code_simp
  moreover have "\<forall>v \<in> set [''10.0.0.2'', ''10.0.0.1'', ''10.9.0.1'']. v4_text v" by code_simp
  moreover have "\<forall>actor \<in> set ?actors. truthy (jget actor ''exclusion'') \<longrightarrow>
      (\<forall>v \<in> set (fst (actor_ips actor example_lookups)). v4_text v)" by code_simp
  ultimately have "texts_addrs (fst (side_ips ?actors example_lookups (Some [''10.0.0.2'', ''10.0.0.1'', ''10.9.0.1'']) False))
      \<subseteq> texts_addrs [''10.0.0.2'', ''10.0.0.1'', ''10.9.0.1'']"
    by (rule side_within_scope [THEN conjunct1])
  moreover have ?a by code_simp
  ultimately show ?thesis by blast
qed

text \<open>The addresses one entry of a scope names; an entry that is no label and no label group is skipped.\<close>

definition names_label :: "jobj \<Rightarrow> bool" where
  "names_label e \<longleftrightarrow> has_key e ''label'' \<or> has_key e ''label_group''"

definition entry_ips :: "lookups \<Rightarrow> jobj \<Rightarrow> string set" where
  "entry_ips lk e = set (if has_key e ''label'' then label_ips (ref_href e ''label'') lk else group_ips (ref_href e ''label_group'') lk)"

definition named_entries :: "json \<Rightarrow> jobj set" where
  "named_entries scope = {e \<in> j_dict ` set (j_list scope). names_label e \<and> \<not> truthy (jget e ''exclusion'')}"

definition excluded_entries :: "json \<Rightarrow> jobj set" where
  "excluded_entries scope = {e \<in> j_dict ` set (j_list scope). names_label e \<and> truthy (jget e ''exclusion'')}"

definition scope_acc_ok :: "lookups \<Rightarrow> jobj set \<Rightarrow> jobj set \<Rightarrow> (string, string list) dict \<times> string list \<Rightarrow> bool" where
  "scope_acc_ok lk named excl acc \<longleftrightarrow>
     (named \<noteq> {} \<longrightarrow> fst acc \<noteq> []) \<and> (\<forall>(k, vs) \<in> set (fst acc). set vs \<subseteq> (\<Union>e \<in> named. entry_ips lk e)) \<and>
     set (snd acc) = (\<Union>e \<in> excl. entry_ips lk e)"

lemma set_dict_set: "set (dict_set k v d) \<subseteq> insert (k, v) (set d)"
  by (induction d) auto

lemma dict_set_nonempty [simp]: "dict_set k v d \<noteq> []"
  by (cases d) auto

lemma found_in: "found d k \<noteq> [] \<Longrightarrow> (k, found d k) \<in> set d"
  by (auto simp: found_def split: option.splits dest: map_of_SomeD)

lemma key_add_subset:
  assumes "\<forall>(k, vs) \<in> set d. set vs \<subseteq> A" "set ips \<subseteq> A"
  shows "\<forall>(k, vs) \<in> set (key_add key ips d). set vs \<subseteq> A"
proof -
  have "set (set_union (found d key) ips) \<subseteq> A"
    using assms found_in [of d key] by (cases "found d key = []") (auto simp: set_union_def)
  then show ?thesis using assms(1) set_dict_set [of key "set_union (found d key) ips" d] by (fastforce simp: key_add_def)
qed

lemma scope_entry_ok:
  assumes "scope_acc_ok lk named excl acc"
  shows "scope_acc_ok lk (if names_label e \<and> \<not> truthy (jget e ''exclusion'') then insert e named else named)
    (if names_label e \<and> truthy (jget e ''exclusion'') then insert e excl else excl) (scope_entry lk e acc)"
proof -
  obtain by_key exc where acc: "acc = (by_key, exc)" by fastforce
  let ?k = "if has_key e ''label'' then ''label'' else ''label_group''"
  let ?ips = "if ?k = ''label'' then label_ips (ref_href e ?k) lk else group_ips (ref_href e ?k) lk"
  have ips: "entry_ips lk e = set ?ips" by (simp add: entry_ips_def)
  show ?thesis
  proof (cases "names_label e")
    case False
    then have "scope_entry lk e acc = acc" by (simp add: scope_entry_def names_label_def acc)
    with False assms show ?thesis by simp
  next
    case True
    then have step: "scope_entry lk e acc = (if truthy (jget e ''exclusion'') then (by_key, set_union exc ?ips)
        else (key_add (if lk_label_keys lk \<noteq> None then label_key (ref_href e ?k) lk else ref_href e ?k) ?ips by_key, exc))"
      by (auto simp: scope_entry_def names_label_def acc Let_def)
    have grow: "\<forall>(k, vs) \<in> set by_key. set vs \<subseteq> (\<Union>e \<in> insert e named. entry_ips lk e)"
      using assms by (fastforce simp: scope_acc_ok_def acc)
    show ?thesis
    proof (cases "truthy (jget e ''exclusion'')")
      case excl: True
      then show ?thesis using True assms ips unfolding step by (auto simp: scope_acc_ok_def acc set_union_def)
    next
      case False
      have "\<forall>(k, vs) \<in> set (key_add (if lk_label_keys lk \<noteq> None then label_key (ref_href e ?k) lk else ref_href e ?k) ?ips by_key).
          set vs \<subseteq> (\<Union>e \<in> insert e named. entry_ips lk e)"
        by (rule key_add_subset [OF grow]) (use ips in auto)
      then show ?thesis using True False assms unfolding step by (simp add: scope_acc_ok_def acc key_add_def)
    qed
  qed
qed

lemma scope_fold_ok:
  "scope_acc_ok lk named excl acc \<Longrightarrow>
   scope_acc_ok lk (named \<union> {e \<in> set es. names_label e \<and> \<not> truthy (jget e ''exclusion'')})
     (excl \<union> {e \<in> set es. names_label e \<and> truthy (jget e ''exclusion'')}) (fold (scope_entry lk) es acc)"
proof (induction es arbitrary: named excl acc)
  case (Cons e es)
  have "insert e named \<union> S = named \<union> insert e S" for S by blast
  moreover have "insert e excl \<union> S = excl \<union> insert e S" for S by blast
  moreover have "{x \<in> set (e # es). P x} = (if P e then insert e {x \<in> set es. P x} else {x \<in> set es. P x})" for P by auto
  ultimately show ?case using Cons.IH [OF scope_entry_ok [OF Cons.prems, of e]] by (auto split: if_splits)
qed simp

lemma set_inters_subset: "ss \<noteq> [] \<Longrightarrow> \<exists>s \<in> set ss. set (set_inters ss) \<subseteq> set s"
  by (cases ss rule: set_inters.cases) auto

lemma scope_sets_from_closed:
  assumes "\<forall>scope \<in> set scopes. named_entries scope \<noteq> {}"
  shows "\<exists>ss. scope_sets_from lk scopes = Some ss \<and>
    list_all2 (\<lambda>scope s. set s \<subseteq> (\<Union>e \<in> named_entries scope. entry_ips lk e) - (\<Union>e \<in> excluded_entries scope. entry_ips lk e)) scopes ss"
  using assms
proof (induction scopes)
  case (Cons scope scopes)
  obtain by_key exc where f: "fold (\<lambda>e. scope_entry lk (j_dict e)) (j_list scope) ([], []) = (by_key, exc)" by fastforce
  have "scope_acc_ok lk {} {} ([], [])" by (simp add: scope_acc_ok_def)
  from scope_fold_ok [OF this, of "map j_dict (j_list scope)"]
  have ok: "scope_acc_ok lk (named_entries scope) (excluded_entries scope) (by_key, exc)"
    by (simp add: named_entries_def excluded_entries_def fold_map comp_def f)
  then have ne: "by_key \<noteq> []" using Cons.prems by (auto simp: scope_acc_ok_def)
  from set_inters_subset [of "map snd by_key"] ne obtain s where "s \<in> snd ` set by_key" "set (set_inters (map snd by_key)) \<subseteq> set s"
    by auto
  then have "set (set_minus (set_inters (map snd by_key)) exc) \<subseteq>
      (\<Union>e \<in> named_entries scope. entry_ips lk e) - (\<Union>e \<in> excluded_entries scope. entry_ips lk e)"
    using ok by (fastforce simp: scope_acc_ok_def set_minus_def)
  then show ?case using Cons f ne by auto
qed simp



text \<open>A scope that only excludes is empty while the excluded label has a host, and leaves the whole rule set
  unscoped when it has none: two lookups that differ in one host of the excluded label.\<close>

lemma exclusion_only_scope_opens:
  "scope_sets [JList [JObj [(''exclusion'', JBool True), (''label'', JObj [(''href'', JStr ''/l/1'')])]]] example_lookups = Some [[]] \<and>
   scope_sets [JList [JObj [(''exclusion'', JBool True), (''label'', JObj [(''href'', JStr ''/l/1'')])]]]
     (example_lookups \<lparr> lk_label_to_ips := [] \<rparr>) = None"
  by code_simp

end
