(* ===== verification/Lateral.thy ===== *)
theory Lateral
  imports FlowFilter
begin

text \<open>
  \<open>domain/lateral.py\<close>: the management port set and label selectors, what every lateral-movement
  analysis shares.
\<close>

section \<open>The management ports\<close>

datatype port_source = PS_BUILTIN | PS_PCE | PS_ADDED

record admin_port =
  ap_port :: int
  ap_proto :: "int option" \<comment> \<open>\<open>None\<close>: any protocol\<close>
  ap_name :: "string option"
  ap_source :: port_source
  ap_category :: port_class

definition EXECUTION :: "port_class list" where "EXECUTION = [PC_REMOTE]"
definition EXECUTION_OR_DATA :: "port_class list" where "EXECUTION_OR_DATA = [PC_REMOTE, PC_DATABASE]"

text \<open>\<open>_lookup\<close>: the first entry of a port and protocol counts (\<open>setdefault\<close>).\<close>

definition port_lookup :: "admin_port list \<Rightarrow> (int \<times> int option, port_class) dict" where
  "port_lookup entries =
     fold (\<lambda>e out. if dict_get out (ap_port e, ap_proto e) = None then dict_set (ap_port e, ap_proto e) (ap_category e) out else out)
       entries []"

definition class_of :: "admin_port list \<Rightarrow> int option \<Rightarrow> int \<Rightarrow> port_class option" where
  "class_of entries port proto =
     (case port of None \<Rightarrow> None
      | Some p \<Rightarrow> (case dict_get (port_lookup entries) (p, Some proto) of
                     Some c \<Rightarrow> Some c | None \<Rightarrow> dict_get (port_lookup entries) (p, None)))"

definition admin_matches :: "admin_port list \<Rightarrow> int option \<Rightarrow> int \<Rightarrow> port_class list option \<Rightarrow> bool" where
  "admin_matches entries port proto classes =
     (case class_of entries port proto of None \<Rightarrow> False
      | Some c \<Rightarrow> (case classes of None \<Rightarrow> True | Some cs \<Rightarrow> c \<in> set cs))"

definition port_filters :: "admin_port list \<Rightarrow> port_class list option \<Rightarrow> (int \<times> int option) list" where
  "port_filters entries classes =
     nub (map (\<lambda>e. (ap_port e, ap_proto e))
       (filter (\<lambda>e. case classes of None \<Rightarrow> True | Some cs \<Rightarrow> ap_category e \<in> set cs) entries))"

definition removed_port :: "(int \<times> int option) list \<Rightarrow> admin_port \<Rightarrow> bool" where
  "removed_port removed e = list_ex (\<lambda>(p, proto). p = ap_port e \<and> (proto = None \<or> proto = ap_proto e)) removed"

definition admin_candidates ::
  "(int \<times> string \<times> port_class) list \<Rightarrow> (int \<times> int \<times> string) list \<Rightarrow> (int \<times> int option \<times> port_class) list \<Rightarrow> bool \<Rightarrow> admin_port list" where
  "admin_candidates builtin pce_admin extra include_pce =
     concat (map (\<lambda>(p, name, cls). map (\<lambda>proto.
       \<lparr> ap_port = p, ap_proto = Some proto, ap_name = Some name, ap_source = PS_BUILTIN, ap_category = cls \<rparr>)
       (builtin_protocols p)) builtin) @
     (if include_pce then map (\<lambda>(p, proto, name).
       \<lparr> ap_port = p, ap_proto = Some proto, ap_name = Some name, ap_source = PS_PCE, ap_category = PC_REMOTE \<rparr>) pce_admin
      else []) @
     map (\<lambda>(p, proto, cls).
       \<lparr> ap_port = p, ap_proto = proto, ap_name = None, ap_source = PS_ADDED, ap_category = cls \<rparr>) extra"

definition effective_admin_ports ::
  "(int \<times> string \<times> port_class) list \<Rightarrow> (int \<times> int \<times> string) list \<Rightarrow> (int \<times> int option \<times> port_class) list \<Rightarrow>
   (int \<times> int option) list \<Rightarrow> bool \<Rightarrow> admin_port list" where
  "effective_admin_ports builtin pce_admin extra removed include_pce =
     nub (filter (\<lambda>e. \<not> removed_port removed e) (admin_candidates builtin pce_admin extra include_pce))"

definition selector_matches :: "(string, string) dict \<Rightarrow> (string \<times> string) list \<Rightarrow> bool" where
  "selector_matches labels selectors = list_ex (\<lambda>(k, v). dict_get labels k = Some v) selectors"

definition stale_selectors :: "(string \<times> string) list \<Rightarrow> (string \<times> string) list \<Rightarrow> (string \<times> string) list" where
  "stale_selectors selectors known = filter (\<lambda>s. s \<notin> set known) selectors"

section \<open>The lookup and the filters read the same ports\<close>

lemma port_lookup_snoc:
  "port_lookup (es @ [e]) =
     (if dict_get (port_lookup es) (ap_port e, ap_proto e) = None
      then dict_set (ap_port e, ap_proto e) (ap_category e) (port_lookup es) else port_lookup es)"
  by (simp add: port_lookup_def)

lemma port_lookup_get:
  "dict_get (port_lookup es) k = map_option ap_category (find (\<lambda>e. (ap_port e, ap_proto e) = k) es)"
proof (induction es rule: rev_induct)
  case (snoc e es)
  have "find P (es @ [e]) = (case find P es of None \<Rightarrow> (if P e then Some e else None) | Some x \<Rightarrow> Some x)" for P
    by (induction es) auto
  then show ?case using snoc by (auto simp: port_lookup_snoc dict_simps split: option.splits)
qed (simp add: port_lookup_def)

lemma find_ex: "find P xs \<noteq> None \<longleftrightarrow> (\<exists>x \<in> set xs. P x)"
  by (auto simp: find_None_iff)

lemma port_filters_mem:
  "(p, pr) \<in> set (port_filters entries classes) \<longleftrightarrow>
     (\<exists>e \<in> set entries. ap_port e = p \<and> ap_proto e = pr \<and> (case classes of None \<Rightarrow> True | Some cs \<Rightarrow> ap_category e \<in> set cs))"
  by (auto simp: port_filters_def)

lemma found_category:
  "find (\<lambda>e. (ap_port e, ap_proto e) = k) entries = Some e \<Longrightarrow> e \<in> set entries \<and> (ap_port e, ap_proto e) = k"
  by (auto simp: find_Some_iff)

text \<open>Every port a detector takes for one of its classes is covered by the filters its evidence carries, and
  without classes the two name exactly the same ports.\<close>

lemma admin_ports_covered:
  "(admin_matches entries (Some port) proto classes \<longrightarrow>
      (\<exists>(p, pr) \<in> set (port_filters entries classes). p = port \<and> (pr = None \<or> pr = Some proto))) \<and>
   (admin_matches entries (Some port) proto None \<longleftrightarrow>
      (\<exists>(p, pr) \<in> set (port_filters entries None). p = port \<and> (pr = None \<or> pr = Some proto)))"
proof
  let ?f = "\<lambda>pr. find (\<lambda>e. (ap_port e, ap_proto e) = (port, pr)) entries"
  have m: "admin_matches entries (Some port) proto cs \<longleftrightarrow>
      (case (case ?f (Some proto) of Some e \<Rightarrow> Some e | None \<Rightarrow> ?f None) of None \<Rightarrow> False
       | Some e \<Rightarrow> (case cs of None \<Rightarrow> True | Some c \<Rightarrow> ap_category e \<in> set c))" for cs
    by (auto simp: admin_matches_def class_of_def port_lookup_get split: option.splits)
  show "admin_matches entries (Some port) proto classes \<longrightarrow>
      (\<exists>(p, pr) \<in> set (port_filters entries classes). p = port \<and> (pr = None \<or> pr = Some proto))"
  proof
    assume "admin_matches entries (Some port) proto classes"
    then obtain e pr where e: "?f pr = Some e" "pr = None \<or> pr = Some proto"
      "case classes of None \<Rightarrow> True | Some c \<Rightarrow> ap_category e \<in> set c"
      unfolding m by (fastforce split: option.splits)
    then have "(port, pr) \<in> set (port_filters entries classes)"
      unfolding port_filters_mem using found_category [OF e(1)] by blast
    then show "\<exists>(p, pr) \<in> set (port_filters entries classes). p = port \<and> (pr = None \<or> pr = Some proto)" using e(2) by blast
  qed
  have "admin_matches entries (Some port) proto None \<longleftrightarrow> ?f (Some proto) \<noteq> None \<or> ?f None \<noteq> None"
    unfolding m by (auto split: option.splits)
  also have "\<dots> \<longleftrightarrow> (\<exists>(p, pr) \<in> set (port_filters entries None). p = port \<and> (pr = None \<or> pr = Some proto))"
    unfolding find_ex by (force simp: port_filters_mem)
  finally show "admin_matches entries (Some port) proto None \<longleftrightarrow>
      (\<exists>(p, pr) \<in> set (port_filters entries None). p = port \<and> (pr = None \<or> pr = Some proto))" .
qed

text \<open>The converse fails for a port entered twice: the dictionary keeps the first class, the filters take every
  entry.\<close>

lemma twice_entered_port:
  defines "es \<equiv> effective_admin_ports [(88, ''Kerberos'', PC_DIRECTORY)] [] [(88, Some 6, PC_REMOTE)] [] False"
  shows "\<not> admin_matches es (Some 88) 6 (Some EXECUTION)" "(88, Some 6) \<in> set (port_filters es (Some EXECUTION))"
  unfolding es_def by code_simp+

text \<open>No port a removal names stays in the set, and every candidate (built in, of the PCE's services when they
  are included, added) that no removal names does, once.\<close>

lemma removed_ports_gone:
  "distinct (effective_admin_ports builtin pce extra removed inc) \<and>
   (e \<in> set (effective_admin_ports builtin pce extra removed inc) \<longleftrightarrow>
     e \<in> set (admin_candidates builtin pce extra inc) \<and>
     \<not> (\<exists>(p, proto) \<in> set removed. p = ap_port e \<and> (proto = None \<or> proto = ap_proto e)))"
  by (auto simp: effective_admin_ports_def removed_port_def list_ex_iff)

lemma admin_ports_covered_witness:
  "let entries = [\<lparr> ap_port = 22, ap_proto = Some 6, ap_name = None, ap_source = PS_BUILTIN, ap_category = PC_REMOTE \<rparr>]
   in \<exists>(p, pr) \<in> set (port_filters entries (Some [PC_REMOTE])). p = 22 \<and> (pr = None \<or> pr = Some 6)"
proof -
  let ?e = "[\<lparr> ap_port = 22, ap_proto = Some 6, ap_name = None, ap_source = PS_BUILTIN, ap_category = PC_REMOTE \<rparr>]"
  have "admin_matches ?e (Some 22) 6 (Some [PC_REMOTE])" by code_simp
  then show ?thesis using admin_ports_covered [of ?e 22 6 "Some [PC_REMOTE]"] by (simp add: Let_def)
qed

end
