(* ===== verification/Exposure.thy ===== *)
theory Exposure
  imports Values
begin

text \<open>
  \<open>domain/exposure.py\<close>: the lateral-movement graph over observed management-port connections. Hosts are
  numbered in name order; \<open>g_out\<close> lists each host's successors, \<open>g_info\<close> the merged ports and the
  strongest state of each edge. Reach counts use integers as bitsets, paths a breadth-first search
  backwards from the target, cuts the hosts and edges the shortest paths go through.
\<close>

unbundle bit_operations_syntax

section \<open>The graph\<close>

type_synonym port = "int \<times> int"

fun STRENGTH :: "edge_state \<Rightarrow> nat" where
  "STRENGTH ES_UNKNOWN = 0"
| "STRENGTH ES_POTENTIALLY_BLOCKED = 1"
| "STRENGTH ES_ALLOWED = 2"

record edge_in =
  ei_src :: string
  ei_dst :: string
  ei_port :: int
  ei_proto :: int
  ei_state :: edge_state

text \<open>The reported decision of an edge's newest observation; \<open>None\<close>: blocked, not in the graph.\<close>

definition edge_state_of :: "string option \<Rightarrow> edge_state option" where
  "edge_state_of decision =
     (case decision of None \<Rightarrow> Some ES_UNKNOWN
      | Some t \<Rightarrow>
          (let d = py_lower (py_strip t) in
           if d = ''allowed'' then Some ES_ALLOWED
           else if d = ''potentially_blocked'' then Some ES_POTENTIALLY_BLOCKED
           else if startswith d ''blocked'' then None else Some ES_UNKNOWN))"

type_synonym edge_info = "port list \<times> edge_state"

record graph =
  g_nodes :: "string list"
  g_out :: "nat list list"
  g_info :: "(nat \<times> nat, edge_info) dict"

definition skips_edge :: "bool \<Rightarrow> edge_in \<Rightarrow> bool" where
  "skips_edge enforced e \<longleftrightarrow> ei_src e = ei_dst e \<or> (enforced \<and> ei_state e \<noteq> ES_ALLOWED)"

text \<open>\<open>merged.setdefault(...)\<close>, the port added, the state raised to the stronger one.\<close>

definition merge_edge :: "bool \<Rightarrow> edge_in \<Rightarrow> (string \<times> string, edge_info) dict \<Rightarrow> (string \<times> string, edge_info) dict" where
  "merge_edge enforced e merged =
     (if skips_edge enforced e then merged
      else
        let k = (ei_src e, ei_dst e);
            (ports, state) = (case dict_get merged k of None \<Rightarrow> ([], ei_state e) | Some v \<Rightarrow> v);
            ports' = (if (ei_port e, ei_proto e) \<in> set ports then ports else ports @ [(ei_port e, ei_proto e)])
        in dict_set k (ports', if STRENGTH state < STRENGTH (ei_state e) then ei_state e else state) merged)"

definition merge_edges :: "bool \<Rightarrow> edge_in list \<Rightarrow> (string \<times> string, edge_info) dict" where
  "merge_edges enforced edges = fold (merge_edge enforced) edges []"

definition node_names :: "(string \<times> string, edge_info) dict \<Rightarrow> string list" where
  "node_names merged = sort (nub (concat (map (\<lambda>((s, d), _). [s, d]) merged)))"

definition node_index :: "string list \<Rightarrow> string \<Rightarrow> nat option" where
  "node_index nodes n = dict_get (zip nodes [0..<length nodes]) n"

definition index_of :: "string list \<Rightarrow> string \<Rightarrow> nat" where
  "index_of nodes n = (case node_index nodes n of Some i \<Rightarrow> i | None \<Rightarrow> length nodes)"

definition edge_pairs :: "string list \<Rightarrow> (string \<times> string, edge_info) dict \<Rightarrow> (nat \<times> nat) list" where
  "edge_pairs nodes merged = sort (map (\<lambda>((s, d), _). (index_of nodes s, index_of nodes d)) merged)"

definition add_out :: "nat \<times> nat \<Rightarrow> nat list list \<Rightarrow> nat list list" where
  "add_out p out = out[fst p := out ! fst p @ [snd p]]"

definition pair_info :: "string list \<Rightarrow> (string \<times> string, edge_info) dict \<Rightarrow> nat \<times> nat \<Rightarrow> edge_info" where
  "pair_info nodes merged p =
     (case dict_get merged (nodes ! fst p, nodes ! snd p) of
        Some (ports, state) \<Rightarrow> (sort ports, state) | None \<Rightarrow> ([], ES_UNKNOWN))"

definition build_graph :: "edge_in list \<Rightarrow> bool \<Rightarrow> graph" where
  "build_graph edges enforced =
     (let merged = merge_edges enforced edges;
          nodes = node_names merged;
          pairs = edge_pairs nodes merged
      in \<lparr> g_nodes = nodes, g_out = fold add_out pairs (replicate (length nodes) []),
           g_info = map (\<lambda>p. (p, pair_info nodes merged p)) pairs \<rparr>)"

section \<open>Reach counts\<close>

definition size_of :: "graph \<Rightarrow> nat" where
  "size_of g = length (g_nodes g)"

definition direct_bits :: "graph \<Rightarrow> int list" where
  "direct_bits g = map (\<lambda>outs. fold (\<lambda>u r. r OR push_bit u 1) outs 0) (g_out g)"

definition reach_step :: "graph \<Rightarrow> int list \<Rightarrow> int list" where
  "reach_step g reach = map (\<lambda>v. fold (\<lambda>u acc. acc OR reach ! u) (g_out g ! v) (reach ! v)) [0..<length (g_out g)]"

function bit_count :: "int \<Rightarrow> nat" where
  "bit_count r = (if r \<le> 0 then 0 else (if odd r then 1 else 0) + bit_count (r div 2))"
  by pat_completeness auto
termination
  by (relation "measure nat") auto

declare bit_count.simps [simp del]

definition reach_counts :: "graph \<Rightarrow> nat \<Rightarrow> nat list" where
  "reach_counts g hops =
     (let reach = (reach_step g ^^ (hops - 1)) (direct_bits g)
      in map (\<lambda>v. bit_count (reach ! v AND NOT (push_bit v 1))) [0..<length reach])"

section \<open>Paths\<close>

definition reverse_of :: "graph \<Rightarrow> nat list list" where
  "reverse_of g =
     fold (\<lambda>v rv. fold (\<lambda>u rv. add_out (u, v) rv) (g_out g ! v) rv) [0..<length (g_out g)]
       (replicate (size_of g) [])"

definition preds :: "nat list list \<Rightarrow> nat \<Rightarrow> nat list" where
  "preds rv v = (if v < length rv then rv ! v else [])"

record bfs =
  bfs_next :: "(nat, nat) dict"
  bfs_dist :: "(nat, nat) dict"
  bfs_queue :: "nat list"

type_synonym skips = "(nat \<times> nat) option \<times> nat option"

definition skipped :: "skips \<Rightarrow> nat \<Rightarrow> nat \<Rightarrow> bool" where
  "skipped skip pred node \<longleftrightarrow> snd skip = Some node \<or> fst skip = Some (pred, node)"

text \<open>One predecessor of the node taken from the queue.\<close>

definition visit_pred :: "skips \<Rightarrow> nat \<Rightarrow> nat \<Rightarrow> nat \<Rightarrow> bfs \<Rightarrow> bfs" where
  "visit_pred skip node d pred b =
     (if dict_get (bfs_dist b) pred \<noteq> None \<or> skipped skip pred node then b
      else \<lparr> bfs_next = dict_set pred node (bfs_next b), bfs_dist = dict_set pred (d + 1) (bfs_dist b),
             bfs_queue = bfs_queue b @ [pred] \<rparr>)"

definition expand_node :: "nat list list \<Rightarrow> nat \<Rightarrow> skips \<Rightarrow> nat \<Rightarrow> bfs \<Rightarrow> bfs" where
  "expand_node rv hops skip node b =
     (let d = (case dict_get (bfs_dist b) node of Some n \<Rightarrow> n | None \<Rightarrow> 0) in
      if d = hops then b else fold (visit_pred skip node d) (preds rv node) b)"

text \<open>A host enters the queue when it is first seen, so what is left to do is the queue and the hosts not seen.\<close>

definition bfs_left :: "nat list list \<Rightarrow> bfs \<Rightarrow> nat" where
  "bfs_left rv b = length (bfs_queue b) + card (set (concat rv) - fst ` set (bfs_dist b))"

lemma keys_dict_set: "fst ` set (dict_set k v d) = insert k (fst ` set d)"
  by (induction d) auto

lemma dict_get_keys: "dict_get d k \<noteq> None \<longleftrightarrow> k \<in> fst ` set d"
  by (auto simp: map_of_eq_None_iff)

lemma bfs_left_visit:
  assumes "pred \<in> set (concat rv)"
  shows "bfs_left rv (visit_pred skip node d pred b) \<le> bfs_left rv b"
proof (cases "pred \<in> fst ` set (bfs_dist b)")
  case False
  have "set (concat rv) - insert pred (fst ` set (bfs_dist b)) \<subset> set (concat rv) - fst ` set (bfs_dist b)"
    using False assms by blast
  then have "card (set (concat rv) - insert pred (fst ` set (bfs_dist b))) < card (set (concat rv) - fst ` set (bfs_dist b))"
    by (intro psubset_card_mono) auto
  then show ?thesis by (auto simp: bfs_left_def visit_pred_def keys_dict_set)
next
  case True
  then have "dict_get (bfs_dist b) pred \<noteq> None" by (simp only: dict_get_keys)
  then show ?thesis by (simp only: visit_pred_def if_True simp_thms)
qed

lemma bfs_left_fold:
  "set ps \<subseteq> set (concat rv) \<Longrightarrow> bfs_left rv (fold (visit_pred skip node d) ps b) \<le> bfs_left rv b"
proof (induction ps arbitrary: b)
  case (Cons p ps)
  then have "bfs_left rv (visit_pred skip node d p b) \<le> bfs_left rv b" by (intro bfs_left_visit) auto
  then show ?case using Cons.IH [of "visit_pred skip node d p b"] Cons.prems by simp
qed simp

lemma bfs_left_expand: "bfs_left rv (expand_node rv hops skip node b) \<le> bfs_left rv b"
proof -
  have "set (preds rv node) \<subseteq> set (concat rv)" by (auto simp: preds_def intro: nth_mem)
  then show ?thesis using bfs_left_fold by (simp add: expand_node_def Let_def)
qed

function bfs_loop :: "nat list list \<Rightarrow> nat \<Rightarrow> skips \<Rightarrow> bfs \<Rightarrow> bfs" where
  "bfs_loop rv hops skip b =
     (case bfs_queue b of [] \<Rightarrow> b
      | node # q \<Rightarrow> bfs_loop rv hops skip (expand_node rv hops skip node (b \<lparr> bfs_queue := q \<rparr>)))"
  by pat_completeness auto
termination
proof (relation "measure (\<lambda>(rv, hops, skip, b). bfs_left rv b)", goal_cases)
  case (2 rv hops skip b node q)
  then have "bfs_left rv (b \<lparr> bfs_queue := q \<rparr>) < bfs_left rv b" by (simp add: bfs_left_def)
  then show ?case using bfs_left_expand [of rv hops skip node "b \<lparr> bfs_queue := q \<rparr>"] by simp
qed simp

declare bfs_loop.simps [simp del]

text \<open>\<open>_paths_to\<close>: each host's next hop on a shortest path to the target.\<close>

definition next_hops :: "nat list list \<Rightarrow> nat \<Rightarrow> nat \<Rightarrow> skips \<Rightarrow> (nat, nat) dict" where
  "next_hops rv target hops skip =
     bfs_next (bfs_loop rv hops skip \<lparr> bfs_next = [], bfs_dist = [(target, 0)], bfs_queue = [target] \<rparr>)"

text \<open>\<open>_path\<close>; \<open>None\<close>: a next hop is missing, or they go round in a circle.\<close>

partial_function (option) path_of :: "(nat, nat) dict \<Rightarrow> nat \<Rightarrow> nat \<Rightarrow> nat list option" where
  "path_of nxt s t =
     (if s = t then Some [s]
      else Option.bind (dict_get nxt s) (\<lambda>x. Option.bind (path_of nxt x t) (\<lambda>p. Some (s # p))))"

declare path_of.simps [code]

definition path_between :: "(nat, nat) dict \<Rightarrow> nat \<Rightarrow> nat \<Rightarrow> nat list" where
  "path_between nxt s t = (case path_of nxt s t of Some p \<Rightarrow> p | None \<Rightarrow> [])"

definition paths_to :: "graph \<Rightarrow> string \<Rightarrow> nat \<Rightarrow> (string, string list) dict" where
  "paths_to g target hops =
     (case node_index (g_nodes g) target of None \<Rightarrow> []
      | Some t \<Rightarrow>
          (let nxt = next_hops (reverse_of g) t hops (None, None)
           in map (\<lambda>s. (g_nodes g ! s, map (\<lambda>i. g_nodes g ! i) (path_between nxt s t))) (map fst nxt)))"

section \<open>Cuts\<close>

record cut =
  c_node :: bool \<comment> \<open>the kind: a host, else an edge\<close>
  c_src :: string
  c_dst :: "string option"
  c_ports :: "port list"
  c_before :: nat
  c_after :: nat

definition count_up :: "'a \<Rightarrow> ('a, nat) dict \<Rightarrow> ('a, nat) dict" where
  "count_up x d = dict_set x ((case dict_get d x of None \<Rightarrow> 0 | Some n \<Rightarrow> n) + 1) d"

fun pairwise :: "'a list \<Rightarrow> ('a \<times> 'a) list" where
  "pairwise (a # b # xs) = (a, b) # pairwise (b # xs)"
| "pairwise _ = []"

definition candidate_edges :: "nat list list \<Rightarrow> (nat \<times> nat, nat) dict" where
  "candidate_edges paths = fold count_up (concat (map pairwise paths)) []"

definition candidate_nodes :: "nat list list \<Rightarrow> (nat, nat) dict" where
  "candidate_nodes paths = fold count_up (concat (map (\<lambda>p. butlast (tl p)) paths)) []"

text \<open>\<open>(-count, is host, name, name, a, b)\<close>, sorted as tuples; no two candidates agree on the first four.\<close>

type_synonym candidate = "int \<times> bool \<times> string \<times> string \<times> nat \<times> nat option"

definition cut_candidates :: "graph \<Rightarrow> nat list list \<Rightarrow> candidate list" where
  "cut_candidates g paths =
     sort (map (\<lambda>((a, b), c). (- int c, False, g_nodes g ! a, g_nodes g ! b, a, Some b)) (candidate_edges paths) @
           map (\<lambda>(v, c). (- int c, True, g_nodes g ! v, '''', v, None)) (candidate_nodes paths))"

definition make_cut :: "graph \<Rightarrow> nat list list \<Rightarrow> nat \<Rightarrow> nat \<Rightarrow> nat \<Rightarrow> candidate \<Rightarrow> cut" where
  "make_cut g rv t hops before c =
     (let (_, _, _, _, a, ob) = c in
      case ob of
        Some b \<Rightarrow>
          \<lparr> c_node = False, c_src = g_nodes g ! a, c_dst = Some (g_nodes g ! b),
            c_ports = (case dict_get (g_info g) (a, b) of Some (ports, _) \<Rightarrow> sort ports | None \<Rightarrow> []),
            c_before = before, c_after = length (next_hops rv t hops (Some (a, b), None)) \<rparr>
      | None \<Rightarrow>
          \<lparr> c_node = True, c_src = g_nodes g ! a, c_dst = None, c_ports = [], c_before = before,
            c_after = length (next_hops rv t hops (None, Some a)) \<rparr>)"

definition cut_key :: "cut \<Rightarrow> nat \<times> bool \<times> nat \<times> string \<times> string" where
  "cut_key c = (c_after c, c_node c, length (c_ports c), c_src c, or_empty (c_dst c))"

definition suggest_cuts :: "graph \<Rightarrow> string \<Rightarrow> nat \<Rightarrow> nat \<Rightarrow> nat \<Rightarrow> cut list" where
  "suggest_cuts g target hops keep max_candidates =
     (case node_index (g_nodes g) target of None \<Rightarrow> []
      | Some t \<Rightarrow>
          (let rv = reverse_of g;
               base = next_hops rv t hops (None, None);
               before = length base
           in if before = 0 then []
              else
                let paths = map (\<lambda>s. path_between base s t) (map fst base)
                in take keep (sort_key cut_key
                     (map (make_cut g rv t hops before) (take max_candidates (cut_candidates g paths))))))"

end
