(* ===== verification/ExposureBfs.thy ===== *)
theory ExposureBfs
  imports Exposure
begin

text \<open>
  The breadth-first search of \<open>_paths_to\<close>: it ends with exactly the hosts that reach the target in at
  most \<open>hops\<close> steps, each with the next hop of a shortest path, whatever edge or host is skipped.
\<close>

section \<open>The invariant\<close>

definition arcs :: "nat list list \<Rightarrow> skips \<Rightarrow> (nat \<times> nat) set" where
  "arcs rv skip = {(p, x). p \<in> set (preds rv x) \<and> \<not> skipped skip p x}"

abbreviation dist_of :: "bfs \<Rightarrow> nat \<Rightarrow> nat option" where
  "dist_of b \<equiv> dict_get (bfs_dist b)"

text \<open>What holds of the distances and next hops found so far.\<close>

definition found_ok :: "nat list list \<Rightarrow> nat \<Rightarrow> skips \<Rightarrow> nat \<Rightarrow> bfs \<Rightarrow> bool" where
  "found_ok rv hops skip t b \<longleftrightarrow>
     dist_of b t = Some 0 \<and> (\<forall>x \<in> set (bfs_queue b). dist_of b x \<noteq> None) \<and>
     (\<forall>x d. dist_of b x = Some d \<longrightarrow> d \<le> hops \<and> (x, t) \<in> arcs rv skip ^^ d) \<and>
     (\<forall>p x. dict_get (bfs_next b) p = Some x \<longrightarrow>
        (p, x) \<in> arcs rv skip \<and> (\<exists>d. dist_of b x = Some d \<and> dist_of b p = Some (d + 1))) \<and>
     fst ` set (bfs_next b) = fst ` set (bfs_dist b) - {t} \<and> distinct (map fst (bfs_next b))"

lemma found_dist: "found_ok rv hops skip t b \<Longrightarrow> dist_of b x = Some d \<Longrightarrow> d \<le> hops \<and> (x, t) \<in> arcs rv skip ^^ d"
  by (simp add: found_ok_def)

lemma found_next:
  "found_ok rv hops skip t b \<Longrightarrow> dict_get (bfs_next b) p = Some x \<Longrightarrow>
   (p, x) \<in> arcs rv skip \<and> (\<exists>d. dist_of b x = Some d \<and> dist_of b p = Some (d + 1))"
  by (simp add: found_ok_def del: map_of_eq_Some_iff)

text \<open>The queue is in the order of the distances, from \<open>d\<close> on, and no distance is more than \<open>d + 1\<close>.\<close>

definition queue_ok :: "nat \<Rightarrow> bfs \<Rightarrow> bool" where
  "queue_ok d b \<longleftrightarrow> sorted (map (\<lambda>x. the (dist_of b x)) (bfs_queue b)) \<and>
     (\<forall>x \<in> set (bfs_queue b). d \<le> the (dist_of b x)) \<and> (\<forall>x e. dist_of b x = Some e \<longrightarrow> e \<le> d + 1)"

text \<open>Every arc into a host that is done has its start found; of the arcs into the node at work, those in \<open>D\<close>.\<close>

definition arcs_ok :: "nat list list \<Rightarrow> nat \<Rightarrow> skips \<Rightarrow> (nat \<Rightarrow> nat \<Rightarrow> bool) \<Rightarrow> bfs \<Rightarrow> bool" where
  "arcs_ok rv hops skip D b \<longleftrightarrow>
     (\<forall>p x d. dist_of b x = Some d \<longrightarrow> x \<notin> set (bfs_queue b) \<longrightarrow> d < hops \<longrightarrow> (p, x) \<in> arcs rv skip \<longrightarrow> D p x \<longrightarrow>
        (\<exists>e. dist_of b p = Some e \<and> e \<le> d + 1))"

definition bfs_ok :: "nat list list \<Rightarrow> nat \<Rightarrow> skips \<Rightarrow> nat \<Rightarrow> bfs \<Rightarrow> bool" where
  "bfs_ok rv hops skip t b \<longleftrightarrow>
     found_ok rv hops skip t b \<and> arcs_ok rv hops skip (\<lambda>_ _. True) b \<and>
     (bfs_queue b \<noteq> [] \<longrightarrow> queue_ok (the (dist_of b (hd (bfs_queue b)))) b)"

lemmas bfs_defs = found_ok_def queue_ok_def arcs_ok_def

lemma distinct_keys_set: "distinct (map fst d) \<Longrightarrow> distinct (map fst (dict_set k v d))"
  by (simp add: dict_keys_set)

section \<open>One predecessor\<close>

definition mid_ok :: "nat list list \<Rightarrow> nat \<Rightarrow> skips \<Rightarrow> nat \<Rightarrow> nat \<Rightarrow> nat \<Rightarrow> nat set \<Rightarrow> bfs \<Rightarrow> bool" where
  "mid_ok rv hops skip t node d D b \<longleftrightarrow>
     found_ok rv hops skip t b \<and> queue_ok d b \<and> arcs_ok rv hops skip (\<lambda>p x. x = node \<longrightarrow> p \<in> D) b \<and> dist_of b node = Some d"

lemma visit_new:
  assumes "mid_ok rv hops skip t node d D b" "d < hops" "pred \<in> set (preds rv node)"
    and "dist_of b pred = None" "\<not> skipped skip pred node"
  shows "mid_ok rv hops skip t node d (insert pred D) (visit_pred skip node d pred b)"
proof -
  let ?b = "visit_pred skip node d pred b"
  have b: "?b = \<lparr> bfs_next = dict_set pred node (bfs_next b), bfs_dist = dict_set pred (d + 1) (bfs_dist b),
             bfs_queue = bfs_queue b @ [pred] \<rparr>"
    using assms(4,5) by (simp add: visit_pred_def)
  have arc: "(pred, node) \<in> arcs rv skip" using assms(3,5) by (simp add: arcs_def)
  have ne: "pred \<noteq> t" "pred \<noteq> node" "pred \<notin> set (bfs_queue b)"
    using assms(1,4) by (auto simp: mid_ok_def found_ok_def)
  have dist: "dist_of ?b x = (if x = pred then Some (d + 1) else dist_of b x)" for x
    by (simp add: b dict_simps)
  have nxt: "dict_get (bfs_next ?b) p = (if p = pred then Some node else dict_get (bfs_next b) p)" for p
    by (simp add: b dict_simps)
  have "(node, t) \<in> arcs rv skip ^^ d" using assms(1) by (auto simp: mid_ok_def found_ok_def)
  then have path: "(pred, t) \<in> arcs rv skip ^^ (d + 1)" using relpow_Suc_I2 [OF arc] by simp
  have old: "found_ok rv hops skip t b" "dist_of b node = Some d" using assms(1) by (simp_all add: mid_ok_def)
  have "\<forall>p x. dict_get (bfs_next ?b) p = Some x \<longrightarrow>
      (p, x) \<in> arcs rv skip \<and> (\<exists>d. dist_of ?b x = Some d \<and> dist_of ?b p = Some (d + 1))"
  proof (intro allI impI)
    fix p x
    assume n: "dict_get (bfs_next ?b) p = Some x"
    show "(p, x) \<in> arcs rv skip \<and> (\<exists>d. dist_of ?b x = Some d \<and> dist_of ?b p = Some (d + 1))"
    proof (cases "p = pred")
      case True
      then have "x = node" using n unfolding nxt by simp
      then show ?thesis using True arc old(2) ne(2) unfolding dist by simp
    next
      case False
      then have "dict_get (bfs_next b) p = Some x" using n unfolding nxt by simp
      then obtain e where "(p, x) \<in> arcs rv skip" "dist_of b x = Some e" "dist_of b p = Some (e + 1)"
        using found_next [OF old(1)] by blast
      then show ?thesis using False assms(4) unfolding dist by auto
    qed
  qed
  moreover have "\<forall>x e. dist_of ?b x = Some e \<longrightarrow> e \<le> hops \<and> (x, t) \<in> arcs rv skip ^^ e"
  proof (intro allI impI)
    fix x e
    assume e: "dist_of ?b x = Some e"
    show "e \<le> hops \<and> (x, t) \<in> arcs rv skip ^^ e"
    proof (cases "x = pred")
      case True
      then have "e = d + 1" using e unfolding dist by simp
      then show ?thesis using True path assms(2) by (simp del: relpow.simps)
    next
      case False
      then have "dist_of b x = Some e" using e unfolding dist by simp
      then show ?thesis by (rule found_dist [OF old(1)])
    qed
  qed
  moreover have "fst ` set (bfs_next ?b) = fst ` set (bfs_dist ?b) - {t}" "distinct (map fst (bfs_next ?b))"
    using old(1) ne(1) unfolding found_ok_def by (auto simp: b keys_dict_set distinct_keys_set)
  ultimately have "found_ok rv hops skip t ?b"
    using old(1) ne unfolding found_ok_def dist by (simp add: b)
  moreover have "queue_ok d ?b"
  proof -
    have q: "queue_ok d b" using assms(1) by (simp add: mid_ok_def)
    have "map (\<lambda>x. the (dist_of ?b x)) (bfs_queue b) = map (\<lambda>x. the (dist_of b x)) (bfs_queue b)"
      using ne(3) unfolding dist by (intro map_cong) auto
    moreover have "the (dist_of b x) \<le> d + 1" if "x \<in> set (bfs_queue b)" for x
      using that q old(1) unfolding queue_ok_def found_ok_def by fastforce
    moreover have "map (\<lambda>x. the (dist_of ?b x)) (bfs_queue ?b) = map (\<lambda>x. the (dist_of ?b x)) (bfs_queue b) @ [d + 1]"
      unfolding dist by (simp add: b)
    ultimately have "sorted (map (\<lambda>x. the (dist_of ?b x)) (bfs_queue ?b))"
      using q unfolding queue_ok_def by (simp only:) (auto simp: sorted_append)
    then show ?thesis using q ne(3) unfolding queue_ok_def dist by (auto simp: b)
  qed
  moreover have "arcs_ok rv hops skip (\<lambda>p x. x = node \<longrightarrow> p \<in> insert pred D) ?b"
    unfolding arcs_ok_def
  proof (intro allI impI)
    fix p x e
    assume a: "dist_of ?b x = Some e" "x \<notin> set (bfs_queue ?b)" "e < hops" "(p, x) \<in> arcs rv skip"
      "x = node \<longrightarrow> p \<in> insert pred D"
    have x: "x \<noteq> pred" "dist_of b x = Some e" "x \<notin> set (bfs_queue b)" using a(1,2) by (auto simp: b dict_simps)
    show "\<exists>e'. dist_of ?b p = Some e' \<and> e' \<le> e + 1"
    proof (cases "p = pred \<and> x = node")
      case True
      then show ?thesis using x(2) old(2) unfolding dist by simp
    next
      case False
      then have "x = node \<longrightarrow> p \<in> D" using a(5) by blast
      then obtain e' where "dist_of b p = Some e'" "e' \<le> e + 1"
        using assms(1) a x unfolding mid_ok_def arcs_ok_def by blast
      then show ?thesis using assms(4) unfolding dist by auto
    qed
  qed
  moreover have "dist_of ?b node = Some d" using assms(1) ne dist by (simp add: mid_ok_def)
  ultimately show ?thesis by (simp add: mid_ok_def)
qed

lemma visit_old:
  assumes "mid_ok rv hops skip t node d D b" "dist_of b pred \<noteq> None \<or> skipped skip pred node"
  shows "mid_ok rv hops skip t node d (insert pred D) (visit_pred skip node d pred b)"
proof -
  have b: "visit_pred skip node d pred b = b" using assms(2) by (auto simp: visit_pred_def)
  have "arcs_ok rv hops skip (\<lambda>p x. x = node \<longrightarrow> p \<in> insert pred D) b"
    using assms unfolding mid_ok_def arcs_ok_def queue_ok_def arcs_def by fastforce
  then show ?thesis using assms(1) unfolding b by (simp add: mid_ok_def)
qed

lemma visit_all:
  "mid_ok rv hops skip t node d D b \<Longrightarrow> d < hops \<Longrightarrow> set ps \<subseteq> set (preds rv node) \<Longrightarrow>
   mid_ok rv hops skip t node d (D \<union> set ps) (fold (visit_pred skip node d) ps b)"
proof (induction ps arbitrary: D b)
  case (Cons p ps)
  have "mid_ok rv hops skip t node d (insert p D) (visit_pred skip node d p b)"
    using visit_new [OF Cons.prems(1,2)] visit_old [OF Cons.prems(1)] Cons.prems(3)
    by (cases "dist_of b p = None \<and> \<not> skipped skip p node") auto
  from Cons.IH [OF this Cons.prems(2)] Cons.prems(3) show ?case by simp
qed simp

section \<open>One round of the queue, and the loop\<close>

lemma expand_bfs_ok:
  assumes "bfs_ok rv hops skip t b" "bfs_queue b = node # q"
  shows "bfs_ok rv hops skip t (expand_node rv hops skip node (b \<lparr> bfs_queue := q \<rparr>))"
proof -
  let ?b = "b \<lparr> bfs_queue := q \<rparr>"
  obtain d where d: "dist_of b node = Some d" using assms by (auto simp: bfs_ok_def found_ok_def)
  have "queue_ok d b" using assms d by (simp add: bfs_ok_def)
  then have q: "queue_ok d ?b" by (simp add: queue_ok_def assms(2))
  have "mid_ok rv hops skip t node d {} ?b"
    using assms d q unfolding mid_ok_def bfs_ok_def found_ok_def arcs_ok_def by auto
  moreover have "d \<le> hops" using assms(1) d by (auto simp: bfs_ok_def found_ok_def)
  ultimately have mid: "mid_ok rv hops skip t node d (if d = hops then {} else set (preds rv node)) (expand_node rv hops skip node ?b)"
    using visit_all [of rv hops skip t node d "{}" ?b "preds rv node"] d by (cases "d = hops") (simp_all add: expand_node_def)
  let ?e = "expand_node rv hops skip node ?b"
  have "arcs_ok rv hops skip (\<lambda>_ _. True) ?e"
    unfolding arcs_ok_def
  proof (intro allI impI)
    fix p x e
    assume a: "dist_of ?e x = Some e" "x \<notin> set (bfs_queue ?e)" "e < hops" "(p, x) \<in> arcs rv skip"
    have "x = node \<longrightarrow> p \<in> (if d = hops then {} else set (preds rv node))"
      using a mid by (auto simp: mid_ok_def arcs_def)
    then show "\<exists>e'. dist_of ?e p = Some e' \<and> e' \<le> e + 1"
      using a mid unfolding mid_ok_def arcs_ok_def by blast
  qed
  moreover have "queue_ok (the (dist_of ?e (hd (bfs_queue ?e)))) ?e" if "bfs_queue ?e \<noteq> []"
  proof -
    obtain h qs where h: "bfs_queue ?e = h # qs" using \<open>bfs_queue ?e \<noteq> []\<close> by (cases "bfs_queue ?e") auto
    have "queue_ok d ?e" using mid by (simp add: mid_ok_def)
    moreover from this h have "d \<le> the (dist_of ?e h)" by (simp add: queue_ok_def)
    ultimately show ?thesis by (fastforce simp: queue_ok_def h)
  qed
  ultimately show ?thesis using mid by (simp add: bfs_ok_def mid_ok_def)
qed

lemma bfs_loop_ok:
  "bfs_ok rv hops skip t b \<Longrightarrow> bfs_ok rv hops skip t (bfs_loop rv hops skip b) \<and> bfs_queue (bfs_loop rv hops skip b) = []"
proof (induction rv hops skip b rule: bfs_loop.induct)
  case (1 rv hops skip b)
  show ?case
  proof (cases "bfs_queue b")
    case Nil
    then show ?thesis using "1.prems" by (subst (1 2) bfs_loop.simps) simp
  next
    case (Cons node q)
    show ?thesis
      using "1.IH" [OF Cons expand_bfs_ok [OF "1.prems" Cons]] Cons by (subst (1 2) bfs_loop.simps) simp
  qed
qed

definition searched :: "nat list list \<Rightarrow> nat \<Rightarrow> nat \<Rightarrow> skips \<Rightarrow> bfs" where
  "searched rv target hops skip = bfs_loop rv hops skip \<lparr> bfs_next = [], bfs_dist = [(target, 0)], bfs_queue = [target] \<rparr>"

lemma searched_ok: "bfs_ok rv hops skip t (searched rv t hops skip) \<and> bfs_queue (searched rv t hops skip) = []"
  unfolding searched_def by (rule bfs_loop_ok) (auto simp: bfs_ok_def bfs_defs split: if_splits)

lemma next_hops_searched: "next_hops rv t hops skip = bfs_next (searched rv t hops skip)"
  by (simp add: next_hops_def searched_def)

section \<open>What the search finds\<close>

lemma searched_short:
  assumes "(s, t) \<in> arcs rv skip ^^ n" "n \<le> hops"
  shows "\<exists>e. dist_of (searched rv t hops skip) s = Some e \<and> e \<le> n"
  using assms
proof (induction n arbitrary: s)
  case 0
  then show ?case using searched_ok [of rv hops skip t] by (simp add: bfs_ok_def found_ok_def)
next
  case (Suc n)
  then obtain x where x: "(s, x) \<in> arcs rv skip" "(x, t) \<in> arcs rv skip ^^ n" by (meson relpow_Suc_D2)
  with Suc obtain e where e: "dist_of (searched rv t hops skip) x = Some e" "e \<le> n" by fastforce
  have "arcs_ok rv hops skip (\<lambda>_ _. True) (searched rv t hops skip)" "bfs_queue (searched rv t hops skip) = []"
    using searched_ok by (auto simp: bfs_ok_def)
  with e x(1) Suc.prems(2) have "\<exists>e'. dist_of (searched rv t hops skip) s = Some e' \<and> e' \<le> e + 1"
    unfolding arcs_ok_def by simp
  with e(2) show ?case by fastforce
qed

text \<open>The distances are the shortest ones.\<close>

lemma searched_dist:
  "dist_of (searched rv t hops skip) s = Some d \<longleftrightarrow>
     d \<le> hops \<and> (s, t) \<in> arcs rv skip ^^ d \<and> (\<forall>n < d. (s, t) \<notin> arcs rv skip ^^ n)" (is "?l \<longleftrightarrow> ?r")
proof
  assume l: ?l
  then have "d \<le> hops \<and> (s, t) \<in> arcs rv skip ^^ d"
    using searched_ok [of rv hops skip t] by (simp add: bfs_ok_def found_ok_def)
  moreover have "(s, t) \<notin> arcs rv skip ^^ n" if "n < d" for n
    using searched_short [where s = s and n = n and hops = hops] l that calculation by fastforce
  ultimately show ?r by blast
next
  assume r: ?r
  then obtain e where e: "dist_of (searched rv t hops skip) s = Some e" "e \<le> d" using searched_short by blast
  then have "(s, t) \<in> arcs rv skip ^^ e"
    using searched_ok [of rv hops skip t] by (simp add: bfs_ok_def found_ok_def)
  with r e show ?l by (metis le_neq_implies_less)
qed

definition reaches :: "nat list list \<Rightarrow> skips \<Rightarrow> nat \<Rightarrow> nat \<Rightarrow> nat \<Rightarrow> bool" where
  "reaches rv skip hops s t \<longleftrightarrow> (\<exists>n \<le> hops. (s, t) \<in> arcs rv skip ^^ n)"

lemma searched_reaches: "s \<in> fst ` set (bfs_dist (searched rv t hops skip)) \<longleftrightarrow> reaches rv skip hops s t"
proof
  assume "s \<in> fst ` set (bfs_dist (searched rv t hops skip))"
  then obtain d where "dist_of (searched rv t hops skip) s = Some d" unfolding dict_get_keys [symmetric] by blast
  then show "reaches rv skip hops s t" unfolding searched_dist reaches_def by blast
next
  assume "reaches rv skip hops s t"
  then show "s \<in> fst ` set (bfs_dist (searched rv t hops skip))"
    unfolding dict_get_keys [symmetric] reaches_def using searched_short by fastforce
qed

lemma next_hops_keys: "fst ` set (next_hops rv t hops skip) = {s. s \<noteq> t \<and> reaches rv skip hops s t}"
  using searched_ok [of rv hops skip t] searched_reaches [of _ rv t hops skip]
  by (auto simp: next_hops_searched bfs_ok_def found_ok_def)

lemma next_hops_distinct: "distinct (map fst (next_hops rv t hops skip))"
  using searched_ok [of rv hops skip t] by (simp add: next_hops_searched bfs_ok_def found_ok_def)

lemma next_hops_count: "length (next_hops rv t hops skip) = card {s. s \<noteq> t \<and> reaches rv skip hops s t}"
  using distinct_card [OF next_hops_distinct, of rv t hops skip] by (simp add: next_hops_keys)

text \<open>The next hops lead to the target, along a shortest path.\<close>

definition path_ok :: "nat list list \<Rightarrow> skips \<Rightarrow> nat \<Rightarrow> nat \<Rightarrow> nat list \<Rightarrow> bool" where
  "path_ok rv skip s t p \<longleftrightarrow> p \<noteq> [] \<and> hd p = s \<and> last p = t \<and> successively (\<lambda>x y. (x, y) \<in> arcs rv skip) p"

lemma path_of_searched:
  assumes "dist_of (searched rv t hops skip) s = Some d"
  shows "\<exists>p. path_of (next_hops rv t hops skip) s t = Some p \<and> path_ok rv skip s t p \<and> length p = d + 1"
  using assms
proof (induction d arbitrary: s)
  case 0
  then have "s = t" by (simp add: searched_dist)
  then show ?case by (subst path_of.simps) (simp add: path_ok_def)
next
  case (Suc d)
  then have "(s, t) \<notin> arcs rv skip ^^ 0" unfolding searched_dist by blast
  then have "s \<noteq> t" by simp
  moreover have "s \<in> fst ` set (bfs_dist (searched rv t hops skip))"
    using Suc.prems dict_get_keys by (metis option.distinct(1))
  ultimately have "s \<in> fst ` set (next_hops rv t hops skip)"
    using searched_ok [of rv hops skip t] by (simp add: next_hops_searched bfs_ok_def found_ok_def)
  then obtain x where x: "dict_get (next_hops rv t hops skip) s = Some x" unfolding dict_get_keys [symmetric] by blast
  then have a: "(s, x) \<in> arcs rv skip" "dist_of (searched rv t hops skip) x = Some d"
    using searched_ok [of rv hops skip t] Suc.prems by (fastforce simp: next_hops_searched bfs_ok_def found_ok_def)+
  from Suc.IH [OF a(2)] obtain p where p: "path_of (next_hops rv t hops skip) x t = Some p" "path_ok rv skip x t p" "length p = d + 1"
    by blast
  then have "path_of (next_hops rv t hops skip) s t = Some (s # p)" using x \<open>s \<noteq> t\<close> by (subst path_of.simps) simp
  moreover have "path_ok rv skip s t (s # p)" using p(2) a(1) by (cases p) (auto simp: path_ok_def)
  ultimately show ?case using p(3) by simp
qed

end
