(* ===== verification/ExposureGraph.thy ===== *)
theory ExposureGraph
  imports ExposureBfs
begin

text \<open>
  The graph \<open>build_graph\<close> makes is the observed connections: its hosts are their ends, its edges the
  connected pairs with all their ports and their strongest state. Reach counts and paths are then
  about those connections.
\<close>

section \<open>Merging the observed edges\<close>

definition kept :: "bool \<Rightarrow> edge_in list \<Rightarrow> string \<Rightarrow> string \<Rightarrow> edge_in set" where
  "kept enforced es s d = {e \<in> set es. \<not> skips_edge enforced e \<and> ei_src e = s \<and> ei_dst e = d}"

definition links :: "bool \<Rightarrow> edge_in list \<Rightarrow> (string \<times> string) set" where
  "links enforced es = {(s, d). kept enforced es s d \<noteq> {}}"

definition info_ok :: "edge_in set \<Rightarrow> edge_info \<Rightarrow> bool" where
  "info_ok es i \<longleftrightarrow> set (fst i) = (\<lambda>e. (ei_port e, ei_proto e)) ` es \<and> distinct (fst i) \<and>
     snd i \<in> ei_state ` es \<and> (\<forall>e \<in> es. STRENGTH (ei_state e) \<le> STRENGTH (snd i))"

lemma kept_snoc:
  "kept enforced (es @ [e]) s d =
     (if \<not> skips_edge enforced e \<and> ei_src e = s \<and> ei_dst e = d then insert e (kept enforced es s d) else kept enforced es s d)"
  by (auto simp: kept_def)

lemma merge_edges_snoc: "merge_edges enforced (es @ [e]) = merge_edge enforced e (merge_edges enforced es)"
  by (simp add: merge_edges_def)

lemma merged_get:
  "case dict_get (merge_edges enforced es) (s, d) of
     None \<Rightarrow> kept enforced es s d = {} | Some i \<Rightarrow> info_ok (kept enforced es s d) i"
proof (induction es rule: rev_induct)
  case Nil
  then show ?case by (simp add: merge_edges_def kept_def)
next
  case (snoc e es)
  show ?case
  proof (cases "\<not> skips_edge enforced e \<and> ei_src e = s \<and> ei_dst e = d")
    case False
    then have "dict_get (merge_edges enforced (es @ [e])) (s, d) = dict_get (merge_edges enforced es) (s, d)"
      by (auto simp: merge_edges_snoc merge_edge_def Let_def dict_simps split: prod.splits)
    moreover have "kept enforced (es @ [e]) s d = kept enforced es s d" using False by (auto simp: kept_snoc)
    ultimately show ?thesis using snoc by (auto split: option.splits)
  next
    case True
    show ?thesis
    proof (cases "dict_get (merge_edges enforced es) (s, d)")
      case None
      then show ?thesis using True snoc
        by (auto simp: merge_edges_snoc merge_edge_def Let_def dict_simps kept_snoc info_ok_def)
    next
      case (Some i)
      obtain ports st where "i = (ports, st)" by fastforce
      then show ?thesis using True snoc Some
        by (auto simp: merge_edges_snoc merge_edge_def Let_def dict_simps kept_snoc info_ok_def intro: less_imp_le order_trans)
    qed
  qed
qed

lemma merged_distinct: "distinct (map fst (merge_edges enforced es))"
proof (induction es rule: rev_induct)
  case (snoc e es)
  then show ?case by (auto simp: merge_edges_snoc merge_edge_def Let_def dict_keys_set split: prod.splits)
qed (simp add: merge_edges_def)

lemma merged_keys: "fst ` set (merge_edges enforced es) = links enforced es"
proof -
  have "k \<in> fst ` set (merge_edges enforced es) \<longleftrightarrow> k \<in> links enforced es" for k
    using merged_get [of enforced es "fst k" "snd k"] unfolding dict_get_keys [symmetric]
    by (cases k) (auto simp: links_def info_ok_def split: option.splits)
  then show ?thesis by blast
qed

section \<open>The numbering of the hosts\<close>

lemma node_index_nth: "distinct nodes \<Longrightarrow> i < length nodes \<Longrightarrow> node_index nodes (nodes ! i) = Some i"
  unfolding node_index_def by (subst map_of_zip_nth) auto

lemma index_of_nth: "distinct nodes \<Longrightarrow> i < length nodes \<Longrightarrow> index_of nodes (nodes ! i) = i"
  by (simp add: index_of_def node_index_nth)

lemma node_index_None: "node_index nodes n = None \<longleftrightarrow> n \<notin> set nodes"
  unfolding node_index_def by (subst map_of_zip_is_None) auto

lemma nth_index_of: "distinct nodes \<Longrightarrow> n \<in> set nodes \<Longrightarrow> index_of nodes n < length nodes \<and> nodes ! index_of nodes n = n"
  by (metis in_set_conv_nth index_of_nth)

lemma fold_add_out:
  "\<forall>p \<in> set ps. fst p < length out \<Longrightarrow>
   length (fold add_out ps out) = length out \<and>
   (\<forall>i < length out. fold add_out ps out ! i = out ! i @ map snd (filter (\<lambda>p. fst p = i) ps))"
proof (induction ps arbitrary: out)
  case (Cons p ps)
  have "length (add_out p out) = length out" by (simp add: add_out_def)
  moreover have "add_out p out ! i = out ! i @ (if fst p = i then [snd p] else [])" if "i < length out" for i
    using that by (simp add: add_out_def nth_list_update)
  ultimately show ?case using Cons.IH [of "add_out p out"] Cons.prems by auto
qed simp

definition graph_arcs :: "graph \<Rightarrow> (nat \<times> nat) set" where
  "graph_arcs g = {(v, u). v < length (g_out g) \<and> u \<in> set (g_out g ! v)}"

definition wf_graph :: "graph \<Rightarrow> bool" where
  "wf_graph g \<longleftrightarrow> sorted (g_nodes g) \<and> distinct (g_nodes g) \<and> length (g_out g) = size_of g \<and>
     graph_arcs g \<subseteq> {..<size_of g} \<times> {..<size_of g}"

definition named :: "graph \<Rightarrow> (nat \<times> nat) set \<Rightarrow> (string \<times> string) set" where
  "named g R = (\<lambda>(v, u). (g_nodes g ! v, g_nodes g ! u)) ` R"

lemma set_node_names: "set (node_names merged) = fst ` fst ` set merged \<union> snd ` fst ` set merged"
  by (induction merged) (auto simp: node_names_def)

lemma graph_arcs_build:
  assumes "\<forall>p \<in> set pairs. fst p < n"
  shows "{(v, u). v < length (fold add_out pairs (replicate n [])) \<and> u \<in> set (fold add_out pairs (replicate n []) ! v)} = set pairs"
    "length (fold add_out pairs (replicate n [])) = n"
  using fold_add_out [of pairs "replicate n []"] assms by force+

lemma build_graph_parts:
  fixes es enforced
  defines "g \<equiv> build_graph es enforced" and "m \<equiv> merge_edges enforced es"
  shows "g_nodes g = node_names m" "graph_arcs g = (\<lambda>(s, d). (index_of (node_names m) s, index_of (node_names m) d)) ` links enforced es"
    "length (g_out g) = size_of g" "g_info g = map (\<lambda>p. (p, pair_info (node_names m) m p)) (edge_pairs (node_names m) m)"
proof -
  have nodes: "set (node_names m) = fst ` links enforced es \<union> snd ` links enforced es"
    by (simp add: set_node_names m_def merged_keys)
  have d: "distinct (node_names m)" by (simp add: node_names_def)
  have pairs: "set (edge_pairs (node_names m) m) = (\<lambda>(s, d). (index_of (node_names m) s, index_of (node_names m) d)) ` links enforced es"
    unfolding merged_keys [symmetric] m_def [symmetric] by (force simp: edge_pairs_def image_image)
  have "\<forall>p \<in> set (edge_pairs (node_names m) m). fst p < length (node_names m)"
  proof
    fix p
    assume "p \<in> set (edge_pairs (node_names m) m)"
    then obtain s e where "(s, e) \<in> links enforced es" "p = (index_of (node_names m) s, index_of (node_names m) e)"
      unfolding pairs by auto
    then have "s \<in> set (node_names m)" "fst p = index_of (node_names m) s" unfolding nodes by force+
    then show "fst p < length (node_names m)" using nth_index_of [OF d] by simp
  qed
  note out = graph_arcs_build [OF this]
  show n: "g_nodes g = node_names m"
    and "g_info g = map (\<lambda>p. (p, pair_info (node_names m) m p)) (edge_pairs (node_names m) m)"
    by (simp_all add: g_def m_def build_graph_def Let_def)
  have o': "g_out g = fold add_out (edge_pairs (node_names m) m) (replicate (length (node_names m)) [])"
    by (simp add: g_def m_def build_graph_def Let_def)
  show "length (g_out g) = size_of g" by (simp add: size_of_def n o' out(2))
  show "graph_arcs g = (\<lambda>(s, d). (index_of (node_names m) s, index_of (node_names m) d)) ` links enforced es"
    unfolding graph_arcs_def o' out(1) pairs ..
qed

lemma wf_build_graph: "wf_graph (build_graph es enforced)"
proof -
  let ?m = "merge_edges enforced es"
  have d: "distinct (node_names ?m)" and s: "sorted (node_names ?m)" by (simp_all add: node_names_def)
  have n: "set (node_names ?m) = fst ` links enforced es \<union> snd ` links enforced es"
    by (simp add: set_node_names merged_keys)
  have "index_of (node_names ?m) (fst x) < length (node_names ?m) \<and> index_of (node_names ?m) (snd x) < length (node_names ?m)"
    if "x \<in> links enforced es" for x
    using that nth_index_of [OF d] n by auto
  then have "graph_arcs (build_graph es enforced) \<subseteq> {..<length (node_names ?m)} \<times> {..<length (node_names ?m)}"
    unfolding build_graph_parts by (auto simp: case_prod_beta)
  then show ?thesis using d s by (simp add: wf_graph_def build_graph_parts size_of_def)
qed

lemma build_graph_links: "named (build_graph es enforced) (graph_arcs (build_graph es enforced)) = links enforced es"
proof -
  let ?m = "merge_edges enforced es"
  have d: "distinct (node_names ?m)" by (simp add: node_names_def)
  have n: "set (node_names ?m) = fst ` links enforced es \<union> snd ` links enforced es"
    by (simp add: set_node_names merged_keys)
  have "node_names ?m ! index_of (node_names ?m) (fst x) = fst x" "node_names ?m ! index_of (node_names ?m) (snd x) = snd x"
    if "x \<in> links enforced es" for x
    using that nth_index_of [OF d] n by auto
  then show ?thesis by (force simp: named_def build_graph_parts image_image case_prod_beta)
qed

section \<open>Paths over the observed connections\<close>

lemma set_reverse_of: "wf_graph g \<Longrightarrow> arcs (reverse_of g) (None, None) = graph_arcs g"
proof -
  assume wf: "wf_graph g"
  define pairs where "pairs = concat (map (\<lambda>v. map (\<lambda>u. (u, v)) (g_out g ! v)) [0..<length (g_out g)])"
  have ps: "set pairs = {(u, v). (v, u) \<in> graph_arcs g}" by (auto simp: graph_arcs_def pairs_def)
  have f: "fold (\<lambda>v rv. fold (\<lambda>u rv. add_out (u, v) rv) (xs v) rv) vs r = fold add_out (concat (map (\<lambda>v. map (\<lambda>u. (u, v)) (xs v)) vs)) r"
    for xs :: "nat \<Rightarrow> nat list" and vs r
    by (induction vs arbitrary: r) (simp_all add: fold_map comp_def)
  have r: "reverse_of g = fold add_out pairs (replicate (size_of g) [])"
    unfolding reverse_of_def pairs_def by (rule f)
  have "\<forall>p \<in> set pairs. fst p < length (replicate (size_of g) ([] :: nat list))"
    using wf unfolding ps by (auto simp: wf_graph_def)
  note out = fold_add_out [OF this, folded r]
  have n: "length (reverse_of g) = size_of g" using out by simp
  have e: "set (reverse_of g ! i) = {v. (i, v) \<in> set pairs}" if "i < size_of g" for i
    using out that by force
  have "v \<in> set (preds (reverse_of g) u) \<longleftrightarrow> (v, u) \<in> graph_arcs g" for u v
  proof (cases "u < size_of g")
    case True
    then show ?thesis using e [of u] ps by (simp add: preds_def n)
  next
    case False
    then show ?thesis using wf by (auto simp: preds_def n wf_graph_def)
  qed
  then show ?thesis by (auto simp: arcs_def skipped_def)
qed

text \<open>A walk over the numbers is a walk over the names, for any part of the graph.\<close>

lemma node_eq: "wf_graph g \<Longrightarrow> i < size_of g \<Longrightarrow> j < size_of g \<Longrightarrow> g_nodes g ! i = g_nodes g ! j \<longleftrightarrow> i = j"
  by (simp add: wf_graph_def size_of_def nth_eq_iff_index_eq)

lemma named_step:
  assumes "wf_graph g" "R \<subseteq> graph_arcs g" "i < size_of g"
  shows "(g_nodes g ! i, y) \<in> named g R \<longleftrightarrow> (\<exists>k < size_of g. (i, k) \<in> R \<and> y = g_nodes g ! k)"
proof
  assume "(g_nodes g ! i, y) \<in> named g R"
  then obtain v u where vu: "(v, u) \<in> R" "g_nodes g ! i = g_nodes g ! v" "y = g_nodes g ! u"
    by (auto simp: named_def)
  then have n: "v < size_of g" "u < size_of g" using assms by (auto simp: wf_graph_def)
  then have "v = i" using vu(2) node_eq assms by metis
  then show "\<exists>k < size_of g. (i, k) \<in> R \<and> y = g_nodes g ! k" using vu n by blast
next
  assume "\<exists>k < size_of g. (i, k) \<in> R \<and> y = g_nodes g ! k"
  then show "(g_nodes g ! i, y) \<in> named g R" by (force simp: named_def)
qed

lemma relpow_Suc_iff: "(x, z) \<in> R ^^ Suc n \<longleftrightarrow> (\<exists>y. (x, y) \<in> R \<and> (y, z) \<in> R ^^ n)"
  using relpow_Suc_I2 [of x _ R z n] relpow_Suc_D2 [of x z n R] by blast

lemma named_walk:
  assumes "wf_graph g" "R \<subseteq> graph_arcs g" "i < size_of g" "j < size_of g"
  shows "(i, j) \<in> R ^^ n \<longleftrightarrow> (g_nodes g ! i, g_nodes g ! j) \<in> named g R ^^ n"
  using assms(3)
proof (induction n arbitrary: i)
  case 0
  then show ?case using node_eq [OF assms(1) 0 assms(4)] by simp
next
  case (Suc n)
  have "(i, j) \<in> R ^^ Suc n \<longleftrightarrow> (\<exists>k < size_of g. (i, k) \<in> R \<and> (k, j) \<in> R ^^ n)"
    using assms(1,2) unfolding relpow_Suc_iff by (auto simp: wf_graph_def)
  also have "\<dots> \<longleftrightarrow> (\<exists>y. (g_nodes g ! i, y) \<in> named g R \<and> (y, g_nodes g ! j) \<in> named g R ^^ n)"
    unfolding named_step [OF assms(1,2) Suc.prems] using Suc.IH by blast
  finally show ?case unfolding relpow_Suc_iff [of "g_nodes g ! i"] .
qed

text \<open>The hosts that reach a host over some connections in at most \<open>hops\<close> steps, itself left out.\<close>

definition sources :: "(string \<times> string) set \<Rightarrow> nat \<Rightarrow> string \<Rightarrow> string set" where
  "sources ls hops target = {s. s \<noteq> target \<and> (\<exists>n \<le> hops. (s, target) \<in> ls ^^ n)}"

lemma relpow_start: "(s, t) \<in> R ^^ n \<Longrightarrow> s \<noteq> t \<Longrightarrow> s \<in> fst ` R \<and> t \<in> snd ` R"
proof -
  assume st: "(s, t) \<in> R ^^ n" "s \<noteq> t"
  then obtain m where "n = Suc m" by (cases n) auto
  then show ?thesis using relpow_Suc_E2 [of s t m R] relpow_Suc_E [of s t m R] st(1) by (metis fst_conv snd_conv image_eqI)
qed

lemma named_ends: "wf_graph g \<Longrightarrow> R \<subseteq> graph_arcs g \<Longrightarrow> fst ` named g R \<union> snd ` named g R \<subseteq> set (g_nodes g)"
  by (fastforce simp: named_def wf_graph_def size_of_def)

lemma names_of_sources:
  assumes "wf_graph g" "R \<subseteq> graph_arcs g" "t < size_of g"
  shows "(\<lambda>i. g_nodes g ! i) ` {s. s \<noteq> t \<and> (\<exists>n \<le> hops. (s, t) \<in> R ^^ n)} = sources (named g R) hops (g_nodes g ! t)"
proof (intro set_eqI iffI)
  fix x
  assume "x \<in> (\<lambda>i. g_nodes g ! i) ` {s. s \<noteq> t \<and> (\<exists>n \<le> hops. (s, t) \<in> R ^^ n)}"
  then obtain s n where s: "s \<noteq> t" "x = g_nodes g ! s" "n \<le> hops" "(s, t) \<in> R ^^ n" by auto
  have "s \<in> fst ` R" using relpow_start [OF s(4,1)] by simp
  then have "s < size_of g" using assms(1,2) by (auto simp: wf_graph_def)
  then have "(g_nodes g ! s, g_nodes g ! t) \<in> named g R ^^ n"
    using s(4) named_walk [OF assms(1,2) _ assms(3)] by blast
  moreover have "g_nodes g ! s \<noteq> g_nodes g ! t" using s(1) \<open>s < size_of g\<close> node_eq assms by metis
  ultimately show "x \<in> sources (named g R) hops (g_nodes g ! t)" using s(2,3) by (auto simp: sources_def)
next
  fix x
  assume "x \<in> sources (named g R) hops (g_nodes g ! t)"
  then obtain n where x: "x \<noteq> g_nodes g ! t" "n \<le> hops" "(x, g_nodes g ! t) \<in> named g R ^^ n" by (auto simp: sources_def)
  have "x \<in> set (g_nodes g)" using relpow_start [OF x(3,1)] named_ends [OF assms(1,2)] by blast
  then obtain s where s: "s < size_of g" "x = g_nodes g ! s" unfolding size_of_def in_set_conv_nth by auto
  then have "(s, t) \<in> R ^^ n" "s \<noteq> t" using x named_walk [OF assms(1,2) s(1) assms(3)] by auto
  then show "x \<in> (\<lambda>i. g_nodes g ! i) ` {s. s \<noteq> t \<and> (\<exists>n \<le> hops. (s, t) \<in> R ^^ n)}" using x(2) s(2) by blast
qed

text \<open>The search counts the sources, whatever is skipped.\<close>

definition skipped_arcs :: "graph \<Rightarrow> skips \<Rightarrow> (nat \<times> nat) set" where
  "skipped_arcs g skip = {(p, x) \<in> graph_arcs g. \<not> skipped skip p x}"

lemma arcs_reverse_of: "wf_graph g \<Longrightarrow> arcs (reverse_of g) skip = skipped_arcs g skip"
  using set_reverse_of [of g] by (auto simp: arcs_def skipped_arcs_def skipped_def)

lemma next_hops_sources:
  assumes "wf_graph g" "t < size_of g"
  shows "(\<lambda>i. g_nodes g ! i) ` fst ` set (next_hops (reverse_of g) t hops skip) =
      sources (named g (skipped_arcs g skip)) hops (g_nodes g ! t)"
    and "length (next_hops (reverse_of g) t hops skip) = card (sources (named g (skipped_arcs g skip)) hops (g_nodes g ! t))"
    and "fst ` set (next_hops (reverse_of g) t hops skip) \<subseteq> {..<size_of g}"
proof -
  have sub: "skipped_arcs g skip \<subseteq> graph_arcs g" by (auto simp: skipped_arcs_def)
  let ?S = "{s. s \<noteq> t \<and> (\<exists>n \<le> hops. (s, t) \<in> skipped_arcs g skip ^^ n)}"
  have k: "fst ` set (next_hops (reverse_of g) t hops skip) = ?S"
    unfolding next_hops_keys reaches_def arcs_reverse_of [OF assms(1)] ..
  show n: "fst ` set (next_hops (reverse_of g) t hops skip) \<subseteq> {..<size_of g}"
  proof
    fix s
    assume "s \<in> fst ` set (next_hops (reverse_of g) t hops skip)"
    then obtain n where "s \<noteq> t" "(s, t) \<in> skipped_arcs g skip ^^ n" unfolding k by blast
    then have "s \<in> fst ` skipped_arcs g skip" using relpow_start by metis
    then show "s \<in> {..<size_of g}" using sub assms(1) by (auto simp: wf_graph_def)
  qed
  show i: "(\<lambda>i. g_nodes g ! i) ` fst ` set (next_hops (reverse_of g) t hops skip) =
      sources (named g (skipped_arcs g skip)) hops (g_nodes g ! t)"
    unfolding k by (rule names_of_sources [OF assms(1) sub assms(2)])
  have "inj_on (\<lambda>i. g_nodes g ! i) {..<size_of g}"
    by (rule inj_onI) (simp add: node_eq [OF assms(1)])
  then have "inj_on (\<lambda>i. g_nodes g ! i) (fst ` set (next_hops (reverse_of g) t hops skip))"
    using n by (rule inj_on_subset)
  then have "card (sources (named g (skipped_arcs g skip)) hops (g_nodes g ! t)) = card (fst ` set (next_hops (reverse_of g) t hops skip))"
    unfolding i [symmetric] by (rule card_image)
  then show "length (next_hops (reverse_of g) t hops skip) = card (sources (named g (skipped_arcs g skip)) hops (g_nodes g ! t))"
    using next_hops_count [of "reverse_of g" t hops skip] next_hops_keys [of "reverse_of g" t hops skip] by simp
qed

end
