(* ===== verification/ExposureProofs.thy ===== *)
theory ExposureProofs
  imports ExposureGraph
begin

text \<open>
  The three results the pages read: shortest paths into a critical asset, how many hosts each host
  reaches, and what each suggested cut leaves, all stated over the observed connections.
\<close>

unbundle bit_operations_syntax

section \<open>Shortest paths\<close>

abbreviation no_skip :: skips where "no_skip \<equiv> (None, None)"

lemma skipped_none: "skipped_arcs g no_skip = graph_arcs g"
  by (auto simp: skipped_arcs_def skipped_def)

lemma named_build: "named (build_graph es enforced) (skipped_arcs (build_graph es enforced) no_skip) = links enforced es"
  by (simp add: skipped_none build_graph_links)

lemma node_index_Some: "node_index nodes n = Some i \<Longrightarrow> i < length nodes \<and> nodes ! i = n"
  unfolding node_index_def by (drule map_of_SomeD) (auto simp: set_zip)

lemma no_node_sources:
  assumes "wf_graph g" "target \<notin> set (g_nodes g)" "R \<subseteq> graph_arcs g"
  shows "sources (named g R) hops target = {}"
proof -
  have "target \<notin> snd ` named g R" using named_ends [OF assms(1,3)] assms(2) by blast
  then show ?thesis using relpow_start by (fastforce simp: sources_def)
qed

lemma path_named:
  assumes "wf_graph g" "path_ok (reverse_of g) no_skip s t p"
  shows "successively (\<lambda>x y. (x, y) \<in> named g (graph_arcs g)) (map (\<lambda>i. g_nodes g ! i) p)"
proof -
  have "successively (\<lambda>x y. (x, y) \<in> graph_arcs g) p"
    using assms by (simp add: path_ok_def arcs_reverse_of skipped_none)
  then have "successively (\<lambda>x y. (g_nodes g ! x, g_nodes g ! y) \<in> named g (graph_arcs g)) p"
    by (rule successively_mono) (force simp: named_def)
  then show ?thesis by (simp add: successively_map)
qed

text \<open>A shortest chain of connections from \<open>s\<close> to \<open>t\<close>.\<close>

definition shortest_chain :: "(string \<times> string) set \<Rightarrow> string \<Rightarrow> string \<Rightarrow> string list \<Rightarrow> bool" where
  "shortest_chain ls s t p \<longleftrightarrow> p \<noteq> [] \<and> hd p = s \<and> last p = t \<and> successively (\<lambda>x y. (x, y) \<in> ls) p \<and>
     (\<forall>n < length p - 1. (s, t) \<notin> ls ^^ n)"

text \<open>C5. The paths into a host are those of exactly the hosts that reach it in at most \<open>hops\<close> observed connections,
  once each, and each is a shortest chain of connections.\<close>

theorem paths_to_shortest:
  "distinct (map fst (paths_to (build_graph es enforced) target hops)) \<and>
   fst ` set (paths_to (build_graph es enforced) target hops) = sources (links enforced es) hops target \<and>
   (\<forall>(s, p) \<in> set (paths_to (build_graph es enforced) target hops).
      shortest_chain (links enforced es) s target p \<and> length p \<le> hops + 1)"
proof -
  let ?g = "build_graph es enforced"
  note wf = wf_build_graph [of es enforced]
  show ?thesis
  proof (cases "node_index (g_nodes ?g) target")
    case None
    then have "target \<notin> set (g_nodes ?g)" by (simp add: node_index_None)
    then have "sources (links enforced es) hops target = {}"
      using no_node_sources [OF wf _ order_refl] unfolding build_graph_links by blast
    then show ?thesis by (simp add: paths_to_def None)
  next
    case (Some t)
    let ?nxt = "next_hops (reverse_of ?g) t hops no_skip"
    let ?n = "\<lambda>i. g_nodes ?g ! i"
    have t: "t < size_of ?g" "?n t = target" using node_index_Some [OF Some] by (simp_all add: size_of_def)
    note src = next_hops_sources [OF wf t(1), of hops no_skip, unfolded named_build t(2)]
    have p: "paths_to ?g target hops = map (\<lambda>s. (?n s, map ?n (path_between ?nxt s t))) (map fst ?nxt)"
      by (simp add: paths_to_def Some Let_def)
    have "inj_on ?n (set (map fst ?nxt))" using src(3) node_eq [OF wf] by (auto simp: inj_on_def subset_iff)
    then have "distinct (map ?n (map fst ?nxt))" using next_hops_distinct by (simp only: distinct_map)
    moreover have "shortest_chain (links enforced es) (?n s) target (map ?n (path_between ?nxt s t)) \<and>
        length (map ?n (path_between ?nxt s t)) \<le> hops + 1" if s: "s \<in> fst ` set ?nxt" for s
    proof -
      have "s < size_of ?g" using s src(3) by blast
      from s obtain d where d: "dist_of (searched (reverse_of ?g) t hops no_skip) s = Some d"
        unfolding next_hops_keys searched_reaches [symmetric] dict_get_keys [symmetric] by blast
      then obtain p where p: "path_of ?nxt s t = Some p" "path_ok (reverse_of ?g) no_skip s t p" "length p = d + 1"
        using path_of_searched by blast
      have "d \<le> hops" "\<forall>n < d. (s, t) \<notin> graph_arcs ?g ^^ n"
        using d unfolding searched_dist arcs_reverse_of [OF wf] skipped_none by blast+
      then have "\<forall>n < d. (?n s, target) \<notin> links enforced es ^^ n"
        using named_walk [OF wf order_refl \<open>s < size_of ?g\<close> t(1)] unfolding build_graph_links t(2) by blast
      then show ?thesis
        using p path_named [OF wf p(2)] t(2) \<open>d \<le> hops\<close>
        by (auto simp: path_between_def shortest_chain_def path_ok_def build_graph_links hd_map last_map)
    qed
    ultimately show ?thesis unfolding p using src(1) by (auto simp: comp_def image_image)
  qed
qed

section \<open>Reach counts\<close>

lemma bit_count_card: "0 \<le> r \<Longrightarrow> bit_count r = card {i. bit r i} \<and> finite {i. bit r i}"
proof (induction r rule: bit_count.induct)
  case (1 r)
  show ?case
  proof (cases "r \<le> 0")
    case True
    then have "r = 0" using 1 by simp
    then show ?thesis by (simp add: bit_count.simps)
  next
    case False
    then have ih: "bit_count (r div 2) = card {i. bit (r div 2) i}" "finite {i. bit (r div 2) i}" using 1 by auto
    have b: "bit r i \<longleftrightarrow> (case i of 0 \<Rightarrow> odd r | Suc j \<Rightarrow> bit (r div 2) j)" for i
      by (cases i) (simp_all add: bit_0 bit_Suc)
    have s: "{i. bit r i} = (if odd r then {0} else {}) \<union> Suc ` {i. bit (r div 2) i}"
    proof (intro set_eqI iffI)
      fix i assume "i \<in> {i. bit r i}"
      then have "bit r i" by simp
      then show "i \<in> (if odd r then {0} else {}) \<union> Suc ` {i. bit (r div 2) i}" unfolding b [of i] by (cases i) simp_all
    next
      fix i assume "i \<in> (if odd r then {0} else {}) \<union> Suc ` {i. bit (r div 2) i}"
      then have "bit r i" unfolding b [of i] by (cases i) (auto split: if_splits)
      then show "i \<in> {i. bit r i}" by simp
    qed
    have "card (Suc ` {i. bit (r div 2) i}) = card {i. bit (r div 2) i}" by (simp add: card_image)
    moreover have "0 \<notin> Suc ` {i. bit (r div 2) i}" by simp
    ultimately have "card {i. bit r i} = (if odd r then 1 else 0) + card {i. bit (r div 2) i}" "finite {i. bit r i}"
      unfolding s using ih(2) by simp_all
    then show ?thesis using ih False bit_count.simps [of r] by simp
  qed
qed

lemma fold_or_bit: "bit (fold (\<lambda>u acc. acc OR f u) us (a :: int)) i \<longleftrightarrow> bit a i \<or> (\<exists>u \<in> set us. bit (f u) i)"
  by (induction us arbitrary: a) (auto simp: bit_or_iff)

lemma fold_or_nonneg: "0 \<le> (a :: int) \<Longrightarrow> \<forall>u \<in> set us. 0 \<le> f u \<Longrightarrow> 0 \<le> fold (\<lambda>u acc. acc OR f u) us a"
  by (induction us arbitrary: a) (auto simp: or_nonnegative_int_iff)

lemma bit_push_one: "bit (push_bit u 1 :: int) i \<longleftrightarrow> i = u"
  by (auto simp: bit_simps)

definition in_steps :: "('a \<times> 'a) set \<Rightarrow> nat \<Rightarrow> ('a \<times> 'a) set" where
  "in_steps R k = {(v, u). \<exists>n. 1 \<le> n \<and> n \<le> k \<and> (v, u) \<in> R ^^ n}"

lemma in_steps_Suc: "(v, u) \<in> in_steps R (Suc k) \<longleftrightarrow> (v, u) \<in> R \<or> (\<exists>w. (v, w) \<in> R \<and> (w, u) \<in> in_steps R k)"
proof
  assume "(v, u) \<in> in_steps R (Suc k)"
  then obtain n where n: "n \<le> k" "(v, u) \<in> R ^^ Suc n" by (auto simp: in_steps_def Suc_le_eq gr0_conv_Suc)
  then obtain w where w: "(v, w) \<in> R" "(w, u) \<in> R ^^ n" unfolding relpow_Suc_iff by blast
  then show "(v, u) \<in> R \<or> (\<exists>w. (v, w) \<in> R \<and> (w, u) \<in> in_steps R k)"
    using n(1) by (cases n) (auto simp: in_steps_def simp del: relpow.simps(2))
next
  assume "(v, u) \<in> R \<or> (\<exists>w. (v, w) \<in> R \<and> (w, u) \<in> in_steps R k)"
  then consider "(v, u) \<in> R ^^ 1" | w n where "(v, w) \<in> R" "n \<le> k" "(w, u) \<in> R ^^ n" by (auto simp: in_steps_def)
  then show "(v, u) \<in> in_steps R (Suc k)"
  proof cases
    case 2
    then have "(v, u) \<in> R ^^ Suc n" unfolding relpow_Suc_iff by blast
    moreover have "1 \<le> Suc n \<and> Suc n \<le> Suc k" using 2(2) by simp
    ultimately show ?thesis unfolding in_steps_def by blast
  next
    case 1
    moreover have "(1::nat) \<le> 1 \<and> 1 \<le> Suc k" by simp
    ultimately show ?thesis unfolding in_steps_def by blast
  qed
qed

lemma in_steps_mono: "(v, u) \<in> in_steps R k \<Longrightarrow> (v, u) \<in> in_steps R (Suc k)"
  by (auto simp: in_steps_def)

text \<open>After \<open>k\<close> rounds the bitset of a host holds the hosts it reaches in 1 to \<open>k + 1\<close> steps.\<close>

definition reach_ok :: "graph \<Rightarrow> nat \<Rightarrow> int list \<Rightarrow> bool" where
  "reach_ok g k rs \<longleftrightarrow> length rs = size_of g \<and>
     (\<forall>v < size_of g. 0 \<le> rs ! v \<and> (\<forall>u. bit (rs ! v) u \<longleftrightarrow> (v, u) \<in> in_steps (graph_arcs g) k))"

lemma direct_bits_ok:
  assumes "wf_graph g"
  shows "reach_ok g 1 (direct_bits g)"
proof -
  have l: "length (g_out g) = size_of g" using assms by (simp add: wf_graph_def)
  have one: "(v, u) \<in> in_steps R 1 \<longleftrightarrow> (v, u) \<in> R" for v u and R :: "(nat \<times> nat) set"
    using in_steps_Suc [of v u R 0] by (auto simp: in_steps_def)
  have "0 \<le> direct_bits g ! v \<and> (\<forall>u. bit (direct_bits g ! v) u \<longleftrightarrow> (v, u) \<in> graph_arcs g)" if "v < size_of g" for v
    using that fold_or_bit [of "\<lambda>u. push_bit u 1" "g_out g ! v" 0] fold_or_nonneg [of 0 "g_out g ! v" "\<lambda>u. push_bit u 1"]
    by (auto simp: direct_bits_def l bit_simps graph_arcs_def)
  then show ?thesis unfolding reach_ok_def one by (simp add: direct_bits_def l)
qed

lemma reach_step_ok:
  assumes "wf_graph g" "reach_ok g k rs" "k \<noteq> 0"
  shows "reach_ok g (Suc k) (reach_step g rs)"
proof -
  have l: "length (g_out g) = size_of g" using assms by (simp add: wf_graph_def)
  have out: "u < size_of g" if "v < size_of g" "u \<in> set (g_out g ! v)" for v u
  proof -
    have "(v, u) \<in> graph_arcs g" using that l by (simp add: graph_arcs_def)
    then show ?thesis using assms(1) unfolding wf_graph_def by auto
  qed
  have arc: "(v, u) \<in> graph_arcs g \<longleftrightarrow> u \<in> set (g_out g ! v)" if "v < size_of g" for v u
    using that by (simp add: graph_arcs_def l)
  have "0 \<le> reach_step g rs ! v \<and> (\<forall>u. bit (reach_step g rs ! v) u \<longleftrightarrow> (v, u) \<in> in_steps (graph_arcs g) (Suc k))"
    if v: "v < size_of g" for v
  proof -
    have r: "reach_step g rs ! v = fold (\<lambda>u acc. acc OR rs ! u) (g_out g ! v) (rs ! v)" using v by (simp add: reach_step_def l)
    have "\<forall>u \<in> set (g_out g ! v). 0 \<le> rs ! u" "0 \<le> rs ! v" using out [OF v] assms(2) v by (auto simp: reach_ok_def)
    then have "0 \<le> reach_step g rs ! v" unfolding r by (intro fold_or_nonneg)
    moreover have "bit (reach_step g rs ! v) u \<longleftrightarrow> (v, u) \<in> in_steps (graph_arcs g) (Suc k)" for u
    proof -
      have "bit (reach_step g rs ! v) u \<longleftrightarrow>
          (v, u) \<in> in_steps (graph_arcs g) k \<or> (\<exists>w. (v, w) \<in> graph_arcs g \<and> (w, u) \<in> in_steps (graph_arcs g) k)"
        unfolding r fold_or_bit using out [OF v] assms(2) v arc [OF v] by (auto simp: reach_ok_def)
      also have "\<dots> \<longleftrightarrow> (v, u) \<in> in_steps (graph_arcs g) (Suc k)"
      proof -
        obtain j where "k = Suc j" using assms(3) by (cases k) auto
        then have "(v, u) \<in> graph_arcs g \<Longrightarrow> (v, u) \<in> in_steps (graph_arcs g) k" by (simp add: in_steps_Suc)
        then show ?thesis using in_steps_Suc [of v u "graph_arcs g" k] in_steps_mono [of v u "graph_arcs g" k] by blast
      qed
      finally show ?thesis .
    qed
    ultimately show ?thesis by blast
  qed
  then show ?thesis by (simp add: reach_ok_def reach_step_def l)
qed

lemma reach_rounds_ok: "wf_graph g \<Longrightarrow> reach_ok g (Suc n) ((reach_step g ^^ n) (direct_bits g))"
  by (induction n) (use direct_bits_ok reach_step_ok in auto)

text \<open>The hosts a host reaches over some connections in 1 to \<open>k\<close> steps, itself left out.\<close>

definition reached_from :: "(string \<times> string) set \<Rightarrow> nat \<Rightarrow> string \<Rightarrow> string set" where
  "reached_from ls k s = {t. t \<noteq> s \<and> (s, t) \<in> in_steps ls k}"

lemma in_steps_nodes: "R \<subseteq> A \<times> A \<Longrightarrow> (v, u) \<in> in_steps R k \<Longrightarrow> u \<in> A"
proof -
  assume R: "R \<subseteq> A \<times> A" "(v, u) \<in> in_steps R k"
  then obtain n where "(v, u) \<in> R ^^ Suc n" by (auto simp: in_steps_def Suc_le_eq gr0_conv_Suc)
  then show "u \<in> A" using relpow_Suc_E [of v u n R] R(1) by blast
qed

lemma names_of_reached:
  assumes "wf_graph g" "v < size_of g"
  shows "(\<lambda>i. g_nodes g ! i) ` {u. u \<noteq> v \<and> (v, u) \<in> in_steps (graph_arcs g) k} =
    reached_from (named g (graph_arcs g)) k (g_nodes g ! v)"
proof (intro set_eqI iffI)
  have sub: "graph_arcs g \<subseteq> {..<size_of g} \<times> {..<size_of g}" using assms(1) by (simp add: wf_graph_def)
  fix x
  {
    assume "x \<in> (\<lambda>i. g_nodes g ! i) ` {u. u \<noteq> v \<and> (v, u) \<in> in_steps (graph_arcs g) k}"
    then obtain u where u: "u \<noteq> v" "(v, u) \<in> in_steps (graph_arcs g) k" "x = g_nodes g ! u" by blast
    have "u < size_of g" using in_steps_nodes [OF sub u(2)] by simp
    then show "x \<in> reached_from (named g (graph_arcs g)) k (g_nodes g ! v)"
      using u named_walk [OF assms(1) order_refl assms(2)] node_eq [OF assms(1) _ assms(2)]
      by (auto simp: reached_from_def in_steps_def)
  }
  {
    assume x: "x \<in> reached_from (named g (graph_arcs g)) k (g_nodes g ! v)"
    have "named g (graph_arcs g) \<subseteq> set (g_nodes g) \<times> set (g_nodes g)"
      using named_ends [OF assms(1) order_refl] by force
    moreover have "(g_nodes g ! v, x) \<in> in_steps (named g (graph_arcs g)) k" using x by (simp add: reached_from_def)
    ultimately have "x \<in> set (g_nodes g)" by (rule in_steps_nodes)
    then obtain u where u: "u < size_of g" "x = g_nodes g ! u" unfolding size_of_def in_set_conv_nth by auto
    then have "u \<noteq> v \<and> (v, u) \<in> in_steps (graph_arcs g) k"
      using x named_walk [OF assms(1) order_refl assms(2) u(1)] by (auto simp: reached_from_def in_steps_def)
    then show "x \<in> (\<lambda>i. g_nodes g ! i) ` {u. u \<noteq> v \<and> (v, u) \<in> in_steps (graph_arcs g) k}" using u(2) by blast
  }
qed

lemma reach_count_at:
  assumes wf: "wf_graph g" and v: "v < size_of g"
  shows "reach_counts g hops ! v = card (reached_from (named g (graph_arcs g)) (max hops 1) (g_nodes g ! v))"
    "length (reach_counts g hops) = size_of g"
proof -
  let ?rs = "(reach_step g ^^ (hops - 1)) (direct_bits g)"
  have ok: "reach_ok g (max hops 1) ?rs"
    using reach_rounds_ok [OF wf, of "hops - 1"] by (cases hops) simp_all
  then show "length (reach_counts g hops) = size_of g" by (simp add: reach_counts_def reach_ok_def)
  let ?r = "?rs ! v AND NOT (push_bit v 1)"
  have "0 \<le> ?rs ! v" using ok v by (simp add: reach_ok_def)
  then have "0 \<le> ?r" by (simp only: and_nonnegative_int_iff simp_thms)
  moreover have bits: "{u. bit ?r u} = {u. u \<noteq> v \<and> (v, u) \<in> in_steps (graph_arcs g) (max hops 1)}"
    using ok v by (auto simp: reach_ok_def bit_simps)
  ultimately have "bit_count ?r = card {u. u \<noteq> v \<and> (v, u) \<in> in_steps (graph_arcs g) (max hops 1)}"
    using bit_count_card [of ?r] by (simp only: bits)
  also have "\<dots> = card ((\<lambda>i. g_nodes g ! i) ` {u. u \<noteq> v \<and> (v, u) \<in> in_steps (graph_arcs g) (max hops 1)})"
  proof (rule card_image [symmetric], rule inj_onI)
    have sub: "graph_arcs g \<subseteq> {..<size_of g} \<times> {..<size_of g}" using wf by (simp add: wf_graph_def)
    fix x y
    assume "x \<in> {u. u \<noteq> v \<and> (v, u) \<in> in_steps (graph_arcs g) (max hops 1)}"
      "y \<in> {u. u \<noteq> v \<and> (v, u) \<in> in_steps (graph_arcs g) (max hops 1)}" "g_nodes g ! x = g_nodes g ! y"
    moreover from this have "x \<in> {..<size_of g}" "y \<in> {..<size_of g}" using in_steps_nodes [OF sub] by blast+
    ultimately show "x = y" using node_eq [OF wf] by simp
  qed
  also have "\<dots> = card (reached_from (named g (graph_arcs g)) (max hops 1) (g_nodes g ! v))"
    unfolding names_of_reached [OF wf v] ..
  finally have "bit_count ?r = card (reached_from (named g (graph_arcs g)) (max hops 1) (g_nodes g ! v))" .
  then show "reach_counts g hops ! v = card (reached_from (named g (graph_arcs g)) (max hops 1) (g_nodes g ! v))"
    using ok v by (simp add: reach_counts_def Let_def reach_ok_def)
qed

text \<open>C20. The bitset rounds count, for every host in name order, exactly the other hosts it reaches in at most
  \<open>hops\<close> observed connections (one at least).\<close>

theorem reach_counts_exact:
  "reach_counts (build_graph es enforced) hops =
     map (\<lambda>s. card (reached_from (links enforced es) (max hops 1) s)) (g_nodes (build_graph es enforced))"
proof (rule nth_equalityI)
  let ?g = "build_graph es enforced"
  note wf = wf_build_graph [of es enforced]
  have len: "length (reach_counts ?g hops) = size_of ?g"
    using reach_rounds_ok [OF wf, of "hops - 1"] by (simp add: reach_counts_def reach_ok_def)
  then show "length (reach_counts ?g hops) = length (map (\<lambda>s. card (reached_from (links enforced es) (max hops 1) s)) (g_nodes ?g))"
    by (simp add: size_of_def)
  fix v
  assume "v < length (reach_counts ?g hops)"
  then show "reach_counts ?g hops ! v = map (\<lambda>s. card (reached_from (links enforced es) (max hops 1) s)) (g_nodes ?g) ! v"
    using reach_count_at(1) [OF wf, of v hops] by (simp add: len build_graph_links size_of_def)
qed

section \<open>Cuts\<close>

lemma keys_count_up: "fst ` set (fold count_up xs d) = set xs \<union> fst ` set d"
  by (induction xs arbitrary: d) (auto simp: count_up_def keys_dict_set)

lemma pairwise_arcs: "successively (\<lambda>x y. (x, y) \<in> R) p \<Longrightarrow> set (pairwise p) \<subseteq> R"
  by (induction p rule: pairwise.induct) auto

lemma tail_arcs: "successively (\<lambda>x y. (x, y) \<in> R) p \<Longrightarrow> set (tl p) \<subseteq> snd ` R"
  by (induction p rule: pairwise.induct) force+

lemma candidates_inside:
  assumes "\<forall>p \<in> set ps. successively (\<lambda>x y. (x, y) \<in> R) p"
  shows "fst ` set (candidate_edges ps) \<subseteq> R" "fst ` set (candidate_nodes ps) \<subseteq> snd ` R"
proof -
  show "fst ` set (candidate_edges ps) \<subseteq> R"
    using assms pairwise_arcs [of R] unfolding candidate_edges_def keys_count_up by auto
  have "set (butlast (tl p)) \<subseteq> snd ` R" if "p \<in> set ps" for p
    using tail_arcs [of R p] assms that in_set_butlastD by fast
  then show "fst ` set (candidate_nodes ps) \<subseteq> snd ` R"
    unfolding candidate_nodes_def keys_count_up by auto
qed

lemma next_path:
  assumes "s \<in> fst ` set (next_hops rv t hops skip)"
  shows "path_ok rv skip s t (path_between (next_hops rv t hops skip) s t)"
proof -
  from assms obtain d where "dist_of (searched rv t hops skip) s = Some d"
    unfolding next_hops_keys searched_reaches [symmetric] dict_get_keys [symmetric] by blast
  then show ?thesis using path_of_searched by (fastforce simp: path_between_def)
qed

text \<open>The connections a cut leaves.\<close>

definition cut_links :: "cut \<Rightarrow> (string \<times> string) set \<Rightarrow> (string \<times> string) set" where
  "cut_links c ls = (if c_node c then {(s, d) \<in> ls. d \<noteq> c_src c} else ls - {(c_src c, or_empty (c_dst c))})"

lemma named_skip_edge:
  assumes "wf_graph g" "a < size_of g" "b < size_of g"
  shows "named g (skipped_arcs g (Some (a, b), None)) = named g (graph_arcs g) - {(g_nodes g ! a, g_nodes g ! b)}"
proof -
  have "g_nodes g ! v = g_nodes g ! a \<and> g_nodes g ! u = g_nodes g ! b \<longleftrightarrow> v = a \<and> u = b" if "(v, u) \<in> graph_arcs g" for v u
    using that assms node_eq [OF assms(1)] by (auto simp: wf_graph_def)
  then show ?thesis by (fastforce simp: named_def skipped_arcs_def skipped_def)
qed

lemma named_skip_into:
  assumes "wf_graph g" "a < size_of g"
  shows "named g (skipped_arcs g (None, Some a)) = {(s, d) \<in> named g (graph_arcs g). d \<noteq> g_nodes g ! a}"
proof -
  have "g_nodes g ! u = g_nodes g ! a \<longleftrightarrow> u = a" if "(v, u) \<in> graph_arcs g" for v u
    using that assms node_eq [OF assms(1)] by (auto simp: wf_graph_def)
  then show ?thesis by (fastforce simp: named_def skipped_arcs_def skipped_def)
qed

lemma relpow_mono: "R \<subseteq> S \<Longrightarrow> R ^^ n \<subseteq> (S :: ('a \<times> 'a) set) ^^ n"
  by (induction n) (auto simp: relcomp_mono)

lemma sources_mono: "R \<subseteq> S \<Longrightarrow> sources R hops t \<subseteq> sources S hops t"
proof
  assume "R \<subseteq> S"
  fix s
  assume "s \<in> sources R hops t"
  then obtain n where "s \<noteq> t" "n \<le> hops" "(s, t) \<in> R ^^ n" by (auto simp: sources_def)
  moreover from this(3) have "(s, t) \<in> S ^^ n" using relpow_mono [OF \<open>R \<subseteq> S\<close>, of n] by (rule subsetD [rotated])
  ultimately show "s \<in> sources S hops t" by (auto simp: sources_def)
qed

lemma sources_finite: "finite ls \<Longrightarrow> finite (sources ls hops t)"
proof -
  assume "finite ls"
  moreover have "sources ls hops t \<subseteq> fst ` ls"
    by (auto simp: sources_def dest: relpow_start [THEN conjunct1])
  ultimately show ?thesis by (meson finite_imageI finite_subset)
qed

lemma links_finite: "finite (links enforced es)"
proof -
  have "links enforced es \<subseteq> (\<lambda>e. (ei_src e, ei_dst e)) ` set es" by (auto simp: links_def kept_def)
  then show ?thesis by (rule finite_subset) simp
qed

lemma make_cut_counts:
  fixes es enforced
  defines "g \<equiv> build_graph es enforced"
  assumes "t < size_of g" "c = (k, h, x, y, a, ob)" "a < size_of g" "case ob of None \<Rightarrow> True | Some b \<Rightarrow> b < size_of g"
  shows "c_after (make_cut g (reverse_of g) t hops n c) =
    card (sources (cut_links (make_cut g (reverse_of g) t hops n c) (links enforced es)) hops (g_nodes g ! t))"
proof -
  have wf: "wf_graph g" by (simp add: g_def wf_build_graph)
  show ?thesis
  proof (cases ob)
    case None
    then show ?thesis
      using assms(3) next_hops_sources(2) [OF wf assms(2), of hops "(None, Some a)"] named_skip_into [OF wf assms(4)]
      by (simp add: make_cut_def cut_links_def g_def build_graph_links)
  next
    case (Some b)
    then show ?thesis
      using assms(3,5) next_hops_sources(2) [OF wf assms(2), of hops "(Some (a, b), None)"] named_skip_edge [OF wf assms(4), of b]
      by (simp add: make_cut_def cut_links_def g_def build_graph_links)
  qed
qed

text \<open>C19. Every suggested cut states what it does: before it, the hosts that reach the target; after it, the hosts
  that still do when its connection (or every connection into its host) is gone, never more; and at most
  \<open>keep\<close> cuts come, the ones that leave fewest hosts first.\<close>

theorem suggest_cuts_exact:
  "length (suggest_cuts (build_graph es enforced) target hops keep m) \<le> keep \<and>
   sorted (map c_after (suggest_cuts (build_graph es enforced) target hops keep m)) \<and>
   (\<forall>c \<in> set (suggest_cuts (build_graph es enforced) target hops keep m).
      c_before c = card (sources (links enforced es) hops target) \<and>
      c_after c = card (sources (cut_links c (links enforced es)) hops target) \<and> c_after c \<le> c_before c)"
proof (cases "node_index (g_nodes (build_graph es enforced)) target")
  case (Some t)
  let ?g = "build_graph es enforced"
  let ?base = "next_hops (reverse_of ?g) t hops no_skip"
  let ?paths = "map (\<lambda>s. path_between ?base s t) (map fst ?base)"
  let ?cuts = "map (make_cut ?g (reverse_of ?g) t hops (length ?base)) (take m (cut_candidates ?g ?paths))"
  note wf = wf_build_graph [of es enforced]
  have t: "t < size_of ?g" "g_nodes ?g ! t = target" using node_index_Some [OF Some] by (simp_all add: size_of_def)
  have before: "length ?base = card (sources (links enforced es) hops target)"
    using next_hops_sources(2) [OF wf t(1), of hops no_skip] by (simp add: named_build t(2))
  have cuts: "suggest_cuts ?g target hops keep m = (if length ?base = 0 then [] else take keep (sort_key cut_key ?cuts))"
    by (simp add: suggest_cuts_def Some Let_def)
  have paths: "successively (\<lambda>x y. (x, y) \<in> graph_arcs ?g) p" if "p \<in> set ?paths" for p
  proof -
    from that obtain s where "s \<in> fst ` set ?base" "p = path_between ?base s t" by auto
    then show ?thesis
      using next_path [of s "reverse_of ?g" t hops no_skip] by (simp add: path_ok_def arcs_reverse_of [OF wf] skipped_none)
  qed
  have inside: "graph_arcs ?g \<subseteq> {..<size_of ?g} \<times> {..<size_of ?g}" using wf by (simp add: wf_graph_def)
  have cands: "fst ` set (candidate_edges ?paths) \<subseteq> {..<size_of ?g} \<times> {..<size_of ?g}"
    "fst ` set (candidate_nodes ?paths) \<subseteq> {..<size_of ?g}"
  proof -
    have "\<forall>p \<in> set ?paths. successively (\<lambda>x y. (x, y) \<in> graph_arcs ?g) p" by (rule ballI) (rule paths)
    note c = candidates_inside [OF this]
    show "fst ` set (candidate_edges ?paths) \<subseteq> {..<size_of ?g} \<times> {..<size_of ?g}" by (rule order_trans [OF c(1) inside])
    have "snd ` graph_arcs ?g \<subseteq> {..<size_of ?g}" using inside by auto
    then show "fst ` set (candidate_nodes ?paths) \<subseteq> {..<size_of ?g}" by (rule order_trans [OF c(2)])
  qed
  have "c_before c = card (sources (links enforced es) hops target) \<and>
      c_after c = card (sources (cut_links c (links enforced es)) hops target)" if "c \<in> set ?cuts" for c
  proof -
    from that obtain k h x y a ob where c: "(k, h, x, y, a, ob) \<in> set (cut_candidates ?g ?paths)"
      "c = make_cut ?g (reverse_of ?g) t hops (length ?base) (k, h, x, y, a, ob)"
      by (force dest: in_set_takeD)
    then have "a < size_of ?g \<and> (case ob of None \<Rightarrow> True | Some b \<Rightarrow> b < size_of ?g)"
      using cands unfolding cut_candidates_def by (fastforce simp: image_subset_iff)
    then have "c_after c = card (sources (cut_links c (links enforced es)) hops target)"
      using make_cut_counts [OF t(1) refl, of a ob hops "length ?base" k h x y] c(2) t(2) by simp
    moreover have "c_before c = length ?base" using c(2) by (simp add: make_cut_def split: option.splits)
    ultimately show ?thesis using before by simp
  qed
  moreover have "card (sources (cut_links c (links enforced es)) hops target) \<le> card (sources (links enforced es) hops target)" for c
    by (intro card_mono sources_finite links_finite sources_mono) (auto simp: cut_links_def)
  moreover have "sorted (map c_after (take keep (sort_key cut_key ?cuts)))"
  proof -
    have "sorted (map cut_key (take keep (sort_key cut_key ?cuts)))" by (rule sorted_sort_key_take)
    then show ?thesis
      by (simp only: sorted_map) (erule sorted_wrt_mono_rel [rotated], simp add: cut_key_def less_eq_prod_def, linarith)
  qed
  ultimately show ?thesis
    unfolding cuts by (auto dest!: in_set_takeD simp: set_sort)
qed (simp add: suggest_cuts_def)

section \<open>The properties at a concrete graph\<close>

definition example_edges :: "edge_in list" where
  "example_edges =
     [\<lparr> ei_src = ''a'', ei_dst = ''b'', ei_port = 22, ei_proto = 6, ei_state = ES_ALLOWED \<rparr>,
      \<lparr> ei_src = ''b'', ei_dst = ''c'', ei_port = 3389, ei_proto = 6, ei_state = ES_POTENTIALLY_BLOCKED \<rparr>,
      \<lparr> ei_src = ''d'', ei_dst = ''b'', ei_port = 22, ei_proto = 6, ei_state = ES_UNKNOWN \<rparr>]"

theorem paths_to_shortest_witness:
  "shortest_chain (links False example_edges) ''a'' ''c'' [''a'', ''b'', ''c'']"
proof -
  have "(''a'', [''a'', ''b'', ''c'']) \<in> set (paths_to (build_graph example_edges False) ''c'' 2)" by code_simp
  then show ?thesis using paths_to_shortest [of example_edges False "''c''" 2] by blast
qed

theorem suggest_cuts_exact_witness:
  "\<exists>c \<in> set (suggest_cuts (build_graph example_edges False) ''c'' 2 5 10).
     c_before c = 3 \<and> c_after c = 0 \<and> card (sources (cut_links c (links False example_edges)) 2 ''c'') = 0"
proof -
  have "list_ex (\<lambda>c. c_before c = 3 \<and> c_after c = 0) (suggest_cuts (build_graph example_edges False) ''c'' 2 5 10)"
    by code_simp
  then obtain c where "c \<in> set (suggest_cuts (build_graph example_edges False) ''c'' 2 5 10)" "c_before c = 3" "c_after c = 0"
    by (auto simp: list_ex_iff)
  moreover from this have "c_after c = card (sources (cut_links c (links False example_edges)) 2 ''c'')"
    using suggest_cuts_exact [of example_edges False "''c''" 2 5 10] by blast
  ultimately show ?thesis by metis
qed

end
