(* ===== verification/ExposureResult.thy ===== *)
theory ExposureResult
  imports ExposureProofs Lateral PyTime
begin

text \<open>
  The rest of \<open>domain/exposure.py\<close>: pivots by an iterative Tarjan search, edges between environments,
  the graph summed by a label, and \<open>compute_exposure\<close>, what the lateral-movement page reads.
\<close>

section \<open>Articulation points\<close>

text \<open>The undirected neighbours; their order does not matter for the result.\<close>

definition neighbours_of :: "graph \<Rightarrow> nat list list" where
  "neighbours_of g =
     map nub (fold (\<lambda>v adj. fold (\<lambda>u adj. add_out (u, v) (add_out (v, u) adj)) (g_out g ! v) adj)
       [0..<length (g_out g)] (replicate (size_of g) []))"

record tarjan =
  tj_disc :: "nat option list" \<comment> \<open>\<open>- 1\<close> is \<open>None\<close>: not discovered\<close>
  tj_low :: "nat list"
  tj_points :: "nat list"
  tj_clock :: nat
  tj_children :: nat
  tj_stack :: "(nat \<times> nat option \<times> nat) list" \<comment> \<open>node, parent (\<open>- 1\<close> is \<open>None\<close>), next neighbour; the top first\<close>

definition undiscovered :: "tarjan \<Rightarrow> nat \<Rightarrow> bool" where
  "undiscovered s v \<longleftrightarrow> v < length (tj_disc s) \<and> tj_disc s ! v = None"

definition disc_at :: "tarjan \<Rightarrow> nat \<Rightarrow> nat" where
  "disc_at s v = (case tj_disc s ! v of Some n \<Rightarrow> n | None \<Rightarrow> 0)"

definition discover :: "nat \<Rightarrow> tarjan \<Rightarrow> tarjan" where
  "discover v s = s \<lparr> tj_disc := (tj_disc s)[v := Some (tj_clock s)], tj_low := (tj_low s)[v := tj_clock s], tj_clock := tj_clock s + 1 \<rparr>"

definition lower :: "nat \<Rightarrow> nat \<Rightarrow> tarjan \<Rightarrow> tarjan" where
  "lower v n s = s \<lparr> tj_low := (tj_low s)[v := min (tj_low s ! v) n] \<rparr>"

text \<open>One round of \<open>while stack\<close>, for the node on top.\<close>

definition tarjan_round ::
  "nat list list \<Rightarrow> nat \<Rightarrow> nat \<Rightarrow> nat option \<Rightarrow> nat \<Rightarrow> (nat \<times> nat option \<times> nat) list \<Rightarrow> tarjan \<Rightarrow> tarjan" where
  "tarjan_round nb root v parent i rest s =
     (if i < length (preds nb v) then
        (let u = preds nb v ! i; s1 = s \<lparr> tj_stack := (v, parent, i + 1) # rest \<rparr> in
         if Some u = parent then s1
         else if undiscovered s1 u then
           (let s2 = discover u s1;
                s3 = (if v = root then s2 \<lparr> tj_children := tj_children s2 + 1 \<rparr> else s2)
            in s3 \<lparr> tj_stack := (u, Some v, 0) # tj_stack s3 \<rparr>)
         else lower v (disc_at s1 u) s1)
      else
        (let s1 = s \<lparr> tj_stack := rest \<rparr> in
         case parent of
           Some p \<Rightarrow>
             (let s2 = lower p (tj_low s1 ! v) s1 in
              if p \<noteq> root \<and> disc_at s2 p \<le> tj_low s2 ! v then s2 \<lparr> tj_points := p # tj_points s2 \<rparr> else s2)
         | None \<Rightarrow> s1))"

text \<open>Every round moves on in the neighbours of a node, drops a node, or discovers one.\<close>

definition tarjan_left :: "nat list list \<Rightarrow> tarjan \<Rightarrow> nat" where
  "tarjan_left nb s =
     sum_list (map (\<lambda>(v, p, i). length (preds nb v) - i + 1) (tj_stack s)) +
     (\<Sum>v \<in> {v. undiscovered s v}. length (preds nb v) + 2)"

lemma finite_undiscovered [simp]: "finite {v. undiscovered s v}"
  by (rule finite_subset [of _ "{..<length (tj_disc s)}"]) (auto simp: undiscovered_def)

lemma discover_fields [simp]: "tj_stack (discover v s) = tj_stack s" "tj_children (discover v s) = tj_children s"
  by (simp_all add: discover_def)

lemma lower_fields [simp]: "tj_stack (lower v n s) = tj_stack s" "tj_disc (lower v n s) = tj_disc s"
  by (simp_all add: lower_def)

lemma undiscovered_cong: "tj_disc s = tj_disc t \<Longrightarrow> undiscovered s = undiscovered t"
  by (simp add: undiscovered_def fun_eq_iff)

lemma undiscovered_discover: "{x. undiscovered (discover v s) x} = {x. undiscovered s x} - {v}"
proof -
  have "undiscovered (discover v s) x \<longleftrightarrow> undiscovered s x \<and> x \<noteq> v" for x
    by (cases "x = v") (auto simp: undiscovered_def discover_def)
  then show ?thesis by blast
qed

lemma tarjan_left_round:
  assumes "tj_stack s = (v, parent, i) # rest"
  shows "tarjan_left nb (tarjan_round nb root v parent i rest s) < tarjan_left nb s"
proof -
  let ?w = "\<lambda>s. \<Sum>v \<in> {v. undiscovered s v}. length (preds nb v) + 2"
  have w: "?w t = ?w s" if "tj_disc t = tj_disc s" for t using undiscovered_cong [OF that] by simp
  have d: "?w (discover u t) + (length (preds nb u) + 2) = ?w s" if "tj_disc t = tj_disc s" "undiscovered s u" for u t
    using that undiscovered_cong [OF that(1)] undiscovered_discover [of u t]
      sum.remove [of "{v. undiscovered s v}" u "\<lambda>v. length (preds nb v) + 2"] by simp
  consider (move) t where "i < length (preds nb v)" "tarjan_round nb root v parent i rest s = t" "tj_disc t = tj_disc s"
      "tj_stack t = (v, parent, i + 1) # rest"
    | (push) u t where "i < length (preds nb v)" "undiscovered s u" "tj_disc t = tj_disc (discover u s)"
      "tj_stack t = (u, Some v, 0) # (v, parent, i + 1) # rest" "tarjan_round nb root v parent i rest s = t"
    | (pop) t where "tarjan_round nb root v parent i rest s = t" "tj_disc t = tj_disc s" "tj_stack t = rest"
    by (cases "i < length (preds nb v)")
      (fastforce simp: tarjan_round_def Let_def undiscovered_def discover_def split: if_splits option.splits)+
  then show ?thesis
  proof cases
    case move
    then show ?thesis using w [OF move(3)] by (simp add: tarjan_left_def assms)
  next
    case push
    have "?w t = ?w (discover u s)" using undiscovered_cong [OF push(3)] by simp
    then show ?thesis using d [OF refl push(2)] push(1) by (simp add: tarjan_left_def assms push(4,5))
  next
    case pop
    then show ?thesis using w [OF pop(2)] by (simp add: tarjan_left_def assms)
  qed
qed

function tarjan_loop :: "nat list list \<Rightarrow> nat \<Rightarrow> tarjan \<Rightarrow> tarjan" where
  "tarjan_loop nb root s =
     (case tj_stack s of [] \<Rightarrow> s
      | (v, parent, i) # rest \<Rightarrow> tarjan_loop nb root (tarjan_round nb root v parent i rest s))"
  by pat_completeness auto
termination
  by (relation "measure (\<lambda>(nb, root, s). tarjan_left nb s)") (simp_all add: tarjan_left_round)

declare tarjan_loop.simps [simp del]

definition tarjan_root :: "nat list list \<Rightarrow> nat \<Rightarrow> tarjan \<Rightarrow> tarjan" where
  "tarjan_root nb root s =
     (if \<not> undiscovered s root then s
      else
        let s1 = tarjan_loop nb root (discover root (s \<lparr> tj_children := 0, tj_stack := [(root, None, 0)] \<rparr>))
        in if 1 < tj_children s1 then s1 \<lparr> tj_points := root # tj_points s1 \<rparr> else s1)"

definition articulation_points :: "graph \<Rightarrow> string list" where
  "articulation_points g =
     (let n = size_of g;
          s = fold (tarjan_root (neighbours_of g)) [0..<n]
            \<lparr> tj_disc = replicate n None, tj_low = replicate n 0, tj_points = [], tj_clock = 0, tj_children = 0, tj_stack = [] \<rparr>
      in map (\<lambda>p. g_nodes g ! p) (nub (tj_points s)))"

section \<open>Edges between environments, and the graph by a label\<close>

record cross_edge =
  xe_src :: string
  xe_dst :: string
  xe_src_env :: string
  xe_dst_env :: string
  xe_ports :: "port list"
  xe_state :: edge_state

type_synonym label_of = "(string, string option) dict"

definition label_at :: "label_of \<Rightarrow> string \<Rightarrow> string option" where
  "label_at d n = (case dict_get d n of Some v \<Rightarrow> v | None \<Rightarrow> None)"

definition cross_env :: "graph \<Rightarrow> label_of \<Rightarrow> cross_edge list" where
  "cross_env g env_of =
     List.map_filter (\<lambda>((s, d), (ports, state)).
       (case (label_at env_of (g_nodes g ! s), label_at env_of (g_nodes g ! d)) of
          (Some se, Some de) \<Rightarrow>
            (if se \<noteq> [] \<and> de \<noteq> [] \<and> se \<noteq> de
             then Some \<lparr> xe_src = g_nodes g ! s, xe_dst = g_nodes g ! d, xe_src_env = se, xe_dst_env = de,
                         xe_ports = sort ports, xe_state = state \<rparr>
             else None)
        | _ \<Rightarrow> None)) (g_info g)"

type_synonym group_edge = "string option \<times> string option \<times> nat \<times> edge_state"

record group_graph =
  gg_groups :: "string option list"
  gg_edges :: "group_edge list"

definition none_text :: "string option \<Rightarrow> string" where
  "none_text t = (case t of None \<Rightarrow> ''None'' | Some s \<Rightarrow> s)"

definition count_group :: "graph \<Rightarrow> label_of \<Rightarrow> (nat \<times> nat) \<times> edge_info \<Rightarrow>
    (string option \<times> string option, nat \<times> edge_state) dict \<Rightarrow> (string option \<times> string option, nat \<times> edge_state) dict" where
  "count_group g group_of e agg =
     (let ((s, d), (_, state)) = e;
          key = (label_at group_of (g_nodes g ! s), label_at group_of (g_nodes g ! d));
          (n, best) = (case dict_get agg key of None \<Rightarrow> (0, ES_UNKNOWN) | Some v \<Rightarrow> v)
      in dict_set key (n + 1, if STRENGTH best < STRENGTH state then state else best) agg)"

definition collapse :: "graph \<Rightarrow> label_of \<Rightarrow> group_graph" where
  "collapse g group_of =
     (let agg = fold (count_group g group_of) (g_info g) []
      in \<lparr> gg_groups = sort_key (\<lambda>x. (x = None, or_empty x)) (nub (map (label_at group_of) (g_nodes g))),
           gg_edges = map (\<lambda>((a, b), (n, st)). (a, b, n, st))
             (sort_key (\<lambda>((a, b), _). (none_text a, none_text b)) agg) \<rparr>)"

section \<open>The result\<close>

record host_exposure =
  he_key :: string
  he_reach_now :: nat
  he_reach_enforced :: nat
  he_pivot_now :: bool
  he_pivot_enforced :: bool

record asset_exposure =
  ae_key :: string
  ae_sources_now :: nat
  ae_sources_enforced :: nat
  ae_paths :: "string list list"
  ae_cuts :: "cut list"

record foothold =
  fh_host :: string
  fh_name :: string
  fh_port :: int
  fh_proto :: int
  fh_severity :: "string option"

record exposure_result =
  xr_computed_at :: time
  xr_observation :: "time \<times> time"
  xr_hops :: nat
  xr_nodes :: nat
  xr_edges_now :: nat
  xr_edges_enforced :: nat
  xr_unknown_edges :: nat
  xr_hosts :: "host_exposure list"
  xr_assets :: "asset_exposure list"
  xr_cross_env :: "cross_edge list"
  xr_cross_env_total :: nat
  xr_footholds :: "foothold list"
  xr_limits_hit :: "string list"
  xr_groups :: "(string, group_graph) dict"

text \<open>\<open>dict(zip(nodes, counts))\<close> and a lookup with 0 for a host the graph does not have.\<close>

definition reach_of :: "graph \<Rightarrow> nat \<Rightarrow> string \<Rightarrow> nat" where
  "reach_of g hops n = (case dict_get (zip (g_nodes g) (reach_counts g hops)) n of Some k \<Rightarrow> k | None \<Rightarrow> 0)"

definition host_row :: "graph \<Rightarrow> graph \<Rightarrow> nat \<Rightarrow> string \<Rightarrow> host_exposure" where
  "host_row now enf hops n =
     \<lparr> he_key = n, he_reach_now = reach_of now hops n, he_reach_enforced = reach_of enf hops n,
       he_pivot_now = (n \<in> set (articulation_points now)), he_pivot_enforced = (n \<in> set (articulation_points enf)) \<rparr>"

definition asset_row :: "graph \<Rightarrow> graph \<Rightarrow> nat \<Rightarrow> bool \<Rightarrow> string \<Rightarrow> asset_exposure" where
  "asset_row now enf hops detailed a =
     (let paths = paths_to now a hops in
      \<lparr> ae_key = a, ae_sources_now = length paths, ae_sources_enforced = length (paths_to enf a hops),
        ae_paths = (if detailed then take 5 (sort_key (\<lambda>p. (length p, p)) (map snd paths)) else []),
        ae_cuts = (if detailed then suggest_cuts now a hops 3 20 else []) \<rparr>)"

definition cut_group :: "nat \<Rightarrow> group_graph \<Rightarrow> group_graph" where
  "cut_group max_edges gg =
     (if max_edges < length (gg_edges gg)
      then gg \<lparr> gg_edges := sort_key (\<lambda>(a, b, _). (none_text a, none_text b))
             (take max_edges (sort_key (\<lambda>(a, b, n, _). (- int n, none_text a, none_text b)) (gg_edges gg))) \<rparr>
      else gg)"

definition compute_exposure ::
  "edge_in list \<Rightarrow> foothold list \<Rightarrow> nat \<Rightarrow> string list \<Rightarrow> label_of \<Rightarrow> time \<Rightarrow> time \<Rightarrow> time \<Rightarrow> nat \<Rightarrow> nat \<Rightarrow>
   (string, label_of) dict \<Rightarrow> nat \<Rightarrow> exposure_result" where
  "compute_exposure edges footholds hops critical env_of computed_at obs_from obs_to max_assets max_cross_env group_of max_group_edges =
     (let now = build_graph edges False;
          enf = build_graph edges True;
          order = sort_key (\<lambda>a. (- int (length (paths_to now a hops)), a)) (nub critical);
          crossing = sort_key (\<lambda>x. (xe_state x \<noteq> ES_ALLOWED, xe_src x, xe_dst x)) (cross_env now env_of);
          groups = map (\<lambda>(k, d). (k, collapse now d)) group_of
      in \<lparr> xr_computed_at = computed_at, xr_observation = (obs_from, obs_to), xr_hops = hops, xr_nodes = size_of now,
           xr_edges_now = length (g_info now), xr_edges_enforced = length (g_info enf),
           xr_unknown_edges = length (filter (\<lambda>(_, _, st). st = ES_UNKNOWN) (g_info now)),
           xr_hosts = sort_key (\<lambda>h. (- int (he_reach_now h), he_key h)) (map (host_row now enf hops) (g_nodes now)),
           xr_assets = map (\<lambda>(i, a). asset_row now enf hops (i < max_assets) a) (zip [0..<length order] order),
           xr_cross_env = take max_cross_env crossing, xr_cross_env_total = length crossing, xr_footholds = footholds,
           xr_limits_hit = (if max_assets < length order then [''assets''] else []) @
             (if max_cross_env < length crossing then [''cross_env''] else []) @
             map (\<lambda>(k, _). ''groups:'' @ k) (filter (\<lambda>(_, gg). max_group_edges < length (gg_edges gg)) groups),
           xr_groups = map (\<lambda>(k, gg). (k, cut_group max_group_edges gg)) groups \<rparr>)"

section \<open>Enforcement only takes away\<close>

lemma links_enforced: "links True es \<subseteq> links False es"
  by (auto simp: links_def kept_def skips_edge_def)

lemma in_steps_mono_rel: "R \<subseteq> S \<Longrightarrow> in_steps R k \<subseteq> in_steps S k"
  using relpow_mono [of R S] by (fastforce simp: in_steps_def)

lemma reached_from_finite: "finite ls \<Longrightarrow> finite (reached_from ls k s)"
proof -
  assume "finite ls"
  have "ls \<subseteq> UNIV \<times> snd ` ls" by force
  have "reached_from ls k s \<subseteq> snd ` ls"
  proof
    fix t
    assume "t \<in> reached_from ls k s"
    then obtain n where "(s, t) \<in> ls ^^ n" "s \<noteq> t" by (auto simp: reached_from_def in_steps_def)
    then show "t \<in> snd ` ls" using relpow_start by metis
  qed
  with \<open>finite ls\<close> show ?thesis by (meson finite_imageI finite_subset)
qed

lemma reach_of_build:
  "reach_of (build_graph es enforced) hops n =
     (if n \<in> set (g_nodes (build_graph es enforced)) then card (reached_from (links enforced es) (max hops 1) n) else 0)"
proof (cases "n \<in> set (g_nodes (build_graph es enforced))")
  case True
  let ?g = "build_graph es enforced"
  note wf = wf_build_graph [of es enforced]
  obtain v where v: "v < size_of ?g" "g_nodes ?g ! v = n" using True by (auto simp: size_of_def in_set_conv_nth)
  note r = reach_count_at [OF wf v(1), of hops]
  have "distinct (g_nodes ?g)" using wf by (simp add: wf_graph_def)
  moreover have "length (g_nodes ?g) = length (reach_counts ?g hops)" using r(2) by (simp add: size_of_def)
  ultimately have "dict_get (zip (g_nodes ?g) (reach_counts ?g hops)) (g_nodes ?g ! v) = Some (reach_counts ?g hops ! v)"
    using v(1) by (intro map_of_zip_nth) (simp_all add: size_of_def)
  then have "reach_of ?g hops n = reach_counts ?g hops ! v" by (simp only: reach_of_def v(2) option.case)
  then show ?thesis unfolding r(1) build_graph_links v(2) if_P [OF True] .
next
  case False
  then have "dict_get (zip (g_nodes (build_graph es enforced)) (reach_counts (build_graph es enforced) hops)) n = None"
    using set_zip_leftD [of n _ "g_nodes (build_graph es enforced)" "reach_counts (build_graph es enforced) hops"]
    unfolding map_of_eq_None_iff by (metis imageE prod.collapse)
  then have "reach_of (build_graph es enforced) hops n = 0" by (simp only: reach_of_def option.case)
  then show ?thesis using False by (simp only: if_False simp_thms)
qed

lemma paths_to_count: "length (paths_to (build_graph es enforced) a hops) = card (sources (links enforced es) hops a)"
proof (cases "node_index (g_nodes (build_graph es enforced)) a")
  case None
  then show ?thesis
    using no_node_sources [OF wf_build_graph [of es enforced] _ order_refl, of a hops]
    by (simp add: paths_to_def None node_index_None [symmetric] build_graph_links)
next
  case (Some t)
  then have "t < size_of (build_graph es enforced)" "g_nodes (build_graph es enforced) ! t = a"
    using node_index_Some [OF Some] by (simp_all add: size_of_def)
  then show ?thesis
    using next_hops_sources(2) [OF wf_build_graph [of es enforced], of t hops no_skip]
    by (simp add: paths_to_def Some Let_def named_build)
qed



end
