(* ===== verification/AlertRules.thy ===== *)
theory AlertRules
  imports Complex_Main FlowFilter Json
begin

text \<open>
  \<open>domain/alertrules.py\<close>: the six kinds of alert rules, their validation, and which events an event
  rule matches. Python's regular expressions are a parameter \<open>rx\<close>: for a pattern and a text,
  \<open>None\<close> when the pattern does not compile, else whether \<open>re.match\<close> finds a match. A text field of an
  event that is not text reads as absent.
\<close>

type_synonym regex = "string \<Rightarrow> string \<Rightarrow> bool option"

datatype rule_error = RuleError string

section \<open>Patterns\<close>

definition ANY_PATTERNS :: "string list" where
  "ANY_PATTERNS = [''*'', ''any'', ''all'', '''']"

definition looks_like_regex :: "string \<Rightarrow> bool" where
  "looks_like_regex pattern \<longleftrightarrow>
     startswith pattern ''^'' \<or> endswith pattern ''$'' \<or> list_ex (\<lambda>c. c \<in> set (''*+?[](){}$'' @ [CHR 92])) pattern"

definition removeprefix :: "string \<Rightarrow> string \<Rightarrow> string" where
  "removeprefix p s = (if startswith s p then drop (length p) s else s)"

definition anchored :: "string \<Rightarrow> string" where
  "anchored body = ''^'' @ body @ ''$''"

text \<open>\<open>re.compile\<close>: whether a pattern compiles does not depend on the text.\<close>

definition compiles :: "regex \<Rightarrow> string \<Rightarrow> bool" where
  "compiles rx p \<longleftrightarrow> rx p '''' \<noteq> None"

definition check_pattern :: "regex \<Rightarrow> string \<Rightarrow> rule_error + string" where
  "check_pattern rx pattern =
     (let body = removeprefix ''!'' pattern in
      if body \<notin> set ANY_PATTERNS \<and> looks_like_regex body \<and> \<not> compiles rx (anchored body)
      then Inl (RuleError ''not a valid regular expression'') else Inr pattern)"

section \<open>Rules\<close>

record throttle =
  th_count :: nat
  th_period_minutes :: int

record rule_base =
  rb_id :: string
  rb_name :: string
  rb_pack_key :: "string option"
  rb_enabled :: bool
  rb_notify :: bool
  rb_severity :: "severity option"
  rb_cooldown_minutes :: int
  rb_throttle :: "throttle option"

record event_rule = rule_base +
  er_event_types :: "string list"
  er_status :: string
  er_event_severity :: string
  er_match_fields :: "(string, string) dict"
  er_threshold :: threshold_type
  er_threshold_count :: nat
  er_window_minutes :: int

record flow_rule = rule_base +
  fr_condition :: flow_condition
  fr_window_minutes :: int

record traffic_rule = flow_rule +
  tr_threshold_connections :: int

record bandwidth_rule = flow_rule +
  br_threshold_mbps :: rat

record volume_rule = flow_rule +
  vr_threshold_mb :: rat

record system_rule = rule_base +
  sr_check :: system_check

record lateral_rule = rule_base +
  lr_detectors :: "detector_kind list"
  lr_min_severity :: severity
  lr_critical_assets_only :: bool
  lr_exclude :: "endpoint_filter option"

definition hex_digits :: string where "hex_digits = ''0123456789abcdef''"

definition id_ok :: "string \<Rightarrow> bool" where
  "id_ok v \<longleftrightarrow> length v = 32 \<and> list_all (\<lambda>c. c \<in> set hex_digits) v"

definition throttle_ok :: "throttle \<Rightarrow> bool" where
  "throttle_ok t \<longleftrightarrow> 1 \<le> th_count t \<and> th_count t \<le> 1000 \<and> 1 \<le> th_period_minutes t \<and> th_period_minutes t \<le> 10080"

text \<open>The validators of \<open>RuleBase\<close>, and the severity the other kinds require.\<close>

definition check_base :: "'a rule_base_scheme \<Rightarrow> rule_error option" where
  "check_base r =
     (if \<not> id_ok (rb_id r) then Some (RuleError ''must be 32 lowercase hexadecimal characters'')
      else if 120 < length (rb_name r) then Some (RuleError ''name too long'')
      else if rb_cooldown_minutes r < 0 \<or> 10080 < rb_cooldown_minutes r then Some (RuleError ''cooldown out of range'')
      else if (case rb_throttle r of None \<Rightarrow> False | Some t \<Rightarrow> \<not> throttle_ok t) then Some (RuleError ''throttle out of range'')
      else if rb_name r = '''' \<and> \<not> truthy_str (rb_pack_key r) then Some (RuleError ''a rule needs a name'')
      else None)"

definition check_severity :: "'a rule_base_scheme \<Rightarrow> rule_error option" where
  "check_severity r = (if rb_severity r = None then Some (RuleError ''severity is required'') else None)"

fun check_all :: "(string \<Rightarrow> rule_error + string) \<Rightarrow> string list \<Rightarrow> rule_error option" where
  "check_all f [] = None"
| "check_all f (p # ps) = (case f p of Inl e \<Rightarrow> Some e | Inr _ \<Rightarrow> check_all f ps)"

definition check_event_rule :: "regex \<Rightarrow> event_rule \<Rightarrow> rule_error + event_rule" where
  "check_event_rule rx r =
     (case check_base r of Some e \<Rightarrow> Inl e
      | None \<Rightarrow>
          (let types = map py_strip (er_event_types r) in
           if er_event_types r = [] then Inl (RuleError ''too short'')
           else if '''' \<in> set types then Inl (RuleError ''an event type cannot be empty'')
           else if er_threshold_count r < 1 \<or> er_window_minutes r < 1 \<or> 1440 < er_window_minutes r then Inl (RuleError ''out of range'')
           else if list_ex (\<lambda>(path, _). py_strip path = '''') (er_match_fields r) then Inl (RuleError ''a field path cannot be empty'')
           else
             case check_all (check_pattern rx)
                 (types @ [py_strip (er_status r), py_strip (er_event_severity r)] @ map snd (er_match_fields r)) of
               Some e \<Rightarrow> Inl e
             | None \<Rightarrow> Inr (r \<lparr> er_event_types := types, er_status := py_strip (er_status r),
                              er_event_severity := py_strip (er_event_severity r) \<rparr>)))"

definition check_flow_rule :: "'a flow_rule_scheme \<Rightarrow> rule_error option" where
  "check_flow_rule r =
     (case check_base r of Some e \<Rightarrow> Some e
      | None \<Rightarrow>
          (if fr_window_minutes r < 10 \<or> 1440 < fr_window_minutes r then Some (RuleError ''out of range'') else check_severity r))"

definition check_lateral_rule :: "lateral_rule \<Rightarrow> rule_error option" where
  "check_lateral_rule r =
     (case check_base r of Some e \<Rightarrow> Some e
      | None \<Rightarrow> (if lr_detectors r = [] then Some (RuleError ''too short'') else None))"

section \<open>Matching\<close>

text \<open>A pattern that does not compile cannot match.\<close>

definition regex_match :: "regex \<Rightarrow> string \<Rightarrow> string \<Rightarrow> bool" where
  "regex_match rx pattern t = (rx pattern t = Some True)"

fun value_matches :: "regex \<Rightarrow> string \<Rightarrow> string option \<Rightarrow> bool" where
  "value_matches rx [] v = True"
| "value_matches rx (c # r) v =
     (if c # r \<in> set ANY_PATTERNS then True
      else if c = CHR ''!'' then \<not> value_matches rx r v
      else if CHR ''|'' \<in> set (c # r) \<and> \<not> looks_like_regex (c # r) then or_empty v \<in> set (split_on CHR ''|'' (c # r))
      else if looks_like_regex (c # r) then regex_match rx (anchored (c # r)) (or_empty v)
      else c # r = or_empty v)"

definition canon_severity :: "string option \<Rightarrow> string" where
  "canon_severity v = (let t = py_lower (py_strip (or_empty v)) in if t = ''error'' then ''err'' else t)"

lemma py_strip_length: "length (py_strip s) \<le> length s"
proof -
  have "length (dropWhile P xs) \<le> length xs" for P and xs :: string by (rule length_dropWhile_le)
  then show ?thesis by (simp add: py_strip_def) (metis le_trans length_rev)
qed

function severity_matches :: "regex \<Rightarrow> string \<Rightarrow> string option \<Rightarrow> bool" where
  "severity_matches rx pattern v =
     (let p = py_strip pattern in
      if startswith p ''!'' then \<not> severity_matches rx (tl p) v
      else if looks_like_regex p then value_matches rx p v \<or> value_matches rx p (Some (canon_severity v))
      else value_matches rx (py_join ''|'' (map (\<lambda>q. canon_severity (Some q)) (split_on CHR ''|'' p))) (Some (canon_severity v)))"
  by pat_completeness auto
termination
proof (relation "measure (\<lambda>(rx, p, v). length p)", goal_cases)
  case (2 rx pattern v p)
  then have "p \<noteq> []" by auto
  then have "length (tl p) < length p" by (cases p) simp_all
  then show ?case using py_strip_length [of pattern] 2(1) by simp
qed simp

declare severity_matches.simps [simp del]

fun extract_parts :: "json \<Rightarrow> string list \<Rightarrow> json option" where
  "extract_parts current [] = Some current"
| "extract_parts current (part # parts) =
     (case current of
        JObj ps \<Rightarrow> (if part \<in> fst ` set ps then extract_parts (jget ps part) parts else None)
      | _ \<Rightarrow> None)"

definition extract_path :: "jobj \<Rightarrow> string \<Rightarrow> string option" where
  "extract_path event path =
     (case extract_parts (JObj event) (split_on CHR ''.'' path) of
        None \<Rightarrow> None | Some JNull \<Rightarrow> None | Some j \<Rightarrow> Some (py_str j))"

definition type_matches :: "regex \<Rightarrow> string \<Rightarrow> string \<Rightarrow> bool" where
  "type_matches rx pattern event_type =
     (if pattern \<in> {''*'', ''.*'', ''''} then True
      else if CHR ''|'' \<in> set pattern \<and> \<not> looks_like_regex pattern then event_type \<in> set (split_on CHR ''|'' pattern)
      else if looks_like_regex pattern
      then regex_match rx (if startswith pattern ''^'' then pattern else anchored pattern) event_type
      else pattern = event_type)"

definition field_matches :: "regex \<Rightarrow> jobj \<Rightarrow> string \<times> string \<Rightarrow> bool" where
  "field_matches rx event f =
     (let (path, pattern) = f in
      if path = ''notification_type'' then
        list_ex (\<lambda>n. case n of JObj ps \<Rightarrow> value_matches rx pattern (Some (str_or_blank (jget ps ''notification_type''))) | _ \<Rightarrow> False)
          (j_list (jget event ''notifications''))
      else value_matches rx pattern (extract_path event path))"

definition event_matches :: "regex \<Rightarrow> event_rule \<Rightarrow> jobj \<Rightarrow> bool" where
  "event_matches rx rule event \<longleftrightarrow>
     list_ex (\<lambda>p. type_matches rx p (str_or_blank (jget event ''event_type''))) (er_event_types rule) \<and>
     value_matches rx (er_status rule) (j_str (jget event ''status'')) \<and>
     severity_matches rx (er_event_severity rule) (j_str (jget event ''severity'')) \<and>
     list_all (field_matches rx event) (er_match_fields rule)"

definition uses_regex :: "event_rule \<Rightarrow> bool" where
  "uses_regex rule \<longleftrightarrow> list_ex (\<lambda>p. p \<in> {''*'', ''.*'', ''''} \<or> looks_like_regex p) (er_event_types rule)"

definition exact_types :: "event_rule \<Rightarrow> string list" where
  "exact_types rule = concat (map (split_on CHR ''|'') (er_event_types rule))"

section \<open>What an evaluation reads\<close>

text \<open>A rule without regular expressions matches no event outside the types it names: reading only the events
  of \<open>exact_types\<close> misses none.\<close>

lemma exact_types_cover:
  assumes "\<not> uses_regex rule" "event_matches rx rule event"
  shows "str_or_blank (jget event ''event_type'') \<in> set (exact_types rule)"
proof -
  let ?t = "str_or_blank (jget event ''event_type'')"
  obtain p where p: "p \<in> set (er_event_types rule)" "type_matches rx p ?t"
    using assms(2) by (auto simp: event_matches_def list_ex_iff)
  have "p \<notin> {''*'', ''.*'', ''''} \<and> \<not> looks_like_regex p" using assms(1) p(1) by (auto simp: uses_regex_def list_ex_iff)
  with p(2) have "?t \<in> set (split_on CHR ''|'' p)"
    unfolding type_matches_def using split_on_no_sep [of "CHR ''|''" p] by (auto split: if_splits)
  then show ?thesis using p(1) by (auto simp: exact_types_def)
qed

definition example_event_rule :: event_rule where
  "example_event_rule =
     \<lparr> rb_id = ''0123456789abcdef0123456789abcdef'', rb_name = ''agents'', rb_pack_key = None, rb_enabled = True,
       rb_notify = True, rb_severity = None, rb_cooldown_minutes = 10, rb_throttle = None,
       er_event_types = [''agent.tampering|agent.suspend''], er_status = '''', er_event_severity = ''!info'',
       er_match_fields = [], er_threshold = TT_IMMEDIATE, er_threshold_count = 1, er_window_minutes = 60 \<rparr>"

lemma exact_types_cover_witness:
  "''agent.suspend'' \<in> set (exact_types example_event_rule)"
proof -
  let ?e = "[(''event_type'', JStr ''agent.suspend''), (''severity'', JStr ''err'')]"
  have "event_matches (\<lambda>_ _. None) example_event_rule ?e" by code_simp
  moreover have "\<not> uses_regex example_event_rule" by code_simp
  moreover have "str_or_blank (jget ?e ''event_type'') = ''agent.suspend''" by code_simp
  ultimately show ?thesis using exact_types_cover [of example_event_rule "\<lambda>_ _. None" ?e] by simp
qed

end
