(* ===== verification/Alerting.thy ===== *)
theory Alerting
  imports AlertRules PyTime
begin

text \<open>
  \<open>domain/alerting.py\<close>: pure functions from rules and facts to triggers, and the cooldown and throttle
  gate. A trigger carries a message key and parameters; floating-point numbers are exact fractions
  (rates and sizes are quotients by powers of two, comparisons are exact).
\<close>

section \<open>Triggers\<close>

type_synonym gap = "time \<times> time \<times> string"

definition EVIDENCE_ROWS :: int where "EVIDENCE_ROWS = 200"
definition LATE_AFTER :: time where "LATE_AFTER = 2 * 3600 * 1000000"
definition FAILURES_TO_REPORT :: int where "FAILURES_TO_REPORT = 3"

text \<open>What a parameter or fact may be: a JSON value, a number with a fraction, a list or a dictionary of these.\<close>

datatype fact = FJ json | FN rat | FL "fact list" | FD "(string \<times> fact) list"

fun EVENT_MESSAGE_KEYS :: "threshold_type \<Rightarrow> string" where
  "EVENT_MESSAGE_KEYS TT_IMMEDIATE = ''alert_event_immediate''"
| "EVENT_MESSAGE_KEYS TT_COUNT = ''alert_event_count''"

definition EVENT_SUBJECT_KEYS :: "(string, string) dict" where
  "EVENT_SUBJECT_KEYS = [(''actor'', ''alert_event_immediate_actor''), (''none'', ''alert_event_immediate_none'')]"

fun FLOW_MESSAGE_KEYS :: "alert_rule_type \<Rightarrow> string option" where
  "FLOW_MESSAGE_KEYS ART_TRAFFIC = Some ''alert_traffic''"
| "FLOW_MESSAGE_KEYS ART_VOLUME = Some ''alert_volume''"
| "FLOW_MESSAGE_KEYS ART_BANDWIDTH = Some ''alert_bandwidth''"
| "FLOW_MESSAGE_KEYS _ = None"

fun SYSTEM_MESSAGE_KEYS :: "system_check \<Rightarrow> string" where
  "SYSTEM_MESSAGE_KEYS SC_PCE_HEALTH = ''alert_system_pce_health''"
| "SYSTEM_MESSAGE_KEYS SC_COLLECTION_FAILING = ''alert_system_collection_failing''"
| "SYSTEM_MESSAGE_KEYS SC_DATA_LOSS = ''alert_system_data_loss''"
| "SYSTEM_MESSAGE_KEYS SC_JOB_FAILING = ''alert_system_job_failing''"
| "SYSTEM_MESSAGE_KEYS SC_DISK_LOW = ''alert_system_disk_low''"
| "SYSTEM_MESSAGE_KEYS SC_SIEM_BACKLOG = ''alert_system_siem_backlog''"

fun DETECTION_TITLE_KEYS :: "detector_kind \<Rightarrow> string" where
  "DETECTION_TITLE_KEYS DK_FANOUT = ''focus_title_fanout''"
| "DETECTION_TITLE_KEYS DK_NEW_ADMIN_CONNECTION = ''focus_title_new_admin_connection''"
| "DETECTION_TITLE_KEYS DK_PIVOT_CHAIN = ''focus_title_pivot_chain''"
| "DETECTION_TITLE_KEYS DK_BLOCKED_SURGE = ''focus_title_blocked_surge''"
| "DETECTION_TITLE_KEYS DK_NON_ADMIN_GROUP = ''focus_title_non_admin_group''"
| "DETECTION_TITLE_KEYS DK_CROSS_ENV = ''focus_title_cross_env''"
| "DETECTION_TITLE_KEYS DK_ACCOUNT_FANOUT = ''focus_title_account_fanout''"
| "DETECTION_TITLE_KEYS DK_UNEXPECTED_INITIATOR = ''focus_title_unexpected_initiator''"
| "DETECTION_TITLE_KEYS DK_PEER_DEVIATION = ''focus_title_peer_deviation''"
| "DETECTION_TITLE_KEYS DK_VOLUME_SURGE = ''focus_title_volume_surge''"
| "DETECTION_TITLE_KEYS DK_ACCOUNT_NEW_SOURCE = ''focus_title_account_new_source''"
| "DETECTION_TITLE_KEYS DK_SUSPICIOUS_TOOL = ''focus_title_suspicious_tool''"
| "DETECTION_TITLE_KEYS DK_NEW_PROCESS = ''focus_title_new_process''"
| "DETECTION_TITLE_KEYS DK_AUTH_TO_NON_DC = ''focus_title_auth_to_non_dc''"
| "DETECTION_TITLE_KEYS DK_NEW_DC_CLIENT = ''focus_title_new_dc_client''"
| "DETECTION_TITLE_KEYS DK_DIRECTORY_SURGE = ''focus_title_directory_surge''"
| "DETECTION_TITLE_KEYS DK_DIRECTION_REVERSAL = ''focus_title_direction_reversal''"
| "DETECTION_TITLE_KEYS DK_NEW_PAIR_PORT = ''focus_title_new_pair_port''"
| "DETECTION_TITLE_KEYS DK_QUIET_HOST_WAKES = ''focus_title_quiet_host_wakes''"
| "DETECTION_TITLE_KEYS DK_DATA_STAGING = ''focus_title_data_staging''"
| "DETECTION_TITLE_KEYS DK_OFF_HOURS = ''focus_title_off_hours''"

record alert_confidence =
  cf_latency_seconds :: "int option"
  cf_window :: "(time \<times> time) option"
  cf_field :: "string option"
  cf_covered :: "int option"
  cf_total :: "int option"
  cf_incomplete_gaps :: "gap list"

definition no_confidence :: alert_confidence where
  "no_confidence = \<lparr> cf_latency_seconds = None, cf_window = None, cf_field = None, cf_covered = None, cf_total = None,
     cf_incomplete_gaps = [] \<rparr>"

text \<open>The analysis segment that reproduces the evidence: a detail view of at most \<open>EVIDENCE_ROWS\<close> rows.\<close>

datatype evidence =
    FlowEvidence filter_spec
  | EventEvidence time time "string list" "string list"

record trigger =
  tg_rule_id :: string
  tg_rule_type :: alert_rule_type
  tg_subject_key :: string
  tg_severity :: severity
  tg_first_seen :: time
  tg_last_seen :: time
  tg_late :: bool
  tg_message_key :: string
  tg_params :: "(string, fact) dict"
  tg_facts :: "(string, fact) dict"
  tg_evidence :: "evidence option"
  tg_confidence :: alert_confidence

section \<open>The gate\<close>

record rule_state =
  rs_last_fired_at :: "time option"
  rs_recent :: "time list"

datatype gate_reason = GR_OK | GR_COOLDOWN | GR_THROTTLE

record gate_result =
  gr_allowed :: bool
  gr_reason :: gate_reason
  gr_next_allowed_at :: "time option"
  gr_state :: rule_state

definition minutes :: "int \<Rightarrow> time" where "minutes n = n * 60 * 1000000"

definition fresh_state :: rule_state where
  "fresh_state = \<lparr> rs_last_fired_at = None, rs_recent = [] \<rparr>"

definition still_recent :: "'a rule_base_scheme \<Rightarrow> rule_state \<Rightarrow> time \<Rightarrow> time list" where
  "still_recent rule st now =
     (case rb_throttle rule of None \<Rightarrow> []
      | Some th \<Rightarrow> filter (\<lambda>t. now - minutes (th_period_minutes th) < t) (rs_recent st))"

definition cooling_until :: "'a rule_base_scheme \<Rightarrow> rule_state \<Rightarrow> time option" where
  "cooling_until rule st =
     (if rb_cooldown_minutes rule = 0 then None
      else map_option (\<lambda>t. t + minutes (rb_cooldown_minutes rule)) (rs_last_fired_at st))"

definition refused :: "gate_reason \<Rightarrow> time \<Rightarrow> rule_state \<Rightarrow> gate_result" where
  "refused why until kept = \<lparr> gr_allowed = False, gr_reason = why, gr_next_allowed_at = Some until, gr_state = kept \<rparr>"

definition throttle_gate :: "'a rule_base_scheme \<Rightarrow> rule_state \<Rightarrow> time \<Rightarrow> gate_result" where
  "throttle_gate rule kept now =
     (let allowed = (\<lambda>recent. \<lparr> gr_allowed = True, gr_reason = GR_OK, gr_next_allowed_at = None,
                               gr_state = \<lparr> rs_last_fired_at = Some now, rs_recent = recent \<rparr> \<rparr>)
      in case rb_throttle rule of
           None \<Rightarrow> allowed []
         | Some th \<Rightarrow>
             (if th_count th \<le> length (rs_recent kept)
              then refused GR_THROTTLE (hd (rs_recent kept) + minutes (th_period_minutes th)) kept
              else allowed (rs_recent kept @ [now])))"

definition gate :: "'a rule_base_scheme \<Rightarrow> rule_state option \<Rightarrow> time \<Rightarrow> gate_result" where
  "gate rule state now =
     (let st = (case state of None \<Rightarrow> fresh_state | Some s \<Rightarrow> s);
          kept = \<lparr> rs_last_fired_at = rs_last_fired_at st, rs_recent = still_recent rule st now \<rparr>
      in case cooling_until rule st of
           None \<Rightarrow> throttle_gate rule kept now
         | Some until \<Rightarrow> (if now < until then refused GR_COOLDOWN until kept else throttle_gate rule kept now))"

section \<open>Facts\<close>

record event_fact =
  ef_href :: string
  ef_event_type :: string
  ef_status :: "string option"
  ef_severity :: "string option"
  ef_timestamp :: time
  ef_host_key :: "string option"
  ef_hostname :: "string option"
  ef_raw :: jobj
  ef_actor :: "string option"

record increment_top =
  it_src :: string
  it_dst :: string
  it_port :: "int option"
  it_proto :: int
  it_connections :: int
  it_mbps :: "rat option"

record increment_facts =
  if_connections :: int
  if_bytes :: "int option"
  if_bytes_rows :: int
  if_rows :: int
  if_new_rows :: int
  if_max_mbps :: "rat option"
  if_top :: "increment_top list"
  if_gaps :: "gap list"
  if_latency_seconds :: "int option"

datatype end_role = SourceEnd | TargetEnd

record end_fact =
  en_role :: end_role
  en_href :: "string option"
  en_ip :: string
  en_labels :: "(string, string) dict"

record detection_fact =
  df_id :: int
  df_detector :: detector_kind
  df_fingerprint :: string
  df_subject_key :: string
  df_subject_name :: string
  df_severity :: severity
  df_critical_asset :: bool
  df_late :: bool
  df_first_seen :: time
  df_last_seen :: time
  df_summary :: jobj
  df_segment :: evidence
  df_confidence :: alert_confidence
  df_is_new :: bool
  df_severity_rose :: bool
  df_ends :: "end_fact list option"

record probe_fact =
  pf_checked_at :: time
  pf_failures :: "string list"

record source_fact =
  sf_source :: string
  sf_consecutive_failures :: int
  sf_last_error :: "string option"
  sf_since :: "time option"

record gap_fact =
  gf_source :: string
  gf_kind :: string
  gf_start :: time
  gf_end :: time

record job_fact =
  jf_job_id :: string
  jf_consecutive_failures :: int
  jf_last_error :: "string option"

record siem_fact =
  mf_destination_id :: string
  mf_destination :: string
  mf_pending :: int
  mf_warn :: int
  mf_dlq_full :: bool
  mf_error :: "string option"

record system_facts =
  yf_probe :: "probe_fact option"
  yf_sources :: "source_fact list"
  yf_new_gaps :: "gap_fact list"
  yf_jobs :: "job_fact list"
  yf_disk_free_bytes :: "int option"
  yf_disk_warn_bytes :: "int option"
  yf_siem :: "siem_fact list"

text \<open>A value that may be absent, as JSON.\<close>

definition JText :: "string option \<Rightarrow> json" where
  "JText t = (case t of None \<Rightarrow> JNull | Some s \<Rightarrow> JStr s)"

definition JNumber :: "int option \<Rightarrow> json" where
  "JNumber n = (case n of None \<Rightarrow> JNull | Some i \<Rightarrow> JInt i)"

section \<open>Event rules\<close>

definition highest :: "severity list \<Rightarrow> severity" where
  "highest sevs = fold max (tl sevs) (hd sevs)"

definition earliest :: "event_fact list \<Rightarrow> time" where
  "earliest es = fold min (map ef_timestamp (tl es)) (ef_timestamp (hd es))"

definition latest :: "event_fact list \<Rightarrow> time" where
  "latest es = fold max (map ef_timestamp (tl es)) (ef_timestamp (hd es))"

definition event_hosts :: "event_fact list \<Rightarrow> string list" where
  "event_hosts es = sort (nub (List.map_filter (\<lambda>e. if truthy_str (ef_host_key e) then str_or_none (ef_hostname e) else None) es))"

definition event_actors :: "event_fact list \<Rightarrow> string list" where
  "event_actors es = sort (nub (List.map_filter (\<lambda>e. str_or_none (ef_actor e)) es))"

definition event_message_key :: "threshold_type \<Rightarrow> string list \<Rightarrow> string list \<Rightarrow> string" where
  "event_message_key threshold names actors =
     (if threshold = TT_IMMEDIATE \<and> names = [] then
        (case dict_get EVENT_SUBJECT_KEYS (if actors \<noteq> [] then ''actor'' else ''none'') of Some k \<Rightarrow> k | None \<Rightarrow> [])
      else EVENT_MESSAGE_KEYS threshold)"

definition event_trigger ::
  "event_rule \<Rightarrow> event_fact list \<Rightarrow> string \<Rightarrow> time \<Rightarrow> (string, fact) dict \<Rightarrow> time \<times> time \<Rightarrow> string option \<Rightarrow> trigger" where
  "event_trigger rule matched subject now facts window host =
     (let types = sort (nub (map ef_event_type matched));
          names = event_hosts matched;
          actors = event_actors matched
      in \<lparr> tg_rule_id = rb_id rule, tg_rule_type = ART_EVENT, tg_subject_key = subject,
           tg_severity = (case rb_severity rule of Some s \<Rightarrow> s | None \<Rightarrow> highest (map (\<lambda>e. alert_severity_of_event (ef_severity e)) matched)),
           tg_first_seen = earliest matched, tg_last_seen = latest matched,
           tg_late = list_all (\<lambda>e. ef_timestamp e < now - LATE_AFTER) matched,
           tg_message_key = event_message_key (er_threshold rule) names actors,
           tg_params = [(''event_types'', FJ (JList (map JStr types))), (''hosts'', FJ (JList (map JStr (take 10 names)))),
                        (''hosts_total'', FJ (JInt (int (length names)))), (''actors'', FJ (JList (map JStr (take 10 actors))))],
           tg_facts = facts,
           tg_evidence = Some (EventEvidence (fst window) (snd window) types (if truthy_str host then [or_empty host] else [])),
           tg_confidence = no_confidence \<lparr> cf_window := Some window \<rparr> \<rparr>)"

definition event_subject :: "event_fact \<Rightarrow> string" where
  "event_subject e = (if truthy_str (ef_host_key e) then or_empty (ef_host_key e) else ef_event_type e)"

definition immediate_trigger :: "event_rule \<Rightarrow> time \<Rightarrow> string \<times> event_fact list \<Rightarrow> trigger option" where
  "immediate_trigger rule now g =
     (let (subject, events) = g in
      if length events < er_threshold_count rule then None
      else Some (event_trigger rule events subject now
             [(''matches'', FJ (JInt (int (length events)))), (''threshold'', FJ (JInt (int (er_threshold_count rule))))]
             (earliest events, latest events + 1000000) (ef_host_key (hd events))))"

definition evaluate_event_rule :: "regex \<Rightarrow> event_rule \<Rightarrow> event_fact list \<Rightarrow> nat \<Rightarrow> time \<Rightarrow> trigger list" where
  "evaluate_event_rule rx rule new window_matches now =
     (let matched = filter (\<lambda>e. event_matches rx rule (ef_raw e)) new in
      if matched = [] then []
      else case er_threshold rule of
        TT_COUNT \<Rightarrow>
          (if window_matches < er_threshold_count rule then []
           else [event_trigger rule matched (rb_id rule) now
             [(''matches'', FJ (JInt (int window_matches))), (''new_matches'', FJ (JInt (int (length matched)))),
              (''threshold'', FJ (JInt (int (er_threshold_count rule)))), (''window_minutes'', FJ (JInt (er_window_minutes rule)))]
             (now - minutes (er_window_minutes rule), now) None])
      | TT_IMMEDIATE \<Rightarrow> List.map_filter (immediate_trigger rule now) (group_by event_subject matched))"

section \<open>Flow rules\<close>

text \<open>\<open>round(x, 3)\<close> and a format with one decimal: to the nearest, ties to even.\<close>

definition round_half_even :: "rat \<Rightarrow> int" where
  "round_half_even x =
     (let f = \<lfloor>x\<rfloor>; r = x - of_int f in
      if r < 1 / 2 then f else if 1 / 2 < r then f + 1 else if even f then f else f + 1)"

definition round3 :: "rat \<Rightarrow> rat" where
  "round3 x = of_int (round_half_even (x * 1000)) / 1000"

definition top_fact :: "increment_top \<Rightarrow> fact" where
  "top_fact t = FD
     [(''src'', FJ (JStr (it_src t))), (''dst'', FJ (JStr (it_dst t))), (''port'', FJ (JNumber (it_port t))),
      (''proto'', FJ (JInt (it_proto t))), (''connections'', FJ (JInt (it_connections t))),
      (''mbps'', (case it_mbps t of None \<Rightarrow> FJ JNull | Some m \<Rightarrow> FN m))]"

definition flow_trigger ::
  "'a flow_rule_scheme \<Rightarrow> alert_rule_type \<Rightarrow> increment_facts \<Rightarrow> time \<times> time \<Rightarrow> (string, fact) dict \<Rightarrow> (string, fact) dict \<Rightarrow> bool \<Rightarrow>
   filter_error + trigger" where
  "flow_trigger rule kind facts window values' params bytes_field =
     (case (spec_within (fr_condition rule) (fst window) (snd window), rb_severity rule, FLOW_MESSAGE_KEYS kind) of
        (Inr spec, Some sev, Some key) \<Rightarrow>
          Inr (\<lparr> tg_rule_id = rb_id rule, tg_rule_type = kind, tg_subject_key = rb_id rule, tg_severity = sev,
                 tg_first_seen = fst window, tg_last_seen = snd window, tg_late = False, tg_message_key = key,
                 tg_params = (''window_minutes'', FJ (JInt (fr_window_minutes rule))) # (''top'', FL (map top_fact (if_top facts))) # params,
                 tg_facts = values' @ [(''rows'', FJ (JInt (if_rows facts)))],
                 tg_evidence = Some (FlowEvidence spec),
                 tg_confidence =
                   \<lparr> cf_latency_seconds = if_latency_seconds facts, cf_window = Some window,
                     cf_field = (if bytes_field then Some ''bytes'' else None),
                     cf_covered = (if bytes_field then Some (if_bytes_rows facts) else None),
                     cf_total = (if bytes_field then Some (if_rows facts) else None),
                     cf_incomplete_gaps = if_gaps facts \<rparr> \<rparr>)
      | (Inl e, _, _) \<Rightarrow> Inl e
      | _ \<Rightarrow> Inl (ValueError ''flow rules require a severity''))"

definition evaluate_traffic_rule ::
  "traffic_rule \<Rightarrow> increment_facts \<Rightarrow> time \<times> time \<Rightarrow> filter_error + trigger option" where
  "evaluate_traffic_rule rule facts window =
     (if if_new_rows facts = 0 \<or> if_connections facts < tr_threshold_connections rule then Inr None
      else map_sum id Some (flow_trigger rule ART_TRAFFIC facts window
        [(''connections'', FJ (JInt (if_connections facts))), (''threshold'', FJ (JInt (tr_threshold_connections rule)))] [] False))"

definition evaluate_volume_rule ::
  "volume_rule \<Rightarrow> increment_facts \<Rightarrow> time \<times> time \<Rightarrow> filter_error + trigger option" where
  "evaluate_volume_rule rule facts window =
     (case if_bytes facts of
        None \<Rightarrow> Inr None
      | Some bytes \<Rightarrow>
          (let mb = of_int bytes / 2 ^ 20 in
           if if_new_rows facts = 0 \<or> if_bytes_rows facts = 0 \<or> mb < vr_threshold_mb rule then Inr None
           else map_sum id Some (flow_trigger rule ART_VOLUME facts window
             [(''mb'', FN (round3 mb)), (''threshold'', FN (vr_threshold_mb rule))] [] True)))"

definition evaluate_bandwidth_rule ::
  "bandwidth_rule \<Rightarrow> increment_facts \<Rightarrow> time \<times> time \<Rightarrow> filter_error + trigger option" where
  "evaluate_bandwidth_rule rule facts window =
     (case if_max_mbps facts of
        None \<Rightarrow> Inr None
      | Some mbps \<Rightarrow>
          (if if_bytes_rows facts = 0 \<or> mbps < br_threshold_mbps rule then Inr None
           else map_sum id Some (flow_trigger rule ART_BANDWIDTH facts window
             [(''mbps'', FN (round3 mbps)), (''threshold'', FN (br_threshold_mbps rule))]
             [(''lower_bound'', FJ (JBool True))] True)))"

section \<open>Lateral rules\<close>

definition excluded :: "endpoint_filter option \<Rightarrow> end_fact list option \<Rightarrow> ip_lists \<Rightarrow> label_groups \<Rightarrow> bool" where
  "excluded exclude ends ipls groups =
     (case (exclude, ends) of
        (Some ep, Some es) \<Rightarrow>
          (if ep_is_empty ep \<or> es = [] then False
           else
             let hit = map (\<lambda>e. (en_role e, endpoint_matches ep (en_href e) (en_ip e) (en_labels e) ipls groups)) es
             in list_ex (\<lambda>r. let side = map snd (filter (\<lambda>h. fst h = r) hit) in side \<noteq> [] \<and> list_all id side)
                  [SourceEnd, TargetEnd])
      | _ \<Rightarrow> False)"

datatype lateral_miss = OtherDetector | BelowSeverity | NotCritical | Excluded

definition lateral_rule_reason :: "lateral_rule \<Rightarrow> detection_fact \<Rightarrow> ip_lists \<Rightarrow> label_groups \<Rightarrow> lateral_miss option" where
  "lateral_rule_reason rule d ipls groups =
     (if df_detector d \<notin> set (lr_detectors rule) then Some OtherDetector
      else if df_severity d < lr_min_severity rule then Some BelowSeverity
      else if lr_critical_assets_only rule \<and> \<not> df_critical_asset d then Some NotCritical
      else if excluded (lr_exclude rule) (df_ends d) ipls groups then Some Excluded
      else None)"

definition lateral_params :: "detection_fact \<Rightarrow> (string, fact) dict" where
  "lateral_params d =
     fold (\<lambda>(k, v). dict_set k v)
       [(''detector'', FJ (JStr (detector_kind_value (df_detector d)))),
        (''risen'', FJ (JBool (df_severity_rose d \<and> \<not> df_is_new d))), (''host'', FJ (JStr (df_subject_name d))),
        (''account'', FJ (JStr (df_subject_key d))), (''minutes'', FJ (jget (df_summary d) ''window_minutes''))]
       (map (\<lambda>(k, v). (k, FJ v)) (df_summary d))"

definition lateral_trigger :: "lateral_rule \<Rightarrow> detection_fact \<Rightarrow> trigger" where
  "lateral_trigger rule d =
     \<lparr> tg_rule_id = rb_id rule, tg_rule_type = ART_LATERAL, tg_subject_key = df_fingerprint d,
       tg_severity = (case rb_severity rule of Some s \<Rightarrow> s | None \<Rightarrow> df_severity d), tg_first_seen = df_first_seen d,
       tg_last_seen = df_last_seen d, tg_late = df_late d, tg_message_key = DETECTION_TITLE_KEYS (df_detector d),
       tg_params = lateral_params d,
       tg_facts = [(''detection_id'', FJ (JInt (df_id d))), (''critical_asset'', FJ (JBool (df_critical_asset d))),
                   (''detection_severity'', FJ (JStr (severity_value (df_severity d))))],
       tg_evidence = Some (df_segment d),
       tg_confidence = (df_confidence d) \<lparr> cf_latency_seconds := None, cf_window := Some (df_first_seen d, df_last_seen d) \<rparr> \<rparr>"

definition evaluate_lateral_rule :: "lateral_rule \<Rightarrow> detection_fact list \<Rightarrow> ip_lists \<Rightarrow> label_groups \<Rightarrow> trigger list" where
  "evaluate_lateral_rule rule changed ipls groups =
     map (lateral_trigger rule)
       (filter (\<lambda>d. (df_is_new d \<or> df_severity_rose d) \<and> lateral_rule_reason rule d ipls groups = None) changed)"

section \<open>System checks\<close>

definition system_trigger ::
  "system_rule \<Rightarrow> string \<Rightarrow> time \<Rightarrow> (string, fact) dict \<Rightarrow> (time \<times> time) option \<Rightarrow> (string, fact) dict option \<Rightarrow> trigger" where
  "system_trigger rule subject now params window facts =
     \<lparr> tg_rule_id = rb_id rule, tg_rule_type = ART_SYSTEM, tg_subject_key = subject,
       tg_severity = (case rb_severity rule of Some s \<Rightarrow> s | None \<Rightarrow> SEV_LOW),
       tg_first_seen = (case window of Some w \<Rightarrow> fst w | None \<Rightarrow> now), tg_last_seen = (case window of Some w \<Rightarrow> snd w | None \<Rightarrow> now),
       tg_late = False, tg_message_key = SYSTEM_MESSAGE_KEYS (sr_check rule), tg_params = params,
       tg_facts = (case facts of None \<Rightarrow> params | Some f \<Rightarrow> f), tg_evidence = None,
       tg_confidence = no_confidence \<lparr> cf_window := window \<rparr> \<rparr>"

definition gb_text :: "int \<Rightarrow> string" where
  "gb_text n =
     (let t = round_half_even (of_int n * 10 / 1024 ^ 3)
      in (if t < 0 then ''-'' else []) @ dec_str (\<bar>t\<bar> div 10) @ ''.'' @ dec_str (\<bar>t\<bar> mod 10) @ '' GB'')"

definition evaluate_system :: "system_rule \<Rightarrow> system_facts \<Rightarrow> time \<Rightarrow> trigger list" where
  "evaluate_system rule facts now =
     (let check = system_check_value (sr_check rule) in
      case sr_check rule of
        SC_PCE_HEALTH \<Rightarrow>
          (case yf_probe facts of
             None \<Rightarrow> []
           | Some p \<Rightarrow>
               (if pf_failures p = [] then []
                else [system_trigger rule check now
                  [(''failures'', FJ (JList (map JStr (pf_failures p)))), (''checked_at'', FJ (JStr (isoformat (pf_checked_at p))))]
                  None None]))
      | SC_COLLECTION_FAILING \<Rightarrow>
          map (\<lambda>s. system_trigger rule (check @ '':'' @ sf_source s) now
              [(''source'', FJ (JStr (sf_source s))), (''failures'', FJ (JInt (sf_consecutive_failures s))),
               (''error'', FJ (JText (sf_last_error s))), (''since'', FJ (JText (map_option isoformat (sf_since s))))] None None)
            (filter (\<lambda>s. FAILURES_TO_REPORT \<le> sf_consecutive_failures s) (yf_sources facts))
      | SC_DATA_LOSS \<Rightarrow>
          map (\<lambda>g. system_trigger rule (check @ '':'' @ gf_source g @ '':'' @ gf_kind g) now
              [(''source'', FJ (JStr (gf_source g))), (''kind'', FJ (JStr (gf_kind g))),
               (''start'', FJ (JStr (isoformat (gf_start g)))), (''end'', FJ (JStr (isoformat (gf_end g))))]
              (Some (gf_start g, gf_end g)) None) (yf_new_gaps facts)
      | SC_JOB_FAILING \<Rightarrow>
          map (\<lambda>j. system_trigger rule (check @ '':'' @ jf_job_id j) now
              [(''job'', FJ (JStr (jf_job_id j))), (''failures'', FJ (JInt (jf_consecutive_failures j))),
               (''error'', FJ (JText (jf_last_error j)))] None None)
            (filter (\<lambda>j. FAILURES_TO_REPORT \<le> jf_consecutive_failures j) (yf_jobs facts))
      | SC_DISK_LOW \<Rightarrow>
          (case (yf_disk_free_bytes facts, yf_disk_warn_bytes facts) of
             (Some free, Some warn) \<Rightarrow>
               (if warn \<le> free then []
                else [system_trigger rule check now
                  [(''free'', FJ (JStr (gb_text free))), (''warn'', FJ (JStr (gb_text warn)))] None
                  (Some [(''free_bytes'', FJ (JInt free)), (''warn_bytes'', FJ (JInt warn))])])
           | _ \<Rightarrow> [])
      | SC_SIEM_BACKLOG \<Rightarrow>
          map (\<lambda>f. system_trigger rule (check @ '':'' @ mf_destination_id f) now
              [(''destination'', FJ (JStr (mf_destination f))), (''pending'', FJ (JInt (mf_pending f))),
               (''warn'', FJ (JInt (mf_warn f))), (''dlq_full'', FJ (JBool (mf_dlq_full f))),
               (''error'', FJ (JStr (or_empty (mf_error f))))] None None)
            (filter (\<lambda>f. mf_dlq_full f \<or> mf_warn f < mf_pending f) (yf_siem facts)))"

end
