(* ===== verification/AlertGate.thy ===== *)
theory AlertGate
  imports Alerting
begin

text \<open>
  What the cooldown and throttle gate lets through. \<open>gated\<close> is \<open>services/alerts/rules.py\<close> \<open>_gated\<close>: the
  gate run over a rule's triggers in time order with one state per subject, as live evaluation runs it.
  It is compared with a reference that keeps no state but the whole history of what fired.
\<close>

section \<open>The gate over a sequence of triggers\<close>

fun gated_from ::
  "'a rule_base_scheme \<Rightarrow> (string, rule_state) dict \<Rightarrow> (time \<times> trigger) list \<Rightarrow> (time \<times> trigger) list" where
  "gated_from rule states [] = []"
| "gated_from rule states ((now, t) # ts) =
     (let g = gate rule (dict_get states (tg_subject_key t)) now
      in (if gr_allowed g then [(now, t)] else [])
           @ gated_from rule (dict_set (tg_subject_key t) (gr_state g) states) ts)"

definition gated :: "'a rule_base_scheme \<Rightarrow> (time \<times> trigger) list \<Rightarrow> trigger list" where
  "gated rule triggers = map snd (gated_from rule [] triggers)"

section \<open>The reference: the whole history\<close>

definition fired_at :: "string \<Rightarrow> (time \<times> trigger) list \<Rightarrow> time list" where
  "fired_at subject fired = map fst (filter (\<lambda>x. tg_subject_key (snd x) = subject) fired)"

definition within_throttle :: "'a rule_base_scheme \<Rightarrow> time list \<Rightarrow> time \<Rightarrow> bool" where
  "within_throttle rule past now =
     (case rb_throttle rule of None \<Rightarrow> True
      | Some th \<Rightarrow> length (filter (\<lambda>t. now - minutes (th_period_minutes th) < t) past) < th_count th)"

definition cooled :: "'a rule_base_scheme \<Rightarrow> time list \<Rightarrow> time \<Rightarrow> bool" where
  "cooled rule past now =
     (rb_cooldown_minutes rule = 0 \<or> past = [] \<or> last past + minutes (rb_cooldown_minutes rule) \<le> now)"

fun by_history :: "'a rule_base_scheme \<Rightarrow> (time \<times> trigger) list \<Rightarrow> (time \<times> trigger) list \<Rightarrow> (time \<times> trigger) list" where
  "by_history rule fired [] = []"
| "by_history rule fired ((now, t) # ts) =
     (let past = fired_at (tg_subject_key t) fired in
      if cooled rule past now \<and> within_throttle rule past now
      then (now, t) # by_history rule (fired @ [(now, t)]) ts
      else by_history rule fired ts)"

lemma fired_at_snoc [simp]:
  "fired_at s (fired @ [(now, t)]) = (if tg_subject_key t = s then fired_at s fired @ [now] else fired_at s fired)"
  by (simp add: fired_at_def)

lemma fired_at_Nil [simp]: "fired_at s [] = []"
  by (simp add: fired_at_def)

section \<open>The state stands for the history\<close>

definition state_of :: "(string, rule_state) dict \<Rightarrow> string \<Rightarrow> rule_state" where
  "state_of states s = (case dict_get states s of None \<Rightarrow> fresh_state | Some st \<Rightarrow> st)"

definition stands_for :: "'a rule_base_scheme \<Rightarrow> rule_state \<Rightarrow> time list \<Rightarrow> time \<Rightarrow> bool" where
  "stands_for rule st past since \<longleftrightarrow>
     rs_last_fired_at st = (if past = [] then None else Some (last past)) \<and>
     (\<forall>now \<ge> since. still_recent rule st now =
        (case rb_throttle rule of None \<Rightarrow> []
         | Some th \<Rightarrow> filter (\<lambda>t. now - minutes (th_period_minutes th) < t) past))"

lemma stands_for_fresh: "stands_for rule fresh_state [] since"
  by (auto simp: stands_for_def fresh_state_def still_recent_def split: option.splits)

lemma stands_for_later: "stands_for rule st past since \<Longrightarrow> since \<le> now \<Longrightarrow> stands_for rule st past now"
  by (auto simp: stands_for_def)

lemma state_of_set: "state_of (dict_set s st states) s' = (if s' = s then st else state_of states s')"
  by (simp add: state_of_def dict_simps)

lemma gate_state_of: "gate rule (dict_get states s) now = gate rule (Some (state_of states s)) now"
  by (simp add: gate_def state_of_def split: option.splits)

lemma filter_later:
  fixes now later p :: int
  shows "now \<le> later \<Longrightarrow> filter (\<lambda>t. later - p < t) (filter (\<lambda>t. now - p < t) xs) = filter (\<lambda>t. later - p < t) xs"
  by (auto simp: filter_filter intro!: filter_cong)

lemma gate_allowed:
  assumes "stands_for rule st past since" "since \<le> now"
  shows "gr_allowed (gate rule (Some st) now) \<longleftrightarrow> cooled rule past now \<and> within_throttle rule past now"
  using assms
  by (auto simp: stands_for_def gate_def cooling_until_def cooled_def within_throttle_def throttle_gate_def
      refused_def Let_def not_le not_less split: option.splits)

lemma gate_kept:
  assumes "stands_for rule st past since" "since \<le> now" "\<not> gr_allowed (gate rule (Some st) now)"
  shows "stands_for rule (gr_state (gate rule (Some st) now)) past now"
proof -
  have "gr_state (gate rule (Some st) now) =
      \<lparr> rs_last_fired_at = rs_last_fired_at st, rs_recent = still_recent rule st now \<rparr>"
    using assms(3)
    by (auto simp: gate_def throttle_gate_def refused_def Let_def split: option.splits if_splits)
  moreover have "still_recent rule \<lparr> rs_last_fired_at = rs_last_fired_at st, rs_recent = still_recent rule st now \<rparr> later
      = still_recent rule st later" if "now \<le> later" for later
    using that by (simp add: still_recent_def filter_later del: filter_filter split: option.split)
  ultimately show ?thesis
    using assms by (auto simp: stands_for_def)
qed

lemma gate_fired:
  assumes "stands_for rule st past since" "since \<le> now" "gr_allowed (gate rule (Some st) now)"
  shows "stands_for rule (gr_state (gate rule (Some st) now)) (past @ [now]) now"
proof -
  have state: "gr_state (gate rule (Some st) now) =
      \<lparr> rs_last_fired_at = Some now,
        rs_recent = (case rb_throttle rule of None \<Rightarrow> [] | Some th \<Rightarrow> still_recent rule st now @ [now]) \<rparr>"
    using assms(3)
    by (auto simp: gate_def throttle_gate_def refused_def Let_def split: option.splits if_splits)
  have recent: "still_recent rule st now =
      (case rb_throttle rule of None \<Rightarrow> []
       | Some th \<Rightarrow> filter (\<lambda>t. now - minutes (th_period_minutes th) < t) past)"
    using assms(1,2) by (auto simp: stands_for_def)
  show ?thesis
    unfolding stands_for_def state recent
    by (auto simp: still_recent_def filter_later simp del: filter_filter split: option.split)
qed

lemma gated_from_history:
  assumes "sorted (map fst ts)" "\<forall>x \<in> set ts. since \<le> fst x"
    and "\<And>s. stands_for rule (state_of states s) (fired_at s fired) since"
  shows "gated_from rule states ts = by_history rule fired ts"
  using assms
proof (induction ts arbitrary: states fired since)
  case Nil
  then show ?case by simp
next
  case (Cons x ts)
  obtain now t where x: "x = (now, t)" by (cases x)
  define s where "s = tg_subject_key t"
  define st where "st = state_of states s"
  have le: "since \<le> now" using Cons.prems(2) by (simp add: x)
  have rest: "sorted (map fst ts)" "\<forall>y \<in> set ts. now \<le> fst y"
    using Cons.prems(1) by (auto simp: x)
  have for_s: "stands_for rule st (fired_at s fired) since" unfolding st_def by (rule Cons.prems(3))
  have other: "stands_for rule (state_of states s') (fired_at s' fired) now" for s'
    by (rule stands_for_later [OF Cons.prems(3) le])
  have g: "gate rule (dict_get states s) now = gate rule (Some st) now"
    by (simp add: gate_state_of [of rule states s] st_def)
  show ?case
  proof (cases "gr_allowed (gate rule (Some st) now)")
    case True
    note fired = gate_fired [OF for_s le True]
    have "gated_from rule (dict_set s (gr_state (gate rule (Some st) now)) states) ts = by_history rule (fired @ [(now, t)]) ts"
    proof (rule Cons.IH [OF rest])
      show "stands_for rule (state_of (dict_set s (gr_state (gate rule (Some st) now)) states) s')
          (fired_at s' (fired @ [(now, t)])) now" for s'
        using fired other [of s'] by (auto simp: state_of_set s_def)
    qed
    moreover have "cooled rule (fired_at s fired) now \<and> within_throttle rule (fired_at s fired) now"
      using gate_allowed [OF for_s le] True by blast
    ultimately show ?thesis using True g by (simp add: x Let_def flip: s_def)
  next
    case False
    note kept = gate_kept [OF for_s le False]
    have "gated_from rule (dict_set s (gr_state (gate rule (Some st) now)) states) ts = by_history rule fired ts"
    proof (rule Cons.IH [OF rest])
      show "stands_for rule (state_of (dict_set s (gr_state (gate rule (Some st) now)) states) s') (fired_at s' fired) now" for s'
        using kept other [of s'] by (auto simp: state_of_set)
    qed
    moreover have "\<not> (cooled rule (fired_at s fired) now \<and> within_throttle rule (fired_at s fired) now)"
      using gate_allowed [OF for_s le] False by blast
    ultimately show ?thesis using False g by (auto simp add: x Let_def simp flip: s_def)
  qed
qed

lemma gated_from_start:
  assumes "sorted (map fst ts)"
  shows "gated_from rule [] ts = by_history rule [] ts"
proof (cases ts)
  case (Cons x ts')
  show ?thesis
  proof (rule gated_from_history [OF assms, where since = "fst x"])
    show "\<forall>y \<in> set ts. fst x \<le> fst y" using assms by (auto simp: Cons)
    show "stands_for rule (state_of [] s) (fired_at s []) (fst x)" for s
      by (simp add: state_of_def stands_for_fresh)
  qed
qed simp

section \<open>The limits hold over the history\<close>

definition spaced :: "'a rule_base_scheme \<Rightarrow> time list \<Rightarrow> bool" where
  "spaced rule past = sorted_wrt (\<lambda>a b. a + minutes (rb_cooldown_minutes rule) \<le> b) past"

definition in_window :: "int \<Rightarrow> time \<Rightarrow> time list \<Rightarrow> time list" where
  "in_window period t past = filter (\<lambda>u. t - minutes period < u \<and> u \<le> t) past"

definition throttled :: "'a rule_base_scheme \<Rightarrow> time list \<Rightarrow> bool" where
  "throttled rule past =
     (\<forall>th t. rb_throttle rule = Some th \<longrightarrow> length (in_window (th_period_minutes th) t past) \<le> th_count th)"

lemma in_window_snoc:
  assumes "length (filter (\<lambda>u. now - minutes p < u) past) < n" "length (in_window p t past) \<le> n"
  shows "length (in_window p t (past @ [now])) \<le> n"
proof (cases "t - minutes p < now \<and> now \<le> t")
  case True
  have "in_window p t past = filter (\<lambda>u. t - minutes p < u \<and> u \<le> t) (filter (\<lambda>u. now - minutes p < u) past)"
    using True by (auto simp: in_window_def filter_filter intro!: filter_cong)
  then have "length (in_window p t past) \<le> length (filter (\<lambda>u. now - minutes p < u) past)"
    by (metis length_filter_le)
  with assms(1) True show ?thesis by (simp add: in_window_def)
next
  case False
  with assms(2) show ?thesis by (auto simp: in_window_def)
qed

lemma throttled_snoc:
  assumes "within_throttle rule past now" "throttled rule past"
  shows "throttled rule (past @ [now])"
  unfolding throttled_def
proof (intro allI impI)
  fix th t
  assume th: "rb_throttle rule = Some th"
  show "length (in_window (th_period_minutes th) t (past @ [now])) \<le> th_count th"
    by (rule in_window_snoc) (use assms th in \<open>auto simp: within_throttle_def throttled_def\<close>)
qed

lemma spaced_snoc:
  assumes "cooled rule past now" "spaced rule past" "sorted past" "\<forall>u \<in> set past. u \<le> now"
  shows "spaced rule (past @ [now])"
proof -
  have "u + minutes (rb_cooldown_minutes rule) \<le> now" if u: "u \<in> set past" for u
  proof (cases "rb_cooldown_minutes rule = 0")
    case True
    then show ?thesis using assms(4) u by (simp add: minutes_def)
  next
    case False
    have "past \<noteq> []" using u by auto
    then have "u \<le> last past"
      using u assms(3) by (cases past rule: rev_cases) (auto simp: sorted_append)
    with False assms(1) \<open>past \<noteq> []\<close> show ?thesis by (auto simp: cooled_def)
  qed
  with assms(2) show ?thesis by (auto simp: spaced_def sorted_wrt_append)
qed

lemma history_limits:
  assumes "sorted (map fst ts)" "\<forall>u \<in> set (fired_at s fired). \<forall>x \<in> set ts. u \<le> fst x"
    and "sorted (fired_at s fired)" "spaced rule (fired_at s fired)" "throttled rule (fired_at s fired)"
  shows "spaced rule (fired_at s (fired @ by_history rule fired ts)) \<and>
    throttled rule (fired_at s (fired @ by_history rule fired ts))"
  using assms
proof (induction rule fired ts rule: by_history.induct)
  case (1 rule fired)
  then show ?case by simp
next
  case (2 rule fired now t ts)
  have ts: "sorted (map fst ts)" "\<forall>x \<in> set ts. now \<le> fst x" using "2.prems"(1) by auto
  show ?case
  proof (cases "cooled rule (fired_at (tg_subject_key t) fired) now \<and> within_throttle rule (fired_at (tg_subject_key t) fired) now")
    case True
    have "spaced rule (fired_at s ((fired @ [(now, t)]) @ by_history rule (fired @ [(now, t)]) ts)) \<and>
        throttled rule (fired_at s ((fired @ [(now, t)]) @ by_history rule (fired @ [(now, t)]) ts))"
    proof (rule "2.IH"(1) [OF refl True ts(1)])
      show "\<forall>u \<in> set (fired_at s (fired @ [(now, t)])). \<forall>x \<in> set ts. u \<le> fst x"
        using "2.prems"(2) ts(2) by auto
      show "sorted (fired_at s (fired @ [(now, t)]))"
        using "2.prems"(2,3) by (auto simp: sorted_append)
      show "spaced rule (fired_at s (fired @ [(now, t)]))"
        using True "2.prems"(2,3,4) by (auto intro!: spaced_snoc)
      show "throttled rule (fired_at s (fired @ [(now, t)]))"
        using True "2.prems"(5) by (auto intro!: throttled_snoc)
    qed
    with True show ?thesis by (simp add: Let_def)
  next
    case False
    have "spaced rule (fired_at s (fired @ by_history rule fired ts)) \<and>
        throttled rule (fired_at s (fired @ by_history rule fired ts))"
      by (rule "2.IH"(2) [OF refl False ts(1)]) (use "2.prems" in auto)
    with False show ?thesis by (auto simp: Let_def)
  qed
qed

section \<open>Properties\<close>

text \<open>C29. Run over triggers in time order, the gate with its pruned state lets through exactly what a gate
  that remembers everything would: a trigger passes when the cooldown since its subject's last alert is
  over and fewer than the throttle's count of its subject's alerts lie within the period before it.\<close>

theorem gated_by_history:
  assumes "sorted (map fst triggers)"
  shows "gated rule triggers = map snd (by_history rule [] triggers)"
  by (simp add: gated_def gated_from_start [OF assms])

text \<open>Alerts of one subject are at least the cooldown apart, and no throttle period, wherever it lies,
  holds more of them than the throttle's count.\<close>

lemma gate_limits:
  assumes "sorted (map fst triggers)"
  shows "sorted_wrt (\<lambda>a b. a + minutes (rb_cooldown_minutes rule) \<le> b) (fired_at s (gated_from rule [] triggers)) \<and>
    (\<forall>th t. rb_throttle rule = Some th \<longrightarrow>
      length (filter (\<lambda>u. t - minutes (th_period_minutes th) < u \<and> u \<le> t) (fired_at s (gated_from rule [] triggers))) \<le> th_count th)"
  using history_limits [OF assms, of s "[]" rule]
  by (simp add: gated_from_start [OF assms] spaced_def throttled_def in_window_def)

section \<open>Immediate event rules\<close>

lemma fold_min_le: "fold min xs (a::int) \<le> a" "x \<in> set xs \<Longrightarrow> fold min xs a \<le> x"
proof (induction xs arbitrary: a)
  case (Cons y ys)
  { case 1 show ?case using Cons.IH(1) [of "min y a"] by simp }
  { case 2 then show ?case using Cons.IH(1) [of "min y a"] Cons.IH(2) [of "min y a"] by auto }
qed simp_all

lemma fold_max_ge: "(a :: 'a :: linorder) \<le> fold max xs a" "x \<in> set xs \<Longrightarrow> x \<le> fold max xs a"
proof (induction xs arbitrary: a)
  case (Cons y ys)
  { case 1 show ?case using Cons.IH(1) [of "max y a"] by simp }
  { case 2 then show ?case using Cons.IH(1) [of "max y a"] Cons.IH(2) [of "max y a"] by auto }
qed simp_all

lemma earliest_le: "e \<in> set es \<Longrightarrow> earliest es \<le> ef_timestamp e"
  unfolding earliest_def by (cases es) (auto intro: fold_min_le)

lemma latest_ge: "e \<in> set es \<Longrightarrow> ef_timestamp e \<le> latest es"
  unfolding latest_def by (cases es) (auto intro: fold_max_ge)

lemma highest_ge: "s \<in> set ss \<Longrightarrow> s \<le> highest ss"
  unfolding highest_def by (cases ss) (auto intro: fold_max_ge)

lemma event_trigger_sel [simp]:
  "tg_subject_key (event_trigger rule es s now facts w h) = s"
  "tg_first_seen (event_trigger rule es s now facts w h) = earliest es"
  "tg_last_seen (event_trigger rule es s now facts w h) = latest es"
  "tg_evidence (event_trigger rule es s now facts w h) =
     Some (EventEvidence (fst w) (snd w) (sort (nub (map ef_event_type es))) (if truthy_str h then [or_empty h] else []))"
  "tg_severity (event_trigger rule es s now facts w h) =
     (case rb_severity rule of Some v \<Rightarrow> v | None \<Rightarrow> highest (map (\<lambda>e. alert_severity_of_event (ef_severity e)) es))"
  by (simp_all add: event_trigger_def Let_def)

definition matched_events :: "regex \<Rightarrow> event_rule \<Rightarrow> event_fact list \<Rightarrow> event_fact list" where
  "matched_events rx rule new = filter (\<lambda>e. event_matches rx rule (ef_raw e)) new"

text \<open>A trigger covers an event: its times, its severity and the segment that is to show it.\<close>

definition covers_event :: "event_rule \<Rightarrow> trigger \<Rightarrow> event_fact \<Rightarrow> bool" where
  "covers_event rule t e \<longleftrightarrow>
     tg_first_seen t \<le> ef_timestamp e \<and> ef_timestamp e \<le> tg_last_seen t \<and>
     (rb_severity rule = None \<longrightarrow> alert_severity_of_event (ef_severity e) \<le> tg_severity t) \<and>
     (case tg_evidence t of
        Some (EventEvidence a b types hosts) \<Rightarrow>
          a \<le> ef_timestamp e \<and> ef_timestamp e < b \<and> ef_event_type e \<in> set types \<and>
          hosts = (if truthy_str (ef_host_key e) then [or_empty (ef_host_key e)] else [])
      | _ \<Rightarrow> False)"

lemma evaluate_immediate:
  "er_threshold rule = TT_IMMEDIATE \<Longrightarrow> evaluate_event_rule rx rule new wm now =
     List.map_filter (immediate_trigger rule now) (group_by event_subject (matched_events rx rule new))"
  by (simp add: evaluate_event_rule_def matched_events_def Let_def group_by_def List.map_filter_def)

lemma map_filter_subjects:
  "map tg_subject_key (List.map_filter (immediate_trigger rule now) gs) =
     map fst (filter (\<lambda>g. er_threshold_count rule \<le> length (snd g)) gs)"
  by (induction gs) (auto simp: map_filter_simps immediate_trigger_def not_less split: prod.splits)

lemma same_subject_host:
  assumes "\<forall>e \<in> set es. \<forall>e' \<in> set es. truthy_str (ef_host_key e) \<longrightarrow> ef_event_type e' \<noteq> or_empty (ef_host_key e)"
    and "e \<in> set es" "e' \<in> set es" "event_subject e = event_subject e'"
  shows "(if truthy_str (ef_host_key e) then [or_empty (ef_host_key e)] else []) =
    (if truthy_str (ef_host_key e') then [or_empty (ef_host_key e')] else [])"
proof -
  have "ef_event_type e' \<noteq> or_empty (ef_host_key e)" if "truthy_str (ef_host_key e)" using assms that by blast
  moreover have "ef_event_type e \<noteq> or_empty (ef_host_key e')" if "truthy_str (ef_host_key e')" using assms that by blast
  ultimately show ?thesis using assms(4) unfolding event_subject_def by (auto split: if_splits)
qed

text \<open>An immediate event rule alerts once for each subject (the host, or the event type of an event about no
  host) that has at least the threshold's number of matching new events, in the order the subjects first
  appear; the alert's times and severity cover each of its events, and its evidence segment shows them
  (given that no event type reads like a host's href).\<close>

lemma immediate_rule_subjects:
  assumes "er_threshold rule = TT_IMMEDIATE"
    and "\<forall>e \<in> set new. \<forall>e' \<in> set new. truthy_str (ef_host_key e) \<longrightarrow> ef_event_type e' \<noteq> or_empty (ef_host_key e)"
  shows "map tg_subject_key (evaluate_event_rule rx rule new wm now) =
      filter (\<lambda>s. er_threshold_count rule \<le> length (filter (\<lambda>e. event_subject e = s) (matched_events rx rule new)))
        (nub (map event_subject (matched_events rx rule new))) \<and>
    (\<forall>t \<in> set (evaluate_event_rule rx rule new wm now). \<forall>e \<in> set (matched_events rx rule new).
       event_subject e = tg_subject_key t \<longrightarrow> covers_event rule t e)"
proof
  let ?m = "matched_events rx rule new"
  show "map tg_subject_key (evaluate_event_rule rx rule new wm now) =
      filter (\<lambda>s. er_threshold_count rule \<le> length (filter (\<lambda>e. event_subject e = s) ?m)) (nub (map event_subject ?m))"
    by (simp add: evaluate_immediate [OF assms(1)] map_filter_subjects group_by_items filter_map o_def)
  show "\<forall>t \<in> set (evaluate_event_rule rx rule new wm now). \<forall>e \<in> set ?m. event_subject e = tg_subject_key t \<longrightarrow> covers_event rule t e"
  proof (intro ballI impI)
    fix t e
    assume t: "t \<in> set (evaluate_event_rule rx rule new wm now)" and e: "e \<in> set ?m" "event_subject e = tg_subject_key t"
    obtain s es where g: "(s, es) \<in> set (group_by event_subject ?m)" and "immediate_trigger rule now (s, es) = Some t"
      using t by (auto simp: evaluate_immediate [OF assms(1)] List.map_filter_def)
    then have t': "t = event_trigger rule es s now
             [(''matches'', FJ (JInt (int (length es)))), (''threshold'', FJ (JInt (int (er_threshold_count rule))))]
             (earliest es, latest es + 1000000) (ef_host_key (hd es))"
      by (simp add: immediate_trigger_def split: if_splits)
    have es: "es = filter (\<lambda>e. event_subject e = s) ?m" using g by (simp add: group_by_set)
    have in_es: "e \<in> set es" using e t' es by simp
    then have "hd es \<in> set es" by (cases es) auto
    then have hd_es: "hd es \<in> set ?m" "event_subject (hd es) = event_subject e" using e t' es by auto
    have sub: "set ?m \<subseteq> set new" by (auto simp: matched_events_def)
    have hosts: "(if truthy_str (ef_host_key (hd es)) then [or_empty (ef_host_key (hd es))] else []) =
        (if truthy_str (ef_host_key e) then [or_empty (ef_host_key e)] else [])"
      by (rule same_subject_host [OF assms(2)]) (use hd_es e sub in auto)
    show "covers_event rule t e"
      using earliest_le [OF in_es] latest_ge [OF in_es] in_es hosts
      by (auto simp: covers_event_def t' intro!: highest_ge)
  qed
qed

section \<open>The properties at concrete inputs\<close>

definition example_gate_rule :: event_rule where
  "example_gate_rule = example_event_rule \<lparr> rb_throttle := Some \<lparr> th_count = 2, th_period_minutes = 60 \<rparr> \<rparr>"

definition example_fact :: "string \<Rightarrow> time \<Rightarrow> event_fact" where
  "example_fact host seen =
     \<lparr> ef_href = ''/orgs/1/events/1'', ef_event_type = ''agent.suspend'', ef_status = None, ef_severity = Some ''err'',
       ef_timestamp = seen, ef_host_key = Some host, ef_hostname = None,
       ef_raw = [(''event_type'', JStr ''agent.suspend''), (''severity'', JStr ''err'')], ef_actor = None \<rparr>"

definition example_triggers :: "(time \<times> trigger) list" where
  "example_triggers =
     map (\<lambda>m. (minutes m, event_trigger example_gate_rule [example_fact ''h'' (minutes m)] ''h'' (minutes m) [] (0, 1) None))
       [0, 5, 20, 40, 61]"

theorem gated_by_history_witness:
  "sorted (map fst example_triggers) \<and>
   gated example_gate_rule example_triggers = map snd (by_history example_gate_rule [] example_triggers)"
proof -
  have "sorted (map fst example_triggers)" by (simp add: example_triggers_def minutes_def)
  then show ?thesis using gated_by_history [of example_triggers example_gate_rule] by simp
qed

lemma gate_limits_witness:
  "fired_at ''h'' (gated_from example_gate_rule [] example_triggers) = [minutes 0, minutes 20, minutes 61] \<and>
   sorted_wrt (\<lambda>a b. a + minutes 10 \<le> b) (fired_at ''h'' (gated_from example_gate_rule [] example_triggers))"
proof
  have "sorted (map fst example_triggers)" by (simp add: example_triggers_def minutes_def)
  then show "sorted_wrt (\<lambda>a b. a + minutes 10 \<le> b) (fired_at ''h'' (gated_from example_gate_rule [] example_triggers))"
    using gate_limits [of example_triggers example_gate_rule "''h''"]
    by (simp add: example_gate_rule_def example_event_rule_def)
  show "fired_at ''h'' (gated_from example_gate_rule [] example_triggers) = [minutes 0, minutes 20, minutes 61]"
    by code_simp
qed

lemma immediate_rule_subjects_witness:
  "map tg_subject_key (evaluate_event_rule (\<lambda>_ _. None) example_event_rule [example_fact ''a'' 5, example_fact ''b'' 7, example_fact ''a'' 9] 0 20)
     = [''a'', ''b'']"
proof -
  let ?new = "[example_fact ''a'' 5, example_fact ''b'' 7, example_fact ''a'' 9]"
  have "er_threshold example_event_rule = TT_IMMEDIATE" by (simp add: example_event_rule_def)
  moreover have "\<forall>e \<in> set ?new. \<forall>e' \<in> set ?new. truthy_str (ef_host_key e) \<longrightarrow> ef_event_type e' \<noteq> or_empty (ef_host_key e)"
    by (simp add: example_fact_def)
  moreover have "filter (\<lambda>s. er_threshold_count example_event_rule \<le>
        length (filter (\<lambda>e. event_subject e = s) (matched_events (\<lambda>_ _. None) example_event_rule ?new)))
      (nub (map event_subject (matched_events (\<lambda>_ _. None) example_event_rule ?new))) = [''a'', ''b'']"
    by code_simp
  ultimately show ?thesis
    using immediate_rule_subjects [of example_event_rule ?new "\<lambda>_ _. None" 0 20] by simp
qed

end
