(* ===== verification/Policy.thy ===== *)
theory Policy
  imports IpBlocks Json Values
begin

text \<open>
  \<open>domain/policy.py\<close>: the rules of the PCE as data (what a rule href names), what a draft recompute
  says about one flow, and the IP list an address falls into. Fields the code passes on unread stay
  JSON values. PCE hrefs and names are strings: a value of another type looks up nothing.
\<close>

section \<open>Rules\<close>

datatype actor_kind = AK_LABEL | AK_LABEL_GROUP | AK_IP_LIST | AK_WORKLOAD | AK_ALL_WORKLOADS | AK_VIRTUAL_SERVICE | AK_OTHER

record actor_ref =
  ac_kind :: actor_kind
  ac_key :: json
  ac_value :: json
  ac_name :: json
  ac_href :: "string option"
  ac_exclusion :: bool

record service_ref =
  sv_port :: json
  sv_to_port :: json
  sv_proto :: json
  sv_name :: json
  sv_href :: json

record rule_ref =
  rr_href :: string
  rr_rule_type :: rule_action
  rr_enabled :: bool
  rr_ruleset_name :: string
  rr_ruleset_href :: string
  rr_description :: json
  rr_consumers :: "actor_ref list"
  rr_providers :: "actor_ref list"
  rr_services :: "service_ref list"

type_synonym label_names = "(string, string \<times> string) dict"
type_synonym object_names = "(string, string) dict"

text \<open>\<open>a or b\<close>, and a lookup by an href that may be absent.\<close>

definition j_or :: "json \<Rightarrow> json \<Rightarrow> json" where
  "j_or a b = (if truthy a then a else b)"

definition name_of :: "object_names \<Rightarrow> string option \<Rightarrow> json" where
  "name_of names href = (case Option.bind href (dict_get names) of Some n \<Rightarrow> JStr n | None \<Rightarrow> JNull)"

definition ACTOR_KEYS :: "(string \<times> actor_kind) list" where
  "ACTOR_KEYS =
     [(''label'', AK_LABEL), (''label_group'', AK_LABEL_GROUP), (''ip_list'', AK_IP_LIST), (''workload'', AK_WORKLOAD),
      (''virtual_service'', AK_VIRTUAL_SERVICE)]"

fun first_actor :: "jobj \<Rightarrow> (string \<times> actor_kind) list \<Rightarrow> (actor_kind \<times> jobj) option" where
  "first_actor raw [] = None"
| "first_actor raw ((field, kind) # ks) =
     (case j_obj (jget raw field) of Some obj \<Rightarrow> Some (kind, obj) | None \<Rightarrow> first_actor raw ks)"

definition bare_actor :: "actor_kind \<Rightarrow> bool \<Rightarrow> actor_ref" where
  "bare_actor kind exclusion =
     \<lparr> ac_kind = kind, ac_key = JNull, ac_value = JNull, ac_name = JNull, ac_href = None, ac_exclusion = exclusion \<rparr>"

definition named_actor :: "actor_kind \<Rightarrow> jobj \<Rightarrow> bool \<Rightarrow> label_names \<Rightarrow> object_names \<Rightarrow> actor_ref" where
  "named_actor kind obj exclusion labels names =
     (let href = (if truthy (jget obj ''href'') then Some (py_str (jget obj ''href'')) else None);
          (key, value) =
            (if kind \<noteq> AK_LABEL then (JNull, JNull)
             else case Option.bind href (dict_get labels) of
               Some (k, v) \<Rightarrow> (JStr k, JStr v)
             | None \<Rightarrow> (jget obj ''key'', jget obj ''value''))
      in \<lparr> ac_kind = kind, ac_key = key, ac_value = value,
           ac_name = j_or (j_or (jget obj ''name'') (name_of names href)) (jget obj ''hostname''),
           ac_href = href, ac_exclusion = exclusion \<rparr>)"

definition actor_of :: "jobj \<Rightarrow> label_names \<Rightarrow> object_names \<Rightarrow> actor_ref" where
  "actor_of raw labels names =
     (let exclusion = truthy (jget raw ''exclusion'') in
      if jget raw ''actors'' = JStr ''ams'' \<or> truthy (jget raw ''all_workloads'') then bare_actor AK_ALL_WORKLOADS exclusion
      else case first_actor raw ACTOR_KEYS of
        Some (kind, obj) \<Rightarrow> named_actor kind obj exclusion labels names
      | None \<Rightarrow> bare_actor AK_OTHER exclusion)"

definition service_of :: "jobj \<Rightarrow> object_names \<Rightarrow> service_ref" where
  "service_of raw names =
     (let href = jget raw ''href'' in
      \<lparr> sv_port = jget raw ''port'', sv_to_port = jget raw ''to_port'', sv_proto = jget raw ''proto'',
        sv_name = j_or (jget raw ''name'') (if truthy href then name_of names (j_str href) else JNull), sv_href = href \<rparr>)"

definition rule_of :: "jobj \<Rightarrow> rule_action \<Rightarrow> jobj \<Rightarrow> label_names \<Rightarrow> object_names \<Rightarrow> rule_ref" where
  "rule_of raw kind rs labels names =
     \<lparr> rr_href = py_str (jget raw ''href''), rr_rule_type = kind,
       rr_enabled = (case map_of raw ''enabled'' of None \<Rightarrow> True | Some e \<Rightarrow> truthy e),
       rr_ruleset_name = str_or_blank (jget rs ''name''), rr_ruleset_href = str_or_blank (jget rs ''href''),
       rr_description = j_or (jget raw ''description'') JNull,
       rr_consumers = map (\<lambda>a. actor_of (j_dict a) labels names) (j_list (jget raw ''consumers'')),
       rr_providers = map (\<lambda>a. actor_of (j_dict a) labels names) (j_list (jget raw ''providers'')),
       rr_services = map (\<lambda>s. service_of (j_dict s) names) (j_list (jget raw ''ingress_services'')) \<rparr>"

definition deny_type :: "jobj \<Rightarrow> rule_action" where
  "deny_type raw =
     (let kind = (case map_of raw ''rule_type'' of None \<Rightarrow> '''' | Some t \<Rightarrow> py_str t) in
      if jget raw ''override'' = JBool True \<or> py_lower kind = ''override_deny'' then RA_OVERRIDE_DENY else RA_DENY)"

definition rules_with_href :: "jobj \<Rightarrow> string \<Rightarrow> jobj list" where
  "rules_with_href rs k = filter (\<lambda>raw. truthy (jget raw ''href'')) (map j_dict (j_list (jget rs k)))"

definition ruleset_rules :: "label_names \<Rightarrow> object_names \<Rightarrow> jobj \<Rightarrow> (json \<times> rule_ref) list" where
  "ruleset_rules labels names rs =
     map (\<lambda>raw. (jget raw ''href'', rule_of raw RA_ALLOW rs labels names)) (rules_with_href rs ''rules'') @
     map (\<lambda>raw. (jget raw ''href'', rule_of raw (deny_type raw) rs labels names)) (rules_with_href rs ''deny_rules'')"

definition index_rules :: "jobj list \<Rightarrow> label_names \<Rightarrow> object_names \<Rightarrow> (json, rule_ref) dict" where
  "index_rules rule_sets labels names =
     fold (\<lambda>x. dict_set (fst x) (snd x)) (concat (map (ruleset_rules labels names) rule_sets)) []"

section \<open>Drafts and rule searches\<close>

record draft_view =
  dv_draft_decision :: string
  dv_deny_rule_hrefs :: "string list"
  dv_override_deny_hrefs :: "string list"
  dv_allow_rule_hrefs :: "string list"
  dv_essential_service_rules :: "string list"

text \<open>The text of a field that a Mapping among the items carries.\<close>

definition texts_of :: "string \<Rightarrow> json \<Rightarrow> string list" where
  "texts_of field items =
     List.map_filter (\<lambda>i. case j_obj i of
         Some o' \<Rightarrow> (if truthy (jget o' field) then Some (py_str (jget o' field)) else None) | None \<Rightarrow> None) (j_list items)"

definition parse_draft :: "jobj \<Rightarrow> draft_view" where
  "parse_draft raw =
     \<lparr> dv_draft_decision = parse_draft_policy_decision
         (if truthy (jget raw ''draft_policy_decision'') then py_str (jget raw ''draft_policy_decision'') else ''unknown''),
       dv_deny_rule_hrefs = texts_of ''href'' (jget raw ''enforcement_boundaries''),
       dv_override_deny_hrefs = texts_of ''href'' (jget raw ''override_deny_rules''),
       dv_allow_rule_hrefs = texts_of ''href'' (jget raw ''rules''),
       dv_essential_service_rules = texts_of ''essential_service_rule'' (jget raw ''rules'') \<rparr>"

definition SEARCH_BUCKETS :: "(string \<times> rule_action) list" where
  "SEARCH_BUCKETS = [(''sec_rules'', RA_ALLOW), (''deny_rules'', RA_DENY), (''override_deny_rules'', RA_OVERRIDE_DENY)]"

definition parse_rule_search :: "json \<Rightarrow> rule_ref list" where
  "parse_rule_search body =
     (case j_obj body of
        None \<Rightarrow> []
      | Some b \<Rightarrow>
          concat (map (\<lambda>(bucket, kind).
            List.map_filter (\<lambda>i. case j_obj i of
                Some raw \<Rightarrow>
                  (if truthy (jget raw ''href'') then Some (rule_of raw kind (j_dict (jget raw ''rule_set'')) [] []) else None)
              | None \<Rightarrow> None) (j_list (jget b bucket))) SEARCH_BUCKETS))"

section \<open>The IP list of an address\<close>

definition addr_le :: "ipaddr \<Rightarrow> ipaddr \<Rightarrow> bool" where
  "addr_le a b \<longleftrightarrow> addr_ver a = addr_ver b \<and> addr_int a \<le> addr_int b"

definition ip_of :: "json \<Rightarrow> ipaddr option" where
  "ip_of j = Option.bind (j_str j) ip_address"

text \<open>A text that does not parse, or addresses of two families, raise and count as outside.\<close>

definition in_range :: "ipaddr \<Rightarrow> jobj \<Rightarrow> bool" where
  "in_range ip rng =
     (let frm = jget rng ''from_ip''; to = jget rng ''to_ip'' in
      if \<not> truthy frm then False
      else if truthy to then
        (case (ip_of frm, ip_of to) of (Some lo, Some hi) \<Rightarrow> addr_le lo ip \<and> addr_le ip hi | _ \<Rightarrow> False)
      else if CHR ''/'' \<in> set (py_str frm) then
        (case ip_network (py_str frm) of Some n \<Rightarrow> addr_in ip n | None \<Rightarrow> False)
      else ip_of frm = Some ip)"

definition range_size :: "jobj \<Rightarrow> int" where
  "range_size rng =
     (let frm = jget rng ''from_ip''; to = jget rng ''to_ip'' in
      if truthy to then
        (case (ip_address (py_str to), ip_address (py_str frm)) of
           (Some hi, Some lo) \<Rightarrow> addr_int hi - addr_int lo + 1 | _ \<Rightarrow> 0)
      else if CHR ''/'' \<in> set (py_str frm) then
        (case ip_network (py_str frm) of Some n \<Rightarrow> num_addresses n | None \<Rightarrow> 0)
      else 1)"

definition list_ranges :: "jobj \<Rightarrow> jobj list" where
  "list_ranges ipl = map j_dict (j_list (jget ipl ''ip_ranges''))"

definition included_ranges :: "ipaddr \<Rightarrow> jobj \<Rightarrow> jobj list" where
  "included_ranges ip ipl = filter (\<lambda>r. \<not> truthy (jget r ''exclusion'') \<and> in_range ip r) (list_ranges ipl)"

definition list_holds :: "ipaddr \<Rightarrow> jobj \<Rightarrow> bool" where
  "list_holds ip ipl \<longleftrightarrow>
     included_ranges ip ipl \<noteq> [] \<and> truthy (jget ipl ''href'') \<and>
     \<not> list_ex (\<lambda>r. truthy (jget r ''exclusion'') \<and> in_range ip r) (list_ranges ipl)"

definition list_size :: "ipaddr \<Rightarrow> jobj \<Rightarrow> int" where
  "list_size ip ipl = Min (set (map range_size (included_ranges ip ipl)))"

definition narrower :: "ipaddr \<Rightarrow> jobj \<Rightarrow> (int \<times> string) option \<Rightarrow> (int \<times> string) option" where
  "narrower ip ipl best =
     (if \<not> list_holds ip ipl then best
      else
        let size = list_size ip ipl; this = Some (size, py_str (jget ipl ''href''))
        in case best of None \<Rightarrow> this | Some (n, h) \<Rightarrow> (if size < n then this else best))"

definition iplist_href_for_ip :: "jobj list \<Rightarrow> string \<Rightarrow> string option" where
  "iplist_href_for_ip ip_lists text' =
     (case ip_address text' of
        None \<Rightarrow> None
      | Some ip \<Rightarrow> map_option snd (fold (narrower ip) ip_lists None))"

end
