(* ===== verification/PolicyProofs.thy ===== *)
theory PolicyProofs
  imports Policy ResolverSubtract
begin

text \<open>
  The index of rules holds every rule under its href, and the IP list of an address is the narrowest
  one: its size is the number of addresses of the smallest range that holds the address, for both
  families.
\<close>

section \<open>IPv6 texts are 128-bit numbers\<close>

lemma foldl_digits:
  fixes b :: int
  assumes "\<forall>x \<in> set xs. 0 \<le> x \<and> x < b" "0 < b"
  shows "0 \<le> foldl (\<lambda>a d. b * a + d) 0 xs \<and> foldl (\<lambda>a d. b * a + d) 0 xs < b ^ length xs"
  using assms
proof (induction xs rule: rev_induct)
  case Nil
  then show ?case by simp
next
  case (snoc x xs)
  let ?a = "foldl (\<lambda>a d. b * a + d) 0 xs"
  have a: "0 \<le> ?a" "?a < b ^ length xs" and x: "0 \<le> x" "x < b" using snoc by auto
  have "b * ?a \<le> b * (b ^ length xs - 1)" using a(2) snoc.prems(2) by (intro mult_left_mono) auto
  then have "b * ?a + x < b * b ^ length xs" using x by (simp add: algebra_simps)
  with a x snoc.prems(2) show ?case by simp
qed

lemma sequence_opt_map: "sequence_opt (map f ps) = Some xs \<Longrightarrow> length xs = length ps \<and> (\<forall>x \<in> set xs. \<exists>p \<in> set ps. f p = Some x)"
proof (induction ps arbitrary: xs)
  case (Cons p ps)
  then show ?case by (cases "f p") fastforce+
qed simp

lemma hex_val_bound: "hex_val c = Some x \<Longrightarrow> 0 \<le> x \<and> x < 16"
  by (auto simp: hex_val_def Let_def split: if_splits)

lemma parse_hextet_bound:
  assumes "parse_hextet s = Some x"
  shows "0 \<le> x \<and> x < 65536"
proof -
  obtain ds where ds: "sequence_opt (map hex_val s) = Some ds" "x = foldl (\<lambda>a d. 16 * a + d) 0 ds" "length s \<le> 4"
    using assms by (auto simp: parse_hextet_def split: if_splits)
  have len: "length ds \<le> 4" and b: "\<forall>d \<in> set ds. 0 \<le> d \<and> d < 16"
    using sequence_opt_map [OF ds(1)] ds(3) hex_val_bound by fastforce+
  have "(16::int) ^ length ds \<le> 16 ^ 4" using len by (intro power_increasing) auto
  with foldl_digits [OF b] ds(2) show ?thesis by simp
qed

lemma hextets_int_bound:
  assumes "hextets_int ps = Some x"
  shows "0 \<le> x \<and> x < 65536 ^ length ps"
proof -
  obtain ds where ds: "sequence_opt (map parse_hextet ps) = Some ds" "x = foldl (\<lambda>a d. 65536 * a + d) 0 ds"
    using assms by (auto simp: hextets_int_def)
  have "length ds = length ps" and b: "\<forall>d \<in> set ds. 0 \<le> d \<and> d < 65536"
    using sequence_opt_map [OF ds(1)] parse_hextet_bound by blast+
  with foldl_digits [OF b] ds(2) show ?thesis by simp
qed

lemma join_halves:
  fixes h l :: int
  assumes "0 \<le> h" "h < 65536 ^ a" "0 \<le> l" "l < 65536 ^ b" "a \<le> hi" "b + hi \<le> 7"
  shows "0 \<le> h * 65536 ^ (8 - hi) + l \<and> h * 65536 ^ (8 - hi) + l < 2 ^ 128"
proof -
  have "(65536::int) ^ a \<le> 65536 ^ hi" using assms(5) by (intro power_increasing) auto
  then have h: "h \<le> 65536 ^ hi - 1" using assms(2) by linarith
  have "(65536::int) ^ b \<le> 65536 ^ (8 - hi)" using assms(6) by (intro power_increasing) auto
  then have l: "l < 65536 ^ (8 - hi)" using assms(4) by linarith
  have "h * 65536 ^ (8 - hi) \<le> (65536 ^ hi - 1) * 65536 ^ (8 - hi)" using h by (intro mult_right_mono) auto
  also have "\<dots> = 65536 ^ (hi + (8 - hi)) - 65536 ^ (8 - hi)" by (simp add: algebra_simps power_add)
  also have "hi + (8 - hi) = 8" using assms(6) by simp
  finally have "h * 65536 ^ (8 - hi) + l < 65536 ^ 8" using l by linarith
  with assms(1,3) show ?thesis by simp
qed

lemma ipv6_parts_bound:
  assumes "ipv6_parts_int parts = Some x"
  shows "0 \<le> x \<and> x < 2 ^ 128"
proof (cases "skip_indices parts")
  case Nil
  then have "length parts = 8" "hextets_int parts = Some x"
    using assms by (auto simp: ipv6_parts_int_def split: if_splits)
  then show ?thesis using hextets_int_bound [of parts x] by simp
next
  case (Cons k ks)
  define hi where "hi = (if hd parts = '''' then k - 1 else k)"
  define lo where "lo = (if last parts = '''' then length parts - k - 1 - 1 else length parts - k - 1)"
  have ks: "ks = []" using assms Cons by (auto simp: ipv6_parts_int_def split: if_splits list.splits)
  have "(case (hextets_int (take hi parts), hextets_int (drop (length parts - lo) parts)) of
      (Some h, Some l) \<Rightarrow> Some (h * 65536 ^ (8 - hi) + l) | _ \<Rightarrow> None) = Some x \<and> hi + lo \<le> 7"
    using assms unfolding ipv6_parts_int_def Cons ks list.case Let_def hi_def [symmetric] lo_def [symmetric]
    by (simp split: if_splits)
  then obtain h l where hl: "hextets_int (take hi parts) = Some h" "hextets_int (drop (length parts - lo) parts) = Some l"
    and x: "x = h * 65536 ^ (8 - hi) + l" and b: "hi + lo \<le> 7"
    by (auto split: option.splits)
  have "length (drop (length parts - lo) parts) \<le> lo" "length (take hi parts) \<le> hi" by auto
  then show ?thesis unfolding x
    using hextets_int_bound [OF hl(1)] hextets_int_bound [OF hl(2)] b
    by (intro join_halves [where a = "length (take hi parts)" and b = "length (drop (length parts - lo) parts)"]) auto
qed

lemma ipv6_int_bounds: "ipv6_int s = Some x \<Longrightarrow> 0 \<le> x \<and> x < 2 ^ 128"
  by (auto simp: ipv6_int_def Let_def bind_eq_Some_conv dest: ipv6_parts_bound split: if_splits)

lemma ip_address_wf:
  assumes "ip_address s = Some a"
  shows "wf_addr a"
proof (cases "addr_ver a")
  case V4
  then show ?thesis using assms ip_address_v4_wf by blast
next
  case V6
  then obtain i where "a = Addr V6 i" "ipv6_int s = Some i"
    using assms by (auto simp: ip_address_def split: option.splits if_splits)
  then show ?thesis using ipv6_int_bounds by (simp add: wf_addr_def)
qed

lemma ip_network_wf:
  assumes "ip_network s = Some n"
  shows "wf_net n"
proof (cases "net_ver n")
  case V4
  then show ?thesis using assms ip_network_v4_wf by blast
next
  case V6
  obtain i l where "n = net_of V6 i l" "0 \<le> i" "i < 2 ^ 128" "l \<le> 128"
    using assms V6 ipv6_int_bounds
    by (auto simp: ip_network_def make_net_def net_of_def prefix_of_digits_def split: list.splits option.splits if_splits)
  then show ?thesis using wf_net_of [of i V6 l] by simp
qed

section \<open>The size of a range\<close>

text \<open>The addresses a range stands for.\<close>

definition range_addrs :: "jobj \<Rightarrow> ipaddr set" where
  "range_addrs r = {ip. wf_addr ip \<and> in_range ip r}"

lemma card_addrs: "0 \<le> m \<Longrightarrow> card (Addr v ` {lo..<lo + m}) = nat m"
  by (subst card_image) (auto simp: inj_on_def)

lemma net_addrs_image: "wf_net n \<Longrightarrow> net_addrs n = Addr (net_ver n) ` {net_int n..<net_int n + num_addresses n}"
proof (intro set_eqI iffI)
  fix a
  assume n: "wf_net n" and "a \<in> net_addrs n"
  then show "a \<in> Addr (net_ver n) ` {net_int n..<net_int n + num_addresses n}"
    by (cases a) (auto simp: addr_in_iff)
qed (auto simp: addr_in_iff)

lemma span_fits:
  assumes "wf_net n"
  shows "net_int n + num_addresses n \<le> 2 ^ ip_width (net_ver n)"
proof -
  have w: "(2::int) ^ ip_width (net_ver n) = num_addresses n * 2 ^ net_len n"
    using assms by (simp add: wf_net_def num_addresses_def host_bits_def flip: power_add)
  obtain q where q: "net_int n = num_addresses n * q" using assms by (auto simp: wf_net_def)
  have "q < 2 ^ net_len n" using assms num_addresses_pos [of n] by (auto simp: wf_net_def q w)
  then have "num_addresses n * (q + 1) \<le> num_addresses n * 2 ^ net_len n"
    using num_addresses_pos [of n, THEN less_imp_le] by (intro mult_left_mono) auto
  then show ?thesis by (simp add: q w algebra_simps)
qed

lemma range_size_card:
  assumes "in_range ip r"
  shows "range_size r = int (card (range_addrs r)) \<and> 1 \<le> range_size r"
proof -
  define frm where "frm = jget r ''from_ip''"
  define to where "to = jget r ''to_ip''"
  have frm: "truthy frm" using assms by (simp add: in_range_def frm_def Let_def split: if_splits)
  consider "truthy to" | "\<not> truthy to" "CHR ''/'' \<in> set (py_str frm)" | "\<not> truthy to" "CHR ''/'' \<notin> set (py_str frm)" by blast
  then show ?thesis
  proof cases
    case 1
    then obtain s s' lo hi where p: "frm = JStr s" "to = JStr s'" "ip_address s = Some lo" "ip_address s' = Some hi"
      and le: "addr_le lo ip" "addr_le ip hi"
      using assms frm by (auto simp: in_range_def Let_def ip_of_def bind_eq_Some_conv simp flip: frm_def to_def
          split: option.splits elim!: j_str.elims)
    have wf: "wf_addr lo" "wf_addr hi" using p ip_address_wf by blast+
    have "range_addrs r = Addr (addr_ver lo) ` {addr_int lo..<addr_int lo + (addr_int hi - addr_int lo + 1)}"
    proof (intro set_eqI iffI)
      fix a
      assume "a \<in> range_addrs r"
      then show "a \<in> Addr (addr_ver lo) ` {addr_int lo..<addr_int lo + (addr_int hi - addr_int lo + 1)}"
        using p 1 frm by (cases a) (auto simp: range_addrs_def in_range_def Let_def ip_of_def addr_le_def simp flip: frm_def to_def)
    next
      fix a
      assume "a \<in> Addr (addr_ver lo) ` {addr_int lo..<addr_int lo + (addr_int hi - addr_int lo + 1)}"
      then show "a \<in> range_addrs r"
        using p 1 frm wf le by (auto simp: range_addrs_def in_range_def Let_def ip_of_def addr_le_def wf_addr_def simp flip: frm_def to_def)
    qed
    moreover have "range_size r = addr_int hi - addr_int lo + 1" using p 1 by (simp add: range_size_def Let_def flip: frm_def to_def)
    moreover have "addr_int lo \<le> addr_int hi" using le by (simp add: addr_le_def)
    ultimately show ?thesis using card_addrs [of "addr_int hi - addr_int lo + 1" "addr_ver lo" "addr_int lo"] by simp
  next
    case 2
    then obtain n where n: "ip_network (py_str frm) = Some n" "addr_in ip n"
      using assms frm by (auto simp: in_range_def Let_def simp flip: frm_def to_def split: option.splits)
    have wf: "wf_net n" using n ip_network_wf by blast
    have "range_addrs r = net_addrs n"
      using n 2 frm span_fits [OF wf] wf
      by (auto simp: range_addrs_def in_range_def Let_def addr_in_iff wf_addr_def wf_net_def simp flip: frm_def to_def)
    moreover have "range_size r = num_addresses n" using n 2 by (simp add: range_size_def Let_def flip: frm_def to_def)
    moreover have "1 \<le> num_addresses n" using num_addresses_pos [of n] by linarith
    ultimately show ?thesis
      using card_addrs [of "num_addresses n" "net_ver n" "net_int n"] by (simp add: net_addrs_image [OF wf])
  next
    case 3
    then have ip: "ip_of frm = Some ip" using assms frm by (simp add: in_range_def Let_def flip: frm_def to_def)
    then have "wf_addr ip" using ip_address_wf by (auto simp: ip_of_def bind_eq_Some_conv)
    then have "range_addrs r = {ip}"
      using ip 3 frm by (auto simp: range_addrs_def in_range_def Let_def simp flip: frm_def to_def)
    moreover have "range_size r = 1" using 3 by (simp add: range_size_def Let_def flip: frm_def to_def)
    ultimately show ?thesis by simp
  qed
qed

section \<open>The narrowest list\<close>

definition list_addrs :: "jobj \<Rightarrow> ipaddr set" where
  "list_addrs ipl =
     (\<Union>r \<in> {r \<in> set (list_ranges ipl). \<not> truthy (jget r ''exclusion'')}. range_addrs r) -
     (\<Union>r \<in> {r \<in> set (list_ranges ipl). truthy (jget r ''exclusion'')}. range_addrs r)"

lemma list_holds_iff: "wf_addr ip \<Longrightarrow> list_holds ip ipl \<longleftrightarrow> truthy (jget ipl ''href'') \<and> ip \<in> list_addrs ipl"
  by (auto simp: list_holds_def included_ranges_def list_addrs_def range_addrs_def list_ex_iff filter_empty_conv)

lemma list_size_card:
  "list_size ip ipl = Min ((\<lambda>r. int (card (range_addrs r))) ` set (included_ranges ip ipl))"
proof -
  have "range_size r = int (card (range_addrs r))" if "r \<in> set (included_ranges ip ipl)" for r
    using that range_size_card [of ip r] by (simp add: included_ranges_def)
  then have "range_size ` set (included_ranges ip ipl) = (\<lambda>r. int (card (range_addrs r))) ` set (included_ranges ip ipl)"
    by (intro image_cong) auto
  then show ?thesis by (simp add: list_size_def)
qed

lemma narrower_cases:
  "\<not> list_holds ip l \<Longrightarrow> narrower ip l best = best"
  "list_holds ip l \<Longrightarrow> narrower ip l None = Some (list_size ip l, py_str (jget l ''href''))"
  "list_holds ip l \<Longrightarrow> narrower ip l (Some (n, h)) =
     (if list_size ip l < n then Some (list_size ip l, py_str (jget l ''href'')) else Some (n, h))"
  by (simp_all add: narrower_def)

definition first_narrowest :: "ipaddr \<Rightarrow> jobj list \<Rightarrow> int \<Rightarrow> string \<Rightarrow> bool" where
  "first_narrowest ip ls n h \<longleftrightarrow>
     (\<exists>pre l post. ls = pre @ l # post \<and> list_holds ip l \<and> n = list_size ip l \<and> h = py_str (jget l ''href'') \<and>
       (\<forall>x \<in> set pre. list_holds ip x \<longrightarrow> n < list_size ip x) \<and> (\<forall>x \<in> set post. list_holds ip x \<longrightarrow> n \<le> list_size ip x))"

lemma first_narrowest_new:
  assumes "list_holds ip x" "\<forall>y \<in> set ls. list_holds ip y \<longrightarrow> list_size ip x < list_size ip y"
  shows "first_narrowest ip (ls @ [x]) (list_size ip x) (py_str (jget x ''href''))"
  unfolding first_narrowest_def
  by (rule exI [where x = ls], rule exI [where x = x], rule exI [where x = "[]"]) (use assms in simp)

lemma first_narrowest_keep:
  assumes "first_narrowest ip ls n h" "list_holds ip x \<longrightarrow> n \<le> list_size ip x"
  shows "first_narrowest ip (ls @ [x]) n h"
proof -
  obtain pre l post where l: "ls = pre @ l # post" "list_holds ip l" "n = list_size ip l" "h = py_str (jget l ''href'')"
      "\<forall>x \<in> set pre. list_holds ip x \<longrightarrow> n < list_size ip x" "\<forall>x \<in> set post. list_holds ip x \<longrightarrow> n \<le> list_size ip x"
    using assms(1) by (auto simp: first_narrowest_def)
  show ?thesis
    unfolding first_narrowest_def
    by (rule exI [where x = pre], rule exI [where x = l], rule exI [where x = "post @ [x]"]) (use l assms(2) in simp)
qed

lemma first_narrowest_least:
  "first_narrowest ip ls n h \<Longrightarrow> x \<in> set ls \<Longrightarrow> list_holds ip x \<Longrightarrow> n \<le> list_size ip x"
  by (fastforce simp: first_narrowest_def intro: less_imp_le)

lemma fold_narrower:
  "case fold (narrower ip) ls None of
     None \<Rightarrow> \<forall>l \<in> set ls. \<not> list_holds ip l
   | Some (n, h) \<Rightarrow> first_narrowest ip ls n h"
proof (induction ls rule: rev_induct)
  case Nil
  then show ?case by simp
next
  case (snoc x ls)
  show ?case
  proof (cases "fold (narrower ip) ls None")
    case None
    with snoc.IH show ?thesis
      using narrower_cases(1,2) [of ip x] by (cases "list_holds ip x") (auto intro: first_narrowest_new)
  next
    case (Some p)
    obtain n h where p: "p = (n, h)" by (cases p)
    have ls: "first_narrowest ip ls n h" using snoc.IH by (simp add: Some p)
    show ?thesis
    proof (cases "list_holds ip x \<and> list_size ip x < n")
      case True
      have "list_size ip x < list_size ip y" if "y \<in> set ls" "list_holds ip y" for y
        using first_narrowest_least [OF ls that] True by linarith
      with True show ?thesis using narrower_cases(3) [of ip x n h] by (simp add: Some p first_narrowest_new)
    next
      case False
      then show ?thesis
        using narrower_cases(1,3) [of ip x] first_narrowest_keep [OF ls, of x] by (cases "list_holds ip x") (auto simp: Some p)
    qed
  qed
qed

text \<open>C30. An address falls into a list exactly when it lies in one of its included ranges and in none of its
  excluded ones; among such lists the answer is the first whose smallest range around the address has the
  fewest addresses, and there is no answer only when no list holds the address.\<close>

theorem iplist_narrowest:
  assumes "ip_address t = Some ip"
  shows "case iplist_href_for_ip ls t of
      None \<Rightarrow> \<forall>l \<in> set ls. truthy (jget l ''href'') \<longrightarrow> ip \<notin> list_addrs l
    | Some h \<Rightarrow> \<exists>pre l post. ls = pre @ l # post \<and> h = py_str (jget l ''href'') \<and> truthy (jget l ''href'') \<and> ip \<in> list_addrs l \<and>
        (\<forall>x \<in> set ls. truthy (jget x ''href'') \<and> ip \<in> list_addrs x \<longrightarrow>
           (let size = (\<lambda>y. Min ((\<lambda>r. int (card (range_addrs r))) ` set (included_ranges ip y)))
            in size l \<le> size x \<and> (x \<in> set pre \<longrightarrow> size l < size x)))"
proof (cases "fold (narrower ip) ls None")
  case None
  then show ?thesis
    using fold_narrower [of ls ip] list_holds_iff [OF ip_address_wf [OF assms]] by (simp add: iplist_href_for_ip_def assms)
next
  case (Some p)
  obtain n h where p: "p = (n, h)" by (cases p)
  note iff = list_holds_iff [OF ip_address_wf [OF assms]]
  obtain pre l post where ls: "ls = pre @ l # post" and l: "list_holds ip l" "n = list_size ip l" "h = py_str (jget l ''href'')"
    and pre: "\<forall>x \<in> set pre. list_holds ip x \<longrightarrow> n < list_size ip x" and post: "\<forall>x \<in> set post. list_holds ip x \<longrightarrow> n \<le> list_size ip x"
    using fold_narrower [of ls ip] by (auto simp: Some p first_narrowest_def)
  have "list_size ip l \<le> list_size ip x \<and> (x \<in> set pre \<longrightarrow> list_size ip l < list_size ip x)"
    if "x \<in> set ls" "list_holds ip x" for x
    using that pre post l(2) by (auto simp: ls)
  moreover have "iplist_href_for_ip ls t = Some h" by (simp add: iplist_href_for_ip_def assms Some p)
  ultimately show ?thesis
    using ls l iff unfolding list_size_card [symmetric] Let_def by (simp only: option.case) blast
qed

theorem iplist_narrowest_witness:
  "iplist_href_for_ip
     [[(''href'', JStr ''any''), (''ip_ranges'', JList [JObj [(''from_ip'', JStr ''0.0.0.0/0'')]])],
      [(''href'', JStr ''corp''), (''ip_ranges'', JList [JObj [(''from_ip'', JStr ''10.0.0.0/8'')],
         JObj [(''from_ip'', JStr ''10.9.0.0''), (''to_ip'', JStr ''10.9.0.9''), (''exclusion'', JBool True)]])]]
     ''10.1.2.3'' = Some ''corp'' \<and>
   Addr V4 167838211 \<in> list_addrs
     [(''href'', JStr ''corp''), (''ip_ranges'', JList [JObj [(''from_ip'', JStr ''10.0.0.0/8'')],
         JObj [(''from_ip'', JStr ''10.9.0.0''), (''to_ip'', JStr ''10.9.0.9''), (''exclusion'', JBool True)]])]"
proof -
  let ?any = "[(''href'', JStr ''any''), (''ip_ranges'', JList [JObj [(''from_ip'', JStr ''0.0.0.0/0'')]])]"
  let ?corp = "[(''href'', JStr ''corp''), (''ip_ranges'', JList [JObj [(''from_ip'', JStr ''10.0.0.0/8'')],
         JObj [(''from_ip'', JStr ''10.9.0.0''), (''to_ip'', JStr ''10.9.0.9''), (''exclusion'', JBool True)]])]"
  have ip: "ip_address ''10.1.2.3'' = Some (Addr V4 167838211)" by code_simp
  have r: "iplist_href_for_ip [?any, ?corp] ''10.1.2.3'' = Some ''corp''" by code_simp
  obtain pre l post where ls: "[?any, ?corp] = pre @ l # post" and l: "''corp'' = py_str (jget l ''href'')" "Addr V4 167838211 \<in> list_addrs l"
    using iplist_narrowest [OF ip, of "[?any, ?corp]"] unfolding r by auto
  have "l \<in> set [?any, ?corp]" unfolding ls by simp
  with l have "Addr V4 167838211 \<in> list_addrs ?corp" by auto
  with r show ?thesis by blast
qed

section \<open>The index of rules\<close>

lemma index_rules_get:
  "dict_get (index_rules rule_sets labels names) h =
     (case filter (\<lambda>x. fst x = h) (concat (map (ruleset_rules labels names) rule_sets)) of
        [] \<Rightarrow> None | y # ys \<Rightarrow> Some (snd (last (y # ys))))"
  unfolding index_rules_def by (simp add: alist.get_fold split: list.split)

lemma ruleset_rules_mem:
  "(h, r) \<in> set (ruleset_rules labels names rs) \<longleftrightarrow>
     (\<exists>raw. truthy h \<and> jget raw ''href'' = h \<and>
       ((\<exists>a \<in> set (j_list (jget rs ''rules'')). raw = j_dict a \<and> r = rule_of raw RA_ALLOW rs labels names) \<or>
        (\<exists>d \<in> set (j_list (jget rs ''deny_rules'')). raw = j_dict d \<and> r = rule_of raw (deny_type raw) rs labels names)))"
  by (auto simp: ruleset_rules_def rules_with_href_def image_iff)

text \<open>Every rule that has an href is in the index under it, once, with its own kind (allow from the rules,
  deny or override deny from the deny rules) and the name and href of its rule set, when no two rules share
  an href; nothing else is in the index.\<close>

lemma index_rules_exact:
  assumes "distinct (map fst (concat (map (ruleset_rules labels names) rule_sets)))"
  shows "dict_get (index_rules rule_sets labels names) h = Some r \<longleftrightarrow>
    (\<exists>rs \<in> set rule_sets. \<exists>raw. truthy h \<and> jget raw ''href'' = h \<and>
       ((\<exists>a \<in> set (j_list (jget rs ''rules'')). raw = j_dict a \<and> r = rule_of raw RA_ALLOW rs labels names) \<or>
        (\<exists>d \<in> set (j_list (jget rs ''deny_rules'')). raw = j_dict d \<and> r = rule_of raw (deny_type raw) rs labels names)))"
proof -
  let ?all = "concat (map (ruleset_rules labels names) rule_sets)"
  have keys: "dict_keys (index_rules rule_sets labels names) = map fst ?all"
    unfolding index_rules_def using nub_distinct [OF assms] by (simp only: alist.keys_fold)
  have "dict_get (index_rules rule_sets labels names) h = Some r \<longleftrightarrow> (h, r) \<in> set ?all"
  proof (cases "filter (\<lambda>x. fst x = h) ?all")
    case Nil
    then show ?thesis by (auto simp: index_rules_get filter_empty_conv simp del: set_concat)
  next
    case (Cons y ys)
    have "map_of ?all h = Some r \<longleftrightarrow> (h, r) \<in> set ?all" using assms by (rule map_of_eq_Some_iff)
    moreover have "\<forall>x \<in> set (filter (\<lambda>x. fst x = h) ?all). map_of ?all h = Some (snd x)"
      using assms by (auto simp del: set_concat intro: map_of_is_SomeI)
    moreover have "last (y # ys) \<in> set (filter (\<lambda>x. fst x = h) ?all)" unfolding Cons by simp
    ultimately show ?thesis unfolding index_rules_get Cons by (simp del: set_concat) (metis option.inject)
  qed
  also have "\<dots> \<longleftrightarrow> (\<exists>rs \<in> set rule_sets. (h, r) \<in> set (ruleset_rules labels names rs))" by auto
  also have "\<dots> \<longleftrightarrow> (\<exists>rs \<in> set rule_sets. \<exists>raw. truthy h \<and> jget raw ''href'' = h \<and>
       ((\<exists>a \<in> set (j_list (jget rs ''rules'')). raw = j_dict a \<and> r = rule_of raw RA_ALLOW rs labels names) \<or>
        (\<exists>d \<in> set (j_list (jget rs ''deny_rules'')). raw = j_dict d \<and> r = rule_of raw (deny_type raw) rs labels names)))"
    unfolding ruleset_rules_mem by (rule refl)
  finally show ?thesis .
qed

definition example_rule_set :: jobj where
  "example_rule_set =
     [(''name'', JStr ''web''), (''href'', JStr ''/rs/1''),
      (''rules'', JList [JObj [(''href'', JStr ''/r/1''), (''consumers'', JList [JObj [(''actors'', JStr ''ams'')]])]]),
      (''deny_rules'', JList [JObj [(''href'', JStr ''/d/1''), (''override'', JBool True)]])]"

lemma index_rules_exact_witness:
  "dict_get (index_rules [example_rule_set] [] []) (JStr ''/d/1'') =
     Some (rule_of [(''href'', JStr ''/d/1''), (''override'', JBool True)] RA_OVERRIDE_DENY example_rule_set [] [])"
proof -
  have "distinct (map fst (concat (map (ruleset_rules [] []) [example_rule_set])))" by code_simp
  moreover have "deny_type [(''href'', JStr ''/d/1''), (''override'', JBool True)] = RA_OVERRIDE_DENY" by code_simp
  ultimately show ?thesis
    using index_rules_exact [of "[]" "[]" "[example_rule_set]" "JStr ''/d/1''"
        "rule_of [(''href'', JStr ''/d/1''), (''override'', JBool True)] RA_OVERRIDE_DENY example_rule_set [] []"]
    by (simp add: example_rule_set_def) (metis jget_Cons)
qed

end
