(* ===== verification/PolicyDiff.thy ===== *)
theory PolicyDiff
  imports Json
begin

text \<open>
  \<open>domain/policy_diff.py\<close>: the draft policy against the active one. Rule sets and policy objects are JSON
  objects as the PCE sends them; a view is what the diff compares. The minus sign that marks an exclusion in
  a summary (U+2212) is written as its three UTF-8 bytes; nothing reads it back.
\<close>

datatype change_kind = CK_RULE_SET | CK_RULE | CK_IP_LIST | CK_SERVICE | CK_LABEL_GROUP

fun change_kind_text :: "change_kind \<Rightarrow> string" where
  "change_kind_text CK_RULE_SET = ''rule_set''"
| "change_kind_text CK_RULE = ''rule''"
| "change_kind_text CK_IP_LIST = ''ip_list''"
| "change_kind_text CK_SERVICE = ''service''"
| "change_kind_text CK_LABEL_GROUP = ''label_group''"

datatype change_type = CT_ADDED | CT_REMOVED | CT_MODIFIED
datatype risk = RISK_HIGH | RISK_MEDIUM | RISK_NONE

record change =
  ch_kind :: change_kind
  ch_change :: change_type
  ch_ruleset :: string
  ch_name :: string
  ch_ref :: string
  ch_href :: string
  ch_field :: string
  ch_draft :: string
  ch_active :: string
  ch_rule_type :: string
  ch_rule_count :: "nat option"
  ch_scope_expanded :: bool
  ch_risk :: risk

definition ALLOW_KEYS :: "string list" where
  "ALLOW_KEYS = [''sec_rules'', ''rules'']"

definition RULE_FIELDS :: "string list" where
  "RULE_FIELDS = [''rule_type'', ''enabled'', ''description'', ''providers'', ''consumers'', ''services'']"

definition RULE_SET_FIELDS :: "string list" where
  "RULE_SET_FIELDS = [''name'', ''enabled'', ''description'', ''rule_count'']"

definition EXPANSION :: "string list" where
  "EXPANSION = [''ip_ranges'', ''fqdns'', ''service_ports'', ''labels'', ''sub_groups'']"

section \<open>Texts\<close>

fun rstrip_slash_rev :: "string \<Rightarrow> string" where
  "rstrip_slash_rev [] = []"
| "rstrip_slash_rev (c # cs) = (if c = CHR ''/'' then rstrip_slash_rev cs else c # cs)"

definition rstrip_slash :: "string \<Rightarrow> string" where
  "rstrip_slash s = rev (rstrip_slash_rev (rev s))"

definition id_of :: "json \<Rightarrow> string" where
  "id_of href = last (split_on CHR ''/'' (rstrip_slash (str_or_blank href)))"

text \<open>\<open>str(sorted(it.items()))\<close>: a list of pairs.\<close>

definition items_text :: "jobj \<Rightarrow> string" where
  "items_text it =
     ''['' @ py_join '', '' (map (\<lambda>(k, v). ''('' @ py_repr_str k @ '', '' @ py_repr v @ '')'') (sort_key fst it)) @ '']''"

definition port_token :: "jobj \<Rightarrow> string" where
  "port_token it =
     (let base =
        (if jget it ''port'' = JNull then ''proto:'' @ py_str (jget it ''proto'')
         else py_str (jget it ''proto'') @ ''/'' @ py_str (jget it ''port'') @
              (if jget it ''to_port'' \<noteq> JNull then ''-'' @ py_str (jget it ''to_port'') else []))
      in base @
         (if jget it ''icmp_type'' \<noteq> JNull then '' type:'' @ py_str (jget it ''icmp_type'') else []) @
         (if jget it ''icmp_code'' \<noteq> JNull then '' code:'' @ py_str (jget it ''icmp_code'') else []))"

definition MINUS_SIGN :: string where
  "MINUS_SIGN = map char_of [226 :: nat, 136, 146]"

text \<open>\<open>names.get(h, h)\<close>, as text.\<close>

definition name_text :: "(string, string) dict \<Rightarrow> json \<Rightarrow> string" where
  "name_text names h = (case Option.bind (j_str h) (dict_get names) of Some n \<Rightarrow> n | None \<Rightarrow> py_str h)"

definition ACTOR_REFS :: "string list" where
  "ACTOR_REFS = [''label'', ''label_group'', ''ip_list'', ''workload'', ''virtual_service'']"

fun ref_token :: "jobj \<Rightarrow> (string, string) dict \<Rightarrow> string list \<Rightarrow> string option" where
  "ref_token it names [] = None"
| "ref_token it names (k # ks) =
     (let h = jget (j_dict (jget it k)) ''href'' in
      if truthy h then Some (k @ '':'' @ name_text names h) else ref_token it names ks)"

definition actor_token :: "(string, string) dict \<Rightarrow> json \<Rightarrow> string" where
  "actor_token names j =
     (case j_obj j of
        None \<Rightarrow> py_str j
      | Some it \<Rightarrow>
          (let neg = (if truthy (jget it ''exclusion'') then MINUS_SIGN else []) in
           if truthy (jget it ''actors'') then neg @ ''actors:'' @ py_str (jget it ''actors'')
           else case ref_token it names ACTOR_REFS of
             Some t \<Rightarrow> neg @ t
           | None \<Rightarrow>
               (if list_ex (\<lambda>k. jget it k \<noteq> JNull) [''proto'', ''port'', ''icmp_type'', ''icmp_code''] then port_token it
                else if j_str (jget it ''href'') \<noteq> None then ''service:'' @ name_text names (jget it ''href'')
                else items_text it)))"

definition actors_text :: "json list \<Rightarrow> (string, string) dict \<Rightarrow> string" where
  "actors_text items names =
     (if items = [] then ''(any)'' else py_join '', '' (sort (map (actor_token names) items)))"

section \<open>The rules of a rule set\<close>

definition rule_key :: "json \<Rightarrow> string \<Rightarrow> string" where
  "rule_key href collection =
     (let parts = split_on CHR ''/'' (rstrip_slash (py_str href)); n = length parts in
      if 2 \<le> n \<and> parts ! (n - 2) \<noteq> [] then parts ! (n - 2) @ ''/'' @ parts ! (n - 1)
      else collection @ ''/'' @ id_of href)"

text \<open>Rule, type and key; a rule set lists allow rules under one of two names, and deny rules.\<close>

type_synonym typed_rule = "jobj \<times> string \<times> string"

definition with_href :: "jobj \<Rightarrow> string \<Rightarrow> jobj list" where
  "with_href rs k =
     List.map_filter (\<lambda>j. case j_obj j of Some r \<Rightarrow> (if truthy (jget r ''href'') then Some r else None) | None \<Rightarrow> None)
       (j_list (jget rs k))"

fun fresh_rules :: "json list \<Rightarrow> typed_rule list \<Rightarrow> typed_rule list" where
  "fresh_rules seen [] = []"
| "fresh_rules seen (x # xs) =
     (let h = jget (fst x) ''href'' in
      if h \<in> set seen then fresh_rules seen xs else x # fresh_rules (h # seen) xs)"

definition rules_of :: "jobj \<Rightarrow> typed_rule list" where
  "rules_of rs =
     fresh_rules []
       (map (\<lambda>r. (r, ''allow'', rule_key (jget r ''href'') ''sec_rules'')) (concat (map (with_href rs) ALLOW_KEYS)) @
        map (\<lambda>r. (r, (if truthy (jget r ''override'') then ''override_deny'' else ''deny''), rule_key (jget r ''href'') ''deny_rules''))
          (with_href rs ''deny_rules''))"

definition rules_by_key :: "jobj \<Rightarrow> (string, jobj \<times> string) dict" where
  "rules_by_key rs = fold (\<lambda>(r, t, k). dict_set k (r, t)) (rules_of rs) []"

text \<open>What is compared of a rule and of a rule set, by field.\<close>

definition enabled_text :: "jobj \<Rightarrow> string" where
  "enabled_text x = (case map_of x ''enabled'' of None \<Rightarrow> ''True'' | Some e \<Rightarrow> py_str e)"

definition rule_view :: "(string, string) dict \<Rightarrow> jobj \<times> string \<Rightarrow> string \<Rightarrow> string" where
  "rule_view names rt f =
     (let (rule, kind) = rt in
      if f = ''rule_type'' then kind
      else if f = ''enabled'' then enabled_text rule
      else if f = ''description'' then str_or_blank (jget rule ''description'')
      else if f = ''providers'' then actors_text (j_list (jget rule ''providers'')) names
      else if f = ''consumers'' then actors_text (j_list (jget rule ''consumers'')) names
      else actors_text (j_list (jget rule ''ingress_services'') @ j_list (jget rule ''service_ports'')) names)"

definition rule_set_view :: "jobj \<Rightarrow> string \<Rightarrow> string" where
  "rule_set_view rs f =
     (if f = ''name'' then str_or_blank (jget rs ''name'')
      else if f = ''enabled'' then enabled_text rs
      else if f = ''description'' then str_or_blank (jget rs ''description'')
      else dec_str (int (length (rules_of rs))))"

section \<open>The diff\<close>

definition by_id :: "jobj list \<Rightarrow> (string, jobj) dict" where
  "by_id items =
     fold (\<lambda>x. dict_set (id_of (jget x ''href'')) x) (filter (\<lambda>x. truthy (jget x ''href'')) items) []"

definition only_keys :: "(string, 'a) dict \<Rightarrow> (string, 'b) dict \<Rightarrow> string list" where
  "only_keys d a = sort (filter (\<lambda>k. k \<notin> set (dict_keys a)) (dict_keys d))"

definition both_keys :: "(string, 'a) dict \<Rightarrow> (string, 'b) dict \<Rightarrow> string list" where
  "both_keys d a = sort (filter (\<lambda>k. k \<in> set (dict_keys a)) (dict_keys d))"

definition at_key :: "(string, 'a) dict \<Rightarrow> string \<Rightarrow> 'a" where
  "at_key d k = the (dict_get d k)"

definition a_change :: "change_kind \<Rightarrow> change_type \<Rightarrow> string \<Rightarrow> string \<Rightarrow> string \<Rightarrow> string \<Rightarrow> string \<Rightarrow> string \<Rightarrow> string \<Rightarrow> change" where
  "a_change kind typ rs name ref href field draft active =
     \<lparr> ch_kind = kind, ch_change = typ, ch_ruleset = rs, ch_name = name, ch_ref = ref, ch_href = href, ch_field = field,
       ch_draft = draft, ch_active = active, ch_rule_type = '''', ch_rule_count = None, ch_scope_expanded = False,
       ch_risk = RISK_NONE \<rparr>"

definition obj_name :: "jobj \<Rightarrow> string" where
  "obj_name x = str_or_blank (jget x ''name'')"

definition obj_href :: "jobj \<Rightarrow> string" where
  "obj_href x = py_str (jget x ''href'')"

definition rule_label :: "jobj \<Rightarrow> string \<Rightarrow> string" where
  "rule_label rule key =
     (let d = str_or_blank (jget rule ''description'')
      in if d \<noteq> '''' then d else ''#'' @ last (split_on CHR ''/'' key))"

definition rule_changes :: "string \<Rightarrow> (string, string) dict \<Rightarrow> jobj \<Rightarrow> jobj \<Rightarrow> change list" where
  "rule_changes rs_name names d_rs a_rs =
     (let d = rules_by_key d_rs; a = rules_by_key a_rs in
      map (\<lambda>k. let (r, t) = at_key d k in
             (a_change CK_RULE CT_ADDED rs_name (rule_label r k) k (obj_href r) ''*'' t []) \<lparr> ch_rule_type := t \<rparr>)
        (only_keys d a) @
      map (\<lambda>k. let (r, t) = at_key a k in
             (a_change CK_RULE CT_REMOVED rs_name (rule_label r k) k (obj_href r) ''*'' [] t) \<lparr> ch_rule_type := t \<rparr>)
        (only_keys a d) @
      concat (map (\<lambda>k.
          let dv = rule_view names (at_key d k); av = rule_view names (at_key a k); (r, t) = at_key d k in
          map (\<lambda>f. (a_change CK_RULE CT_MODIFIED rs_name (rule_label r k) k (obj_href r) f (dv f) (av f)) \<lparr> ch_rule_type := t \<rparr>)
            (filter (\<lambda>f. dv f \<noteq> av f) RULE_FIELDS))
        (both_keys d a)))"

definition rule_set_changes :: "(string, string) dict \<Rightarrow> string \<Rightarrow> jobj \<Rightarrow> jobj \<Rightarrow> change list" where
  "rule_set_changes names rid d_rs a_rs =
     (let rs_name = (if truthy (jget d_rs ''name'') then py_str (jget d_rs ''name'') else obj_name a_rs);
          dv = rule_set_view d_rs; av = rule_set_view a_rs
      in map (\<lambda>f. a_change CK_RULE_SET CT_MODIFIED rs_name rs_name rid (obj_href d_rs) f (dv f) (av f))
           (filter (\<lambda>f. dv f \<noteq> av f) RULE_SET_FIELDS) @
         rule_changes rs_name names d_rs a_rs)"

definition diff_rule_sets :: "jobj list \<Rightarrow> jobj list \<Rightarrow> (string, string) dict \<Rightarrow> change list" where
  "diff_rule_sets draft active names =
     (let d = by_id draft; a = by_id active in
      map (\<lambda>rid. let rs = at_key d rid in
             (a_change CK_RULE_SET CT_ADDED (obj_name rs) (obj_name rs) rid (obj_href rs) ''*'' (obj_name rs) [])
             \<lparr> ch_rule_count := Some (length (rules_of rs)) \<rparr>) (only_keys d a) @
      map (\<lambda>rid. let rs = at_key a rid in
             (a_change CK_RULE_SET CT_REMOVED (obj_name rs) (obj_name rs) rid (obj_href rs) ''*'' [] (obj_name rs))
             \<lparr> ch_rule_count := Some (length (rules_of rs)) \<rparr>) (only_keys a d) @
      concat (map (\<lambda>rid. rule_set_changes names rid (at_key d rid) (at_key a rid)) (both_keys d a)))"

section \<open>Policy objects\<close>

definition range_token :: "jobj \<Rightarrow> string" where
  "range_token it =
     (let base = (case map_of it ''from_ip'' of None \<Rightarrow> [] | Some f \<Rightarrow> py_str f) @
           (if truthy (jget it ''to_ip'') then ''-'' @ py_str (jget it ''to_ip'') else [])
      in if truthy (jget it ''exclusion'') then ''!'' @ base else base)"

text \<open>\<open>str.replace(old, new)\<close>, every occurrence from the left, and the first only.\<close>

fun replace_from :: "nat \<Rightarrow> bool \<Rightarrow> string \<Rightarrow> string \<Rightarrow> string \<Rightarrow> string" where
  "replace_from skip once old new [] = []"
| "replace_from (Suc n) once old new (c # cs) = replace_from n once old new cs"
| "replace_from 0 once old new (c # cs) =
     (if take (length old) (c # cs) = old
      then (if once then new @ drop (length old) (c # cs) else new @ replace_from (length old - 1) once old new cs)
      else c # replace_from 0 once old new cs)"

definition draft_href :: "string \<Rightarrow> string" where
  "draft_href href = replace_from 0 True ''/sec_policy/active/'' ''/sec_policy/draft/'' href"

definition text_or_blank :: "jobj \<Rightarrow> string \<Rightarrow> string" where
  "text_or_blank it k = (case map_of it k of None \<Rightarrow> [] | Some v \<Rightarrow> py_str v)"

definition member_token :: "string \<Rightarrow> (string, string) dict \<Rightarrow> json \<Rightarrow> string" where
  "member_token field names j =
     (case j_obj j of
        None \<Rightarrow> py_str j
      | Some it \<Rightarrow>
          (if field = ''ip_ranges'' then range_token it
           else if field = ''fqdns'' then text_or_blank it ''fqdn''
           else if field = ''service_ports'' then port_token it
           else if field = ''windows_services'' then
             (if truthy (jget it ''service_name'') then py_str (jget it ''service_name'')
              else if truthy (jget it ''process_name'') then py_str (jget it ''process_name'') else items_text it)
           else if field = ''labels'' \<or> field = ''sub_groups'' then
             (let href = text_or_blank it ''href''
              in case dict_get names (replace_from 0 False ''/active/'' ''/draft/'' href) of
                   Some n \<Rightarrow> n | None \<Rightarrow> (case dict_get names href of Some n \<Rightarrow> n | None \<Rightarrow> href))
           else items_text it))"

definition object_field :: "string \<Rightarrow> jobj \<Rightarrow> (string, string) dict \<Rightarrow> string \<times> string list" where
  "object_field field obj names =
     (if field \<in> set EXPANSION \<or> field = ''windows_services'' then
        (let tokens = map (member_token field names) (j_list (jget obj field))
         in (py_join '', '' (sort tokens), tokens))
      else let text' = py_strip (str_or_blank (jget obj field)) in (text', [text']))"

definition widens :: "string \<Rightarrow> string list \<Rightarrow> string list \<Rightarrow> bool" where
  "widens field ds as' = (field \<in> set EXPANSION \<and> (\<exists>t \<in> set ds. t \<notin> set as'))"

definition object_changes :: "change_kind \<Rightarrow> string list \<Rightarrow> (string, string) dict \<Rightarrow> string \<Rightarrow> jobj \<Rightarrow> jobj \<Rightarrow> change list" where
  "object_changes kind cmp names oid d a =
     concat (map (\<lambda>f.
       let (dt, ds) = object_field f d names; (at', as') = object_field f a names in
       if dt \<noteq> at' then
         [(a_change kind CT_MODIFIED [] (obj_name d) oid (obj_href d) f dt at') \<lparr> ch_scope_expanded := widens f ds as' \<rparr>]
       else []) cmp)"

definition diff_objects :: "jobj list \<Rightarrow> jobj list \<Rightarrow> change_kind \<Rightarrow> string list \<Rightarrow> (string, string) dict \<Rightarrow> change list" where
  "diff_objects draft active kind cmp names =
     (let d = by_id draft; a = by_id active in
      map (\<lambda>oid. a_change kind CT_ADDED [] (obj_name (at_key d oid)) oid (obj_href (at_key d oid)) ''*''
              (obj_name (at_key d oid)) []) (only_keys d a) @
      map (\<lambda>oid. a_change kind CT_REMOVED [] (obj_name (at_key a oid)) oid (obj_href (at_key a oid)) ''*''
              [] (obj_name (at_key a oid))) (only_keys a d) @
      concat (map (\<lambda>oid. object_changes kind cmp names oid (at_key d oid) (at_key a oid)) (both_keys d a)))"

section \<open>Which objects allow rules use, and the risk of a change\<close>

definition is_enabled :: "jobj \<Rightarrow> bool" where
  "is_enabled x = (case map_of x ''enabled'' of None \<Rightarrow> True | Some e \<Rightarrow> truthy e)"

definition side_reference :: "json \<Rightarrow> (string \<times> json) option" where
  "side_reference j =
     (case j_obj j of
        None \<Rightarrow> None
      | Some it \<Rightarrow>
          (case (j_obj (jget it ''ip_list''), j_obj (jget it ''label_group'')) of
             (Some l, _) \<Rightarrow> Some (''ip_list'', jget l ''href'')
           | (None, Some g) \<Rightarrow> Some (''label_group'', jget g ''href'')
           | _ \<Rightarrow> None))"

definition service_reference :: "json \<Rightarrow> (string \<times> json) option" where
  "service_reference j =
     (case j_obj j of
        None \<Rightarrow> None
      | Some s \<Rightarrow> (if truthy (jget s ''href'') then Some (''service'', jget s ''href'') else None))"

definition rule_references :: "jobj \<Rightarrow> (string \<times> json) list" where
  "rule_references rule =
     List.map_filter side_reference (j_list (jget rule ''providers'') @ j_list (jget rule ''consumers'')) @
     List.map_filter service_reference (j_list (jget rule ''ingress_services''))"

definition rule_set_references :: "jobj \<Rightarrow> (string \<times> json) list" where
  "rule_set_references rs =
     (if \<not> is_enabled rs then []
      else concat (map (\<lambda>(rule, kind, key). rule_references rule)
        (filter (\<lambda>(rule, kind, key). kind = ''allow'' \<and> is_enabled rule) (rules_of rs))))"

definition bump :: "string \<times> json \<Rightarrow> (string, int) dict \<Rightarrow> (string, int) dict" where
  "bump r refs =
     (let oid = id_of (snd r); k = fst r @ '':'' @ oid in
      if oid = [] then refs
      else dict_set k ((case dict_get refs k of None \<Rightarrow> 0 | Some n \<Rightarrow> n) + 1) refs)"

definition object_refs :: "jobj list \<Rightarrow> (string, int) dict" where
  "object_refs active = fold bump (concat (map rule_set_references active)) []"

definition risk_of :: "(string, int) dict \<Rightarrow> change \<Rightarrow> risk" where
  "risk_of refs c =
     (if ch_kind c \<in> {CK_RULE_SET, CK_RULE} then
        (if ch_change c = CT_MODIFIED \<and> ch_field c = ''enabled'' \<and> ch_draft c = ''False'' \<and> ch_active c = ''True'' then RISK_HIGH
         else if ch_change c = CT_MODIFIED \<and> ch_field c = ''enabled'' \<and> ch_draft c = ''True'' \<and> ch_active c = ''False'' then RISK_MEDIUM
         else if ch_change c = CT_REMOVED then RISK_MEDIUM else RISK_NONE)
      else if ch_change c = CT_REMOVED then RISK_MEDIUM
      else if ch_change c = CT_MODIFIED \<and> ch_scope_expanded c \<and>
          0 < (case dict_get refs (change_kind_text (ch_kind c) @ '':'' @ ch_ref c) of None \<Rightarrow> 0 | Some n \<Rightarrow> n) then RISK_HIGH
      else RISK_NONE)"

definition grade :: "change list \<Rightarrow> (string, int) dict \<Rightarrow> change list" where
  "grade changes refs = map (\<lambda>c. c \<lparr> ch_risk := risk_of refs c \<rparr>) changes"

end
