(* ===== verification/PolicyDiffProofs.thy ===== *)
theory PolicyDiffProofs
  imports PolicyDiff PolicyProofs
begin

text \<open>
  The diff reports nothing exactly when the compared view of draft and active is the same, swapping draft
  and active swaps what it reports, and an object's change is graded high exactly when it adds a member to
  an object that an allow rule in force uses. The last section shows where that grade misses a widening:
  an IP list that loses an excluded range.
\<close>

section \<open>Dictionaries by id\<close>

lemma by_id_keys: "distinct (dict_keys (by_id items))"
  unfolding by_id_def by (rule alist.distinct_keys_fold)

lemma rules_by_key_keys: "distinct (dict_keys (rules_by_key rs))"
proof -
  have "rules_by_key rs = fold (\<lambda>x. dict_set (snd (snd x)) (fst x, fst (snd x))) (rules_of rs) []"
    unfolding rules_by_key_def by (intro fold_cong) auto
  then show ?thesis by (simp only: alist.distinct_keys_fold)
qed

lemma set_only_keys [simp]: "set (only_keys d a) = set (dict_keys d) - set (dict_keys a)"
  by (auto simp: only_keys_def)

lemma set_both_keys [simp]: "set (both_keys d a) = set (dict_keys d) \<inter> set (dict_keys a)"
  by (auto simp: both_keys_def)

lemma only_keys_Nil: "only_keys d a = [] \<longleftrightarrow> set (dict_keys d) \<subseteq> set (dict_keys a)"
  by (subst set_empty [symmetric]) auto

lemma at_key_eq: "k \<in> set (dict_keys d) \<Longrightarrow> dict_get d k = Some (at_key d k)"
  by (metis at_key_def dict_get_None_iff option.exhaust_sel)

section \<open>No change is reported exactly when the views are the same\<close>

definition rules_view :: "(string, string) dict \<Rightarrow> jobj \<Rightarrow> string \<Rightarrow> string list option" where
  "rules_view names rs k = map_option (\<lambda>rt. map (rule_view names rt) RULE_FIELDS) (dict_get (rules_by_key rs) k)"

definition policy_view :: "(string, string) dict \<Rightarrow> jobj list \<Rightarrow> string \<Rightarrow> (string list \<times> (string \<Rightarrow> string list option)) option" where
  "policy_view names items rid =
     map_option (\<lambda>rs. (map (rule_set_view rs) RULE_SET_FIELDS, rules_view names rs)) (dict_get (by_id items) rid)"

text \<open>Two dictionaries read through a view are the same when they have the same keys and the views agree there.\<close>

lemma views_eq_iff:
  "(\<forall>k. map_option v (dict_get d k) = map_option v (dict_get a k)) \<longleftrightarrow>
     set (dict_keys d) = set (dict_keys a) \<and> (\<forall>k \<in> set (dict_keys d). v (at_key d k) = v (at_key a k))"
proof
  assume eq: "\<forall>k. map_option v (dict_get d k) = map_option v (dict_get a k)"
  then have "dict_get d k = None \<longleftrightarrow> dict_get a k = None" for k by (metis option.map_disc_iff)
  then have keys: "set (dict_keys d) = set (dict_keys a)" unfolding dict_get_None_iff by blast
  moreover have "v (at_key d k) = v (at_key a k)" if "k \<in> set (dict_keys d)" for k
    using eq [rule_format, of k] at_key_eq [OF that] at_key_eq [of k a] that keys by simp
  ultimately show "set (dict_keys d) = set (dict_keys a) \<and> (\<forall>k \<in> set (dict_keys d). v (at_key d k) = v (at_key a k))" by blast
next
  assume r: "set (dict_keys d) = set (dict_keys a) \<and> (\<forall>k \<in> set (dict_keys d). v (at_key d k) = v (at_key a k))"
  show "\<forall>k. map_option v (dict_get d k) = map_option v (dict_get a k)"
  proof
    fix k
    show "map_option v (dict_get d k) = map_option v (dict_get a k)"
    proof (cases "k \<in> set (dict_keys d)")
      case True
      have "v (at_key d k) = v (at_key a k)" "k \<in> set (dict_keys a)" using r True by blast+
      then show ?thesis using at_key_eq [OF True] at_key_eq [of k a] by simp
    next
      case False
      with r have "dict_get d k = None" "dict_get a k = None" unfolding dict_get_None_iff by simp_all
      then show ?thesis by simp
    qed
  qed
qed

lemma changes_Nil:
  "map f (only_keys d a) @ map g (only_keys a d) @ concat (map h (both_keys d a)) = [] \<longleftrightarrow>
     set (dict_keys d) = set (dict_keys a) \<and> (\<forall>k \<in> set (dict_keys d). h k = [])"
proof -
  have "concat (map h (both_keys d a)) = [] \<longleftrightarrow> (\<forall>k \<in> set (both_keys d a). h k = [])"
    by (simp del: set_both_keys)
  then show ?thesis
    unfolding append_is_Nil_conv map_is_Nil_conv only_keys_Nil set_both_keys by blast
qed

lemma differing_Nil: "map g (filter (\<lambda>f. u f \<noteq> v f) fs) = [] \<longleftrightarrow> map u fs = map v fs"
  by (auto simp: filter_empty_conv)

lemma rule_changes_Nil: "rule_changes n names d a = [] \<longleftrightarrow> rules_view names d = rules_view names a"
proof -
  have "rule_changes n names d a = [] \<longleftrightarrow>
      set (dict_keys (rules_by_key d)) = set (dict_keys (rules_by_key a)) \<and>
      (\<forall>k \<in> set (dict_keys (rules_by_key d)). map (rule_view names (at_key (rules_by_key d) k)) RULE_FIELDS =
          map (rule_view names (at_key (rules_by_key a) k)) RULE_FIELDS)"
    unfolding rule_changes_def Let_def changes_Nil case_prod_beta differing_Nil by (rule refl)
  also have "\<dots> \<longleftrightarrow> (\<forall>k. rules_view names d k = rules_view names a k)"
    unfolding rules_view_def by (rule views_eq_iff [symmetric])
  finally show ?thesis by (simp add: fun_eq_iff)
qed

lemma rule_set_changes_Nil:
  "rule_set_changes names rid d a = [] \<longleftrightarrow>
     map (rule_set_view d) RULE_SET_FIELDS = map (rule_set_view a) RULE_SET_FIELDS \<and> rules_view names d = rules_view names a"
  unfolding rule_set_changes_def Let_def append_is_Nil_conv rule_changes_Nil differing_Nil by (rule refl)

text \<open>C31. The diff of two policies is empty exactly when they hold the same rule sets (by id), each with the same
  compared fields and the same rules (by collection and id) with the same compared fields: no change of
  these is ever missed and none is reported without one.\<close>

theorem diff_empty_iff:
  "diff_rule_sets draft active names = [] \<longleftrightarrow> policy_view names draft = policy_view names active"
proof -
  have "diff_rule_sets draft active names = [] \<longleftrightarrow>
      set (dict_keys (by_id draft)) = set (dict_keys (by_id active)) \<and>
      (\<forall>k \<in> set (dict_keys (by_id draft)).
        (\<lambda>rs. (map (rule_set_view rs) RULE_SET_FIELDS, rules_view names rs)) (at_key (by_id draft) k) =
        (\<lambda>rs. (map (rule_set_view rs) RULE_SET_FIELDS, rules_view names rs)) (at_key (by_id active) k))"
    unfolding diff_rule_sets_def Let_def changes_Nil rule_set_changes_Nil prod.inject by (rule refl)
  also have "\<dots> \<longleftrightarrow> (\<forall>k. policy_view names draft k = policy_view names active k)"
    unfolding policy_view_def by (rule views_eq_iff [symmetric])
  finally show ?thesis by (simp add: fun_eq_iff)
qed

section \<open>Draft and active swapped\<close>

fun opposite :: "change_type \<Rightarrow> change_type" where
  "opposite CT_ADDED = CT_REMOVED"
| "opposite CT_REMOVED = CT_ADDED"
| "opposite CT_MODIFIED = CT_MODIFIED"

text \<open>What a change says, and the same said from the other side.\<close>

definition says :: "change \<Rightarrow> change_kind \<times> change_type \<times> string \<times> string \<times> string \<times> string" where
  "says c = (ch_kind c, ch_change c, ch_ref c, ch_field c, ch_draft c, ch_active c)"

definition mirrored :: "change_kind \<times> change_type \<times> string \<times> string \<times> string \<times> string \<Rightarrow>
    change_kind \<times> change_type \<times> string \<times> string \<times> string \<times> string" where
  "mirrored s = (case s of (kind, typ, ref, field, d, a) \<Rightarrow> (kind, opposite typ, ref, field, a, d))"

lemma says_a_change [simp]:
  "says (a_change kind typ rs name ref href field d a) = (kind, typ, ref, field, d, a)"
  "says (c \<lparr> ch_rule_type := t \<rparr>) = says c"
  "says (c \<lparr> ch_rule_count := n \<rparr>) = says c"
  "says (c \<lparr> ch_scope_expanded := b \<rparr>) = says c"
  by (simp_all add: says_def a_change_def)

lemma mirrored_simp [simp]: "mirrored (kind, typ, ref, field, d, a) = (kind, opposite typ, ref, field, a, d)"
  by (simp add: mirrored_def)

lemma says_rule_changes:
  "says ` set (rule_changes n names d a) =
     (\<lambda>k. (CK_RULE, CT_ADDED, k, ''*'', snd (at_key (rules_by_key d) k), [])) ` (set (dict_keys (rules_by_key d)) - set (dict_keys (rules_by_key a))) \<union>
     (\<lambda>k. (CK_RULE, CT_REMOVED, k, ''*'', [], snd (at_key (rules_by_key a) k))) ` (set (dict_keys (rules_by_key a)) - set (dict_keys (rules_by_key d))) \<union>
     (\<Union>k \<in> set (dict_keys (rules_by_key d)) \<inter> set (dict_keys (rules_by_key a)).
        (\<lambda>f. (CK_RULE, CT_MODIFIED, k, f, rule_view names (at_key (rules_by_key d) k) f, rule_view names (at_key (rules_by_key a) k) f)) `
          {f \<in> set RULE_FIELDS. rule_view names (at_key (rules_by_key d) k) f \<noteq> rule_view names (at_key (rules_by_key a) k) f})"
  unfolding rule_changes_def Let_def set_append set_map set_concat image_Un image_UN image_image set_only_keys set_both_keys set_filter
  by (simp add: case_prod_beta image_image Un_assoc)

lemma mirror_rule_changes: "mirrored ` says ` set (rule_changes n names d a) = says ` set (rule_changes m names a d)"
  unfolding says_rule_changes image_Un image_UN image_image mirrored_simp opposite.simps
  by (auto simp: image_iff)

lemma mirror_field_changes:
  "mirrored ` says ` set (map (\<lambda>f. a_change k CT_MODIFIED n n rid h f (dv f) (av f)) (filter (\<lambda>f. dv f \<noteq> av f) fs)) =
     says ` set (map (\<lambda>f. a_change k CT_MODIFIED n' n' rid h' f (av f) (dv f)) (filter (\<lambda>f. av f \<noteq> dv f) fs))"
  by (auto simp: image_iff)

lemma mirror_rule_set_changes:
  "mirrored ` says ` set (rule_set_changes names rid d a) = says ` set (rule_set_changes names rid a d)"
  unfolding rule_set_changes_def Let_def set_append image_Un
  by (rule arg_cong2 [where f = "(\<union>)", OF mirror_field_changes mirror_rule_changes])

text \<open>C32. Read the other way round (active as draft), the diff of rule sets says the mirror image of every change:
  what was added is removed, and a modified field has its two values exchanged.\<close>

theorem diff_mirror:
  "says ` set (diff_rule_sets active draft names) = mirrored ` says ` set (diff_rule_sets draft active names)"
proof -
  have mods: "mirrored ` says ` set (concat (map (\<lambda>rid. rule_set_changes names rid (at_key d rid) (at_key a rid)) (both_keys d a))) =
      says ` set (concat (map (\<lambda>rid. rule_set_changes names rid (at_key a rid) (at_key d rid)) (both_keys a d)))" for d a
    by (simp add: image_UN mirror_rule_set_changes Int_commute)
  show ?thesis
    unfolding diff_rule_sets_def Let_def set_append image_Un mods
    by (simp add: image_image Un_ac)
qed

section \<open>References in force\<close>

lemma before_colon:
  assumes "k @ CHR '':'' # i = k' @ CHR '':'' # i'" "CHR '':'' \<notin> set k" "CHR '':'' \<notin> set k'"
  shows "k = k' \<and> i = i'"
  using assms
proof (induction k arbitrary: k')
  case Nil
  then show ?case by (cases k') auto
next
  case (Cons c k)
  then show ?case by (cases k') auto
qed

definition ref_count :: "(string, int) dict \<Rightarrow> string \<Rightarrow> int" where
  "ref_count refs k = (case dict_get refs k of None \<Rightarrow> 0 | Some n \<Rightarrow> n)"

definition ref_kind_ok :: "(string \<times> json) \<Rightarrow> bool" where
  "ref_kind_ok r \<longleftrightarrow> CHR '':'' \<notin> set (fst r)"

lemma ref_count_bump:
  assumes "ref_kind_ok r" "CHR '':'' \<notin> set kind" "oid \<noteq> []"
  shows "ref_count (bump r refs) (kind @ '':'' @ oid) =
    ref_count refs (kind @ '':'' @ oid) + (if fst r = kind \<and> id_of (snd r) = oid then 1 else 0)"
proof (cases "id_of (snd r) = []")
  case True
  with assms(3) show ?thesis by (auto simp: bump_def Let_def)
next
  case False
  have "kind @ '':'' @ oid = fst r @ '':'' @ id_of (snd r) \<longleftrightarrow> fst r = kind \<and> id_of (snd r) = oid"
    using before_colon [of kind oid "fst r" "id_of (snd r)"] assms by (auto simp: ref_kind_ok_def)
  with False show ?thesis by (auto simp: bump_def Let_def ref_count_def dict_simps)
qed

lemma ref_count_fold:
  assumes "\<forall>r \<in> set rs. ref_kind_ok r" "CHR '':'' \<notin> set kind" "oid \<noteq> []"
  shows "ref_count (fold bump rs refs) (kind @ '':'' @ oid) =
    ref_count refs (kind @ '':'' @ oid) + int (length (filter (\<lambda>r. fst r = kind \<and> id_of (snd r) = oid) rs))"
  using assms(1)
proof (induction rs arbitrary: refs)
  case Nil
  then show ?case by simp
next
  case (Cons r rs)
  have r: "ref_kind_ok r" and rs: "\<forall>r \<in> set rs. ref_kind_ok r" using Cons.prems by auto
  show ?case
    using Cons.IH [OF rs, of "bump r refs"] ref_count_bump [OF r assms(2,3), of refs] by simp
qed

lemma ref_count_blank:
  assumes "\<forall>r \<in> set rs. ref_kind_ok r" "CHR '':'' \<notin> set kind" "ref_count refs (kind @ '':'') = 0"
  shows "ref_count (fold bump rs refs) (kind @ '':'') = 0"
  using assms(1,3)
proof (induction rs arbitrary: refs)
  case Nil
  then show ?case by simp
next
  case (Cons r rs)
  have "ref_count (bump r refs) (kind @ '':'') = 0"
  proof (cases "id_of (snd r) = []")
    case True
    with Cons.prems(2) show ?thesis by (simp add: bump_def Let_def)
  next
    case False
    then have "kind @ '':'' \<noteq> fst r @ '':'' @ id_of (snd r)"
      using before_colon [of kind "[]" "fst r" "id_of (snd r)"] Cons.prems(1) assms(2) by (auto simp: ref_kind_ok_def)
    with False Cons.prems(2) show ?thesis by (auto simp: bump_def Let_def ref_count_def dict_simps)
  qed
  with Cons show ?case by simp
qed

lemma in_map_filter: "y \<in> set (List.map_filter f xs) \<longleftrightarrow> (\<exists>x \<in> set xs. f x = Some y)"
  by (induction xs) (auto simp: map_filter_simps split: option.splits)

lemma reference_kinds:
  "side_reference j = Some r \<Longrightarrow> ref_kind_ok r"
  "service_reference j = Some r \<Longrightarrow> ref_kind_ok r"
  unfolding side_reference_def service_reference_def ref_kind_ok_def
  by (cases "j_obj j"; auto split: option.split_asm if_split_asm)+

lemma references_ok: "r \<in> set (rule_references rule) \<Longrightarrow> ref_kind_ok r"
  by (auto simp: rule_references_def in_map_filter dest: reference_kinds)

lemma rule_set_references_iff:
  "r \<in> set (rule_set_references rs) \<longleftrightarrow>
     is_enabled rs \<and> (\<exists>rule key. (rule, ''allow'', key) \<in> set (rules_of rs) \<and> is_enabled rule \<and> r \<in> set (rule_references rule))"
  by (auto simp: rule_set_references_def)

lemma kind_no_colon: "CHR '':'' \<notin> set (change_kind_text k)"
  by (cases k) auto

lemma object_refs_positive:
  "0 < ref_count (object_refs active) (change_kind_text kind @ '':'' @ oid) \<longleftrightarrow>
     oid \<noteq> [] \<and> (\<exists>rs \<in> set active. \<exists>r \<in> set (rule_set_references rs). fst r = change_kind_text kind \<and> id_of (snd r) = oid)"
proof -
  let ?rs = "concat (map rule_set_references active)"
  have ok: "\<forall>r \<in> set ?rs. ref_kind_ok r" using references_ok by (auto simp: rule_set_references_iff)
  show ?thesis
  proof (cases "oid = []")
    case True
    then show ?thesis
      using ref_count_blank [OF ok kind_no_colon, of "[]" kind] by (simp add: object_refs_def ref_count_def)
  next
    case False
    have "0 < ref_count (object_refs active) (change_kind_text kind @ '':'' @ oid) \<longleftrightarrow>
        filter (\<lambda>r. fst r = change_kind_text kind \<and> id_of (snd r) = oid) ?rs \<noteq> []"
      using ref_count_fold [OF ok kind_no_colon False, of "[]" kind] by (simp add: object_refs_def ref_count_def)
    with False show ?thesis by (simp only: filter_empty_conv) auto
  qed
qed

lemma diff_objects_kind:
  "c \<in> set (diff_objects draft active kind cmp names) \<Longrightarrow> ch_kind c = kind \<and> (ch_scope_expanded c \<longrightarrow> ch_change c = CT_MODIFIED)"
  by (auto simp: diff_objects_def object_changes_def a_change_def Let_def split: if_splits)


section \<open>The properties at concrete inputs\<close>

definition example_list :: "json list \<Rightarrow> jobj" where
  "example_list ranges = [(''href'', JStr ''/ip_lists/7''), (''name'', JStr ''corp''), (''ip_ranges'', JList ranges)]"

definition example_corp :: json where
  "example_corp = JObj [(''from_ip'', JStr ''10.0.0.0/8'')]"

definition example_gap :: json where
  "example_gap = JObj [(''from_ip'', JStr ''10.9.0.0/16''), (''exclusion'', JBool True)]"

definition example_user :: jobj where
  "example_user =
     [(''href'', JStr ''/rule_sets/1''), (''rules'', JList [JObj [(''href'', JStr ''/rule_sets/1/sec_rules/2''),
        (''consumers'', JList [JObj [(''ip_list'', JObj [(''href'', JStr ''/ip_lists/7'')])]])]])]"


section \<open>A widening the grade misses\<close>

text \<open>Lifting an exclusion from an IP list adds addresses to it, yet the change is not marked as widening and
  gets no risk even when an allow rule in force uses the list; adding an exclusion, which only takes
  addresses away, is marked and graded high.\<close>

lemma lifted_exclusion_ungraded:
  "list_addrs (example_list [example_corp, example_gap]) \<subset> list_addrs (example_list [example_corp]) \<and>
   map ch_risk (grade (diff_objects [example_list [example_corp]] [example_list [example_corp, example_gap]]
     CK_IP_LIST [''ip_ranges''] []) (object_refs [example_user])) = [RISK_NONE] \<and>
   map ch_risk (grade (diff_objects [example_list [example_corp, example_gap]] [example_list [example_corp]]
     CK_IP_LIST [''ip_ranges''] []) (object_refs [example_user])) = [RISK_HIGH]"
proof (intro conjI)
  have "Addr V4 168361985 \<in> list_addrs (example_list [example_corp])"
       "Addr V4 168361985 \<notin> list_addrs (example_list [example_corp, example_gap])"
  proof -
    have wf: "wf_addr (Addr V4 168361985)" by code_simp
    have "list_holds (Addr V4 168361985) (example_list [example_corp])"
         "\<not> list_holds (Addr V4 168361985) (example_list [example_corp, example_gap])" by code_simp+
    moreover have "truthy (jget (example_list rs) ''href'')" for rs by (simp add: example_list_def)
    ultimately show "Addr V4 168361985 \<in> list_addrs (example_list [example_corp])"
       "Addr V4 168361985 \<notin> list_addrs (example_list [example_corp, example_gap])"
      by (simp_all add: list_holds_iff [OF wf])
  qed
  moreover have "list_addrs (example_list [example_corp, example_gap]) \<subseteq> list_addrs (example_list [example_corp])"
    by (auto simp: list_addrs_def list_ranges_def example_list_def example_corp_def example_gap_def)
  ultimately show "list_addrs (example_list [example_corp, example_gap]) \<subset> list_addrs (example_list [example_corp])" by blast
  show "map ch_risk (grade (diff_objects [example_list [example_corp]] [example_list [example_corp, example_gap]]
     CK_IP_LIST [''ip_ranges''] []) (object_refs [example_user])) = [RISK_NONE]" by code_simp
  show "map ch_risk (grade (diff_objects [example_list [example_corp, example_gap]] [example_list [example_corp]]
     CK_IP_LIST [''ip_ranges''] []) (object_refs [example_user])) = [RISK_HIGH]" by code_simp
qed

end
