(* ===== verification/Tamper.thy ===== *)
theory Tamper
  imports Flows Complex_Main
begin

text \<open>
  \<open>domain/tamper.py\<close>: what a tamper event says, how a host's events are spaced, what happened around the
  first one, and which annotation explains a reading. Gaps, medians and quartiles are exact fractions of
  minutes (the code computes them as floating-point numbers). Fields the code passes on unread stay JSON.
\<close>

section \<open>Reading an event\<close>

definition KERNEL_ACTIONS :: "(string, tamper_action) dict" where
  "KERNEL_ACTIONS =
     [(''nf_tables_newrule'', TA_ADD_RULE), (''nf_tables_delrule'', TA_DELETE_RULE),
      (''nf_tables_newchain'', TA_ADD_CHAIN), (''nf_tables_delchain'', TA_DELETE_CHAIN),
      (''nf_tables_newtable'', TA_ADD_TABLE), (''nf_tables_deltable'', TA_DELETE_TABLE)]"

definition IGNORED_KERNEL :: "string list" where
  "IGNORED_KERNEL = [''nfnetlink_rcv_batch'']"

fun TAMPER_ACTION_KEYS :: "tamper_action \<Rightarrow> string" where
  "TAMPER_ACTION_KEYS TA_ADD_RULE = ''tamper_action_add_rule''"
| "TAMPER_ACTION_KEYS TA_DELETE_RULE = ''tamper_action_delete_rule''"
| "TAMPER_ACTION_KEYS TA_ADD_CHAIN = ''tamper_action_add_chain''"
| "TAMPER_ACTION_KEYS TA_DELETE_CHAIN = ''tamper_action_delete_chain''"
| "TAMPER_ACTION_KEYS TA_ADD_TABLE = ''tamper_action_add_table''"
| "TAMPER_ACTION_KEYS TA_DELETE_TABLE = ''tamper_action_delete_table''"

fun TAMPER_PATTERN_KEYS :: "tamper_pattern \<Rightarrow> string" where
  "TAMPER_PATTERN_KEYS TP_REGULAR_CYCLE = ''tamper_pattern_regular_cycle''"
| "TAMPER_PATTERN_KEYS TP_BURST = ''tamper_pattern_burst''"
| "TAMPER_PATTERN_KEYS TP_SPORADIC = ''tamper_pattern_sporadic''"
| "TAMPER_PATTERN_KEYS TP_TOO_FEW = ''tamper_pattern_too_few''"

datatype kernel_action = Known tamper_action | Unknown string

record tamper_reading =
  tr_at :: time
  tr_classification :: json
  tr_process :: json
  tr_pid :: json
  tr_actions :: "kernel_action list"
  tr_tamper_type :: json
  tr_num_events :: json
  tr_revert_succeeded :: json
  tr_has_process_info :: bool

text \<open>What \<open>for x in value or ()\<close> runs over; a string gives its characters, an object its keys.\<close>

fun j_iter :: "json \<Rightarrow> json list" where
  "j_iter (JList xs) = xs"
| "j_iter (JStr s) = map (\<lambda>c. JStr [c]) s"
| "j_iter (JObj ps) = map (\<lambda>p. JStr (fst p)) ps"
| "j_iter _ = []"

definition kernel_names :: "json \<Rightarrow> string list" where
  "kernel_names entry = filter (\<lambda>n. n \<noteq> [] \<and> n \<notin> set IGNORED_KERNEL) (map py_strip (split_on CHR '','' (py_str entry)))"

definition kernel_action_of :: "string \<Rightarrow> kernel_action" where
  "kernel_action_of name = (case dict_get KERNEL_ACTIONS name of Some a \<Rightarrow> Known a | None \<Rightarrow> Unknown name)"

definition actions_of :: "json \<Rightarrow> kernel_action list" where
  "actions_of kernel_functions = map kernel_action_of (concat (map kernel_names (j_iter kernel_functions)))"

definition signal_reading :: "json \<Rightarrow> time \<Rightarrow> jobj \<Rightarrow> tamper_reading" where
  "signal_reading classification seen e =
     \<lparr> tr_at = seen, tr_classification = classification, tr_process = jget e ''process_name'', tr_pid = jget e ''process_id'',
       tr_actions = actions_of (jget e ''kernel_functions''), tr_tamper_type = jget e ''tamper_type'', tr_num_events = JNull,
       tr_revert_succeeded = JNull, tr_has_process_info = truthy (jget e ''process_name'') \<rparr>"

fun signal_readings :: "json \<Rightarrow> time \<Rightarrow> jobj list \<Rightarrow> flow_shape_error + tamper_reading list" where
  "signal_readings classification seen [] = Inr []"
| "signal_readings classification seen (e # es) =
     (case (if truthy (jget e ''timestamp'') then parse_time (jget e ''timestamp'') else Inr seen) of
        Inl err \<Rightarrow> Inl err
      | Inr t \<Rightarrow> map_sum id (\<lambda>rs. signal_reading classification t e # rs) (signal_readings classification seen es))"

definition notification_info :: "jobj \<Rightarrow> jobj" where
  "notification_info raw =
     (case j_list (jget raw ''notifications'') of
        JObj n # _ \<Rightarrow> j_dict (jget n ''info'') | _ \<Rightarrow> [])"

definition interpret_event :: "jobj \<Rightarrow> flow_shape_error + tamper_reading list" where
  "interpret_event raw =
     (case parse_time (jget raw ''timestamp'') of
        Inl err \<Rightarrow> Inl err
      | Inr seen \<Rightarrow>
          (let info = notification_info raw;
               classification = jget info ''event_classification'';
               events = List.map_filter j_obj (j_list (jget info ''events''))
           in if events \<noteq> [] then signal_readings classification seen events
              else Inr [\<lparr> tr_at = seen, tr_classification = classification, tr_process = JNull, tr_pid = JNull,
                          tr_actions = [], tr_tamper_type = JNull, tr_num_events = jget info ''num_events'',
                          tr_revert_succeeded = jget info ''tampering_revert_succeeded'', tr_has_process_info = False \<rparr>]))"

section \<open>The pattern of a host's events\<close>

record pattern_result =
  pr_kind :: tamper_pattern
  pr_n :: nat
  pr_median :: "rat option"
  pr_q1 :: "rat option"
  pr_q3 :: "rat option"

definition REGULAR_MIN_EVENTS :: nat where "REGULAR_MIN_EVENTS = 6"
definition REGULAR_SPREAD :: rat where "REGULAR_SPREAD = 1 / 4"
definition BURST_MEDIAN_MINUTES :: rat where "BURST_MEDIAN_MINUTES = 2"

fun gaps_of :: "time list \<Rightarrow> rat list" where
  "gaps_of (a # b # ts) = of_int (b - a) / of_int MINUTE # gaps_of (b # ts)"
| "gaps_of _ = []"

text \<open>\<open>statistics.median\<close> and \<open>statistics.quantiles\<close> with n = 4 (the exclusive method) on sorted data.\<close>

definition median_of :: "rat list \<Rightarrow> rat" where
  "median_of data =
     (let n = length data; s = sort data in
      if odd n then s ! (n div 2) else (s ! (n div 2 - 1) + s ! (n div 2)) / 2)"

definition quartile :: "rat list \<Rightarrow> nat \<Rightarrow> rat" where
  "quartile data i =
     (let s = sort data; n = length s; m = n + 1;
          j = max 1 (min (n - 1) (i * m div 4));
          delta = of_nat (i * m) - 4 * of_nat j
      in (s ! (j - 1) * (4 - delta) + s ! j * delta) / 4)"

definition classify :: "time list \<Rightarrow> pattern_result" where
  "classify times' =
     (let ordered = sort times'; gaps = gaps_of ordered; n = length ordered in
      if n < 3 then
        \<lparr> pr_kind = TP_TOO_FEW, pr_n = n, pr_median = (if gaps = [] then None else Some (median_of gaps)),
          pr_q1 = None, pr_q3 = None \<rparr>
      else
        (let med = median_of gaps;
             (q1, q3) = (if 2 \<le> length gaps then (quartile gaps 1, quartile gaps 3) else (med, med));
             kind = (if REGULAR_MIN_EVENTS \<le> n \<and> q3 - q1 \<le> REGULAR_SPREAD * med then TP_REGULAR_CYCLE
                     else if med \<le> BURST_MEDIAN_MINUTES then TP_BURST else TP_SPORADIC)
         in \<lparr> pr_kind = kind, pr_n = n, pr_median = Some med, pr_q1 = Some q1, pr_q3 = Some q3 \<rparr>))"

section \<open>Around the first event, and what to run\<close>

definition HOST_TIMELINE_TYPES :: "string list" where
  "HOST_TIMELINE_TYPES =
     [''workload.update'', ''workloads.update'', ''agent.request_policy'', ''agent.upload_existing_ip_table_rules'',
      ''agent.goodbye'', ''agent.suspend'', ''agent.unsuspend'', ''workload.online'', ''system_task.agent_offline_check'',
      ''agent.update'']"

definition ORG_TIMELINE_TYPES :: "string list" where
  "ORG_TIMELINE_TYPES = [''sec_policy.create'', ''firewall_settings.update'']"

definition TIMELINE_EVENT_TYPES :: "string list" where
  "TIMELINE_EVENT_TYPES = HOST_TIMELINE_TYPES @ ORG_TIMELINE_TYPES"

record timeline_event =
  te_at :: time
  te_event_type :: string
  te_summary :: string

definition timeline :: "timeline_event list \<Rightarrow> time \<Rightarrow> time \<Rightarrow> time \<Rightarrow> timeline_event list" where
  "timeline events first_at before after =
     sort_key te_at (filter (\<lambda>e. te_event_type e \<in> set TIMELINE_EVENT_TYPES \<and>
        first_at - before \<le> te_at e \<and> te_at e \<le> first_at + after) events)"

datatype command_platform = LINUX_NFTABLES | LINUX_IPTABLES_LEGACY | WINDOWS

record command =
  cm_platform :: command_platform
  cm_purpose_key :: string
  cm_text :: string

definition GUIDANCE_KEYS :: "(string, string) dict" where
  "GUIDANCE_KEYS =
     [(''nft_ruleset'', ''tamper_cmd_nft_ruleset''), (''nft_monitor'', ''tamper_cmd_nft_monitor''),
      (''nft_writer'', ''tamper_cmd_nft_writer''), (''ven_evidence'', ''tamper_cmd_ven_evidence''),
      (''audit_rule'', ''tamper_cmd_audit_rule''), (''audit_search'', ''tamper_cmd_audit_search''),
      (''win_platform_log'', ''tamper_cmd_win_platform_log'')]"

definition guidance_command :: "command_platform \<Rightarrow> string \<Rightarrow> string \<Rightarrow> command" where
  "guidance_command platform key text' =
     \<lparr> cm_platform = platform, cm_purpose_key = or_empty (dict_get GUIDANCE_KEYS key), cm_text = text' \<rparr>"

text \<open>A single quote, a double quote and a backslash followed by n.\<close>

definition SQ :: string where "SQ = [CHR 39]"
definition DQ :: string where "DQ = [CHR 34]"
definition BN :: string where "BN = [CHR 92, CHR ''n'']"

definition LINUX_COMMANDS :: "command list" where
  "LINUX_COMMANDS =
     [guidance_command LINUX_NFTABLES ''nft_ruleset'' ''nft -s list ruleset'',
      guidance_command LINUX_NFTABLES ''nft_monitor''
        (''nft monitor ruleset | while read -r l; do printf '' @ SQ @ ''%s %s'' @ BN @ SQ @ '' '' @ DQ @ ''$(date -Is)'' @ DQ @
         '' '' @ DQ @ ''$l'' @ DQ @ ''; done''),
      guidance_command LINUX_NFTABLES ''nft_writer''
        (''bpftrace -e '' @ SQ @ ''kprobe:nf_tables_newrule { printf('' @ DQ @ ''%s pid=%d comm=%s'' @ BN @ DQ @ '', strftime('' @
         DQ @ ''%H:%M:%S'' @ DQ @ '', nsecs), pid, comm); }'' @ SQ),
      guidance_command LINUX_NFTABLES ''ven_evidence'' ''ls -l /opt/illumio_ven_data/etc/firewall/workload/*/tampered/'',
      guidance_command LINUX_IPTABLES_LEGACY ''audit_rule''
        ''auditctl -a always,exit -F arch=b64 -S setsockopt -F a2=64 -k ilo_tamper'',
      guidance_command LINUX_IPTABLES_LEGACY ''audit_search'' ''ausearch -k ilo_tamper -i'']"

definition WINDOWS_COMMANDS :: "command list" where
  "WINDOWS_COMMANDS =
     [guidance_command WINDOWS ''win_platform_log''
        (''Get-ChildItem -Path C:'' @ [CHR 92] @ ''ProgramData'' @ [CHR 92] @
         ''Illumio -Recurse -Filter platform.log | Select-Object FullName, LastWriteTime'')]"

definition guidance :: "string option \<Rightarrow> command list" where
  "guidance os_id = (if startswith (py_lower (or_empty os_id)) ''win'' then WINDOWS_COMMANDS else LINUX_COMMANDS)"

section \<open>Known causes\<close>

record annotation =
  an_id :: int
  an_host_href :: "string option"
  an_pattern :: "tamper_pattern option"
  an_process :: "string option"
  an_reason :: string

definition annotation_fits :: "tamper_reading \<Rightarrow> string \<Rightarrow> tamper_pattern \<Rightarrow> annotation \<Rightarrow> bool" where
  "annotation_fits reading host_href pattern a \<longleftrightarrow>
     (case an_host_href a of None \<Rightarrow> True | Some h \<Rightarrow> h = host_href) \<and>
     (case an_pattern a of None \<Rightarrow> True | Some p \<Rightarrow> p = pattern) \<and>
     (case an_process a of None \<Rightarrow> True | Some p \<Rightarrow> tr_process reading = JStr p)"

fun explained_by :: "tamper_reading \<Rightarrow> string \<Rightarrow> tamper_pattern \<Rightarrow> annotation list \<Rightarrow> int option" where
  "explained_by reading host_href pattern [] = None"
| "explained_by reading host_href pattern (a # as') =
     (if annotation_fits reading host_href pattern a then Some (an_id a) else explained_by reading host_href pattern as')"

section \<open>Median and quartiles\<close>

lemma quartile_between:
  assumes "2 < length data" "i \<in> {1, 3}"
  defines "j \<equiv> max 1 (min (length data - 1) (i * (length data + 1) div 4))"
  shows "sort data ! (j - 1) \<le> quartile data i \<and> quartile data i \<le> sort data ! j"
proof -
  define s where "s = sort data"
  define d where "d = (of_nat (i * (length data + 1)) - 4 * of_nat j :: rat)"
  have j: "1 \<le> j" "j < length data" and b: "4 * j \<le> i * (length data + 1)" "i * (length data + 1) \<le> 4 * j + 4"
    using assms by (auto simp: j_def max_def min_def)
  have "(of_nat (4 * j) :: rat) \<le> of_nat (i * (length data + 1))" "(of_nat (i * (length data + 1)) :: rat) \<le> of_nat (4 * j + 4)"
    using b by (simp_all only: of_nat_le_iff)
  then have d: "0 \<le> d" "d \<le> 4" by (simp_all add: d_def)
  have le: "s ! (j - 1) \<le> s ! j" using j by (auto simp: s_def intro!: sorted_nth_mono)
  have q: "quartile data i = (s ! (j - 1) * (4 - d) + s ! j * d) / 4"
    by (simp only: quartile_def Let_def s_def d_def j_def length_sort)
  have "s ! (j - 1) * (4 - d) + s ! (j - 1) * d \<le> s ! (j - 1) * (4 - d) + s ! j * d"
    using le d by (intro add_left_mono mult_right_mono) auto
  moreover have "s ! (j - 1) * (4 - d) + s ! j * d \<le> s ! j * (4 - d) + s ! j * d"
    using le d by (intro add_right_mono mult_right_mono) auto
  ultimately show ?thesis unfolding q s_def [symmetric] by (simp add: algebra_simps)
qed

lemma median_between:
  assumes "data \<noteq> []"
  shows "sort data ! ((length data - 1) div 2) \<le> median_of data \<and> median_of data \<le> sort data ! (length data div 2)"
proof -
  have le: "sort data ! ((length data - 1) div 2) \<le> sort data ! (length data div 2)"
    using assms by (intro sorted_nth_mono) (auto intro: div_le_mono)
  show ?thesis
  proof (cases "odd (length data)")
    case True
    then have "(length data - 1) div 2 = length data div 2" by (auto elim: oddE)
    with True show ?thesis by (simp add: median_of_def Let_def)
  next
    case False
    then have "(length data - 1) div 2 = length data div 2 - 1" using assms by (auto elim!: evenE)
    with False le show ?thesis by (simp add: median_of_def Let_def)
  qed
qed

lemma quartile_indices:
  fixes n :: nat
  assumes "2 < n"
  shows "(n + 1) div 4 \<le> (n - 1) div 2" "1 \<le> (n - 1) div 2" "n div 2 + 1 \<le> n - 1" "n div 2 + 1 \<le> 3 * (n + 1) div 4"
  using assms by presburger+

lemma quartiles_around_median:
  assumes "2 < length data"
  shows "quartile data 1 \<le> median_of data \<and> median_of data \<le> quartile data 3"
proof -
  define n where "n = length data"
  define j1 where "j1 = max 1 (min (n - 1) (1 * (n + 1) div 4))"
  define j3 where "j3 = max 1 (min (n - 1) (3 * (n + 1) div 4))"
  have n: "2 < n" using assms by (simp add: n_def)
  have "data \<noteq> []" using assms by auto
  note m = median_between [OF this, folded n_def]
  have "j1 \<le> (n - 1) div 2" using quartile_indices [OF n] by (simp add: j1_def min_le_iff_disj)
  moreover have "(n - 1) div 2 < length (sort data)" using n by (simp add: n_def)
  ultimately have "sort data ! j1 \<le> sort data ! ((n - 1) div 2)" by (rule sorted_nth_mono [OF sorted_sort])
  moreover have "sort data ! (n div 2) \<le> sort data ! (j3 - 1)"
  proof (rule sorted_nth_mono [OF sorted_sort])
    show "n div 2 \<le> j3 - 1" using quartile_indices(3,4) [OF n] by (auto simp: j3_def min_def)
    show "j3 - 1 < length (sort data)" using n by (auto simp: j3_def simp flip: n_def)
  qed
  moreover have "quartile data 1 \<le> sort data ! j1" "sort data ! (j3 - 1) \<le> quartile data 3"
    using quartile_between [OF assms, of 1] quartile_between [OF assms, of 3] by (simp_all add: j1_def j3_def n_def)
  ultimately show ?thesis using m by linarith
qed

section \<open>The classification\<close>

lemma length_gaps [simp]: "length (gaps_of ts) = length ts - 1"
  by (induction ts rule: gaps_of.induct) auto

lemma classify_sort: "classify (sort ts) = classify ts"
  by (simp add: classify_def sort_key_id_if_sorted)

text \<open>C34. A host's pattern does not depend on the order in which its events are read; with at least four events
  the quartiles lie around the median, so a regular cycle (quartiles at most a quarter of the median apart)
  keeps both of them within a quarter of the median.\<close>

theorem classify_quartiles:
  assumes "mset ts = mset ts'" "4 \<le> length ts" "classify ts' = r"
  shows "classify ts = r \<and>
    (\<exists>q1 m q3. pr_q1 r = Some q1 \<and> pr_median r = Some m \<and> pr_q3 r = Some q3 \<and> q1 \<le> m \<and> m \<le> q3 \<and>
       (pr_kind r = TP_REGULAR_CYCLE \<longrightarrow> m - m / 4 \<le> q1 \<and> q3 \<le> m + m / 4) \<and>
       (pr_kind r = TP_BURST \<longrightarrow> m \<le> 2) \<and> (pr_kind r = TP_SPORADIC \<longrightarrow> 2 < m) \<and> pr_kind r \<noteq> TP_TOO_FEW)"
proof -
  have "sort ts = sort ts'" using assms(1) by (metis mset_sort properties_for_sort sorted_sort)
  then have same: "classify ts = r" using assms(3) classify_sort by metis
  define gaps where "gaps = gaps_of (sort ts)"
  define m where "m = median_of gaps"
  have len: "2 < length gaps" using assms(2) by (simp add: gaps_def)
  note q = quartiles_around_median [OF len, folded m_def]
  have r: "r = \<lparr> pr_kind = (if REGULAR_MIN_EVENTS \<le> length ts \<and> quartile gaps 3 - quartile gaps 1 \<le> REGULAR_SPREAD * m
        then TP_REGULAR_CYCLE else if m \<le> BURST_MEDIAN_MINUTES then TP_BURST else TP_SPORADIC),
      pr_n = length ts, pr_median = Some m, pr_q1 = Some (quartile gaps 1), pr_q3 = Some (quartile gaps 3) \<rparr>"
    using assms(2) len unfolding same [symmetric] classify_def Let_def length_sort gaps_def [symmetric] m_def [symmetric] by simp
  have spread: "m - m / 4 \<le> quartile gaps 1 \<and> quartile gaps 3 \<le> m + m / 4" if "quartile gaps 3 - quartile gaps 1 \<le> m / 4"
    using that q by linarith
  show ?thesis
    using same q spread unfolding r by (simp add: REGULAR_SPREAD_def BURST_MEDIAN_MINUTES_def)
qed

theorem classify_quartiles_witness:
  "pr_kind (classify (map (\<lambda>k. k * 10 * MINUTE) [5, 0, 1, 2, 3, 4])) = TP_REGULAR_CYCLE \<and>
   classify (map (\<lambda>k. k * 10 * MINUTE) [5, 0, 1, 2, 3, 4]) = classify (map (\<lambda>k. k * 10 * MINUTE) [0, 1, 2, 3, 4, 5])"
proof
  show "pr_kind (classify (map (\<lambda>k. k * 10 * MINUTE) [5, 0, 1, 2, 3, 4])) = TP_REGULAR_CYCLE" by code_simp
  have "mset (map (\<lambda>k. k * 10 * MINUTE) [5, 0, 1, 2, 3, 4 :: int]) = mset (map (\<lambda>k. k * 10 * MINUTE) [0, 1, 2, 3, 4, 5])"
    by (simp add: add_mset_commute)
  from classify_quartiles [OF this _ refl]
  show "classify (map (\<lambda>k. k * 10 * MINUTE) [5, 0, 1, 2, 3, 4]) = classify (map (\<lambda>k. k * 10 * MINUTE) [0, 1, 2, 3, 4, 5])"
    by simp
qed

text \<open>The first annotation that fits.\<close>

lemma explained_by_find:
  "explained_by reading host pattern as' = map_option an_id (find (annotation_fits reading host pattern) as')"
  by (induction as') auto

end
