(* ===== verification/RuleSchedule.thy ===== *)
theory RuleSchedule
  imports PyTime
begin

text \<open>
  \<open>domain/rule_schedule.py\<close>: weekly windows and expiries of rules. A time zone is two functions: its offset at
  an instant, and the offset a wall-clock reading has on its first and on its second (\<open>fold\<close>) reading; zones
  of the IANA database are a parameter, \<open>UTC+05:30\<close> and the like are computed. Times are instants in
  microseconds, \<open>now\<close> is given in UTC. The three emoji of the notes stand as the characters 1 to 3.
\<close>

section \<open>Zones\<close>

record zone =
  zn_offset :: "time \<Rightarrow> int"
  zn_wall :: "int \<Rightarrow> bool \<Rightarrow> int"

type_synonym zone_db = "string \<Rightarrow> zone option"

definition fixed_zone :: "int \<Rightarrow> zone" where
  "fixed_zone off = \<lparr> zn_offset = (\<lambda>_. off), zn_wall = (\<lambda>_ _. off) \<rparr>"

text \<open>A pattern that ends in \<open>$\<close> also matches before one final line feed.\<close>

definition before_newline :: "string \<Rightarrow> string" where
  "before_newline s = (if s \<noteq> [] \<and> of_char (last s) = (10 :: int) then butlast s else s)"

definition two_digits :: "char \<Rightarrow> char \<Rightarrow> int" where
  "two_digits a b = 10 * digit_val a + digit_val b"

definition fixed_minutes :: "string \<Rightarrow> int option" where
  "fixed_minutes name =
     (case before_newline name of
        [u, t, c, sign, h1, h2, colon, m1, m2] \<Rightarrow>
          (if [u, t, c] = ''UTC'' \<and> (sign = CHR ''+'' \<or> sign = CHR ''-'') \<and> colon = CHR '':'' \<and>
              list_all is_digit [h1, h2, m1, m2]
           then Some ((if sign = CHR ''+'' then 1 else -1) * (two_digits h1 h2 * 60 + two_digits m1 m2))
           else None)
      | _ \<Rightarrow> None)"

text \<open>\<open>None\<close>: the name raises \<open>ValueError\<close> or \<open>ZoneInfoNotFoundError\<close>.\<close>

definition zone_of :: "zone_db \<Rightarrow> string \<Rightarrow> zone option" where
  "zone_of db name =
     (case fixed_minutes name of
        Some m \<Rightarrow> (if 14 * 60 < \<bar>m\<bar> then None else Some (fixed_zone (m * MINUTE)))
      | None \<Rightarrow> db name)"

section \<open>Plans\<close>

datatype weekday = Mon | Tue | Wed | Thu | Fri | Sat | Sun

definition WEEKDAYS :: "weekday list" where
  "WEEKDAYS = [Mon, Tue, Wed, Thu, Fri, Sat, Sun]"

fun weekday_text :: "weekday \<Rightarrow> string" where
  "weekday_text Mon = ''mon''"
| "weekday_text Tue = ''tue''"
| "weekday_text Wed = ''wed''"
| "weekday_text Thu = ''thu''"
| "weekday_text Fri = ''fri''"
| "weekday_text Sat = ''sat''"
| "weekday_text Sun = ''sun''"

datatype window_action = ENABLE_IN_WINDOW | DISABLE_IN_WINDOW

record weekly =
  wk_days :: "weekday list"
  wk_start :: string
  wk_end :: string
  wk_timezone :: string
  wk_action :: window_action

datatype plan = Weekly weekly | Expiry time string

definition hhmm_shape :: "string \<Rightarrow> bool" where
  "hhmm_shape s =
     (case s of
        [a, b, c, d, e] \<Rightarrow>
          ((a = CHR ''0'' \<or> a = CHR ''1'') \<and> is_digit b \<or> a = CHR ''2'' \<and> is_digit b \<and> digit_val b \<le> 3) \<and>
          c = CHR '':'' \<and> is_digit d \<and> digit_val d \<le> 5 \<and> is_digit e
      | _ \<Rightarrow> False)"

definition hhmm_ok :: "string \<Rightarrow> bool" where
  "hhmm_ok s \<longleftrightarrow> hhmm_shape (before_newline s)"

definition weekly_ok :: "zone_db \<Rightarrow> weekly \<Rightarrow> bool" where
  "weekly_ok db w \<longleftrightarrow>
     wk_days w \<noteq> [] \<and> hhmm_ok (wk_start w) \<and> hhmm_ok (wk_end w) \<and> zone_of db (wk_timezone w) \<noteq> None \<and>
     distinct (wk_days w) \<and> wk_start w \<noteq> wk_end w"

definition plan_timezone :: "plan \<Rightarrow> string" where
  "plan_timezone p = (case p of Weekly w \<Rightarrow> wk_timezone w | Expiry _ tz \<Rightarrow> tz)"

section \<open>The state a plan wants\<close>

definition day_of :: "int \<Rightarrow> weekday" where
  "day_of d = WEEKDAYS ! weekday_of_ord (d + EPOCH_ORD)"

definition in_window_at :: "weekly \<Rightarrow> int \<Rightarrow> bool" where
  "in_window_at w local =
     (let cur = hm_text local; today = day_of (local div DAY); yesterday = day_of (local div DAY - 1) in
      if wk_start w < wk_end w then today \<in> set (wk_days w) \<and> wk_start w \<le> cur \<and> cur < wk_end w
      else (today \<in> set (wk_days w) \<and> wk_start w \<le> cur) \<or> (yesterday \<in> set (wk_days w) \<and> cur < wk_end w))"

definition in_window :: "zone \<Rightarrow> weekly \<Rightarrow> time \<Rightarrow> bool" where
  "in_window tz w now = in_window_at w (now + zn_offset tz now)"

datatype wish = Enabled | Disabled | Expired

definition wish_of :: "bool \<Rightarrow> wish" where
  "wish_of b = (if b then Enabled else Disabled)"

definition desired :: "zone \<Rightarrow> plan \<Rightarrow> time \<Rightarrow> wish" where
  "desired tz p now =
     (case p of
        Expiry t _ \<Rightarrow> (if t \<le> now then Expired else Enabled)
      | Weekly w \<Rightarrow>
          (let inside = in_window tz w now
           in wish_of (if wk_action w = ENABLE_IN_WINDOW then inside else \<not> inside)))"

section \<open>When it next changes\<close>

definition NEXT_DAYS :: int where "NEXT_DAYS = 8"

text \<open>\<open>int(x) for x in hhmm.split(":")\<close>; \<open>int\<close> ignores white space around the digits.\<close>

definition hhmm_micros :: "string \<Rightarrow> int" where
  "hhmm_micros s =
     (case split_on CHR '':'' s of
        [h, m] \<Rightarrow> int_of_digits (py_strip h) * HOUR + int_of_digits (py_strip m) * MINUTE
      | _ \<Rightarrow> 0)"

definition walls :: "zone \<Rightarrow> int \<Rightarrow> string \<Rightarrow> time list" where
  "walls tz d hhmm = (let wall = d * DAY + hhmm_micros hhmm in map (\<lambda>f. wall - zn_wall tz wall f) [False, True])"

function bisect :: "zone \<Rightarrow> time \<Rightarrow> time \<Rightarrow> time" where
  "bisect tz lo hi =
     (if hi - lo \<le> MINUTE then hi
      else
        let mid = lo + (hi - lo) div 2
        in if zn_offset tz mid = zn_offset tz lo then bisect tz mid hi else bisect tz lo mid)"
  by pat_completeness auto
termination
  by (relation "measure (\<lambda>(tz, lo, hi). nat (hi - lo))") (auto simp: MINUTE_def)

function transitions :: "zone \<Rightarrow> time \<Rightarrow> time \<Rightarrow> time list" where
  "transitions tz t stop =
     (if stop \<le> t then []
      else
        (if zn_offset tz t \<noteq> zn_offset tz (t + HOUR)
         then [let hi = bisect tz t (t + HOUR) in hi - hi mod MINUTE] else [])
        @ transitions tz (t + HOUR) stop)"
  by pat_completeness auto
termination
  by (relation "measure (\<lambda>(tz, t, stop). nat (stop - t))") (auto simp: HOUR_def)

declare bisect.simps [simp del] transitions.simps [simp del]

definition wall_candidates :: "zone \<Rightarrow> weekly \<Rightarrow> int \<Rightarrow> time list" where
  "wall_candidates tz w day0 =
     concat (map (\<lambda>i. walls tz (day0 + i) (wk_start w) @ walls tz (day0 + i) (wk_end w)) [0..NEXT_DAYS + 1])"

definition next_change :: "zone \<Rightarrow> plan \<Rightarrow> time \<Rightarrow> time option" where
  "next_change tz p now =
     (case p of
        Expiry t _ \<Rightarrow> (if now < t then Some t else None)
      | Weekly w \<Rightarrow>
          (let day0 = (now + zn_offset tz now) div DAY - 1;
               horizon = now + (NEXT_DAYS + 1) * DAY;
               candidates = transitions tz now horizon @ wall_candidates tz w day0;
               flips = sort (filter (\<lambda>c. now < c \<and> c \<le> horizon \<and> desired tz p c \<noteq> desired tz p (c - SECOND)) candidates)
           in case flips of [] \<Rightarrow> None | c # _ \<Rightarrow> Some c))"

section \<open>Notes in descriptions\<close>

definition CALENDAR :: char where "CALENDAR = char_of (1 :: nat)"
definition HOURGLASS :: char where "HOURGLASS = char_of (2 :: nat)"
definition ALARM_CLOCK :: char where "ALARM_CLOCK = char_of (3 :: nat)"
definition NOTE_TAGS :: "char list" where "NOTE_TAGS = [CALENDAR, HOURGLASS, ALARM_CLOCK]"

fun weekday_index :: "weekday list \<Rightarrow> weekday \<Rightarrow> nat" where
  "weekday_index [] d = 0"
| "weekday_index (x # xs) d = (if x = d then 0 else Suc (weekday_index xs d))"

definition days_text :: "weekday list \<Rightarrow> weekday list" where
  "days_text days = sort_key (weekday_index WEEKDAYS) days"

definition capitalize :: "string \<Rightarrow> string" where
  "capitalize s = (case s of [] \<Rightarrow> [] | c # cs \<Rightarrow> (if 97 \<le> (of_char c :: int) \<and> (of_char c :: int) \<le> 122
     then char_of ((of_char c :: int) - 32) else c) # cs)"

definition expiry_text :: "zone \<Rightarrow> time \<Rightarrow> string" where
  "expiry_text tz t = (let local = t + zn_offset tz t in date_text local @ '' '' @ hm_text local)"

definition note_body :: "zone \<Rightarrow> plan \<Rightarrow> string" where
  "note_body tz p =
     (case p of
        Expiry t name \<Rightarrow> '' Expires: '' @ expiry_text tz t @ '' ('' @ name @ '')''
      | Weekly w \<Rightarrow>
          '' Recurring: '' @ py_join '','' (map (\<lambda>d. capitalize (weekday_text d)) (days_text (wk_days w))) @ '' '' @
          wk_start w @ ''-'' @ wk_end w @ '' ('' @ wk_timezone w @ '') '' @
          (if wk_action w = ENABLE_IN_WINDOW then ''Enable in window'' else ''Disable in window''))"

definition note_tag :: "plan \<Rightarrow> char" where
  "note_tag p = (case p of Expiry _ _ \<Rightarrow> ALARM_CLOCK | Weekly _ \<Rightarrow> CALENDAR)"

definition note_of :: "zone \<Rightarrow> plan \<Rightarrow> string" where
  "note_of tz p = CHR ''['' # note_tag p # note_body tz p @ '']''"

text \<open>One match of the note pattern at the front of a text: white space, \<open>[\<close>, a tag, and the rest up to the
  next \<open>]\<close>; the result is what follows it. \<open>_NOTES.sub("", text)\<close> takes such matches out from the left.\<close>

definition after_note :: "string \<Rightarrow> string option" where
  "after_note s =
     (case dropWhile py_space s of
        a # b # rest \<Rightarrow>
          (if a = CHR ''['' \<and> b \<in> set NOTE_TAGS then
             (case dropWhile (\<lambda>c. c \<noteq> CHR '']'') rest of [] \<Rightarrow> None | _ # after \<Rightarrow> Some after)
           else None)
      | _ \<Rightarrow> None)"

lemma dropWhile_length: "length (dropWhile P xs) \<le> length xs"
  by (induction xs) auto

lemma after_note_shorter: "after_note s = Some r \<Longrightarrow> length r < length s"
  using dropWhile_length [of py_space s] dropWhile_length [of "\<lambda>c. c \<noteq> CHR '']''" "tl (tl (dropWhile py_space s))"]
  by (auto simp: after_note_def split: list.split_asm if_split_asm)

function remove_notes :: "string \<Rightarrow> string" where
  "remove_notes s =
     (case after_note s of
        Some r \<Rightarrow> remove_notes r
      | None \<Rightarrow> (case s of [] \<Rightarrow> [] | c # cs \<Rightarrow> c # remove_notes cs))"
  by pat_completeness auto
termination
  by (relation "measure length") (auto dest: after_note_shorter)

declare remove_notes.simps [simp del]

definition strip_notes :: "string \<Rightarrow> string" where
  "strip_notes description = py_strip (remove_notes description)"

definition with_note :: "zone \<Rightarrow> string \<Rightarrow> plan \<Rightarrow> string" where
  "with_note tz description p =
     (let kept = strip_notes description
      in if kept \<noteq> [] then kept @ [char_of (10 :: nat)] @ note_of tz p else note_of tz p)"

definition preview :: "zone \<Rightarrow> plan \<Rightarrow> string \<times> (string \<times> string) list" where
  "preview tz p =
     (case p of
        Expiry t name \<Rightarrow> (''rs_preview_expiry'', [(''at'', expiry_text tz t), (''timezone'', name)])
      | Weekly w \<Rightarrow>
          ((if wk_action w = ENABLE_IN_WINDOW then ''rs_preview_weekly_enable'' else ''rs_preview_weekly_disable''),
           [(''days'', py_join '','' (map weekday_text (days_text (wk_days w)))), (''start'', wk_start w), (''end'', wk_end w),
            (''next_day'', if wk_end w < wk_start w then ''1'' else ''0'')]))"

end
