(* ===== verification/RuleScheduleProofs.thy ===== *)
theory RuleScheduleProofs
  imports RuleSchedule
begin

text \<open>
  In a zone with one offset, the next change of a weekly plan is the first instant after \<open>now\<close> at which the
  state it wants differs, and there always is one within nine days. A note written into a description is
  taken out again. The text comparison of clock times is the comparison of minutes.
\<close>

section \<open>Clock times as text\<close>

definition text_minutes :: "string \<Rightarrow> int" where
  "text_minutes s = (case s of [a, b, c, d, e] \<Rightarrow> two_digits a b * 60 + two_digits d e | _ \<Rightarrow> 0)"

lemma char_less_int: "c < d \<longleftrightarrow> (of_char c :: int) < of_char d"
  by (simp add: less_char_def of_char_int_nat)

lemma digit_val_eq: "c = d \<longleftrightarrow> digit_val c = digit_val d" "c < d \<longleftrightarrow> digit_val c < digit_val d"
  by (simp_all add: digit_val_def char_less_int of_char_int_inj)

lemma hhmm_shapeE:
  assumes "hhmm_shape s"
  obtains a b d e where "s = [a, b, CHR '':'', d, e]" "is_digit a" "is_digit b" "is_digit d" "is_digit e"
    "digit_val d \<le> 5" "two_digits a b \<le> 23"
proof -
  obtain a b d e where s: "s = [a, b, CHR '':'', d, e]" and
    r: "(a = CHR ''0'' \<or> a = CHR ''1'') \<and> is_digit b \<or> a = CHR ''2'' \<and> is_digit b \<and> digit_val b \<le> 3"
      "is_digit d" "digit_val d \<le> 5" "is_digit e"
    using assms unfolding hhmm_shape_def by (auto split: list.split_asm)
  have "is_digit a" using r(1) by (auto simp: is_digit_def)
  moreover have "two_digits a b \<le> 23" using r(1) by (auto simp: two_digits_def digit_val_def is_digit_def)
  ultimately show ?thesis using that s r by blast
qed

lemma is_digit_val: "is_digit c \<Longrightarrow> 0 \<le> digit_val c \<and> digit_val c \<le> 9"
  by (simp add: is_digit_def digit_val_def)

lemma lex_digits:
  fixes x x' y y' m :: int
  assumes "0 \<le> y" "y < m" "0 \<le> y'" "y' < m"
  shows "x < x' \<or> x = x' \<and> y < y' \<longleftrightarrow> x * m + y < x' * m + y'"
proof (cases x x' rule: linorder_cases)
  case less
  then have "(x + 1) * m \<le> x' * m" using assms by (intro mult_right_mono) auto
  with less assms show ?thesis by (simp add: algebra_simps)
next
  case greater
  then have "(x' + 1) * m \<le> x * m" using assms by (intro mult_right_mono) auto
  with greater assms show ?thesis by (simp add: algebra_simps)
qed simp

lemma hhmm_less:
  assumes "hhmm_shape s" "hhmm_shape t"
  shows "s < t \<longleftrightarrow> text_minutes s < text_minutes t"
proof -
  obtain a b d e where s: "s = [a, b, CHR '':'', d, e]" "is_digit a" "is_digit b" "is_digit d" "is_digit e" "digit_val d \<le> 5"
    using hhmm_shapeE [OF assms(1)] by metis
  obtain a' b' d' e' where t: "t = [a', b', CHR '':'', d', e']" "is_digit a'" "is_digit b'" "is_digit d'" "is_digit e'" "digit_val d' \<le> 5"
    using hhmm_shapeE [OF assms(2)] by metis
  have "s < t \<longleftrightarrow> digit_val a < digit_val a' \<or> digit_val a = digit_val a' \<and> (digit_val b < digit_val b' \<or> digit_val b = digit_val b' \<and>
      (digit_val d < digit_val d' \<or> digit_val d = digit_val d' \<and> digit_val e < digit_val e'))"
    by (simp add: s(1) t(1) digit_val_eq [of a a'] digit_val_eq [of b b'] digit_val_eq [of d d'] digit_val_eq [of e e'])
  also have "\<dots> \<longleftrightarrow> ((digit_val a * 10 + digit_val b) * 6 + digit_val d) * 10 + digit_val e <
      ((digit_val a' * 10 + digit_val b') * 6 + digit_val d') * 10 + digit_val e'"
    using is_digit_val [OF s(3)] is_digit_val [OF t(3)] is_digit_val [OF s(4)] is_digit_val [OF t(4)] is_digit_val [OF s(5)]
      is_digit_val [OF t(5)] s(6) t(6)
    by (subst lex_digits [symmetric], simp, simp, simp, simp, subst lex_digits [symmetric], simp, simp, simp, simp,
        subst lex_digits [symmetric]) auto
  also have "\<dots> \<longleftrightarrow> text_minutes s < text_minutes t"
    by (simp add: text_minutes_def s(1) t(1) two_digits_def algebra_simps)
  finally show ?thesis .
qed

lemma hhmm_eq:
  assumes "hhmm_shape s" "hhmm_shape t"
  shows "s = t \<longleftrightarrow> text_minutes s = text_minutes t"
  using hhmm_less [OF assms] hhmm_less [OF assms(2,1)] by (metis less_irrefl linorder_cases)

lemma pad2:
  assumes "0 \<le> n" "n < 100"
  shows "pad 2 n = [digit_char (n div 10), digit_char (n mod 10)]"
proof (cases "n < 10")
  case True
  then have "dec_str n = [digit_char n]" by (subst dec_str.simps) simp
  moreover have "digit_char 0 = CHR ''0''" by code_simp
  ultimately show ?thesis using True assms by (simp add: pad_def)
next
  case False
  then have "dec_str n = [digit_char (n div 10), digit_char (n mod 10)]"
    using assms by (subst dec_str.simps, subst dec_str.simps) simp
  then show ?thesis by (simp add: pad_def)
qed

lemma clock_parts:
  "0 \<le> l mod DAY div HOUR" "l mod DAY div HOUR < 24" "0 \<le> l mod HOUR div MINUTE" "l mod HOUR div MINUTE < 60"
  "(l mod DAY div HOUR) * 60 + l mod HOUR div MINUTE = l mod DAY div MINUTE"
proof -
  have r: "0 \<le> l mod DAY" "l mod DAY < 24 * HOUR" by (simp_all add: time_units)
  show "0 \<le> l mod DAY div HOUR" using r by (simp add: time_units)
  show "l mod DAY div HOUR < 24" using r by (simp add: time_units)
  have h: "0 \<le> l mod HOUR" "l mod HOUR < 60 * MINUTE" by (simp_all add: time_units)
  show "0 \<le> l mod HOUR div MINUTE" using h by (simp add: time_units)
  show "l mod HOUR div MINUTE < 60" using h by (simp add: time_units)
  define r where "r = l mod DAY"
  have "l mod HOUR = r mod HOUR" unfolding r_def by (rule mod_mod_cancel [symmetric]) (simp add: time_units)
  moreover have "r = r mod HOUR + (r div HOUR * 60) * MINUTE"
    using mod_mult_div_eq [of r HOUR] by (simp add: time_units)
  then have "r div MINUTE = r mod HOUR div MINUTE + r div HOUR * 60"
    by (subst \<open>r = r mod HOUR + (r div HOUR * 60) * MINUTE\<close>, subst div_mult_self1) (simp_all add: time_units)
  ultimately show "(l mod DAY div HOUR) * 60 + l mod HOUR div MINUTE = l mod DAY div MINUTE"
    by (simp add: r_def)
qed

lemma two_digits_of: "0 \<le> n \<Longrightarrow> n < 100 \<Longrightarrow> two_digits (digit_char (n div 10)) (digit_char (n mod 10)) = n"
  by (simp add: two_digits_def digit_char_props)

lemma hm_text_shape: "hhmm_shape (hm_text l)" "text_minutes (hm_text l) = l mod DAY div MINUTE"
proof -
  define h where "h = l mod DAY div HOUR"
  define m where "m = l mod HOUR div MINUTE"
  have b: "0 \<le> h" "h < 24" "0 \<le> m" "m < 60" "h * 60 + m = l mod DAY div MINUTE"
    using clock_parts [of l] by (simp_all add: h_def m_def)
  have t: "hm_text l = [digit_char (h div 10), digit_char (h mod 10), CHR '':'', digit_char (m div 10), digit_char (m mod 10)]"
  proof -
    have p: "pad 2 h = [digit_char (h div 10), digit_char (h mod 10)]" "pad 2 m = [digit_char (m div 10), digit_char (m mod 10)]"
      by (rule pad2; use b in linarith)+
    show ?thesis unfolding hm_text_def h_def [symmetric] m_def [symmetric] p by simp
  qed
  have "h div 10 = 0 \<or> h div 10 = 1 \<or> h div 10 = 2 \<and> h mod 10 \<le> 3" using b(1,2) by presburger
  moreover have "digit_char 0 = CHR ''0''" "digit_char 1 = CHR ''1''" "digit_char 2 = CHR ''2''" by code_simp+
  moreover have "m div 10 \<le> 5" using b(3,4) by presburger
  ultimately show "hhmm_shape (hm_text l)"
    using b by (auto simp: t hhmm_shape_def digit_char_props)
  show "text_minutes (hm_text l) = l mod DAY div MINUTE"
    using b two_digits_of [of h] two_digits_of [of m] by (simp add: t text_minutes_def)
qed

lemma text_minutes_bound: "hhmm_shape s \<Longrightarrow> 0 \<le> text_minutes s \<and> text_minutes s < 1440"
proof -
  assume "hhmm_shape s"
  then obtain a b d e where s: "s = [a, b, CHR '':'', d, e]" "is_digit a" "is_digit b" "is_digit d" "is_digit e"
    "digit_val d \<le> 5" "two_digits a b \<le> 23" by (rule hhmm_shapeE)
  then show ?thesis
    using is_digit_val [OF s(2)] is_digit_val [OF s(3)] is_digit_val [OF s(4)] is_digit_val [OF s(5)]
    by (simp add: text_minutes_def two_digits_def)
qed

lemma hhmm_micros: "hhmm_shape s \<Longrightarrow> hhmm_micros s = text_minutes s * MINUTE"
proof -
  assume "hhmm_shape s"
  then obtain a b d e where s: "s = [a, b, CHR '':'', d, e]" "is_digit a" "is_digit b" "is_digit d" "is_digit e"
    by (rule hhmm_shapeE)
  have nc: "a \<noteq> CHR '':''" "b \<noteq> CHR '':''" "d \<noteq> CHR '':''" "e \<noteq> CHR '':''" using s is_digit_not by blast+
  have sp: "\<not> py_space a" "\<not> py_space b" "\<not> py_space d" "\<not> py_space e"
    using s by (auto simp: py_space_def is_digit_def Let_def)
  have "split_on CHR '':'' s = [[a, b], [d, e]]" using nc by (simp add: s(1))
  moreover have "py_strip [a, b] = [a, b]" "py_strip [d, e] = [d, e]" using sp by (simp_all add: py_strip_def)
  ultimately show ?thesis
    by (simp add: hhmm_micros_def s(1) text_minutes_def two_digits_def int_of_digits_def time_units algebra_simps)
qed

section \<open>Where a window can start or end\<close>

text \<open>A valid weekly plan: times of the shape HH:MM, a day, and start and end apart.\<close>

definition proper :: "weekly \<Rightarrow> bool" where
  "proper w \<longleftrightarrow> hhmm_shape (wk_start w) \<and> hhmm_shape (wk_end w) \<and> wk_start w \<noteq> wk_end w \<and> wk_days w \<noteq> []"

definition on_day :: "weekly \<Rightarrow> int \<Rightarrow> bool" where
  "on_day w d \<longleftrightarrow> day_of d \<in> set (wk_days w)"

definition window_open :: "weekly \<Rightarrow> int \<Rightarrow> int \<Rightarrow> bool" where
  "window_open w d r =
     (if hhmm_micros (wk_start w) < hhmm_micros (wk_end w)
      then on_day w d \<and> hhmm_micros (wk_start w) \<le> r \<and> r < hhmm_micros (wk_end w)
      else on_day w d \<and> hhmm_micros (wk_start w) \<le> r \<or> on_day w (d - 1) \<and> r < hhmm_micros (wk_end w))"

lemma before_minutes: "r div MINUTE < k \<longleftrightarrow> r < k * MINUTE"
proof -
  have m: "0 \<le> r mod MINUTE" "r mod MINUTE < MINUTE" "r = r div MINUTE * MINUTE + r mod MINUTE" "0 \<le> MINUTE"
    by (simp_all add: time_units)
  show ?thesis
  proof (cases "r div MINUTE < k")
    case True
    then have "(r div MINUTE + 1) * MINUTE \<le> k * MINUTE" using m(4) by (intro mult_right_mono) auto
    then have "r div MINUTE * MINUTE + MINUTE \<le> k * MINUTE" by (simp add: algebra_simps)
    then have "r < k * MINUTE" using m(2,3) by linarith
    with True show ?thesis by simp
  next
    case False
    then have "k * MINUTE \<le> r div MINUTE * MINUTE" using m(4) by (intro mult_right_mono) auto
    with False show ?thesis using m by linarith
  qed
qed

lemma clock_before:
  assumes "hhmm_shape s"
  shows "hm_text l < s \<longleftrightarrow> l mod DAY < hhmm_micros s" "s \<le> hm_text l \<longleftrightarrow> hhmm_micros s \<le> l mod DAY"
proof -
  show "hm_text l < s \<longleftrightarrow> l mod DAY < hhmm_micros s"
    using hhmm_less [OF hm_text_shape(1) assms, of l] hm_text_shape(2) [of l] hhmm_micros [OF assms] before_minutes
    by (simp add: time_units)
  then show "s \<le> hm_text l \<longleftrightarrow> hhmm_micros s \<le> l mod DAY" by (meson linorder_not_le)
qed

lemma micros_less:
  "hhmm_shape s \<Longrightarrow> hhmm_shape t \<Longrightarrow> s < t \<longleftrightarrow> hhmm_micros s < hhmm_micros t"
  by (simp add: hhmm_less hhmm_micros time_units)

lemma micros_bound: "hhmm_shape s \<Longrightarrow> 0 \<le> hhmm_micros s \<and> hhmm_micros s < DAY"
  using text_minutes_bound [of s] by (simp add: hhmm_micros time_units)

lemma in_window_at_open: "proper w \<Longrightarrow> in_window_at w l = window_open w (l div DAY) (l mod DAY)"
  by (simp add: in_window_at_def proper_def Let_def clock_before micros_less window_open_def on_day_def)

lemma pred_div:
  fixes l m :: int
  assumes "0 < m"
  shows "l mod m \<noteq> 0 \<Longrightarrow> (l - 1) div m = l div m \<and> (l - 1) mod m = l mod m - 1"
    "l mod m = 0 \<Longrightarrow> (l - 1) div m = l div m - 1 \<and> (l - 1) mod m = m - 1"
proof -
  have l: "l = m * (l div m) + l mod m" "0 \<le> l mod m" "l mod m < m" using assms by simp_all
  { assume "l mod m \<noteq> 0"
    with l show "(l - 1) div m = l div m \<and> (l - 1) mod m = l mod m - 1"
      using int_div_pos_eq [of "l - 1" m "l div m" "l mod m - 1"] int_mod_pos_eq [of "l - 1" m "l div m" "l mod m - 1"] by simp }
  { assume "l mod m = 0"
    with l assms show "(l - 1) div m = l div m - 1 \<and> (l - 1) mod m = m - 1"
      using int_div_pos_eq [of "l - 1" m "l div m - 1" "m - 1"] int_mod_pos_eq [of "l - 1" m "l div m - 1" "m - 1"]
      by (simp add: algebra_simps) }
qed

lemma boundary_step:
  assumes "proper w" "in_window_at w l \<noteq> in_window_at w (l - 1)"
  shows "l mod DAY = hhmm_micros (wk_start w) \<or> l mod DAY = hhmm_micros (wk_end w)"
proof (rule ccontr)
  assume no: "\<not> ?thesis"
  define S where "S = hhmm_micros (wk_start w)"
  define E where "E = hhmm_micros (wk_end w)"
  have b: "0 \<le> S" "S < DAY" "0 \<le> E" "E < DAY" "S \<noteq> E"
    using assms(1) micros_bound micros_less unfolding proper_def S_def E_def by (auto simp: neq_iff)
  have D: "(0::int) < DAY" by (simp add: time_units)
  have r: "0 \<le> l mod DAY" using D by simp
  have n: "l mod DAY \<noteq> S" "l mod DAY \<noteq> E" using no by (auto simp: S_def E_def)
  have "window_open w ((l - 1) div DAY) ((l - 1) mod DAY) = window_open w (l div DAY) (l mod DAY)"
  proof (cases "l mod DAY = 0")
    case True
    with n b have "0 < S" "0 < E" by auto
    then show ?thesis
      using True b pred_div(2) [OF D True] unfolding window_open_def S_def [symmetric] E_def [symmetric] by auto
  next
    case False
    have "S \<le> l mod DAY - 1 \<longleftrightarrow> S \<le> l mod DAY" "l mod DAY - 1 < E \<longleftrightarrow> l mod DAY < E" using n by auto
    then show ?thesis
      using pred_div(1) [OF D False] unfolding window_open_def S_def [symmetric] E_def [symmetric] by simp
  qed
  with assms show False by (simp add: in_window_at_open)
qed

lemma minute_boundary: "hhmm_shape s \<Longrightarrow> l mod DAY = hhmm_micros s \<Longrightarrow> l mod MINUTE = 0"
proof -
  assume s: "hhmm_shape s" "l mod DAY = hhmm_micros s"
  have "l mod MINUTE = l mod DAY mod MINUTE" by (rule mod_mod_cancel [symmetric]) (simp add: time_units)
  then show ?thesis using s hhmm_micros by simp
qed

text \<open>Between two instants without a boundary after the first, nothing changes.\<close>

lemma steady:
  assumes "\<And>x. l < x \<Longrightarrow> x \<le> u \<Longrightarrow> P x = P (x - 1)" "l \<le> (u :: int)"
  shows "P u = P l"
  using assms(2,1)
proof (induction u rule: int_ge_induct)
  case base
  then show ?case by simp
next
  case (step i)
  have "P (i + 1) = P i" using step.prems [of "i + 1"] step.hyps by simp
  with step.IH step.prems show ?case by simp
qed

lemma first_change:
  assumes "P (u :: int) \<noteq> P l" "l < u"
  obtains b where "l < b" "b \<le> u" "P b \<noteq> P (b - 1)" "\<And>x. l \<le> x \<Longrightarrow> x < b \<Longrightarrow> P x = P l"
proof -
  define k where "k = (LEAST k. P (l + int k) \<noteq> P l)"
  have ex: "P (l + int (nat (u - l))) \<noteq> P l" using assms by simp
  have at: "P (l + int k) \<noteq> P l" unfolding k_def by (rule LeastI [where P = "\<lambda>k. P (l + int k) \<noteq> P l", OF ex])
  have least: "P (l + int j) = P l" if "j < k" for j using that not_less_Least unfolding k_def by blast
  have "k \<le> nat (u - l)" unfolding k_def by (rule Least_le [where P = "\<lambda>k. P (l + int k) \<noteq> P l", OF ex])
  moreover have "k \<noteq> 0" using at by (intro notI) simp
  moreover have before: "P x = P l" if "l \<le> x" "x < l + int k" for x
    using least [of "nat (x - l)"] that by simp
  ultimately have k: "l < l + int k" "l + int k \<le> u" using assms(2) by linarith+
  have neq: "P (l + int k) \<noteq> P (l + int k - 1)" using at before [of "l + int k - 1"] k(1) by simp
  show ?thesis by (rule that [OF k neq before])
qed

lemma second_before:
  assumes "proper w" "b mod MINUTE = 0"
  shows "in_window_at w (b - SECOND) = in_window_at w (b - 1)"
proof -
  have still: "in_window_at w x = in_window_at w (x - 1)" if "b - SECOND < x" "x \<le> b - 1" for x
  proof (rule ccontr)
    assume "in_window_at w x \<noteq> in_window_at w (x - 1)"
    then have "x mod MINUTE = 0" using boundary_step [OF assms(1)] minute_boundary assms(1) unfolding proper_def by blast
    then obtain i j where "x = MINUTE * i" "b = MINUTE * j" using assms(2) by (metis mod_0_imp_dvd dvdE)
    with that show False by (simp add: time_units)
  qed
  have "b - SECOND \<le> b - 1" by (simp add: time_units)
  from steady [where P = "in_window_at w", OF still this] show ?thesis by simp
qed

section \<open>A weekly plan always changes\<close>

lemma day_of_cases: "\<exists>k \<in> {1..7}. day_of (d + k) = x"
proof -
  have at: "day_of (d + k) = WEEKDAYS ! nat ((d + k + 719169) mod 7)" for k
    unfolding day_of_def weekday_of_ord_def EPOCH_ORD_def by (simp add: add.assoc)
  define n where "n = weekday_index WEEKDAYS x"
  have n: "n < 7" "WEEKDAYS ! n = x" unfolding n_def by (cases x; simp add: WEEKDAYS_def)+
  define k where "k = (int n - (d + 719169) - 1) mod 7 + 1"
  have k: "k \<in> {1..7}" by (simp add: k_def)
  have "(d + k + 719169) mod 7 = int n mod 7"
    using mod_add_right_eq [of "d + 719170" "int n - (d + 719169) - 1" 7] by (simp add: k_def algebra_simps)
  then have "nat ((d + k + 719169) mod 7) = n" using n(1) by simp
  then show ?thesis using n(2) k at by metis
qed

lemma both_states:
  assumes "proper w"
  obtains u v where "l < u" "l < v" "u div DAY \<le> l div DAY + 8" "v div DAY \<le> l div DAY + 8"
    "in_window_at w u" "\<not> in_window_at w v"
proof -
  define S where "S = hhmm_micros (wk_start w)"
  define E where "E = hhmm_micros (wk_end w)"
  have b: "0 \<le> S" "S < DAY" "0 \<le> E" "E < DAY" "S \<noteq> E"
    using assms micros_bound micros_less unfolding proper_def S_def E_def by (auto simp: neq_iff)
  obtain x where "x \<in> set (wk_days w)" using assms by (cases "wk_days w") (auto simp: proper_def)
  then obtain k where k: "k \<in> {1..7}" "on_day w (l div DAY + k)"
    using day_of_cases [of "l div DAY" x] by (auto simp: on_day_def)
  define d where "d = l div DAY + k"
  have parts: "(e * DAY + r) div DAY = e" "(e * DAY + r) mod DAY = r" if "0 \<le> r" "r < DAY" for e r
    using that by simp_all
  have later: "l < e * DAY + r" if "l div DAY < e" "0 \<le> r" for e r
  proof -
    have "(l div DAY + 1) * DAY \<le> e * DAY" using that by (intro mult_right_mono) (auto simp: time_units)
    moreover have "l < (l div DAY + 1) * DAY" by (simp add: time_units)
    ultimately show ?thesis using that(2) by linarith
  qed
  have on: "on_day w d" using k(2) by (simp add: d_def)
  have open_at: "in_window_at w (d * DAY + S)"
    using on b by (auto simp: in_window_at_open [OF assms] parts window_open_def simp flip: S_def E_def)
  define e where "e = (if S < E then d else d + 1)"
  have shut: "\<not> in_window_at w (e * DAY + E)"
    using b by (auto simp: in_window_at_open [OF assms] parts window_open_def e_def simp flip: S_def E_def)
  show ?thesis
  proof (rule that [OF later later _ _ open_at shut])
    show "l div DAY < d" "l div DAY < e" using k(1) by (auto simp: d_def e_def)
    show "(d * DAY + S) div DAY \<le> l div DAY + 8" "(e * DAY + E) div DAY \<le> l div DAY + 8"
      using k(1) b by (auto simp: parts d_def e_def)
  qed (use b in auto)
qed

section \<open>The next change\<close>

lemma fixed_zone_sel [simp]: "zn_offset (fixed_zone off) = (\<lambda>_. off)" "zn_wall (fixed_zone off) = (\<lambda>_ _. off)"
  by (simp_all add: fixed_zone_def)

lemma transitions_fixed: "transitions (fixed_zone off) t stop = []"
proof (induction "fixed_zone off" t stop rule: transitions.induct)
  case (1 t stop)
  then show ?case by (subst transitions.simps) simp
qed

lemma desired_differs:
  "desired (fixed_zone off) (Weekly w) u \<noteq> desired (fixed_zone off) (Weekly w) v \<longleftrightarrow>
     in_window_at w (u + off) \<noteq> in_window_at w (v + off)"
  by (auto simp: desired_def wish_of_def in_window_def Let_def)

lemma wall_candidates_fixed:
  "c \<in> set (wall_candidates (fixed_zone off) w day0) \<longleftrightarrow>
     (\<exists>i \<in> {0..9}. c + off = (day0 + i) * DAY + hhmm_micros (wk_start w) \<or> c + off = (day0 + i) * DAY + hhmm_micros (wk_end w))"
  by (auto simp: wall_candidates_def walls_def Let_def NEXT_DAYS_def algebra_simps)

lemma first_of_sorted:
  fixes xs :: "int list"
  assumes "b \<in> set xs" "\<And>x. x \<in> set xs \<Longrightarrow> b \<le> x"
  shows "(case sort xs of [] \<Rightarrow> None | c # _ \<Rightarrow> Some c) = Some b"
proof (cases "sort xs")
  case Nil
  then have "set xs = {}" by (metis set_sort set_empty)
  with assms(1) show ?thesis by simp
next
  case (Cons c cs)
  then have "set (c # cs) = set xs" "sorted (c # cs)" by (metis set_sort, metis sorted_sort)
  then have "c \<in> set xs" "\<forall>x \<in> set xs. c \<le> x" by auto
  with assms have "c = b" by (meson antisym)
  with Cons show ?thesis by simp
qed

lemma candidate_minute:
  assumes "proper w" "c \<in> set (wall_candidates (fixed_zone off) w day0)"
  shows "(c + off) mod MINUTE = 0"
proof -
  have b: "0 \<le> hhmm_micros s \<and> hhmm_micros s < DAY" if "s \<in> {wk_start w, wk_end w}" for s
    using that assms(1) micros_bound by (auto simp: proper_def)
  have r: "((day0 + i) * DAY + hhmm_micros s) mod DAY = hhmm_micros s" if "s \<in> {wk_start w, wk_end w}" for i s
    using b [OF that] by simp
  have "(c + off) mod DAY = hhmm_micros (wk_start w) \<or> (c + off) mod DAY = hhmm_micros (wk_end w)"
    using assms(2) r [of "wk_start w"] r [of "wk_end w"] unfolding wall_candidates_fixed by auto
  with assms(1) show ?thesis using minute_boundary by (auto simp: proper_def)
qed

lemma first_flip:
  assumes "proper w"
  obtains b where "l < b" "b div DAY \<le> l div DAY + 8" "in_window_at w b \<noteq> in_window_at w l"
    "in_window_at w b \<noteq> in_window_at w (b - 1)" "\<And>x. l \<le> x \<Longrightarrow> x < b \<Longrightarrow> in_window_at w x = in_window_at w l"
proof -
  obtain x where x: "l < x" "x div DAY \<le> l div DAY + 8" "in_window_at w x \<noteq> in_window_at w l"
    using both_states [OF assms, of l] by metis
  obtain b where b: "l < b" "b \<le> x" "in_window_at w b \<noteq> in_window_at w (b - 1)"
    "\<And>y. l \<le> y \<Longrightarrow> y < b \<Longrightarrow> in_window_at w y = in_window_at w l"
    using first_change [where P = "in_window_at w", OF x(3,1)] by metis
  have "b div DAY \<le> x div DAY" using b(2) by (intro zdiv_mono1) (auto simp: time_units)
  moreover have "in_window_at w b \<noteq> in_window_at w l" using b(3) b(4) [of "b - 1"] b(1) by auto
  ultimately show ?thesis using that [OF b(1) _ _ b(3,4)] x(2) by linarith
qed

lemma flip_is_candidate:
  assumes "proper w" "l < f" "f div DAY \<le> l div DAY + 8" "in_window_at w f \<noteq> in_window_at w (f - 1)"
  shows "f - off \<in> set (wall_candidates (fixed_zone off) w (l div DAY - 1))" "f \<le> l + 9 * DAY"
    "in_window_at w f \<noteq> in_window_at w (f - SECOND)"
proof -
  define day0 where "day0 = l div DAY - 1"
  have bound: "f mod DAY = hhmm_micros (wk_start w) \<or> f mod DAY = hhmm_micros (wk_end w)"
    by (rule boundary_step [OF assms(1,4)])
  then have minute: "f mod MINUTE = 0" using minute_boundary assms(1) by (auto simp: proper_def)
  then show "in_window_at w f \<noteq> in_window_at w (f - SECOND)" using assms(4) second_before [OF assms(1) minute] by simp
  have day: "l div DAY \<le> f div DAY" using assms(2) by (intro zdiv_mono1) (auto simp: time_units)
  have parts: "f = (f div DAY) * DAY + f mod DAY" by simp
  have "f - off \<in> set (wall_candidates (fixed_zone off) w day0)"
    unfolding wall_candidates_fixed
  proof (rule bexI [where x = "f div DAY - day0"])
    show "f - off + off = (day0 + (f div DAY - day0)) * DAY + hhmm_micros (wk_start w) \<or>
        f - off + off = (day0 + (f div DAY - day0)) * DAY + hhmm_micros (wk_end w)"
      using bound parts by (metis add_diff_cancel_left' diff_add_cancel diff_add_eq_diff_diff_swap add.commute)
    show "f div DAY - day0 \<in> {0..9}" using day assms(3) by (auto simp: day0_def)
  qed
  then show "f - off \<in> set (wall_candidates (fixed_zone off) w (l div DAY - 1))" by (simp only: day0_def)
  have "f < (f div DAY + 1) * DAY" by (simp add: time_units)
  also have "\<dots> \<le> (l div DAY + 9) * DAY" using assms(3) by (intro mult_right_mono) (auto simp: time_units)
  finally have "f < (l div DAY + 9) * DAY" .
  moreover have "(l div DAY) * DAY \<le> l" by (simp add: time_units)
  ultimately show "f \<le> l + 9 * DAY" by (simp add: algebra_simps)
qed

text \<open>C35. In a zone with one offset a weekly plan's next change always exists: it is the first instant after now
  at which the plan wants another state, at most nine days away, and until then the wanted state stays.\<close>

theorem next_change_first:
  assumes "proper w"
  shows "\<exists>b. next_change (fixed_zone off) (Weekly w) now = Some b \<and> now < b \<and> b \<le> now + 9 * DAY \<and>
    desired (fixed_zone off) (Weekly w) b \<noteq> desired (fixed_zone off) (Weekly w) now \<and>
    (\<forall>u. now \<le> u \<and> u < b \<longrightarrow> desired (fixed_zone off) (Weekly w) u = desired (fixed_zone off) (Weekly w) now)"
proof -
  define l where "l = now + off"
  define day0 where "day0 = l div DAY - 1"
  obtain f where f: "l < f" "f div DAY \<le> l div DAY + 8" "in_window_at w f \<noteq> in_window_at w l"
    "in_window_at w f \<noteq> in_window_at w (f - 1)" "\<And>x. l \<le> x \<Longrightarrow> x < f \<Longrightarrow> in_window_at w x = in_window_at w l"
    using first_flip [OF assms, of l] by metis
  define flips where "flips = filter (\<lambda>c. now < c \<and> c \<le> now + (NEXT_DAYS + 1) * DAY \<and>
      desired (fixed_zone off) (Weekly w) c \<noteq> desired (fixed_zone off) (Weekly w) (c - SECOND)) (wall_candidates (fixed_zone off) w day0)"
  have next_is: "next_change (fixed_zone off) (Weekly w) now = (case sort flips of [] \<Rightarrow> None | c # _ \<Rightarrow> Some c)"
    by (simp only: next_change_def plan.case fixed_zone_sel Let_def transitions_fixed append_Nil flips_def day0_def l_def)
  note cand = flip_is_candidate [OF assms f(1,2,4)]
  have near: "f - off \<le> now + 9 * DAY" using cand(2) by (simp add: l_def)
  have "f - off \<in> set flips"
    using cand(1) [of off] cand(3) near f(1) by (simp add: flips_def desired_differs NEXT_DAYS_def day0_def l_def algebra_simps)
  moreover have "f - off \<le> c" if c: "c \<in> set flips" for c
  proof (rule ccontr)
    assume "\<not> f - off \<le> c"
    then have before: "l < c + off" "c + off < f" using c by (auto simp: flips_def l_def)
    have "c \<in> set (wall_candidates (fixed_zone off) w day0)" using c by (simp add: flips_def)
    then have "(c + off) mod MINUTE = 0" by (rule candidate_minute [OF assms])
    from second_before [OF assms this] have "in_window_at w (c + off - SECOND) = in_window_at w (c + off - 1)" .
    also have "\<dots> = in_window_at w l" using before by (intro f(5)) auto
    also have "\<dots> = in_window_at w (c + off)" using before by (intro f(5) [symmetric]) auto
    finally show False using c by (simp add: flips_def desired_differs algebra_simps)
  qed
  ultimately have "next_change (fixed_zone off) (Weekly w) now = Some (f - off)"
    unfolding next_is by (rule first_of_sorted)
  moreover have "desired (fixed_zone off) (Weekly w) (f - off) \<noteq> desired (fixed_zone off) (Weekly w) now"
    using f(3) by (simp add: desired_differs l_def)
  moreover have "desired (fixed_zone off) (Weekly w) u = desired (fixed_zone off) (Weekly w) now" if "now \<le> u" "u < f - off" for u
  proof -
    have "in_window_at w (u + off) = in_window_at w l" by (rule f(5)) (use that in \<open>simp_all add: l_def\<close>)
    then show ?thesis using desired_differs [of off w u now] by (simp add: l_def)
  qed
  moreover have "now < f - off" using f(1) by (simp add: l_def)
  ultimately show ?thesis using near by blast
qed

definition example_weekly :: weekly where
  "example_weekly = \<lparr> wk_days = [Mon, Fri], wk_start = ''22:00'', wk_end = ''06:00'', wk_timezone = ''UTC+08:00'',
     wk_action = DISABLE_IN_WINDOW \<rparr>"

theorem next_change_first_witness:
  "\<exists>b. next_change (fixed_zone (480 * MINUTE)) (Weekly example_weekly) 0 = Some b \<and> 0 < b"
proof -
  have "proper example_weekly" by code_simp
  from next_change_first [OF this, of "480 * MINUTE" 0] show ?thesis by blast
qed

section \<open>Notes are taken out again\<close>

fun opens_note :: "string \<Rightarrow> bool" where
  "opens_note (a # b # cs) = (a = CHR ''['' \<and> b \<in> set NOTE_TAGS \<or> opens_note (b # cs))"
| "opens_note _ = False"

lemma dropWhile_hd_not: "dropWhile P xs = y # ys \<Longrightarrow> \<not> P y"
  by (metis hd_dropWhile list.distinct(1) list.sel(1))

lemma py_strip_ends: "py_strip s = [] \<or> \<not> py_space (last (py_strip s))"
proof (cases "dropWhile py_space (rev (dropWhile py_space s))")
  case (Cons c cs)
  then have "\<not> py_space c" by (rule dropWhile_hd_not)
  with Cons show ?thesis by (simp add: py_strip_def)
qed (simp add: py_strip_def)

lemma py_strip_fixed:
  assumes "s \<noteq> []" "\<not> py_space (hd s)" "\<not> py_space (last s)"
  shows "py_strip s = s"
proof -
  have "dropWhile py_space s = s" using assms by (cases s) auto
  moreover have "dropWhile py_space (rev s) = rev s" using assms by (cases s rule: rev_cases) auto
  ultimately show ?thesis by (simp add: py_strip_def)
qed

lemma py_strip_hd: "py_strip s \<noteq> [] \<Longrightarrow> \<not> py_space (hd (py_strip s))"
proof -
  assume ne: "py_strip s \<noteq> []"
  define t where "t = dropWhile py_space s"
  have "t \<noteq> []" using ne unfolding py_strip_def t_def [symmetric] by (intro notI) simp
  then obtain c cs where t: "t = c # cs" by (cases t) auto
  then have c: "\<not> py_space c" using dropWhile_hd_not [of py_space s] by (simp add: t_def)
  have "dropWhile py_space (rev cs @ [c]) = dropWhile py_space (rev cs) @ [c]"
    using c by (induction "rev cs") (auto simp: dropWhile_append)
  then have "py_strip s = c # rev (dropWhile py_space (rev cs))" by (simp add: py_strip_def t t_def [symmetric])
  with c show ?thesis by simp
qed

lemma py_strip_idem: "py_strip (py_strip s) = py_strip s"
  using py_strip_fixed [of "py_strip s"] py_strip_hd [of s] py_strip_ends [of s]
  by (cases "py_strip s = []") (simp, simp add: py_strip_def, simp only: simp_thms)

lemma opens_note_dropWhile: "opens_note (dropWhile P s) \<Longrightarrow> opens_note s"
proof (induction s)
  case (Cons c cs)
  then show ?case by (cases cs) (auto split: if_splits)
qed simp

lemma after_note_end:
  assumes "CHR '']'' \<notin> set body" "tag \<in> set NOTE_TAGS"
  shows "after_note (CHR ''['' # tag # body @ '']'') = Some []"
    "after_note (char_of (10 :: nat) # CHR ''['' # tag # body @ '']'') = Some []"
proof -
  have sp: "\<not> py_space CHR ''[''" "py_space (char_of (10 :: nat))" by code_simp+
  have "dropWhile (\<lambda>c. c \<noteq> CHR '']'') (body @ '']'') = '']''" using assms(1) by (induction body) auto
  then show "after_note (CHR ''['' # tag # body @ '']'') = Some []"
    "after_note (char_of (10 :: nat) # CHR ''['' # tag # body @ '']'') = Some []"
    using sp assms(2) by (simp_all add: after_note_def)
qed

lemma after_note_kept:
  assumes "s \<noteq> []" "\<not> py_space (last s)" "\<not> opens_note s"
  shows "after_note (s @ char_of (10 :: nat) # rest) = None"
proof -
  obtain a t where t: "dropWhile py_space s = a # t" using assms(1,2)
    by (metis dropWhile_eq_Nil_conv last_in_set list.exhaust)
  have open_free: "\<not> opens_note (a # t)" using opens_note_dropWhile [of py_space s] assms(3) t by auto
  have d: "dropWhile py_space (s @ char_of (10 :: nat) # rest) = a # t @ char_of (10 :: nat) # rest"
    using t by (metis append_Cons dropWhile_append1 dropWhile_eq_Nil_conv list.distinct(1) t)
  have nl: "char_of (10 :: nat) \<notin> set NOTE_TAGS" by code_simp
  show ?thesis
    using open_free nl by (cases t) (auto simp: after_note_def d)
qed

lemma remove_notes_kept:
  assumes "s = [] \<or> \<not> py_space (last s)" "\<not> opens_note s" "after_note (char_of (10 :: nat) # rest) = Some []"
  shows "remove_notes (s @ char_of (10 :: nat) # rest) = s"
  using assms(1,2)
proof (induction s)
  case Nil
  then show ?case by (subst remove_notes.simps, simp add: assms(3), subst remove_notes.simps) (simp add: after_note_def)
next
  case (Cons c cs)
  have "remove_notes ((c # cs) @ char_of (10 :: nat) # rest) = c # remove_notes (cs @ char_of (10 :: nat) # rest)"
    using after_note_kept [of "c # cs" rest] Cons.prems by (subst remove_notes.simps) simp
  moreover have "cs = [] \<or> \<not> py_space (last cs)" "\<not> opens_note cs"
    using Cons.prems by (cases cs; auto)+
  ultimately show ?case using Cons.IH by simp
qed

text \<open>C36. Writing a plan's note into a description and stripping the notes gives the description without notes, and
  a later note replaces it: whatever plan follows, only its own note is there (given that what the description
  keeps does not itself open a note and the plan's texts hold no closing bracket).\<close>

theorem note_roundtrip:
  assumes "\<not> opens_note (strip_notes d)" "CHR '']'' \<notin> set (note_body tz p)"
  shows "strip_notes (with_note tz d p) = strip_notes d \<and> with_note tz' (with_note tz d p) q = with_note tz' d q"
proof -
  define kept where "kept = strip_notes d"
  have kept: "kept = [] \<or> \<not> py_space (last kept)" "py_strip kept = kept"
    using py_strip_ends py_strip_idem by (auto simp: kept_def strip_notes_def)
  have tag: "note_tag p \<in> set NOTE_TAGS" by (auto simp: note_tag_def NOTE_TAGS_def split: plan.split)
  note whole = after_note_end [OF assms(2) tag]
  have "strip_notes (with_note tz d p) = kept"
  proof (cases "kept = []")
    case True
    then have "with_note tz d p = note_of tz p" by (simp add: with_note_def kept_def [symmetric])
    moreover have "remove_notes (note_of tz p) = []"
      unfolding note_of_def append_Cons
      by (subst remove_notes.simps, simp add: whole(1), subst remove_notes.simps) (simp add: after_note_def)
    ultimately show ?thesis using True by (simp add: strip_notes_def py_strip_def)
  next
    case False
    then have "with_note tz d p = kept @ char_of (10 :: nat) # note_of tz p" by (simp add: with_note_def kept_def [symmetric])
    moreover have "remove_notes (kept @ char_of (10 :: nat) # note_of tz p) = kept"
      by (rule remove_notes_kept) (use kept assms(1) whole(2) in \<open>auto simp: kept_def note_of_def\<close>)
    ultimately show ?thesis using kept(2) by (simp add: strip_notes_def)
  qed
  then show ?thesis by (simp add: kept_def with_note_def)
qed

theorem note_roundtrip_witness:
  "strip_notes (with_note (fixed_zone 0) (''web servers'' @ note_of (fixed_zone 0) (Expiry 0 ''UTC'')) (Weekly example_weekly)) = ''web servers''"
proof -
  let ?d = "''web servers'' @ note_of (fixed_zone 0) (Expiry 0 ''UTC'')"
  have "strip_notes ?d = ''web servers''" by code_simp
  moreover have "\<not> opens_note ''web servers''" by code_simp
  moreover have "CHR '']'' \<notin> set (note_body (fixed_zone 0) (Weekly example_weekly))" by code_simp
  ultimately show ?thesis using note_roundtrip [of ?d "fixed_zone 0" "Weekly example_weekly"] by simp
qed

text \<open>The time pattern ends in \<open>$\<close>, which also matches before a final line feed: such a start time is accepted,
  sorts after its minute, and the window opens a minute late.\<close>

lemma newline_time_accepted:
  "hhmm_ok (''18:00'' @ [char_of (10 :: nat)]) \<and>
   \<not> in_window_at (example_weekly \<lparr> wk_days := WEEKDAYS, wk_start := ''18:00'' @ [char_of (10 :: nat)], wk_end := ''19:00'' \<rparr>)
     (18 * HOUR + 30 * SECOND) \<and>
   in_window_at (example_weekly \<lparr> wk_days := WEEKDAYS, wk_start := ''18:00'', wk_end := ''19:00'' \<rparr>) (18 * HOUR + 30 * SECOND)"
  by code_simp

end
