(* ===== verification/Segment.thy ===== *)
theory Segment
  imports FilterSql
begin

text \<open>
  \<open>domain/segment.py\<close>: analysis segments (a filter, at most two grouping dimensions, a metric and a view), the
  checks their models make, and the SQL text and parameters the two rankings compile to. Errors pydantic collects
  are the first one met.
\<close>

section \<open>Sequences of fallible steps\<close>

fun traverse :: "('a \<Rightarrow> 'e + 'b) \<Rightarrow> 'a list \<Rightarrow> 'e + 'b list" where
  "traverse f [] = Inr []"
| "traverse f (x # xs) =
     (case f x of Inl e \<Rightarrow> Inl e
      | Inr y \<Rightarrow> (case traverse f xs of Inl e \<Rightarrow> Inl e | Inr ys \<Rightarrow> Inr (y # ys)))"

lemma traverse_map: "traverse f xs = Inr ys \<Longrightarrow> map f xs = map Inr ys"
  by (induction xs arbitrary: ys) (auto split: sum.splits)

lemma map_traverse: "map f xs = map Inr ys \<Longrightarrow> traverse f xs = Inr ys"
  by (induction xs arbitrary: ys) (auto simp: Cons_eq_map_conv split: sum.splits)

lemma traverse_Inr: "traverse f xs = Inr ys \<longleftrightarrow> map f xs = map Inr ys"
  by (blast intro: traverse_map map_traverse)

lemma traverse_mem: "traverse f xs = Inr ys \<Longrightarrow> y \<in> set ys \<longleftrightarrow> (\<exists>x \<in> set xs. f x = Inr y)"
  by (induction xs arbitrary: ys) (auto split: sum.splits)

lemma traverse_append:
  "traverse f (xs @ ys) =
     (case traverse f xs of Inl e \<Rightarrow> Inl e
      | Inr us \<Rightarrow> (case traverse f ys of Inl e \<Rightarrow> Inl e | Inr vs \<Rightarrow> Inr (us @ vs)))"
  by (induction xs) (auto split: sum.splits)

section \<open>Segments\<close>

definition FLOW_DIMENSIONS :: "segment_dimension list" where
  "FLOW_DIMENSIONS = [SD_SRC_HOST, SD_DST_HOST, SD_SRC_LABEL, SD_DST_LABEL, SD_SERVICE, SD_INITIATOR_PROCESS,
     SD_INITIATOR_USER, SD_SERVICE_PROCESS, SD_SERVICE_USER, SD_DECISION, SD_DIRECTION]"

definition EVENT_DIMENSIONS :: "segment_dimension list" where
  "EVENT_DIMENSIONS = [SD_EVENT_TYPE, SD_EVENT_HOST, SD_EVENT_SEVERITY, SD_ACTOR]"

definition LABEL_DIMENSIONS :: "segment_dimension list" where
  "LABEL_DIMENSIONS = [SD_SRC_LABEL, SD_DST_LABEL]"

record grouping =
  gb_dimension :: segment_dimension
  gb_label_key :: "string option"

definition grouping_ok :: "grouping \<Rightarrow> bool" where
  "grouping_ok g \<longleftrightarrow> gb_label_key g \<noteq> Some '''' \<and> ((gb_dimension g \<in> set LABEL_DIMENSIONS) = (gb_label_key g \<noteq> None))"

definition check_shape :: "segment_view \<Rightarrow> grouping list \<Rightarrow> segment_dimension list \<Rightarrow> filter_error option" where
  "check_shape view groups allowed =
     (if view = SV_RANKING \<and> groups = [] then Some (ValueError ''a ranking groups by at least one dimension'')
      else if view \<noteq> SV_RANKING \<and> groups \<noteq> [] then Some (ValueError ''only a ranking is grouped'')
      else if list_ex (\<lambda>g. gb_dimension g \<notin> set allowed) groups
        then Some (ValueError ''a dimension of the other data source'')
      else None)"

record flow_segment =
  sg_filter :: filter_spec
  sg_group_by :: "grouping list"
  sg_metric :: segment_metric
  sg_view :: segment_view
  sg_limit :: int

definition fields_ok :: "grouping list \<Rightarrow> int \<Rightarrow> bool" where
  "fields_ok groups limit \<longleftrightarrow> length groups \<le> 2 \<and> list_all grouping_ok groups \<and> 1 \<le> limit \<and> limit \<le> 1000"

definition flow_segment_of :: "flow_segment \<Rightarrow> filter_error + flow_segment" where
  "flow_segment_of seg =
     (if \<not> fields_ok (sg_group_by seg) (sg_limit seg) then Inl (ValueError ''out of range'')
      else case check_shape (sg_view seg) (sg_group_by seg) FLOW_DIMENSIONS of
        Some e \<Rightarrow> Inl e
      | None \<Rightarrow> (if sg_metric seg = SM_EVENTS then Inl (ValueError ''events is the metric of event segments'') else Inr seg))"

record event_filter =
  ef_start :: time
  ef_end :: time
  ef_event_types :: "string list"
  ef_severities :: "string list"
  ef_host_hrefs :: "string list"
  ef_actor :: "string option"
  ef_actors :: "string list"

definition event_filter_of :: "event_filter \<Rightarrow> filter_error + event_filter" where
  "event_filter_of f =
     (if ef_actor f = Some '''' then Inl (ValueError ''too short'')
      else if ef_end f \<le> ef_start f then Inl (ValueError ''end must be after start'') else Inr f)"

record event_segment =
  es_filter :: event_filter
  es_group_by :: "grouping list"
  es_metric :: segment_metric
  es_view :: segment_view
  es_limit :: int

definition event_segment_of :: "event_segment \<Rightarrow> filter_error + event_segment" where
  "event_segment_of seg =
     (if \<not> fields_ok (es_group_by seg) (es_limit seg) then Inl (ValueError ''out of range'')
      else if es_view seg = SV_PREDICTED_BLOCK then Inl (ValueError ''events have no predicted-block view'')
      else if es_metric seg \<noteq> SM_EVENTS then Inl (ValueError ''an event segment counts events'')
      else case check_shape (es_view seg) (es_group_by seg) EVENT_DIMENSIONS of Some e \<Rightarrow> Inl e | None \<Rightarrow> Inr seg)"

text \<open>A filter built from its fields: the endpoints' addresses, the ports, then the window.\<close>

definition filter_spec_of :: "flow_condition \<Rightarrow> time \<Rightarrow> time \<Rightarrow> filter_error + filter_spec" where
  "filter_spec_of c start stop =
     (if \<not> list_all ips_valid (endpoints c) then Inl (ValueError ''not an IP address or network'')
      else case traverse port_proto_shape (fc_ports c @ fc_exclude_ports c) of
        Inl e \<Rightarrow> Inl e
      | Inr _ \<Rightarrow> spec_within c start stop)"

definition detail_segment :: "flow_condition \<Rightarrow> time \<Rightarrow> time \<Rightarrow> filter_error + flow_segment" where
  "detail_segment c start stop =
     (case filter_spec_of c start stop of
        Inl e \<Rightarrow> Inl e
      | Inr spec \<Rightarrow> flow_segment_of \<lparr> sg_filter = spec, sg_group_by = [], sg_metric = SM_FLOWS, sg_view = SV_DETAIL, sg_limit = 200 \<rparr>)"

section \<open>Flow rankings\<close>

definition quoted :: "string \<Rightarrow> string" where
  "quoted s = [CHR 39] @ s @ [CHR 39]"

fun FLOW_COLUMNS :: "segment_dimension \<Rightarrow> string option" where
  "FLOW_COLUMNS SD_SRC_HOST = Some ''f.src_key''"
| "FLOW_COLUMNS SD_DST_HOST = Some ''f.dst_key''"
| "FLOW_COLUMNS SD_SERVICE = Some (''COALESCE(f.port, -1) || '' @ quoted ''/'' @ '' || f.proto'')"
| "FLOW_COLUMNS SD_INITIATOR_PROCESS = Some ''f.initiator_process''"
| "FLOW_COLUMNS SD_INITIATOR_USER = Some (user_sql ''f.initiator_user'')"
| "FLOW_COLUMNS SD_SERVICE_PROCESS = Some ''f.service_process''"
| "FLOW_COLUMNS SD_SERVICE_USER = Some (user_sql ''f.service_user'')"
| "FLOW_COLUMNS SD_DECISION = Some ''f.policy_decision''"
| "FLOW_COLUMNS SD_DIRECTION = Some ''f.direction''"
| "FLOW_COLUMNS _ = None"

definition HOST_DISPLAY :: "segment_dimension \<Rightarrow> string" where
  "HOST_DISPLAY d =
     (if d = SD_SRC_HOST then ''MAX(f.src_hostname)'' else if d = SD_DST_HOST then ''MAX(f.dst_hostname)'' else ''NULL'')"

fun METRICS :: "segment_metric \<Rightarrow> string option" where
  "METRICS SM_FLOWS = Some ''COUNT(*)''"
| "METRICS SM_CONNECTIONS = Some ''SUM(f.num_connections)''"
| "METRICS SM_DISTINCT_DST = Some ''COUNT(DISTINCT f.dst_key)''"
| "METRICS SM_DISTINCT_SRC = Some ''COUNT(DISTINCT f.src_key)''"
| "METRICS SM_DISTINCT_PORTS = Some (''COUNT(DISTINCT COALESCE(f.port, -1) || '' @ quoted ''/'' @ '' || f.proto)'')"
| "METRICS SM_BYTES = Some ''SUM(COALESCE(f.bytes_in, 0) + COALESCE(f.bytes_out, 0))''"
| "METRICS SM_EVENTS = None"

text \<open>One grouping: its join, its join's parameters and its column. \<open>None\<close>: the dimension is no key of
  \<open>_FLOW_COLUMNS\<close> (a \<open>KeyError\<close>; checked segments have none).\<close>

definition flow_group :: "nat \<Rightarrow> grouping \<Rightarrow> (string list \<times> sparam list \<times> string) option" where
  "flow_group i g =
     (if gb_dimension g \<in> set LABEL_DIMENSIONS then
        (let sd = (if gb_dimension g = SD_SRC_LABEL then ''src'' else ''dst''); l = ''l'' @ dec_str (int i)
         in Some ([''LEFT JOIN label_set_members '' @ l @ '' ON '' @ l @ ''.set_id = f.'' @ sd @ ''_label_set AND '' @ l @ ''.key = ?''],
                  [case gb_label_key g of Some k \<Rightarrow> PText k | None \<Rightarrow> PNull], l @ ''.value''))
      else map_option (\<lambda>column. ([], [], column)) (FLOW_COLUMNS (gb_dimension g)))"

definition flow_groups :: "grouping list \<Rightarrow> (string list \<times> sparam list \<times> string) list option" where
  "flow_groups gs = those (map (\<lambda>(i, g). flow_group i g) (enumerate 0 gs))"

definition select_item :: "string \<Rightarrow> string \<Rightarrow> nat \<Rightarrow> string list" where
  "select_item column display i = [column @ '' AS k'' @ dec_str (int i), display @ '' AS d'' @ dec_str (int i)]"

definition compile_flow_ranking :: "flow_segment \<Rightarrow> bool \<Rightarrow> (string \<times> sparam list) option" where
  "compile_flow_ranking seg wide =
     (case (flow_groups (sg_group_by seg), METRICS (sg_metric seg)) of
        (Some gs, Some metric) \<Rightarrow>
          (let joins = concat (map fst gs);
               params = concat (map (\<lambda>g. fst (snd g)) gs);
               keys = map (\<lambda>g. snd (snd g)) gs;
               select = concat (map (\<lambda>(i, column, g). select_item column (HOST_DISPLAY (gb_dimension g)) i)
                          (enumerate 0 (zip keys (sg_group_by seg))));
               (where, where_params) = to_sql_text ''f'' wide (sg_filter seg);
               bytes_known = (if sg_metric seg = SM_BYTES then ''COUNT(f.bytes_in)'' else ''NULL'')
           in Some (''SELECT '' @ py_join '', '' select @ '', '' @ metric @ '' AS value, '' @ bytes_known @ '' AS bytes_known '' @
                    ''FROM flows f '' @ py_join '' '' joins @ '' WHERE '' @ where @ '' GROUP BY '' @ py_join '', '' keys @
                    '' ORDER BY value DESC, '' @ py_join '', '' keys @ '' LIMIT ?'',
                    params @ where_params @ [PInt (sg_limit seg + 1)]))
      | _ \<Rightarrow> None)"

section \<open>Event rankings\<close>

fun EVENT_COLUMNS :: "segment_dimension \<Rightarrow> string option" where
  "EVENT_COLUMNS SD_EVENT_TYPE = Some ''e.event_type''"
| "EVENT_COLUMNS SD_EVENT_HOST =
     Some (''COALESCE(e.workload_href, w.href, CASE WHEN e.created_by_kind = '' @ quoted ''ven'' @ '' THEN e.created_by_href END)'')"
| "EVENT_COLUMNS SD_EVENT_SEVERITY = Some ''e.severity''"
| "EVENT_COLUMNS SD_ACTOR = Some ''e.created_by_name''"
| "EVENT_COLUMNS _ = None"

definition EVENT_FROM :: string where
  "EVENT_FROM = ''FROM events e LEFT JOIN workloads w ON w.ven_href = e.created_by_href''"

definition column_in :: "string \<Rightarrow> string list \<Rightarrow> (string \<times> sparam list) list" where
  "column_in column vals = (if vals = [] then [] else [(column @ '' IN ('' @ marks vals @ '')'', map PText vals)])"

definition event_clauses :: "event_filter \<Rightarrow> (string \<times> sparam list) list" where
  "event_clauses f =
     [(''e.timestamp >= ?'', [PText (store_time (ef_start f))]), (''e.timestamp <= ?'', [PText (store_time (ef_end f))])] @
     column_in ''e.event_type'' (ef_event_types f) @ column_in ''e.severity'' (ef_severities f) @
     (if ef_host_hrefs f = [] then []
      else let m = marks (ef_host_hrefs f); hs = map PText (ef_host_hrefs f)
           in [(''(e.workload_href IN ('' @ m @ '') OR w.href IN ('' @ m @ '') OR (e.created_by_kind = '' @ quoted ''ven'' @
                '' AND e.created_by_href IN ('' @ m @ '')))'', hs @ hs @ hs)]) @
     (if truthy_str (ef_actor f)
      then [(''e.created_by_name'' @ escape_clause, [PText (like_pattern (or_empty (ef_actor f)))])] else []) @
     column_in ''e.created_by_name'' (ef_actors f)"

definition compile_event_where :: "event_filter \<Rightarrow> string \<times> sparam list" where
  "compile_event_where f = (py_join '' AND '' (map fst (event_clauses f)), concat (map snd (event_clauses f)))"

definition EVENT_HOST_SHOWN :: string where
  "EVENT_HOST_SHOWN =
     ''COALESCE(MAX(w.hostname), MAX(CASE WHEN e.created_by_kind = '' @ quoted ''ven'' @ '' THEN e.created_by_name END))''"

definition compile_event_ranking :: "event_segment \<Rightarrow> (string \<times> sparam list) option" where
  "compile_event_ranking seg =
     (case those (map (\<lambda>g. EVENT_COLUMNS (gb_dimension g)) (es_group_by seg)) of
        None \<Rightarrow> None
      | Some keys \<Rightarrow>
          (let select = map (\<lambda>(i, k, g). k @ '' AS k'' @ dec_str (int i) @ '', '' @
                          (if gb_dimension g = SD_EVENT_HOST then EVENT_HOST_SHOWN else ''NULL'') @ '' AS d'' @ dec_str (int i))
                        (enumerate 0 (zip keys (es_group_by seg)));
               (where, params) = compile_event_where (es_filter seg)
           in Some (''SELECT '' @ py_join '', '' select @ '', COUNT(*) AS value, NULL AS bytes_known '' @ EVENT_FROM @ '' WHERE '' @
                    where @ '' GROUP BY '' @ py_join '', '' keys @ '' ORDER BY value DESC, '' @ py_join '', '' keys @ '' LIMIT ?'',
                    params @ [PInt (es_limit seg + 1)])))"

section \<open>The default rankings of the lateral-movement page\<close>

definition default_ranking ::
  "port_proto list \<Rightarrow> time \<Rightarrow> time \<Rightarrow> segment_dimension \<Rightarrow> bool \<Rightarrow> filter_error + flow_segment" where
  "default_ranking ports start stop dim exclude_system =
     (case filter_spec_of (any_flow \<lparr> fc_ports := ports, fc_exclude_system_accounts := exclude_system \<rparr>) start stop of
        Inl e \<Rightarrow> Inl e
      | Inr spec \<Rightarrow>
          flow_segment_of \<lparr> sg_filter = spec, sg_group_by = [\<lparr> gb_dimension = dim, gb_label_key = None \<rparr>],
            sg_metric = SM_DISTINCT_DST, sg_view = SV_RANKING, sg_limit = 50 \<rparr>)"

definition lateral_default_segments ::
  "port_proto list \<Rightarrow> time \<Rightarrow> time \<Rightarrow> filter_error + (string \<times> flow_segment) list" where
  "lateral_default_segments ports start stop =
     traverse (\<lambda>(name, dim, ex). map_sum id (Pair name) (default_ranking ports start stop dim ex))
       [(''admin_initiator_users'', SD_INITIATOR_USER, True), (''admin_initiator_processes'', SD_INITIATOR_PROCESS, False),
        (''system_accounts_on_admin'', SD_INITIATOR_USER, False)]"

section \<open>Placeholders and parameters\<close>

definition qmarks :: "string \<Rightarrow> nat" where
  "qmarks s = length (filter (\<lambda>c. c = CHR ''?'') s)"

lemma qmarks_simps [simp]:
  "qmarks [] = 0" "qmarks (c # s) = (if c = CHR ''?'' then Suc (qmarks s) else qmarks s)"
  "qmarks (s @ t) = qmarks s + qmarks t"
  by (simp_all add: qmarks_def)

lemma qmarks_join: "qmarks sep = 0 \<Longrightarrow> qmarks (py_join sep xs) = sum_list (map qmarks xs)"
  by (induction sep xs rule: py_join.induct) auto

lemma qmarks_marks: "qmarks (marks xs) = length xs"
  by (simp add: marks_def qmarks_join comp_def sum_list_triv)

lemma qmarks_dec [simp]: "qmarks (dec_str (int n)) = 0"
proof -
  have "c \<noteq> CHR ''?''" if "c \<in> set (dec_str (int n))" for c
    using that dec_str_digits [of "int n"] by (auto simp: is_digit_def)
  then show ?thesis by (simp add: qmarks_def)
qed

lemma qmarks_names [simp]: "qmarks (side_name sd) = 0" "qmarks (col_name c) = 0"
  by (cases sd; simp) (cases c; simp)

lemma qmarks_render_exp: "qmarks a = 0 \<Longrightarrow> qmarks (render_exp a e) = 0"
  by (cases e) (simp_all add: text_column_def user_sql_def)

lemma qmarks_each: "qmarks (concat (map (\<lambda>_. t) xs)) = qmarks t * length xs"
  by (induction xs) simp_all

lemma qmarks_groups:
  "qmarks a = 0 \<Longrightarrow> qmarks (render_groups a sd groups pairs cond_keys) = 3 * length groups + 2 * length pairs + length cond_keys"
  by (simp add: render_groups_def Let_def qmarks_marks qmarks_each side_col_def)

lemma length_concat_pairs: "length (concat (map (\<lambda>(k, v). [PText k, PText v]) ps)) = 2 * length ps"
  by (induction ps) auto

lemma sum_same: "(\<And>x. x \<in> set xs \<Longrightarrow> f x = g x) \<Longrightarrow> sum_list (map f xs) = (sum_list (map g xs) :: nat)"
  by (induction xs) auto

lemma render_placeholders: "qmarks a = 0 \<Longrightarrow> qmarks (fst (render a c)) = length (snd (render a c))"
proof (induction a c rule: render.induct)
  case (5 a sd k vs)
  then show ?case by (simp add: side_col_def qmarks_marks)
next
  case (6 a sd groups pairs cond_keys)
  then show ?case by (simp add: qmarks_groups length_concat_pairs)
next
  case (20 a cs)
  then show ?case by (auto simp: qmarks_join comp_def length_concat intro: sum_same)
next
  case (21 a cs)
  then show ?case by (auto simp: qmarks_join comp_def length_concat intro: sum_same)
qed (simp_all add: side_col_def qmarks_marks qmarks_render_exp text_column_def escape_clause_def)

lemma to_sql_placeholders:
  "to_sql_text a wide spec = (sql, params) \<Longrightarrow> qmarks a = 0 \<Longrightarrow> qmarks sql = length params"
  by (auto simp: to_sql_text_def qmarks_join comp_def length_concat render_placeholders)

lemma qmarks_flow_column: "FLOW_COLUMNS d = Some c \<Longrightarrow> qmarks c = 0"
  by (cases d) (auto simp: user_sql_def quoted_def)

lemma qmarks_metric: "METRICS m = Some c \<Longrightarrow> qmarks c = 0"
  by (cases m) (auto simp: quoted_def)

lemma qmarks_event_column: "EVENT_COLUMNS d = Some c \<Longrightarrow> qmarks c = 0"
  by (cases d) (auto simp: quoted_def)

lemma qmarks_shown [simp]: "qmarks (HOST_DISPLAY d) = 0" "qmarks EVENT_HOST_SHOWN = 0"
  by (simp_all add: HOST_DISPLAY_def EVENT_HOST_SHOWN_def quoted_def)

lemmas qmarks_columns = qmarks_flow_column qmarks_metric qmarks_event_column

lemma those_Some: "those xs = Some ys \<longleftrightarrow> xs = map Some ys"
  by (induction xs arbitrary: ys) (auto split: option.splits simp: Cons_eq_map_conv)

lemma flow_group_placeholders:
  "flow_group i g = Some (joins, ps, column) \<Longrightarrow> qmarks (py_join '' '' joins) = length ps \<and> length joins \<le> 1 \<and> qmarks column = 0"
  by (auto simp: flow_group_def Let_def qmarks_columns split: if_split_asm)

lemma sum_zero: "(\<And>x. x \<in> set xs \<Longrightarrow> qmarks x = 0) \<Longrightarrow> sum_list (map qmarks xs) = 0"
  by (induction xs) auto

lemma flow_groups_placeholders:
  assumes "flow_groups gs = Some xs"
  shows "sum_list (map qmarks (concat (map fst xs))) = length (concat (map (\<lambda>g. fst (snd g)) xs)) \<and>
         (\<forall>x \<in> set xs. qmarks (snd (snd x)) = 0)"
proof -
  have "\<exists>i g. flow_group i g = Some x" if "x \<in> set xs" for x
  proof -
    have "Some x \<in> set (map (\<lambda>(i, g). flow_group i g) (enumerate 0 gs))"
      using that assms by (simp add: flow_groups_def those_Some)
    then obtain i g where "Some x = flow_group i g" by auto
    then have "flow_group i g = Some x" by simp
    then show ?thesis by blast
  qed
  then have one: "sum_list (map qmarks (fst x)) = length (fst (snd x)) \<and> qmarks (snd (snd x)) = 0" if "x \<in> set xs" for x
    using that flow_group_placeholders by (cases x) (fastforce simp: qmarks_join)
  have "sum_list (map qmarks (concat (map fst xs))) = sum_list (map (\<lambda>x. sum_list (map qmarks (fst x))) xs)"
    by (induction xs) auto
  also have "\<dots> = length (concat (map (\<lambda>g. fst (snd g)) xs))"
    unfolding length_concat map_map comp_def by (rule sum_same) (use one in auto)
  finally show ?thesis using one by blast
qed

lemma enumerate_zip_mem: "(i, k, g) \<in> set (enumerate n (zip ks gs)) \<Longrightarrow> k \<in> set ks"
proof -
  assume "(i, k, g) \<in> set (enumerate n (zip ks gs))"
  then have "snd (i, k, g) \<in> set (map snd (enumerate n (zip ks gs)))" unfolding set_map by (rule imageI)
  then have "(k, g) \<in> set (zip ks gs)" by simp
  then show ?thesis by (rule set_zip_leftD)
qed

lemma select_placeholders:
  "(\<And>k. k \<in> set keys \<Longrightarrow> qmarks k = 0) \<Longrightarrow>
   x \<in> set (concat (map (\<lambda>(i, column, g). select_item column (HOST_DISPLAY (gb_dimension g)) i) (enumerate n (zip keys gs)))) \<Longrightarrow>
   qmarks x = 0"
  by (auto simp: select_item_def dest: enumerate_zip_mem)

lemma flow_ranking_placeholders:
  assumes "compile_flow_ranking seg wide = Some (sql, params)"
  shows "qmarks sql = length params"
proof -
  from assms obtain gs metric where gs: "flow_groups (sg_group_by seg) = Some gs" "METRICS (sg_metric seg) = Some metric"
    by (auto simp: compile_flow_ranking_def split: option.splits)
  obtain wh wp where w: "to_sql_text ''f'' wide (sg_filter seg) = (wh, wp)" by fastforce
  note keys = flow_groups_placeholders [OF gs(1)]
  let ?keys = "map (\<lambda>g. snd (snd g)) gs"
  have k0: "sum_list (map qmarks ?keys) = 0" by (rule sum_zero) (use keys in auto)
  have s0: "sum_list (map qmarks (concat (map (\<lambda>(i, column, g). select_item column (HOST_DISPLAY (gb_dimension g)) i)
      (enumerate 0 (zip ?keys (sg_group_by seg)))))) = 0"
    by (rule sum_zero, rule select_placeholders [of ?keys _ 0 "sg_group_by seg"]) (use keys in auto)
  show ?thesis
    using assms gs w keys k0 s0 to_sql_placeholders [OF w] qmarks_metric [OF gs(2)]
    by (auto simp: compile_flow_ranking_def Let_def qmarks_join split: if_split_asm)
qed

lemma event_where_placeholders: "compile_event_where f = (sql, params) \<Longrightarrow> qmarks sql = length params"
proof -
  assume a: "compile_event_where f = (sql, params)"
  have "qmarks (fst c) = length (snd c)" if "c \<in> set (event_clauses f)" for c
    using that by (auto simp: event_clauses_def column_in_def qmarks_marks Let_def quoted_def escape_clause_def split: if_split_asm)
  then have "sum_list (map qmarks (map fst (event_clauses f))) = length (concat (map snd (event_clauses f)))"
    unfolding length_concat by (auto simp: comp_def intro: sum_same)
  then show ?thesis using a by (auto simp: compile_event_where_def qmarks_join)
qed

lemma event_ranking_placeholders:
  assumes "compile_event_ranking seg = Some (sql, params)"
  shows "qmarks sql = length params"
proof -
  from assms obtain keys where keys: "map (\<lambda>g. EVENT_COLUMNS (gb_dimension g)) (es_group_by seg) = map Some keys"
    by (auto simp: compile_event_ranking_def those_Some split: option.splits)
  obtain wh wp where w: "compile_event_where (es_filter seg) = (wh, wp)" by fastforce
  have k: "qmarks k = 0" if "k \<in> set keys" for k
  proof -
    have "Some k \<in> set (map (\<lambda>g. EVENT_COLUMNS (gb_dimension g)) (es_group_by seg))" using that keys by simp
    then show ?thesis using qmarks_event_column by fastforce
  qed
  have k0: "sum_list (map qmarks keys) = 0" by (rule sum_zero) (rule k)
  let ?item = "\<lambda>(i, k, g). k @ '' AS k'' @ dec_str (int i) @ '', '' @
     (if gb_dimension g = SD_EVENT_HOST then EVENT_HOST_SHOWN else ''NULL'') @ '' AS d'' @ dec_str (int i)"
  have s0: "sum_list (map qmarks (map ?item (enumerate 0 (zip keys (es_group_by seg))))) = 0"
  proof (rule sum_zero)
    fix x assume "x \<in> set (map ?item (enumerate 0 (zip keys (es_group_by seg))))"
    then obtain i k' g where "(i, k', g) \<in> set (enumerate 0 (zip keys (es_group_by seg)))" and x: "x = ?item (i, k', g)" by auto
    then have "k' \<in> set keys" by (auto dest: enumerate_zip_mem)
    then show "qmarks x = 0" using k by (auto simp: x)
  qed
  show ?thesis
    using assms keys w k0 s0 event_where_placeholders [OF w]
    by (auto simp: compile_event_ranking_def those_Some Let_def qmarks_join EVENT_FROM_def split: option.splits)
qed

lemma those_total: "(\<And>x. x \<in> set xs \<Longrightarrow> f x \<noteq> None) \<Longrightarrow> those (map f xs) \<noteq> None"
  by (induction xs) (auto split: option.splits)

lemma flow_ranking_total: "flow_segment_of s = Inr seg \<Longrightarrow> compile_flow_ranking seg wide \<noteq> None"
proof -
  assume a: "flow_segment_of s = Inr seg"
  then have s: "s = seg" and m: "METRICS (sg_metric seg) \<noteq> None" 
    and dims: "\<forall>g \<in> set (sg_group_by seg). gb_dimension g \<in> set FLOW_DIMENSIONS"
    by (auto simp: flow_segment_of_def check_shape_def list_ex_iff split: if_split_asm option.splits) (cases "sg_metric seg"; simp)+
  have "flow_group i g \<noteq> None" if "g \<in> set (sg_group_by seg)" for i g
    using dims that by (auto simp: flow_group_def Let_def FLOW_DIMENSIONS_def LABEL_DIMENSIONS_def)
  then have "flow_groups (sg_group_by seg) \<noteq> None"
    unfolding flow_groups_def by (intro those_total) (auto simp: in_set_enumerate_eq)
  then show ?thesis using m by (auto simp: compile_flow_ranking_def Let_def split: option.splits prod.splits)
qed

lemma event_ranking_total: "event_segment_of s = Inr seg \<Longrightarrow> compile_event_ranking seg \<noteq> None"
proof -
  assume a: "event_segment_of s = Inr seg"
  then have dims: "\<forall>g \<in> set (es_group_by seg). gb_dimension g \<in> set EVENT_DIMENSIONS"
    by (auto simp: event_segment_of_def check_shape_def list_ex_iff split: if_split_asm option.splits)
  have "those (map (\<lambda>g. EVENT_COLUMNS (gb_dimension g)) (es_group_by seg)) \<noteq> None"
    using dims by (intro those_total) (auto simp: EVENT_DIMENSIONS_def)
  then show ?thesis by (auto simp: compile_event_ranking_def Let_def split: option.splits prod.splits)
qed

text \<open>C37. The SQL of a ranking has as many placeholders as the parameters that are bound to it, whatever the
  filter, the groupings and the metric; in a checked segment the compilation never fails.\<close>

theorem ranking_placeholders:
  "(case compile_flow_ranking seg wide of Some (sql, params) \<Rightarrow> qmarks sql = length params
    | None \<Rightarrow> flow_segment_of s \<noteq> Inr seg) \<and>
   (case compile_event_ranking es of Some (sql, params) \<Rightarrow> qmarks sql = length params
    | None \<Rightarrow> event_segment_of s' \<noteq> Inr es)"
  using flow_ranking_placeholders [of seg wide] event_ranking_placeholders [of es] flow_ranking_total [of s seg wide]
    event_ranking_total [of s' es]
  by (auto split: option.splits)

end
