(* ===== verification/Detectors.thy ===== *)
theory Detectors
  imports Segment Lateral Alerting
begin

text \<open>
  \<open>domain/detectors.py\<close>, the data and the shared parts: observed connections, detections and their states, what a run
  is given, the sliding window over connections sorted by the time they were last seen, and the detectors of
  lateral movement. Times are microseconds, days and factors exact fractions. A detector returns its detections and
  its status; the evidence segment it builds may raise, so the detections stand in a sum.
\<close>

section \<open>Data\<close>

definition SAMPLE :: nat where "SAMPLE = 10"

type_synonym det_end = "string \<times> string \<times> string"

record obs =
  ob_src_key :: string
  ob_dst_key :: string
  ob_src_href :: "string option"
  ob_dst_href :: "string option"
  ob_src_ip :: string
  ob_dst_ip :: string
  ob_src_hostname :: "string option"
  ob_dst_hostname :: "string option"
  ob_port :: "int option"
  ob_proto :: int
  ob_decision :: string
  ob_first :: time
  ob_last :: time
  ob_num_connections :: int
  ob_initiator_user :: "string option"
  ob_initiator_process :: "string option"
  ob_src_labels :: "(string, string) dict"
  ob_dst_labels :: "(string, string) dict"
  ob_src_managed :: bool
  ob_origin :: string

record det_confidence =
  dc_field :: "string option"
  dc_covered :: "nat option"
  dc_total :: "nat option"
  dc_baseline_days :: "rat option"
  dc_incomplete_gaps :: "gap list"

record detection =
  dt_detector :: detector_kind
  dt_fingerprint :: string
  dt_subject_key :: string
  dt_severity :: severity
  dt_first_seen :: time
  dt_last_seen :: time
  dt_critical_asset :: bool
  dt_summary :: "(string, fact) dict"
  dt_segment :: flow_segment
  dt_confidence :: det_confidence
  dt_ends :: "det_end list"

record detector_status =
  ds_detector :: detector_kind
  ds_state :: detector_state
  ds_reason_key :: "string option"
  ds_params :: "(string, fact) dict"

record precursor =
  pc_host_key :: string
  pc_kind :: precursor_kind
  pc_at :: time
  pc_signal :: bool

record detector_config =
  dg_fanout_targets :: nat
  dg_fanout_window :: time
  dg_account_fanout_targets :: nat
  dg_account_fanout_window :: time
  dg_chain_window :: time
  dg_blocked_targets :: nat
  dg_blocked_window :: time
  dg_blocked_surge_factor :: rat
  dg_exclude_system_accounts :: bool
  dg_precursor_window :: time
  dg_expected :: "(int \<times> int option, string list) dict"
  dg_admin_ports :: "admin_port list"
  dg_environment_label_key :: string
  dg_admin_groups_configured :: bool
  dg_environment_labels_present :: bool
  dg_admin_groups_stale :: bool
  dg_peer_group_keys :: "string list"
  dg_peer_min_group :: nat
  dg_volume_surge_factor :: rat
  dg_volume_min_connections :: int
  dg_volume_min_bytes :: int
  dg_directory_min_connections :: int
  dg_account_history :: time
  dg_process_history :: time
  dg_suspicious_tools :: "string list"
  dg_directory_followup :: time
  dg_quiet :: time
  dg_quiet_min_connections :: int
  dg_staging_min_sources :: nat
  dg_staging_min_bytes :: int
  dg_off_hours_min_connections :: int
  dg_off_hours_min_days :: nat

record activity =
  ac_connections :: int
  ac_bytes :: "int option"
  ac_previous_connections :: int
  ac_previous_bytes :: "int option"

record fan_in_fact =
  fi_connections :: int
  fi_bytes :: int
  fi_sources :: "string list"
  fi_previous_bytes :: "int option"

record anomaly_data =
  an_peer_seen :: "(string \<times> int \<times> int, string list) dict"
  an_group_sizes :: "(string, nat) dict"
  an_activity :: "(string \<times> string, activity) dict"
  an_activity_days :: rat
  an_activity_gaps :: "gap list"
  an_live :: bool
  an_account_first :: "(string \<times> string, time) dict"
  an_account_since :: "(string, time) dict"
  an_account_sources :: "(string, int) dict"
  an_process_first :: "(string \<times> string, time) dict"
  an_process_since :: "(string, time) dict"
  an_directory_servers :: "string list"
  an_directory_ips :: "string list"
  an_directory_inferred :: int
  an_directory_declared_missing :: int
  an_directory_clients_before :: "string list"
  an_recent_directory :: "(string \<times> string \<times> time \<times> time) list"
  an_pairs_before :: "(string \<times> string) list"
  an_pair_ports :: "(string \<times> string, int) dict"
  an_ports_served :: "(string \<times> int \<times> int) list"
  an_recent :: "(string, int) dict"
  an_active_hours :: "(string, time list) dict"
  an_known_before_quiet :: "string list"
  an_active_just_before :: "string list"
  an_hours_days :: rat
  an_hours_gaps :: "gap list"
  an_fan_in :: "(string, fan_in_fact) dict"
  an_fan_in_coverage :: "nat \<times> nat"
  an_fan_in_gaps :: "gap list"
  an_destination_days :: rat

record host_info =
  hi_key :: string
  hi_href :: "string option"
  hi_hostname :: "string option"
  hi_managed :: bool
  hi_labels :: "(string, string) dict"
  hi_enforcement_mode :: "string option"
  hi_visibility_level :: "string option"
  hi_os_id :: "string option"
  hi_ven_href :: "string option"
  hi_critical :: bool
  hi_admin_group :: bool

type_synonym host_lookup = "string \<Rightarrow> string \<Rightarrow> string option \<Rightarrow> (string, string) dict \<Rightarrow> host_info"

record detector_input =
  di_window :: "time \<times> time"
  di_obs :: "obs list"
  di_blocked_obs :: "obs list"
  di_hosts :: host_lookup
  di_baseline_first_seen :: "(string \<times> string \<times> int \<times> int, time) dict"
  di_precursors :: "precursor list"
  di_config :: detector_config
  di_baseline_days :: rat
  di_baseline_required :: int
  di_baseline_full :: bool
  di_gaps :: "gap list"
  di_blocked_history :: "(string, nat) dict"
  di_traffic_obs :: "obs list"
  di_anomaly :: anomaly_data

type_synonym outcome = "(filter_error + detection list) \<times> detector_status"

section \<open>Shared parts\<close>

definition evaluable :: "obs \<Rightarrow> detector_input \<Rightarrow> bool" where
  "evaluable o' inp \<longleftrightarrow>
     ob_origin o' = ''ingest'' \<and> fst (di_window inp) < ob_last o' \<and> ob_last o' \<le> snd (di_window inp)"

definition not_blocked :: "obs \<Rightarrow> bool" where
  "not_blocked o' \<longleftrightarrow> \<not> startswith (ob_decision o') ''blocked''"

definition of_class :: "detector_input \<Rightarrow> port_class list \<Rightarrow> obs list" where
  "of_class inp classes =
     filter (\<lambda>o'. admin_matches (dg_admin_ports (di_config inp)) (ob_port o') (ob_proto o') (Some classes)) (di_obs inp)"

definition dst_host :: "obs \<Rightarrow> detector_input \<Rightarrow> host_info" where
  "dst_host o' inp = di_hosts inp (ob_dst_key o') (ob_dst_ip o') (ob_dst_hostname o') (ob_dst_labels o')"

definition src_host :: "obs \<Rightarrow> detector_input \<Rightarrow> host_info" where
  "src_host o' inp = di_hosts inp (ob_src_key o') (ob_src_ip o') (ob_src_hostname o') (ob_src_labels o')"

definition source_end :: "obs \<Rightarrow> det_end" where "source_end o' = (''s'', ob_src_key o', ob_src_ip o')"
definition target_end :: "obs \<Rightarrow> det_end" where "target_end o' = (''t'', ob_dst_key o', ob_dst_ip o')"

definition ends :: "obs list \<Rightarrow> obs list \<Rightarrow> det_end list" where
  "ends sources targets = nub (map source_end sources @ map target_end targets)"

definition href_or_ip :: "string option \<Rightarrow> string \<Rightarrow> endpoint_filter" where
  "href_or_ip href ip =
     (if truthy_str href then any_endpoint \<lparr> ep_hrefs := [or_empty href] \<rparr> else any_endpoint \<lparr> ep_ips := [ip] \<rparr>)"

definition admin_filters :: "admin_port list \<Rightarrow> port_class list option \<Rightarrow> port_proto list" where
  "admin_filters entries classes =
     map (\<lambda>(p, proto). \<lparr> pp_port = Some p, pp_to_port = None, pp_proto = proto \<rparr>) (port_filters entries classes)"

definition after_start :: "time \<Rightarrow> time \<Rightarrow> time" where
  "after_start start stop = (if start < stop then stop else start + SECOND)"

definition det_evidence ::
  "detector_input \<Rightarrow> time \<Rightarrow> time \<Rightarrow> obs option \<Rightarrow> obs option \<Rightarrow> port_class list option \<Rightarrow> filter_error + flow_segment" where
  "det_evidence inp start stop src dst classes =
     detail_segment
       (any_flow \<lparr> fc_src := map_option (\<lambda>o'. href_or_ip (ob_src_href o') (ob_src_ip o')) src,
                  fc_dst := map_option (\<lambda>o'. href_or_ip (ob_dst_href o') (ob_dst_ip o')) dst,
                  fc_ports := admin_filters (dg_admin_ports (di_config inp)) classes \<rparr>)
       start (after_start start stop)"

text \<open>\<open>hostname or ip\<close>\<close>

definition shown :: "string option \<Rightarrow> string \<Rightarrow> string" where
  "shown hostname ip = (if truthy_str hostname then or_empty hostname else ip)"

definition dst_shown :: "obs \<Rightarrow> string" where "dst_shown o' = shown (ob_dst_hostname o') (ob_dst_ip o')"
definition src_shown :: "obs \<Rightarrow> string" where "src_shown o' = shown (ob_src_hostname o') (ob_src_ip o')"

text \<open>\<open>d.setdefault(k, v)\<close>\<close>

definition set_default :: "'k \<Rightarrow> 'v \<Rightarrow> ('k, 'v) dict \<Rightarrow> ('k, 'v) dict" where
  "set_default k v d = (if dict_get d k = None then dict_set k v d else d)"

definition target_names :: "obs list \<Rightarrow> string list" where
  "target_names rows = take SAMPLE (sort (map snd (fold (\<lambda>o'. set_default (ob_dst_key o') (dst_shown o')) rows [])))"

definition ports_used :: "obs list \<Rightarrow> int list" where
  "ports_used rows = sort (nub (List.map_filter ob_port rows))"

definition text_facts :: "string list \<Rightarrow> fact" where "text_facts xs = FL (map (\<lambda>s. FJ (JStr s)) xs)"
definition int_facts :: "int list \<Rightarrow> fact" where "int_facts xs = FL (map (\<lambda>n. FJ (JInt n)) xs)"
definition text_fact :: "string \<Rightarrow> fact" where "text_fact s = FJ (JStr s)"
definition int_fact :: "int \<Rightarrow> fact" where "int_fact n = FJ (JInt n)"
definition opt_int_fact :: "int option \<Rightarrow> fact" where
  "opt_int_fact n = (case n of None \<Rightarrow> FJ JNull | Some i \<Rightarrow> FJ (JInt i))"

definition in_minutes :: "time \<Rightarrow> fact" where "in_minutes w = int_fact (w div MINUTE)"

definition round1 :: "rat \<Rightarrow> rat" where "round1 x = of_int (round_half_even (x * 10)) / 10"

definition status_of :: "detector_kind \<Rightarrow> detector_state \<Rightarrow> string option \<Rightarrow> (string, fact) dict \<Rightarrow> detector_status" where
  "status_of kind st reason params = \<lparr> ds_detector = kind, ds_state = st, ds_reason_key = reason, ds_params = params \<rparr>"

definition ok_status :: "detector_kind \<Rightarrow> detector_status" where
  "ok_status kind = status_of kind DS_OK None []"

definition accumulating :: "detector_kind \<Rightarrow> detector_input \<Rightarrow> detector_status" where
  "accumulating kind inp = status_of kind DS_ACCUMULATING (Some ''detector_baseline_accumulating'')
     [(''days'', FN (round1 (di_baseline_days inp))), (''required'', int_fact (di_baseline_required inp))]"

definition gaps_only :: "gap list \<Rightarrow> det_confidence" where
  "gaps_only gaps = \<lparr> dc_field = None, dc_covered = None, dc_total = None, dc_baseline_days = None, dc_incomplete_gaps = gaps \<rparr>"

definition field_confidence :: "string \<Rightarrow> nat \<Rightarrow> nat \<Rightarrow> gap list \<Rightarrow> det_confidence" where
  "field_confidence f covered whole gaps = (gaps_only gaps) \<lparr> dc_field := Some f, dc_covered := Some covered, dc_total := Some whole \<rparr>"

definition baseline_confidence :: "detector_input \<Rightarrow> det_confidence" where
  "baseline_confidence inp = (gaps_only (di_gaps inp)) \<lparr> dc_baseline_days := Some (round1 (di_baseline_days inp)) \<rparr>"

text \<open>A detection with the segment that may raise; high when the asset is critical.\<close>

definition with_segment :: "(flow_segment \<Rightarrow> detection) \<Rightarrow> filter_error + flow_segment \<Rightarrow> filter_error + detection" where
  "with_segment d seg = map_sum id d seg"

definition high_if :: "bool \<Rightarrow> severity" where "high_if critical = (if critical then SEV_HIGH else SEV_MEDIUM)"

definition raised_if :: "bool \<Rightarrow> severity \<Rightarrow> severity" where
  "raised_if critical s = (if critical then raise_severity s 1 else s)"

section \<open>The sliding window\<close>

text \<open>A \<open>Counter\<close>: keys with their counts, a key dropped when its count reaches zero.\<close>

definition counter_add :: "'k \<Rightarrow> ('k, int) dict \<Rightarrow> ('k, int) dict" where
  "counter_add k d = dict_set k ((case dict_get d k of Some n \<Rightarrow> n | None \<Rightarrow> 0) + 1) d"

definition counter_drop :: "'k \<Rightarrow> ('k, int) dict \<Rightarrow> ('k, int) dict" where
  "counter_drop k d =
     (let n = (case dict_get d k of Some n \<Rightarrow> n | None \<Rightarrow> 0) - 1
      in if n = 0 then filter (\<lambda>e. fst e \<noteq> k) d else dict_set k n d)"

text \<open>\<open>while rows[j].last < limit\<close>. With a window that is not negative the loop stops at the row just added, so the
  end of the rows (an \<open>IndexError\<close>) is not reached.\<close>

function shrink :: "('o \<Rightarrow> time) \<Rightarrow> ('o \<Rightarrow> string) \<Rightarrow> 'o list \<Rightarrow> time \<Rightarrow> (string, int) dict \<Rightarrow> nat \<Rightarrow> (string, int) dict \<times> nat" where
  "shrink last_of key rows limit counts j =
     (if j < length rows \<and> last_of (rows ! j) < limit
      then shrink last_of key rows limit (counter_drop (key (rows ! j)) counts) (j + 1)
      else (counts, j))"
  by pat_completeness auto
termination by (relation "measure (\<lambda>(_, _, rows, _, _, j). length rows - j)") auto

declare shrink.simps [simp del]

type_synonym best_window = "(nat \<times> nat \<times> nat) option"

text \<open>One turn of the loop: the row comes in, rows out of the window leave, and the window is the best so far when
  \<open>accept\<close> takes the row with this many keys and none was better.\<close>

definition window_turn ::
  "(obs \<Rightarrow> nat \<Rightarrow> bool) \<Rightarrow> time \<Rightarrow> (obs \<Rightarrow> string) \<Rightarrow> obs list \<Rightarrow> nat \<Rightarrow>
   (string, int) dict \<times> nat \<times> best_window \<Rightarrow> (string, int) dict \<times> nat \<times> best_window" where
  "window_turn accept window key rows i st =
     (let (counts, j, best) = st;
          (counts, j) = shrink ob_last key rows (ob_last (rows ! i) - window) (counter_add (key (rows ! i)) counts) j;
          n = length counts
      in (counts, j,
          if accept (rows ! i) n \<and> (case best of None \<Rightarrow> True | Some (m, _, _) \<Rightarrow> m < n) then Some (n, j, i) else best))"

definition window_scan :: "(obs \<Rightarrow> nat \<Rightarrow> bool) \<Rightarrow> time \<Rightarrow> (obs \<Rightarrow> string) \<Rightarrow> obs list \<Rightarrow> best_window" where
  "window_scan accept window key rows =
     snd (snd (fold (window_turn accept window key rows) [0..<length rows] ([], 0, None)))"

definition max_window :: "obs list \<Rightarrow> time \<Rightarrow> (obs \<Rightarrow> string) \<Rightarrow> (obs \<Rightarrow> bool) \<Rightarrow> best_window" where
  "max_window rows window key closes = window_scan (\<lambda>o' _. closes o') window key rows"

definition window_rows :: "obs list \<Rightarrow> nat \<Rightarrow> nat \<Rightarrow> obs list" where
  "window_rows rows j i = take (i + 1 - j) (drop j rows)"

definition window_start :: "obs list \<Rightarrow> time \<Rightarrow> time \<Rightarrow> time" where
  "window_start rows last' window = max (Min (set (map ob_first rows))) (last' - window)"

definition by_source :: "obs list \<Rightarrow> (string, obs list) dict" where
  "by_source rows = group_by ob_src_key rows"

text \<open>\<open>sorted(d.items())\<close> of a dictionary: its keys differ, so the values are not compared.\<close>

definition sorted_items :: "('k :: linorder, 'v) dict \<Rightarrow> ('k \<times> 'v) list" where
  "sorted_items d = sort_key fst d"

section \<open>The detectors\<close>

definition any_critical :: "detector_input \<Rightarrow> obs list \<Rightarrow> bool" where
  "any_critical inp rows = list_ex (\<lambda>o'. hi_critical (dst_host o' inp)) rows"

definition fanout_of :: "detector_input \<Rightarrow> string \<times> obs list \<Rightarrow> (filter_error + detection) option" where
  "fanout_of inp entry =
     (let cfg = di_config inp; src = fst entry; rows = sort_key ob_last (snd entry)
      in case window_scan (\<lambda>o' n. evaluable o' inp \<and> dg_fanout_targets cfg \<le> n) (dg_fanout_window cfg) ob_dst_key rows of
           None \<Rightarrow> None
         | Some (n, j, i) \<Rightarrow>
             (let wr = window_rows rows j i; critical = any_critical inp wr; newest = last wr; until = ob_last newest;
                  severity = (if list_ex (\<lambda>o'. ob_decision o' = ''allowed'') wr then SEV_HIGH else SEV_MEDIUM)
              in Some (with_segment (\<lambda>seg.
                   \<lparr> dt_detector = DK_FANOUT, dt_fingerprint = ''fanout|'' @ src, dt_subject_key = src,
                     dt_severity = raised_if critical severity,
                     dt_first_seen = window_start wr until (dg_fanout_window cfg), dt_last_seen = until,
                     dt_critical_asset = critical,
                     dt_summary = [(''targets'', int_fact (int n)), (''sample_targets'', text_facts (target_names wr)),
                       (''ports'', int_facts (ports_used wr)), (''window_minutes'', in_minutes (dg_fanout_window cfg))],
                     dt_segment = seg, dt_confidence = gaps_only (di_gaps inp), dt_ends = ends [newest] wr \<rparr>)
                   (det_evidence inp (until - dg_fanout_window cfg) until (Some newest) None (Some EXECUTION_OR_DATA)))))"

definition detect_fanout :: "detector_input \<Rightarrow> outcome" where
  "detect_fanout inp =
     (traverse id (List.map_filter (fanout_of inp)
        (sorted_items (by_source (filter not_blocked (of_class inp EXECUTION_OR_DATA))))), ok_status DK_FANOUT)"

text \<open>A connection by its ends, port (\<open>-1\<close> for none) and protocol.\<close>

type_synonym conn_key = "string \<times> string \<times> int \<times> int"

definition conn_key_of :: "obs \<Rightarrow> conn_key" where
  "conn_key_of o' = (ob_src_key o', ob_dst_key o', (case ob_port o' of None \<Rightarrow> - 1 | Some p \<Rightarrow> p), ob_proto o')"

definition key_text :: "string \<Rightarrow> conn_key \<Rightarrow> string" where
  "key_text prefix k =
     (case k of (src, dst, port, proto) \<Rightarrow>
        prefix @ ''|'' @ src @ ''|'' @ dst @ ''|'' @ str_of_int port @ ''|'' @ str_of_int proto)"

definition firsts :: "(obs \<Rightarrow> 'k) \<Rightarrow> obs list \<Rightarrow> ('k, obs) dict" where
  "firsts key rows = fold (\<lambda>o'. set_default (key o') o') rows []"

definition first_in_window :: "detector_input \<Rightarrow> conn_key \<Rightarrow> bool" where
  "first_in_window inp k =
     (case dict_get (di_baseline_first_seen inp) k of None \<Rightarrow> False
      | Some t \<Rightarrow> fst (di_window inp) < t \<and> t \<le> snd (di_window inp))"

definition pair_summary :: "obs \<Rightarrow> conn_key \<Rightarrow> (string, fact) dict" where
  "pair_summary o' k =
     (case k of (_, _, port, proto) \<Rightarrow>
        [(''target'', text_fact (dst_shown o')), (''port'', int_fact port), (''proto'', int_fact proto),
         (''decision'', text_fact (ob_decision o'))])"

definition new_admin_of :: "detector_input \<Rightarrow> conn_key \<times> obs \<Rightarrow> filter_error + detection" where
  "new_admin_of inp entry =
     (let k = fst entry; o' = snd entry; critical = hi_critical (dst_host o' inp)
      in with_segment (\<lambda>seg.
           \<lparr> dt_detector = DK_NEW_ADMIN_CONNECTION, dt_fingerprint = key_text ''new'' k, dt_subject_key = fst k,
             dt_severity = high_if critical, dt_first_seen = the (dict_get (di_baseline_first_seen inp) k),
             dt_last_seen = ob_last o', dt_critical_asset = critical, dt_summary = pair_summary o' k,
             dt_segment = seg, dt_confidence = baseline_confidence inp, dt_ends = ends [o'] [o'] \<rparr>)
         (det_evidence inp (ob_first o') (ob_last o') (Some o') (Some o') (Some EXECUTION_OR_DATA)))"

definition detect_new_admin :: "detector_input \<Rightarrow> outcome" where
  "detect_new_admin inp =
     (if \<not> di_baseline_full inp then (Inr [], accumulating DK_NEW_ADMIN_CONNECTION inp)
      else
        (traverse (new_admin_of inp) (sorted_items (firsts conn_key_of
           (filter (\<lambda>o'. evaluable o' inp \<and> first_in_window inp (conn_key_of o')) (of_class inp EXECUTION_OR_DATA)))),
         ok_status DK_NEW_ADMIN_CONNECTION))"

text \<open>\<open>detect_pivot_chain\<close>\<close>

definition chain_legs :: "detector_input \<Rightarrow> (obs \<times> obs) list" where
  "chain_legs inp =
     (let legs = filter not_blocked (of_class inp EXECUTION); from_host = by_source legs
      in concat (map (\<lambda>ab. map (Pair ab)
           (filter (\<lambda>bc. \<not> (ob_dst_key bc = ob_src_key ab \<or> \<not> (evaluable ab inp \<or> evaluable bc inp)) \<and>
                          ob_first ab \<le> ob_last bc \<and> ob_first bc \<le> ob_last ab + dg_chain_window (di_config inp))
              (case dict_get from_host (ob_dst_key ab) of None \<Rightarrow> [] | Some bcs \<Rightarrow> bcs))) legs))"

type_synonym chain_key = "string \<times> string \<times> string"

definition chains_found :: "detector_input \<Rightarrow> (chain_key, obs \<times> obs) dict" where
  "chains_found inp =
     fold (\<lambda>(ab, bc). set_default (ob_src_key ab, ob_dst_key ab, ob_dst_key bc) (ab, bc)) (chain_legs inp) []"

definition PIVOT_KEPT :: int where "PIVOT_KEPT = 20"

text \<open>The first 20 chains of each pivot.\<close>

fun keep_chains :: "(string, int) dict \<Rightarrow> (chain_key \<times> obs \<times> obs) list \<Rightarrow> (chain_key \<times> obs \<times> obs) list" where
  "keep_chains kept [] = []"
| "keep_chains kept (((a, b, c), legs) # rest) =
     (if PIVOT_KEPT \<le> (case dict_get kept b of Some n \<Rightarrow> n | None \<Rightarrow> 0) then keep_chains kept rest
      else ((a, b, c), legs) # keep_chains (counter_add b kept) rest)"

definition chain_of :: "detector_input \<Rightarrow> (string, int) dict \<Rightarrow> chain_key \<times> obs \<times> obs \<Rightarrow> filter_error + detection" where
  "chain_of inp per_pivot entry =
     (case entry of ((a, b, c), (ab, bc)) \<Rightarrow>
        let critical = hi_critical (dst_host bc inp); start = min (ob_first ab) (ob_first bc); stop = max (ob_last ab) (ob_last bc)
        in with_segment (\<lambda>seg.
             \<lparr> dt_detector = DK_PIVOT_CHAIN, dt_fingerprint = ''chain|'' @ a @ ''|'' @ b @ ''|'' @ c, dt_subject_key = a,
               dt_severity = high_if critical, dt_first_seen = start, dt_last_seen = stop, dt_critical_asset = critical,
               dt_summary = [(''via'', text_fact (dst_shown ab)), (''target'', text_fact (dst_shown bc)),
                 (''ports'', FL [opt_int_fact (ob_port ab), opt_int_fact (ob_port bc)]),
                 (''chains_through_pivot'', int_fact (case dict_get per_pivot b of Some n \<Rightarrow> n | None \<Rightarrow> 0))],
               dt_segment = seg, dt_confidence = gaps_only (di_gaps inp), dt_ends = ends [ab] [ab, bc] \<rparr>)
           (det_evidence inp start stop (Some ab) None (Some EXECUTION)))"

definition detect_pivot_chain :: "detector_input \<Rightarrow> outcome" where
  "detect_pivot_chain inp =
     (let chains = chains_found inp; per_pivot = fold (\<lambda>((_, b, _), _). counter_add b) chains []
      in (traverse (chain_of inp per_pivot) (keep_chains [] (sorted_items chains)), ok_status DK_PIVOT_CHAIN))"

text \<open>\<open>blocked_counts\<close>, \<open>max_window_targets\<close>, \<open>window_targets_by_hour\<close>, \<open>detect_blocked_surge\<close>\<close>

definition blocked_window :: "detector_input \<Rightarrow> obs list \<Rightarrow> best_window" where
  "blocked_window inp rows = max_window rows (dg_blocked_window (di_config inp)) ob_dst_key (\<lambda>o'. evaluable o' inp)"

definition blocked_counts :: "detector_input \<Rightarrow> (string, nat) dict" where
  "blocked_counts inp =
     List.map_filter (\<lambda>(src, rows). map_option (\<lambda>best. (src, fst best)) (blocked_window inp (sort_key ob_last rows)))
       (by_source (di_blocked_obs inp))"

definition max_window_targets :: "obs list \<Rightarrow> time \<Rightarrow> nat" where
  "max_window_targets rows window =
     (case max_window (sort_key ob_last rows) window ob_dst_key (\<lambda>_. True) of None \<Rightarrow> 0 | Some best \<Rightarrow> fst best)"

definition hour_of :: "time \<Rightarrow> time" where "hour_of t = t - t mod HOUR"

definition hour_turn ::
  "time \<Rightarrow> obs list \<Rightarrow> nat \<Rightarrow> (string, int) dict \<times> nat \<times> (time, nat) dict \<Rightarrow> (string, int) dict \<times> nat \<times> (time, nat) dict" where
  "hour_turn window rows i st =
     (let (counts, j, out) = st;
          (counts, j) = shrink ob_last ob_dst_key rows (ob_last (rows ! i) - window) (counter_add (ob_dst_key (rows ! i)) counts) j;
          hour = hour_of (ob_last (rows ! i))
      in (counts, j, dict_set hour (max (case dict_get out hour of Some n \<Rightarrow> n | None \<Rightarrow> 0) (length counts)) out))"

definition window_targets_by_hour :: "obs list \<Rightarrow> time \<Rightarrow> (time, nat) dict" where
  "window_targets_by_hour rows window =
     (let ordered = sort_key ob_last rows
      in snd (snd (fold (hour_turn window ordered) [0..<length ordered] ([], 0, []))))"

definition surge_passed :: "detector_config \<Rightarrow> nat \<Rightarrow> nat \<Rightarrow> bool" where
  "surge_passed cfg n previous \<longleftrightarrow>
     \<not> (n < dg_blocked_targets cfg \<or> (previous \<noteq> 0 \<and> of_nat n < dg_blocked_surge_factor cfg * of_nat previous))"

definition blocked_surge_of :: "detector_input \<Rightarrow> string \<times> nat \<Rightarrow> (filter_error + detection) option" where
  "blocked_surge_of inp entry =
     (let cfg = di_config inp; (src, n) = entry;
          previous = (case dict_get (di_blocked_history inp) src of Some m \<Rightarrow> m | None \<Rightarrow> 0)
      in if \<not> surge_passed cfg n previous then None
         else
           (let rows = sort_key ob_last (filter (\<lambda>o'. ob_src_key o' = src) (di_blocked_obs inp));
                counted = (case blocked_window inp rows of Some (_, j, i) \<Rightarrow> window_rows rows j i | None \<Rightarrow> rows);
                newest = last rows; until = ob_last newest
            in Some (with_segment (\<lambda>seg.
                 \<lparr> dt_detector = DK_BLOCKED_SURGE, dt_fingerprint = ''blocked|'' @ src, dt_subject_key = src,
                   dt_severity = SEV_MEDIUM, dt_first_seen = window_start rows until (dg_blocked_window cfg),
                   dt_last_seen = until, dt_critical_asset = any_critical inp rows,
                   dt_summary = [(''targets'', int_fact (int n)), (''previous_max'', int_fact (int previous)),
                     (''sample_targets'', text_facts (target_names rows)), (''window_minutes'', in_minutes (dg_blocked_window cfg))],
                   dt_segment = seg, dt_confidence = gaps_only (di_gaps inp), dt_ends = ends [newest] counted \<rparr>)
                 (detail_segment (any_flow \<lparr> fc_src := Some (href_or_ip (ob_src_href newest) (ob_src_ip newest)) \<rparr>)
                    (until - dg_blocked_window cfg) until))))"

definition detect_blocked_surge :: "detector_input \<Rightarrow> outcome" where
  "detect_blocked_surge inp =
     (traverse id (List.map_filter (blocked_surge_of inp) (sorted_items (blocked_counts inp))), ok_status DK_BLOCKED_SURGE)"

text \<open>\<open>detect_non_admin_group\<close> and \<open>detect_cross_env\<close>: the first connection of each key\<close>

definition per_tuple :: "detector_input \<Rightarrow> (obs \<Rightarrow> bool) \<Rightarrow> port_class list \<Rightarrow> (conn_key, obs) dict" where
  "per_tuple inp keep classes =
     firsts conn_key_of (filter (\<lambda>o'. evaluable o' inp \<and> keep o') (of_class inp classes))"

definition non_admin_of :: "detector_input \<Rightarrow> conn_key \<times> obs \<Rightarrow> filter_error + detection" where
  "non_admin_of inp entry =
     (let k = fst entry; o' = snd entry; critical = hi_critical (dst_host o' inp)
      in with_segment (\<lambda>seg.
           \<lparr> dt_detector = DK_NON_ADMIN_GROUP, dt_fingerprint = key_text ''nag'' k, dt_subject_key = fst k,
             dt_severity = high_if critical, dt_first_seen = ob_first o', dt_last_seen = ob_last o',
             dt_critical_asset = critical, dt_summary = pair_summary o' k, dt_segment = seg,
             dt_confidence = gaps_only (di_gaps inp), dt_ends = ends [o'] [o'] \<rparr>)
         (det_evidence inp (ob_first o') (ob_last o') (Some o') (Some o') (Some EXECUTION)))"

definition detect_non_admin_group :: "detector_input \<Rightarrow> outcome" where
  "detect_non_admin_group inp =
     (let cfg = di_config inp in
      if \<not> dg_admin_groups_configured cfg then
        (Inr [], status_of DK_NON_ADMIN_GROUP DS_DISABLED
           (Some (if dg_admin_groups_stale cfg then ''detector_admin_groups_stale'' else ''detector_admin_groups_unset'')) [])
      else
        (traverse (non_admin_of inp) (sorted_items
           (per_tuple inp (\<lambda>o'. not_blocked o' \<and> \<not> hi_admin_group (src_host o' inp)) EXECUTION)),
         ok_status DK_NON_ADMIN_GROUP))"

text \<open>The two environments, when both are known and differ.\<close>

definition env_pair :: "detector_input \<Rightarrow> obs \<Rightarrow> (string \<times> string) option" where
  "env_pair inp o' =
     (let key = dg_environment_label_key (di_config inp);
          se = dict_get (hi_labels (src_host o' inp)) key; de = dict_get (hi_labels (dst_host o' inp)) key
      in if truthy_str se \<and> truthy_str de \<and> se \<noteq> de then Some (or_empty se, or_empty de) else None)"

definition cross_env_of :: "detector_input \<Rightarrow> conn_key \<times> obs \<Rightarrow> (filter_error + detection) option" where
  "cross_env_of inp entry =
     (case entry of ((src, dst, port, proto), o') \<Rightarrow>
        map_option (\<lambda>(se, de). with_segment (\<lambda>seg.
            \<lparr> dt_detector = DK_CROSS_ENV, dt_fingerprint = key_text ''xenv'' (src, dst, port, proto), dt_subject_key = src,
              dt_severity = (if ob_decision o' = ''allowed'' then SEV_HIGH else SEV_MEDIUM), dt_first_seen = ob_first o',
              dt_last_seen = ob_last o', dt_critical_asset = hi_critical (dst_host o' inp),
              dt_summary = [(''target'', text_fact (dst_shown o')), (''src_env'', text_fact se), (''dst_env'', text_fact de),
                (''port'', int_fact port), (''decision'', text_fact (ob_decision o'))],
              dt_segment = seg, dt_confidence = gaps_only (di_gaps inp), dt_ends = ends [o'] [o'] \<rparr>)
          (det_evidence inp (ob_first o') (ob_last o') (Some o') (Some o') (Some EXECUTION_OR_DATA))) (env_pair inp o'))"

definition detect_cross_env :: "detector_input \<Rightarrow> outcome" where
  "detect_cross_env inp =
     (let cfg = di_config inp in
      if \<not> dg_environment_labels_present cfg then
        (Inr [], status_of DK_CROSS_ENV DS_NO_DATA (Some ''detector_no_env_labels'')
           [(''label_key'', text_fact (dg_environment_label_key cfg))])
      else (traverse id (List.map_filter (cross_env_of inp) (sorted_items (per_tuple inp not_blocked EXECUTION_OR_DATA))),
            ok_status DK_CROSS_ENV))"

text \<open>\<open>_kinds_without\<close> and \<open>_coverage_status\<close>\<close>

definition host_kind :: "detector_input \<Rightarrow> obs \<Rightarrow> string option" where
  "host_kind inp o' =
     map_option (\<lambda>os. if startswith (py_lower os) ''win'' then ''Windows'' else ''Linux'') (str_or_none (hi_os_id (src_host o' inp)))"

definition kinds_without :: "obs list \<Rightarrow> (obs \<Rightarrow> bool) \<Rightarrow> detector_input \<Rightarrow> string" where
  "kinds_without rows has inp =
     (let seen = nub (List.map_filter (host_kind inp) rows); carrying = List.map_filter (host_kind inp) (filter has rows)
      in py_join '', '' (sort (filter (\<lambda>k. k \<notin> set carrying) seen)))"

definition coverage_status ::
  "detector_kind \<Rightarrow> string \<times> string \<Rightarrow> (string, fact) dict \<Rightarrow> bool \<Rightarrow> string \<Rightarrow> detector_status" where
  "coverage_status kind keys params partial kinds =
     (if \<not> partial then status_of kind DS_OK None params
      else if kinds \<noteq> '''' then status_of kind DS_OK (Some (snd keys)) (dict_set ''kinds'' (text_fact kinds) params)
      else status_of kind DS_OK (Some (fst keys)) params)"

definition covered_params :: "nat \<Rightarrow> nat \<Rightarrow> (string, fact) dict" where
  "covered_params covered whole = [(''covered'', int_fact (int covered)), (''total'', int_fact (int whole))]"

text \<open>\<open>detect_account_fanout\<close>\<close>

definition judged_account :: "detector_config \<Rightarrow> string option \<Rightarrow> string option" where
  "judged_account cfg user =
     (if dg_exclude_system_accounts cfg \<and> is_system_account user then None else account_key user)"

definition by_account :: "detector_config \<Rightarrow> obs list \<Rightarrow> (string, obs list) dict" where
  "by_account cfg rows =
     group_by (\<lambda>o'. the (judged_account cfg (ob_initiator_user o')))
       (filter (\<lambda>o'. judged_account cfg (ob_initiator_user o') \<noteq> None) rows)"

definition source_names :: "obs list \<Rightarrow> string list" where
  "source_names rows = take SAMPLE (sort (nub (map src_shown rows)))"

definition account_fanout_of ::
  "detector_input \<Rightarrow> nat \<Rightarrow> nat \<Rightarrow> string \<times> obs list \<Rightarrow> (filter_error + detection) option" where
  "account_fanout_of inp covered whole entry =
     (let cfg = di_config inp; account = fst entry; rows = sort_key ob_last (snd entry); window = dg_account_fanout_window cfg
      in case max_window rows window ob_dst_key (\<lambda>o'. evaluable o' inp) of
           None \<Rightarrow> None
         | Some (n, j, i) \<Rightarrow>
             (if n < dg_account_fanout_targets cfg then None
              else
                let wr = window_rows rows j i; newest = last wr; until = ob_last newest
                in Some (with_segment (\<lambda>seg.
                     \<lparr> dt_detector = DK_ACCOUNT_FANOUT, dt_fingerprint = ''acct|'' @ account, dt_subject_key = account,
                       dt_severity = SEV_HIGH, dt_first_seen = window_start wr until window, dt_last_seen = until,
                       dt_critical_asset = any_critical inp wr,
                       dt_summary = [(''targets'', int_fact (int n)), (''sample_targets'', text_facts (target_names wr)),
                         (''sources'', text_facts (source_names wr)), (''window_minutes'', in_minutes window)],
                       dt_segment = seg, dt_confidence = field_confidence ''initiator_user'' covered whole (di_gaps inp),
                       dt_ends = ends wr wr \<rparr>)
                     (detail_segment
                        (any_flow \<lparr> fc_initiator_user := ob_initiator_user newest,
                                   fc_ports := admin_filters (dg_admin_ports cfg) (Some EXECUTION) \<rparr>) (until - window) until))))"

definition has_user :: "obs \<Rightarrow> bool" where "has_user o' = truthy_str (ob_initiator_user o')"
definition has_process :: "obs \<Rightarrow> bool" where "has_process o' = truthy_str (ob_initiator_process o')"

definition detect_account_fanout :: "detector_input \<Rightarrow> outcome" where
  "detect_account_fanout inp =
     (let rows = filter not_blocked (of_class inp EXECUTION);
          judged = filter (\<lambda>o'. evaluable o' inp) rows; covered = filter has_user judged
      in if judged \<noteq> [] \<and> covered = [] then
           (Inr [], status_of DK_ACCOUNT_FANOUT DS_NO_DATA (Some ''detector_no_user_data'') (covered_params 0 (length judged)))
         else
           (traverse id (List.map_filter (account_fanout_of inp (length covered) (length judged))
              (sorted_items (by_account (di_config inp) rows))),
            coverage_status DK_ACCOUNT_FANOUT (''detector_partial_users'', ''detector_partial_users_none_from'')
              (covered_params (length covered) (length judged)) (length covered < length judged)
              (kinds_without judged has_user inp)))"

text \<open>\<open>detect_unexpected_initiator\<close>\<close>

definition expected_for :: "detector_config \<Rightarrow> obs \<Rightarrow> string list option" where
  "expected_for cfg o' =
     (case ob_port o' of None \<Rightarrow> None
      | Some p \<Rightarrow> (case dict_get (dg_expected cfg) (p, Some (ob_proto o')) of
                     Some e \<Rightarrow> Some e | None \<Rightarrow> dict_get (dg_expected cfg) (p, None)))"

definition initiator_key :: "obs \<Rightarrow> string \<times> string \<times> int \<times> int" where
  "initiator_key o' = (ob_src_key o', or_empty (ob_initiator_process o'), the (ob_port o'), ob_proto o')"

definition unexpected :: "detector_config \<Rightarrow> obs \<Rightarrow> bool" where
  "unexpected cfg o' \<longleftrightarrow> has_process o' \<and>
     (case expected_for cfg o' of None \<Rightarrow> False | Some e \<Rightarrow> or_empty (ob_initiator_process o') \<notin> set e)"

definition unexpected_of ::
  "detector_input \<Rightarrow> nat \<Rightarrow> nat \<Rightarrow> (string \<times> string \<times> int \<times> int, obs list) dict \<Rightarrow>
   (string \<times> string \<times> int \<times> int) \<times> obs \<Rightarrow> filter_error + detection" where
  "unexpected_of inp judged whole targets entry =
     (case entry of ((src, process, port, proto), o') \<Rightarrow>
        let critical = hi_critical (dst_host o' inp)
        in with_segment (\<lambda>seg.
             \<lparr> dt_detector = DK_UNEXPECTED_INITIATOR, dt_fingerprint = key_text ''proc'' (src, process, port, proto),
               dt_subject_key = src, dt_severity = high_if critical, dt_first_seen = ob_first o', dt_last_seen = ob_last o',
               dt_critical_asset = critical,
               dt_summary = [(''process'', text_fact process), (''port'', int_fact port), (''proto'', int_fact proto),
                 (''target'', text_fact (dst_shown o'))],
               dt_segment = seg, dt_confidence = field_confidence ''initiator_process'' judged whole (di_gaps inp),
               dt_ends = ends [o'] (case dict_get targets (src, process, port, proto) of None \<Rightarrow> [] | Some os \<Rightarrow> os) \<rparr>)
           (det_evidence inp (ob_first o') (ob_last o') (Some o') None (Some EXECUTION)))"

definition detect_unexpected_initiator :: "detector_input \<Rightarrow> outcome" where
  "detect_unexpected_initiator inp =
     (let cfg = di_config inp;
          listed = filter (\<lambda>o'. evaluable o' inp \<and> expected_for cfg o' \<noteq> None) (of_class inp EXECUTION);
          judged = length (filter has_process listed); not_evaluable = length (filter (\<lambda>o'. \<not> has_process o') listed);
          hits = filter (unexpected cfg) listed; found = firsts initiator_key hits; targets = group_by initiator_key hits
      in if judged = 0 \<and> not_evaluable \<noteq> 0 then
           (Inr [], status_of DK_UNEXPECTED_INITIATOR DS_NO_DATA (Some ''detector_no_process_data'')
              [(''not_evaluable'', int_fact (int not_evaluable))])
         else
           (traverse (unexpected_of inp judged (judged + not_evaluable) targets) (sorted_items found),
            if not_evaluable = 0 then status_of DK_UNEXPECTED_INITIATOR DS_OK None [(''not_evaluable'', int_fact 0)]
            else coverage_status DK_UNEXPECTED_INITIATOR (''detector_partial_process'', ''detector_partial_process_none_from'')
                   [(''not_evaluable'', int_fact (int not_evaluable)), (''total'', int_fact (int (judged + not_evaluable)))] True
                   (kinds_without listed has_process inp)))"

section \<open>After the detectors\<close>

definition ACCOUNT_DETECTORS :: "detector_kind list" where
  "ACCOUNT_DETECTORS = [DK_ACCOUNT_FANOUT, DK_ACCOUNT_NEW_SOURCE]"

fun precursor_kind_value :: "precursor_kind \<Rightarrow> string" where
  "precursor_kind_value PK_TAMPER = ''tamper''"
| "precursor_kind_value PK_SUSPEND = ''suspend''"
| "precursor_kind_value PK_OFFLINE = ''offline''"

definition precursor_fact :: "precursor \<Rightarrow> fact" where
  "precursor_fact p = FD [(''kind'', text_fact (precursor_kind_value (pc_kind p))), (''at'', text_fact (isoformat (pc_at p))),
     (''signal'', FJ (JBool (pc_signal p)))]"

definition precursors_found :: "precursor list \<Rightarrow> time \<Rightarrow> detection \<Rightarrow> precursor list" where
  "precursors_found ps window d =
     filter (\<lambda>p. dt_first_seen d - window \<le> pc_at p \<and> pc_at p \<le> dt_last_seen d)
       (case dict_get (group_by pc_host_key ps) (dt_subject_key d) of None \<Rightarrow> [] | Some xs \<Rightarrow> xs)"

definition apply_precursor :: "precursor list \<Rightarrow> time \<Rightarrow> detection \<Rightarrow> detection" where
  "apply_precursor ps window d =
     (let found = precursors_found ps window d
      in if dt_detector d \<in> set ACCOUNT_DETECTORS \<or> found = [] then d
         else d \<lparr> dt_severity := raise_severity (dt_severity d) 1,
                  dt_summary := dict_set ''precursors'' (FL (map precursor_fact (sort_key pc_at found))) (dt_summary d) \<rparr>)"

definition apply_precursors :: "detection list \<Rightarrow> precursor list \<Rightarrow> time \<Rightarrow> detection list" where
  "apply_precursors dets ps window = map (apply_precursor ps window) dets"

definition MANAGEMENT_DETECTORS :: "detector_kind list" where
  "MANAGEMENT_DETECTORS = [DK_FANOUT, DK_NEW_ADMIN_CONNECTION, DK_PIVOT_CHAIN, DK_NON_ADMIN_GROUP, DK_CROSS_ENV,
     DK_ACCOUNT_FANOUT, DK_UNEXPECTED_INITIATOR]"

end
