(* ===== verification/DetectorWindow.thy ===== *)
theory DetectorWindow
  imports Detectors
begin

text \<open>
  The sliding window of the detectors against a reference that looks at every window on its own: the counter holds
  the distinct keys of the rows in the window, the loop never runs past the row just added, and the result is the
  first of the best windows. The fan-out and blocked-surge detectors rest on it.
\<close>

section \<open>Counters\<close>

definition counts_ok :: "('k, int) dict \<Rightarrow> 'k list \<Rightarrow> bool" where
  "counts_ok d xs \<longleftrightarrow> distinct (dict_keys d) \<and>
     (\<forall>k. dict_get d k = (if k \<in> set xs then Some (int (count_list xs k)) else None))"

lemma counts_ok_Nil [simp]: "counts_ok [] []"
  by (simp add: counts_ok_def)

lemma counts_ok_add: "counts_ok d xs \<Longrightarrow> counts_ok (counter_add k d) (xs @ [k])"
  by (auto simp: counts_ok_def counter_add_def dict_simps count_list_0_iff split: option.splits)

lemma get_filter: "dict_get (filter (\<lambda>e. fst e \<noteq> k) d) k' = (if k' = k then None else dict_get d k')"
  by (induction d) auto

lemma distinct_filter_keys: "distinct (dict_keys d) \<Longrightarrow> distinct (dict_keys (filter P d))"
  by (induction d) auto

lemma distinct_dict_set: "distinct (dict_keys d) \<Longrightarrow> distinct (dict_keys (dict_set k v d))"
  by (auto simp: dict_simps)

lemma counts_ok_drop: "counts_ok d (k # xs) \<Longrightarrow> counts_ok (counter_drop k d) xs"
  using count_list_0_iff [of xs k]
  by (auto simp: counts_ok_def counter_drop_def Let_def get_filter distinct_filter_keys distinct_dict_set dict_get_set
      split: if_split_asm)

lemma counts_ok_length: "counts_ok d xs \<Longrightarrow> length d = card (set xs)"
proof -
  assume c: "counts_ok d xs"
  have "set (dict_keys d) = set xs"
  proof (rule set_eqI)
    fix k show "k \<in> set (dict_keys d) \<longleftrightarrow> k \<in> set xs"
      using c dict_get_None_iff [of d k] by (auto simp: counts_ok_def split: if_split_asm)
  qed
  then have "card (set xs) = length (dict_keys d)"
    using c distinct_card [of "dict_keys d"] by (simp add: counts_ok_def)
  then show ?thesis by simp
qed

section \<open>The shrinking loop\<close>

lemma drop_take_head: "j < n \<Longrightarrow> n \<le> length rows \<Longrightarrow> drop j (take n rows) = rows ! j # drop (Suc j) (take n rows)"
  by (subst Cons_nth_drop_Suc [symmetric]) auto

lemma shrink_ok:
  "j < n \<Longrightarrow> n \<le> length rows \<Longrightarrow> counts_ok counts (map key (drop j (take n rows))) \<Longrightarrow> limit \<le> last_of (rows ! (n - 1)) \<Longrightarrow>
   shrink last_of key rows limit counts j = (c, j') \<Longrightarrow>
   j \<le> j' \<and> j' < n \<and> counts_ok c (map key (drop j' (take n rows))) \<and>
   (\<forall>k. j \<le> k \<and> k < j' \<longrightarrow> last_of (rows ! k) < limit) \<and> limit \<le> last_of (rows ! j')"
proof (induction last_of key rows limit counts j rule: shrink.induct)
  case (1 last_of key rows limit counts j)
  show ?case
  proof (cases "last_of (rows ! j) < limit")
    case True
    have "j \<noteq> n - 1" using True 1(5) by auto
    then have j: "Suc j < n" using 1(2) by simp
    have "counts_ok (counter_drop (key (rows ! j)) counts) (map key (drop (Suc j) (take n rows)))"
      by (rule counts_ok_drop) (use 1(2-4) in \<open>simp add: drop_take_head\<close>)
    moreover have "shrink last_of key rows limit (counter_drop (key (rows ! j)) counts) (j + 1) = (c, j')"
      using 1(2,3,6) True by (subst (asm) shrink.simps) simp
    ultimately have "j + 1 \<le> j' \<and> j' < n \<and> counts_ok c (map key (drop j' (take n rows))) \<and>
        (\<forall>k. j + 1 \<le> k \<and> k < j' \<longrightarrow> last_of (rows ! k) < limit) \<and> limit \<le> last_of (rows ! j')"
      using 1(1) 1(2,3,5) j True by simp
    moreover from this have "last_of (rows ! k) < limit" if "j \<le> k" "k < j'" for k
      using that True by (cases "k = j") auto
    ultimately show ?thesis by auto
  next
    case False
    then have "c = counts \<and> j' = j" using 1(6) by (subst (asm) shrink.simps) simp
    then show ?thesis using 1 False by simp
  qed
qed

section \<open>The reference: every window on its own\<close>

definition window_at :: "obs list \<Rightarrow> time \<Rightarrow> nat \<Rightarrow> obs list" where
  "window_at rows window i = filter (\<lambda>r. ob_last (rows ! i) - window \<le> ob_last r) (take (Suc i) rows)"

definition first_at :: "obs list \<Rightarrow> time \<Rightarrow> nat \<Rightarrow> nat" where
  "first_at rows window i = length (filter (\<lambda>r. ob_last r < ob_last (rows ! i) - window) (take (Suc i) rows))"

definition keys_at :: "(obs \<Rightarrow> string) \<Rightarrow> obs list \<Rightarrow> time \<Rightarrow> nat \<Rightarrow> nat" where
  "keys_at key rows window i = card (key ` set (window_at rows window i))"

definition best_scan :: "(obs \<Rightarrow> nat \<Rightarrow> bool) \<Rightarrow> time \<Rightarrow> (obs \<Rightarrow> string) \<Rightarrow> obs list \<Rightarrow> best_window" where
  "best_scan accept window key rows =
     (case filter (\<lambda>i. accept (rows ! i) (keys_at key rows window i)) [0..<length rows] of
        [] \<Rightarrow> None
      | i # is \<Rightarrow>
          (let n = Max (keys_at key rows window ` set (i # is));
               i' = hd (filter (\<lambda>i. keys_at key rows window i = n) (i # is))
           in Some (n, first_at rows window i', i')))"

text \<open>In sorted rows the rows before the window come first.\<close>

lemma sorted_split:
  assumes "sorted (map ob_last rows)" "j \<le> n" "n \<le> length rows" "\<forall>k < j. ob_last (rows ! k) < limit"
    "\<forall>k. j \<le> k \<and> k < n \<longrightarrow> limit \<le> ob_last (rows ! k)"
  shows "filter (\<lambda>r. limit \<le> ob_last r) (take n rows) = drop j (take n rows)"
    "length (filter (\<lambda>r. ob_last r < limit) (take n rows)) = j"
proof -
  have s: "take n rows = take j rows @ drop j (take n rows)"
    using assms(2) append_take_drop_id [of j "take n rows"] by (simp add: min_def)
  have a: "\<forall>r \<in> set (take j rows). ob_last r < limit"
    using assms(2-4) by (auto simp: in_set_conv_nth)
  have b: "\<forall>r \<in> set (drop j (take n rows)). limit \<le> ob_last r"
    using assms(2,3,5) by (auto simp: in_set_conv_nth)
  have "filter (\<lambda>r. limit \<le> ob_last r) (take j rows) = []" "filter (\<lambda>r. ob_last r < limit) (drop j (take n rows)) = []"
    "filter (\<lambda>r. ob_last r < limit) (take j rows) = take j rows" "filter (\<lambda>r. limit \<le> ob_last r) (drop j (take n rows)) = drop j (take n rows)"
    using a b by (auto simp: filter_empty_conv filter_id_conv)
  then show "filter (\<lambda>r. limit \<le> ob_last r) (take n rows) = drop j (take n rows)"
    "length (filter (\<lambda>r. ob_last r < limit) (take n rows)) = j"
    using assms(2,3) by (subst s, simp)+
qed

lemma sorted_from: "sorted (map ob_last rows) \<Longrightarrow> i \<le> k \<Longrightarrow> k < length rows \<Longrightarrow> ob_last (rows ! i) \<le> ob_last (rows ! k)"
  using sorted_nth_mono [of "map ob_last rows" i k] by simp

text \<open>What the loop carries after the first \<open>n\<close> rows.\<close>

definition window_inv :: "(obs \<Rightarrow> string) \<Rightarrow> obs list \<Rightarrow> time \<Rightarrow> nat \<Rightarrow> (string, int) dict \<Rightarrow> nat \<Rightarrow> bool" where
  "window_inv key rows window n counts j \<longleftrightarrow>
     j \<le> n \<and> n \<le> length rows \<and> counts_ok counts (map key (drop j (take n rows))) \<and>
     (n > 0 \<longrightarrow> j < n \<and> (\<forall>k < j. ob_last (rows ! k) < ob_last (rows ! (n - 1)) - window) \<and>
        ob_last (rows ! (n - 1)) - window \<le> ob_last (rows ! j))"

lemma window_inv_step:
  assumes "sorted (map ob_last rows)" "0 \<le> window" "window_inv key rows window n counts j" "n < length rows"
    "shrink ob_last key rows (ob_last (rows ! n) - window) (counter_add (key (rows ! n)) counts) j = (counts', j')"
  shows "window_inv key rows window (Suc n) counts' j'"
    "drop j' (take (Suc n) rows) = window_at rows window n" "j' = first_at rows window n"
    "length counts' = keys_at key rows window n"
proof -
  let ?limit = "ob_last (rows ! n) - window"
  note inv = assms(3) [unfolded window_inv_def]
  have "drop j (take (Suc n) rows) = drop j (take n rows) @ [rows ! n]"
    using inv assms(4) by (simp add: take_Suc_conv_app_nth)
  then have "counts_ok (counter_add (key (rows ! n)) counts) (map key (drop j (take (Suc n) rows)))"
    using inv by (simp add: counts_ok_add)
  then have s: "j \<le> j' \<and> j' < Suc n \<and> counts_ok counts' (map key (drop j' (take (Suc n) rows))) \<and>
      (\<forall>k. j \<le> k \<and> k < j' \<longrightarrow> ob_last (rows ! k) < ?limit) \<and> ?limit \<le> ob_last (rows ! j')"
    using assms(2,4,5) inv by (intro shrink_ok) auto
  have before: "ob_last (rows ! k) < ?limit" if "k < j'" for k
  proof (cases "j \<le> k")
    case True
    then show ?thesis using s that by simp
  next
    case False
    then have n: "n > 0" "k < j" using inv by auto
    then have "ob_last (rows ! k) < ob_last (rows ! (n - 1)) - window" using inv by simp
    also have "\<dots> \<le> ?limit" using sorted_from [OF assms(1), of "n - 1" n] assms(4) by simp
    finally show ?thesis .
  qed
  have after: "?limit \<le> ob_last (rows ! k)" if "j' \<le> k" "k < Suc n" for k
    using s sorted_from [OF assms(1) that(1)] that assms(4) by force
  show "window_inv key rows window (Suc n) counts' j'"
    using s before assms(4) by (auto simp: window_inv_def)
  have sp: "filter (\<lambda>r. ?limit \<le> ob_last r) (take (Suc n) rows) = drop j' (take (Suc n) rows)"
    "length (filter (\<lambda>r. ob_last r < ?limit) (take (Suc n) rows)) = j'"
    using s before after assms(4) by (intro sorted_split [OF assms(1)]; auto)+
  then show w: "drop j' (take (Suc n) rows) = window_at rows window n" and "j' = first_at rows window n"
    by (simp_all add: window_at_def first_at_def)
  show "length counts' = keys_at key rows window n"
    using s counts_ok_length [of counts' "map key (drop j' (take (Suc n) rows))"] by (simp add: w keys_at_def)
qed

section \<open>The best window\<close>

definition best_turn :: "(nat \<Rightarrow> bool) \<Rightarrow> (nat \<Rightarrow> nat) \<Rightarrow> (nat \<Rightarrow> nat) \<Rightarrow> nat \<Rightarrow> best_window \<Rightarrow> best_window" where
  "best_turn acc num from i best =
     (if acc i \<and> (case best of None \<Rightarrow> True | Some (m, _, _) \<Rightarrow> m < num i) then Some (num i, from i, i) else best)"

definition best_ref :: "(nat \<Rightarrow> bool) \<Rightarrow> (nat \<Rightarrow> nat) \<Rightarrow> (nat \<Rightarrow> nat) \<Rightarrow> nat list \<Rightarrow> best_window" where
  "best_ref acc num from is =
     (case filter acc is of
        [] \<Rightarrow> None
      | i # js \<Rightarrow> (let n = Max (num ` set (i # js)); i' = hd (filter (\<lambda>i. num i = n) (i # js)) in Some (n, from i', i')))"

lemma best_ref_nonempty:
  "filter acc is \<noteq> [] \<Longrightarrow> best_ref acc num from is =
     (let n = Max (num ` set (filter acc is)); i' = hd (filter (\<lambda>i. num i = n) (filter acc is)) in Some (n, from i', i'))"
  by (cases "filter acc is") (auto simp: best_ref_def)

lemma hd_filter_append: "hd (filter P (xs @ ys)) = (if filter P xs = [] then hd (filter P ys) else hd (filter P xs))"
  by (cases "filter P xs") auto

lemma best_turn_ref: "best_turn acc num from i (best_ref acc num from is) = best_ref acc num from (is @ [i])"
proof (cases "acc i")
  case False
  then show ?thesis by (simp add: best_turn_def best_ref_def)
next
  case True
  let ?c = "filter acc is"
  show ?thesis
  proof (cases "?c = []")
    case True
    then show ?thesis using \<open>acc i\<close> by (simp add: best_turn_def best_ref_def)
  next
    case False
    let ?M = "Max (num ` set ?c)"
    have ne: "num ` set ?c \<noteq> {}" using False by (simp only: image_is_empty set_empty not_False_eq_True)
    then have "Max (insert (num i) (num ` set ?c)) = max (num i) ?M" by (intro Max_insert finite_imageI finite_set)
    moreover have "num ` set (?c @ [i]) = insert (num i) (num ` set ?c)" by simp
    ultimately have M: "Max (num ` set (?c @ [i])) = max (num i) ?M" by (simp only:)
    have mem: "?M \<in> num ` set ?c" using ne by (intro Max_in finite_imageI finite_set)
    then have has: "filter (\<lambda>x. num x = ?M) ?c \<noteq> []" by (auto simp: filter_empty_conv)
    have new: "best_ref acc num from (is @ [i]) =
        (let n = max (num i) ?M; i' = hd (filter (\<lambda>x. num x = n) (?c @ [i])) in Some (n, from i', i'))"
      using best_ref_nonempty [of acc "is @ [i]" num "from"] \<open>acc i\<close> M by simp
    show ?thesis
    proof (cases "?M < num i")
      case True
      have "num x \<noteq> num i" if "x \<in> set ?c" for x
      proof -
        have "num x \<le> ?M" using that by (intro Max_ge finite_imageI finite_set imageI)
        then show ?thesis using True by linarith
      qed
      then have "filter (\<lambda>x. num x = num i) ?c = []" unfolding filter_empty_conv by blast
      then have h: "hd (filter (\<lambda>x. num x = num i) (?c @ [i])) = i"
        by (subst hd_filter_append) simp
      have m: "max (num i) ?M = num i" using True by simp
      show ?thesis unfolding new Let_def m h best_ref_nonempty [OF False]
        using True \<open>acc i\<close> by (simp add: best_turn_def)
    next
      case F: False
      have h: "hd (filter (\<lambda>x. num x = ?M) (?c @ [i])) = hd (filter (\<lambda>x. num x = ?M) ?c)"
        using has by (subst hd_filter_append) (simp only: if_False)
      have m: "max (num i) ?M = ?M" using F by simp
      show ?thesis unfolding new Let_def m h best_ref_nonempty [OF False]
        using F \<open>acc i\<close> by (simp add: best_turn_def)
    qed
  qed
qed

lemma best_fold: "fold (best_turn acc num from) is None = best_ref acc num from is"
  by (induction "is" rule: rev_induct) (simp_all add: best_ref_def [of _ _ _ "[]"] best_turn_ref)

lemma window_turn_eq:
  "shrink ob_last key rows (ob_last (rows ! i) - window) (counter_add (key (rows ! i)) counts) j = (counts', j') \<Longrightarrow>
   num i = length counts' \<Longrightarrow> from i = j' \<Longrightarrow>
   window_turn accept window key rows i (counts, j, best) =
     (counts', j', best_turn (\<lambda>i. accept (rows ! i) (num i)) num from i best)"
  by (cases best) (auto simp: window_turn_def best_turn_def Let_def)

lemma window_scan_prefix:
  assumes "sorted (map ob_last rows)" "0 \<le> window"
  shows "n \<le> length rows \<Longrightarrow>
    \<exists>counts j. fold (window_turn accept window key rows) [0..<n] ([], 0, None) =
      (counts, j, best_ref (\<lambda>i. accept (rows ! i) (keys_at key rows window i)) (keys_at key rows window) (first_at rows window) [0..<n]) \<and>
      window_inv key rows window n counts j"
proof (induction n)
  case 0
  then show ?case by (simp add: best_ref_def window_inv_def)
next
  case (Suc n)
  then obtain counts j where f: "fold (window_turn accept window key rows) [0..<n] ([], 0, None) =
      (counts, j, best_ref (\<lambda>i. accept (rows ! i) (keys_at key rows window i)) (keys_at key rows window) (first_at rows window) [0..<n])"
    and inv: "window_inv key rows window n counts j" by auto
  obtain counts' j' where s:
    "shrink ob_last key rows (ob_last (rows ! n) - window) (counter_add (key (rows ! n)) counts) j = (counts', j')" by fastforce
  note step = window_inv_step [OF assms inv _ s]
  have n: "n < length rows" using Suc by simp
  show ?case
    using f step(1) [OF n] window_turn_eq [OF s, of "keys_at key rows window" "first_at rows window" accept] step(3,4) [OF n]
    by (simp add: best_turn_ref)
qed

lemma best_scan_ref:
  "best_scan accept window key rows =
     best_ref (\<lambda>i. accept (rows ! i) (keys_at key rows window i)) (keys_at key rows window) (first_at rows window) [0..<length rows]"
  by (simp add: best_scan_def best_ref_def)

lemma window_scan_ref:
  assumes "sorted (map ob_last rows)" "0 \<le> window"
  shows "window_scan accept window key rows = best_scan accept window key rows"
  using window_scan_prefix [OF assms, of "length rows" accept key] by (auto simp: window_scan_def best_scan_ref)

lemma best_ref_None: "best_ref acc num from is = None \<longleftrightarrow> filter acc is = []"
  by (auto simp: best_ref_def Let_def split: list.split)

lemma best_ref_Some:
  assumes "best_ref acc num from is = Some (n, j, i)"
  shows "i \<in> set is" "acc i" "n = num i" "j = from i" "\<And>i'. i' \<in> set is \<Longrightarrow> acc i' \<Longrightarrow> num i' \<le> n"
proof -
  have ne: "filter acc is \<noteq> []" using assms by (auto simp: best_ref_def)
  let ?M = "Max (num ` set (filter acc is))"
  have "num ` set (filter acc is) \<noteq> {}" using ne by (simp only: image_is_empty set_empty not_False_eq_True)
  then have "?M \<in> num ` set (filter acc is)" by (intro Max_in finite_imageI finite_set)
  then have has: "filter (\<lambda>x. num x = ?M) (filter acc is) \<noteq> []" by (auto simp: filter_empty_conv)
  have r: "n = ?M" "i = hd (filter (\<lambda>x. num x = ?M) (filter acc is))" "j = from i"
    using assms unfolding best_ref_nonempty [OF ne] Let_def by auto
  have "i \<in> set (filter (\<lambda>x. num x = ?M) (filter acc is))" unfolding r(2) by (rule hd_in_set [OF has])
  then show "i \<in> set is" "acc i" "n = num i" using r(1) by auto
  show "j = from i" by (rule r(3))
  show "num i' \<le> n" if "i' \<in> set is" "acc i'" for i'
    unfolding r(1) using that by (intro Max_ge finite_imageI finite_set imageI) simp
qed

lemma drop_smaller:
  "sorted (map f xs) \<Longrightarrow> drop (length (filter (\<lambda>x. f x < l) xs)) xs = filter (\<lambda>x. l \<le> f x) xs" for l :: time
proof (induction xs)
  case (Cons x xs)
  show ?case
  proof (cases "f x < l")
    case False
    then have "\<forall>y \<in> set xs. l \<le> f y" using Cons.prems by force
    then have "filter (\<lambda>x. f x < l) xs = []" "filter (\<lambda>x. l \<le> f x) xs = xs" by (auto simp: filter_empty_conv filter_id_conv)
    then show ?thesis using False by simp
  qed (use Cons in simp)
qed simp

lemma window_rows_at:
  assumes "sorted (map ob_last rows)"
  shows "window_rows rows (first_at rows window i) i = window_at rows window i"
proof -
  let ?xs = "take (Suc i) rows"
  have "first_at rows window i \<le> Suc i"
    unfolding first_at_def using length_filter_le [of _ ?xs] by (metis length_take min.bounded_iff)
  moreover have "sorted (map ob_last ?xs)" using assms by (simp add: sorted_wrt_take flip: take_map)
  ultimately show ?thesis
    using drop_smaller [of ob_last ?xs "ob_last (rows ! i) - window"]
    by (simp add: window_rows_def window_at_def take_drop first_at_def)
qed

definition full_window :: "obs list \<Rightarrow> time \<Rightarrow> obs \<Rightarrow> obs set" where
  "full_window rows window r = {r' \<in> set rows. ob_last r - window \<le> ob_last r' \<and> ob_last r' \<le> ob_last r}"

lemma window_at_full:
  "sorted (map ob_last rows) \<Longrightarrow> i < length rows \<Longrightarrow> set (window_at rows window i) \<subseteq> full_window rows window (rows ! i)"
proof
  fix r assume s: "sorted (map ob_last rows)" "i < length rows" "r \<in> set (window_at rows window i)"
  then obtain k where "k < Suc i" "k < length rows" "r = rows ! k" by (auto simp: window_at_def in_set_conv_nth)
  then show "r \<in> full_window rows window (rows ! i)"
    using s sorted_from [of rows k i] by (auto simp: window_at_def full_window_def)
qed

lemma window_at_last:
  assumes "i < length rows" "0 \<le> window"
  shows "window_at rows window i \<noteq> []" "last (window_at rows window i) = rows ! i"
  using assms by (simp_all add: window_at_def take_Suc_conv_app_nth)

text \<open>The last of the rows seen at the same time has the whole window behind it.\<close>

lemma last_tie:
  assumes "sorted (map ob_last rows)" "r \<in> set rows"
  shows "\<exists>i < length rows. ob_last (rows ! i) = ob_last r \<and> set (window_at rows window i) = full_window rows window r"
proof -
  obtain k where k: "k < length rows" "rows ! k = r" using assms(2) by (auto simp: in_set_conv_nth)
  define K where "K = {i. i < length rows \<and> ob_last (rows ! i) \<le> ob_last r}"
  define i where "i = Max K"
  have fin: "finite K" and kK: "k \<in> K" using k by (auto simp: K_def)
  then have i: "i \<in> K" unfolding i_def by (intro Max_in) auto
  have ki: "k \<le> i" unfolding i_def by (rule Max_ge [OF fin kK])
  have eq: "ob_last (rows ! i) = ob_last r"
    using sorted_from [OF assms(1) ki] i k by (auto simp: K_def)
  have "set (window_at rows window i) = full_window rows window r"
  proof
    show "set (window_at rows window i) \<subseteq> full_window rows window r"
      using window_at_full [OF assms(1), of i window] i by (simp add: K_def full_window_def eq)
    show "full_window rows window r \<subseteq> set (window_at rows window i)"
    proof
      fix r' assume r': "r' \<in> full_window rows window r"
      then obtain k' where k': "k' < length rows" "rows ! k' = r'" by (auto simp: full_window_def in_set_conv_nth)
      then have "k' \<in> K" using r' by (auto simp: K_def full_window_def)
      then have "k' \<le> i" unfolding i_def by (rule Max_ge [OF fin])
      then have "take (Suc i) rows ! k' = r'" "k' < length (take (Suc i) rows)" using k' by auto
      then have "r' \<in> set (take (Suc i) rows)" using nth_mem by blast
      then show "r' \<in> set (window_at rows window i)" using r' by (simp add: window_at_def eq full_window_def)
    qed
  qed
  then show ?thesis using i eq by (auto simp: K_def)
qed

text \<open>When acceptance depends only on the time of the row (and the number of keys), the scan finds the largest window
  of all: one exists exactly when some row's whole window is accepted.\<close>

definition time_only :: "(obs \<Rightarrow> nat \<Rightarrow> bool) \<Rightarrow> obs list \<Rightarrow> bool" where
  "time_only accept rows \<longleftrightarrow>
     (\<forall>r \<in> set rows. \<forall>r' \<in> set rows. ob_last r = ob_last r' \<longrightarrow> accept r = accept r') \<and>
     (\<forall>r \<in> set rows. \<forall>m n. m \<le> n \<longrightarrow> accept r m \<longrightarrow> accept r n)"

lemma scan_largest:
  assumes "sorted (map ob_last rows)" "0 \<le> window" "time_only accept rows"
  shows "window_scan accept window key rows = None \<longleftrightarrow>
      (\<forall>r \<in> set rows. \<not> accept r (card (key ` full_window rows window r)))"
    "window_scan accept window key rows = Some (n, j, i) \<Longrightarrow>
      i < length rows \<and> window_rows rows j i = window_at rows window i \<and> last (window_rows rows j i) = rows ! i \<and>
      accept (rows ! i) n \<and> n = card (key ` full_window rows window (rows ! i)) \<and>
      key ` set (window_rows rows j i) = key ` full_window rows window (rows ! i) \<and>
      (\<forall>r \<in> set rows. accept r (card (key ` full_window rows window r)) \<longrightarrow> card (key ` full_window rows window r) \<le> n)"
proof -
  let ?acc = "\<lambda>i. accept (rows ! i) (keys_at key rows window i)"
  note scan = window_scan_ref [OF assms(1,2), of accept key, unfolded best_scan_ref]
  have fin: "finite (full_window rows window r)" for r by (simp add: full_window_def)
  have sub: "key ` set (window_at rows window i) \<subseteq> key ` full_window rows window (rows ! i)" if "i < length rows" for i
    using window_at_full [OF assms(1) that] by blast
  have up: "?acc i \<Longrightarrow> accept (rows ! i) (card (key ` full_window rows window (rows ! i)))" if "i < length rows" for i
    using assms(3) that card_mono [OF finite_imageI [OF fin] sub [OF that]] by (auto simp: time_only_def keys_at_def)
  have whole: "\<exists>i < length rows. ob_last (rows ! i) = ob_last r \<and> ?acc i \<and> keys_at key rows window i = card (key ` full_window rows window r)"
    if r: "r \<in> set rows" "accept r (card (key ` full_window rows window r))" for r
  proof -
    obtain i where i: "i < length rows" "ob_last (rows ! i) = ob_last r" "set (window_at rows window i) = full_window rows window r"
      using last_tie [OF assms(1) r(1)] by blast
    have "accept (rows ! i) = accept r"
      using assms(3) [unfolded time_only_def, THEN conjunct1] nth_mem [OF i(1)] i(2) r(1) by blast
    then have "?acc i" "keys_at key rows window i = card (key ` full_window rows window r)"
      using r(2) i(3) by (simp_all add: keys_at_def)
    then show ?thesis using i(1,2) by blast
  qed
  have none: "window_scan accept window key rows = None \<longleftrightarrow> (\<forall>i < length rows. \<not> ?acc i)"
    unfolding scan best_ref_None by (auto simp: filter_empty_conv)
  show "window_scan accept window key rows = None \<longleftrightarrow> (\<forall>r \<in> set rows. \<not> accept r (card (key ` full_window rows window r)))"
    unfolding none using up whole by (metis nth_mem)
  assume "window_scan accept window key rows = Some (n, j, i)"
  then have b: "best_ref ?acc (keys_at key rows window) (first_at rows window) [0..<length rows] = Some (n, j, i)"
    by (simp add: scan)
  note best = best_ref_Some [OF b]
  have i: "i < length rows" using best(1) by simp
  obtain i' where i': "i' < length rows" "ob_last (rows ! i') = ob_last (rows ! i)" "?acc i'"
      "keys_at key rows window i' = card (key ` full_window rows window (rows ! i))"
    using whole [OF nth_mem [OF i] up [OF i best(2)]] by blast
  have "card (key ` full_window rows window (rows ! i)) \<le> card (key ` set (window_at rows window i))"
    using best(3) best(5) [of i'] i' by (simp add: keys_at_def)
  then have eq: "key ` set (window_at rows window i) = key ` full_window rows window (rows ! i)"
    by (intro card_seteq finite_imageI fin sub i)
  have wr: "window_rows rows j i = window_at rows window i"
    unfolding best(4) by (rule window_rows_at [OF assms(1)])
  have "card (key ` full_window rows window r) \<le> n" if q: "r \<in> set rows" "accept r (card (key ` full_window rows window r))" for r
  proof -
    obtain i' where "i' < length rows" "?acc i'" "keys_at key rows window i' = card (key ` full_window rows window r)"
      using whole [OF q] by blast
    then show ?thesis using best(5) [of i'] by simp
  qed
  then show "i < length rows \<and> window_rows rows j i = window_at rows window i \<and> last (window_rows rows j i) = rows ! i \<and>
      accept (rows ! i) n \<and> n = card (key ` full_window rows window (rows ! i)) \<and>
      key ` set (window_rows rows j i) = key ` full_window rows window (rows ! i) \<and>
      (\<forall>r \<in> set rows. accept r (card (key ` full_window rows window r)) \<longrightarrow> card (key ` full_window rows window r) \<le> n)"
    using i wr window_at_last(2) [OF i assms(2)] best(2,3) eq by (auto simp: keys_at_def)
qed

end
