(* ===== verification/DetectorProofs.thy ===== *)
theory DetectorProofs
  imports DetectorWindow
begin

text \<open>
  The fan-out detector: which sources it reports and what each report says, over the observations that arrived live
  (a run is given no others).
\<close>

section \<open>Fan-out\<close>

definition fanout_legs :: "detector_input \<Rightarrow> obs list" where
  "fanout_legs inp = filter not_blocked (of_class inp EXECUTION_OR_DATA)"

text \<open>The targets of a connection's source in the window that ends when that connection was last seen.\<close>

definition fanout_targets :: "detector_input \<Rightarrow> obs \<Rightarrow> string set" where
  "fanout_targets inp r =
     ob_dst_key ` {r' \<in> set (fanout_legs inp). ob_src_key r' = ob_src_key r \<and>
        ob_last r - dg_fanout_window (di_config inp) \<le> ob_last r' \<and> ob_last r' \<le> ob_last r}"

definition target_keys :: "detection \<Rightarrow> string set" where
  "target_keys d = (\<lambda>(_, k, _). k) ` {e \<in> set (dt_ends d). fst e = ''t''}"

lemma target_keys_ends:
  "dt_ends d = ends sources targets \<Longrightarrow> target_keys d = ob_dst_key ` set targets"
  by (force simp: target_keys_def ends_def source_end_def target_end_def image_iff)

lemma map_filter_in: "y \<in> set (List.map_filter f xs) \<longleftrightarrow> (\<exists>x \<in> set xs. f x = Some y)"
  by (force simp: List.map_filter_def)

lemma with_segment_Inr: "with_segment d seg = Inr x \<longleftrightarrow> (\<exists>s. seg = Inr s \<and> x = d s)"
  by (cases seg) (auto simp: with_segment_def)

lemma collected: "traverse id (List.map_filter f xs) = Inr ds \<Longrightarrow> d \<in> set ds \<longleftrightarrow> (\<exists>x \<in> set xs. f x = Some (Inr d))"
  by (auto simp: traverse_mem map_filter_in)

lemma collected_total: "traverse id (List.map_filter f xs) = Inr ds \<Longrightarrow> x \<in> set xs \<Longrightarrow> f x = Some y \<Longrightarrow> \<exists>d \<in> set ds. y = Inr d"
proof -
  assume t: "traverse id (List.map_filter f xs) = Inr ds" "x \<in> set xs" "f x = Some y"
  then have "y \<in> set (List.map_filter f xs)" by (auto simp: map_filter_in)
  then have "y \<in> set (map id (List.map_filter f xs))" by simp
  then show ?thesis unfolding traverse_map [OF t(1)] by auto
qed

lemma sorted_items_set [simp]: "set (sorted_items d) = set d"
  by (simp add: sorted_items_def)

definition fanout_accept :: "detector_input \<Rightarrow> obs \<Rightarrow> nat \<Rightarrow> bool" where
  "fanout_accept inp r n \<longleftrightarrow> evaluable r inp \<and> dg_fanout_targets (di_config inp) \<le> n"

lemma fanout_rows:
  assumes "(src, rs) \<in> set (by_source (fanout_legs inp))" "r \<in> set rs"
  shows "ob_dst_key ` full_window (sort_key ob_last rs) (dg_fanout_window (di_config inp)) r = fanout_targets inp r"
    "r \<in> set (fanout_legs inp)" "ob_src_key r = src"
  using assms by (auto simp: by_source_def group_by_set full_window_def fanout_targets_def)

lemma fanout_time_only:
  assumes "\<forall>r \<in> set (di_obs inp). ob_origin r = ''ingest''" "(src, rs) \<in> set (by_source (fanout_legs inp))"
  shows "time_only (fanout_accept inp) (sort_key ob_last rs)"
proof -
  have "ob_origin r = ''ingest''" if "r \<in> set rs" for r
    using assms that by (auto simp: by_source_def group_by_set fanout_legs_def of_class_def)
  then show ?thesis by (auto simp: time_only_def fanout_accept_def evaluable_def fun_eq_iff)
qed

lemma fanout_of_cases:
  assumes "\<forall>r \<in> set (di_obs inp). ob_origin r = ''ingest''" "0 \<le> dg_fanout_window (di_config inp)"
    "(src, rs) \<in> set (by_source (fanout_legs inp))"
  shows "fanout_of inp (src, rs) = None \<longleftrightarrow> (\<forall>r \<in> set rs. \<not> fanout_accept inp r (card (fanout_targets inp r)))"
    "fanout_of inp (src, rs) = Some (Inr d) \<Longrightarrow> dt_subject_key d = src \<and>
       (\<exists>r \<in> set rs. fanout_accept inp r (card (fanout_targets inp r)) \<and> dt_last_seen d = ob_last r \<and>
          target_keys d = fanout_targets inp r \<and>
          dict_get (dt_summary d) ''targets'' = Some (int_fact (int (card (fanout_targets inp r)))) \<and>
          (\<forall>r' \<in> set rs. fanout_accept inp r' (card (fanout_targets inp r')) \<longrightarrow>
             card (fanout_targets inp r') \<le> card (fanout_targets inp r)))"
proof -
  let ?rows = "sort_key ob_last rs" and ?w = "dg_fanout_window (di_config inp)"
  let ?scan = "window_scan (fanout_accept inp) ?w ob_dst_key ?rows"
  have s: "sorted (map ob_last ?rows)" by simp
  have acc: "(\<lambda>o' n. evaluable o' inp \<and> dg_fanout_targets (di_config inp) \<le> n) = fanout_accept inp"
    by (simp add: fanout_accept_def fun_eq_iff)
  note largest = scan_largest [OF s assms(2) fanout_time_only [OF assms(1,3)], where key = ob_dst_key]
  note rows = fanout_rows [OF assms(3)]
  have none: "fanout_of inp (src, rs) = None \<longleftrightarrow> ?scan = None"
    by (auto simp: fanout_of_def Let_def acc split: option.splits)
  show "fanout_of inp (src, rs) = None \<longleftrightarrow> (\<forall>r \<in> set rs. \<not> fanout_accept inp r (card (fanout_targets inp r)))"
    unfolding none largest(1) by (simp add: rows(1))
  assume f: "fanout_of inp (src, rs) = Some (Inr d)"
  then obtain n j i where sc: "?scan = Some (n, j, i)" using none by (cases ?scan) auto
  note l = largest(2) [OF sc]
  let ?wr = "window_rows ?rows j i"
  have i: "?rows ! i \<in> set rs" using l nth_mem [of i ?rows] by simp
  have d: "dt_subject_key d = src" "dt_last_seen d = ob_last (last ?wr)" "dt_ends d = ends [last ?wr] ?wr"
    "dict_get (dt_summary d) ''targets'' = Some (int_fact (int n))"
    using f sc by (auto simp: fanout_of_def Let_def acc with_segment_Inr)
  have n: "n = card (fanout_targets inp (?rows ! i))" using l by (simp add: rows(1) [OF i])
  have "target_keys d = fanout_targets inp (?rows ! i)"
    unfolding target_keys_ends [OF d(3)] using l unfolding rows(1) [OF i] by blast
  moreover have "\<forall>r' \<in> set rs. fanout_accept inp r' (card (fanout_targets inp r')) \<longrightarrow>
      card (fanout_targets inp r') \<le> card (fanout_targets inp (?rows ! i))"
  proof -
    have "\<forall>r' \<in> set rs. fanout_accept inp r' (card (fanout_targets inp r')) \<longrightarrow> card (fanout_targets inp r') \<le> n"
    proof (intro ballI impI)
      fix r' assume q: "r' \<in> set rs" "fanout_accept inp r' (card (fanout_targets inp r'))"
      have "\<forall>r \<in> set ?rows. fanout_accept inp r (card (ob_dst_key ` full_window ?rows ?w r)) \<longrightarrow>
          card (ob_dst_key ` full_window ?rows ?w r) \<le> n" using l by blast
      from this [THEN bspec, of r'] show "card (fanout_targets inp r') \<le> n"
        using q unfolding rows(1) [OF q(1)] by simp
    qed
    then show ?thesis unfolding n .
  qed
  moreover have "fanout_accept inp (?rows ! i) (card (fanout_targets inp (?rows ! i)))"
  proof -
    have "fanout_accept inp (?rows ! i) n" using l by blast
    then show ?thesis unfolding n .
  qed
  ultimately show "dt_subject_key d = src \<and>
       (\<exists>r \<in> set rs. fanout_accept inp r (card (fanout_targets inp r)) \<and> dt_last_seen d = ob_last r \<and>
          target_keys d = fanout_targets inp r \<and>
          dict_get (dt_summary d) ''targets'' = Some (int_fact (int (card (fanout_targets inp r)))) \<and>
          (\<forall>r' \<in> set rs. fanout_accept inp r' (card (fanout_targets inp r')) \<longrightarrow>
             card (fanout_targets inp r') \<le> card (fanout_targets inp r)))"
    using d l n i by (intro conjI bexI [of _ "?rows ! i"]) auto
qed

definition fanout_found :: "detector_input \<Rightarrow> detection \<Rightarrow> obs \<Rightarrow> bool" where
  "fanout_found inp d r \<longleftrightarrow> r \<in> set (fanout_legs inp) \<and> ob_src_key r = dt_subject_key d \<and>
     fanout_accept inp r (card (fanout_targets inp r)) \<and> ob_last r = dt_last_seen d \<and> target_keys d = fanout_targets inp r \<and>
     dict_get (dt_summary d) ''targets'' = Some (int_fact (int (card (fanout_targets inp r)))) \<and>
     (\<forall>r' \<in> set (fanout_legs inp). ob_src_key r' = ob_src_key r \<and> evaluable r' inp \<longrightarrow>
        card (fanout_targets inp r') \<le> card (fanout_targets inp r))"

lemma fanout_sound:
  assumes "\<forall>r \<in> set (di_obs inp). ob_origin r = ''ingest''" "0 \<le> dg_fanout_window (di_config inp)"
    "(src, rs) \<in> set (by_source (fanout_legs inp))" "fanout_of inp (src, rs) = Some (Inr d)"
  shows "\<exists>r. fanout_found inp d r"
proof -
  obtain r where r: "r \<in> set rs" "fanout_accept inp r (card (fanout_targets inp r))" "dt_last_seen d = ob_last r"
      "target_keys d = fanout_targets inp r"
      "dict_get (dt_summary d) ''targets'' = Some (int_fact (int (card (fanout_targets inp r))))"
    and big: "\<forall>r' \<in> set rs. fanout_accept inp r' (card (fanout_targets inp r')) \<longrightarrow>
        card (fanout_targets inp r') \<le> card (fanout_targets inp r)" and src: "dt_subject_key d = src"
    using fanout_of_cases(2) [OF assms] by blast
  have "card (fanout_targets inp r') \<le> card (fanout_targets inp r)"
    if q: "r' \<in> set (fanout_legs inp)" "ob_src_key r' = ob_src_key r" "evaluable r' inp" for r'
  proof (cases "dg_fanout_targets (di_config inp) \<le> card (fanout_targets inp r')")
    case True
    have "r' \<in> set rs" using assms(3) q fanout_rows(3) [OF assms(3) r(1)] by (auto simp: by_source_def group_by_set)
    then show ?thesis using big True q(3) by (simp add: fanout_accept_def)
  next
    case False
    then show ?thesis using r(2) by (simp add: fanout_accept_def)
  qed
  then show ?thesis using r src fanout_rows(2,3) [OF assms(3) r(1)] by (auto simp: fanout_found_def intro!: exI [of _ r])
qed

lemma fanout_complete:
  assumes "\<forall>r \<in> set (di_obs inp). ob_origin r = ''ingest''" "0 \<le> dg_fanout_window (di_config inp)"
    "traverse id (List.map_filter (fanout_of inp) (sorted_items (by_source (fanout_legs inp)))) = Inr ds"
    "r \<in> set (fanout_legs inp)" "fanout_accept inp r (card (fanout_targets inp r))"
  shows "ob_src_key r \<in> dt_subject_key ` set ds"
proof -
  let ?rs = "filter (\<lambda>r'. ob_src_key r' = ob_src_key r) (fanout_legs inp)"
  have e: "(ob_src_key r, ?rs) \<in> set (by_source (fanout_legs inp))" using assms(4) by (simp add: by_source_def group_by_set)
  note cases' = fanout_of_cases [OF assms(1,2) e]
  have "r \<in> set ?rs" using assms(4) by simp
  then obtain y where y: "fanout_of inp (ob_src_key r, ?rs) = Some y" using cases'(1) assms(5) by blast
  then obtain d where "d \<in> set ds" "y = Inr d" using collected_total [OF assms(3) _ y] e by auto
  then show ?thesis using cases'(2) y by force
qed

text \<open>C38. The fan-out detector reports exactly the sources that, within some window ending at a connection of this
  run, connected to at least the configured number of hosts; each report carries every target of such a window of
  largest size, and its count is the number of those targets.\<close>

theorem fanout_exact:
  assumes "\<forall>r \<in> set (di_obs inp). ob_origin r = ''ingest''" "0 \<le> dg_fanout_window (di_config inp)"
    "fst (detect_fanout inp) = Inr ds"
  shows "dt_subject_key ` set ds = ob_src_key `
      {r \<in> set (fanout_legs inp). evaluable r inp \<and> dg_fanout_targets (di_config inp) \<le> card (fanout_targets inp r)} \<and>
    (\<forall>d \<in> set ds. \<exists>r \<in> set (fanout_legs inp). ob_src_key r = dt_subject_key d \<and> evaluable r inp \<and> ob_last r = dt_last_seen d \<and>
       target_keys d = fanout_targets inp r \<and>
       dict_get (dt_summary d) ''targets'' = Some (int_fact (int (card (fanout_targets inp r)))) \<and>
       (\<forall>r' \<in> set (fanout_legs inp). ob_src_key r' = ob_src_key r \<and> evaluable r' inp \<longrightarrow>
          card (fanout_targets inp r') \<le> card (fanout_targets inp r)))"
proof -
  let ?found = "{r \<in> set (fanout_legs inp). evaluable r inp \<and> dg_fanout_targets (di_config inp) \<le> card (fanout_targets inp r)}"
  have t: "traverse id (List.map_filter (fanout_of inp) (sorted_items (by_source (fanout_legs inp)))) = Inr ds"
    using assms(3) by (simp add: detect_fanout_def fanout_legs_def)
  have each: "\<exists>r. fanout_found inp d r" if d: "d \<in> set ds" for d
  proof -
    obtain src rs where "(src, rs) \<in> set (by_source (fanout_legs inp))" "fanout_of inp (src, rs) = Some (Inr d)"
      using d by (auto simp: collected [OF t])
    then show ?thesis by (rule fanout_sound [OF assms(1,2)])
  qed
  have "dt_subject_key ` set ds \<subseteq> ob_src_key ` ?found"
  proof
    fix s assume "s \<in> dt_subject_key ` set ds"
    then obtain d where d: "d \<in> set ds" "s = dt_subject_key d" by blast
    from each [OF d(1)] obtain r where r: "r \<in> ?found" "ob_src_key r = dt_subject_key d"
      by (auto simp: fanout_found_def fanout_accept_def)
    show "s \<in> ob_src_key ` ?found" by (rule image_eqI [OF _ r(1)]) (simp only: d(2) r(2))
  qed
  moreover have "ob_src_key ` ?found \<subseteq> dt_subject_key ` set ds"
    using fanout_complete [OF assms(1,2) t] by (auto simp: fanout_accept_def)
  ultimately show ?thesis using each unfolding fanout_found_def fanout_accept_def by blast
qed

definition example_config :: detector_config where
  "example_config =
     \<lparr> dg_fanout_targets = 2, dg_fanout_window = 10 * MINUTE, dg_account_fanout_targets = 2,
       dg_account_fanout_window = 10 * MINUTE, dg_chain_window = HOUR, dg_blocked_targets = 2, dg_blocked_window = HOUR,
       dg_blocked_surge_factor = 3, dg_exclude_system_accounts = True, dg_precursor_window = DAY, dg_expected = [],
       dg_admin_ports = [\<lparr> ap_port = 22, ap_proto = Some 6, ap_name = None, ap_source = PS_ADDED, ap_category = PC_REMOTE \<rparr>],
       dg_environment_label_key = ''env'', dg_admin_groups_configured = False, dg_environment_labels_present = False,
       dg_admin_groups_stale = False, dg_peer_group_keys = [''app'', ''role''], dg_peer_min_group = 5,
       dg_volume_surge_factor = 3, dg_volume_min_connections = 1000, dg_volume_min_bytes = 1024 * 2 ^ 20,
       dg_directory_min_connections = 500, dg_account_history = 7 * DAY, dg_process_history = 7 * DAY,
       dg_suspicious_tools = [], dg_directory_followup = 30 * MINUTE, dg_quiet = 7 * DAY, dg_quiet_min_connections = 100,
       dg_staging_min_sources = 5, dg_staging_min_bytes = 1024 * 2 ^ 20, dg_off_hours_min_connections = 100,
       dg_off_hours_min_days = 5 \<rparr>"

definition example_anomaly :: anomaly_data where
  "example_anomaly =
     \<lparr> an_peer_seen = [], an_group_sizes = [], an_activity = [], an_activity_days = 0, an_activity_gaps = [], an_live = True,
       an_account_first = [], an_account_since = [], an_account_sources = [], an_process_first = [], an_process_since = [],
       an_directory_servers = [], an_directory_ips = [], an_directory_inferred = 0, an_directory_declared_missing = 0,
       an_directory_clients_before = [], an_recent_directory = [], an_pairs_before = [], an_pair_ports = [],
       an_ports_served = [], an_recent = [], an_active_hours = [], an_known_before_quiet = [], an_active_just_before = [],
       an_hours_days = 0, an_hours_gaps = [], an_fan_in = [], an_fan_in_coverage = (0, 0), an_fan_in_gaps = [],
       an_destination_days = 0 \<rparr>"

definition example_host :: host_lookup where
  "example_host key ip hostname labels =
     \<lparr> hi_key = key, hi_href = None, hi_hostname = hostname, hi_managed = False, hi_labels = labels,
       hi_enforcement_mode = None, hi_visibility_level = None, hi_os_id = None, hi_ven_href = None, hi_critical = False,
       hi_admin_group = False \<rparr>"

definition example_obs :: "string \<Rightarrow> string \<Rightarrow> time \<Rightarrow> obs" where
  "example_obs src dst t =
     \<lparr> ob_src_key = ''ip:'' @ src, ob_dst_key = ''ip:'' @ dst, ob_src_href = Some src, ob_dst_href = Some dst, ob_src_ip = src,
       ob_dst_ip = dst, ob_src_hostname = None, ob_dst_hostname = None, ob_port = Some 22, ob_proto = 6,
       ob_decision = ''allowed'', ob_first = t, ob_last = t, ob_num_connections = 1, ob_initiator_user = None,
       ob_initiator_process = None, ob_src_labels = [], ob_dst_labels = [], ob_src_managed = False, ob_origin = ''ingest'' \<rparr>"

definition example_input :: detector_input where
  "example_input =
     \<lparr> di_window = (0, HOUR),
       di_obs = [example_obs ''10.0.0.1'' ''10.0.0.2'' MINUTE, example_obs ''10.0.0.1'' ''10.0.0.3'' (2 * MINUTE)],
       di_blocked_obs = [], di_hosts = example_host, di_baseline_first_seen = [], di_precursors = [],
       di_config = example_config, di_baseline_days = 0, di_baseline_required = 7, di_baseline_full = False, di_gaps = [],
       di_blocked_history = [], di_traffic_obs = [], di_anomaly = example_anomaly \<rparr>"

lemma example_fanout: "\<exists>d. fst (detect_fanout example_input) = Inr [d] \<and> dt_subject_key d = ''ip:10.0.0.1''"
proof -
  have "case fst (detect_fanout example_input) of Inr [d] \<Rightarrow> dt_subject_key d = ''ip:10.0.0.1'' | _ \<Rightarrow> False" by code_simp
  then show ?thesis by (auto split: sum.splits list.splits)
qed

theorem fanout_exact_witness:
  "\<exists>r \<in> set (fanout_legs example_input). ob_src_key r = ''ip:10.0.0.1'' \<and> 2 \<le> card (fanout_targets example_input r)"
proof -
  obtain d where d: "fst (detect_fanout example_input) = Inr [d]" "dt_subject_key d = ''ip:10.0.0.1''"
    using example_fanout by blast
  have "\<forall>r \<in> set (di_obs example_input). ob_origin r = ''ingest''" "0 \<le> dg_fanout_window (di_config example_input)"
    "dg_fanout_targets (di_config example_input) = 2"
    by (simp_all add: example_input_def example_config_def example_obs_def MINUTE_def)
  note h = this
  have "dt_subject_key d \<in> dt_subject_key ` set [d]" by simp
  then have "''ip:10.0.0.1'' \<in> ob_src_key ` {r \<in> set (fanout_legs example_input).
      evaluable r example_input \<and> 2 \<le> card (fanout_targets example_input r)}"
    unfolding fanout_exact [OF h(1,2) d(1), THEN conjunct1, unfolded h(3)] d(2) .
  then obtain r where "r \<in> set (fanout_legs example_input)" "2 \<le> card (fanout_targets example_input r)"
    "''ip:10.0.0.1'' = ob_src_key r" by (elim imageE CollectE conjE) (rule that)
  then show ?thesis by (intro bexI [of _ r]) simp_all
qed

end
