(* ===== verification/Anomaly.thy ===== *)
theory Anomaly
  imports Detectors
begin

text \<open>
  \<open>domain/anomaly.py\<close>: anomalies in the traffic that was not blocked, each host and group compared with its own
  history. They read the run's connections and what the service looked up (\<open>anomaly_data\<close>); times are whole
  microseconds in UTC, the dashes in texts are the character 1 (em dash) and 2 (en dash).
\<close>

section \<open>Peer groups\<close>

definition DYNAMIC_PORTS :: int where "DYNAMIC_PORTS = 49152"
definition PEER_ROLLOUT :: rat where "PEER_ROLLOUT = 1 / 2"
definition SURGE_WINDOW :: time where "SURGE_WINDOW = 60 * MINUTE"
definition ACTIVITY_DAYS :: rat where "ACTIVITY_DAYS = 7"

definition NOT_BLOCKED :: "policy_decision list" where
  "NOT_BLOCKED = [PD_ALLOWED, PD_POTENTIALLY_BLOCKED, PD_UNKNOWN]"

definition group_of :: "(string, string) dict \<Rightarrow> string list \<Rightarrow> string option" where
  "group_of labels keys =
     (let vals = map (dict_get labels) keys
      in if list_all truthy_str vals then Some (py_join ''|'' (map or_empty vals)) else None)"

definition public_ip :: "string \<Rightarrow> bool" where
  "public_ip ip = (case ip_address ip of None \<Rightarrow> False | Some a \<Rightarrow> is_global a)"

definition target_signature :: "string \<Rightarrow> string \<Rightarrow> host_info \<Rightarrow> string list \<Rightarrow> string option" where
  "target_signature key ip host keys =
     (if hi_managed host then
        (let g = group_of (hi_labels host) keys in Some (if truthy_str g then ''g:'' @ or_empty g else key))
      else if public_ip ip then None else Some key)"

definition group_shown :: "string \<Rightarrow> string" where
  "group_shown g = py_join '' / '' (split_on CHR ''|'' g)"

definition ip_key :: "string \<Rightarrow> bool" where "ip_key key \<longleftrightarrow> startswith key ''ip:''"

definition key_endpoint :: "string \<Rightarrow> string \<Rightarrow> endpoint_filter" where
  "key_endpoint key ip =
     (if ip_key key \<or> key = '''' then any_endpoint \<lparr> ep_ips := [ip] \<rparr> else any_endpoint \<lparr> ep_hrefs := [key] \<rparr>)"

definition one_port :: "int \<Rightarrow> int \<Rightarrow> port_proto" where
  "one_port port proto = \<lparr> pp_port = Some port, pp_to_port = None, pp_proto = Some proto \<rparr>"

text \<open>The peer group of a source, when it is managed, in a group, and the group is large enough.\<close>

definition peer_group :: "detector_input \<Rightarrow> obs \<Rightarrow> string option" where
  "peer_group inp o' =
     (if hi_managed (src_host o' inp) then group_of (hi_labels (src_host o' inp)) (dg_peer_group_keys (di_config inp)) else None)"

definition group_size :: "detector_input \<Rightarrow> string \<Rightarrow> nat" where
  "group_size inp g = (case dict_get (an_group_sizes (di_anomaly inp)) g of None \<Rightarrow> 0 | Some n \<Rightarrow> n)"

definition peer_saw :: "detector_input \<Rightarrow> string \<Rightarrow> obs \<Rightarrow> string \<Rightarrow> bool" where
  "peer_saw inp g o' sig \<longleftrightarrow>
     (case ob_port o' of None \<Rightarrow> False
      | Some p \<Rightarrow> (case dict_get (an_peer_seen (di_anomaly inp)) (g, p, ob_proto o') of None \<Rightarrow> False | Some s \<Rightarrow> sig \<in> set s))"

definition obs_signature :: "detector_input \<Rightarrow> obs \<Rightarrow> string option" where
  "obs_signature inp o' =
     target_signature (ob_dst_key o') (ob_dst_ip o') (dst_host o' inp) (dg_peer_group_keys (di_config inp))"

definition in_traffic :: "detector_input \<Rightarrow> obs list" where
  "in_traffic inp = filter (\<lambda>o'. evaluable o' inp \<and> not_blocked o') (di_traffic_obs inp)"

definition service_port :: "detector_input \<Rightarrow> obs \<Rightarrow> bool" where
  "service_port inp o' \<longleftrightarrow>
     (case ob_port o' of None \<Rightarrow> False
      | Some p \<Rightarrow> p < DYNAMIC_PORTS \<and> \<not> admin_matches (dg_admin_ports (di_config inp)) (Some p) (ob_proto o') None)"

type_synonym peer_key = "string \<times> string \<times> int \<times> int \<times> string"

definition peer_key_of :: "detector_input \<Rightarrow> obs \<Rightarrow> peer_key option" where
  "peer_key_of inp o' =
     (if \<not> service_port inp o' \<or> \<not> first_in_window inp (conn_key_of o') then None
      else case peer_group inp o' of None \<Rightarrow> None
      | Some g \<Rightarrow>
          (if group_size inp g < dg_peer_min_group (di_config inp) then None
           else case obs_signature inp o' of None \<Rightarrow> None
           | Some sig \<Rightarrow> (if peer_saw inp g o' sig then None else Some (g, sig, the (ob_port o'), ob_proto o', ob_src_key o'))))"

text \<open>The rows a key function takes, with their keys.\<close>

definition keyed :: "(obs \<Rightarrow> 'k option) \<Rightarrow> obs list \<Rightarrow> ('k \<times> obs) list" where
  "keyed key rows = List.map_filter (\<lambda>o'. map_option (\<lambda>k. (k, o')) (key o')) rows"

definition grouped :: "(obs \<Rightarrow> 'k option) \<Rightarrow> obs list \<Rightarrow> ('k, obs list) dict" where
  "grouped key rows = fold (\<lambda>(k, o'). dict_append k o') (keyed key rows) []"

definition tally :: "'k list \<Rightarrow> ('k, int) dict" where "tally ks = fold counter_add ks []"

definition counted :: "('k, int) dict \<Rightarrow> 'k \<Rightarrow> int" where
  "counted d k = (case dict_get d k of None \<Rightarrow> 0 | Some n \<Rightarrow> n)"

definition peer_deviation_of ::
  "detector_input \<Rightarrow> (string \<times> string \<times> int \<times> int, int) dict \<Rightarrow> peer_key \<times> obs list \<Rightarrow> (filter_error + detection) option" where
  "peer_deviation_of inp starters entry =
     (case entry of ((grp, sig, port, proto, src), hits) \<Rightarrow>
        let o' = hd hits; size' = group_size inp grp; n = counted starters (grp, sig, port, proto)
        in if of_nat size' * PEER_ROLLOUT \<le> of_int n then None
           else
             let critical = hi_critical (dst_host o' inp); target = dst_shown o'
             in Some (with_segment (\<lambda>seg.
                  \<lparr> dt_detector = DK_PEER_DEVIATION,
                    dt_fingerprint = ''peer|'' @ src @ ''|'' @ sig @ ''|'' @ str_of_int port @ ''|'' @ str_of_int proto,
                    dt_subject_key = src, dt_severity = raised_if critical SEV_MEDIUM, dt_first_seen = ob_first o',
                    dt_last_seen = ob_last o', dt_critical_asset = critical,
                    dt_summary = [(''target'', text_fact target),
                      (''target_group'', text_fact (if startswith sig ''g:'' then group_shown (drop 2 sig) else target)),
                      (''port'', int_fact port), (''proto'', int_fact proto), (''group'', text_fact (group_shown grp)),
                      (''group_size'', int_fact (int size')), (''starters'', int_fact n), (''decision'', text_fact (ob_decision o'))],
                    dt_segment = seg, dt_confidence = baseline_confidence inp, dt_ends = ends [o'] hits \<rparr>)
                (detail_segment
                   (any_flow \<lparr> fc_src := Some (key_endpoint src (ob_src_ip o')),
                              fc_dst := Some (key_endpoint (ob_dst_key o') (ob_dst_ip o')), fc_ports := [one_port port proto] \<rparr>)
                   (ob_first o') (after_start (ob_first o') (ob_last o')))))"

definition detect_peer_deviation :: "detector_input \<Rightarrow> outcome" where
  "detect_peer_deviation inp =
     (let cfg = di_config inp in
      if \<not> di_baseline_full inp then (Inr [], accumulating DK_PEER_DEVIATION inp)
      else if \<not> list_ex (\<lambda>(_, n). dg_peer_min_group cfg \<le> n) (an_group_sizes (di_anomaly inp)) then
        (Inr [], status_of DK_PEER_DEVIATION DS_NO_DATA (Some ''detector_no_peer_groups'')
           [(''keys'', text_fact (py_join '', '' (dg_peer_group_keys cfg))), (''min'', int_fact (int (dg_peer_min_group cfg)))])
      else
        (let found = grouped (peer_key_of inp) (in_traffic inp);
             starters = tally (map (\<lambda>((g, s, p, pr, _), _). (g, s, p, pr)) found)
         in (traverse id (List.map_filter (peer_deviation_of inp starters) (sorted_items found)), ok_status DK_PEER_DEVIATION)))"

section \<open>Surges\<close>

definition surge_over :: "detector_config \<Rightarrow> int \<Rightarrow> int \<Rightarrow> int \<Rightarrow> bool" where
  "surge_over cfg now previous lowest \<longleftrightarrow>
     lowest \<le> now \<and> (previous = 0 \<or> dg_volume_surge_factor cfg * of_int previous \<le> of_int now)"

definition src_ip_of :: "detector_input \<Rightarrow> string \<Rightarrow> string" where
  "src_ip_of inp src =
     (if ip_key src then drop 3 src
      else case find (\<lambda>o'. ob_src_key o' = src) (di_traffic_obs inp) of None \<Rightarrow> '''' | Some o' \<Rightarrow> ob_src_ip o')"

definition dst_ip_of :: "detector_input \<Rightarrow> string \<Rightarrow> string" where
  "dst_ip_of inp dst =
     (if ip_key dst then drop 3 dst
      else case find (\<lambda>o'. ob_dst_key o' = dst) (di_traffic_obs inp) of None \<Rightarrow> '''' | Some o' \<Rightarrow> ob_dst_ip o')"

definition EM_DASH :: string where "EM_DASH = [char_of (1 :: nat)]"

definition mb_fact :: "int option \<Rightarrow> fact" where
  "mb_fact v = (case v of None \<Rightarrow> text_fact EM_DASH | Some n \<Rightarrow> int_fact (round_half_even (of_int n / 2 ^ 20)))"

definition activity_accumulating :: "detector_kind \<Rightarrow> rat \<Rightarrow> rat \<Rightarrow> detector_status" where
  "activity_accumulating kind days required =
     status_of kind DS_ACCUMULATING (Some ''detector_activity_accumulating'')
       [(''days'', FN (if days \<noteq> 0 then round1 (days - 5 / 100) else 0)), (''required'', int_fact \<lfloor>required\<rfloor>)]"

definition live_only :: "detector_kind \<Rightarrow> detector_status" where
  "live_only kind = status_of kind DS_OK (Some ''detector_live_only'') []"

definition surged :: "detector_config \<Rightarrow> string \<Rightarrow> int \<Rightarrow> activity \<Rightarrow> bool" where
  "surged cfg cls min_connections a \<longleftrightarrow>
     surge_over cfg (ac_connections a) (ac_previous_connections a) min_connections \<or>
     (cls = ''all'' \<and>
        (case (ac_bytes a, ac_previous_bytes a) of
           (Some b, Some p) \<Rightarrow> surge_over cfg b p (dg_volume_min_bytes cfg) | _ \<Rightarrow> False))"

definition surge_of ::
  "detector_input \<Rightarrow> detector_kind \<Rightarrow> string \<Rightarrow> int \<Rightarrow> string \<Rightarrow> (string \<times> string) \<times> activity \<Rightarrow> (filter_error + detection) option" where
  "surge_of inp kind cls min_connections prefix entry =
     (case entry of ((src, c), a) \<Rightarrow>
        if c \<noteq> cls \<or> \<not> surged (di_config inp) cls min_connections a then None
        else
          let hi = snd (di_window inp); ip = src_ip_of inp src; critical = hi_critical (di_hosts inp src ip None []);
              ports = (if cls = ''directory'' then admin_filters (dg_admin_ports (di_config inp)) (Some [PC_DIRECTORY]) else [])
          in Some (with_segment (\<lambda>seg.
               \<lparr> dt_detector = kind, dt_fingerprint = prefix @ ''|'' @ src, dt_subject_key = src,
                 dt_severity = raised_if critical SEV_MEDIUM, dt_first_seen = hi - SURGE_WINDOW, dt_last_seen = hi,
                 dt_critical_asset = critical,
                 dt_summary = [(''connections'', int_fact (ac_connections a)), (''bytes'', opt_int_fact (ac_bytes a)),
                   (''previous_max'', int_fact (ac_previous_connections a)),
                   (''previous_max_bytes'', opt_int_fact (ac_previous_bytes a)), (''mb'', mb_fact (ac_bytes a)),
                   (''previous_max_mb'', mb_fact (ac_previous_bytes a)), (''window_minutes'', in_minutes SURGE_WINDOW)],
                 dt_segment = seg, dt_confidence = gaps_only (di_gaps inp @ an_activity_gaps (di_anomaly inp)),
                 dt_ends = [(''s'', src, ip)] \<rparr>)
             (detail_segment (any_flow \<lparr> fc_src := Some (key_endpoint src ip), fc_decisions := NOT_BLOCKED, fc_ports := ports \<rparr>)
                (hi - SURGE_WINDOW) hi)))"

definition history_status :: "detector_kind \<Rightarrow> gap list \<Rightarrow> detector_status" where
  "history_status kind gaps =
     (if gaps \<noteq> [] then status_of kind DS_INCOMPLETE None [(''history_gaps'', int_fact (int (length gaps)))] else ok_status kind)"

definition detect_surge :: "detector_input \<Rightarrow> detector_kind \<Rightarrow> string \<Rightarrow> int \<Rightarrow> string \<Rightarrow> outcome" where
  "detect_surge inp kind cls min_connections prefix =
     (let data = di_anomaly inp in
      if \<not> an_live data then (Inr [], live_only kind)
      else if an_activity_days data < ACTIVITY_DAYS then (Inr [], activity_accumulating kind (an_activity_days data) ACTIVITY_DAYS)
      else (traverse id (List.map_filter (surge_of inp kind cls min_connections prefix) (sorted_items (an_activity data))),
            history_status kind (an_activity_gaps data)))"

definition detect_volume_surge :: "detector_input \<Rightarrow> outcome" where
  "detect_volume_surge inp =
     detect_surge inp DK_VOLUME_SURGE ''all'' (dg_volume_min_connections (di_config inp)) ''volume''"

section \<open>Accounts, tools and processes\<close>

definition span_start :: "obs list \<Rightarrow> time" where "span_start rows = Min (set (map ob_first rows))"
definition span_last :: "obs list \<Rightarrow> time" where "span_last rows = Max (set (map ob_last rows))"

text \<open>\<open>_span\<close>\<close>

definition span_stop :: "obs list \<Rightarrow> time" where "span_stop rows = after_start (span_start rows) (span_last rows)"

text \<open>First seen in the window, on a subject whose own history reaches far enough back.\<close>

definition fresh_on_known :: "detector_input \<Rightarrow> time option \<Rightarrow> time option \<Rightarrow> time \<Rightarrow> bool" where
  "fresh_on_known inp seen since history \<longleftrightarrow>
     (case (seen, since) of
        (Some f, Some s) \<Rightarrow> fst (di_window inp) < f \<and> f \<le> snd (di_window inp) \<and> s \<le> fst (di_window inp) - history
      | _ \<Rightarrow> False)"

definition new_source_key :: "detector_input \<Rightarrow> obs \<Rightarrow> (string \<times> string) option" where
  "new_source_key inp o' =
     (case judged_account (di_config inp) (ob_initiator_user o') of
        None \<Rightarrow> None
      | Some account \<Rightarrow>
          (if fresh_on_known inp (dict_get (an_account_first (di_anomaly inp)) (account, ob_src_key o'))
                (dict_get (an_account_since (di_anomaly inp)) account) (dg_account_history (di_config inp))
           then Some (account, ob_src_key o') else None))"

definition new_source_of ::
  "detector_input \<Rightarrow> nat \<Rightarrow> nat \<Rightarrow> (string \<times> string) \<times> obs list \<Rightarrow> filter_error + detection" where
  "new_source_of inp covered whole entry =
     (case entry of ((account, src), hits) \<Rightarrow>
        let data = di_anomaly inp; o' = hd hits; critical = any_critical inp hits
        in with_segment (\<lambda>seg.
             \<lparr> dt_detector = DK_ACCOUNT_NEW_SOURCE, dt_fingerprint = ''acctsrc|'' @ account @ ''|'' @ src,
               dt_subject_key = account, dt_severity = raised_if critical SEV_MEDIUM,
               dt_first_seen = the (dict_get (an_account_first data) (account, src)), dt_last_seen = span_last hits,
               dt_critical_asset = critical,
               dt_summary = [(''user'', text_fact (or_empty (ob_initiator_user o'))), (''source'', text_fact (src_shown o')),
                 (''known_sources'', int_fact (case dict_get (an_account_sources data) account of None \<Rightarrow> 0 | Some n \<Rightarrow> n)),
                 (''sample_targets'', text_facts (target_names hits))],
               dt_segment = seg, dt_confidence = field_confidence ''initiator_user'' covered whole (di_gaps inp),
               dt_ends = ends hits hits \<rparr>)
           (detail_segment
              (any_flow \<lparr> fc_src := Some (key_endpoint src (ob_src_ip o')), fc_initiator_user := ob_initiator_user o',
                         fc_decisions := NOT_BLOCKED \<rparr>) (span_start hits) (span_stop hits)))"

definition detect_account_new_source :: "detector_input \<Rightarrow> outcome" where
  "detect_account_new_source inp =
     (let kind = DK_ACCOUNT_NEW_SOURCE; rows = in_traffic inp; covered = filter has_user rows in
      if \<not> di_baseline_full inp then (Inr [], accumulating kind inp)
      else if rows \<noteq> [] \<and> covered = [] then
        (Inr [], status_of kind DS_NO_DATA (Some ''detector_no_user_data'') (covered_params 0 (length rows)))
      else
        (traverse (new_source_of inp (length covered) (length rows)) (sorted_items (grouped (new_source_key inp) covered)),
         coverage_status kind (''detector_partial_users'', ''detector_partial_users_none_from'')
           (covered_params (length covered) (length rows)) (length covered < length rows) (kinds_without rows has_user inp)))"

definition process_status :: "detector_kind \<Rightarrow> detector_input \<Rightarrow> obs list \<Rightarrow> obs list \<Rightarrow> detector_status" where
  "process_status kind inp rows covered =
     coverage_status kind (''detector_partial_processes'', ''detector_partial_processes_none_from'')
       (covered_params (length covered) (length rows)) (length covered < length rows) (kinds_without rows has_process inp)"

definition no_process_field :: "detector_kind \<Rightarrow> obs list \<Rightarrow> detector_status" where
  "no_process_field kind rows =
     status_of kind DS_NO_DATA (Some ''detector_no_process_field'') [(''total'', int_fact (int (length rows)))]"

definition internal :: "obs \<Rightarrow> detector_input \<Rightarrow> bool" where
  "internal o' inp \<longleftrightarrow> hi_managed (dst_host o' inp) \<or> \<not> public_ip (ob_dst_ip o')"

definition judged_elsewhere :: "obs \<Rightarrow> detector_input \<Rightarrow> bool" where
  "judged_elsewhere o' inp \<longleftrightarrow>
     (case ob_port o' of None \<Rightarrow> False
      | Some p \<Rightarrow>
          (dict_get (dg_expected (di_config inp)) (p, Some (ob_proto o')) \<noteq> None \<or> dict_get (dg_expected (di_config inp)) (p, None) \<noteq> None) \<and>
          admin_matches (dg_admin_ports (di_config inp)) (ob_port o') (ob_proto o') (Some EXECUTION))"

definition process_of :: "obs \<Rightarrow> string" where "process_of o' = or_empty (ob_initiator_process o')"

definition tool_key :: "detector_input \<Rightarrow> obs \<Rightarrow> (string \<times> string) option" where
  "tool_key inp o' =
     (if process_of o' \<notin> set (dg_suspicious_tools (di_config inp)) \<or> \<not> internal o' inp \<or> judged_elsewhere o' inp then None
      else Some (ob_src_key o', process_of o'))"

definition process_segment :: "string \<Rightarrow> string \<Rightarrow> obs list \<Rightarrow> filter_error + flow_segment" where
  "process_segment src process hits =
     detail_segment (any_flow \<lparr> fc_src := Some (key_endpoint src (ob_src_ip (hd hits))), fc_initiator_process := Some process \<rparr>)
       (span_start hits) (span_stop hits)"

definition tool_of :: "detector_input \<Rightarrow> nat \<Rightarrow> nat \<Rightarrow> (string \<times> string) \<times> obs list \<Rightarrow> filter_error + detection" where
  "tool_of inp covered whole entry =
     (case entry of ((src, process), hits) \<Rightarrow>
        let o' = hd hits; critical = any_critical inp hits
        in with_segment (\<lambda>seg.
             \<lparr> dt_detector = DK_SUSPICIOUS_TOOL, dt_fingerprint = ''tool|'' @ src @ ''|'' @ process, dt_subject_key = src,
               dt_severity = raised_if critical SEV_MEDIUM, dt_first_seen = span_start hits, dt_last_seen = span_last hits,
               dt_critical_asset = critical,
               dt_summary = [(''process'', text_fact process), (''port'', opt_int_fact (ob_port o')),
                 (''target'', text_fact (dst_shown o')), (''targets'', int_fact (int (length (nub (map ob_dst_key hits))))),
                 (''sample_targets'', text_facts (target_names hits))],
               dt_segment = seg, dt_confidence = field_confidence ''initiator_process'' covered whole (di_gaps inp),
               dt_ends = ends [o'] hits \<rparr>)
           (process_segment src process hits))"

definition detect_suspicious_tool :: "detector_input \<Rightarrow> outcome" where
  "detect_suspicious_tool inp =
     (let kind = DK_SUSPICIOUS_TOOL; rows = in_traffic inp; covered = filter has_process rows in
      if dg_suspicious_tools (di_config inp) = [] then (Inr [], status_of kind DS_DISABLED (Some ''detector_no_tools'') [])
      else if rows \<noteq> [] \<and> covered = [] then (Inr [], no_process_field kind rows)
      else (traverse (tool_of inp (length covered) (length rows)) (sorted_items (grouped (tool_key inp) covered)),
            process_status kind inp rows covered))"

definition new_process_key :: "detector_input \<Rightarrow> obs \<Rightarrow> (string \<times> string) option" where
  "new_process_key inp o' =
     (if process_of o' \<in> set (dg_suspicious_tools (di_config inp)) then None
      else if fresh_on_known inp (dict_get (an_process_first (di_anomaly inp)) (ob_src_key o', process_of o'))
                (dict_get (an_process_since (di_anomaly inp)) (ob_src_key o')) (dg_process_history (di_config inp))
        then Some (ob_src_key o', process_of o') else None)"

definition new_process_of :: "detector_input \<Rightarrow> nat \<Rightarrow> nat \<Rightarrow> (string \<times> string) \<times> obs list \<Rightarrow> filter_error + detection" where
  "new_process_of inp covered whole entry =
     (case entry of ((src, process), hits) \<Rightarrow>
        let o' = hd hits; critical = any_critical inp hits
        in with_segment (\<lambda>seg.
             \<lparr> dt_detector = DK_NEW_PROCESS, dt_fingerprint = ''newproc|'' @ src @ ''|'' @ process, dt_subject_key = src,
               dt_severity = raised_if critical SEV_LOW,
               dt_first_seen = the (dict_get (an_process_first (di_anomaly inp)) (src, process)), dt_last_seen = span_last hits,
               dt_critical_asset = critical,
               dt_summary = [(''process'', text_fact process), (''port'', opt_int_fact (ob_port o')), (''target'', text_fact (dst_shown o'))],
               dt_segment = seg,
               dt_confidence = (field_confidence ''initiator_process'' covered whole (di_gaps inp))
                 \<lparr> dc_baseline_days := Some (round1 (di_baseline_days inp)) \<rparr>,
               dt_ends = ends [o'] hits \<rparr>)
           (process_segment src process hits))"

definition detect_new_process :: "detector_input \<Rightarrow> outcome" where
  "detect_new_process inp =
     (let kind = DK_NEW_PROCESS; rows = in_traffic inp; covered = filter has_process rows in
      if \<not> di_baseline_full inp then (Inr [], accumulating kind inp)
      else if rows \<noteq> [] \<and> covered = [] then (Inr [], no_process_field kind rows)
      else (traverse (new_process_of inp (length covered) (length rows)) (sorted_items (grouped (new_process_key inp) covered)),
            process_status kind inp rows covered))"

section \<open>Directory and authentication\<close>

definition DIRECTORY :: "port_class list" where "DIRECTORY = [PC_DIRECTORY]"

definition DIRECTORY_DETECTORS :: "detector_kind list" where
  "DIRECTORY_DETECTORS = [DK_AUTH_TO_NON_DC, DK_NEW_DC_CLIENT, DK_DIRECTORY_SURGE]"

definition EXECUTION_DETECTORS :: "detector_kind list" where
  "EXECUTION_DETECTORS = [DK_FANOUT, DK_NEW_ADMIN_CONNECTION, DK_PIVOT_CHAIN, DK_NON_ADMIN_GROUP,
     DK_UNEXPECTED_INITIATOR, DK_SUSPICIOUS_TOOL]"

definition no_directory_ports :: "detector_kind \<Rightarrow> detector_input \<Rightarrow> detector_status option" where
  "no_directory_ports kind inp =
     (if list_ex (\<lambda>e. ap_category e = PC_DIRECTORY) (dg_admin_ports (di_config inp)) then None
      else Some (status_of kind DS_DISABLED (Some ''detector_no_directory_ports'') []))"

definition directory_rows :: "detector_input \<Rightarrow> obs list" where
  "directory_rows inp =
     filter (\<lambda>o'. admin_matches (dg_admin_ports (di_config inp)) (ob_port o') (ob_proto o') (Some DIRECTORY)) (in_traffic inp)"

definition is_server :: "obs \<Rightarrow> anomaly_data \<Rightarrow> bool" where
  "is_server o' data \<longleftrightarrow> ob_dst_key o' \<in> set (an_directory_servers data) \<or> ob_dst_ip o' \<in> set (an_directory_ips data)"

definition servers_status :: "detector_kind \<Rightarrow> anomaly_data \<Rightarrow> detector_status" where
  "servers_status kind data =
     (if an_directory_declared_missing data \<noteq> 0
      then status_of kind DS_OK (Some ''detector_directory_mismatch'')
             [(''missing'', int_fact (an_directory_declared_missing data)), (''inferred'', int_fact (an_directory_inferred data))]
      else status_of kind DS_OK (Some ''detector_directory_inferred'') [(''inferred'', int_fact (an_directory_inferred data))])"

definition no_servers :: "anomaly_data \<Rightarrow> bool" where
  "no_servers data \<longleftrightarrow> an_directory_servers data = [] \<and> an_directory_ips data = []"

definition no_servers_status :: "detector_kind \<Rightarrow> detector_status" where
  "no_servers_status kind = status_of kind DS_NO_DATA (Some ''detector_no_directory_servers'') []"

definition pair_segment :: "obs \<Rightarrow> filter_error + flow_segment" where
  "pair_segment o' =
     detail_segment
       (any_flow \<lparr> fc_src := Some (key_endpoint (ob_src_key o') (ob_src_ip o')), fc_dst := Some (key_endpoint (ob_dst_key o') (ob_dst_ip o')),
                  fc_ports := (case ob_port o' of None \<Rightarrow> [] | Some p \<Rightarrow> [one_port p (ob_proto o')]) \<rparr>)
       (ob_first o') (after_start (ob_first o') (ob_last o'))"

definition auth_key :: "detector_input \<Rightarrow> obs \<Rightarrow> (string \<times> string \<times> int) option" where
  "auth_key inp o' =
     (case ob_port o' of None \<Rightarrow> None
      | Some p \<Rightarrow> (if is_server o' (di_anomaly inp) then None else Some (ob_src_key o', ob_dst_key o', p)))"

definition auth_of :: "detector_input \<Rightarrow> (string \<times> string \<times> int) \<times> obs list \<Rightarrow> filter_error + detection" where
  "auth_of inp entry =
     (case entry of ((src, dst, port), hits) \<Rightarrow>
        let o' = hd hits; critical = hi_critical (dst_host o' inp); severity = (if public_ip (ob_dst_ip o') then SEV_HIGH else SEV_MEDIUM)
        in with_segment (\<lambda>seg.
             \<lparr> dt_detector = DK_AUTH_TO_NON_DC, dt_fingerprint = ''authdst|'' @ src @ ''|'' @ dst @ ''|'' @ str_of_int port,
               dt_subject_key = src, dt_severity = raised_if critical severity, dt_first_seen = ob_first o', dt_last_seen = ob_last o',
               dt_critical_asset = critical,
               dt_summary = [(''target'', text_fact (dst_shown o')), (''port'', int_fact port), (''decision'', text_fact (ob_decision o'))],
               dt_segment = seg, dt_confidence = gaps_only (di_gaps inp), dt_ends = ends [o'] [o'] \<rparr>)
           (pair_segment o'))"

definition detect_auth_to_non_dc :: "detector_input \<Rightarrow> outcome" where
  "detect_auth_to_non_dc inp =
     (let kind = DK_AUTH_TO_NON_DC; data = di_anomaly inp in
      case no_directory_ports kind inp of
        Some off \<Rightarrow> (Inr [], off)
      | None \<Rightarrow>
          (if no_servers data then (Inr [], no_servers_status kind)
           else (traverse (auth_of inp) (sorted_items (grouped (auth_key inp) (directory_rows inp))), servers_status kind data)))"

definition dc_client_key :: "detector_input \<Rightarrow> obs \<Rightarrow> string option" where
  "dc_client_key inp o' =
     (if \<not> is_server o' (di_anomaly inp) \<or> ob_src_key o' \<in> set (an_directory_clients_before (di_anomaly inp)) then None
      else if first_in_window inp (conn_key_of o') then Some (ob_src_key o') else None)"

definition dc_client_of :: "detector_input \<Rightarrow> string \<times> obs list \<Rightarrow> filter_error + detection" where
  "dc_client_of inp entry =
     (let src = fst entry; hits = snd entry; o' = hd hits; critical = hi_critical (dst_host o' inp);
          severity = (if ob_src_managed o' then SEV_LOW else SEV_MEDIUM)
      in with_segment (\<lambda>seg.
           \<lparr> dt_detector = DK_NEW_DC_CLIENT, dt_fingerprint = ''dcclient|'' @ src, dt_subject_key = src,
             dt_severity = raised_if critical severity, dt_first_seen = ob_first o', dt_last_seen = ob_last o',
             dt_critical_asset = critical,
             dt_summary = [(''target'', text_fact (dst_shown o')), (''port'', opt_int_fact (ob_port o')),
               (''managed'', FJ (JBool (ob_src_managed o')))],
             dt_segment = seg, dt_confidence = baseline_confidence inp, dt_ends = ends [o'] hits \<rparr>)
         (pair_segment o'))"

definition detect_new_dc_client :: "detector_input \<Rightarrow> outcome" where
  "detect_new_dc_client inp =
     (let kind = DK_NEW_DC_CLIENT; data = di_anomaly inp in
      case no_directory_ports kind inp of
        Some off \<Rightarrow> (Inr [], off)
      | None \<Rightarrow>
          (if no_servers data then (Inr [], no_servers_status kind)
           else if \<not> di_baseline_full inp then (Inr [], accumulating kind inp)
           else (traverse (dc_client_of inp) (sorted_items (grouped (dc_client_key inp) (directory_rows inp))), servers_status kind data)))"

definition detect_directory_surge :: "detector_input \<Rightarrow> outcome" where
  "detect_directory_surge inp =
     (case no_directory_ports DK_DIRECTORY_SURGE inp of
        Some off \<Rightarrow> (Inr [], off)
      | None \<Rightarrow> detect_surge inp DK_DIRECTORY_SURGE ''directory'' (dg_directory_min_connections (di_config inp)) ''dirsurge'')"

type_synonym recent = "string \<times> string \<times> time \<times> time"

definition recent_found :: "recent list \<Rightarrow> time \<Rightarrow> detection \<Rightarrow> recent list" where
  "recent_found rs window d =
     filter (\<lambda>(_, _, f, l). f \<le> dt_last_seen d \<and> dt_first_seen d \<le> l + window)
       (case dict_get (group_by fst rs) (dt_subject_key d) of None \<Rightarrow> [] | Some xs \<Rightarrow> xs)"

text \<open>\<open>max(found, key=...)\<close>: the first of the largest.\<close>

definition latest_recent :: "recent list \<Rightarrow> recent" where
  "latest_recent rs = fold (\<lambda>r best. if snd (snd (snd best)) < snd (snd (snd r)) then r else best) (tl rs) (hd rs)"

definition followup :: "recent list \<Rightarrow> time \<Rightarrow> detection \<Rightarrow> detection" where
  "followup rs window d =
     (let found = recent_found rs window d
      in if dt_detector d \<notin> set EXECUTION_DETECTORS \<or> found = [] \<or> dict_get (dt_summary d) ''after_directory'' \<noteq> None then d
         else
           (let l = latest_recent found
            in d \<lparr> dt_severity := raise_severity (dt_severity d) 1,
                   dt_summary := dict_set ''after_directory''
                     (FD [(''detector'', text_fact (fst (snd l))), (''last_seen'', text_fact (isoformat (snd (snd (snd l)))))])
                     (dt_summary d) \<rparr>))"

definition apply_directory_followup :: "detection list \<Rightarrow> recent list \<Rightarrow> time \<Rightarrow> detection list" where
  "apply_directory_followup dets rs window = map (followup rs window) dets"

section \<open>Pairs of hosts\<close>

definition PAIR_ROLLOUT :: int where "PAIR_ROLLOUT = 3"
definition PAIR_SCAN :: int where "PAIR_SCAN = 3"
definition PAIR_VARIETY :: int where "PAIR_VARIETY = 5"
definition HISTORY_DAYS :: int where "HISTORY_DAYS = 14"

definition internal_end :: "string \<Rightarrow> string \<Rightarrow> host_info \<Rightarrow> bool" where
  "internal_end key ip host \<longleftrightarrow>
     hi_managed host \<or> \<not> public_ip (if ip \<noteq> '''' then ip else if ip_key key then drop 3 key else '''')"

definition pair_candidates :: "detector_input \<Rightarrow> obs list" where
  "pair_candidates inp =
     filter (\<lambda>o'. service_port inp o' \<and> first_in_window inp (conn_key_of o') \<and>
               internal_end (ob_src_key o') (ob_src_ip o') (src_host o' inp) \<and>
               internal_end (ob_dst_key o') (ob_dst_ip o') (dst_host o' inp)) (in_traffic inp)"

definition used_ports :: "obs list \<Rightarrow> (int \<times> int) list" where
  "used_ports hits =
     sort (nub (List.map_filter (\<lambda>h. case ob_port h of None \<Rightarrow> None | Some p \<Rightarrow> (if p = 0 then None else Some (p, ob_proto h))) hits))"

definition ports_segment :: "obs list \<Rightarrow> filter_error + flow_segment" where
  "ports_segment hits =
     (let o' = hd hits
      in detail_segment
           (any_flow \<lparr> fc_src := Some (key_endpoint (ob_src_key o') (ob_src_ip o')), fc_dst := Some (key_endpoint (ob_dst_key o') (ob_dst_ip o')),
                      fc_ports := map (\<lambda>(p, pr). one_port p pr) (used_ports hits) \<rparr>) (span_start hits) (span_stop hits))"

definition reversal_key :: "detector_input \<Rightarrow> obs \<Rightarrow> (string \<times> string) option" where
  "reversal_key inp o' =
     (let before = an_pairs_before (di_anomaly inp)
      in if (ob_dst_key o', ob_src_key o') \<in> set before \<and> (ob_src_key o', ob_dst_key o') \<notin> set before
         then Some (ob_src_key o', ob_dst_key o') else None)"

definition pair_detection ::
  "detector_input \<Rightarrow> detector_kind \<Rightarrow> string \<Rightarrow> string \<Rightarrow> severity \<Rightarrow> obs list \<Rightarrow> (string, fact) dict \<Rightarrow> filter_error + detection" where
  "pair_detection inp kind fingerprint src base hits summary =
     (let o' = hd hits; critical = hi_critical (dst_host o' inp)
      in with_segment (\<lambda>seg.
           \<lparr> dt_detector = kind, dt_fingerprint = fingerprint, dt_subject_key = src, dt_severity = raised_if critical base,
             dt_first_seen = span_start hits, dt_last_seen = span_last hits, dt_critical_asset = critical, dt_summary = summary,
             dt_segment = seg, dt_confidence = baseline_confidence inp, dt_ends = ends [o'] hits \<rparr>)
         (ports_segment hits))"

definition reversal_of :: "detector_input \<Rightarrow> (string \<times> string) \<times> obs list \<Rightarrow> filter_error + detection" where
  "reversal_of inp entry =
     (case entry of ((src, dst), hits) \<Rightarrow>
        let o' = hd hits
        in pair_detection inp DK_DIRECTION_REVERSAL (''reverse|'' @ src @ ''|'' @ dst) src SEV_MEDIUM hits
             [(''target'', text_fact (dst_shown o')), (''port'', opt_int_fact (ob_port o')), (''proto'', int_fact (ob_proto o')),
              (''ports'', int_facts (ports_used hits)), (''decision'', text_fact (ob_decision o'))])"

definition detect_direction_reversal :: "detector_input \<Rightarrow> outcome" where
  "detect_direction_reversal inp =
     (if \<not> di_baseline_full inp then (Inr [], accumulating DK_DIRECTION_REVERSAL inp)
      else (traverse (reversal_of inp) (sorted_items (grouped (reversal_key inp) (pair_candidates inp))), ok_status DK_DIRECTION_REVERSAL))"

definition pair_port_key :: "detector_input \<Rightarrow> obs \<Rightarrow> conn_key option" where
  "pair_port_key inp o' =
     (let data = di_anomaly inp; pair = (ob_src_key o', ob_dst_key o') in
      if pair \<notin> set (an_pairs_before data) \<or> PAIR_VARIETY \<le> counted (an_pair_ports data) pair then None
      else if (case peer_group inp o' of None \<Rightarrow> False
               | Some g \<Rightarrow> dg_peer_min_group (di_config inp) \<le> group_size inp g \<and>
                   (case obs_signature inp o' of None \<Rightarrow> False | Some sig \<Rightarrow> peer_saw inp g o' sig)) then None
      else Some (conn_key_of o'))"

definition new_listener :: "detector_input \<Rightarrow> string \<Rightarrow> int \<Rightarrow> int \<Rightarrow> bool" where
  "new_listener inp dst port proto \<longleftrightarrow> (dst, port, proto) \<notin> set (an_ports_served (di_anomaly inp))"

definition pair_port_of ::
  "detector_input \<Rightarrow> (string \<times> int \<times> int, int) dict \<Rightarrow> conn_key \<times> obs list \<Rightarrow> filter_error + detection" where
  "pair_port_of inp starters entry =
     (case entry of ((src, dst, port, proto), hits) \<Rightarrow>
        let o' = hd hits; listener = new_listener inp dst port proto; n = counted starters (dst, port, proto);
            base = (if listener \<and> n < PAIR_ROLLOUT then SEV_MEDIUM else SEV_LOW)
        in pair_detection inp DK_NEW_PAIR_PORT (key_text ''pairport'' (src, dst, port, proto)) src base hits
             [(''target'', text_fact (dst_shown o')), (''port'', int_fact port), (''proto'', int_fact proto),
              (''new_listener'', FJ (JBool listener)), (''starters'', int_fact n), (''decision'', text_fact (ob_decision o'))])"

definition pair_scan_of :: "detector_input \<Rightarrow> (string \<times> string) \<times> obs list \<Rightarrow> filter_error + detection" where
  "pair_scan_of inp entry =
     (case entry of ((src, dst), hits) \<Rightarrow>
        let o' = hd hits; ports = ports_used hits
        in pair_detection inp DK_NEW_PAIR_PORT (''pairport|'' @ src @ ''|'' @ dst @ ''|many'') src SEV_LOW hits
             [(''target'', text_fact (dst_shown o')), (''port'', int_fact (hd ports)), (''proto'', int_fact (ob_proto o')),
              (''ports'', int_facts ports),
              (''new_listener'', FJ (JBool (list_ex (\<lambda>h. case ob_port h of None \<Rightarrow> True
                 | Some p \<Rightarrow> new_listener inp dst p (ob_proto h)) hits))),
              (''starters'', int_fact 1), (''decision'', text_fact (ob_decision o'))])"

definition pair_of :: "conn_key \<Rightarrow> string \<times> string" where "pair_of k = (fst k, fst (snd k))"

text \<open>Pairs with many new ports, their connections joined in key order.\<close>

definition pair_scans :: "(conn_key \<times> obs list) list \<Rightarrow> (string \<times> string, obs list) dict" where
  "pair_scans scanned = map (\<lambda>(p, es). (p, concat (map snd es))) (group_by (\<lambda>e. pair_of (fst e)) scanned)"

definition detect_new_pair_port :: "detector_input \<Rightarrow> outcome" where
  "detect_new_pair_port inp =
     (if \<not> di_baseline_full inp then (Inr [], accumulating DK_NEW_PAIR_PORT inp)
      else
        (let found = grouped (pair_port_key inp) (pair_candidates inp);
             starters = tally (map (\<lambda>((_, dst, port, proto), _). (dst, port, proto)) found);
             per_pair = tally (map (\<lambda>(k, _). pair_of k) found);
             many = (\<lambda>e. PAIR_SCAN \<le> counted per_pair (pair_of (fst e)));
             items = sorted_items found
         in (case traverse (pair_port_of inp starters) (filter (\<lambda>e. \<not> many e) items) of
               Inl e \<Rightarrow> Inl e
             | Inr ds \<Rightarrow> map_sum id (\<lambda>scans. ds @ scans) (traverse (pair_scan_of inp) (sorted_items (pair_scans (filter many items)))),
             ok_status DK_NEW_PAIR_PORT)))"

section \<open>The last hour: waking, off hours, staging\<close>

definition run_hour :: "detector_input \<Rightarrow> time" where "run_hour inp = hour_of (snd (di_window inp))"

definition gap_overlaps :: "gap list \<Rightarrow> time \<Rightarrow> time \<Rightarrow> gap list" where
  "gap_overlaps gaps start stop = filter (\<lambda>(a, b, _). a < stop \<and> start < b) gaps"

definition hours_ready :: "detector_kind \<Rightarrow> detector_input \<Rightarrow> rat \<Rightarrow> detector_status option" where
  "hours_ready kind inp required =
     (let data = di_anomaly inp in
      if \<not> an_live data then Some (live_only kind)
      else if an_hours_days data < required then Some (activity_accumulating kind (an_hours_days data) required)
      else None)"

definition last_hour :: "detector_input \<Rightarrow> endpoint_filter option \<Rightarrow> endpoint_filter option \<Rightarrow> filter_error + flow_segment" where
  "last_hour inp src dst =
     (let hi = snd (di_window inp)
      in detail_segment (any_flow \<lparr> fc_src := src, fc_dst := dst, fc_decisions := NOT_BLOCKED \<rparr>) (hi - SURGE_WINDOW) hi)"

definition host_hour ::
  "detector_input \<Rightarrow> detector_kind \<Rightarrow> string \<Rightarrow> string \<Rightarrow> severity \<Rightarrow> (string, fact) dict \<Rightarrow> filter_error + detection" where
  "host_hour inp kind fingerprint src base summary =
     (let ip = src_ip_of inp src; critical = hi_critical (di_hosts inp src ip None []); hi = snd (di_window inp)
      in with_segment (\<lambda>seg.
           \<lparr> dt_detector = kind, dt_fingerprint = fingerprint, dt_subject_key = src, dt_severity = raised_if critical base,
             dt_first_seen = hi - SURGE_WINDOW, dt_last_seen = hi, dt_critical_asset = critical,
             dt_summary = dict_set ''window_minutes'' (in_minutes SURGE_WINDOW) summary, dt_segment = seg,
             dt_confidence = gaps_only (di_gaps inp), dt_ends = [(''s'', src, ip)] \<rparr>)
         (last_hour inp (Some (key_endpoint src ip)) None))"

definition managed_source :: "detector_input \<Rightarrow> string \<Rightarrow> bool" where
  "managed_source inp src \<longleftrightarrow> hi_managed (di_hosts inp src (src_ip_of inp src) None [])"

definition hours_of :: "detector_input \<Rightarrow> string \<Rightarrow> time list" where
  "hours_of inp src = (case dict_get (an_active_hours (di_anomaly inp)) src of None \<Rightarrow> [] | Some hs \<Rightarrow> hs)"

definition quiet_wakes_of :: "detector_input \<Rightarrow> time \<Rightarrow> time \<Rightarrow> string \<times> int \<Rightarrow> (filter_error + detection) option" where
  "quiet_wakes_of inp start stop entry =
     (let cfg = di_config inp; data = di_anomaly inp; (src, n) = entry; hours = hours_of inp src in
      if n < dg_quiet_min_connections cfg \<or> src \<notin> set (an_known_before_quiet data) \<or> src \<in> set (an_active_just_before data) \<or>
         \<not> managed_source inp src \<or> list_ex (\<lambda>h. start \<le> h \<and> h < stop) hours then None
      else
        (let before = filter (\<lambda>h. h < start) hours
         in Some (host_hour inp DK_QUIET_HOST_WAKES (''quiet|'' @ src) src SEV_MEDIUM
              [(''connections'', int_fact n), (''quiet_days'', int_fact (dg_quiet cfg div DAY)),
               (''last_active'', if before = [] then FJ JNull else text_fact (isoformat (Max (set before))))])))"

definition detect_quiet_host_wakes :: "detector_input \<Rightarrow> outcome" where
  "detect_quiet_host_wakes inp =
     (let kind = DK_QUIET_HOST_WAKES; cfg = di_config inp; data = di_anomaly inp; hour = run_hour inp;
          start = hour - dg_quiet cfg; stop = hour - HOUR
      in case hours_ready kind inp (of_int (dg_quiet cfg) / of_int DAY) of
           Some off \<Rightarrow> (Inr [], off)
         | None \<Rightarrow>
             (if gap_overlaps (an_hours_gaps data) start stop \<noteq> [] then
                (Inr [], status_of kind DS_INCOMPLETE (Some ''detector_quiet_gaps'')
                   [(''gaps'', int_fact (int (length (gap_overlaps (an_hours_gaps data) start stop))))])
              else (traverse id (List.map_filter (quiet_wakes_of inp start stop) (sorted_items (an_recent data))), ok_status kind)))"

definition clock_hour :: "time \<Rightarrow> int" where "clock_hour t = t mod DAY div HOUR"

definition EN_DASH :: string where "EN_DASH = [char_of (2 :: nat)]"

fun hour_runs :: "(int \<times> int) list \<Rightarrow> int list \<Rightarrow> (int \<times> int) list" where
  "hour_runs runs [] = rev runs"
| "hour_runs [] (h # hs) = hour_runs [(h, h)] hs"
| "hour_runs ((a, b) # runs) (h # hs) = (if h = b + 1 then hour_runs ((a, h) # runs) hs else hour_runs ((h, h) # (a, b) # runs) hs)"

definition usual_hours :: "time list \<Rightarrow> string" where
  "usual_hours hours =
     py_join '', '' (map (\<lambda>(a, b). if a = b then pad 2 a else pad 2 a @ EN_DASH @ pad 2 b) (hour_runs [] (sort (nub (map clock_hour hours)))))"

definition hour_slots :: "time \<Rightarrow> int list" where "hour_slots hour = [clock_hour (hour - HOUR), clock_hour hour]"

definition kept_start :: "time \<Rightarrow> rat \<Rightarrow> time" where
  "kept_start hour days = max (hour - HISTORY_DAYS * DAY) (hour - round_half_even (days * of_int DAY))"

text \<open>The kept hours at the two clock hours the run touches.\<close>

definition slot_spans :: "time \<Rightarrow> time \<Rightarrow> int list \<Rightarrow> (time \<times> time) list" where
  "slot_spans start stop slots =
     map (\<lambda>i. (start + i * HOUR, start + (i + 1) * HOUR))
       (filter (\<lambda>i. clock_hour (start + i * HOUR) \<in> set slots) [0..(stop - start) div HOUR - 1])"

definition off_hours_of :: "detector_input \<Rightarrow> time \<Rightarrow> time \<Rightarrow> time \<Rightarrow> string \<times> int \<Rightarrow> (filter_error + detection) option" where
  "off_hours_of inp hour start stop entry =
     (let cfg = di_config inp; (src, n) = entry in
      if n < dg_off_hours_min_connections cfg \<or> \<not> managed_source inp src then None
      else
        (let hours = filter (\<lambda>h. start \<le> h \<and> h < stop) (hours_of inp src); days = nub (map (\<lambda>h. h div DAY) hours) in
         if length days < dg_off_hours_min_days cfg \<or> list_ex (\<lambda>h. clock_hour h \<in> set (hour_slots hour)) hours then None
         else Some (host_hour inp DK_OFF_HOURS (''offhours|'' @ src @ ''|'' @ str_of_int (clock_hour hour)) src SEV_LOW
                [(''connections'', int_fact n), (''active_days'', int_fact (int (length days))),
                 (''usual_hours'', text_fact (usual_hours hours)), (''hour'', text_fact (pad 2 (clock_hour hour)))])))"

definition detect_off_hours :: "detector_input \<Rightarrow> outcome" where
  "detect_off_hours inp =
     (let kind = DK_OFF_HOURS; data = di_anomaly inp; hour = run_hour inp; start = kept_start hour (an_hours_days data);
          stop = hour - HOUR
      in case hours_ready kind inp ACTIVITY_DAYS of
           Some off \<Rightarrow> (Inr [], off)
         | None \<Rightarrow>
             (if list_ex (\<lambda>(a, b). gap_overlaps (an_hours_gaps data) a b \<noteq> []) (slot_spans start stop (hour_slots hour))
              then (Inr [], status_of kind DS_INCOMPLETE (Some ''detector_off_hours_gaps'') [])
              else (traverse id (List.map_filter (off_hours_of inp hour start stop) (sorted_items (an_recent data))), ok_status kind)))"

definition public_key :: "string \<Rightarrow> bool" where "public_key key \<longleftrightarrow> ip_key key \<and> public_ip (drop 3 key)"

definition staging_passed :: "detector_config \<Rightarrow> fan_in_fact \<Rightarrow> bool" where
  "staging_passed cfg f \<longleftrightarrow>
     dg_staging_min_sources cfg \<le> length (filter (\<lambda>s. \<not> public_key s) (fi_sources f)) \<and> dg_staging_min_bytes cfg \<le> fi_bytes f \<and>
     (case fi_previous_bytes f of None \<Rightarrow> True | Some p \<Rightarrow> dg_volume_surge_factor cfg * of_int p \<le> of_int (fi_bytes f))"

definition host_name_of :: "detector_input \<Rightarrow> string \<Rightarrow> string" where
  "host_name_of inp s =
     (let h = hi_hostname (di_hosts inp s (src_ip_of inp s) None []) in if truthy_str h then or_empty h else s)"

definition staging_of :: "detector_input \<Rightarrow> string \<times> fan_in_fact \<Rightarrow> (filter_error + detection) option" where
  "staging_of inp entry =
     (let data = di_anomaly inp; (dst, f) = entry; sources = filter (\<lambda>s. \<not> public_key s) (fi_sources f);
          ip = dst_ip_of inp dst; host = di_hosts inp dst ip None []; hi = snd (di_window inp)
      in if public_key dst \<or> \<not> staging_passed (di_config inp) f \<or> \<not> internal_end dst ip host then None
         else Some (with_segment (\<lambda>seg.
           \<lparr> dt_detector = DK_DATA_STAGING, dt_fingerprint = ''staging|'' @ dst, dt_subject_key = dst,
             dt_severity = raised_if (hi_critical host) SEV_MEDIUM, dt_first_seen = hi - SURGE_WINDOW, dt_last_seen = hi,
             dt_critical_asset = hi_critical host,
             dt_summary = [(''target'', text_fact (if truthy_str (hi_hostname host) then or_empty (hi_hostname host)
                                                   else if ip \<noteq> '''' then ip else dst)),
               (''sources'', int_fact (int (length sources))), (''connections'', int_fact (fi_connections f)),
               (''bytes'', int_fact (fi_bytes f)), (''mb'', mb_fact (Some (fi_bytes f))),
               (''previous_max_bytes'', opt_int_fact (fi_previous_bytes f)), (''previous_max_mb'', mb_fact (fi_previous_bytes f)),
               (''sample_sources'', text_facts (take SAMPLE (sort (map (host_name_of inp) sources)))),
               (''window_minutes'', in_minutes SURGE_WINDOW)],
             dt_segment = seg,
             dt_confidence = field_confidence ''bytes'' (fst (an_fan_in_coverage data)) (snd (an_fan_in_coverage data))
               (di_gaps inp @ an_fan_in_gaps data),
             dt_ends = map (\<lambda>s. (''s'', s, src_ip_of inp s)) sources @ [(''t'', dst, ip)] \<rparr>)
         (last_hour inp None (Some (key_endpoint dst ip)))))"

definition detect_data_staging :: "detector_input \<Rightarrow> outcome" where
  "detect_data_staging inp =
     (let kind = DK_DATA_STAGING; data = di_anomaly inp; (with_bytes, whole) = an_fan_in_coverage data in
      if \<not> an_live data then (Inr [], live_only kind)
      else if an_destination_days data < ACTIVITY_DAYS then (Inr [], activity_accumulating kind (an_destination_days data) ACTIVITY_DAYS)
      else if whole \<noteq> 0 \<and> with_bytes = 0 then
        (Inr [], status_of kind DS_NO_DATA (Some ''detector_no_byte_data'') (covered_params 0 whole))
      else
        (traverse id (List.map_filter (staging_of inp) (sorted_items (an_fan_in data))),
         if an_fan_in_gaps data \<noteq> [] then history_status kind (an_fan_in_gaps data)
         else if with_bytes < whole then status_of kind DS_OK (Some ''detector_partial_bytes'') (covered_params with_bytes whole)
         else ok_status kind))"

section \<open>One thing, one detection\<close>

definition subjects :: "detector_kind \<Rightarrow> detection list \<Rightarrow> string list" where
  "subjects kind dets = map dt_subject_key (filter (\<lambda>d. dt_detector d = kind) dets)"

text \<open>The connections a detection is about: its subject, each target and the port of its summary.\<close>

definition target_ports :: "detection \<Rightarrow> (string \<times> string \<times> fact option) list" where
  "target_ports d = List.map_filter (\<lambda>(role, k, _). if role = ''t'' then Some (dt_subject_key d, k, dict_get (dt_summary d) ''port'') else None)
     (dt_ends d)"

definition covered_by :: "detection list \<Rightarrow> detection \<Rightarrow> bool" where
  "covered_by dets d \<longleftrightarrow>
     (let surging = subjects DK_VOLUME_SURGE dets;
          woke = filter (\<lambda>s. s \<notin> set surging) (subjects DK_QUIET_HOST_WAKES dets);
          peer = concat (map target_ports (filter (\<lambda>p. dt_detector p = DK_PEER_DEVIATION) dets))
      in dt_detector d = DK_QUIET_HOST_WAKES \<and> dt_subject_key d \<in> set surging \<or>
         dt_detector d = DK_OFF_HOURS \<and> dt_subject_key d \<in> set (surging @ woke) \<or>
         dt_detector d = DK_NEW_PAIR_PORT \<and> list_ex (\<lambda>t. t \<in> set peer) (target_ports d))"

definition drop_covered :: "detection list \<Rightarrow> detection list" where
  "drop_covered dets = filter (\<lambda>d. \<not> covered_by dets d) dets"

end
