(* ===== verification/DetectorRun.thy ===== *)
theory DetectorRun
  imports Anomaly DetectorProofs
begin

text \<open>
  One run of all detectors (\<open>run_detectors\<close> and the tables of \<open>domain/detectors.py\<close>), what every result of a run
  satisfies, and what dropping covered detections keeps.
\<close>

section \<open>The run\<close>

definition DETECTOR_KINDS :: "detector_kind list" where
  "DETECTOR_KINDS =
     [DK_FANOUT, DK_NEW_ADMIN_CONNECTION, DK_PIVOT_CHAIN, DK_BLOCKED_SURGE, DK_NON_ADMIN_GROUP, DK_CROSS_ENV,
      DK_ACCOUNT_FANOUT, DK_UNEXPECTED_INITIATOR, DK_PEER_DEVIATION, DK_VOLUME_SURGE, DK_ACCOUNT_NEW_SOURCE,
      DK_SUSPICIOUS_TOOL, DK_NEW_PROCESS, DK_AUTH_TO_NON_DC, DK_NEW_DC_CLIENT, DK_DIRECTORY_SURGE,
      DK_DIRECTION_REVERSAL, DK_NEW_PAIR_PORT, DK_QUIET_HOST_WAKES, DK_DATA_STAGING, DK_OFF_HOURS]"

fun DETECTORS :: "detector_kind \<Rightarrow> detector_input \<Rightarrow> outcome" where
  "DETECTORS DK_FANOUT = detect_fanout"
| "DETECTORS DK_NEW_ADMIN_CONNECTION = detect_new_admin"
| "DETECTORS DK_PIVOT_CHAIN = detect_pivot_chain"
| "DETECTORS DK_BLOCKED_SURGE = detect_blocked_surge"
| "DETECTORS DK_NON_ADMIN_GROUP = detect_non_admin_group"
| "DETECTORS DK_CROSS_ENV = detect_cross_env"
| "DETECTORS DK_ACCOUNT_FANOUT = detect_account_fanout"
| "DETECTORS DK_UNEXPECTED_INITIATOR = detect_unexpected_initiator"
| "DETECTORS DK_PEER_DEVIATION = detect_peer_deviation"
| "DETECTORS DK_VOLUME_SURGE = detect_volume_surge"
| "DETECTORS DK_ACCOUNT_NEW_SOURCE = detect_account_new_source"
| "DETECTORS DK_SUSPICIOUS_TOOL = detect_suspicious_tool"
| "DETECTORS DK_NEW_PROCESS = detect_new_process"
| "DETECTORS DK_AUTH_TO_NON_DC = detect_auth_to_non_dc"
| "DETECTORS DK_NEW_DC_CLIENT = detect_new_dc_client"
| "DETECTORS DK_DIRECTORY_SURGE = detect_directory_surge"
| "DETECTORS DK_DIRECTION_REVERSAL = detect_direction_reversal"
| "DETECTORS DK_NEW_PAIR_PORT = detect_new_pair_port"
| "DETECTORS DK_QUIET_HOST_WAKES = detect_quiet_host_wakes"
| "DETECTORS DK_DATA_STAGING = detect_data_staging"
| "DETECTORS DK_OFF_HOURS = detect_off_hours"

fun dedup_window :: "detector_config \<Rightarrow> detector_kind \<Rightarrow> time" where
  "dedup_window cfg DK_FANOUT = dg_fanout_window cfg"
| "dedup_window cfg DK_NEW_ADMIN_CONNECTION = 30 * DAY"
| "dedup_window cfg DK_PIVOT_CHAIN = DAY"
| "dedup_window cfg DK_NON_ADMIN_GROUP = DAY"
| "dedup_window cfg DK_CROSS_ENV = DAY"
| "dedup_window cfg DK_UNEXPECTED_INITIATOR = DAY"
| "dedup_window cfg DK_ACCOUNT_FANOUT = dg_account_fanout_window cfg"
| "dedup_window cfg DK_BLOCKED_SURGE = dg_blocked_window cfg"
| "dedup_window cfg DK_PEER_DEVIATION = 30 * DAY"
| "dedup_window cfg DK_VOLUME_SURGE = SURGE_WINDOW"
| "dedup_window cfg DK_ACCOUNT_NEW_SOURCE = 30 * DAY"
| "dedup_window cfg DK_SUSPICIOUS_TOOL = DAY"
| "dedup_window cfg DK_NEW_PROCESS = 30 * DAY"
| "dedup_window cfg DK_AUTH_TO_NON_DC = DAY"
| "dedup_window cfg DK_NEW_DC_CLIENT = 30 * DAY"
| "dedup_window cfg DK_DIRECTORY_SURGE = SURGE_WINDOW"
| "dedup_window cfg DK_DIRECTION_REVERSAL = 30 * DAY"
| "dedup_window cfg DK_NEW_PAIR_PORT = 30 * DAY"
| "dedup_window cfg DK_QUIET_HOST_WAKES = SURGE_WINDOW"
| "dedup_window cfg DK_DATA_STAGING = SURGE_WINDOW"
| "dedup_window cfg DK_OFF_HOURS = SURGE_WINDOW"

definition ingested :: "obs list \<Rightarrow> obs list" where
  "ingested rows = filter (\<lambda>o'. ob_origin o' = ''ingest'') rows"

definition live_input :: "detector_input \<Rightarrow> detector_input" where
  "live_input inp = inp \<lparr> di_obs := ingested (di_obs inp), di_blocked_obs := ingested (di_blocked_obs inp),
                          di_traffic_obs := ingested (di_traffic_obs inp) \<rparr>"

definition run_one :: "detector_input \<Rightarrow> detector_kind \<Rightarrow> outcome" where
  "run_one inp kind =
     (if dg_admin_ports (di_config inp) = [] \<and> kind \<in> set MANAGEMENT_DETECTORS
      then (Inr [], status_of kind DS_DISABLED (Some ''detector_no_admin_ports'') [])
      else DETECTORS kind inp)"

definition directory_recent :: "detection list \<Rightarrow> recent list" where
  "directory_recent dets =
     map (\<lambda>d. (dt_subject_key d, detector_kind_value (dt_detector d), dt_first_seen d, dt_last_seen d))
       (filter (\<lambda>d. dt_detector d \<in> set DIRECTORY_DETECTORS) dets)"

definition finish_run :: "detector_input \<Rightarrow> detection list \<Rightarrow> detection list" where
  "finish_run inp dets =
     apply_directory_followup
       (apply_precursors (drop_covered dets) (di_precursors inp) (dg_precursor_window (di_config inp)))
       (an_recent_directory (di_anomaly inp) @ directory_recent dets) (dg_directory_followup (di_config inp))"

definition run_detectors :: "detector_input \<Rightarrow> filter_error + detection list \<times> detector_status list" where
  "run_detectors inp0 =
     (let inp = live_input inp0; outs = map (run_one inp) DETECTOR_KINDS
      in map_sum id (\<lambda>found. (finish_run inp (concat found), map snd outs)) (traverse fst outs))"

section \<open>What each detector returns\<close>

definition segment_ok :: "flow_segment \<Rightarrow> bool" where
  "segment_ok s \<longleftrightarrow> flow_segment_of s = Inr s \<and> fs_start (sg_filter s) < fs_end (sg_filter s)"

definition detection_ok :: "detector_kind \<Rightarrow> detection \<Rightarrow> bool" where
  "detection_ok kind d \<longleftrightarrow> dt_detector d = kind \<and> segment_ok (dt_segment d) \<and> (dt_critical_asset d \<longrightarrow> SEV_MEDIUM \<le> dt_severity d)"

definition judging :: "detector_status \<Rightarrow> bool" where
  "judging st \<longleftrightarrow> ds_state st = DS_OK \<or> ds_state st = DS_INCOMPLETE"

definition outcome_ok :: "detector_kind \<Rightarrow> outcome \<Rightarrow> bool" where
  "outcome_ok kind out \<longleftrightarrow> ds_detector (snd out) = kind \<and>
     (\<forall>ds. fst out = Inr ds \<longrightarrow> (\<forall>d \<in> set ds. detection_ok kind d) \<and> (ds \<noteq> [] \<longrightarrow> judging (snd out)))"

lemma spec_within_span: "spec_within c start stop = Inr s \<Longrightarrow> fs_start s < fs_end s"
  by (auto simp: spec_within_def filter_spec.defs flow_condition.defs split: sum.split_asm if_split_asm)

lemma detail_segment_ok: "detail_segment c start stop = Inr s \<Longrightarrow> segment_ok s"
  by (auto simp: detail_segment_def filter_spec_of_def flow_segment_of_def segment_ok_def dest: spec_within_span
      split: sum.split_asm if_split_asm option.split_asm)

named_theorems segment_oks \<open>the segments the detectors build are well formed\<close>

lemmas [segment_oks] = detail_segment_ok

lemma det_evidence_ok [segment_oks]: "det_evidence inp start stop src dst classes = Inr s \<Longrightarrow> segment_ok s"
  unfolding det_evidence_def by (rule detail_segment_ok)

lemma pair_segment_ok [segment_oks]: "pair_segment r = Inr s \<Longrightarrow> segment_ok s"
  unfolding pair_segment_def by (rule detail_segment_ok)

lemma ports_segment_ok [segment_oks]: "ports_segment rs = Inr s \<Longrightarrow> segment_ok s"
  unfolding ports_segment_def Let_def by (rule detail_segment_ok)

lemma process_segment_ok [segment_oks]: "process_segment src p rs = Inr s \<Longrightarrow> segment_ok s"
  unfolding process_segment_def by (rule detail_segment_ok)

lemma last_hour_ok [segment_oks]: "last_hour inp src dst = Inr s \<Longrightarrow> segment_ok s"
  unfolding last_hour_def Let_def by (rule detail_segment_ok)

lemma severity_le: "s \<le> t \<longleftrightarrow> severity_index s \<le> severity_index t" for s t :: severity
  by (simp add: less_eq_severity_def)

lemma critical_severity [simp]:
  "SEV_MEDIUM \<le> high_if c" "SEV_MEDIUM \<le> SEV_HIGH" "c \<Longrightarrow> SEV_MEDIUM \<le> raised_if c s" "SEV_MEDIUM \<le> raised_if c SEV_MEDIUM"
  by (cases s; simp add: high_if_def raised_if_def severity_le raise_severity_index)+

lemma with_segment_Inr_iff: "with_segment D seg = Inr d \<longleftrightarrow> (\<exists>s. seg = Inr s \<and> d = D s)"
  by (cases seg) (auto simp: with_segment_def)

lemma status_of_sel [simp]: "ds_detector (status_of k st r p) = k" "ds_state (status_of k st r p) = st"
  by (simp_all add: status_of_def)

lemma judging_status [simp]: "judging (status_of k DS_OK r p)" "judging (status_of k DS_INCOMPLETE r p)"
  by (simp_all add: judging_def)

lemma status_sel [simp]:
  "ds_detector (ok_status k) = k" "judging (ok_status k)" "ds_detector (accumulating k inp) = k" "ds_detector (live_only k) = k"
  "ds_detector (activity_accumulating k d r) = k" "ds_detector (history_status k gaps) = k" "judging (history_status k gaps)"
  "ds_detector (no_servers_status k) = k" "ds_detector (servers_status k data) = k" "judging (servers_status k data)"
  "ds_detector (coverage_status k keys ps partial kinds) = k" "judging (coverage_status k keys ps partial kinds)"
  "ds_detector (process_status k inp rows covered) = k" "judging (process_status k inp rows covered)"
  "ds_detector (no_process_field k rows) = k"
  by (simp_all add: ok_status_def accumulating_def live_only_def activity_accumulating_def history_status_def no_servers_status_def
      servers_status_def coverage_status_def process_status_def no_process_field_def judging_def)

lemma outcome_empty [simp]: "outcome_ok kind (Inr [], st) \<longleftrightarrow> ds_detector st = kind"
  by (simp add: outcome_ok_def)

lemma outcome_traverse:
  "(\<And>x d. f x = Inr d \<Longrightarrow> detection_ok kind d) \<Longrightarrow> ds_detector st = kind \<Longrightarrow> judging st \<Longrightarrow> outcome_ok kind (traverse f xs, st)"
  by (auto simp: outcome_ok_def traverse_mem)

lemma outcome_filtered:
  "(\<And>x d. f x = Some (Inr d) \<Longrightarrow> detection_ok kind d) \<Longrightarrow> ds_detector st = kind \<Longrightarrow> judging st \<Longrightarrow>
   outcome_ok kind (traverse id (List.map_filter f xs), st)"
  by (auto simp: outcome_ok_def traverse_mem List.map_filter_def)

lemmas detection_shapes = detection_ok_def with_segment_Inr_iff Let_def

lemma with_segment_ok:
  "with_segment D seg = Inr d \<Longrightarrow> (\<And>s. seg = Inr s \<Longrightarrow> segment_ok s) \<Longrightarrow> (\<And>s. dt_detector (D s) = kind) \<Longrightarrow>
   (\<And>s. dt_segment (D s) = s) \<Longrightarrow> (\<And>s. dt_critical_asset (D s) \<Longrightarrow> SEV_MEDIUM \<le> dt_severity (D s)) \<Longrightarrow>
   detection_ok kind d"
  by (auto simp: with_segment_Inr_iff detection_ok_def)

section \<open>Each detector\<close>

lemma fanout_each: "fanout_of inp x = Some (Inr d) \<Longrightarrow> detection_ok DK_FANOUT d"
  by (cases x) (auto simp: fanout_of_def Let_def split: option.split_asm prod.split_asm if_split_asm
      elim!: with_segment_ok intro: segment_oks)

lemma fanout_ok: "outcome_ok DK_FANOUT (detect_fanout inp)"
  unfolding detect_fanout_def Let_def
  by (auto intro!: outcome_filtered dest: fanout_each)

lemma new_admin_each: "new_admin_of inp x = Inr d \<Longrightarrow> detection_ok DK_NEW_ADMIN_CONNECTION d"
  by (cases x) (auto simp: new_admin_of_def Let_def split: option.split_asm prod.split_asm if_split_asm
      elim!: with_segment_ok intro: segment_oks)

lemma new_admin_ok: "outcome_ok DK_NEW_ADMIN_CONNECTION (detect_new_admin inp)"
  unfolding detect_new_admin_def Let_def
  by (auto intro!: outcome_traverse dest: new_admin_each)

lemma chain_each: "chain_of inp n x = Inr d \<Longrightarrow> detection_ok DK_PIVOT_CHAIN d"
  by (cases x) (auto simp: chain_of_def Let_def split: option.split_asm prod.split_asm if_split_asm
      elim!: with_segment_ok intro: segment_oks)

lemma chain_ok: "outcome_ok DK_PIVOT_CHAIN (detect_pivot_chain inp)"
  unfolding detect_pivot_chain_def Let_def
  by (auto intro!: outcome_traverse dest: chain_each)

lemma blocked_each: "blocked_surge_of inp x = Some (Inr d) \<Longrightarrow> detection_ok DK_BLOCKED_SURGE d"
  by (cases x) (auto simp: blocked_surge_of_def Let_def split: option.split_asm prod.split_asm if_split_asm
      elim!: with_segment_ok intro: segment_oks)

lemma blocked_ok: "outcome_ok DK_BLOCKED_SURGE (detect_blocked_surge inp)"
  unfolding detect_blocked_surge_def Let_def
  by (auto intro!: outcome_filtered dest: blocked_each)

lemma non_admin_each: "non_admin_of inp x = Inr d \<Longrightarrow> detection_ok DK_NON_ADMIN_GROUP d"
  by (cases x) (auto simp: non_admin_of_def Let_def split: option.split_asm prod.split_asm if_split_asm
      elim!: with_segment_ok intro: segment_oks)

lemma non_admin_ok: "outcome_ok DK_NON_ADMIN_GROUP (detect_non_admin_group inp)"
  unfolding detect_non_admin_group_def Let_def
  by (auto intro!: outcome_traverse dest: non_admin_each)

lemma cross_env_each: "cross_env_of inp x = Some (Inr d) \<Longrightarrow> detection_ok DK_CROSS_ENV d"
  by (cases x) (auto simp: cross_env_of_def Let_def split: option.split_asm prod.split_asm if_split_asm
      elim!: with_segment_ok intro: segment_oks)

lemma cross_env_ok: "outcome_ok DK_CROSS_ENV (detect_cross_env inp)"
  unfolding detect_cross_env_def Let_def
  by (auto intro!: outcome_filtered dest: cross_env_each)

lemma account_fanout_each: "account_fanout_of inp m n x = Some (Inr d) \<Longrightarrow> detection_ok DK_ACCOUNT_FANOUT d"
  by (cases x) (auto simp: account_fanout_of_def Let_def split: option.split_asm prod.split_asm if_split_asm
      elim!: with_segment_ok intro: segment_oks)

lemma account_fanout_ok: "outcome_ok DK_ACCOUNT_FANOUT (detect_account_fanout inp)"
  unfolding detect_account_fanout_def Let_def
  by (auto intro!: outcome_filtered dest: account_fanout_each)

lemma unexpected_each: "unexpected_of inp m n ts x = Inr d \<Longrightarrow> detection_ok DK_UNEXPECTED_INITIATOR d"
  by (cases x) (auto simp: unexpected_of_def Let_def split: option.split_asm prod.split_asm if_split_asm
      elim!: with_segment_ok intro: segment_oks)

lemma unexpected_ok: "outcome_ok DK_UNEXPECTED_INITIATOR (detect_unexpected_initiator inp)"
  unfolding detect_unexpected_initiator_def Let_def
  by (auto intro!: outcome_traverse dest: unexpected_each)

lemma peer_each: "peer_deviation_of inp n x = Some (Inr d) \<Longrightarrow> detection_ok DK_PEER_DEVIATION d"
  by (cases x) (auto simp: peer_deviation_of_def Let_def split: option.split_asm prod.split_asm if_split_asm
      elim!: with_segment_ok intro: segment_oks)

lemma peer_ok: "outcome_ok DK_PEER_DEVIATION (detect_peer_deviation inp)"
  unfolding detect_peer_deviation_def Let_def
  by (auto intro!: outcome_filtered dest: peer_each)

lemma surge_each: "surge_of inp kind cls n prefix x = Some (Inr d) \<Longrightarrow> detection_ok kind d"
  by (cases x) (auto simp: surge_of_def Let_def split: prod.split_asm if_split_asm elim!: with_segment_ok intro: segment_oks)

lemma surge_ok: "outcome_ok kind (detect_surge inp kind cls n prefix)"
  unfolding detect_surge_def Let_def
  by (auto intro!: outcome_filtered dest: surge_each)

lemma new_source_each: "new_source_of inp m n x = Inr d \<Longrightarrow> detection_ok DK_ACCOUNT_NEW_SOURCE d"
  by (cases x) (auto simp: new_source_of_def Let_def split: option.split_asm prod.split_asm if_split_asm
      elim!: with_segment_ok intro: segment_oks)

lemma new_source_ok: "outcome_ok DK_ACCOUNT_NEW_SOURCE (detect_account_new_source inp)"
  unfolding detect_account_new_source_def Let_def
  by (auto intro!: outcome_traverse dest: new_source_each)

lemma tool_each: "tool_of inp m n x = Inr d \<Longrightarrow> detection_ok DK_SUSPICIOUS_TOOL d"
  by (cases x) (auto simp: tool_of_def Let_def split: option.split_asm prod.split_asm if_split_asm
      elim!: with_segment_ok intro: segment_oks)

lemma tool_ok: "outcome_ok DK_SUSPICIOUS_TOOL (detect_suspicious_tool inp)"
  unfolding detect_suspicious_tool_def Let_def
  by (auto intro!: outcome_traverse dest: tool_each)

lemma new_process_each: "new_process_of inp m n x = Inr d \<Longrightarrow> detection_ok DK_NEW_PROCESS d"
  by (cases x) (auto simp: new_process_of_def Let_def split: option.split_asm prod.split_asm if_split_asm
      elim!: with_segment_ok intro: segment_oks)

lemma new_process_ok: "outcome_ok DK_NEW_PROCESS (detect_new_process inp)"
  unfolding detect_new_process_def Let_def
  by (auto intro!: outcome_traverse dest: new_process_each)

lemma off_status: "no_directory_ports kind inp = Some st \<Longrightarrow> ds_detector st = kind" "hours_ready kind inp r = Some st \<Longrightarrow> ds_detector st = kind"
  by (auto simp: no_directory_ports_def hours_ready_def Let_def split: if_split_asm)

lemma auth_each: "auth_of inp x = Inr d \<Longrightarrow> detection_ok DK_AUTH_TO_NON_DC d"
  by (cases x) (auto simp: auth_of_def Let_def split: option.split_asm prod.split_asm if_split_asm
      elim!: with_segment_ok intro: segment_oks)

lemma auth_ok: "outcome_ok DK_AUTH_TO_NON_DC (detect_auth_to_non_dc inp)"
  unfolding detect_auth_to_non_dc_def Let_def
  by (auto intro!: outcome_traverse dest: auth_each off_status split: option.split)

lemma dc_client_each: "dc_client_of inp x = Inr d \<Longrightarrow> detection_ok DK_NEW_DC_CLIENT d"
  by (cases x) (auto simp: dc_client_of_def Let_def split: option.split_asm prod.split_asm if_split_asm
      elim!: with_segment_ok intro: segment_oks)

lemma dc_client_ok: "outcome_ok DK_NEW_DC_CLIENT (detect_new_dc_client inp)"
  unfolding detect_new_dc_client_def Let_def
  by (auto intro!: outcome_traverse dest: dc_client_each off_status split: option.split)

lemma reversal_each: "reversal_of inp x = Inr d \<Longrightarrow> detection_ok DK_DIRECTION_REVERSAL d"
  by (cases x) (auto simp: reversal_of_def pair_detection_def Let_def split: option.split_asm prod.split_asm if_split_asm
      elim!: with_segment_ok intro: segment_oks)

lemma reversal_ok: "outcome_ok DK_DIRECTION_REVERSAL (detect_direction_reversal inp)"
  unfolding detect_direction_reversal_def Let_def
  by (auto intro!: outcome_traverse dest: reversal_each)

lemma quiet_each: "quiet_wakes_of inp a b x = Some (Inr d) \<Longrightarrow> detection_ok DK_QUIET_HOST_WAKES d"
  by (cases x) (auto simp: quiet_wakes_of_def host_hour_def Let_def split: option.split_asm prod.split_asm if_split_asm
      elim!: with_segment_ok intro: segment_oks)

lemma quiet_ok: "outcome_ok DK_QUIET_HOST_WAKES (detect_quiet_host_wakes inp)"
  unfolding detect_quiet_host_wakes_def Let_def
  by (auto intro!: outcome_filtered dest: quiet_each off_status split: option.split)

lemma off_hours_each: "off_hours_of inp h a b x = Some (Inr d) \<Longrightarrow> detection_ok DK_OFF_HOURS d"
  by (cases x) (auto simp: off_hours_of_def host_hour_def Let_def split: option.split_asm prod.split_asm if_split_asm
      elim!: with_segment_ok intro: segment_oks)

lemma off_hours_ok: "outcome_ok DK_OFF_HOURS (detect_off_hours inp)"
  unfolding detect_off_hours_def Let_def
  by (auto intro!: outcome_filtered dest: off_hours_each off_status split: option.split)

lemma staging_each: "staging_of inp x = Some (Inr d) \<Longrightarrow> detection_ok DK_DATA_STAGING d"
  by (cases x) (auto simp: staging_of_def Let_def split: option.split_asm prod.split_asm if_split_asm
      elim!: with_segment_ok intro: segment_oks)

lemma staging_ok: "outcome_ok DK_DATA_STAGING (detect_data_staging inp)"
  unfolding detect_data_staging_def Let_def
  by (auto intro!: outcome_filtered dest: staging_each split: prod.split)

lemma map_sum_Inr: "map_sum id g x = Inr y \<longleftrightarrow> (\<exists>z. x = Inr z \<and> y = g z)"
  by (cases x) auto

lemma pair_detection_ok: "pair_detection inp kind fp src base hits summary = Inr d \<Longrightarrow> detection_ok kind d"
  by (auto simp: pair_detection_def Let_def elim!: with_segment_ok intro: segment_oks)

lemma pair_port_each: "pair_port_of inp n x = Inr d \<Longrightarrow> detection_ok DK_NEW_PAIR_PORT d"
  "pair_scan_of inp y = Inr d \<Longrightarrow> detection_ok DK_NEW_PAIR_PORT d"
  by (auto simp: pair_port_of_def pair_scan_of_def Let_def split: prod.split_asm dest: pair_detection_ok)

lemma traverse_all: "traverse f xs = Inr ys \<Longrightarrow> (\<And>x y. f x = Inr y \<Longrightarrow> P y) \<Longrightarrow> y \<in> set ys \<Longrightarrow> P y"
  using traverse_mem by fastforce

lemma pair_port_ok: "outcome_ok DK_NEW_PAIR_PORT (detect_new_pair_port inp)"
proof (cases "di_baseline_full inp")
  case True
  have "detection_ok DK_NEW_PAIR_PORT d" if d: "d \<in> set ds" "fst (detect_new_pair_port inp) = Inr ds" for d ds
  proof -
    obtain xs ys n us vs where t: "traverse (pair_port_of inp n) xs = Inr us" "traverse (pair_scan_of inp) ys = Inr vs" "ds = us @ vs"
      using d(2) True by (auto simp: detect_new_pair_port_def Let_def map_sum_Inr split: sum.split_asm)
    then show ?thesis
      using d(1) traverse_all [OF t(1) pair_port_each(1)] traverse_all [OF t(2) pair_port_each(2)] by auto
  qed
  moreover have "snd (detect_new_pair_port inp) = ok_status DK_NEW_PAIR_PORT"
    using True by (simp add: detect_new_pair_port_def Let_def)
  ultimately show ?thesis by (simp add: outcome_ok_def)
qed (simp add: detect_new_pair_port_def)

lemma directory_surge_ok: "outcome_ok DK_DIRECTORY_SURGE (detect_directory_surge inp)"
  unfolding detect_directory_surge_def by (auto intro: surge_ok dest: off_status split: option.split)

lemma volume_surge_ok: "outcome_ok DK_VOLUME_SURGE (detect_volume_surge inp)"
  unfolding detect_volume_surge_def by (rule surge_ok)

lemmas detector_oks = fanout_ok new_admin_ok chain_ok blocked_ok non_admin_ok cross_env_ok account_fanout_ok unexpected_ok
  peer_ok volume_surge_ok new_source_ok tool_ok new_process_ok auth_ok dc_client_ok directory_surge_ok reversal_ok
  pair_port_ok quiet_ok staging_ok off_hours_ok

lemma run_one_ok: "outcome_ok kind (run_one inp kind)"
  by (cases kind) (simp_all add: run_one_def detector_oks)

section \<open>The whole run\<close>

definition run_detection_ok :: "detection \<Rightarrow> bool" where
  "run_detection_ok d \<longleftrightarrow> detection_ok (dt_detector d) d"

lemma raise_keeps: "SEV_MEDIUM \<le> s \<Longrightarrow> SEV_MEDIUM \<le> raise_severity s n"
  using raise_severity_ge [of s n] by (rule order_trans [rotated])

lemma apply_precursor_ok: "detection_ok kind d \<Longrightarrow> detection_ok kind (apply_precursor ps w d)"
  by (auto simp: apply_precursor_def Let_def detection_ok_def raise_keeps)

lemma followup_ok: "detection_ok kind d \<Longrightarrow> detection_ok kind (followup rs w d)"
  by (auto simp: followup_def Let_def detection_ok_def raise_keeps)

lemma finish_run_ok:
  "d \<in> set (finish_run inp dets) \<Longrightarrow> (\<And>d'. d' \<in> set dets \<Longrightarrow> \<exists>k. detection_ok k d' \<and> P k) \<Longrightarrow> \<exists>k. detection_ok k d \<and> P k"
proof -
  assume "d \<in> set (finish_run inp dets)" and all: "\<And>d'. d' \<in> set dets \<Longrightarrow> \<exists>k. detection_ok k d' \<and> P k"
  then obtain d' where d': "d' \<in> set dets" "d = followup (an_recent_directory (di_anomaly inp) @ directory_recent dets)
      (dg_directory_followup (di_config inp)) (apply_precursor (di_precursors inp) (dg_precursor_window (di_config inp)) d')"
    by (auto simp: finish_run_def apply_directory_followup_def apply_precursors_def drop_covered_def)
  with all [OF d'(1)] show ?thesis by (auto intro: followup_ok apply_precursor_ok)
qed

text \<open>C39. A run reports every detector's status once, in order; each of its detections belongs to a detector that
  judged (not one that is off, accumulating or without data), carries a valid evidence segment over a real span of
  time, and is at least medium when it is about a critical asset.\<close>

theorem run_results_typed:
  assumes "run_detectors inp = Inr (ds, sts)"
  shows "map ds_detector sts = DETECTOR_KINDS \<and>
    (\<forall>d \<in> set ds. (\<exists>st \<in> set sts. ds_detector st = dt_detector d \<and> judging st) \<and> segment_ok (dt_segment d) \<and>
       (dt_critical_asset d \<longrightarrow> SEV_MEDIUM \<le> dt_severity d))"
proof -
  let ?outs = "map (run_one (live_input inp)) DETECTOR_KINDS"
  obtain found where t: "traverse fst ?outs = Inr found" and ds: "ds = finish_run (live_input inp) (concat found)"
    and sts: "sts = map snd ?outs"
    using assms by (auto simp: run_detectors_def Let_def map_sum_Inr)
  have kinds: "ds_detector (snd (run_one (live_input inp) k)) = k" for k
    using run_one_ok [of k "live_input inp"] by (simp add: outcome_ok_def)
  have "map ds_detector sts = DETECTOR_KINDS" unfolding sts by (simp add: comp_def kinds)
  moreover have "\<exists>k. detection_ok k d \<and> (\<exists>st \<in> set sts. ds_detector st = k \<and> judging st)" if "d \<in> set ds" for d
  proof (rule finish_run_ok [OF that [unfolded ds]])
    fix d' assume "d' \<in> set (concat found)"
    then obtain f where f: "f \<in> set found" "d' \<in> set f" by auto
    obtain out where out: "out \<in> set ?outs" "fst out = Inr f" using traverse_mem [OF t] f(1) by blast
    obtain k where k: "out = run_one (live_input inp) k" using out(1) by auto
    then have "detection_ok k d' \<and> ds_detector (snd out) = k \<and> judging (snd out)"
      using run_one_ok [of k "live_input inp"] f(2) out(2) unfolding outcome_ok_def by auto
    moreover have "snd out \<in> set sts" unfolding sts set_map [of snd] using out(1) by (rule imageI)
    ultimately show "\<exists>k. detection_ok k d' \<and> (\<exists>st \<in> set sts. ds_detector st = k \<and> judging st)" by blast
  qed
  ultimately show ?thesis by (auto simp: detection_ok_def)
qed

theorem run_results_typed_witness:
  "\<exists>ds sts. run_detectors example_input = Inr (ds, sts) \<and> ds \<noteq> [] \<and> map ds_detector sts = DETECTOR_KINDS"
proof -
  have "case run_detectors example_input of Inr (ds, sts) \<Rightarrow> ds \<noteq> [] | Inl _ \<Rightarrow> False" by code_simp
  then obtain ds sts where "run_detectors example_input = Inr (ds, sts)" "ds \<noteq> []" by (auto split: sum.splits)
  then show ?thesis using run_results_typed by blast
qed

section \<open>Covered detections\<close>

definition covers :: "detection \<Rightarrow> detection \<Rightarrow> bool" where
  "covers d' d \<longleftrightarrow> dt_subject_key d' = dt_subject_key d \<and>
     (dt_detector d = DK_QUIET_HOST_WAKES \<and> dt_detector d' = DK_VOLUME_SURGE \<or>
      dt_detector d = DK_OFF_HOURS \<and> (dt_detector d' = DK_VOLUME_SURGE \<or> dt_detector d' = DK_QUIET_HOST_WAKES) \<or>
      dt_detector d = DK_NEW_PAIR_PORT \<and> dt_detector d' = DK_PEER_DEVIATION \<and>
        (\<exists>t \<in> set (target_ports d). t \<in> set (target_ports d')))"

lemma subjects_mem: "s \<in> set (subjects kind dets) \<longleftrightarrow> (\<exists>d \<in> set dets. dt_detector d = kind \<and> dt_subject_key d = s)"
  by (auto simp: subjects_def)

lemma target_ports_subject: "t \<in> set (target_ports d) \<Longrightarrow> fst t = dt_subject_key d"
  by (auto simp: target_ports_def List.map_filter_def split: if_split_asm)

lemma never_covered [simp]:
  "dt_detector d = DK_VOLUME_SURGE \<Longrightarrow> \<not> covered_by dets d" "dt_detector d = DK_PEER_DEVIATION \<Longrightarrow> \<not> covered_by dets d"
  by (simp_all add: covered_by_def Let_def)

lemma covered_iff: "covered_by dets d \<longleftrightarrow> (\<exists>d' \<in> set dets. \<not> covered_by dets d' \<and> covers d' d)"
proof -
  have q: "covered_by dets d' \<longleftrightarrow> dt_subject_key d' \<in> set (subjects DK_VOLUME_SURGE dets)"
    if "dt_detector d' = DK_QUIET_HOST_WAKES" for d'
    using that by (simp add: covered_by_def Let_def)
  consider "dt_detector d = DK_QUIET_HOST_WAKES" | "dt_detector d = DK_OFF_HOURS" | "dt_detector d = DK_NEW_PAIR_PORT"
    | "dt_detector d \<notin> {DK_QUIET_HOST_WAKES, DK_OFF_HOURS, DK_NEW_PAIR_PORT}" by blast
  then show ?thesis
  proof cases
    case 1
    have "covered_by dets d \<longleftrightarrow> (\<exists>d' \<in> set dets. dt_detector d' = DK_VOLUME_SURGE \<and> dt_subject_key d' = dt_subject_key d)"
      unfolding q [OF 1] subjects_mem by blast
    moreover have "covers d' d \<longleftrightarrow> dt_detector d' = DK_VOLUME_SURGE \<and> dt_subject_key d' = dt_subject_key d" for d'
      using 1 by (auto simp: covers_def)
    ultimately show ?thesis using never_covered(1) by blast
  next
    case 2
    have c: "covers d' d \<longleftrightarrow> (dt_detector d' = DK_VOLUME_SURGE \<or> dt_detector d' = DK_QUIET_HOST_WAKES) \<and> dt_subject_key d' = dt_subject_key d" for d'
      using 2 by (auto simp: covers_def)
    have "covered_by dets d \<longleftrightarrow> dt_subject_key d \<in> set (subjects DK_VOLUME_SURGE dets) \<or>
        dt_subject_key d \<in> set (subjects DK_QUIET_HOST_WAKES dets) \<and> dt_subject_key d \<notin> set (subjects DK_VOLUME_SURGE dets)"
      using 2 by (auto simp: covered_by_def Let_def)
    also have "\<dots> \<longleftrightarrow> (\<exists>d' \<in> set dets. \<not> covered_by dets d' \<and> covers d' d)"
    proof
      assume "dt_subject_key d \<in> set (subjects DK_VOLUME_SURGE dets) \<or>
        dt_subject_key d \<in> set (subjects DK_QUIET_HOST_WAKES dets) \<and> dt_subject_key d \<notin> set (subjects DK_VOLUME_SURGE dets)"
      then show "\<exists>d' \<in> set dets. \<not> covered_by dets d' \<and> covers d' d"
      proof
        assume "dt_subject_key d \<in> set (subjects DK_VOLUME_SURGE dets)"
        then show ?thesis unfolding subjects_mem c using never_covered(1) by blast
      next
        assume w: "dt_subject_key d \<in> set (subjects DK_QUIET_HOST_WAKES dets) \<and> dt_subject_key d \<notin> set (subjects DK_VOLUME_SURGE dets)"
        then obtain d' where "d' \<in> set dets" "dt_detector d' = DK_QUIET_HOST_WAKES" "dt_subject_key d' = dt_subject_key d"
          unfolding subjects_mem by blast
        then show ?thesis using w q by (intro bexI [of _ d']) (auto simp: c)
      qed
    next
      assume "\<exists>d' \<in> set dets. \<not> covered_by dets d' \<and> covers d' d"
      then obtain d' where d': "d' \<in> set dets" "\<not> covered_by dets d'" "covers d' d" by blast
      then show "dt_subject_key d \<in> set (subjects DK_VOLUME_SURGE dets) \<or>
        dt_subject_key d \<in> set (subjects DK_QUIET_HOST_WAKES dets) \<and> dt_subject_key d \<notin> set (subjects DK_VOLUME_SURGE dets)"
        using q [of d'] unfolding c subjects_mem by metis
    qed
    finally show ?thesis .
  next
    case 3
    have "covered_by dets d \<longleftrightarrow> (\<exists>d' \<in> set dets. dt_detector d' = DK_PEER_DEVIATION \<and>
        (\<exists>t \<in> set (target_ports d). t \<in> set (target_ports d')))"
      using 3 by (auto simp: covered_by_def Let_def list_ex_iff)
    also have "\<dots> \<longleftrightarrow> (\<exists>d' \<in> set dets. \<not> covered_by dets d' \<and> covers d' d)"
      using 3 never_covered(2) target_ports_subject by (fastforce simp: covers_def)
    finally show ?thesis .
  next
    case 4
    then show ?thesis by (simp add: covered_by_def covers_def Let_def)
  qed
qed



end
