(* ===== verification/AlertStore.thy ===== *)
theory AlertStore
  imports AlertGate
begin

text \<open>
  \<open>store/alerts.py\<close> (with the tables, the cascades and the trigger of its migrations): alerts, their delivery
  per channel, notes, each rule's gate state, what each evaluation got to and the state of each channel. A table
  is a list of rows in the order they were stored or a dictionary by its primary key, an SQL statement a function
  on it; a stored time is its instant (the texts \<open>isoformat\<close> writes in UTC compare as the instants do) and a stored
  JSON value the value itself.
\<close>

section \<open>Rows\<close>

datatype delivery_status = DS_PENDING | DS_SENT | DS_FAILED | DS_NOT_NOTIFIED | DS_GROUPED | DS_NO_CHANNEL

text \<open>A trigger as the services pass it on, with the known cause it is grouped under.\<close>

record grouped_trigger = trigger +
  gt_annotation :: "int option"

record alert =
  al_id :: int
  al_pce_url :: string
  al_org_id :: string
  al_rule_name :: string
  al_pack_key :: "string option"
  al_trigger :: grouped_trigger
  al_fired_at :: time
  al_notify :: bool

record delivery =
  dv_id :: int
  dv_alert_id :: int
  dv_channel :: string
  dv_status :: delivery_status
  dv_attempts :: int
  dv_next_attempt_at :: "time option"
  dv_sent_at :: "time option"
  dv_last_error :: "string option"

record alert_note =
  nt_id :: int
  nt_alert_id :: int
  nt_body :: string
  nt_created_by :: string
  nt_created_at :: time

text \<open>\<open>seen_severity\<close> is the severity of a detection as the rule last evaluated it.\<close>

record rule_state_row =
  rw_state :: rule_state
  rw_suppressed_cooldown :: nat
  rw_suppressed_throttle :: nat
  rw_seen_severity :: "severity option"

record channel_row =
  ch_consecutive_failures :: int
  ch_cooldown_until :: "time option"
  ch_last_error :: "string option"
  ch_last_ok_at :: "time option"

text \<open>Where an evaluation got to: an event or gap id, the time of an upgrade from version 5 (\<open>t:<time>\<close>), the time
  of the newest increment, or the stamp and id of a detection (\<open><stamp>|<id>\<close>).\<close>

datatype watermark = IdMark int | UpgradeMark time | TimeMark time | UpdateMark string int

record eval_mark =
  em_pce_url :: string
  em_org_id :: string
  em_watermark :: watermark

record alert_db =
  ad_alerts :: "alert list"
  ad_id_floor :: int
  ad_deliveries :: "delivery list"
  ad_notes :: "alert_note list"
  ad_rule_state :: "((string \<times> string), rule_state_row) dict"
  ad_rule_status :: "(string, string \<times> time) dict"
  ad_eval_state :: "(string, eval_mark) dict"
  ad_channel_state :: "(string, channel_row) dict"

definition empty_alert_db :: alert_db where
  "empty_alert_db = \<lparr> ad_alerts = [], ad_id_floor = 0, ad_deliveries = [], ad_notes = [], ad_rule_state = [],
     ad_rule_status = [], ad_eval_state = [], ad_channel_state = [] \<rparr>"

text \<open>\<open>UPDATE ... WHERE\<close> on a list of rows, and the id SQLite gives a new row: one above the highest there is.\<close>

definition update_rows :: "('a \<Rightarrow> bool) \<Rightarrow> ('a \<Rightarrow> 'a) \<Rightarrow> 'a list \<Rightarrow> 'a list" where
  "update_rows P f rows = map (\<lambda>r. if P r then f r else r) rows"

definition top_id :: "('a \<Rightarrow> int) \<Rightarrow> 'a list \<Rightarrow> int" where
  "top_id f rows = (case rows of [] \<Rightarrow> 0 | _ \<Rightarrow> Max (f ` set rows))"

section \<open>Alerts\<close>

definition NOT_SENT :: string where "NOT_SENT = ''-''"

definition new_delivery :: "int \<Rightarrow> time \<Rightarrow> string \<times> delivery_status \<Rightarrow> int \<Rightarrow> delivery" where
  "new_delivery alert_id t cs i = \<lparr> dv_id = i, dv_alert_id = alert_id, dv_channel = fst cs, dv_status = snd cs,
     dv_attempts = 0, dv_next_attempt_at = (if snd cs = DS_PENDING then Some t else None), dv_sent_at = None,
     dv_last_error = None \<rparr>"

text \<open>The delivery rows of a new alert: one saying why it is held, one saying that no channel is on, or a pending
  row per channel.\<close>

definition delivery_rows :: "string list \<Rightarrow> delivery_status option \<Rightarrow> (string \<times> delivery_status) list" where
  "delivery_rows channels hold =
     (case hold of
        Some h \<Rightarrow> [(NOT_SENT, h)]
      | None \<Rightarrow> (if channels = [] then [(NOT_SENT, DS_NO_CHANNEL)] else map (\<lambda>c. (c, DS_PENDING)) channels))"

definition next_alert_id :: "alert_db \<Rightarrow> int" where
  "next_alert_id db = max (top_id al_id (ad_alerts db)) (ad_id_floor db) + 1"

definition insert_alert :: "string \<Rightarrow> string \<Rightarrow> string \<Rightarrow> string option \<Rightarrow> grouped_trigger \<Rightarrow> time \<Rightarrow> string list
    \<Rightarrow> delivery_status option \<Rightarrow> alert_db \<Rightarrow> alert_db" where
  "insert_alert pce_url org_id rule_name pack_key trigger t channels hold db =
     (let alert_id = next_alert_id db;
          rows = delivery_rows channels hold;
          from = top_id dv_id (ad_deliveries db)
      in db\<lparr> ad_alerts := ad_alerts db @
               [\<lparr> al_id = alert_id, al_pce_url = pce_url, al_org_id = org_id, al_rule_name = rule_name,
                  al_pack_key = pack_key, al_trigger = trigger, al_fired_at = t, al_notify = (hold = None) \<rparr>],
             ad_deliveries := ad_deliveries db @
               map2 (new_delivery alert_id t) rows (map (\<lambda>i. from + 1 + int i) [0 ..< length rows]) \<rparr>)"

text \<open>\<open>_where\<close>: the detector is the text parameter of that name.\<close>

definition detector_of :: "alert \<Rightarrow> string option" where
  "detector_of a = (case dict_get (tg_params (al_trigger a)) ''detector'' of Some (FJ (JStr d)) \<Rightarrow> Some d | _ \<Rightarrow> None)"

record alert_filter =
  aq_rule_types :: "string list"
  aq_severity :: "string option"
  aq_rule_id :: "string option"
  aq_detectors_in :: "string list"
  aq_detectors_not_in :: "string list"
  aq_ungrouped_only :: bool

definition no_alert_filter :: alert_filter where
  "no_alert_filter = \<lparr> aq_rule_types = [], aq_severity = None, aq_rule_id = None, aq_detectors_in = [],
     aq_detectors_not_in = [], aq_ungrouped_only = False \<rparr>"

definition is_or_any :: "string option \<Rightarrow> string \<Rightarrow> bool" where
  "is_or_any wanted v = (truthy_str wanted \<longrightarrow> wanted = Some v)"

definition alerts_where :: "string \<Rightarrow> string \<Rightarrow> time \<Rightarrow> alert_filter \<Rightarrow> alert \<Rightarrow> bool" where
  "alerts_where pce_url org_id since q a =
     (al_pce_url a = pce_url \<and> al_org_id a = org_id \<and> since \<le> al_fired_at a
      \<and> is_or_any (aq_severity q) (severity_value (tg_severity (al_trigger a)))
      \<and> is_or_any (aq_rule_id q) (tg_rule_id (al_trigger a))
      \<and> (aq_rule_types q = [] \<or> alert_rule_type_value (tg_rule_type (al_trigger a)) \<in> set (aq_rule_types q))
      \<and> (aq_detectors_in q = [] \<or> (case detector_of a of None \<Rightarrow> False | Some d \<Rightarrow> d \<in> set (aq_detectors_in q)))
      \<and> (aq_detectors_not_in q = [] \<or> (case detector_of a of None \<Rightarrow> True | Some d \<Rightarrow> d \<notin> set (aq_detectors_not_in q)))
      \<and> (aq_ungrouped_only q \<longrightarrow> gt_annotation (al_trigger a) = None))"

definition newest_first :: "alert list \<Rightarrow> alert list" where
  "newest_first rows = sort_key (\<lambda>a. - al_fired_at a) (sort_key (\<lambda>a. - al_id a) rows)"

definition list_alerts :: "alert_db \<Rightarrow> string \<Rightarrow> string \<Rightarrow> time \<Rightarrow> alert_filter \<Rightarrow> nat \<Rightarrow> nat \<Rightarrow> alert list \<times> nat" where
  "list_alerts db pce_url org_id since q limit offset =
     (let found = filter (alerts_where pce_url org_id since q) (ad_alerts db)
      in (take limit (drop offset (newest_first found)), length found))"

definition period_counts :: "alert_db \<Rightarrow> string \<Rightarrow> string \<Rightarrow> time \<Rightarrow> (string, nat) dict" where
  "period_counts db pce_url org_id since =
     (let found = filter (alerts_where pce_url org_id since no_alert_filter) (ad_alerts db)
      in dict_set ''grouped'' (length (filter (\<lambda>a. gt_annotation (al_trigger a) \<noteq> None) found))
           (map (\<lambda>(s, rows). (s, length rows)) (group_by (\<lambda>a. severity_value (tg_severity (al_trigger a))) found)))"

definition count_ungrouped :: "alert_db \<Rightarrow> string \<Rightarrow> string \<Rightarrow> time \<Rightarrow> nat" where
  "count_ungrouped db pce_url org_id since =
     length (filter (\<lambda>a. al_pce_url a = pce_url \<and> al_org_id a = org_id \<and> since \<le> al_fired_at a
                       \<and> gt_annotation (al_trigger a) = None) (ad_alerts db))"

definition get_alert :: "alert_db \<Rightarrow> int \<Rightarrow> string \<Rightarrow> string \<Rightarrow> alert option" where
  "get_alert db alert_id pce_url org_id =
     find (\<lambda>a. al_id a = alert_id \<and> al_pce_url a = pce_url \<and> al_org_id a = org_id) (ad_alerts db)"

definition alerts_by_id :: "alert_db \<Rightarrow> int list \<Rightarrow> alert list" where
  "alerts_by_id db ids = sort_key al_id (filter (\<lambda>a. al_id a \<in> set ids) (ad_alerts db))"

definition deliveries :: "alert_db \<Rightarrow> int list \<Rightarrow> delivery list" where
  "deliveries db ids = sort_key dv_alert_id (sort_key dv_channel (filter (\<lambda>d. dv_alert_id d \<in> set ids) (ad_deliveries db)))"

definition last_alert :: "alert_db \<Rightarrow> string \<Rightarrow> string \<Rightarrow> alert option" where
  "last_alert db rule_id subject_key =
     (case newest_first (filter (\<lambda>a. tg_rule_id (al_trigger a) = rule_id \<and> tg_subject_key (al_trigger a) = subject_key)
             (ad_alerts db)) of [] \<Rightarrow> None | a # _ \<Rightarrow> Some a)"

section \<open>Notes\<close>

text \<open>A note on an alert that is gone breaks the foreign key.\<close>

definition add_note :: "int \<Rightarrow> string \<Rightarrow> string \<Rightarrow> time \<Rightarrow> alert_db \<Rightarrow> (alert_db \<times> int) option" where
  "add_note alert_id body created_by t db =
     (if alert_id \<in> al_id ` set (ad_alerts db)
      then (let i = top_id nt_id (ad_notes db) + 1
            in Some (db\<lparr> ad_notes := ad_notes db @ [\<lparr> nt_id = i, nt_alert_id = alert_id, nt_body = body,
                          nt_created_by = created_by, nt_created_at = t \<rparr>] \<rparr>, i))
      else None)"

definition notes_of :: "alert_db \<Rightarrow> int \<Rightarrow> alert_note list" where
  "notes_of db alert_id = sort_key nt_id (filter (\<lambda>n. nt_alert_id n = alert_id) (ad_notes db))"

section \<open>Rule state\<close>

definition stored_state :: "alert_db \<Rightarrow> string \<Rightarrow> string \<Rightarrow> rule_state option" where
  "stored_state db rule_id subject_key = map_option rw_state (dict_get (ad_rule_state db) (rule_id, subject_key))"

definition save_rule_state :: "string \<Rightarrow> string \<Rightarrow> rule_state \<Rightarrow> gate_reason option \<Rightarrow> alert_db \<Rightarrow> alert_db" where
  "save_rule_state rule_id subject_key state suppressed db =
     (let c = (if suppressed = Some GR_COOLDOWN then 1 else 0); t = (if suppressed = Some GR_THROTTLE then 1 else 0)
      in db\<lparr> ad_rule_state := dict_set (rule_id, subject_key)
           (case dict_get (ad_rule_state db) (rule_id, subject_key) of
              None \<Rightarrow> \<lparr> rw_state = state, rw_suppressed_cooldown = c, rw_suppressed_throttle = t, rw_seen_severity = None \<rparr>
            | Some r \<Rightarrow> r\<lparr> rw_state := state, rw_suppressed_cooldown := rw_suppressed_cooldown r + c,
                           rw_suppressed_throttle := rw_suppressed_throttle r + t \<rparr>)
           (ad_rule_state db) \<rparr>)"

definition rule_states :: "alert_db \<Rightarrow> (string, rule_state list) dict" where
  "rule_states db = map (\<lambda>(r, rows). (r, map (rw_state \<circ> snd) rows)) (group_by (fst \<circ> fst) (ad_rule_state db))"

definition reset_rule_state :: "string \<Rightarrow> alert_db \<Rightarrow> alert_db" where
  "reset_rule_state rule_id db = db\<lparr> ad_rule_state :=
     map (\<lambda>((r, s), row). ((r, s), if r = rule_id then row\<lparr> rw_state := fresh_state \<rparr> else row)) (ad_rule_state db) \<rparr>"

definition seen_severity :: "alert_db \<Rightarrow> string \<Rightarrow> string \<Rightarrow> severity option" where
  "seen_severity db rule_id subject_key =
     (case dict_get (ad_rule_state db) (rule_id, subject_key) of None \<Rightarrow> None | Some r \<Rightarrow> rw_seen_severity r)"

definition set_seen_severity :: "string \<Rightarrow> string \<Rightarrow> severity \<Rightarrow> alert_db \<Rightarrow> alert_db" where
  "set_seen_severity rule_id subject_key sev db =
     db\<lparr> ad_rule_state := dict_set (rule_id, subject_key)
          (case dict_get (ad_rule_state db) (rule_id, subject_key) of
             None \<Rightarrow> \<lparr> rw_state = fresh_state, rw_suppressed_cooldown = 0, rw_suppressed_throttle = 0,
                       rw_seen_severity = Some sev \<rparr>
           | Some r \<Rightarrow> r\<lparr> rw_seen_severity := Some sev \<rparr>)
          (ad_rule_state db) \<rparr>"

definition set_rule_status :: "string \<Rightarrow> string \<Rightarrow> time \<Rightarrow> alert_db \<Rightarrow> alert_db" where
  "set_rule_status rule_id status t db = db\<lparr> ad_rule_status := dict_set rule_id (status, t) (ad_rule_status db) \<rparr>"

record rule_summary =
  ru_last_fired_at :: "time option"
  ru_fired_7d :: nat
  ru_suppressed_cooldown :: nat
  ru_suppressed_throttle :: nat
  ru_last_status :: "string option"
  ru_known_7d :: nat

definition rule_summary_of :: "alert_db \<Rightarrow> string \<Rightarrow> string \<Rightarrow> time \<Rightarrow> string \<Rightarrow> rule_summary" where
  "rule_summary_of db pce_url org_id now rule_id =
     (let fired = filter (\<lambda>a. al_pce_url a = pce_url \<and> al_org_id a = org_id \<and> tg_rule_id (al_trigger a) = rule_id)
                    (ad_alerts db);
          week = filter (\<lambda>a. now - 7 * DAY \<le> al_fired_at a) fired;
          held = filter (\<lambda>((r, _), _). r = rule_id) (ad_rule_state db)
      in \<lparr> ru_last_fired_at = (if fired = [] then None else Some (Max (al_fired_at ` set fired))),
           ru_fired_7d = length week,
           ru_suppressed_cooldown = sum_list (map (rw_suppressed_cooldown \<circ> snd) held),
           ru_suppressed_throttle = sum_list (map (rw_suppressed_throttle \<circ> snd) held),
           ru_last_status = map_option fst (dict_get (ad_rule_status db) rule_id),
           ru_known_7d = length (filter (\<lambda>a. gt_annotation (al_trigger a) \<noteq> None) week) \<rparr>)"

definition rule_summaries :: "alert_db \<Rightarrow> string \<Rightarrow> string \<Rightarrow> time \<Rightarrow> (string, rule_summary) dict" where
  "rule_summaries db pce_url org_id now =
     map (\<lambda>r. (r, rule_summary_of db pce_url org_id now r))
       (nub (map (\<lambda>a. tg_rule_id (al_trigger a))
               (filter (\<lambda>a. al_pce_url a = pce_url \<and> al_org_id a = org_id) (ad_alerts db))
             @ map (fst \<circ> fst) (ad_rule_state db) @ dict_keys (ad_rule_status db)))"

section \<open>Evaluation watermarks\<close>

text \<open>None when there is none or it is about another PCE.\<close>

definition eval_watermark :: "alert_db \<Rightarrow> string \<Rightarrow> string \<Rightarrow> string \<Rightarrow> watermark option" where
  "eval_watermark db source pce_url org_id =
     (case dict_get (ad_eval_state db) source of
        None \<Rightarrow> None
      | Some m \<Rightarrow> (if (em_pce_url m, em_org_id m) \<noteq> (pce_url, org_id) then None else Some (em_watermark m)))"

definition set_eval_watermark :: "string \<Rightarrow> watermark \<Rightarrow> string \<Rightarrow> string \<Rightarrow> alert_db \<Rightarrow> alert_db" where
  "set_eval_watermark source v pce_url org_id db = db\<lparr> ad_eval_state :=
     dict_set source \<lparr> em_pce_url = pce_url, em_org_id = org_id, em_watermark = v \<rparr> (ad_eval_state db) \<rparr>"

definition clear_eval_state :: "alert_db \<Rightarrow> alert_db" where
  "clear_eval_state db = db\<lparr> ad_eval_state := [] \<rparr>"

section \<open>Deliveries and channels\<close>

text \<open>A NULL time is never due.\<close>

definition is_due :: "time \<Rightarrow> delivery \<Rightarrow> bool" where
  "is_due now d = (dv_status d = DS_PENDING \<and> (case dv_next_attempt_at d of None \<Rightarrow> False | Some t \<Rightarrow> t \<le> now))"

definition due_deliveries :: "alert_db \<Rightarrow> time \<Rightarrow> nat \<Rightarrow> delivery list" where
  "due_deliveries db now limit =
     take limit (sort_key dv_next_attempt_at (sort_key dv_id (filter (is_due now) (ad_deliveries db))))"

definition marked :: "delivery_status \<Rightarrow> int \<Rightarrow> time option \<Rightarrow> time option \<Rightarrow> string option \<Rightarrow> delivery \<Rightarrow> delivery" where
  "marked status attempts_add next_attempt_at sent_at error d =
     d\<lparr> dv_status := status, dv_attempts := dv_attempts d + attempts_add, dv_next_attempt_at := next_attempt_at,
        dv_sent_at := (case sent_at of None \<Rightarrow> dv_sent_at d | Some t \<Rightarrow> Some t), dv_last_error := error \<rparr>"

definition mark_deliveries :: "int list \<Rightarrow> delivery_status \<Rightarrow> int \<Rightarrow> time option \<Rightarrow> time option \<Rightarrow> string option
    \<Rightarrow> alert_db \<Rightarrow> alert_db" where
  "mark_deliveries ids status attempts_add next_attempt_at sent_at error db =
     (if ids = [] then db
      else db\<lparr> ad_deliveries := update_rows (\<lambda>d. dv_id d \<in> set ids)
                 (marked status attempts_add next_attempt_at sent_at error) (ad_deliveries db) \<rparr>)"

definition channel_state :: "alert_db \<Rightarrow> string \<Rightarrow> channel_row option" where
  "channel_state db channel = dict_get (ad_channel_state db) channel"

definition save_channel_state :: "string \<Rightarrow> int \<Rightarrow> time option \<Rightarrow> string option \<Rightarrow> time option \<Rightarrow> alert_db \<Rightarrow> alert_db" where
  "save_channel_state channel failures cooldown_until error ok_at db =
     db\<lparr> ad_channel_state := dict_set channel
           \<lparr> ch_consecutive_failures = failures, ch_cooldown_until = cooldown_until, ch_last_error = error,
              ch_last_ok_at = (case ok_at of
                 Some t \<Rightarrow> Some t
               | None \<Rightarrow> Option.bind (dict_get (ad_channel_state db) channel) ch_last_ok_at) \<rparr>
           (ad_channel_state db) \<rparr>"

section \<open>Retention and moves\<close>

definition count_notified_alerts_before :: "alert_db \<Rightarrow> time \<Rightarrow> string \<Rightarrow> string \<Rightarrow> int \<Rightarrow> nat" where
  "count_notified_alerts_before db cutoff pce_url org_id after_id =
     length (filter (\<lambda>a. after_id < al_id a \<and> al_notify a \<and> al_pce_url a = pce_url \<and> al_org_id a = org_id
                       \<and> al_fired_at a < cutoff) (ad_alerts db))"

text \<open>The trigger raises the floor to each id it deletes; deliveries and notes go with their alert.\<close>

definition delete_alerts_before :: "time \<Rightarrow> alert_db \<Rightarrow> alert_db \<times> nat" where
  "delete_alerts_before cutoff db =
     (let gone = filter (\<lambda>a. al_fired_at a < cutoff) (ad_alerts db); ids = al_id ` set gone
      in (db\<lparr> ad_alerts := filter (\<lambda>a. \<not> al_fired_at a < cutoff) (ad_alerts db),
              ad_id_floor := fold (\<lambda>a f. max f (al_id a)) gone (ad_id_floor db),
              ad_deliveries := filter (\<lambda>d. dv_alert_id d \<notin> ids) (ad_deliveries db),
              ad_notes := filter (\<lambda>n. nt_alert_id n \<notin> ids) (ad_notes db) \<rparr>, length gone))"

definition alerts_move_pce :: "string \<Rightarrow> string \<Rightarrow> string \<Rightarrow> alert_db \<Rightarrow> alert_db \<times> nat" where
  "alerts_move_pce old_url new_url org_id db =
     (let mine = (\<lambda>a. al_pce_url a = old_url \<and> al_org_id a = org_id)
      in (db\<lparr> ad_alerts := update_rows mine (\<lambda>a. a\<lparr> al_pce_url := new_url \<rparr>) (ad_alerts db),
              ad_eval_state := map (\<lambda>(k, m). (k, if em_pce_url m = old_url \<and> em_org_id m = org_id
                                                 then m\<lparr> em_pce_url := new_url \<rparr> else m)) (ad_eval_state db) \<rparr>,
          length (filter mine (ad_alerts db))))"

end
