(* ===== verification/AlertDispatch.thy ===== *)
theory AlertDispatch
  imports AlertStore
begin

text \<open>
  \<open>services/alerts/dispatch.py\<close>: every minute the deliveries that are due, one message per channel. What a channel
  replies to a message (rendering, mail and HTTP included) is a parameter: any function of the channel and the
  alerts. \<open>dispatch_exact\<close> compares a run with a reference that judges each delivery on its own.
\<close>

section \<open>The run\<close>

definition DUE_LIMIT :: nat where "DUE_LIMIT = 200"
definition ATTEMPTS :: int where "ATTEMPTS = 3"
definition BACKOFF :: "time list" where "BACKOFF = [MINUTE, 5 * MINUTE]"
definition CHANNEL_STRIKES :: int where "CHANNEL_STRIKES = 3"
definition CHANNEL_REST :: time where "CHANNEL_REST = 5 * MINUTE"

text \<open>\<open>SendResult\<close>: None is ok, otherwise the error. A message is what a channel was sent and what it replied.\<close>

type_synonym channel_sender = "string \<Rightarrow> alert list \<Rightarrow> string option"

record message =
  ms_channel :: string
  ms_alerts :: "alert list"
  ms_error :: "string option"

record alert_world =
  aw_db :: alert_db
  aw_messages :: "message list"

record dispatch_run =
  dr_sent :: nat
  dr_failed :: nat
  dr_waiting :: nat

definition send_message :: "channel_sender \<Rightarrow> string \<Rightarrow> alert list \<Rightarrow> alert_world \<Rightarrow> string option \<times> alert_world" where
  "send_message send channel views w =
     (let e = send channel views
      in (e, w\<lparr> aw_messages := aw_messages w @ [\<lparr> ms_channel = channel, ms_alerts = views, ms_error = e \<rparr>] \<rparr>))"

text \<open>The rows a failed message leaves, by the attempt it was: final after the third, put off before.\<close>

definition mark_failed :: "time \<Rightarrow> string \<Rightarrow> int \<times> delivery list \<Rightarrow> alert_db \<Rightarrow> alert_db" where
  "mark_failed t error g =
     (let attempts = fst g; final = (ATTEMPTS \<le> attempts)
      in mark_deliveries (map dv_id (snd g)) (if final then DS_FAILED else DS_PENDING) 1
           (if final then None else Some (t + BACKOFF ! nat (attempts - 1))) None (Some error))"

definition record_outcome :: "string \<Rightarrow> delivery list \<Rightarrow> string option \<Rightarrow> time \<Rightarrow> int \<Rightarrow> alert_db \<Rightarrow> alert_db" where
  "record_outcome channel items result t strikes db =
     (case result of
        None \<Rightarrow> save_channel_state channel 0 None None (Some t)
                  (mark_deliveries (map dv_id items) DS_SENT 1 None (Some t) None db)
      | Some error \<Rightarrow>
          save_channel_state channel (strikes + 1)
            (if CHANNEL_STRIKES \<le> strikes + 1 then Some (t + CHANNEL_REST) else None) (Some error) None
            (fold (mark_failed t error) (group_by (\<lambda>d. dv_attempts d + 1) items) db))"

definition resting :: "channel_row option \<Rightarrow> time \<Rightarrow> bool" where
  "resting state t =
     (case state of None \<Rightarrow> False | Some s \<Rightarrow> (case ch_cooldown_until s of None \<Rightarrow> False | Some u \<Rightarrow> t < u))"

definition strikes_of :: "channel_row option \<Rightarrow> int" where
  "strikes_of state = (case state of None \<Rightarrow> 0 | Some s \<Rightarrow> ch_consecutive_failures s)"

text \<open>\<open>rows[a]\<close> for each delivery; None is the \<open>KeyError\<close> of an alert that is not there.\<close>

definition views_of :: "alert list \<Rightarrow> delivery list \<Rightarrow> alert list option" where
  "views_of rows items = those (map (\<lambda>d. find (\<lambda>a. al_id a = dv_alert_id d) rows) items)"

fun dispatch_each :: "string list \<Rightarrow> channel_sender \<Rightarrow> time \<Rightarrow> (string \<Rightarrow> channel_row option) \<Rightarrow> alert list
    \<Rightarrow> (string \<times> delivery list) list \<Rightarrow> alert_world \<Rightarrow> dispatch_run \<Rightarrow> alert_world \<times> dispatch_run option" where
  "dispatch_each enabled send t states rows [] w out = (w, Some out)"
| "dispatch_each enabled send t states rows ((channel, items) # rest) w out =
     (if channel \<notin> set enabled
      then dispatch_each enabled send t states rows rest
             (w\<lparr> aw_db := mark_deliveries (map dv_id items) DS_FAILED 0 None None (Some ''channel_disabled'') (aw_db w) \<rparr>)
             (out\<lparr> dr_failed := dr_failed out + length items \<rparr>)
      else if resting (states channel) t
      then dispatch_each enabled send t states rows rest w (out\<lparr> dr_waiting := dr_waiting out + length items \<rparr>)
      else case views_of rows items of
             None \<Rightarrow> (w, None)
           | Some views \<Rightarrow>
               (let (result, w1) = send_message send channel views w;
                    w2 = w1\<lparr> aw_db := record_outcome channel items result t (strikes_of (states channel)) (aw_db w1) \<rparr>
                in dispatch_each enabled send t states rows rest w2
                     (if result = None then out\<lparr> dr_sent := dr_sent out + length items \<rparr>
                      else out\<lparr> dr_failed := dr_failed out + length items \<rparr>)))"

definition run_dispatch :: "string list \<Rightarrow> channel_sender \<Rightarrow> time \<Rightarrow> alert_world \<Rightarrow> alert_world \<times> dispatch_run option" where
  "run_dispatch enabled send t w =
     (let due = due_deliveries (aw_db w) t DUE_LIMIT;
          rows = alerts_by_id (aw_db w) (map dv_alert_id due)
      in dispatch_each enabled send t (channel_state (aw_db w)) rows (sort_key fst (group_by dv_channel due)) w
           \<lparr> dr_sent = 0, dr_failed = 0, dr_waiting = 0 \<rparr>)"

section \<open>A delivery on its own\<close>

text \<open>What an attempt makes of a delivery, and what a run makes of it.\<close>

definition attempted :: "time \<Rightarrow> string option \<Rightarrow> delivery \<Rightarrow> delivery" where
  "attempted t result d =
     (case result of
        None \<Rightarrow> marked DS_SENT 1 None (Some t) None d
      | Some e \<Rightarrow> (if ATTEMPTS \<le> dv_attempts d + 1 then marked DS_FAILED 1 None None (Some e) d
                   else marked DS_PENDING 1 (Some (t + BACKOFF ! nat (dv_attempts d))) None (Some e) d))"

definition alert_of :: "alert_db \<Rightarrow> delivery \<Rightarrow> alert" where
  "alert_of db d = the (find (\<lambda>a. al_id a = dv_alert_id d) (ad_alerts db))"

definition due_of :: "alert_db \<Rightarrow> time \<Rightarrow> string \<Rightarrow> delivery list" where
  "due_of db t c = filter (\<lambda>d. dv_channel d = c) (due_deliveries db t DUE_LIMIT)"

definition reply_of :: "channel_sender \<Rightarrow> alert_db \<Rightarrow> time \<Rightarrow> string \<Rightarrow> string option" where
  "reply_of send db t c = send c (map (alert_of db) (due_of db t c))"

definition delivery_after :: "string list \<Rightarrow> channel_sender \<Rightarrow> time \<Rightarrow> alert_db \<Rightarrow> delivery \<Rightarrow> delivery" where
  "delivery_after enabled send t db d =
     (if d \<notin> set (due_deliveries db t DUE_LIMIT) then d
      else if dv_channel d \<notin> set enabled then marked DS_FAILED 0 None None (Some ''channel_disabled'') d
      else if resting (channel_state db (dv_channel d)) t then d
      else attempted t (reply_of send db t (dv_channel d)) d)"

definition messages_of :: "string list \<Rightarrow> channel_sender \<Rightarrow> time \<Rightarrow> alert_db \<Rightarrow> message list" where
  "messages_of enabled send t db =
     map (\<lambda>c. \<lparr> ms_channel = c, ms_alerts = map (alert_of db) (due_of db t c), ms_error = reply_of send db t c \<rparr>)
       (filter (\<lambda>c. c \<in> set enabled \<and> \<not> resting (channel_state db c) t)
          (sort (nub (map dv_channel (due_deliveries db t DUE_LIMIT)))))"

text \<open>Ids are unique and every delivery has its alert.\<close>

definition rows_ok :: "alert_db \<Rightarrow> bool" where
  "rows_ok db \<longleftrightarrow> distinct (map al_id (ad_alerts db)) \<and> distinct (map dv_id (ad_deliveries db)) \<and>
     (\<forall>d \<in> set (ad_deliveries db). dv_alert_id d \<in> al_id ` set (ad_alerts db))"

section \<open>A run judges each delivery on its own\<close>

lemma mark_deliveries_rows:
  "ad_deliveries (mark_deliveries ids st n nx se e db) =
     map (\<lambda>d. if dv_id d \<in> set ids then marked st n nx se e d else d) (ad_deliveries db)"
  by (auto simp: mark_deliveries_def update_rows_def)

lemma mark_deliveries_alerts [simp]: "ad_alerts (mark_deliveries ids st n nx se e db) = ad_alerts db"
  by (simp add: mark_deliveries_def)

lemma mark_deliveries_floor [simp]: "ad_id_floor (mark_deliveries ids st n nx se e db) = ad_id_floor db"
  by (simp add: mark_deliveries_def)

lemma save_channel_state_other [simp]:
  "ad_deliveries (save_channel_state c f u e k db) = ad_deliveries db"
  "ad_alerts (save_channel_state c f u e k db) = ad_alerts db"
  "ad_id_floor (save_channel_state c f u e k db) = ad_id_floor db"
  by (simp_all add: save_channel_state_def)

lemma marked_same [simp]:
  "dv_id (marked st n nx se e d) = dv_id d" "dv_alert_id (marked st n nx se e d) = dv_alert_id d"
  "dv_channel (marked st n nx se e d) = dv_channel d"
  by (simp_all add: marked_def)

lemma attempted_same [simp]:
  "dv_id (attempted t r d) = dv_id d" "dv_alert_id (attempted t r d) = dv_alert_id d"
  "dv_channel (attempted t r d) = dv_channel d"
  by (simp_all add: attempted_def split: option.split)

lemma find_unique:
  assumes "distinct (map f xs)" "a \<in> set xs"
  shows "find (\<lambda>x. f x = f a) xs = Some a"
  using assms by (induction xs) (auto simp: image_iff)

lemma those_map_Some: "(\<And>x. x \<in> set xs \<Longrightarrow> f x = Some (g x)) \<Longrightarrow> those (map f xs) = Some (map g xs)"
  by (induction xs) auto

lemma alert_of_row:
  assumes "rows_ok db" "d \<in> set (ad_deliveries db)"
  shows "alert_of db d \<in> set (ad_alerts db)" "al_id (alert_of db d) = dv_alert_id d"
proof -
  obtain a where a: "a \<in> set (ad_alerts db)" "dv_alert_id d = al_id a" using assms by (auto simp: rows_ok_def)
  then have "alert_of db d = a"
    using find_unique [of al_id "ad_alerts db" a] assms(1) by (simp add: alert_of_def rows_ok_def)
  then show "alert_of db d \<in> set (ad_alerts db)" "al_id (alert_of db d) = dv_alert_id d" using a by auto
qed

lemma due_rows: "d \<in> set (due_deliveries db t n) \<Longrightarrow> d \<in> set (ad_deliveries db) \<and> is_due t d"
  unfolding due_deliveries_def by (drule in_set_takeD) simp

lemma distinct_sort_map: "distinct (map f (sort_key g xs)) = distinct (map f xs)"
proof -
  have m: "mset (map f (sort_key g xs)) = mset (map f xs)" by simp
  then show ?thesis by (rule mset_eq_imp_distinct_iff)
qed

lemma views_found:
  assumes ok: "rows_ok db" and items: "set items \<subseteq> set (due_deliveries db t n)"
  shows "views_of (alerts_by_id db (map dv_alert_id (due_deliveries db t n))) items = Some (map (alert_of db) items)"
proof -
  let ?rows = "alerts_by_id db (map dv_alert_id (due_deliveries db t n))"
  have d: "distinct (map al_id ?rows)"
    using ok by (simp add: alerts_by_id_def distinct_sort_map rows_ok_def distinct_map_filter)
  have "find (\<lambda>a. al_id a = dv_alert_id x) ?rows = Some (alert_of db x)" if x: "x \<in> set items" for x
  proof -
    have due: "x \<in> set (due_deliveries db t n)" using x items by auto
    then have row: "x \<in> set (ad_deliveries db)" using due_rows by blast
    have "alert_of db x \<in> set ?rows"
      using alert_of_row [OF ok row] due by (auto simp: alerts_by_id_def)
    from find_unique [OF d this] show ?thesis using alert_of_row [OF ok row] by simp
  qed
  then show ?thesis unfolding views_of_def by (rule those_map_Some)
qed

text \<open>One group of deliveries that failed, by attempts.\<close>

lemma failed_marks:
  assumes ids: "distinct (map dv_id rows)" and sub: "set items \<subseteq> set rows" and db: "ad_deliveries db = rows"
    and ks: "distinct ks"
  shows "ad_deliveries (fold (mark_failed t e) (map (\<lambda>k. (k, filter (\<lambda>d. dv_attempts d + 1 = k) items)) ks) db) =
    map (\<lambda>d. if d \<in> set items \<and> dv_attempts d + 1 \<in> set ks then attempted t (Some e) d else d) rows"
  using ks
proof (induction ks rule: rev_induct)
  case Nil
  then show ?case using db by simp
next
  case (snoc k ks)
  let ?part = "filter (\<lambda>d. dv_attempts d + 1 = k) items"
  have own: "dv_id d \<in> dv_id ` set ?part \<longleftrightarrow> d \<in> set items \<and> dv_attempts d + 1 = k" if d: "d \<in> set rows" for d
  proof -
    have "inj_on dv_id (set rows)" using ids by (simp add: distinct_map)
    then have "dv_id d \<in> dv_id ` set ?part \<longleftrightarrow> d \<in> set ?part"
      using d sub by (intro inj_on_image_mem_iff [where B = "set rows"]) auto
    then show ?thesis by simp
  qed
  have IH: "ad_deliveries (fold (mark_failed t e) (map (\<lambda>k. (k, filter (\<lambda>d. dv_attempts d + 1 = k) items)) ks) db) =
      map (\<lambda>d. if d \<in> set items \<and> dv_attempts d + 1 \<in> set ks then attempted t (Some e) d else d) rows"
    using snoc by simp
  have k: "k \<notin> set ks" using snoc.prems by simp
  show ?case
    unfolding map_append fold_append o_apply list.map fold.simps id_o
    unfolding mark_failed_def [of t e "(k, ?part)"] Let_def fst_conv snd_conv mark_deliveries_rows IH map_map set_map
    using own k by (auto simp: attempted_def intro!: map_cong)
qed

lemma outcome_rows:
  assumes "distinct (map dv_id (ad_deliveries db))" "set items \<subseteq> set (ad_deliveries db)"
  shows "ad_deliveries (record_outcome c items r t s db) =
    map (\<lambda>d. if d \<in> set items then attempted t r d else d) (ad_deliveries db)"
proof (cases r)
  case None
  have "dv_id d \<in> dv_id ` set items \<longleftrightarrow> d \<in> set items" if "d \<in> set (ad_deliveries db)" for d
    using assms that by (intro inj_on_image_mem_iff [where B = "set (ad_deliveries db)"]) (auto simp: distinct_map)
  then show ?thesis
    using None by (auto simp: record_outcome_def mark_deliveries_rows attempted_def intro!: map_cong)
next
  case (Some e)
  have "ad_deliveries (record_outcome c items r t s db) =
      ad_deliveries (fold (mark_failed t e) (group_by (\<lambda>d. dv_attempts d + 1) items) db)"
    using Some by (simp add: record_outcome_def)
  also have "\<dots> = map (\<lambda>d. if d \<in> set items then attempted t r d else d) (ad_deliveries db)"
    unfolding group_by_items using failed_marks [OF assms(1,2) refl distinct_nub] Some
    by (auto simp: image_iff intro!: map_cong)
  finally show ?thesis .
qed

lemma fold_marks_other:
  "ad_alerts (fold (mark_failed t e) gs db) = ad_alerts db"
  "ad_id_floor (fold (mark_failed t e) gs db) = ad_id_floor db"
  by (induction gs arbitrary: db) (simp_all add: mark_failed_def Let_def)

lemma outcome_other [simp]:
  "ad_alerts (record_outcome c items r t s db) = ad_alerts db"
  "ad_id_floor (record_outcome c items r t s db) = ad_id_floor db"
  by (simp_all add: record_outcome_def fold_marks_other split: option.split)

text \<open>The rows once the channels in \<open>D\<close> have been dealt with.\<close>

definition dealt :: "string list \<Rightarrow> channel_sender \<Rightarrow> time \<Rightarrow> alert_db \<Rightarrow> string set \<Rightarrow> delivery \<Rightarrow> delivery" where
  "dealt enabled send t db D d = (if dv_channel d \<in> D then delivery_after enabled send t db d else d)"

lemma delivery_after_same [simp]:
  "dv_id (delivery_after enabled send t db d) = dv_id d"
  "dv_alert_id (delivery_after enabled send t db d) = dv_alert_id d"
  "dv_channel (delivery_after enabled send t db d) = dv_channel d"
  by (simp_all add: delivery_after_def)

lemma dealt_same [simp]: "dv_id (dealt enabled send t db D d) = dv_id d"
  by (simp add: dealt_def)

definition sends_to :: "string list \<Rightarrow> time \<Rightarrow> alert_db \<Rightarrow> string \<Rightarrow> bool" where
  "sends_to enabled t db c \<longleftrightarrow> c \<in> set enabled \<and> \<not> resting (channel_state db c) t"

lemma dealt_group:
  assumes "rows = map (dealt enabled send t db D) (ad_deliveries db)" "c \<notin> D"
    and f: "\<And>d. d \<in> set (due_of db t c) \<Longrightarrow> f d = delivery_after enabled send t db d"
    and ids: "distinct (map dv_id (ad_deliveries db))"
  shows "map (\<lambda>d. if d \<in> set (due_of db t c) then f d else d) rows =
    map (dealt enabled send t db (insert c D)) (ad_deliveries db)"
proof -
  have "(if dealt enabled send t db D d \<in> set (due_of db t c) then f (dealt enabled send t db D d)
        else dealt enabled send t db D d) = dealt enabled send t db (insert c D) d"
    if d: "d \<in> set (ad_deliveries db)" for d
  proof (cases "dv_channel d = c")
    case True
    then have same: "dealt enabled send t db D d = d" using assms(2) by (simp add: dealt_def)
    show ?thesis
    proof (cases "d \<in> set (due_of db t c)")
      case True
      then show ?thesis using f same \<open>dv_channel d = c\<close> by (simp add: dealt_def)
    next
      case False
      then have "delivery_after enabled send t db d = d"
        using \<open>dv_channel d = c\<close> by (auto simp: due_of_def delivery_after_def)
      then show ?thesis using False same \<open>dv_channel d = c\<close> by (simp add: dealt_def)
    qed
  next
    case False
    then have "dealt enabled send t db D d \<notin> set (due_of db t c)" by (auto simp: due_of_def dealt_def)
    then show ?thesis using False by (simp add: dealt_def)
  qed
  then show ?thesis unfolding assms(1) by simp
qed

lemma due_of_rows: "set (due_of db t c) \<subseteq> set (due_deliveries db t DUE_LIMIT)"
  by (auto simp: due_of_def)

definition message_to :: "channel_sender \<Rightarrow> time \<Rightarrow> alert_db \<Rightarrow> string \<Rightarrow> message" where
  "message_to send t db c =
     \<lparr> ms_channel = c, ms_alerts = map (alert_of db) (due_of db t c), ms_error = reply_of send db t c \<rparr>"

text \<open>After one channel: the state of the walk that \<open>dispatch_each\<close> makes.\<close>

definition dealt_world :: "string list \<Rightarrow> channel_sender \<Rightarrow> time \<Rightarrow> alert_world \<Rightarrow> string list \<Rightarrow> alert_world \<Rightarrow> bool" where
  "dealt_world enabled send t w0 cs w \<longleftrightarrow>
     ad_deliveries (aw_db w) = map (dealt enabled send t (aw_db w0) (set cs)) (ad_deliveries (aw_db w0)) \<and>
     ad_alerts (aw_db w) = ad_alerts (aw_db w0) \<and> ad_id_floor (aw_db w) = ad_id_floor (aw_db w0) \<and>
     aw_messages w = aw_messages w0 @ map (message_to send t (aw_db w0)) (filter (sends_to enabled t (aw_db w0)) cs)"

lemma dispatch_each_dealt:
  assumes ok: "rows_ok (aw_db w0)"
  shows "dealt_world enabled send t w0 past w \<Longrightarrow> distinct (past @ cs) \<Longrightarrow>
    dispatch_each enabled send t (channel_state (aw_db w0))
      (alerts_by_id (aw_db w0) (map dv_alert_id (due_deliveries (aw_db w0) t DUE_LIMIT)))
      (map (\<lambda>c. (c, due_of (aw_db w0) t c)) cs) w out = (w', r) \<Longrightarrow>
    dealt_world enabled send t w0 (past @ cs) w' \<and> r \<noteq> None"
proof (induction cs arbitrary: past w out)
  case Nil
  then show ?case by auto
next
  case (Cons c cs)
  let ?db = "aw_db w0"
  have ids: "distinct (map dv_id (ad_deliveries ?db))" using ok by (simp add: rows_ok_def)
  have c: "c \<notin> set past" "distinct ((past @ [c]) @ cs)" using Cons.prems(2) by auto
  have rows: "ad_deliveries (aw_db w) = map (dealt enabled send t ?db (set past)) (ad_deliveries ?db)"
    using Cons.prems(1) by (simp add: dealt_world_def)
  have sub: "set (due_of ?db t c) \<subseteq> set (ad_deliveries ?db)" using due_of_rows [of ?db t c] due_rows by fast
  have inj: "inj_on dv_id (set (ad_deliveries ?db))" using ids by (simp add: distinct_map)
  have still: "dealt enabled send t ?db (set past) d = d" if "d \<in> set (due_of ?db t c)" for d
    using that c(1) by (auto simp: due_of_def dealt_def)
  have own: "dv_id d' \<in> dv_id ` set (due_of ?db t c) \<longleftrightarrow> d' \<in> set (due_of ?db t c)"
    if d': "d' \<in> set (ad_deliveries (aw_db w))" for d'
  proof -
    obtain d where d: "d \<in> set (ad_deliveries ?db)" "d' = dealt enabled send t ?db (set past) d"
      using d' by (auto simp: rows)
    have "dv_id d' \<in> dv_id ` set (due_of ?db t c) \<longleftrightarrow> d \<in> set (due_of ?db t c)"
      using inj_on_image_mem_iff [OF inj d(1) sub] d(2) by simp
    also have "\<dots> \<longleftrightarrow> d' \<in> set (due_of ?db t c)"
    proof
      assume "d \<in> set (due_of ?db t c)"
      then show "d' \<in> set (due_of ?db t c)" using still d(2) by simp
    next
      assume a: "d' \<in> set (due_of ?db t c)"
      then have "dv_channel d = c" using d(2) by (auto simp: due_of_def dealt_def split: if_splits)
      then show "d \<in> set (due_of ?db t c)" using a d(2) c(1) by (simp add: dealt_def)
    qed
    finally show ?thesis .
  qed
  have kept: "ad_alerts (aw_db w) = ad_alerts ?db" "ad_id_floor (aw_db w) = ad_id_floor ?db"
    "aw_messages w = aw_messages w0 @ map (message_to send t ?db) (filter (sends_to enabled t ?db) past)"
    using Cons.prems(1) by (simp_all add: dealt_world_def)
  show ?case
  proof (cases "c \<in> set enabled")
    case False
    let ?w = "w\<lparr> aw_db := mark_deliveries (map dv_id (due_of ?db t c)) DS_FAILED 0 None None
      (Some ''channel_disabled'') (aw_db w) \<rparr>"
    have eq: "(if dv_id d \<in> dv_id ` set (due_of ?db t c) then g d else d) = (if d \<in> set (due_of ?db t c) then g d else d)"
      if "d \<in> set (ad_deliveries (aw_db w))" for d g
      using own [OF that] by simp
    have "ad_deliveries (aw_db ?w) = map (dealt enabled send t ?db (insert c (set past))) (ad_deliveries ?db)"
    proof -
      have "ad_deliveries (aw_db ?w) = map (\<lambda>d. if d \<in> set (due_of ?db t c)
          then marked DS_FAILED 0 None None (Some ''channel_disabled'') d else d) (ad_deliveries (aw_db w))"
        by (simp add: mark_deliveries_rows eq)
      also have "\<dots> = map (dealt enabled send t ?db (insert c (set past))) (ad_deliveries ?db)"
        using False by (intro dealt_group [OF rows c(1) _ ids]) (auto simp: delivery_after_def due_of_def)
      finally show ?thesis .
    qed
    then have "dealt_world enabled send t w0 (past @ [c]) ?w"
      using kept False by (simp add: dealt_world_def sends_to_def)
    from Cons.IH [OF this c(2)] Cons.prems(3) False show ?thesis by simp
  next
    case on: True
    show ?thesis
    proof (cases "resting (channel_state ?db c) t")
      case True
      have "map (\<lambda>d. if d \<in> set (due_of ?db t c) then id d else d) (ad_deliveries (aw_db w)) =
          map (dealt enabled send t ?db (insert c (set past))) (ad_deliveries ?db)"
        using on True by (intro dealt_group [OF rows c(1) _ ids]) (auto simp: delivery_after_def due_of_def)
      then have "ad_deliveries (aw_db w) = map (dealt enabled send t ?db (insert c (set past))) (ad_deliveries ?db)"
        by (simp only: id_apply if_cancel list.map_ident)
      then have "dealt_world enabled send t w0 (past @ [c]) w"
        using kept True by (simp add: dealt_world_def sends_to_def)
      from Cons.IH [OF this c(2)] Cons.prems(3) on True show ?thesis by simp
    next
      case False
      let ?res = "send c (map (alert_of ?db) (due_of ?db t c))"
      define w1 where "w1 = snd (send_message send c (map (alert_of ?db) (due_of ?db t c)) w)"
      let ?w = "w1\<lparr> aw_db := record_outcome c (due_of ?db t c) ?res t (strikes_of (channel_state ?db c)) (aw_db w1) \<rparr>"
      have w1: "aw_db w1 = aw_db w" "aw_messages w1 = aw_messages w @ [message_to send t ?db c]"
        by (simp_all add: w1_def send_message_def Let_def message_to_def reply_of_def)
      have "distinct (map dv_id (ad_deliveries (aw_db w)))" using ids by (simp add: rows o_def)
      moreover have "set (due_of ?db t c) \<subseteq> set (ad_deliveries (aw_db w))"
        using sub still by (force simp: rows)
      ultimately have "ad_deliveries (aw_db ?w) =
          map (\<lambda>d. if d \<in> set (due_of ?db t c) then attempted t ?res d else d) (ad_deliveries (aw_db w))"
        using outcome_rows by (simp add: w1)
      also have "\<dots> = map (dealt enabled send t ?db (insert c (set past))) (ad_deliveries ?db)"
        using on False
        by (intro dealt_group [OF rows c(1) _ ids]) (auto simp: delivery_after_def due_of_def reply_of_def)
      finally have "dealt_world enabled send t w0 (past @ [c]) ?w"
        using kept on False w1 by (simp add: dealt_world_def sends_to_def)
      from Cons.IH [OF this c(2)] Cons.prems(3) on False views_found [OF ok due_of_rows] show ?thesis
        by (auto simp: send_message_def Let_def w1_def)
    qed
  qed
qed

lemma insort_key_map_pair:
  "insort_key fst (c, f c) (map (\<lambda>c. (c, f c)) cs) = map (\<lambda>c. (c, f c)) (insort c cs)"
  by (induction cs) simp_all

lemma groups_of_due:
  "sort_key fst (group_by dv_channel (due_deliveries db t DUE_LIMIT)) =
     map (\<lambda>c. (c, due_of db t c)) (sort (nub (map dv_channel (due_deliveries db t DUE_LIMIT))))"
proof -
  have "sort_key fst (map (\<lambda>c. (c, due_of db t c)) cs) = map (\<lambda>c. (c, due_of db t c)) (sort cs)" for cs
    by (induction cs) (simp_all add: insort_key_map_pair)
  then show ?thesis unfolding group_by_items due_of_def .
qed

text \<open>What a run changes, and what it leaves.\<close>

lemma dispatch_world:
  assumes "rows_ok (aw_db w)" "run_dispatch enabled send t w = (w', r)"
  shows "dealt_world enabled send t w (sort (nub (map dv_channel (due_deliveries (aw_db w) t DUE_LIMIT)))) w' \<and> r \<noteq> None"
proof -
  let ?cs = "sort (nub (map dv_channel (due_deliveries (aw_db w) t DUE_LIMIT)))"
  have "map (dealt enabled send t (aw_db w) {}) (ad_deliveries (aw_db w)) = ad_deliveries (aw_db w)"
    by (rule map_idI) (simp add: dealt_def)
  then have "dealt_world enabled send t w [] w" by (simp add: dealt_world_def)
  moreover have "distinct ([] @ ?cs)" by simp
  moreover have "dispatch_each enabled send t (channel_state (aw_db w))
      (alerts_by_id (aw_db w) (map dv_alert_id (due_deliveries (aw_db w) t DUE_LIMIT)))
      (map (\<lambda>c. (c, due_of (aw_db w) t c)) ?cs) w \<lparr> dr_sent = 0, dr_failed = 0, dr_waiting = 0 \<rparr> = (w', r)"
    using assms(2) by (simp only: run_dispatch_def Let_def groups_of_due)
  ultimately have "dealt_world enabled send t w ([] @ ?cs) w' \<and> r \<noteq> None" by (rule dispatch_each_dealt [OF assms(1)])
  then show ?thesis by simp
qed

lemma dealt_all:
  assumes "d \<in> set (ad_deliveries db)"
  shows "dealt enabled send t db (set (sort (nub (map dv_channel (due_deliveries db t DUE_LIMIT))))) d =
    delivery_after enabled send t db d"
  by (auto simp: dealt_def delivery_after_def)

lemma dispatch_rows:
  assumes "rows_ok (aw_db w)" "run_dispatch enabled send t w = (w', r)"
  shows "ad_deliveries (aw_db w') = map (delivery_after enabled send t (aw_db w)) (ad_deliveries (aw_db w))
    \<and> aw_messages w' = aw_messages w @ messages_of enabled send t (aw_db w)
    \<and> ad_alerts (aw_db w') = ad_alerts (aw_db w) \<and> r \<noteq> None"
proof -
  have m: "messages_of enabled send t (aw_db w) = map (message_to send t (aw_db w))
      (filter (sends_to enabled t (aw_db w)) (sort (nub (map dv_channel (due_deliveries (aw_db w) t DUE_LIMIT)))))"
    unfolding messages_of_def message_to_def [abs_def] sends_to_def [abs_def] by (rule refl)
  show ?thesis
    using dispatch_world [OF assms] dealt_all [of _ "aw_db w"] unfolding dealt_world_def m by (auto intro!: map_cong)
qed

text \<open>C8. A run of the dispatcher on a consistent database does not fail and does to each delivery what judging it on its
  own gives: among the first 200 that are due, one of a channel that is off is failed as \<open>channel_disabled\<close>; one of
  a resting channel waits; the others are sent when their channel takes its message, otherwise put off by 1 and then
  5 minutes, and failed on the third attempt. Every other delivery, and every alert, is left as it was, and exactly
  one message leaves per channel that is on, not resting and has a due delivery, with the alerts of all of them.\<close>

theorem dispatch_exact:
  assumes "rows_ok (aw_db w)" "run_dispatch enabled send t w = (w', r)"
  shows "ad_deliveries (aw_db w') = map (delivery_after enabled send t (aw_db w)) (ad_deliveries (aw_db w))
    \<and> aw_messages w' = aw_messages w @ messages_of enabled send t (aw_db w)
    \<and> ad_alerts (aw_db w') = ad_alerts (aw_db w) \<and> r \<noteq> None"
  by (rule dispatch_rows [OF assms])

end
