(* ===== verification/AlertDelivery.thy ===== *)
theory AlertDelivery
  imports AlertDispatch
begin

text \<open>
  The life of an alert's deliveries over any history of storing alerts, dispatching, retention and moves: a step
  relation over \<open>store/alerts.py\<close> and \<open>services/alerts/dispatch.py\<close>, and the invariants of what it reaches. The
  history of the messages that left is part of the state.
\<close>

section \<open>Steps\<close>

text \<open>The other operations of the store (rule states, watermarks, notes, statuses) leave alerts and deliveries.\<close>

definition same_alerts :: "alert_db \<Rightarrow> alert_db \<Rightarrow> bool" where
  "same_alerts db db' \<longleftrightarrow> ad_alerts db' = ad_alerts db \<and> ad_deliveries db' = ad_deliveries db \<and> ad_id_floor db' = ad_id_floor db"

inductive alert_step :: "alert_world \<Rightarrow> alert_world \<Rightarrow> bool" where
  stored: "distinct channels \<Longrightarrow> hold \<in> {None, Some DS_GROUPED, Some DS_NOT_NOTIFIED} \<Longrightarrow>
    alert_step w (w\<lparr> aw_db := insert_alert url org name pack trigger t channels hold (aw_db w) \<rparr>)"
| dispatched: "run_dispatch enabled send t w = (w', r) \<Longrightarrow> alert_step w w'"
| expired: "alert_step w (w\<lparr> aw_db := fst (delete_alerts_before cutoff (aw_db w)) \<rparr>)"
| moved: "alert_step w (w\<lparr> aw_db := fst (alerts_move_pce old new org (aw_db w)) \<rparr>)"
| other: "same_alerts (aw_db w) db' \<Longrightarrow> alert_step w (w\<lparr> aw_db := db' \<rparr>)"

inductive_cases alert_stepE: "alert_step w w'"

inductive alert_reachable :: "alert_world \<Rightarrow> bool" where
  start: "alert_reachable \<lparr> aw_db = empty_alert_db, aw_messages = [] \<rparr>"
| step: "alert_reachable w \<Longrightarrow> alert_step w w' \<Longrightarrow> alert_reachable w'"

lemma same_alerts_ops:
  "same_alerts db (save_rule_state r s st x db)" "same_alerts db (reset_rule_state r db)"
  "same_alerts db (set_seen_severity r s v db)" "same_alerts db (set_rule_status r status t db)"
  "same_alerts db (set_eval_watermark src m u g db)" "same_alerts db (clear_eval_state db)"
  by (simp_all add: same_alerts_def save_rule_state_def Let_def reset_rule_state_def set_seen_severity_def
      set_rule_status_def set_eval_watermark_def clear_eval_state_def)

section \<open>The invariant\<close>

definition tries :: "message list \<Rightarrow> int \<Rightarrow> string \<Rightarrow> message list" where
  "tries msgs i c = filter (\<lambda>m. ms_channel m = c \<and> i \<in> al_id ` set (ms_alerts m)) msgs"

text \<open>At most three messages, and none after one that was taken.\<close>

definition tries_ok :: "message list \<Rightarrow> bool" where
  "tries_ok ms \<longleftrightarrow> length ms \<le> 3 \<and> (\<forall>m \<in> set (butlast ms). ms_error m \<noteq> None)"

text \<open>The fields of a delivery fit each other, and it says what the messages were.\<close>

definition delivery_ok :: "delivery \<Rightarrow> bool" where
  "delivery_ok d \<longleftrightarrow> 0 \<le> dv_attempts d \<and> dv_attempts d \<le> ATTEMPTS \<and>
     (dv_status d = DS_PENDING \<longleftrightarrow> dv_next_attempt_at d \<noteq> None) \<and> (dv_status d = DS_SENT \<longleftrightarrow> dv_sent_at d \<noteq> None) \<and>
     (dv_status d = DS_PENDING \<longrightarrow> dv_attempts d < ATTEMPTS) \<and>
     (dv_status d \<in> {DS_NOT_NOTIFIED, DS_GROUPED, DS_NO_CHANNEL} \<longrightarrow> dv_attempts d = 0)"

definition says :: "delivery \<Rightarrow> message list \<Rightarrow> bool" where
  "says d ms \<longleftrightarrow> int (length ms) = dv_attempts d \<and>
     (if dv_status d = DS_SENT then ms \<noteq> [] \<and> ms_error (last ms) = None else \<forall>m \<in> set ms. ms_error m \<noteq> None)"

definition top_alert :: "alert_db \<Rightarrow> int" where
  "top_alert db = max (top_id al_id (ad_alerts db)) (ad_id_floor db)"

definition delivery_key :: "delivery \<Rightarrow> int \<times> string" where
  "delivery_key d = (dv_alert_id d, dv_channel d)"

definition history_ok :: "alert_world \<Rightarrow> bool" where
  "history_ok w \<longleftrightarrow> rows_ok (aw_db w) \<and> 0 \<le> ad_id_floor (aw_db w) \<and> distinct (map delivery_key (ad_deliveries (aw_db w))) \<and>
     (\<forall>a \<in> set (ad_alerts (aw_db w)). \<exists>d \<in> set (ad_deliveries (aw_db w)). dv_alert_id d = al_id a) \<and>
     (\<forall>m \<in> set (aw_messages w). \<forall>a \<in> set (ms_alerts m). al_id a \<le> top_alert (aw_db w)) \<and>
     (\<forall>i c. tries_ok (tries (aw_messages w) i c)) \<and>
     (\<forall>d \<in> set (ad_deliveries (aw_db w)). delivery_ok d \<and> says d (tries (aw_messages w) (dv_alert_id d) (dv_channel d)))"

lemma top_id_ge: "x \<in> set xs \<Longrightarrow> f x \<le> top_id f xs"
  by (cases xs) (auto simp: top_id_def)

lemma top_id_le: "(\<And>x. x \<in> set xs \<Longrightarrow> f x \<le> n) \<Longrightarrow> 0 \<le> n \<Longrightarrow> top_id f xs \<le> n"
  by (cases xs) (auto simp: top_id_def)

lemma top_alert_ge: "a \<in> set (ad_alerts db) \<Longrightarrow> al_id a \<le> top_alert db"
  using top_id_ge [of a "ad_alerts db" al_id] by (simp add: top_alert_def)

lemma next_alert_id_top: "next_alert_id db = top_alert db + 1"
  by (simp add: next_alert_id_def top_alert_def)

section \<open>Storing an alert\<close>

lemma insert_alerts:
  "ad_alerts (insert_alert url org name pack tr t channels hold db) =
     ad_alerts db @ [\<lparr> al_id = next_alert_id db, al_pce_url = url, al_org_id = org, al_rule_name = name,
                        al_pack_key = pack, al_trigger = tr, al_fired_at = t, al_notify = (hold = None) \<rparr>]"
  "ad_id_floor (insert_alert url org name pack tr t channels hold db) = ad_id_floor db"
  by (simp_all add: insert_alert_def Let_def)

definition new_rows :: "time \<Rightarrow> string list \<Rightarrow> delivery_status option \<Rightarrow> alert_db \<Rightarrow> delivery list" where
  "new_rows t channels hold db = map2 (new_delivery (next_alert_id db) t) (delivery_rows channels hold)
     (map (\<lambda>i. top_id dv_id (ad_deliveries db) + 1 + int i) [0 ..< length (delivery_rows channels hold)])"

lemma insert_deliveries:
  "ad_deliveries (insert_alert url org name pack tr t channels hold db) = ad_deliveries db @ new_rows t channels hold db"
  by (simp add: insert_alert_def Let_def new_rows_def)

lemma new_rows_ids:
  "map dv_id (new_rows t channels hold db) =
     map (\<lambda>i. top_id dv_id (ad_deliveries db) + 1 + int i) [0 ..< length (delivery_rows channels hold)]"
  "map dv_channel (new_rows t channels hold db) = map fst (delivery_rows channels hold)"
  by (rule nth_equalityI; simp add: new_rows_def new_delivery_def)+

lemma new_rows_one:
  "d \<in> set (new_rows t channels hold db) \<Longrightarrow> dv_alert_id d = next_alert_id db \<and> dv_attempts d = 0 \<and> dv_sent_at d = None \<and>
     top_id dv_id (ad_deliveries db) < dv_id d \<and>
     (dv_channel d, dv_status d) \<in> set (delivery_rows channels hold) \<and>
     dv_next_attempt_at d = (if dv_status d = DS_PENDING then Some t else None)"
proof -
  let ?ids = "map (\<lambda>i. top_id dv_id (ad_deliveries db) + 1 + int i) [0 ..< length (delivery_rows channels hold)]"
  assume "d \<in> set (new_rows t channels hold db)"
  then obtain cs i where p: "(cs, i) \<in> set (zip (delivery_rows channels hold) ?ids)"
    and d: "d = new_delivery (next_alert_id db) t cs i"
    by (auto simp: new_rows_def)
  have "cs \<in> set (delivery_rows channels hold)" "i \<in> set ?ids"
    using p by (blast dest: set_zip_leftD set_zip_rightD)+
  then show ?thesis by (auto simp: d new_delivery_def)
qed

lemma delivery_rows_nonempty [simp]: "delivery_rows channels hold \<noteq> []"
  by (simp add: delivery_rows_def split: option.split)

lemma delivery_rows_distinct: "distinct channels \<Longrightarrow> distinct (map fst (delivery_rows channels hold))"
  by (simp add: delivery_rows_def o_def split: option.split)

lemma delivery_rows_status:
  "(c, s) \<in> set (delivery_rows channels hold) \<Longrightarrow> hold \<in> {None, Some DS_GROUPED, Some DS_NOT_NOTIFIED} \<Longrightarrow>
     s \<in> {DS_PENDING, DS_NO_CHANNEL, DS_GROUPED, DS_NOT_NOTIFIED}"
  by (auto simp: delivery_rows_def split: option.splits if_splits)

text \<open>An id above every one there was has no message yet.\<close>

lemma fresh_untried:
  assumes "history_ok w" "top_alert (aw_db w) < i"
  shows "tries (aw_messages w) i c = []"
  using assms by (force simp: history_ok_def tries_def filter_empty_conv)

lemma old_delivery_ids:
  assumes "rows_ok db" "d \<in> set (ad_deliveries db)"
  shows "dv_id d \<le> top_id dv_id (ad_deliveries db)" "dv_alert_id d \<le> top_alert db"
proof -
  show "dv_id d \<le> top_id dv_id (ad_deliveries db)" using assms(2) by (rule top_id_ge)
  show "dv_alert_id d \<le> top_alert db" using assms top_alert_ge by (force simp: rows_ok_def)
qed

lemma stored_top:
  assumes "0 \<le> ad_id_floor db"
  shows "top_alert (insert_alert url org name pack tr t channels hold db) = top_alert db + 1"
proof -
  let ?db = "insert_alert url org name pack tr t channels hold db"
  have "top_id al_id (ad_alerts ?db) \<le> top_alert db + 1"
  proof (rule top_id_le)
    fix a assume "a \<in> set (ad_alerts ?db)"
    then show "al_id a \<le> top_alert db + 1"
      using top_alert_ge [of a db] by (auto simp: insert_alerts next_alert_id_top)
  next
    show "0 \<le> top_alert db + 1" using assms by (simp add: top_alert_def)
  qed
  then have "top_alert ?db \<le> top_alert db + 1" by (simp add: top_alert_def insert_alerts)
  moreover have "next_alert_id db \<le> top_alert ?db"
    using top_alert_ge [of _ ?db] by (fastforce simp: insert_alerts)
  ultimately show ?thesis by (simp add: next_alert_id_top)
qed

lemma stored_ok:
  assumes ok: "history_ok w" and ch: "distinct channels" and hold: "hold \<in> {None, Some DS_GROUPED, Some DS_NOT_NOTIFIED}"
  shows "history_ok (w\<lparr> aw_db := insert_alert url org name pack tr t channels hold (aw_db w) \<rparr>)"
proof -
  let ?db = "aw_db w"
  let ?db' = "insert_alert url org name pack tr t channels hold ?db"
  let ?new = "new_rows t channels hold ?db"
  have rows: "rows_ok ?db" using ok by (simp add: history_ok_def)
  have top: "top_alert ?db' = top_alert ?db + 1" using stored_top ok by (simp add: history_ok_def)
  have new: "dv_alert_id d = top_alert ?db + 1" "top_id dv_id (ad_deliveries ?db) < dv_id d" if "d \<in> set ?new" for d
    using new_rows_one [OF that] next_alert_id_top by auto
  have ids: "distinct (map dv_id (ad_deliveries ?db @ ?new))"
    using rows old_delivery_ids(1) [OF rows] new(2)
    by (fastforce simp: rows_ok_def new_rows_ids distinct_map inj_on_def)
  have keys: "distinct (map delivery_key (ad_deliveries ?db @ ?new))"
  proof -
    have "distinct (map dv_channel ?new)" using delivery_rows_distinct [OF ch] by (simp add: new_rows_ids)
    then have "distinct (map delivery_key ?new)" by (auto simp: delivery_key_def distinct_map inj_on_def)
    moreover have "delivery_key d \<noteq> delivery_key e" if "d \<in> set (ad_deliveries ?db)" "e \<in> set ?new" for d e
      using old_delivery_ids(2) [OF rows that(1)] new(1) [OF that(2)] by (simp add: delivery_key_def)
    ultimately show ?thesis using ok by (fastforce simp: history_ok_def)
  qed
  have rows': "rows_ok ?db'"
    unfolding rows_ok_def insert_alerts insert_deliveries
  proof (intro conjI ballI)
    show "distinct (map al_id (ad_alerts ?db @ [\<lparr> al_id = next_alert_id ?db, al_pce_url = url, al_org_id = org,
        al_rule_name = name, al_pack_key = pack, al_trigger = tr, al_fired_at = t, al_notify = (hold = None) \<rparr>]))"
      using rows top_alert_ge [of _ ?db] by (fastforce simp: rows_ok_def next_alert_id_top)
    show "distinct (map dv_id (ad_deliveries ?db @ ?new))" by (rule ids)
    fix d assume "d \<in> set (ad_deliveries ?db @ ?new)"
    then show "dv_alert_id d \<in> al_id ` set (ad_alerts ?db @ [\<lparr> al_id = next_alert_id ?db, al_pce_url = url,
        al_org_id = org, al_rule_name = name, al_pack_key = pack, al_trigger = tr, al_fired_at = t,
        al_notify = (hold = None) \<rparr>])"
      using rows new(1) by (auto simp: rows_ok_def next_alert_id_top)
  qed
  have has: "\<exists>d \<in> set (ad_deliveries ?db @ ?new). dv_alert_id d = al_id a" if "a \<in> set (ad_alerts ?db')" for a
  proof (cases "a \<in> set (ad_alerts ?db)")
    case True
    then show ?thesis using ok by (auto simp: history_ok_def)
  next
    case False
    then have a: "al_id a = top_alert ?db + 1" using that by (auto simp: insert_alerts next_alert_id_top)
    have "length ?new = length (delivery_rows channels hold)" using new_rows_ids(1) by (metis length_map length_upt diff_zero)
    then have "?new \<noteq> []" by (metis delivery_rows_nonempty length_0_conv)
    then obtain d where "d \<in> set ?new" by (meson last_in_set)
    then show ?thesis using new(1) a by auto
  qed
  have ds: "delivery_ok d \<and> says d (tries (aw_messages w) (dv_alert_id d) (dv_channel d))"
    if "d \<in> set (ad_deliveries ?db @ ?new)" for d
  proof (cases "d \<in> set (ad_deliveries ?db)")
    case True
    then show ?thesis using ok by (simp add: history_ok_def)
  next
    case False
    then have d: "d \<in> set ?new" using that by simp
    have "tries (aw_messages w) (dv_alert_id d) (dv_channel d) = []"
      by (rule fresh_untried [OF ok]) (simp add: new(1) [OF d])
    then show ?thesis
      using new_rows_one [OF d] delivery_rows_status [OF _ hold] by (fastforce simp: delivery_ok_def says_def ATTEMPTS_def)
  qed
  have msgs: "\<forall>m \<in> set (aw_messages w). \<forall>a \<in> set (ms_alerts m). al_id a \<le> top_alert ?db'"
    using ok unfolding top history_ok_def by fastforce
  show ?thesis
    using ok rows' keys has ds msgs by (simp add: history_ok_def insert_deliveries insert_alerts(2))
qed

section \<open>Dispatching\<close>

lemma filter_one: "distinct xs \<Longrightarrow> filter (\<lambda>x. x = c \<and> P x) xs = (if c \<in> set xs \<and> P c then [c] else [])"
  by (induction xs) auto

lemma tries_append [simp]: "tries (ms @ ms') i c = tries ms i c @ tries ms' i c"
  by (simp add: tries_def)

lemma tries_dispatch:
  assumes "rows_ok db"
  shows "tries (messages_of enabled send t db) i c =
    (if sends_to enabled t db c \<and> i \<in> dv_alert_id ` set (due_of db t c) then [message_to send t db c] else [])"
proof -
  let ?cs = "sort (nub (map dv_channel (due_deliveries db t DUE_LIMIT)))"
  have m: "messages_of enabled send t db = map (message_to send t db) (filter (sends_to enabled t db) ?cs)"
    unfolding messages_of_def message_to_def [abs_def] sends_to_def [abs_def] by (rule refl)
  have ids: "al_id ` set (ms_alerts (message_to send t db c')) = dv_alert_id ` set (due_of db t c')" for c'
  proof -
    have "al_id (alert_of db d) = dv_alert_id d" if "d \<in> set (due_of db t c')" for d
      using that due_of_rows [of db t c'] due_rows [of d db t DUE_LIMIT] alert_of_row [OF assms] by blast
    then show ?thesis by (force simp: message_to_def image_iff)
  qed
  have "tries (messages_of enabled send t db) i c = map (message_to send t db)
      (filter (\<lambda>c'. c' = c \<and> i \<in> dv_alert_id ` set (due_of db t c')) (filter (sends_to enabled t db) ?cs))"
    unfolding m tries_def filter_map o_def ids by (simp add: message_to_def)
  also have "\<dots> = (if sends_to enabled t db c \<and> c \<in> set ?cs \<and> i \<in> dv_alert_id ` set (due_of db t c)
      then [message_to send t db c] else [])"
    by (subst filter_one) auto
  finally show ?thesis by (auto simp: due_of_def)
qed

lemma key_unique:
  assumes "distinct (map delivery_key rows)" "d \<in> set rows" "e \<in> set rows" "dv_alert_id d = dv_alert_id e"
    "dv_channel d = dv_channel e"
  shows "d = e"
  using assms by (auto simp: distinct_map inj_on_def delivery_key_def)

lemma pending_tries: "delivery_ok d \<Longrightarrow> says d ms \<Longrightarrow> dv_status d = DS_PENDING \<Longrightarrow>
    length ms < 3 \<and> (\<forall>m \<in> set ms. ms_error m \<noteq> None)"
  by (auto simp: delivery_ok_def says_def ATTEMPTS_def)

lemma attempted_ok:
  assumes "delivery_ok d" "says d ms" "dv_status d = DS_PENDING" "ms_error m = r"
  shows "delivery_ok (attempted t r d) \<and> says (attempted t r d) (ms @ [m])"
  using assms
  by (cases r) (auto simp: attempted_def delivery_ok_def says_def marked_def ATTEMPTS_def split: option.splits)

lemma disabled_ok:
  assumes "delivery_ok d" "says d ms" "dv_status d = DS_PENDING"
  shows "delivery_ok (marked DS_FAILED 0 None None e d) \<and> says (marked DS_FAILED 0 None None e d) ms"
  using assms by (auto simp: delivery_ok_def says_def marked_def ATTEMPTS_def split: option.splits)

lemma tries_ok_snoc: "length ms < 3 \<Longrightarrow> \<forall>m \<in> set ms. ms_error m \<noteq> None \<Longrightarrow> tries_ok (ms @ [m])"
  by (auto simp: tries_ok_def)

lemma due_of_mem:
  "d \<in> set (due_of db t c) \<longleftrightarrow> d \<in> set (due_deliveries db t DUE_LIMIT) \<and> dv_channel d = c"
  by (auto simp: due_of_def)

lemma dispatched_delivery:
  assumes ok: "history_ok w" and d: "d \<in> set (ad_deliveries (aw_db w))"
  shows "delivery_ok (delivery_after enabled send t (aw_db w) d) \<and>
    says (delivery_after enabled send t (aw_db w) d)
      (tries (aw_messages w @ messages_of enabled send t (aw_db w)) (dv_alert_id d) (dv_channel d))"
proof -
  let ?db = "aw_db w" and ?i = "dv_alert_id d" and ?c = "dv_channel d"
  let ?ms = "tries (aw_messages w) ?i ?c"
  have rows: "rows_ok ?db" and keys: "distinct (map delivery_key (ad_deliveries ?db))"
    and dok: "delivery_ok d" "says d ?ms"
    using ok d by (simp_all add: history_ok_def)
  have mine: "?i \<in> dv_alert_id ` set (due_of ?db t ?c) \<longleftrightarrow> d \<in> set (due_deliveries ?db t DUE_LIMIT)"
    using key_unique [OF keys d] due_rows [of _ ?db t DUE_LIMIT] by (force simp: due_of_mem image_iff)
  show ?thesis
  proof (cases "d \<in> set (due_deliveries ?db t DUE_LIMIT)")
    case False
    then show ?thesis using dok mine by (simp add: delivery_after_def tries_dispatch [OF rows])
  next
    case due: True
    then have p: "dv_status d = DS_PENDING" using due_rows [of d] by (simp add: is_due_def)
    show ?thesis
    proof (cases "sends_to enabled t ?db ?c")
      case True
      then have "delivery_after enabled send t ?db d = attempted t (reply_of send ?db t ?c) d"
        using due by (simp add: delivery_after_def sends_to_def)
      moreover have "ms_error (message_to send t ?db ?c) = reply_of send ?db t ?c" by (simp add: message_to_def)
      ultimately show ?thesis using attempted_ok [OF dok p] True due mine by (simp add: tries_dispatch [OF rows])
    next
      case False
      then have "delivery_after enabled send t ?db d = d \<or>
          delivery_after enabled send t ?db d = marked DS_FAILED 0 None None (Some ''channel_disabled'') d"
        using due by (simp add: delivery_after_def sends_to_def)
      then show ?thesis using disabled_ok [OF dok p] dok False by (auto simp: tries_dispatch [OF rows])
    qed
  qed
qed

lemma dispatched_ok:
  assumes ok: "history_ok w" and run: "run_dispatch enabled send t w = (w', r)"
  shows "history_ok w'"
proof -
  let ?db = "aw_db w"
  have rows: "rows_ok ?db" and keys: "distinct (map delivery_key (ad_deliveries ?db))" using ok by (simp_all add: history_ok_def)
  have after: "ad_deliveries (aw_db w') = map (delivery_after enabled send t ?db) (ad_deliveries ?db)"
    "aw_messages w' = aw_messages w @ messages_of enabled send t ?db" "ad_alerts (aw_db w') = ad_alerts ?db"
    "ad_id_floor (aw_db w') = ad_id_floor ?db"
    using dispatch_rows [OF rows run] dispatch_world [OF rows run] by (simp_all add: dealt_world_def)
  have top: "top_alert (aw_db w') = top_alert ?db" by (simp add: top_alert_def after)
  have "delivery_key (delivery_after enabled send t ?db d) = delivery_key d" for d by (simp add: delivery_key_def)
  then have keys': "distinct (map delivery_key (ad_deliveries (aw_db w')))" using keys by (simp add: after o_def)
  have rows': "rows_ok (aw_db w')" using rows by (simp add: rows_ok_def after o_def)
  have t: "tries_ok (tries (aw_messages w') i c)" for i c
  proof (cases "sends_to enabled t ?db c \<and> i \<in> dv_alert_id ` set (due_of ?db t c)")
    case True
    then obtain d where d: "d \<in> set (due_of ?db t c)" "dv_alert_id d = i" by auto
    then have "d \<in> set (ad_deliveries ?db)" "dv_status d = DS_PENDING" "dv_channel d = c"
      using due_rows [of d ?db t DUE_LIMIT] by (auto simp: due_of_mem is_due_def)
    then have "length (tries (aw_messages w) i c) < 3 \<and> (\<forall>m \<in> set (tries (aw_messages w) i c). ms_error m \<noteq> None)"
      using ok d(2) pending_tries by (auto simp: history_ok_def)
    then show ?thesis using True by (simp add: after tries_dispatch [OF rows] tries_ok_snoc)
  next
    case False
    then show ?thesis using ok by (auto simp: after tries_dispatch [OF rows] history_ok_def)
  qed
  have msgs: "al_id a \<le> top_alert ?db" if mw: "m \<in> set (aw_messages w')" and am: "a \<in> set (ms_alerts m)" for m a
  proof (cases "m \<in> set (aw_messages w)")
    case True
    then show ?thesis using ok am by (auto simp: history_ok_def)
  next
    case False
    then have mm: "m \<in> set (messages_of enabled send t ?db)" using mw by (simp add: after)
    have "\<exists>c. ms_alerts m = map (alert_of ?db) (due_of ?db t c)"
      using mm unfolding messages_of_def set_map by (elim imageE) auto
    then obtain c where "ms_alerts m = map (alert_of ?db) (due_of ?db t c)" by blast
    then obtain d where "d \<in> set (due_of ?db t c)" "a = alert_of ?db d" using am by auto
    then have "a \<in> set (ad_alerts ?db)"
      using due_rows [of d ?db t DUE_LIMIT] alert_of_row [OF rows] by (auto simp: due_of_mem)
    then show ?thesis by (rule top_alert_ge)
  qed
  have ds: "delivery_ok d' \<and> says d' (tries (aw_messages w') (dv_alert_id d') (dv_channel d'))"
    if d': "d' \<in> set (ad_deliveries (aw_db w'))" for d'
  proof -
    obtain d where d: "d \<in> set (ad_deliveries ?db)" "d' = delivery_after enabled send t ?db d" using d' by (auto simp: after)
    show ?thesis using dispatched_delivery [OF ok d(1)] by (simp add: d(2) after(2))
  qed
  have has: "\<exists>d \<in> set (ad_deliveries (aw_db w')). dv_alert_id d = al_id a" if "a \<in> set (ad_alerts (aw_db w'))" for a
    using ok that by (force simp: history_ok_def after)
  show ?thesis
    using rows' keys' t msgs ds has ok by (simp add: history_ok_def top after(4))
qed

section \<open>Retention, moves and the rest\<close>

lemma floor_fold: "fold (\<lambda>a f. max f (al_id a)) gone f \<ge> f \<and> (\<forall>a \<in> set gone. al_id a \<le> fold (\<lambda>a f. max f (al_id a)) gone f)"
proof (induction gone arbitrary: f)
  case Nil
  then show ?case by simp
next
  case (Cons b gone)
  show ?case using Cons [of "max f (al_id b)"] by auto
qed

lemma floor_fold_le: "f \<le> n \<Longrightarrow> \<forall>a \<in> set gone. al_id a \<le> n \<Longrightarrow> fold (\<lambda>a f. max f (al_id a)) gone f \<le> n"
  by (induction gone arbitrary: f) auto

text \<open>Deleting does not lower the highest id there ever was.\<close>

lemma expired_top:
  assumes "0 \<le> ad_id_floor db"
  shows "top_alert (fst (delete_alerts_before cutoff db)) = top_alert db"
proof (rule antisym)
  let ?gone = "filter (\<lambda>a. al_fired_at a < cutoff) (ad_alerts db)"
  let ?floor = "fold (\<lambda>a f. max f (al_id a)) ?gone (ad_id_floor db)"
  let ?kept = "filter (\<lambda>a. \<not> al_fired_at a < cutoff) (ad_alerts db)"
  have eq: "top_alert (fst (delete_alerts_before cutoff db)) = max (top_id al_id ?kept) ?floor"
    by (simp add: top_alert_def delete_alerts_before_def Let_def)
  have f: "ad_id_floor db \<le> ?floor" "\<And>a. a \<in> set ?gone \<Longrightarrow> al_id a \<le> ?floor" using floor_fold [of "ad_id_floor db" ?gone] by auto
  have pos: "0 \<le> top_alert db" using assms by (simp add: top_alert_def)
  have "top_id al_id ?kept \<le> top_alert db" using top_alert_ge [of _ db] pos by (intro top_id_le) auto
  moreover have "?floor \<le> top_alert db" using top_alert_ge [of _ db] by (intro floor_fold_le) (auto simp: top_alert_def)
  ultimately show "top_alert (fst (delete_alerts_before cutoff db)) \<le> top_alert db" by (simp add: eq)
  have "al_id a \<le> max (top_id al_id ?kept) ?floor" if "a \<in> set (ad_alerts db)" for a
  proof (cases "al_fired_at a < cutoff")
    case True
    then have "a \<in> set ?gone" using that by simp
    from f(2) [OF this] show ?thesis by linarith
  next
    case False
    then have "a \<in> set ?kept" using that by simp
    from top_id_ge [OF this, of al_id] show ?thesis by linarith
  qed
  moreover have "0 \<le> max (top_id al_id ?kept) ?floor" using assms f(1) by linarith
  ultimately have "top_id al_id (ad_alerts db) \<le> max (top_id al_id ?kept) ?floor" by (intro top_id_le) auto
  then show "top_alert db \<le> top_alert (fst (delete_alerts_before cutoff db))"
    using f(1) unfolding eq unfolding top_alert_def by linarith
qed

lemma expired_ok:
  assumes ok: "history_ok w"
  shows "history_ok (w\<lparr> aw_db := fst (delete_alerts_before cutoff (aw_db w)) \<rparr>)"
proof -
  let ?db = "aw_db w" and ?db' = "fst (delete_alerts_before cutoff (aw_db w))"
  let ?gone = "al_id ` set (filter (\<lambda>a. al_fired_at a < cutoff) (ad_alerts ?db))"
  have alerts: "ad_alerts ?db' = filter (\<lambda>a. \<not> al_fired_at a < cutoff) (ad_alerts ?db)"
    and dels: "ad_deliveries ?db' = filter (\<lambda>d. dv_alert_id d \<notin> ?gone) (ad_deliveries ?db)"
    by (simp_all add: delete_alerts_before_def Let_def)
  have floor: "0 \<le> ad_id_floor ?db" using ok by (simp add: history_ok_def)
  have top: "top_alert ?db' = top_alert ?db" by (rule expired_top [OF floor])
  have floor': "0 \<le> ad_id_floor ?db'"
    using floor floor_fold [of "ad_id_floor ?db"] by (fastforce simp: delete_alerts_before_def Let_def intro: order_trans)
  have ids: "distinct (map al_id (ad_alerts ?db))" using ok by (simp add: history_ok_def rows_ok_def)
  have gone: "al_id a \<in> ?gone \<longleftrightarrow> al_fired_at a < cutoff" if "a \<in> set (ad_alerts ?db)" for a
    using ids that by (auto simp: distinct_map inj_on_def)
  have left: "dv_alert_id d \<in> al_id ` set (ad_alerts ?db')" if d: "d \<in> set (ad_deliveries ?db')" for d
  proof -
    have "dv_alert_id d \<in> al_id ` set (ad_alerts ?db)" "dv_alert_id d \<notin> ?gone"
      using d ok by (auto simp: dels history_ok_def rows_ok_def)
    then show ?thesis by (auto simp: alerts)
  qed
  have "rows_ok ?db'"
    using ok left by (simp add: history_ok_def rows_ok_def alerts dels distinct_map_filter)
  moreover have "\<exists>d \<in> set (ad_deliveries ?db'). dv_alert_id d = al_id a" if "a \<in> set (ad_alerts ?db')" for a
  proof -
    have a: "a \<in> set (ad_alerts ?db)" "\<not> al_fired_at a < cutoff" using that by (simp_all add: alerts)
    then obtain d where "d \<in> set (ad_deliveries ?db)" "dv_alert_id d = al_id a" using ok by (auto simp: history_ok_def)
    then have "d \<in> set (ad_deliveries ?db')" "dv_alert_id d = al_id a" using gone [OF a(1)] a(2) by (simp_all add: dels)
    then show ?thesis by blast
  qed
  ultimately show ?thesis using ok floor' by (simp add: history_ok_def top dels distinct_map_filter)
qed

lemma kept_ok:
  assumes ok: "history_ok w" and same: "map al_id (ad_alerts db') = map al_id (ad_alerts (aw_db w))"
    "ad_deliveries db' = ad_deliveries (aw_db w)" "ad_id_floor db' = ad_id_floor (aw_db w)"
  shows "history_ok (w\<lparr> aw_db := db' \<rparr>)"
proof -
  have img: "al_id ` set (ad_alerts db') = al_id ` set (ad_alerts (aw_db w))" using same(1) by (metis set_map)
  have "top_id al_id xs = top_id al_id ys" if "map al_id xs = map al_id ys" for xs ys :: "alert list"
    using that by (cases xs; cases ys) (auto simp: top_id_def simp flip: set_map)
  then have "top_id al_id (ad_alerts db') = top_id al_id (ad_alerts (aw_db w))" using same(1) by blast
  then have top: "top_alert db' = top_alert (aw_db w)" by (simp add: top_alert_def same(3))
  have has: "\<exists>d \<in> set (ad_deliveries (aw_db w)). dv_alert_id d = al_id a" if a: "a \<in> set (ad_alerts db')" for a
  proof -
    have "al_id a \<in> al_id ` set (ad_alerts (aw_db w))" unfolding img [symmetric] using a by (rule imageI)
    then obtain b where "b \<in> set (ad_alerts (aw_db w))" "al_id b = al_id a" by auto
    moreover have "\<forall>a \<in> set (ad_alerts (aw_db w)). \<exists>d \<in> set (ad_deliveries (aw_db w)). dv_alert_id d = al_id a"
      using ok by (simp add: history_ok_def)
    ultimately show ?thesis by metis
  qed
  have "rows_ok db'" using ok by (simp add: history_ok_def rows_ok_def same img)
  then show ?thesis using ok has by (simp add: history_ok_def same top)
qed

lemma step_ok: "alert_step w w' \<Longrightarrow> history_ok w \<Longrightarrow> history_ok w'"
proof (induction rule: alert_step.induct)
  case (stored channels hold w url org name pack trigger t)
  show ?case by (rule stored_ok [OF stored.prems stored.hyps])
next
  case (dispatched enabled send t w w' r)
  show ?case by (rule dispatched_ok [OF dispatched.prems dispatched.hyps])
next
  case (expired w cutoff)
  then show ?case by (rule expired_ok)
next
  case (moved w old new org)
  show ?case
    by (rule kept_ok [OF moved.prems]) (simp_all add: alerts_move_pce_def Let_def update_rows_def)
next
  case (other w db')
  then show ?case by (intro kept_ok) (simp_all add: same_alerts_def)
qed

lemma reachable_ok: "alert_reachable w \<Longrightarrow> history_ok w"
proof (induction rule: alert_reachable.induct)
  case start
  show ?case
    by (simp add: history_ok_def rows_ok_def empty_alert_db_def tries_def tries_ok_def)
next
  case (step w w')
  then show ?case by (blast intro: step_ok)
qed

text \<open>C7. Over any history of storing alerts, dispatching with any replies, retention, moves and the other operations, an
  alert goes out on a channel in at most three messages, and in none after one that the channel took: no alert is
  sent twice, also after its deletion, as an id is never given again.\<close>

theorem alert_sent_once:
  assumes "alert_reachable w"
  shows "length (tries (aw_messages w) i c) \<le> 3 \<and> (\<forall>m \<in> set (butlast (tries (aw_messages w) i c)). ms_error m \<noteq> None)"
  using reachable_ok [OF assms] by (simp add: history_ok_def tries_ok_def)

text \<open>C9. In every reachable state each alert has a delivery row, every delivery has its alert, there is one delivery
  per alert and channel, and its fields fit each other: a pending one has a next attempt and fewer than three behind
  it, a sent one says when, all others are final, and the attempts of each are the messages that left for it.\<close>

theorem deliveries_consistent:
  assumes "alert_reachable w"
  shows "(\<forall>a \<in> set (ad_alerts (aw_db w)). \<exists>d \<in> set (ad_deliveries (aw_db w)). dv_alert_id d = al_id a)
    \<and> rows_ok (aw_db w) \<and> distinct (map delivery_key (ad_deliveries (aw_db w)))
    \<and> (\<forall>d \<in> set (ad_deliveries (aw_db w)). delivery_ok d
         \<and> dv_attempts d = int (length (tries (aw_messages w) (dv_alert_id d) (dv_channel d))))"
  using reachable_ok [OF assms] by (simp add: history_ok_def says_def)

section \<open>A backlog is worked off\<close>

text \<open>A channel that takes everything never comes to rest, and each run sends up to \<open>DUE_LIMIT\<close> deliveries.\<close>

definition due_rows_of :: "alert_db \<Rightarrow> time \<Rightarrow> delivery list" where
  "due_rows_of db t = filter (is_due t) (ad_deliveries db)"

definition no_rest :: "alert_db \<Rightarrow> time \<Rightarrow> bool" where
  "no_rest db t \<longleftrightarrow> (\<forall>c. \<not> resting (channel_state db c) t)"

fun run_times :: "nat \<Rightarrow> string list \<Rightarrow> channel_sender \<Rightarrow> time \<Rightarrow> alert_world \<Rightarrow> alert_world" where
  "run_times 0 enabled send t w = w"
| "run_times (Suc n) enabled send t w = run_times n enabled send t (fst (run_dispatch enabled send t w))"

lemma no_rest_mark: "no_rest (mark_deliveries ids st n nx se e db) t = no_rest db t"
  by (simp add: no_rest_def channel_state_def mark_deliveries_def)

lemma no_rest_ok: "no_rest db t \<Longrightarrow> no_rest (record_outcome c items None t s db) t"
  by (auto simp: no_rest_def channel_state_def record_outcome_def save_channel_state_def mark_deliveries_def resting_def
      dict_simps)

lemma dispatch_each_no_rest:
  assumes "\<forall>c vs. send c vs = None"
  shows "dispatch_each enabled send t states rows gs w out = (w', r) \<Longrightarrow> no_rest (aw_db w) t \<Longrightarrow> no_rest (aw_db w') t"
proof (induction gs arbitrary: w out)
  case Nil
  then show ?case by simp
next
  case (Cons g gs)
  obtain c items where g: "g = (c, items)" by fastforce
  consider "c \<notin> set enabled" | "c \<in> set enabled" "resting (states c) t"
    | "c \<in> set enabled" "\<not> resting (states c) t" "views_of rows items = None"
    | views where "c \<in> set enabled" "\<not> resting (states c) t" "views_of rows items = Some views" by blast
  then show ?case
  proof cases
    case 1
    then show ?thesis using Cons.prems g Cons.IH by (auto simp: no_rest_mark)
  next
    case 2
    then show ?thesis using Cons.prems g Cons.IH by auto
  next
    case 3
    then show ?thesis using Cons.prems g by auto
  next
    case 4
    then show ?thesis using Cons.prems g Cons.IH assms by (auto simp: send_message_def Let_def no_rest_ok)
  qed
qed

lemma due_first: "set (due_deliveries db t n) \<subseteq> set (due_rows_of db t)"
  using due_rows by (fastforce simp: due_rows_of_def)

lemma due_count:
  assumes "distinct (map dv_id (ad_deliveries db))"
  shows "card (set (due_deliveries db t n)) = min n (length (due_rows_of db t))"
proof -
  have "distinct (due_rows_of db t)"
    using assms by (auto simp: due_rows_of_def distinct_map intro: distinct_filter)
  then have "distinct (sort_key dv_next_attempt_at (sort_key dv_id (due_rows_of db t)))" by simp
  then show ?thesis
    unfolding due_deliveries_def due_rows_of_def [symmetric]
    by (simp add: distinct_card distinct_take min.commute)
qed

lemma run_reduces:
  assumes ok: "rows_ok (aw_db w)" and taken: "\<forall>c vs. send c vs = None" and quiet: "no_rest (aw_db w) t"
    and run: "run_dispatch enabled send t w = (w', r)"
  shows "length (due_rows_of (aw_db w') t) = length (due_rows_of (aw_db w) t) - DUE_LIMIT \<and> rows_ok (aw_db w') \<and> no_rest (aw_db w') t"
proof -
  let ?db = "aw_db w"
  let ?due = "due_deliveries ?db t DUE_LIMIT"
  have rows: "ad_deliveries (aw_db w') = map (delivery_after enabled send t ?db) (ad_deliveries ?db)"
    and alerts: "ad_alerts (aw_db w') = ad_alerts ?db"
    using dispatch_rows [OF ok run] by simp_all
  have ids: "distinct (map dv_id (ad_deliveries ?db))" using ok by (simp add: rows_ok_def)
  have after: "is_due t (delivery_after enabled send t ?db d) \<longleftrightarrow> is_due t d \<and> d \<notin> set ?due" for d
    using quiet taken by (auto simp: delivery_after_def no_rest_def is_due_def attempted_def marked_def reply_of_def
        dest: due_rows)
  have d: "distinct (due_rows_of ?db t)" using ids by (auto simp: due_rows_of_def distinct_map intro: distinct_filter)
  have "length (due_rows_of (aw_db w') t) = length (filter (\<lambda>d. d \<notin> set ?due) (due_rows_of ?db t))"
    by (simp add: due_rows_of_def rows filter_map o_def after conj_commute)
  also have "\<dots> = card (set (due_rows_of ?db t) - set ?due)"
    using d by (simp add: distinct_card [symmetric] set_diff_eq)
  also have "\<dots> = length (due_rows_of ?db t) - min DUE_LIMIT (length (due_rows_of ?db t))"
    using due_first [of ?db t DUE_LIMIT] d by (simp add: card_Diff_subset due_count [OF ids] distinct_card)
  finally have "length (due_rows_of (aw_db w') t) = length (due_rows_of ?db t) - DUE_LIMIT" by simp
  moreover have "rows_ok (aw_db w')" using ok by (simp add: rows_ok_def rows alerts o_def)
  moreover have "no_rest (aw_db w') t"
    using run quiet dispatch_each_no_rest [OF taken] unfolding run_dispatch_def Let_def by blast
  ultimately show ?thesis by simp
qed

text \<open>C10. While the channels take what they are sent and none rests, n runs work off a backlog of up to 200 n due
  deliveries: none is due after them.\<close>

theorem backlog_worked_off:
  assumes "rows_ok (aw_db w)" "\<forall>c vs. send c vs = None" "no_rest (aw_db w) t"
    "length (due_rows_of (aw_db w) t) \<le> n * DUE_LIMIT"
  shows "due_rows_of (aw_db (run_times n enabled send t w)) t = []"
  using assms
proof (induction n arbitrary: w)
  case 0
  then show ?case by simp
next
  case (Suc n)
  obtain w' r where run: "run_dispatch enabled send t w = (w', r)" by fastforce
  from run_reduces [OF Suc.prems(1-3) run] Suc.prems(4)
  have "rows_ok (aw_db w')" "no_rest (aw_db w') t" "length (due_rows_of (aw_db w') t) \<le> n * DUE_LIMIT" by auto
  then show ?case unfolding run_times.simps run fst_conv by (rule Suc.IH [OF _ Suc.prems(2)])
qed

text \<open>A channel at rest keeps its place in the queue: when the first 200 due deliveries are all of resting channels, a
  run does nothing, also not for the due deliveries of channels that work.\<close>

lemma resting_holds_up_others:
  assumes "rows_ok (aw_db w)" "run_dispatch enabled send t w = (w', r)"
    and "\<forall>d \<in> set (due_deliveries (aw_db w) t DUE_LIMIT). dv_channel d \<in> set enabled \<and> resting (channel_state (aw_db w) (dv_channel d)) t"
  shows "ad_deliveries (aw_db w') = ad_deliveries (aw_db w) \<and> aw_messages w' = aw_messages w"
proof -
  have "delivery_after enabled send t (aw_db w) d = d" for d using assms(3) by (auto simp: delivery_after_def)
  moreover have "messages_of enabled send t (aw_db w) = []" using assms(3) by (auto simp: messages_of_def filter_empty_conv)
  ultimately show ?thesis using dispatch_rows [OF assms(1,2)] by (simp add: map_idI)
qed

section \<open>An example history\<close>

text \<open>One alert on two channels; LINE does not answer, mail does.\<close>

definition example_trigger :: grouped_trigger where
  "example_trigger = \<lparr> tg_rule_id = ''r1'', tg_rule_type = ART_SYSTEM, tg_subject_key = ''disk'', tg_severity = SEV_HIGH,
     tg_first_seen = 0, tg_last_seen = 0, tg_late = False, tg_message_key = ''alert_system_disk_low'', tg_params = [],
     tg_facts = [], tg_evidence = None, tg_confidence = no_confidence, gt_annotation = None \<rparr>"

definition example_stored :: alert_world where
  "example_stored = \<lparr> aw_db = insert_alert ''pce'' ''1'' '''' None example_trigger 0 [''smtp'', ''line''] None empty_alert_db,
     aw_messages = [] \<rparr>"

definition line_down :: channel_sender where
  "line_down c views = (if c = ''line'' then Some ''timed out'' else None)"

definition example_sent :: alert_world where
  "example_sent = fst (run_dispatch [''smtp'', ''line''] line_down 0 example_stored)"

lemma example_stored_reachable: "alert_reachable example_stored"
  using alert_reachable.step [OF alert_reachable.start alert_step.stored
      [of "[''smtp'', ''line'']" None _ "''pce''" "''1''" "''''" None example_trigger 0]]
  by (simp add: example_stored_def)

lemma example_sent_reachable: "alert_reachable example_sent"
  using alert_reachable.step [OF example_stored_reachable alert_step.dispatched]
  unfolding example_sent_def by (metis prod.collapse)

lemma example_rows_ok: "rows_ok (aw_db example_stored)"
  using reachable_ok [OF example_stored_reachable] by (simp add: history_ok_def)

lemma example_after:
  "map dv_status (map (delivery_after [''smtp'', ''line''] line_down 0 (aw_db example_stored)) (ad_deliveries (aw_db example_stored)))
     = [DS_SENT, DS_PENDING]"
  by code_simp

theorem dispatch_exact_witness:
  "map dv_status (ad_deliveries (aw_db example_sent)) = [DS_SENT, DS_PENDING]"
proof -
  obtain w' r where run: "run_dispatch [''smtp'', ''line''] line_down 0 example_stored = (w', r)" by fastforce
  show ?thesis
    using dispatch_exact [OF example_rows_ok run] example_after by (simp add: example_sent_def run)
qed

theorem alert_sent_once_witness:
  "length (tries (aw_messages example_sent) 1 ''line'') \<le> 3 \<and> length (aw_messages example_sent) = 2"
proof -
  have "length (aw_messages example_sent) = 2" by code_simp
  then show ?thesis using alert_sent_once [OF example_sent_reachable, of 1 "''line''"] by simp
qed

theorem deliveries_consistent_witness:
  "list_all delivery_ok (ad_deliveries (aw_db example_sent)) \<and> length (ad_deliveries (aw_db example_sent)) = 2"
proof -
  have "length (ad_deliveries (aw_db example_sent)) = 2" by code_simp
  then show ?thesis using deliveries_consistent [OF example_sent_reachable] by (simp add: list_all_iff)
qed

theorem backlog_worked_off_witness:
  "due_rows_of (aw_db (run_times 1 [''smtp'', ''line''] (\<lambda>_ _. None) 0 example_stored)) 0 = []"
proof (rule backlog_worked_off [OF example_rows_ok])
  show "\<forall>c vs. (\<lambda>_ _. None :: string option) (c :: string) (vs :: alert list) = None" by simp
  show "no_rest (aw_db example_stored) 0"
    by (simp add: no_rest_def channel_state_def example_stored_def insert_alert_def Let_def empty_alert_db_def resting_def)
  have "length (due_rows_of (aw_db example_stored) 0) = 2" by code_simp
  then show "length (due_rows_of (aw_db example_stored) 0) \<le> 1 * DUE_LIMIT" by (simp add: DUE_LIMIT_def)
qed

end
