(* ===== verification/AlertRecord.thy ===== *)
theory AlertRecord
  imports AlertStore AlertGate Tamper
begin

text \<open>
  How triggers become alerts: known causes (\<open>services/alerts/known.py\<close>, \<open>_tamper\<close> of \<open>evaluate.py\<close>) and the
  recorder, which gates the triggers of a batch and records its alerts, the rules' states, what was seen and the
  watermark as one change. The alerts stored over any sequence of commits are those the gate lets through.
\<close>

section \<open>Rules\<close>

datatype alert_rule =
    EventRule event_rule
  | TrafficRule traffic_rule
  | BandwidthRule bandwidth_rule
  | VolumeRule volume_rule
  | SystemRule system_rule
  | LateralRule lateral_rule

section \<open>Known causes\<close>

definition ungrouped :: "trigger \<Rightarrow> grouped_trigger" where
  "ungrouped t = trigger.extend t \<lparr> gt_annotation = None \<rparr>"

record known_view =
  kv_id :: int
  kv_detector :: string
  kv_subject_key :: string
  kv_fingerprint :: "string option"
  kv_reason :: string

definition text_param :: "trigger \<Rightarrow> string \<Rightarrow> string option" where
  "text_param t k = (case dict_get (tg_params t) k of Some (FJ (JStr s)) \<Rightarrow> Some s | _ \<Rightarrow> None)"

definition covers_trigger :: "trigger \<Rightarrow> known_view \<Rightarrow> bool" where
  "covers_trigger t m = (Some (kv_detector m) = text_param t ''detector'' \<and> Some (kv_subject_key m) = text_param t ''account''
     \<and> kv_fingerprint m \<in> {None, Some (tg_subject_key t)})"

definition known_trigger :: "known_view list \<Rightarrow> trigger \<Rightarrow> grouped_trigger" where
  "known_trigger marks t =
     (case find (covers_trigger t) marks of
        None \<Rightarrow> ungrouped t
      | Some m \<Rightarrow> trigger.extend (t\<lparr> tg_params := dict_set ''known_reason'' (FJ (JStr (kv_reason m))) (tg_params t) \<rparr>)
                    \<lparr> gt_annotation = Some (kv_id m) \<rparr>)"

definition apply_known :: "trigger list \<Rightarrow> known_view list \<Rightarrow> grouped_trigger list" where
  "apply_known triggers marks = map (known_trigger marks) triggers"

text \<open>Tampering: the reading of its events goes into the parameters, and a trigger is grouped when one known cause
  explains every reading, each against its own host. \<open>interpret\<close> may fail on an event it cannot read.\<close>

definition TAMPERING :: string where "TAMPERING = ''agent.tampering''"

definition pattern_for :: "(string, tamper_pattern) dict \<Rightarrow> string \<Rightarrow> tamper_pattern" where
  "pattern_for patterns h = (case dict_get patterns h of None \<Rightarrow> TP_TOO_FEW | Some p \<Rightarrow> p)"

fun read_events :: "event_fact list \<Rightarrow> flow_shape_error + (string option \<times> tamper_reading) list" where
  "read_events [] = Inr []"
| "read_events (e # es) =
     (case interpret_event (ef_raw e) of
        Inl err \<Rightarrow> Inl err
      | Inr rs \<Rightarrow> (case read_events es of Inl err \<Rightarrow> Inl err | Inr qs \<Rightarrow> Inr (map (\<lambda>r. (ef_host_key e, r)) rs @ qs)))"

definition own_tampering :: "trigger \<Rightarrow> event_fact list \<Rightarrow> event_fact list" where
  "own_tampering t matched =
     (let tampering = filter (\<lambda>e. ef_event_type e = TAMPERING) matched;
          own = filter (\<lambda>e. event_subject e = tg_subject_key t) tampering
      in if own = [] then tampering else own)"

fun tamper_action_text :: "tamper_action \<Rightarrow> string" where
  "tamper_action_text TA_ADD_RULE = ''add_rule''"
| "tamper_action_text TA_DELETE_RULE = ''delete_rule''"
| "tamper_action_text TA_ADD_CHAIN = ''add_chain''"
| "tamper_action_text TA_DELETE_CHAIN = ''delete_chain''"
| "tamper_action_text TA_ADD_TABLE = ''add_table''"
| "tamper_action_text TA_DELETE_TABLE = ''delete_table''"

fun action_text :: "kernel_action \<Rightarrow> string" where
  "action_text (Known a) = tamper_action_text a"
| "action_text (Unknown s) = s"

definition explained :: "(string, tamper_pattern) dict \<Rightarrow> annotation list \<Rightarrow> string option \<times> tamper_reading \<Rightarrow> int option" where
  "explained patterns notes x =
     (if truthy_str (fst x) then explained_by (snd x) (or_empty (fst x)) (pattern_for patterns (or_empty (fst x))) notes
      else None)"

definition one_cause :: "int option list \<Rightarrow> int option" where
  "one_cause xs = (case nub xs of [Some i] \<Rightarrow> Some i | _ \<Rightarrow> None)"

definition tamper_params :: "(string, tamper_pattern) dict \<Rightarrow> string option \<Rightarrow> tamper_reading list \<Rightarrow> (string, fact) dict" where
  "tamper_params patterns host readings =
     (let signal = find tr_has_process_info readings
      in [(''classification'', FJ (case readings of [] \<Rightarrow> JNull | r # _ \<Rightarrow> tr_classification r)),
          (''process'', FJ (case signal of None \<Rightarrow> JNull | Some r \<Rightarrow> tr_process r)),
          (''pid'', FJ (case signal of None \<Rightarrow> JNull | Some r \<Rightarrow> tr_pid r)),
          (''actions'', FJ (JList (case signal of None \<Rightarrow> [] | Some r \<Rightarrow> map (JStr \<circ> action_text) (tr_actions r)))),
          (''pattern'', FJ (JStr (tamper_pattern_value (pattern_for patterns (or_empty host))))),
          (''has_process_info'', FJ (JBool (signal \<noteq> None)))])"

definition tamper_trigger :: "(string, tamper_pattern) dict \<Rightarrow> annotation list \<Rightarrow> event_fact list \<Rightarrow> trigger
    \<Rightarrow> flow_shape_error + grouped_trigger" where
  "tamper_trigger patterns notes matched t =
     (let tampering = own_tampering t matched
      in if tampering = [] then Inr (ungrouped t)
         else case read_events tampering of
                Inl err \<Rightarrow> Inl err
              | Inr read \<Rightarrow>
                  (let params = tamper_params patterns (ef_host_key (hd tampering)) (map snd read)
                   in Inr (trigger.extend (t\<lparr> tg_params := fold (\<lambda>(k, v). dict_set k v) params (tg_params t) \<rparr>)
                        \<lparr> gt_annotation = one_cause (map (explained patterns notes) read) \<rparr>)))"

section \<open>The recorder\<close>

text \<open>The settings and results of one evaluation; \<open>rc_seen\<close> holds rule, fingerprint and severity of the detections it
  evaluated.\<close>

record recorder =
  rc_now :: time
  rc_pce_url :: string
  rc_org_id :: string
  rc_channels :: "string list"
  rc_fired :: nat
  rc_suppressed :: nat
  rc_pending :: "(rule_base \<times> grouped_trigger list) list"
  rc_seen :: "(string \<times> string \<times> severity) list"

definition record_triggers :: "rule_base \<Rightarrow> grouped_trigger list \<Rightarrow> recorder \<Rightarrow> recorder" where
  "record_triggers rule ts rc = (if ts = [] then rc else rc\<lparr> rc_pending := rc_pending rc @ [(rule, ts)] \<rparr>)"

definition hold_of :: "rule_base \<Rightarrow> grouped_trigger \<Rightarrow> delivery_status option" where
  "hold_of rule t =
     (if gt_annotation t \<noteq> None then Some DS_GROUPED else if rb_notify rule then None else Some DS_NOT_NOTIFIED)"

record commit_state =
  cs_db :: alert_db
  cs_fired :: nat
  cs_suppressed :: nat
  cs_held :: "(string \<times> string) list"

definition commit_trigger :: "recorder \<Rightarrow> rule_base \<Rightarrow> grouped_trigger \<Rightarrow> commit_state \<Rightarrow> commit_state" where
  "commit_trigger rc rule t cs =
     (let g = gate rule (stored_state (cs_db cs) (rb_id rule) (tg_subject_key t)) (rc_now rc);
          db = save_rule_state (rb_id rule) (tg_subject_key t) (gr_state g)
                 (if gr_allowed g then None else Some (gr_reason g)) (cs_db cs)
      in if \<not> gr_allowed g
         then cs\<lparr> cs_db := db, cs_suppressed := cs_suppressed cs + 1, cs_held := (rb_id rule, tg_subject_key t) # cs_held cs \<rparr>
         else cs\<lparr> cs_db := insert_alert (rc_pce_url rc) (rc_org_id rc) (rb_name rule) (rb_pack_key rule) t (rc_now rc)
                             (rc_channels rc) (hold_of rule t) db,
                  cs_fired := cs_fired cs + 1 \<rparr>)"

definition commit_pending :: "recorder \<Rightarrow> alert_db \<Rightarrow> commit_state" where
  "commit_pending rc db =
     fold (\<lambda>(rule, ts). fold (commit_trigger rc rule) ts) (rc_pending rc)
       \<lparr> cs_db = db, cs_fired = 0, cs_suppressed = 0, cs_held = [] \<rparr>"

text \<open>A rise that was held back stays a rise until it is alerted.\<close>

definition commit_seen :: "(string \<times> string) list \<Rightarrow> (string \<times> string \<times> severity) list \<Rightarrow> alert_db \<Rightarrow> alert_db" where
  "commit_seen held seen =
     fold (\<lambda>(r, f, s) db. if (r, f) \<in> set held then db else set_seen_severity r f s db) seen"

text \<open>The transaction; None is \<open>StaleGeneration\<close>, raised when the PCE was switched since the data was read.\<close>

definition commit :: "recorder \<Rightarrow> bool \<Rightarrow> string \<Rightarrow> watermark option \<Rightarrow> alert_db \<Rightarrow> (recorder \<times> alert_db) option" where
  "commit rc stale source mark db =
     (if stale then None
      else let cs = commit_pending rc db;
               db1 = commit_seen (cs_held cs) (rc_seen rc) (cs_db cs);
               db2 = (case mark of None \<Rightarrow> db1 | Some m \<Rightarrow> set_eval_watermark source m (rc_pce_url rc) (rc_org_id rc) db1)
           in Some (rc\<lparr> rc_pending := [], rc_seen := [], rc_fired := rc_fired rc + cs_fired cs,
                        rc_suppressed := rc_suppressed rc + cs_suppressed cs \<rparr>, db2))"

section \<open>The stored alerts are those the gate lets through\<close>

text \<open>The gate's state per subject after a sequence of triggers.\<close>

fun states_after :: "'a rule_base_scheme \<Rightarrow> (string, rule_state) dict \<Rightarrow> (time \<times> trigger) list \<Rightarrow> (string, rule_state) dict" where
  "states_after rule states [] = states"
| "states_after rule states ((now, t) # ts) =
     states_after rule (dict_set (tg_subject_key t) (gr_state (gate rule (dict_get states (tg_subject_key t)) now)) states) ts"

lemma gated_from_append:
  "gated_from rule states (xs @ ys) = gated_from rule states xs @ gated_from rule (states_after rule states xs) ys"
  by (induction rule states xs rule: states_after.induct) (simp_all add: Let_def)

lemma states_after_append: "states_after rule states (xs @ ys) = states_after rule (states_after rule states xs) ys"
  by (induction rule states xs rule: states_after.induct) simp_all

definition row_state :: "alert_db \<Rightarrow> string \<Rightarrow> string \<Rightarrow> rule_state" where
  "row_state db r s = (case stored_state db r s of None \<Rightarrow> fresh_state | Some st \<Rightarrow> st)"

lemma gate_fresh: "gate rule (Some (case st of None \<Rightarrow> fresh_state | Some s \<Rightarrow> s)) now = gate rule st now"
  by (cases st) (simp_all add: gate_def)

text \<open>The states a dictionary and the database hold for a rule are the same.\<close>

definition tracks :: "string \<Rightarrow> (string, rule_state) dict \<Rightarrow> alert_db \<Rightarrow> bool" where
  "tracks r states db \<longleftrightarrow> (\<forall>s. state_of states s = row_state db r s)"

lemma tracks_gate:
  assumes "tracks (rb_id rule) states db"
  shows "gate rule (dict_get states s) now = gate rule (stored_state db (rb_id rule) s) now"
proof -
  have "state_of states s = row_state db (rb_id rule) s" using assms by (simp add: tracks_def)
  then show ?thesis unfolding state_of_def row_state_def by (metis gate_fresh)
qed

lemma stored_state_save [simp]:
  "stored_state (save_rule_state r s st x db) r' s' = (if (r', s') = (r, s) then Some st else stored_state db r' s')"
  by (auto simp: stored_state_def save_rule_state_def Let_def dict_simps split: option.splits)

lemma stored_state_insert [simp]:
  "stored_state (insert_alert url org name pack t now channels hold db) = stored_state db"
  by (simp add: stored_state_def insert_alert_def Let_def fun_eq_iff)

lemma alerts_save [simp]: "ad_alerts (save_rule_state r s st x db) = ad_alerts db"
  by (simp add: save_rule_state_def Let_def)

definition fired_trigger :: "alert \<Rightarrow> time \<times> trigger" where
  "fired_trigger a = (al_fired_at a, trigger.truncate (al_trigger a))"

definition own_alerts :: "string \<Rightarrow> alert_db \<Rightarrow> (time \<times> trigger) list" where
  "own_alerts r db = map fired_trigger (filter (\<lambda>a. tg_rule_id (al_trigger a) = r) (ad_alerts db))"

lemma truncate_fields [simp]:
  "tg_subject_key (trigger.truncate t) = tg_subject_key t" "tg_rule_id (trigger.truncate t) = tg_rule_id t"
  by (cases t; simp add: trigger.truncate_def)+

lemma commit_own:
  assumes "tracks (rb_id rule) states (cs_db cs)" "tg_rule_id t = rb_id rule"
  shows "own_alerts (rb_id rule) (cs_db (commit_trigger rc rule t cs)) =
      own_alerts (rb_id rule) (cs_db cs) @ gated_from rule states [(rc_now rc, trigger.truncate t)]
    \<and> tracks (rb_id rule) (states_after rule states [(rc_now rc, trigger.truncate t)]) (cs_db (commit_trigger rc rule t cs))"
proof -
  let ?g = "gate rule (stored_state (cs_db cs) (rb_id rule) (tg_subject_key t)) (rc_now rc)"
  have g: "gate rule (dict_get states (tg_subject_key t)) (rc_now rc) = ?g" by (rule tracks_gate [OF assms(1)])
  have tr: "tracks (rb_id rule) (dict_set (tg_subject_key t) (gr_state ?g) states)
      (save_rule_state (rb_id rule) (tg_subject_key t) (gr_state ?g) x (cs_db cs))" for x
    using assms(1) by (simp add: tracks_def state_of_def row_state_def dict_simps)
  show ?thesis
  proof (cases "gr_allowed ?g")
    case True
    then show ?thesis
      using g tr assms(2)
      by (simp add: commit_trigger_def Let_def own_alerts_def fired_trigger_def insert_alert_def tracks_def row_state_def
          stored_state_def)
  next
    case False
    then show ?thesis using g tr by (simp add: commit_trigger_def Let_def own_alerts_def)
  qed
qed

lemma commit_foreign:
  assumes "rb_id rule \<noteq> r" "tg_rule_id t = rb_id rule"
  shows "own_alerts r (cs_db (commit_trigger rc rule t cs)) = own_alerts r (cs_db cs)
    \<and> (tracks r states (cs_db (commit_trigger rc rule t cs)) \<longleftrightarrow> tracks r states (cs_db cs))"
proof -
  let ?g = "gate rule (stored_state (cs_db cs) (rb_id rule) (tg_subject_key t)) (rc_now rc)"
  show ?thesis
    using assms
    by (cases "gr_allowed ?g")
      (auto simp: commit_trigger_def Let_def own_alerts_def insert_alert_def tracks_def row_state_def stored_state_def
        save_rule_state_def dict_simps split: option.splits)
qed

definition flat :: "(rule_base \<times> grouped_trigger list) list \<Rightarrow> (rule_base \<times> grouped_trigger) list" where
  "flat pending = concat (map (\<lambda>(rule, ts). map (Pair rule) ts) pending)"

definition offered :: "string \<Rightarrow> time \<Rightarrow> (rule_base \<times> grouped_trigger list) list \<Rightarrow> (time \<times> trigger) list" where
  "offered r now pending =
     map (\<lambda>x. (now, trigger.truncate (snd x))) (filter (\<lambda>x. rb_id (fst x) = r) (flat pending))"

lemma commit_pending_flat:
  "fold (\<lambda>(rule, ts). fold (commit_trigger rc rule) ts) pending cs = fold (\<lambda>(rule, t). commit_trigger rc rule t) (flat pending) cs"
proof (induction pending arbitrary: cs)
  case Nil
  then show ?case by (simp add: flat_def)
next
  case (Cons p pending)
  obtain rule ts where p: "p = (rule, ts)" by fastforce
  have "fold (\<lambda>(rule, t). commit_trigger rc rule t) (map (Pair rule) ts) cs = fold (commit_trigger rc rule) ts cs" for cs
    by (induction ts arbitrary: cs) simp_all
  then show ?case using Cons by (simp add: p flat_def)
qed

text \<open>The triggers of a rule carry its id, and a rule's id stands for one rule.\<close>

definition proper :: "rule_base \<Rightarrow> (rule_base \<times> grouped_trigger list) list \<Rightarrow> bool" where
  "proper rule pending \<longleftrightarrow>
     (\<forall>x \<in> set (flat pending). tg_rule_id (snd x) = rb_id (fst x) \<and> (rb_id (fst x) = rb_id rule \<longrightarrow> fst x = rule))"

lemma commit_flat:
  fixes rc :: recorder
  assumes "\<forall>x \<in> set xs. tg_rule_id (snd x) = rb_id (fst x) \<and> (rb_id (fst x) = rb_id rule \<longrightarrow> fst x = rule)"
    and "tracks (rb_id rule) states (cs_db cs)"
  defines "own \<equiv> map (\<lambda>x. (rc_now rc, trigger.truncate (snd x))) (filter (\<lambda>x. rb_id (fst x) = rb_id rule) xs)"
  shows "own_alerts (rb_id rule) (cs_db (fold (\<lambda>(rule, t). commit_trigger rc rule t) xs cs)) =
      own_alerts (rb_id rule) (cs_db cs) @ gated_from rule states own
    \<and> tracks (rb_id rule) (states_after rule states own) (cs_db (fold (\<lambda>(rule, t). commit_trigger rc rule t) xs cs))"
  using assms(1,2) unfolding own_def
proof (induction xs arbitrary: cs states)
  case Nil
  then show ?case by simp
next
  case (Cons x xs)
  obtain ru t where x: "x = (ru, t)" by fastforce
  let ?own = "map (\<lambda>x. (rc_now rc, trigger.truncate (snd x))) (filter (\<lambda>x. rb_id (fst x) = rb_id rule) xs)"
  have rest: "\<forall>x \<in> set xs. tg_rule_id (snd x) = rb_id (fst x) \<and> (rb_id (fst x) = rb_id rule \<longrightarrow> fst x = rule)"
    and id: "tg_rule_id t = rb_id ru"
    using Cons.prems(1) x by auto
  show ?case
  proof (cases "rb_id ru = rb_id rule")
    case True
    then have ru: "ru = rule" using Cons.prems(1) x by auto
    let ?p = "(rc_now rc, trigger.truncate t)"
    note c = commit_own [OF Cons.prems(2), of t rc]
    have t: "tg_rule_id t = rb_id rule" using id ru by simp
    have tr: "tracks (rb_id rule) (states_after rule states [?p]) (cs_db (commit_trigger rc rule t cs))" using c [OF t] by blast
    note IH = Cons.IH [OF rest tr]
    have g: "gated_from rule states (?p # ?own) = gated_from rule states [?p] @ gated_from rule (states_after rule states [?p]) ?own"
      using gated_from_append [of rule states "[?p]" ?own] by simp
    have s: "states_after rule states (?p # ?own) = states_after rule (states_after rule states [?p]) ?own"
      using states_after_append [of rule states "[?p]" ?own] by simp
    show ?thesis
      unfolding x ru fold.simps o_apply case_prod_conv filter.simps fst_conv snd_conv list.map simp_thms if_True g s
      using IH c [OF t] by simp
  next
    case False
    note c = commit_foreign [OF False id, of rc cs]
    have tr: "tracks (rb_id rule) states (cs_db (commit_trigger rc ru t cs))" using c Cons.prems(2) by blast
    show ?thesis using Cons.IH [OF rest tr] c False by (simp add: x)
  qed
qed

section \<open>Any sequence of commits\<close>

lemma seen_keeps:
  "own_alerts r (commit_seen held seen db) = own_alerts r db" "row_state (commit_seen held seen db) r s = row_state db r s"
proof -
  have o: "own_alerts r (set_seen_severity r' f v db) = own_alerts r db"
    and w: "row_state (set_seen_severity r' f v db) r s = row_state db r s" for r' f v db
    by (auto simp: own_alerts_def set_seen_severity_def row_state_def stored_state_def dict_simps split: option.splits)
  show "own_alerts r (commit_seen held seen db) = own_alerts r db" "row_state (commit_seen held seen db) r s = row_state db r s"
    unfolding commit_seen_def by (induction seen arbitrary: db) (auto simp: o w)
qed

lemma mark_keeps [simp]:
  "own_alerts r (set_eval_watermark source m u g db) = own_alerts r db"
  "row_state (set_eval_watermark source m u g db) = row_state db"
  by (simp_all add: own_alerts_def set_eval_watermark_def row_state_def stored_state_def fun_eq_iff)

type_synonym commit_call = "recorder \<times> string \<times> watermark option"

fun committed :: "commit_call \<Rightarrow> alert_db \<Rightarrow> alert_db" where
  "committed (rc, source, mark) db = (case commit rc False source mark db of None \<Rightarrow> db | Some (rc', db') \<Rightarrow> db')"

definition offers :: "string \<Rightarrow> commit_call list \<Rightarrow> (time \<times> trigger) list" where
  "offers r hist = concat (map (\<lambda>(rc, _). offered r (rc_now rc) (rc_pending rc)) hist)"

definition proper_history :: "rule_base \<Rightarrow> commit_call list \<Rightarrow> bool" where
  "proper_history rule hist \<longleftrightarrow> (\<forall>(rc, _) \<in> set hist. proper rule (rc_pending rc))"

lemma committed_own:
  assumes "proper rule (rc_pending rc)" "tracks (rb_id rule) states db"
  shows "own_alerts (rb_id rule) (committed (rc, source, mark) db) =
      own_alerts (rb_id rule) db @ gated_from rule states (offered (rb_id rule) (rc_now rc) (rc_pending rc))
    \<and> tracks (rb_id rule) (states_after rule states (offered (rb_id rule) (rc_now rc) (rc_pending rc)))
        (committed (rc, source, mark) db)"
proof -
  let ?cs = "\<lparr> cs_db = db, cs_fired = 0, cs_suppressed = 0, cs_held = [] \<rparr>"
  have cs: "commit_pending rc db = fold (\<lambda>(rule, t). commit_trigger rc rule t) (flat (rc_pending rc)) ?cs"
    unfolding commit_pending_def commit_pending_flat ..
  have "own_alerts r (committed (rc, source, mark) db) = own_alerts r (cs_db (commit_pending rc db))"
    "row_state (committed (rc, source, mark) db) r = row_state (cs_db (commit_pending rc db)) r" for r
    by (simp_all add: commit_def Let_def seen_keeps fun_eq_iff split: option.split)
  then show ?thesis
    using commit_flat [of "flat (rc_pending rc)" rule states ?cs rc] assms unfolding cs offered_def proper_def tracks_def by simp
qed

lemma history_own:
  assumes "proper_history rule hist" "tracks (rb_id rule) states db"
  shows "own_alerts (rb_id rule) (fold committed hist db) =
    own_alerts (rb_id rule) db @ gated_from rule states (offers (rb_id rule) hist)"
  using assms
proof (induction hist arbitrary: db states)
  case Nil
  then show ?case by (simp add: offers_def)
next
  case (Cons c hist)
  obtain rc source mark where c: "c = (rc, source, mark)" by (cases c)
  let ?own = "offered (rb_id rule) (rc_now rc) (rc_pending rc)"
  have one: "own_alerts (rb_id rule) (committed c db) = own_alerts (rb_id rule) db @ gated_from rule states ?own"
    "tracks (rb_id rule) (states_after rule states ?own) (committed c db)"
    unfolding c using committed_own Cons.prems by (auto simp: proper_history_def c)
  have "offers (rb_id rule) (c # hist) = ?own @ offers (rb_id rule) hist" by (simp add: offers_def c)
  then show ?case
    using Cons.IH [OF _ one(2)] Cons.prems(1) one(1) by (simp add: proper_history_def gated_from_append)
qed

lemma offers_sorted:
  assumes "sorted (map (rc_now \<circ> fst) hist)"
  shows "sorted (map fst (offers r hist))"
  using assms
proof (induction hist)
  case Nil
  then show ?case by (simp add: offers_def)
next
  case (Cons c hist)
  obtain rc sm where c: "c = (rc, sm)" by (cases c) blast
  have eq: "map fst (offers r (c # hist)) = replicate (length (offered r (rc_now rc) (rc_pending rc))) (rc_now rc) @ map fst (offers r hist)"
    by (simp add: offers_def c offered_def o_def map_replicate_const)
  have "\<forall>t \<in> set (map fst (offers r hist)). rc_now rc \<le> t"
    using Cons.prems by (auto simp: c offers_def offered_def)
  then show ?case using Cons unfolding eq by (auto simp: sorted_append)
qed

lemma fired_at_own: "fired_at s (map fired_trigger as) = map al_fired_at (filter (\<lambda>a. tg_subject_key (al_trigger a) = s) as)"
  by (simp add: fired_at_def fired_trigger_def filter_map o_def)

text \<open>C11. Over any sequence of commits in time order, the alerts stored for a rule are those the gate lets through: on
  one subject they are at least the rule's cooldown apart, and no throttle period holds more of them than its count.
  Other rules' alerts and what is seen do not matter, and neither does how the triggers are spread over batches.\<close>

theorem stored_alerts_limited:
  fixes s :: string
  assumes "proper_history rule hist" "sorted (map (rc_now \<circ> fst) hist)"
  defines "fired_times \<equiv> map al_fired_at (filter (\<lambda>a. tg_rule_id (al_trigger a) = rb_id rule \<and> tg_subject_key (al_trigger a) = s)
      (ad_alerts (fold committed hist empty_alert_db)))"
  shows "sorted_wrt (\<lambda>a b. a + minutes (rb_cooldown_minutes rule) \<le> b) fired_times \<and>
    (\<forall>th t. rb_throttle rule = Some th \<longrightarrow>
       length (filter (\<lambda>u. t - minutes (th_period_minutes th) < u \<and> u \<le> t) fired_times) \<le> th_count th)"
proof -
  let ?db = "fold committed hist empty_alert_db" and ?own = "offers (rb_id rule) hist"
  have tr: "tracks (rb_id rule) [] empty_alert_db"
    by (simp add: tracks_def state_of_def row_state_def stored_state_def empty_alert_db_def)
  have sorted: "sorted (map fst ?own)" by (rule offers_sorted [OF assms(2)])
  have "own_alerts (rb_id rule) empty_alert_db = []" by (simp add: own_alerts_def empty_alert_db_def)
  then have "own_alerts (rb_id rule) ?db = gated_from rule [] ?own" using history_own [OF assms(1) tr] by simp
  then have own: "own_alerts (rb_id rule) ?db = by_history rule [] ?own" by (simp add: gated_from_start [OF sorted])
  have "fired_times = fired_at s (own_alerts (rb_id rule) ?db)"
    by (simp add: fired_times_def own_alerts_def fired_at_own filter_filter conj_commute)
  then show ?thesis
    using history_limits [OF sorted, of s "[]" rule] unfolding own by (simp add: spaced_def throttled_def in_window_def)
qed

text \<open>A rule with a cooldown of an hour, evaluated every 20 minutes.\<close>

definition example_rule :: rule_base where
  "example_rule = \<lparr> rb_id = ''r1'', rb_name = '''', rb_pack_key = None, rb_enabled = True, rb_notify = True,
     rb_severity = Some SEV_HIGH, rb_cooldown_minutes = 60, rb_throttle = None \<rparr>"

definition example_grouped :: grouped_trigger where
  "example_grouped = \<lparr> tg_rule_id = ''r1'', tg_rule_type = ART_SYSTEM, tg_subject_key = ''disk'', tg_severity = SEV_HIGH,
     tg_first_seen = 0, tg_last_seen = 0, tg_late = False, tg_message_key = ''alert_system_disk_low'', tg_params = [],
     tg_facts = [], tg_evidence = None, tg_confidence = no_confidence, gt_annotation = None \<rparr>"

definition example_commit :: "time \<Rightarrow> commit_call" where
  "example_commit t = (\<lparr> rc_now = t, rc_pce_url = ''pce'', rc_org_id = ''1'', rc_channels = [''smtp''], rc_fired = 0,
     rc_suppressed = 0, rc_pending = [(example_rule, [example_grouped])], rc_seen = [] \<rparr>, ''system'', None)"

definition example_commits :: "commit_call list" where
  "example_commits = map example_commit [0, minutes 20, minutes 40, minutes 60, minutes 80]"

theorem stored_alerts_limited_witness:
  "map al_fired_at (ad_alerts (fold committed example_commits empty_alert_db)) = [0, minutes 60] \<and>
   sorted_wrt (\<lambda>a b. a + minutes 60 \<le> b) [0, minutes 60]"
proof
  have run: "map al_fired_at (ad_alerts (fold committed example_commits empty_alert_db)) = [0, minutes 60]" by code_simp
  then show "map al_fired_at (ad_alerts (fold committed example_commits empty_alert_db)) = [0, minutes 60]" .
  have own: "map al_fired_at (filter (\<lambda>a. tg_rule_id (al_trigger a) = rb_id example_rule \<and> tg_subject_key (al_trigger a) = ''disk'')
      (ad_alerts (fold committed example_commits empty_alert_db))) = [0, minutes 60]" by code_simp
  have p: "proper_history example_rule example_commits"
    by (simp add: proper_history_def example_commits_def example_commit_def proper_def flat_def example_rule_def
        example_grouped_def)
  have s: "sorted (map (rc_now \<circ> fst) example_commits)" by (simp add: example_commits_def example_commit_def minutes_def)
  show "sorted_wrt (\<lambda>a b. a + minutes 60 \<le> b) [0, minutes 60]"
    using stored_alerts_limited [OF p s, of "''disk''"] unfolding own by (simp add: example_rule_def)
qed

end
