(* ===== verification/SiemStore.thy ===== *)
theory SiemStore
  imports Json PyTime
begin

text \<open>
  \<open>store/siem.py\<close>: where each destination got to in each source (\<open>siem_cursor\<close>), the lines it would not take
  (\<open>siem_dlq\<close>, in the order of their ids) and what it sent and failed over time (\<open>siem_stats\<close>), as the tables
  of the application database. An SQL statement is a function on the rows; a stored time is its instant (the
  texts \<open>isoformat\<close> writes in UTC compare as the instants do).
\<close>

section \<open>Rows\<close>

definition FLOW_SOURCES :: "string list" where
  "FLOW_SOURCES = [''audit'', ''detections'', ''new_connections'']"

record cursor =
  cu_pce_url :: string
  cu_org_id :: string
  cu_last_id :: int
  cu_head_id :: "int option"
  cu_head_attempts :: int
  cu_sent :: int
  cu_dropped :: int
  cu_last_sent_at :: "time option"
  cu_last_error :: "string option"
  cu_last_error_at :: "time option"
  cu_floor_time :: "time option"

record dead_letter =
  dl_id :: int
  dl_destination_id :: string
  dl_source :: string
  dl_record_id :: int
  dl_external_id :: string
  dl_event_time :: "time option"
  dl_payload :: string
  dl_sent_as :: string
  dl_error :: string
  dl_attempts :: int
  dl_quarantined_at :: time

record sends =
  se_sent :: int
  se_failed :: int

text \<open>\<open>db_dlq_seq\<close> is the highest id the DLQ ever gave out (AUTOINCREMENT); a cursor's key is its destination
  and source.\<close>

type_synonym cursor_key = "string \<times> string"

record siem_db =
  db_cursors :: "(cursor_key, cursor) dict"
  db_dlq :: "dead_letter list"
  db_dlq_seq :: int
  db_stats :: "((string \<times> time), sends) dict"

definition ERROR_KEEP :: nat where "ERROR_KEEP = 2000"

section \<open>Cursors\<close>

text \<open>\<open>UPDATE ... WHERE\<close>: the rows of a dictionary that satisfy a condition are rewritten.\<close>

definition update_where :: "('k \<Rightarrow> 'v \<Rightarrow> bool) \<Rightarrow> ('v \<Rightarrow> 'v) \<Rightarrow> ('k, 'v) dict \<Rightarrow> ('k, 'v) dict" where
  "update_where P f d = map (\<lambda>(k, v). (k, if P k v then f v else v)) d"

definition get_cursor :: "siem_db \<Rightarrow> string \<Rightarrow> string \<Rightarrow> cursor option" where
  "get_cursor db dest source = dict_get (db_cursors db) (dest, source)"

definition new_cursor :: "string \<Rightarrow> string \<Rightarrow> int \<Rightarrow> cursor" where
  "new_cursor pce_url org_id last_id = \<lparr> cu_pce_url = pce_url, cu_org_id = org_id, cu_last_id = last_id,
     cu_head_id = None, cu_head_attempts = 0, cu_sent = 0, cu_dropped = 0, cu_last_sent_at = None,
     cu_last_error = None, cu_last_error_at = None, cu_floor_time = None \<rparr>"

definition start_cursor :: "string \<Rightarrow> string \<Rightarrow> string \<Rightarrow> string \<Rightarrow> int \<Rightarrow> siem_db \<Rightarrow> siem_db" where
  "start_cursor dest source pce_url org_id last_id db = db\<lparr> db_cursors :=
     dict_set (dest, source)
       (case get_cursor db dest source of
          None \<Rightarrow> new_cursor pce_url org_id last_id
        | Some c \<Rightarrow> c\<lparr> cu_pce_url := pce_url, cu_org_id := org_id, cu_last_id := last_id,
                       cu_head_id := None, cu_head_attempts := 0 \<rparr>)
       (db_cursors db) \<rparr>"

definition set_floor :: "string \<Rightarrow> string \<Rightarrow> time option \<Rightarrow> siem_db \<Rightarrow> siem_db" where
  "set_floor dest source floor_time db = db\<lparr> db_cursors :=
     update_where (\<lambda>k _. k = (dest, source)) (\<lambda>c. c\<lparr> cu_floor_time := floor_time \<rparr>) (db_cursors db) \<rparr>"

section \<open>Sends over time\<close>

definition BUCKET :: time where "BUCKET = 10 * 60 * 1000000"
definition STATS_KEEP :: time where "STATS_KEEP = 8 * 86400 * 1000000"

definition bucket :: "time \<Rightarrow> time" where
  "bucket t = t - t mod BUCKET"

definition count_sends :: "string \<Rightarrow> time \<Rightarrow> int \<Rightarrow> int \<Rightarrow> siem_db \<Rightarrow> siem_db" where
  "count_sends dest t sent failed db = db\<lparr> db_stats :=
     dict_set (dest, bucket t)
       (case dict_get (db_stats db) (dest, bucket t) of
          None \<Rightarrow> \<lparr> se_sent = sent, se_failed = failed \<rparr>
        | Some x \<Rightarrow> \<lparr> se_sent = se_sent x + sent, se_failed = se_failed x + failed \<rparr>)
       (db_stats db) \<rparr>"

definition record_sends :: "string \<Rightarrow> time \<Rightarrow> int \<Rightarrow> int \<Rightarrow> siem_db \<Rightarrow> siem_db" where
  "record_sends dest t sent failed db =
     (if sent \<noteq> 0 \<or> failed \<noteq> 0 then count_sends dest t sent failed db else db)"

text \<open>Per destination, the sums over the buckets from the one that holds \<open>since\<close>.\<close>

definition sends_since :: "siem_db \<Rightarrow> time \<Rightarrow> (string, sends) dict" where
  "sends_since db since =
     map (\<lambda>(d, rows). (d, \<lparr> se_sent = sum_list (map (se_sent \<circ> snd) rows),
                           se_failed = sum_list (map (se_failed \<circ> snd) rows) \<rparr>))
       (group_by (fst \<circ> fst) (filter (\<lambda>((d, b), _). bucket since \<le> b) (db_stats db)))"

definition delete_sends_before :: "time \<Rightarrow> siem_db \<Rightarrow> siem_db \<times> nat" where
  "delete_sends_before before db =
     (db\<lparr> db_stats := filter (\<lambda>((d, b), _). \<not> b < bucket before) (db_stats db) \<rparr>,
      length (filter (\<lambda>((d, b), _). b < bucket before) (db_stats db)))"

section \<open>Moving a cursor\<close>

definition advanced :: "int \<Rightarrow> int \<Rightarrow> time \<Rightarrow> cursor \<Rightarrow> cursor" where
  "advanced last_id sent t c =
     (let past = (case cu_head_id c of None \<Rightarrow> True | Some h \<Rightarrow> h \<le> last_id) in
      c\<lparr> cu_last_id := max (cu_last_id c) last_id,
         cu_sent := cu_sent c + sent,
         cu_last_sent_at := (if sent \<noteq> 0 then Some t else cu_last_sent_at c),
         cu_head_attempts := (if past then 0 else cu_head_attempts c),
         cu_head_id := (if past then None else cu_head_id c) \<rparr>)"

text \<open>The flag is false, and nothing is written, when the cursor belongs to another PCE.\<close>

definition advance :: "string \<Rightarrow> string \<Rightarrow> string \<Rightarrow> string \<Rightarrow> int \<Rightarrow> int \<Rightarrow> time \<Rightarrow> siem_db \<Rightarrow> siem_db \<times> bool" where
  "advance dest source pce_url org_id last_id sent t db =
     (let mine = (\<lambda>k c. k = (dest, source) \<and> cu_pce_url c = pce_url \<and> cu_org_id c = org_id);
          moved = (\<exists>(k, c) \<in> set (db_cursors db). mine k c);
          db' = db\<lparr> db_cursors := update_where mine (advanced last_id sent t) (db_cursors db) \<rparr>
      in (if moved \<and> sent \<noteq> 0 then count_sends dest t sent 0 db' else db', moved))"

definition failed_at :: "int option \<Rightarrow> string \<Rightarrow> time \<Rightarrow> cursor \<Rightarrow> cursor" where
  "failed_at head error t c =
     c\<lparr> cu_head_attempts := (if cu_head_id c = head then cu_head_attempts c + 1 else 1),
        cu_head_id := head, cu_last_error := Some (take ERROR_KEEP error), cu_last_error_at := Some t \<rparr>"

definition record_failure ::
    "string \<Rightarrow> string \<Rightarrow> int option \<Rightarrow> string \<Rightarrow> time \<Rightarrow> siem_db \<Rightarrow> siem_db \<times> int" where
  "record_failure dest source head error t db =
     (let db' = count_sends dest t 0 1 (db\<lparr> db_cursors :=
            update_where (\<lambda>k _. k = (dest, source)) (failed_at head error t) (db_cursors db) \<rparr>)
      in (db', case get_cursor db' dest source of None \<Rightarrow> 0 | Some c \<Rightarrow> cu_head_attempts c))"

definition note_error :: "string \<Rightarrow> string \<Rightarrow> string \<Rightarrow> time \<Rightarrow> siem_db \<Rightarrow> siem_db" where
  "note_error dest source error t db = db\<lparr> db_cursors :=
     update_where (\<lambda>k _. k = (dest, source))
       (\<lambda>c. c\<lparr> cu_last_error := Some (take ERROR_KEEP error), cu_last_error_at := Some t \<rparr>) (db_cursors db) \<rparr>"

definition add_dropped :: "(cursor_key, int) dict \<Rightarrow> siem_db \<Rightarrow> siem_db" where
  "add_dropped counts db = db\<lparr> db_cursors :=
     fold (\<lambda>(key, n). if n = 0 then id else update_where (\<lambda>k _. k = key) (\<lambda>c. c\<lparr> cu_dropped := cu_dropped c + n \<rparr>))
       counts (db_cursors db) \<rparr>"

definition restart_flow_cursors :: "string \<Rightarrow> string \<Rightarrow> siem_db \<Rightarrow> siem_db" where
  "restart_flow_cursors pce_url org_id db = db\<lparr> db_cursors :=
     update_where (\<lambda>(_, source) _. source \<in> set FLOW_SOURCES)
       (\<lambda>c. c\<lparr> cu_last_id := 0, cu_pce_url := pce_url, cu_org_id := org_id, cu_head_id := None,
              cu_head_attempts := 0 \<rparr>) (db_cursors db) \<rparr>"

definition forget_destination :: "string \<Rightarrow> string list \<Rightarrow> siem_db \<Rightarrow> siem_db" where
  "forget_destination dest keep_sources db = db\<lparr> db_cursors :=
     (if keep_sources = [] then filter (\<lambda>((d, _), _). d \<noteq> dest) (db_cursors db)
      else filter (\<lambda>((d, source), _). \<not> (d = dest \<and> source \<notin> set keep_sources)) (db_cursors db)) \<rparr>"

definition move_pce :: "string \<Rightarrow> string \<Rightarrow> string \<Rightarrow> siem_db \<Rightarrow> siem_db \<times> nat" where
  "move_pce old_url new_url org_id db =
     (let mine = (\<lambda>_ c. cu_pce_url c = old_url \<and> cu_org_id c = org_id)
      in (db\<lparr> db_cursors := update_where mine (\<lambda>c. c\<lparr> cu_pce_url := new_url \<rparr>) (db_cursors db) \<rparr>,
          length (filter (\<lambda>(k, c). mine k c) (db_cursors db))))"

section \<open>The DLQ\<close>

text \<open>\<open>instr(error, text) > 0\<close>.\<close>

fun has_text :: "string \<Rightarrow> string \<Rightarrow> bool" where
  "has_text p [] = (p = [])"
| "has_text p (c # s) = (take (length p) (c # s) = p \<or> has_text p s)"

definition dlq_where :: "string option \<Rightarrow> string option \<Rightarrow> dead_letter \<Rightarrow> bool" where
  "dlq_where dest error d =
     ((case dest of None \<Rightarrow> True | Some x \<Rightarrow> dl_destination_id d = x) \<and>
      (case error of None \<Rightarrow> True | Some e \<Rightarrow> e = [] \<or> has_text e (dl_error d)))"

definition dlq_count :: "siem_db \<Rightarrow> string option \<Rightarrow> string option \<Rightarrow> nat" where
  "dlq_count db dest error = length (filter (dlq_where dest error) (db_dlq db))"

definition dlq_counts :: "siem_db \<Rightarrow> (string, nat) dict" where
  "dlq_counts db = map (\<lambda>(d, rows). (d, length rows)) (group_by dl_destination_id (db_dlq db))"

definition quarantine :: "string \<Rightarrow> string \<Rightarrow> int \<Rightarrow> string \<Rightarrow> time option \<Rightarrow> string \<Rightarrow> string \<Rightarrow> string \<Rightarrow> int \<Rightarrow> time
    \<Rightarrow> siem_db \<Rightarrow> siem_db" where
  "quarantine dest source record_id external_id event_time payload made_for error attempts t db =
     db\<lparr> db_dlq := db_dlq db @
           [\<lparr> dl_id = db_dlq_seq db + 1, dl_destination_id = dest, dl_source = source, dl_record_id = record_id,
              dl_external_id = external_id, dl_event_time = event_time, dl_payload = payload,
              dl_sent_as = made_for, dl_error = take ERROR_KEEP error, dl_attempts = attempts,
              dl_quarantined_at = t \<rparr>],
         db_dlq_seq := db_dlq_seq db + 1 \<rparr>"

definition dlq_page :: "siem_db \<Rightarrow> string option \<Rightarrow> nat \<Rightarrow> nat \<Rightarrow> string option \<Rightarrow> dead_letter list" where
  "dlq_page db dest limit offset error =
     take limit (drop offset (List.rev (filter (dlq_where dest error) (db_dlq db))))"

definition dlq_get :: "siem_db \<Rightarrow> int \<Rightarrow> dead_letter option" where
  "dlq_get db dead_id = find (\<lambda>d. dl_id d = dead_id) (db_dlq db)"

fun chunks :: "nat \<Rightarrow> 'a list \<Rightarrow> 'a list list" where
  "chunks n [] = []"
| "chunks n (x # xs) = (x # take (n - 1) xs) # chunks n (drop (n - 1) xs)"

definition CHUNK :: nat where "CHUNK = 500"

definition dlq_by_ids :: "siem_db \<Rightarrow> int list \<Rightarrow> dead_letter list" where
  "dlq_by_ids db ids =
     concat (map (\<lambda>chunk. filter (\<lambda>d. dl_id d \<in> set chunk) (db_dlq db)) (chunks CHUNK ids))"

definition dlq_after :: "siem_db \<Rightarrow> string option \<Rightarrow> int \<Rightarrow> nat \<Rightarrow> string option \<Rightarrow> dead_letter list" where
  "dlq_after db dest after limit error =
     take limit (filter (\<lambda>d. dlq_where dest error d \<and> after < dl_id d) (db_dlq db))"

text \<open>\<open>DELETE FROM siem_dlq WHERE\<close>, with the number of rows it removed.\<close>

definition dlq_delete_where :: "(dead_letter \<Rightarrow> bool) \<Rightarrow> siem_db \<Rightarrow> siem_db \<times> nat" where
  "dlq_delete_where P db =
     (db\<lparr> db_dlq := filter (\<lambda>d. \<not> P d) (db_dlq db) \<rparr>, length (filter P (db_dlq db)))"

definition dlq_delete :: "int list \<Rightarrow> siem_db \<Rightarrow> siem_db \<times> nat" where
  "dlq_delete ids db =
     fold (\<lambda>chunk (db', n). let (db'', m) = dlq_delete_where (\<lambda>d. dl_id d \<in> set chunk) db' in (db'', n + m))
       (chunks CHUNK ids) (db, 0)"

definition dlq_purge :: "string option \<Rightarrow> string option \<Rightarrow> siem_db \<Rightarrow> siem_db \<times> nat" where
  "dlq_purge dest error db = dlq_delete_where (dlq_where dest error) db"

definition dlq_purge_before :: "string option \<Rightarrow> time \<Rightarrow> string option \<Rightarrow> siem_db \<Rightarrow> siem_db \<times> nat" where
  "dlq_purge_before dest before error db =
     dlq_delete_where (\<lambda>d. dlq_where dest error d \<and> dl_quarantined_at d < before) db"

definition dlq_failed_again :: "int \<Rightarrow> string \<Rightarrow> siem_db \<Rightarrow> siem_db" where
  "dlq_failed_again dead_id error db = db\<lparr> db_dlq :=
     map (\<lambda>d. if dl_id d = dead_id
              then d\<lparr> dl_attempts := dl_attempts d + 1, dl_error := take ERROR_KEEP error \<rparr> else d) (db_dlq db) \<rparr>"

end
