(* ===== verification/AlertEval.thy ===== *)
theory AlertEval
  imports AlertRecord SiemStore
begin

text \<open>
  \<open>services/alerts/evaluate.py\<close>: what arrived since the last evaluation is read in batches after the watermark, run
  through the rules, and committed batch by batch. The flow store is what one run reads of it: the events and
  detections as tables, the totals of the increments, the system facts and the inventory as functions.
\<close>

section \<open>What an evaluation reads\<close>

definition EVENT_BATCH :: nat where "EVENT_BATCH = 5000"
definition EVENT_BATCHES :: nat where "EVENT_BATCHES = 10"
definition DETECTION_BATCH :: nat where "DETECTION_BATCH = 2000"
definition DETECTION_BATCHES :: nat where "DETECTION_BATCHES = 25"

definition SOURCE_EVENTS :: string where "SOURCE_EVENTS = ''events''"
definition SOURCE_TRAFFIC :: string where "SOURCE_TRAFFIC = ''traffic''"
definition SOURCE_LATERAL :: string where "SOURCE_LATERAL = ''lateral''"
definition SOURCE_SYSTEM :: string where "SOURCE_SYSTEM = ''system''"

record new_event =
  ne_id :: int
  ne_ingest :: bool
  ne_fact :: event_fact

record detection_row =
  dx_id :: int
  dx_detector :: detector_kind
  dx_fingerprint :: string
  dx_subject_key :: string
  dx_severity :: severity
  dx_critical_asset :: bool
  dx_late :: bool
  dx_first_seen :: time
  dx_last_seen :: time
  dx_summary :: jobj
  dx_segment :: evidence
  dx_confidence :: alert_confidence
  dx_ends :: "(end_role \<times> string \<times> string) list option"
  dx_created_at :: string
  dx_updated_at :: string

text \<open>\<open>ev_stale n\<close>: whether the PCE was switched by the time of the n-th commit. \<open>ev_totals\<close> are the totals of
  \<open>increment_totals\<close> for a condition, a window, the last evaluation and a ranking, before their latency is set.\<close>

record eval_env =
  ev_rx :: regex
  ev_pce_url :: string
  ev_org_id :: string
  ev_rules :: "alert_rule list"
  ev_channels :: "string list"
  ev_lightweight :: bool
  ev_collecting :: bool
  ev_stale :: "nat \<Rightarrow> bool"
  ev_events_collected :: bool
  ev_traffic_collected :: bool
  ev_events :: "new_event list"
  ev_patterns :: "(string, tamper_pattern) dict"
  ev_annotations :: "annotation list"
  ev_newest_increment :: "time option"
  ev_totals :: "flow_condition \<Rightarrow> time \<times> time \<Rightarrow> time \<Rightarrow> string \<Rightarrow> increment_facts"
  ev_detections :: "detection_row list"
  ev_names :: "(string, string option) dict"
  ev_labels :: "(string, (string, string) dict) dict"
  ev_ip_lists :: ip_lists
  ev_label_groups :: label_groups
  ev_known :: "known_view list"
  ev_max_gap_id :: int
  ev_system_facts :: "int \<Rightarrow> time \<Rightarrow> system_facts \<times> int"

datatype eval_error = ShapeError flow_shape_error | FilterError filter_error | BadSeverity string | BadMark

record eval_run =
  el_source :: string
  el_evaluated :: nat
  el_fired :: nat
  el_suppressed :: nat
  el_statuses :: "(string, string) dict"

definition new_eval_run :: "string \<Rightarrow> eval_run" where
  "new_eval_run source = \<lparr> el_source = source, el_evaluated = 0, el_fired = 0, el_suppressed = 0, el_statuses = [] \<rparr>"

definition new_recorder :: "eval_env \<Rightarrow> time \<Rightarrow> recorder" where
  "new_recorder env now = \<lparr> rc_now = now, rc_pce_url = ev_pce_url env, rc_org_id = ev_org_id env,
     rc_channels = ev_channels env, rc_fired = 0, rc_suppressed = 0, rc_pending = [], rc_seen = [] \<rparr>"

definition watermark_of :: "eval_env \<Rightarrow> string \<Rightarrow> alert_db \<Rightarrow> watermark option" where
  "watermark_of env source db = eval_watermark db source (ev_pce_url env) (ev_org_id env)"

definition set_watermark :: "eval_env \<Rightarrow> string \<Rightarrow> watermark \<Rightarrow> alert_db \<Rightarrow> alert_db" where
  "set_watermark env source v db = set_eval_watermark source v (ev_pce_url env) (ev_org_id env) db"

text \<open>What a run gives: an error that is raised, or its result; the alerts recorded on the way stay.\<close>

type_synonym eval_result = "(eval_error + eval_run) \<times> alert_db"

definition finished :: "eval_run \<Rightarrow> recorder \<Rightarrow> eval_run" where
  "finished run rc = run\<lparr> el_fired := rc_fired rc, el_suppressed := rc_suppressed rc \<rparr>"

fun try_map :: "('a \<Rightarrow> 'e + 'b) \<Rightarrow> 'a list \<Rightarrow> 'e + 'b list" where
  "try_map f [] = Inr []"
| "try_map f (x # xs) =
     (case f x of Inl e \<Rightarrow> Inl e | Inr y \<Rightarrow> (case try_map f xs of Inl e \<Rightarrow> Inl e | Inr ys \<Rightarrow> Inr (y # ys)))"

section \<open>Events\<close>

definition after_id :: "int \<Rightarrow> new_event list \<Rightarrow> new_event list" where
  "after_id n events = filter (\<lambda>e. n < ne_id e \<and> ne_ingest e) (sort_key ne_id events)"

definition events_after :: "eval_env \<Rightarrow> int \<Rightarrow> nat \<Rightarrow> new_event list \<times> bool" where
  "events_after env n limit =
     (let rows = take (limit + 1) (after_id n (ev_events env)) in (take limit rows, limit < length rows))"

definition max_event_id :: "eval_env \<Rightarrow> int" where
  "max_event_id env = top_id ne_id (ev_events env)"

definition events_in_window :: "eval_env \<Rightarrow> time \<Rightarrow> time \<Rightarrow> string list option \<Rightarrow> new_event list" where
  "events_in_window env start end types =
     (if types = Some [] then []
      else sort_key (ef_timestamp \<circ> ne_fact)
        (filter (\<lambda>e. start < ef_timestamp (ne_fact e) \<and> ef_timestamp (ne_fact e) \<le> end \<and> ne_ingest e
            \<and> (case types of None \<Rightarrow> True | Some ts \<Rightarrow> ef_event_type (ne_fact e) \<in> set ts)) (ev_events env)))"

definition window_matches :: "eval_env \<Rightarrow> event_rule \<Rightarrow> time \<Rightarrow> nat" where
  "window_matches env rule now =
     (let types = (if uses_regex rule then None else Some (exact_types rule))
      in length (filter (\<lambda>e. event_matches (ev_rx env) rule (ef_raw (ne_fact e)))
           (events_in_window env (now - minutes (er_window_minutes rule)) now types)))"

definition event_rules :: "eval_env \<Rightarrow> event_rule list" where
  "event_rules env =
     List.map_filter (\<lambda>r. case r of EventRule e \<Rightarrow> (if rb_enabled e then Some e else None) | _ \<Rightarrow> None) (ev_rules env)"

definition record_event_rule :: "eval_env \<Rightarrow> time \<Rightarrow> event_fact list \<Rightarrow> event_rule \<Rightarrow> recorder \<Rightarrow> eval_error + recorder" where
  "record_event_rule env now facts rule rc =
     (let matched = filter (\<lambda>f. event_matches (ev_rx env) rule (ef_raw f)) facts
      in if matched = [] then Inr rc
         else let count = (if er_threshold rule = TT_COUNT then window_matches env rule now else 0);
                  triggers = evaluate_event_rule (ev_rx env) rule matched count now
              in case try_map (tamper_trigger (ev_patterns env) (ev_annotations env) matched) triggers of
                   Inl e \<Rightarrow> Inl (ShapeError e)
                 | Inr ts \<Rightarrow> Inr (record_triggers (rule_base.truncate rule) ts rc))"

fun record_event_rules :: "eval_env \<Rightarrow> time \<Rightarrow> event_fact list \<Rightarrow> event_rule list \<Rightarrow> recorder \<Rightarrow> eval_error + recorder" where
  "record_event_rules env now facts [] rc = Inr rc"
| "record_event_rules env now facts (r # rs) rc =
     (case record_event_rule env now facts r rc of
        Inl e \<Rightarrow> Inl e
      | Inr rc' \<Rightarrow> record_event_rules env now facts rs rc')"

definition facts_of :: "time option \<Rightarrow> new_event list \<Rightarrow> event_fact list" where
  "facts_of since rows =
     map ne_fact (filter (\<lambda>e. case since of None \<Rightarrow> True | Some f \<Rightarrow> f < ef_timestamp (ne_fact e)) rows)"

text \<open>The batches, with the number of commits made; a stale commit ends the run with an empty result.\<close>

fun event_batches :: "nat \<Rightarrow> eval_env \<Rightarrow> time \<Rightarrow> time option \<Rightarrow> int \<Rightarrow> recorder \<Rightarrow> eval_run \<Rightarrow> nat \<Rightarrow> alert_db \<Rightarrow> eval_result" where
  "event_batches 0 env now since n rc run k db = (Inr (finished run rc), db)"
| "event_batches (Suc left) env now since n rc run k db =
     (let (rows, waiting) = events_after env n EVENT_BATCH
      in if rows = [] then (Inr (finished run rc), db)
         else let facts = facts_of since rows
              in case record_event_rules env now facts (event_rules env) rc of
                   Inl e \<Rightarrow> (Inl e, db)
                 | Inr rc1 \<Rightarrow>
                     (let n' = ne_id (last rows); run' = run\<lparr> el_evaluated := el_evaluated run + length facts \<rparr>
                      in case commit rc1 (ev_stale env k) SOURCE_EVENTS (Some (IdMark n')) db of
                           None \<Rightarrow> (Inr (new_eval_run SOURCE_EVENTS), db)
                         | Some (rc2, db') \<Rightarrow>
                             (if waiting then event_batches left env now since n' rc2 run' (Suc k) db'
                              else (Inr (finished run' rc2), db'))))"

definition evaluate_events :: "eval_env \<Rightarrow> time \<Rightarrow> alert_db \<Rightarrow> eval_result" where
  "evaluate_events env now db =
     (let run = new_eval_run SOURCE_EVENTS; rc = new_recorder env now
      in case watermark_of env SOURCE_EVENTS db of
           None \<Rightarrow> (if \<not> ev_events_collected env then (Inr run, db)
                    else (Inr run, set_watermark env SOURCE_EVENTS (IdMark (max_event_id env)) db))
         | Some (UpgradeMark t) \<Rightarrow> event_batches EVENT_BATCHES env now (Some t) 0 rc run 0 db
         | Some (IdMark n) \<Rightarrow> event_batches EVENT_BATCHES env now None n rc run 0 db
         | Some _ \<Rightarrow> (Inl BadMark, db))"

section \<open>Traffic, bandwidth, volume\<close>

text \<open>\<open>int(x.total_seconds())\<close> rounds towards zero.\<close>

definition whole_seconds :: "time \<Rightarrow> int" where
  "whole_seconds d = (if 0 \<le> d then d div SECOND else - ((- d) div SECOND))"

definition increment_facts_of :: "increment_facts \<Rightarrow> time \<Rightarrow> time option \<Rightarrow> increment_facts" where
  "increment_facts_of totals now newest =
     totals\<lparr> if_latency_seconds := map_option (\<lambda>w. whole_seconds (now - w)) newest \<rparr>"

fun flow_rule_of :: "alert_rule \<Rightarrow> flow_rule option" where
  "flow_rule_of (TrafficRule r) = Some (flow_rule.truncate r)"
| "flow_rule_of (BandwidthRule r) = Some (flow_rule.truncate r)"
| "flow_rule_of (VolumeRule r) = Some (flow_rule.truncate r)"
| "flow_rule_of _ = None"

fun rank_by :: "alert_rule \<Rightarrow> string" where
  "rank_by (BandwidthRule _) = ''mbps''"
| "rank_by _ = ''connections''"

fun is_traffic :: "alert_rule \<Rightarrow> bool" where
  "is_traffic (TrafficRule _) = True"
| "is_traffic _ = False"

definition flow_rules :: "eval_env \<Rightarrow> (alert_rule \<times> flow_rule) list" where
  "flow_rules env =
     List.map_filter (\<lambda>r. case flow_rule_of r of
         Some f \<Rightarrow> (if rb_enabled f then Some (r, f) else None) | None \<Rightarrow> None) (ev_rules env)"

definition evaluate_flow_rule :: "alert_rule \<Rightarrow> increment_facts \<Rightarrow> time \<times> time \<Rightarrow> filter_error + trigger option" where
  "evaluate_flow_rule rule facts window =
     (case rule of
        TrafficRule r \<Rightarrow> evaluate_traffic_rule r facts window
      | BandwidthRule r \<Rightarrow> evaluate_bandwidth_rule r facts window
      | VolumeRule r \<Rightarrow> evaluate_volume_rule r facts window
      | _ \<Rightarrow> Inr None)"

definition flow_status :: "alert_rule \<Rightarrow> increment_facts \<Rightarrow> string" where
  "flow_status rule totals =
     (if \<not> is_traffic rule \<and> if_rows totals \<noteq> 0 \<and> if_bytes_rows totals = 0 then ''no_data''
      else if if_gaps totals \<noteq> [] then ''incomplete'' else ''ok'')"

fun record_flow_rules :: "eval_env \<Rightarrow> time \<Rightarrow> time \<Rightarrow> (alert_rule \<times> flow_rule) list \<Rightarrow> recorder \<Rightarrow> eval_run \<Rightarrow> alert_db
    \<Rightarrow> (eval_error + recorder \<times> eval_run) \<times> alert_db" where
  "record_flow_rules env now since [] rc run db = (Inr (rc, run), db)"
| "record_flow_rules env now since ((rule, f) # rules) rc run db =
     (let window = (now - minutes (fr_window_minutes f), now);
          totals = ev_totals env (fr_condition f) window since (rank_by rule)
      in case evaluate_flow_rule rule (increment_facts_of totals now (ev_newest_increment env)) window of
           Inl e \<Rightarrow> (Inl (FilterError e), db)
         | Inr trigger \<Rightarrow>
             (let status = flow_status rule totals;
                  db' = set_rule_status (rb_id f) status now db;
                  run' = run\<lparr> el_statuses := dict_set (rb_id f) status (el_statuses run),
                              el_evaluated := el_evaluated run + 1 \<rparr>
              in record_flow_rules env now since rules
                   (record_triggers (rule_base.truncate f) (case trigger of None \<Rightarrow> [] | Some t \<Rightarrow> [ungrouped t]) rc) run' db'))"

definition collection_off :: "eval_env \<Rightarrow> time \<Rightarrow> eval_run \<Rightarrow> alert_db \<Rightarrow> eval_result" where
  "collection_off env now run db =
     (let ids = map (rb_id \<circ> snd) (flow_rules env)
      in (Inr (run\<lparr> el_statuses := fold (\<lambda>i. dict_set i ''collection_off'') ids (el_statuses run) \<rparr>),
          fold (\<lambda>i. set_rule_status i ''collection_off'' now) ids db))"

definition evaluate_traffic :: "eval_env \<Rightarrow> time \<Rightarrow> alert_db \<Rightarrow> eval_result" where
  "evaluate_traffic env now db =
     (let run = new_eval_run SOURCE_TRAFFIC; newest = ev_newest_increment env
      in if ev_lightweight env \<or> \<not> ev_collecting env then collection_off env now run db
         else case watermark_of env SOURCE_TRAFFIC db of
           None \<Rightarrow> (if \<not> ev_traffic_collected env then (Inr run, db)
                    else (Inr run, set_watermark env SOURCE_TRAFFIC (TimeMark (case newest of None \<Rightarrow> now | Some t \<Rightarrow> t)) db))
         | Some (TimeMark since) \<Rightarrow>
             (case record_flow_rules env now since (flow_rules env) (new_recorder env now) run db of
                (Inl e, db') \<Rightarrow> (Inl e, db')
              | (Inr (rc, run'), db') \<Rightarrow>
                  (case commit rc (ev_stale env 0) SOURCE_TRAFFIC
                          (Some (TimeMark (max since (case newest of None \<Rightarrow> since | Some t \<Rightarrow> t)))) db' of
                     None \<Rightarrow> (Inr run, db')
                   | Some (rc', db'') \<Rightarrow> (Inr (finished run' rc'), db'')))
         | Some _ \<Rightarrow> (Inl BadMark, db))"

section \<open>Lateral movement\<close>

text \<open>Rows are ordered by the stamp of their last change and their id.\<close>

definition changed_after :: "string \<times> int \<Rightarrow> detection_row \<Rightarrow> bool" where
  "changed_after m r = (fst m < dx_updated_at r \<or> (dx_updated_at r = fst m \<and> snd m < dx_id r))"

definition by_change :: "detection_row list \<Rightarrow> detection_row list" where
  "by_change rows = sort_key dx_updated_at (sort_key dx_id rows)"

definition detections_changed_since :: "eval_env \<Rightarrow> string \<times> int \<Rightarrow> nat \<Rightarrow> detection_row list" where
  "detections_changed_since env since limit = take limit (filter (changed_after since) (by_change (ev_detections env)))"

definition change_mark :: "detection_row \<Rightarrow> string \<times> int" where
  "change_mark r = (dx_updated_at r, dx_id r)"

definition max_detection_update :: "eval_env \<Rightarrow> string \<times> int" where
  "max_detection_update env = (case by_change (ev_detections env) of [] \<Rightarrow> ('''', 0) | rows \<Rightarrow> change_mark (last rows))"

definition is_new :: "detection_row \<Rightarrow> string \<times> int \<Rightarrow> bool" where
  "is_new r start = (fst start < dx_created_at r \<or> (dx_created_at r = fst start \<and> snd start < dx_id r))"

definition severity_of_text :: "string \<Rightarrow> eval_error + severity" where
  "severity_of_text s = (case find (\<lambda>v. severity_value v = s) SEVERITY_ORDER of None \<Rightarrow> Inl (BadSeverity s) | Some v \<Rightarrow> Inr v)"

definition previous_severity :: "alert_db \<Rightarrow> string \<Rightarrow> string \<Rightarrow> eval_error + severity option" where
  "previous_severity db rule_id fingerprint =
     (case seen_severity db rule_id fingerprint of
        Some s \<Rightarrow> Inr (Some s)
      | None \<Rightarrow>
          (case last_alert db rule_id fingerprint of
             None \<Rightarrow> Inr None
           | Some a \<Rightarrow>
               (case dict_get (tg_facts (al_trigger a)) ''detection_severity'' of
                  Some (FJ (JStr s)) \<Rightarrow> (if s = [] then Inr (Some (tg_severity (al_trigger a)))
                                         else map_sum id Some (severity_of_text s))
                | _ \<Rightarrow> Inr (Some (tg_severity (al_trigger a))))))"

definition end_of :: "eval_env \<Rightarrow> end_role \<times> string \<times> string \<Rightarrow> end_fact" where
  "end_of env x =
     (let (role, key, ip) = x; href = (if startswith key ''ip:'' then None else Some key)
      in \<lparr> en_role = role, en_href = href, en_ip = ip,
           en_labels = (if truthy_str href
                        then (case dict_get (ev_labels env) (or_empty href) of None \<Rightarrow> [] | Some ls \<Rightarrow> ls) else []) \<rparr>)"

definition detection_fact_of :: "eval_env \<Rightarrow> string \<times> int \<Rightarrow> severity option \<Rightarrow> detection_row \<Rightarrow> detection_fact" where
  "detection_fact_of env start previous r =
     \<lparr> df_id = dx_id r, df_detector = dx_detector r, df_fingerprint = dx_fingerprint r, df_subject_key = dx_subject_key r,
       df_subject_name = (case dict_get (ev_names env) (dx_subject_key r) of
          Some n \<Rightarrow> (if truthy_str n then or_empty n else dx_subject_key r) | None \<Rightarrow> dx_subject_key r),
       df_severity = dx_severity r, df_critical_asset = dx_critical_asset r, df_late = dx_late r,
       df_first_seen = dx_first_seen r, df_last_seen = dx_last_seen r, df_summary = dx_summary r,
       df_segment = dx_segment r, df_confidence = dx_confidence r, df_is_new = is_new r start,
       df_severity_rose = (case previous of None \<Rightarrow> False | Some p \<Rightarrow> p < dx_severity r),
       df_ends = map_option (map (end_of env)) (dx_ends r) \<rparr>"

definition lateral_rules :: "eval_env \<Rightarrow> lateral_rule list" where
  "lateral_rules env =
     List.map_filter (\<lambda>r. case r of LateralRule e \<Rightarrow> (if rb_enabled e then Some e else None) | _ \<Rightarrow> None) (ev_rules env)"

definition wanted_detectors :: "eval_env \<Rightarrow> detector_kind set" where
  "wanted_detectors env = set (concat (map lr_detectors (lateral_rules env)))"

definition lateral_fact :: "eval_env \<Rightarrow> string \<times> int \<Rightarrow> lateral_rule \<Rightarrow> alert_db \<Rightarrow> detection_row \<Rightarrow> eval_error + detection_fact" where
  "lateral_fact env start rule db r =
     map_sum id (\<lambda>previous. detection_fact_of env start previous r)
       (if is_new r start then Inr None else previous_severity db (rb_id rule) (dx_fingerprint r))"

definition seen_rows :: "lateral_rule \<Rightarrow> detection_row list \<Rightarrow> (string \<times> string \<times> severity) list" where
  "seen_rows rule rows =
     map (\<lambda>r. (rb_id rule, dx_fingerprint r, dx_severity r)) (filter (\<lambda>r. dx_detector r \<in> set (lr_detectors rule)) rows)"

definition record_lateral_rule :: "eval_env \<Rightarrow> string \<times> int \<Rightarrow> detection_row list \<Rightarrow> alert_db \<Rightarrow> lateral_rule \<Rightarrow> recorder
    \<Rightarrow> eval_error + recorder" where
  "record_lateral_rule env start changed db rule rc =
     (let rows = filter (\<lambda>r. dx_detector r \<in> wanted_detectors env) changed
      in case try_map (lateral_fact env start rule db) rows of
           Inl e \<Rightarrow> Inl e
         | Inr facts \<Rightarrow>
             Inr (record_triggers (rule_base.truncate rule)
               (apply_known (evaluate_lateral_rule rule facts (ev_ip_lists env) (ev_label_groups env)) (ev_known env))
               (rc\<lparr> rc_seen := rc_seen rc @ seen_rows rule rows \<rparr>)))"

fun record_lateral_rules :: "eval_env \<Rightarrow> string \<times> int \<Rightarrow> detection_row list \<Rightarrow> alert_db \<Rightarrow> lateral_rule list \<Rightarrow> recorder
    \<Rightarrow> eval_error + recorder" where
  "record_lateral_rules env start changed db [] rc = Inr rc"
| "record_lateral_rules env start changed db (r # rs) rc =
     (case record_lateral_rule env start changed db r rc of
        Inl e \<Rightarrow> Inl e
      | Inr rc' \<Rightarrow> record_lateral_rules env start changed db rs rc')"

fun lateral_batches :: "nat \<Rightarrow> eval_env \<Rightarrow> string \<times> int \<Rightarrow> string \<times> int \<Rightarrow> recorder \<Rightarrow> eval_run \<Rightarrow> nat \<Rightarrow> alert_db
    \<Rightarrow> eval_result" where
  "lateral_batches 0 env start mark rc run k db = (Inr (finished run rc), db)"
| "lateral_batches (Suc left) env start mark rc run k db =
     (let changed = detections_changed_since env mark DETECTION_BATCH
      in if changed = [] then (Inr (finished run rc), db)
         else case record_lateral_rules env start changed db (lateral_rules env) rc of
                Inl e \<Rightarrow> (Inl e, db)
              | Inr rc1 \<Rightarrow>
                  (let mark' = change_mark (last changed);
                       run' = run\<lparr> el_evaluated := el_evaluated run + length changed \<rparr>
                   in case commit rc1 (ev_stale env k) SOURCE_LATERAL (Some (UpdateMark (fst mark') (snd mark'))) db of
                        None \<Rightarrow> (Inr (new_eval_run SOURCE_LATERAL), db)
                      | Some (rc2, db') \<Rightarrow>
                          (if length changed < DETECTION_BATCH then (Inr (finished run' rc2), db')
                           else lateral_batches left env start mark' rc2 run' (Suc k) db')))"

definition evaluate_lateral :: "eval_env \<Rightarrow> time \<Rightarrow> alert_db \<Rightarrow> eval_result" where
  "evaluate_lateral env now db =
     (let run = new_eval_run SOURCE_LATERAL
      in case watermark_of env SOURCE_LATERAL db of
           None \<Rightarrow> (if \<not> ev_traffic_collected env then (Inr run, db)
                    else (let m = max_detection_update env
                          in (Inr run, set_watermark env SOURCE_LATERAL (UpdateMark (fst m) (snd m)) db)))
         | Some (UpdateMark stamp i) \<Rightarrow>
             lateral_batches DETECTION_BATCHES env (stamp, i) (stamp, i) (new_recorder env now) run 0 db
         | Some _ \<Rightarrow> (Inl BadMark, db))"

section \<open>System checks\<close>

definition system_rules :: "eval_env \<Rightarrow> system_check set option \<Rightarrow> system_rule list" where
  "system_rules env checks =
     List.map_filter (\<lambda>r. case r of SystemRule e \<Rightarrow>
         (if rb_enabled e \<and> (case checks of None \<Rightarrow> True | Some cs \<Rightarrow> sr_check e \<in> cs) then Some e else None) | _ \<Rightarrow> None)
       (ev_rules env)"

definition evaluate_system_checks :: "eval_env \<Rightarrow> time \<Rightarrow> system_check set option \<Rightarrow> alert_db \<Rightarrow> eval_result" where
  "evaluate_system_checks env now checks db =
     (let run = new_eval_run SOURCE_SYSTEM;
          first_run = (watermark_of env SOURCE_SYSTEM db = None);
          db1 = (if first_run then set_watermark env SOURCE_SYSTEM (IdMark (ev_max_gap_id env)) db else db);
          rules = system_rules env checks;
          watches_gaps = (case checks of None \<Rightarrow> True | Some cs \<Rightarrow> SC_DATA_LOSS \<in> cs)
      in if rules = [] then (Inr run, db1)
         else case (if first_run then Some (IdMark (ev_max_gap_id env)) else watermark_of env SOURCE_SYSTEM db) of
           Some (IdMark n) \<Rightarrow>
             (let (facts, newest) = ev_system_facts env n now;
                  rc = fold (\<lambda>r. record_triggers (rule_base.truncate r) (map ungrouped (evaluate_system r facts now))) rules
                         (new_recorder env now)
              in case commit rc (ev_stale env 0) SOURCE_SYSTEM (if watches_gaps then Some (IdMark newest) else None) db1 of
                   None \<Rightarrow> (Inr run, db1)
                 | Some (rc', db2) \<Rightarrow> (Inr (finished (run\<lparr> el_evaluated := length rules \<rparr>) rc'), db2))
         | _ \<Rightarrow> (Inl BadMark, db1))"

end
