(* ===== verification/AlertEvalProofs.thy ===== *)
theory AlertEvalProofs
  imports AlertEval
begin

text \<open>
  What an evaluation reads: the rows after its watermark, page by page, each row once, until the newest or the limit of
  one run. The contract between a table and the loop that pages through it is the locale \<open>paged\<close>, interpreted for
  the events and for the changed detections.
\<close>

section \<open>Paging through a table\<close>

fun pages :: "('m \<Rightarrow> 'r list) \<Rightarrow> ('r \<Rightarrow> 'm) \<Rightarrow> nat \<Rightarrow> nat \<Rightarrow> 'm \<Rightarrow> 'r list list" where
  "pages after mark psize 0 m = []"
| "pages after mark psize (Suc k) m =
     (let rows = take psize (after m)
      in if rows = [] then [] else rows # pages after mark psize k (mark (last rows)))"

definition end_mark :: "('r \<Rightarrow> 'm) \<Rightarrow> 'r list list \<Rightarrow> 'm \<Rightarrow> 'm" where
  "end_mark mark pgs m = fold (\<lambda>rows _. mark (last rows)) pgs m"

text \<open>The rows of a well-formed table after a mark, and the mark of a row: reading on from the last row of a page gives
  the rest.\<close>

locale paged =
  fixes table_ok :: "'t \<Rightarrow> bool" and rows_after :: "'t \<Rightarrow> 'm \<Rightarrow> 'r list" and mark :: "'r \<Rightarrow> 'm" and psize :: nat
  assumes psize_pos: "0 < psize"
    and resume: "table_ok t \<Longrightarrow> rows_after t m \<noteq> [] \<Longrightarrow>
      rows_after t (mark (last (take psize (rows_after t m)))) = drop psize (rows_after t m)"
begin

lemma page_empty [simp]: "take psize (rows_after t m) = [] \<longleftrightarrow> rows_after t m = []"
  using psize_pos by simp

text \<open>The pages are the first rows after the mark, each once.\<close>

lemma pages_concat: "table_ok t \<Longrightarrow> concat (pages (rows_after t) mark psize k m) = take (k * psize) (rows_after t m)"
proof (induction k arbitrary: m)
  case 0
  then show ?case by simp
next
  case (Suc k)
  show ?case
  proof (cases "rows_after t m = []")
    case True
    then show ?thesis by simp
  next
    case False
    then have "concat (pages (rows_after t) mark psize (Suc k) m) =
        take psize (rows_after t m) @ take (k * psize) (drop psize (rows_after t m))"
      using Suc.IH [OF Suc.prems, of "mark (last (take psize (rows_after t m)))"] resume [OF Suc.prems False]
      by (simp add: Let_def)
    also have "\<dots> = take (Suc k * psize) (rows_after t m)" by (simp add: take_add add.commute)
    finally show ?thesis .
  qed
qed

text \<open>The mark after them leaves the rest.\<close>

lemma pages_rest:
  "table_ok t \<Longrightarrow> rows_after t (end_mark mark (pages (rows_after t) mark psize k m) m) = drop (k * psize) (rows_after t m)"
proof (induction k arbitrary: m)
  case 0
  then show ?case by (simp add: end_mark_def)
next
  case (Suc k)
  show ?case
  proof (cases "rows_after t m = []")
    case True
    then show ?thesis by (simp add: end_mark_def)
  next
    case False
    then have "rows_after t (end_mark mark (pages (rows_after t) mark psize (Suc k) m) m) =
        drop (k * psize) (drop psize (rows_after t m))"
      using Suc.IH [OF Suc.prems, of "mark (last (take psize (rows_after t m)))"] resume [OF Suc.prems False]
      by (simp add: Let_def end_mark_def)
    then show ?thesis by (simp add: add.commute)
  qed
qed

lemma page_rows: "rows \<in> set (pages (rows_after t) mark psize k m) \<Longrightarrow> rows \<noteq> []"
  by (induction k arbitrary: m) (auto simp: Let_def split: if_splits)

lemma pages_done:
  "table_ok t \<Longrightarrow> length (rows_after t m) \<le> k * psize \<Longrightarrow>
     rows_after t (end_mark mark (pages (rows_after t) mark psize k m) m) = []"
  by (simp add: pages_rest)

lemma end_mark_last:
  assumes "table_ok t"
  shows "end_mark mark (pages (rows_after t) mark psize k m) m =
     (if take (k * psize) (rows_after t m) = [] then m else mark (last (take (k * psize) (rows_after t m))))"
proof -
  have "end_mark mark ps m = (if concat ps = [] then m else mark (last (concat ps)))"
    if "\<forall>rows \<in> set ps. rows \<noteq> []" for ps
    using that by (induction ps rule: rev_induct) (auto simp: end_mark_def)
  from this [of "pages (rows_after t) mark psize k m"] page_rows show ?thesis
    unfolding pages_concat [OF assms] by blast
qed

end

section \<open>Events and detections are paged\<close>

lemma take_resume:
  assumes "sorted_wrt lt xs" "0 < n" "xs \<noteq> []" "\<And>x y. x \<in> set xs \<Longrightarrow> lt x y \<Longrightarrow> \<not> lt y x" "\<And>x. \<not> lt x x"
    "\<And>x y z. lt x y \<Longrightarrow> lt y z \<Longrightarrow> lt x z"
  shows "filter (lt (last (take n xs))) xs = drop n xs"
proof -
  let ?l = "last (take n xs)"
  have t: "take n xs \<noteq> []" using assms(2,3) by simp
  have xs: "xs = take n xs @ drop n xs" by simp
  have s: "sorted_wrt lt (take n xs @ drop n xs)" using assms(1) by simp
  have "lt ?l y" if "y \<in> set (drop n xs)" for y
    using s t that by (simp only: sorted_wrt_append) auto
  moreover have "\<not> lt ?l y" if y: "y \<in> set (take n xs)" for y
  proof (cases "y = ?l")
    case True
    then show ?thesis using assms(5) by simp
  next
    case False
    have "take n xs = butlast (take n xs) @ [?l]" using t by simp
    then have "sorted_wrt lt (butlast (take n xs) @ [?l])" using s by (metis sorted_wrt_append)
    moreover have "y \<in> set (butlast (take n xs))"
      using y False t by (metis append_butlast_last_id in_set_conv_decomp insertE list.simps(15) rotate1.simps(2) set_rotate1)
    ultimately have "lt y ?l" by (simp add: sorted_wrt_append)
    then show ?thesis using assms(4) y by (meson in_set_takeD)
  qed
  ultimately have "filter (lt ?l) (take n xs @ drop n xs) = drop n xs" unfolding filter_append by (simp add: filter_id_conv filter_empty_conv)
  then show ?thesis by simp
qed

text \<open>Ids are unique; for detections, ids are unique among those of one stamp.\<close>

lemma sorted_ids:
  assumes "distinct (map f xs)"
  shows "sorted_wrt (\<lambda>x y. f x < (f y :: int)) (sort_key f xs)"
proof -
  have "sorted (map f (sort_key f xs))" by simp
  moreover have "distinct (map f (sort_key f xs))"
  proof -
    have "mset (map f (sort_key f xs)) = mset (map f xs)" by simp
    then show ?thesis using assms by (metis mset_eq_imp_distinct_iff)
  qed
  ultimately have "sorted_wrt (<) (map f (sort_key f xs))" using strict_sorted_iff by blast
  then show ?thesis by (simp add: sorted_wrt_map)
qed

lemma events_resume:
  assumes ids: "distinct (map ne_id events)" and pos: "0 < k" and some: "after_id n events \<noteq> []"
  shows "after_id (ne_id (last (take k (after_id n events)))) events = drop k (after_id n events)"
proof -
  define l where "l = last (take k (after_id n events))"
  have sorted: "sorted_wrt (\<lambda>x y. ne_id x < ne_id y) (after_id n events)"
    unfolding after_id_def using sorted_ids [OF ids] by (rule sorted_wrt_filter)
  have "l \<in> set (after_id n events)" unfolding l_def by (rule in_set_takeD [of _ k]) (use some pos in simp)
  then have l: "n < ne_id l" by (simp add: after_id_def)
  have "after_id (ne_id l) events = filter (\<lambda>y. ne_id l < ne_id y) (after_id n events)"
    unfolding after_id_def filter_filter using l by (intro filter_cong) auto
  also have "\<dots> = drop k (after_id n events)" unfolding l_def by (rule take_resume [OF sorted pos some]) auto
  finally show ?thesis by (simp only: l_def)
qed

definition change_lt :: "detection_row \<Rightarrow> detection_row \<Rightarrow> bool" where
  "change_lt x y = changed_after (change_mark x) y"

lemma change_lt_iff: "change_lt x y \<longleftrightarrow> dx_updated_at x < dx_updated_at y \<or> (dx_updated_at x = dx_updated_at y \<and> dx_id x < dx_id y)"
  by (auto simp: change_lt_def changed_after_def change_mark_def)

lemma sorted_change:
  assumes "distinct (map dx_id rows)"
  shows "sorted_wrt change_lt (by_change rows)"
proof -
  let ?ids = "sort_key dx_id rows"
  have ids: "sorted_wrt (\<lambda>x y. dx_id x < dx_id y) ?ids" by (rule sorted_ids [OF assms])
  have "sorted_wrt change_lt (sort_key dx_updated_at xs)" if "sorted_wrt (\<lambda>x y. dx_id x < dx_id y) xs" for xs
    using that
  proof (induction xs)
    case Nil
    then show ?case by simp
  next
    case (Cons x xs)
    have "sorted_wrt change_lt (insort_key dx_updated_at x ys)"
      if "sorted_wrt change_lt ys" "\<forall>y \<in> set ys. dx_id x < dx_id y" for ys
      using that
    proof (induction ys)
      case Nil
      then show ?case by simp
    next
      case (Cons y ys)
      show ?case
      proof (cases "dx_updated_at x \<le> dx_updated_at y")
        case True
        then have xy: "change_lt x y" using Cons.prems(2) by (auto simp: change_lt_iff order.order_iff_strict)
        have "change_lt x z" if "z \<in> set ys" for z
        proof -
          have "change_lt y z" using Cons.prems(1) that by simp
          then show ?thesis using xy by (auto simp: change_lt_iff)
        qed
        then show ?thesis using True xy Cons.prems(1) by simp
      next
        case False
        then have "change_lt y x" by (auto simp: change_lt_iff)
        then show ?thesis using False Cons by (auto simp: set_insort_key)
      qed
    qed
    then show ?case using Cons by simp
  qed
  then show ?thesis unfolding by_change_def using ids by blast
qed

definition changes_after :: "detection_row list \<Rightarrow> string \<times> int \<Rightarrow> detection_row list" where
  "changes_after rows m = filter (changed_after m) (by_change rows)"

lemma changes_resume:
  assumes ids: "distinct (map dx_id rows)" and pos: "0 < k" and some: "changes_after rows m \<noteq> []"
  shows "changes_after rows (change_mark (last (take k (changes_after rows m)))) = drop k (changes_after rows m)"
proof -
  define l where "l = last (take k (changes_after rows m))"
  have sorted: "sorted_wrt change_lt (changes_after rows m)"
    unfolding changes_after_def using sorted_change [OF ids] by (rule sorted_wrt_filter)
  have "l \<in> set (changes_after rows m)" unfolding l_def by (rule in_set_takeD [of _ k]) (use some pos in simp)
  then have l: "changed_after m l" by (simp add: changes_after_def)
  have "changes_after rows (change_mark l) = filter (change_lt l) (changes_after rows m)"
    unfolding changes_after_def filter_filter change_lt_def
    using l by (intro filter_cong) (auto simp: changed_after_def change_mark_def)
  also have "\<dots> = drop k (changes_after rows m)"
    unfolding l_def by (rule take_resume [OF sorted pos some]) (auto simp: change_lt_iff)
  finally show ?thesis by (simp only: l_def)
qed

definition event_table_ok :: "new_event list \<Rightarrow> bool" where
  "event_table_ok events \<longleftrightarrow> distinct (map ne_id events)"

definition detection_table_ok :: "detection_row list \<Rightarrow> bool" where
  "detection_table_ok rows \<longleftrightarrow> distinct (map dx_id rows)"

interpretation ev: paged event_table_ok "\<lambda>events n. after_id n events" ne_id EVENT_BATCH
  by unfold_locales (simp_all add: EVENT_BATCH_def event_table_ok_def events_resume)

interpretation ch: paged detection_table_ok changes_after change_mark DETECTION_BATCH
  by unfold_locales (simp_all add: DETECTION_BATCH_def detection_table_ok_def changes_resume)

section \<open>The runs\<close>

text \<open>What one page of events records, on its own.\<close>

fun batch_triggers :: "eval_env \<Rightarrow> time \<Rightarrow> event_fact list \<Rightarrow> event_rule list \<Rightarrow>
    eval_error + (rule_base \<times> grouped_trigger list) list" where
  "batch_triggers env now facts [] = Inr []"
| "batch_triggers env now facts (r # rs) =
     (case record_event_rule env now facts r (new_recorder env now) of
        Inl e \<Rightarrow> Inl e
      | Inr rc \<Rightarrow> map_sum id (\<lambda>ps. rc_pending rc @ ps) (batch_triggers env now facts rs))"

definition idle :: "eval_env \<Rightarrow> time \<Rightarrow> recorder \<Rightarrow> bool" where
  "idle env now rc \<longleftrightarrow> rc_now rc = now \<and> rc_pce_url rc = ev_pce_url env \<and> rc_org_id rc = ev_org_id env \<and>
     rc_channels rc = ev_channels env \<and> rc_pending rc = [] \<and> rc_seen rc = []"

lemma record_event_rule_shift:
  "record_event_rule env now facts r rc =
     map_sum id (\<lambda>rc0. rc\<lparr> rc_pending := rc_pending rc @ rc_pending rc0 \<rparr>) (record_event_rule env now facts r (new_recorder env now))"
  by (auto simp: record_event_rule_def Let_def record_triggers_def new_recorder_def split: sum.split)

lemma record_event_rules_shift:
  "record_event_rules env now facts rs rc =
     map_sum id (\<lambda>ps. rc\<lparr> rc_pending := rc_pending rc @ ps \<rparr>) (batch_triggers env now facts rs)"
proof (induction rs arbitrary: rc)
  case Nil
  then show ?case by simp
next
  case (Cons r rs)
  show ?case
    by (cases "record_event_rule env now facts r (new_recorder env now)")
      (simp_all add: record_event_rule_shift [of env now facts r rc] Cons sum.map_comp o_def)
qed

text \<open>The change that one page makes to the database: its commit with a fresh recorder.\<close>

definition events_committed :: "eval_env \<Rightarrow> time \<Rightarrow> time option \<Rightarrow> new_event list \<Rightarrow> alert_db \<Rightarrow> alert_db" where
  "events_committed env now since rows =
     committed ((new_recorder env now)\<lparr> rc_pending := projr (batch_triggers env now (facts_of since rows) (event_rules env)) \<rparr>,
       SOURCE_EVENTS, Some (IdMark (ne_id (last rows))))"

lemma commit_db:
  assumes "commit rc False source mark db = Some (rc', db')"
    and "rc_now rc = rc_now rc0" "rc_pce_url rc = rc_pce_url rc0" "rc_org_id rc = rc_org_id rc0"
    "rc_channels rc = rc_channels rc0" "rc_pending rc = rc_pending rc0" "rc_seen rc = rc_seen rc0"
  shows "db' = committed (rc0, source, mark) db"
proof -
  have "commit_trigger rc = commit_trigger rc0"
    by (intro ext) (simp add: commit_trigger_def Let_def assms(2-5))
  then have "commit_pending rc db = commit_pending rc0 db" by (simp add: commit_pending_def assms(6))
  then show ?thesis using assms(1) by (cases mark) (auto simp: commit_def Let_def assms(3,4,7))
qed

lemma commit_idle:
  assumes "commit (rc\<lparr> rc_pending := ps, rc_seen := seen \<rparr>) stale source mark db = Some (rc', db')" "idle env now rc"
  shows "idle env now rc'"
  using assms by (auto simp: commit_def Let_def idle_def split: if_splits)

lemma events_after_rows:
  "fst (events_after env n k) = take k (after_id n (ev_events env))"
  "snd (events_after env n k) \<longleftrightarrow> k < length (after_id n (ev_events env))"
  by (auto simp: events_after_def Let_def)

abbreviation event_pages :: "eval_env \<Rightarrow> nat \<Rightarrow> int \<Rightarrow> new_event list list" where
  "event_pages env k n \<equiv> pages (\<lambda>n. after_id n (ev_events env)) ne_id EVENT_BATCH k n"

lemma event_batches_pages:
  assumes fresh: "\<forall>k. \<not> ev_stale env k" and ids: "event_table_ok (ev_events env)"
  shows "event_batches left env now since n rc run k db = (Inr run', db') \<Longrightarrow> idle env now rc \<Longrightarrow>
    db' = fold (events_committed env now since) (event_pages env left n) db \<and>
    el_evaluated run' = el_evaluated run + length (concat (map (facts_of since) (event_pages env left n)))"
proof (induction left arbitrary: n rc run k db)
  case 0
  then show ?case by (auto simp: finished_def)
next
  case (Suc left)
  let ?rows = "take EVENT_BATCH (after_id n (ev_events env))"
  have ev: "events_after env n EVENT_BATCH = (?rows, EVENT_BATCH < length (after_id n (ev_events env)))"
    using events_after_rows [of env n EVENT_BATCH] by (simp add: prod_eq_iff)
  show ?case
  proof (cases "?rows = []")
    case True
    then show ?thesis using Suc.prems(1) by (auto simp: ev finished_def)
  next
    case some: False
    let ?facts = "facts_of since ?rows"
    obtain ps where ps: "batch_triggers env now ?facts (event_rules env) = Inr ps"
      using Suc.prems(1) some
      by (cases "batch_triggers env now ?facts (event_rules env)") (auto simp: ev Let_def record_event_rules_shift)
    let ?rc1 = "rc\<lparr> rc_pending := rc_pending rc @ ps \<rparr>" and ?n = "ne_id (last ?rows)"
    obtain rc2 db2 where c: "commit ?rc1 False SOURCE_EVENTS (Some (IdMark ?n)) db = Some (rc2, db2)"
      by (simp add: commit_def Let_def)
    have rc1: "?rc1 = rc\<lparr> rc_pending := ps, rc_seen := [] \<rparr>" using Suc.prems(2) by (simp add: idle_def)
    have idle: "idle env now rc2" by (rule commit_idle [OF c [unfolded rc1] Suc.prems(2)])
    have db2: "db2 = events_committed env now since ?rows db"
      unfolding events_committed_def
      by (rule commit_db [OF c]) (use Suc.prems(2) in \<open>simp_all add: idle_def new_recorder_def ps\<close>)
    let ?run = "run\<lparr> el_evaluated := el_evaluated run + length ?facts \<rparr>"
    have step: "event_batches (Suc left) env now since n rc run k db =
        (if EVENT_BATCH < length (after_id n (ev_events env)) then event_batches left env now since ?n rc2 ?run (Suc k) db2
         else (Inr (finished ?run rc2), db2))"
      using some fresh ps c by (simp add: ev Let_def record_event_rules_shift)
    have pg: "event_pages env (Suc left) n = ?rows # event_pages env left ?n" using some by (simp add: Let_def)
    show ?thesis
    proof (cases "EVENT_BATCH < length (after_id n (ev_events env))")
      case True
      then have "event_batches left env now since ?n rc2 ?run (Suc k) db2 = (Inr run', db')" using Suc.prems(1) step by simp
      from Suc.IH [OF this idle] show ?thesis unfolding pg db2 by simp
    next
      case False
      have "after_id ?n (ev_events env) = drop EVENT_BATCH (after_id n (ev_events env))"
        using some by (intro ev.resume [OF ids]) auto
      then have none: "after_id ?n (ev_events env) = []" using False by simp
      have "event_pages env left ?n = []" using none by (cases left) simp_all
      then have "event_pages env (Suc left) n = [?rows]" using pg by simp
      moreover have "(Inr (finished ?run rc2), db2) = (Inr run' :: eval_error + eval_run, db')"
        unfolding Suc.prems(1) [symmetric] step using False by (simp only: if_False)
      ultimately show ?thesis by (auto simp: db2 finished_def)
    qed
  qed
qed

lemma committed_mark:
  "eval_watermark (committed (rc, source, Some m) db) source (rc_pce_url rc) (rc_org_id rc) = Some m"
  by (simp add: commit_def Let_def eval_watermark_def set_eval_watermark_def dict_simps)

lemma events_committed_mark:
  "watermark_of env SOURCE_EVENTS (events_committed env now since rows db) = Some (IdMark (ne_id (last rows)))"
  using committed_mark [of "(new_recorder env now)\<lparr> rc_pending := projr (batch_triggers env now (facts_of since rows) (event_rules env)) \<rparr>"]
  by (simp add: watermark_of_def events_committed_def new_recorder_def)

lemma events_pages_mark:
  assumes "watermark_of env SOURCE_EVENTS db = Some (IdMark n)"
  shows "watermark_of env SOURCE_EVENTS (fold (events_committed env now since) pgs db) = Some (IdMark (end_mark ne_id pgs n))"
  using assms by (induction pgs rule: rev_induct) (simp_all add: end_mark_def events_committed_mark)

text \<open>What lies between two marks: the rows the first leaves and the second does not.\<close>

lemma between_marks:
  assumes "distinct xs" "set (drop k xs) = {x \<in> set xs. P x}"
  shows "set (take k xs) = {x \<in> set xs. \<not> P x}"
proof -
  have "distinct (take k xs @ drop k xs)" using assms(1) by simp
  then have "set (take k xs) \<inter> set (drop k xs) = {}" by (simp only: distinct_append)
  moreover have "set xs = set (take k xs) \<union> set (drop k xs)" by (metis append_take_drop_id set_append)
  ultimately have "set (take k xs) = set xs - set (drop k xs)" by blast
  then show ?thesis unfolding assms(2) by blast
qed

lemma after_id_set: "set (after_id n events) = {e \<in> set events. n < ne_id e \<and> ne_ingest e}"
  by (auto simp: after_id_def)

lemma after_id_distinct: "event_table_ok events \<Longrightarrow> distinct (after_id n events)"
  by (auto simp: after_id_def event_table_ok_def distinct_map intro: distinct_filter)

text \<open>C12. An evaluation of the events after a watermark evaluates each collected event once, in the order they were
  stored: the pages it commits are the events after the watermark, up to 50,000 of them, it counts them all, and it
  leaves the watermark so that they are exactly those between the old and the new one; when no more were
  waiting, none is after it. The result is that of committing page after page what the rules say of each.\<close>

theorem events_evaluated_once:
  assumes "watermark_of env SOURCE_EVENTS db = Some (IdMark n)" "event_table_ok (ev_events env)"
    and "\<forall>k. \<not> ev_stale env k" "evaluate_events env now db = (Inr run, db')"
  shows "db' = fold (events_committed env now None) (event_pages env EVENT_BATCHES n) db
    \<and> concat (event_pages env EVENT_BATCHES n) = take (EVENT_BATCHES * EVENT_BATCH) (after_id n (ev_events env))
    \<and> el_evaluated run = length (concat (event_pages env EVENT_BATCHES n))
    \<and> (\<exists>n'. watermark_of env SOURCE_EVENTS db' = Some (IdMark n')
         \<and> set (concat (event_pages env EVENT_BATCHES n)) = {e \<in> set (ev_events env). ne_ingest e \<and> n < ne_id e \<and> ne_id e \<le> n'}
         \<and> (length (after_id n (ev_events env)) \<le> EVENT_BATCHES * EVENT_BATCH \<longrightarrow> after_id n' (ev_events env) = []))"
proof -
  let ?all = "after_id n (ev_events env)" and ?pgs = "event_pages env EVENT_BATCHES n"
  have "event_batches EVENT_BATCHES env now None n (new_recorder env now) (new_eval_run SOURCE_EVENTS) 0 db = (Inr run, db')"
    using assms(1,4) by (simp add: evaluate_events_def Let_def)
  moreover have "idle env now (new_recorder env now)" by (simp add: idle_def new_recorder_def)
  ultimately have r: "db' = fold (events_committed env now None) ?pgs db"
    "el_evaluated run = length (concat (map (facts_of None) ?pgs))"
    using event_batches_pages [OF assms(3,2)] by (auto simp: new_eval_run_def)
  have "length (concat (map (facts_of None) ps)) = length (concat ps)" for ps
    by (induction ps) (simp_all add: facts_of_def)
  then have count: "el_evaluated run = length (concat ?pgs)" using r(2) by simp
  have cat: "concat ?pgs = take (EVENT_BATCHES * EVENT_BATCH) ?all" by (rule ev.pages_concat [OF assms(2)])
  define n' where "n' = end_mark ne_id ?pgs n"
  have mark: "watermark_of env SOURCE_EVENTS db' = Some (IdMark n')"
    unfolding r(1) n'_def by (rule events_pages_mark [OF assms(1)])
  have rest: "after_id n' (ev_events env) = drop (EVENT_BATCHES * EVENT_BATCH) ?all"
    unfolding n'_def by (rule ev.pages_rest [OF assms(2)])
  have "n \<le> n'"
  proof (cases "take (EVENT_BATCHES * EVENT_BATCH) ?all = []")
    case True
    then show ?thesis unfolding n'_def ev.end_mark_last [OF assms(2)] by simp
  next
    case False
    then have "last (take (EVENT_BATCHES * EVENT_BATCH) ?all) \<in> set ?all" by (meson in_set_takeD last_in_set)
    then show ?thesis unfolding n'_def ev.end_mark_last [OF assms(2)] using False by (simp add: after_id_set)
  qed
  then have "set (drop (EVENT_BATCHES * EVENT_BATCH) ?all) = {e \<in> set ?all. n' < ne_id e}"
    unfolding rest [symmetric] after_id_set by auto
  from between_marks [OF after_id_distinct [OF assms(2)] this]
  have "set (concat ?pgs) = {e \<in> set ?all. \<not> n' < ne_id e}" by (simp only: cat)
  also have "\<dots> = {e \<in> set (ev_events env). ne_ingest e \<and> n < ne_id e \<and> ne_id e \<le> n'}"
    unfolding after_id_set by (rule Collect_cong) auto
  finally have "set (concat ?pgs) = {e \<in> set (ev_events env). ne_ingest e \<and> n < ne_id e \<and> ne_id e \<le> n'}" .
  moreover have "length ?all \<le> EVENT_BATCHES * EVENT_BATCH \<longrightarrow> after_id n' (ev_events env) = []" by (simp add: rest)
  ultimately show ?thesis using r(1) cat count mark by blast
qed

section \<open>Changed detections\<close>

definition lateral_committed :: "eval_env \<Rightarrow> time \<Rightarrow> string \<times> int \<Rightarrow> detection_row list \<Rightarrow> alert_db \<Rightarrow> alert_db" where
  "lateral_committed env now start changed db =
     committed (projr (record_lateral_rules env start changed db (lateral_rules env) (new_recorder env now)), SOURCE_LATERAL,
       Some (UpdateMark (fst (change_mark (last changed))) (snd (change_mark (last changed))))) db"

definition same_recorder :: "recorder \<Rightarrow> recorder \<Rightarrow> bool" where
  "same_recorder rc rc0 \<longleftrightarrow> rc_now rc = rc_now rc0 \<and> rc_pce_url rc = rc_pce_url rc0 \<and> rc_org_id rc = rc_org_id rc0 \<and>
     rc_channels rc = rc_channels rc0 \<and> rc_pending rc = rc_pending rc0 \<and> rc_seen rc = rc_seen rc0"

text \<open>The counts of a recorder do not matter for what is recorded.\<close>

lemma lateral_rules_same:
  assumes "same_recorder rc rc0"
  shows "(\<exists>e. record_lateral_rules env start changed db rs rc = Inl e \<and> record_lateral_rules env start changed db rs rc0 = Inl e) \<or>
    (\<exists>rc' rc0'. record_lateral_rules env start changed db rs rc = Inr rc' \<and>
       record_lateral_rules env start changed db rs rc0 = Inr rc0' \<and> same_recorder rc' rc0')"
  using assms
proof (induction rs arbitrary: rc rc0)
  case Nil
  then show ?case by simp
next
  case (Cons r rs)
  let ?rows = "filter (\<lambda>r. dx_detector r \<in> wanted_detectors env) changed"
  show ?case
  proof (cases "try_map (lateral_fact env start r db) ?rows")
    case (Inl e)
    then show ?thesis by (simp add: record_lateral_rule_def Let_def)
  next
    case (Inr facts)
    define ts where "ts = apply_known (evaluate_lateral_rule r facts (ev_ip_lists env) (ev_label_groups env)) (ev_known env)"
    define f where "f = (\<lambda>rc. record_triggers (rule_base.truncate r) ts (rc\<lparr> rc_seen := rc_seen rc @ seen_rows r ?rows \<rparr>))"
    have "same_recorder (f rc) (f rc0)" using Cons.prems by (simp add: f_def record_triggers_def same_recorder_def)
    moreover have "record_lateral_rule env start changed db r rc = Inr (f rc)" for rc
      using Inr by (simp add: record_lateral_rule_def Let_def f_def ts_def)
    ultimately show ?thesis using Cons.IH [of "f rc" "f rc0"] by simp
  qed
qed

lemma detections_changed: "detections_changed_since env m k = take k (changes_after (ev_detections env) m)"
  by (simp add: detections_changed_since_def changes_after_def)

abbreviation detection_pages :: "eval_env \<Rightarrow> nat \<Rightarrow> string \<times> int \<Rightarrow> detection_row list list" where
  "detection_pages env k m \<equiv> pages (changes_after (ev_detections env)) change_mark DETECTION_BATCH k m"

lemma idle_same: "idle env now rc \<longleftrightarrow> same_recorder rc (new_recorder env now)"
  by (auto simp: idle_def same_recorder_def new_recorder_def)

lemma commit_same:
  assumes "commit rc False source mark db = Some (rc', db')" "same_recorder rc rc0"
  shows "db' = committed (rc0, source, mark) db"
  using commit_db [OF assms(1)] assms(2) by (simp add: same_recorder_def)

lemma recorded_kept:
  "record_lateral_rules env start changed db rs rc = Inr rc' \<Longrightarrow>
     rc_now rc' = rc_now rc \<and> rc_pce_url rc' = rc_pce_url rc \<and> rc_org_id rc' = rc_org_id rc \<and> rc_channels rc' = rc_channels rc"
proof (induction rs arbitrary: rc)
  case Nil
  then show ?case by simp
next
  case (Cons r rs)
  obtain rc1 where one: "record_lateral_rule env start changed db r rc = Inr rc1"
    using Cons.prems by (cases "record_lateral_rule env start changed db r rc") auto
  then have "record_lateral_rules env start changed db rs rc1 = Inr rc'" using Cons.prems by simp
  from Cons.IH [OF this] one show ?case
    by (auto simp: record_lateral_rule_def Let_def record_triggers_def split: sum.splits if_splits)
qed

definition at_change :: "eval_env \<Rightarrow> alert_db \<Rightarrow> string \<times> int \<Rightarrow> bool" where
  "at_change env db m \<longleftrightarrow> watermark_of env SOURCE_LATERAL db = Some (UpdateMark (fst m) (snd m))"

lemma commit_mark:
  "commit rc False source (Some m) db = Some (rc', db') \<Longrightarrow> eval_watermark db' source (rc_pce_url rc) (rc_org_id rc) = Some m"
  by (auto simp: commit_def Let_def eval_watermark_def set_eval_watermark_def dict_simps)

lemma lateral_batches_pages:
  assumes fresh: "\<forall>k. \<not> ev_stale env k" and ids: "detection_table_ok (ev_detections env)"
  shows "lateral_batches left env start m rc run k db = (Inr run', db') \<Longrightarrow> idle env now rc \<Longrightarrow>
    at_change env db m \<Longrightarrow> at_change env db' (end_mark change_mark (detection_pages env left m) m) \<and>
    db' = fold (lateral_committed env now start) (detection_pages env left m) db \<and>
    el_evaluated run' = el_evaluated run + length (concat (detection_pages env left m))"
proof (induction left arbitrary: m rc run k db)
  case 0
  then show ?case by (auto simp: finished_def end_mark_def)
next
  case (Suc left)
  let ?all = "changes_after (ev_detections env) m"
  let ?rows = "take DETECTION_BATCH ?all"
  have ch: "detections_changed_since env m DETECTION_BATCH = ?rows" by (rule detections_changed)
  show ?case
  proof (cases "?rows = []")
    case True
    then show ?thesis using Suc.prems by (auto simp: ch finished_def end_mark_def)
  next
    case some: False
    obtain rc1 where rc1: "record_lateral_rules env start ?rows db (lateral_rules env) rc = Inr rc1"
      using Suc.prems(1) some
      by (cases "record_lateral_rules env start ?rows db (lateral_rules env) rc") (auto simp: ch Let_def)
    obtain rc10 where rc10: "record_lateral_rules env start ?rows db (lateral_rules env) (new_recorder env now) = Inr rc10"
      "same_recorder rc1 rc10"
      using lateral_rules_same [of rc "new_recorder env now" env start ?rows db "lateral_rules env"] Suc.prems(2) rc1
      by (auto simp: idle_same)
    let ?m = "change_mark (last ?rows)"
    obtain rc2 db2 where c: "commit rc1 False SOURCE_LATERAL (Some (UpdateMark (fst ?m) (snd ?m))) db = Some (rc2, db2)"
      by (simp add: commit_def Let_def)
    have "rc1 = rc1\<lparr> rc_pending := rc_pending rc1, rc_seen := rc_seen rc1 \<rparr>" by simp
    then have idle: "idle env now rc2"
      using c recorded_kept [OF rc1] Suc.prems(2) by (auto simp: commit_def Let_def idle_def)
    have db2: "db2 = lateral_committed env now start ?rows db"
      unfolding lateral_committed_def rc10(1) sum.sel by (rule commit_same [OF c rc10(2)])
    have at: "at_change env db2 ?m"
      using commit_mark [OF c] recorded_kept [OF rc1] Suc.prems(2) by (simp add: at_change_def watermark_of_def idle_def)
    let ?run = "run\<lparr> el_evaluated := el_evaluated run + length ?rows \<rparr>"
    have step: "lateral_batches (Suc left) env start m rc run k db =
        (if length ?rows < DETECTION_BATCH then (Inr (finished ?run rc2), db2)
         else lateral_batches left env start ?m rc2 ?run (Suc k) db2)"
      using some fresh rc1 c by (simp add: ch Let_def)
    have pg: "detection_pages env (Suc left) m = ?rows # detection_pages env left ?m" using some by (simp add: Let_def)
    show ?thesis
    proof (cases "length ?rows < DETECTION_BATCH")
      case False
      then have "lateral_batches left env start ?m rc2 ?run (Suc k) db2 = (Inr run', db')" using Suc.prems(1) step by simp
      note ih = Suc.IH [OF this idle at]
      have em: "end_mark change_mark (?rows # ps) m = end_mark change_mark ps ?m" for ps by (simp add: end_mark_def)
      show ?thesis unfolding pg em
      proof (intro conjI)
        show "at_change env db' (end_mark change_mark (detection_pages env left ?m) ?m)" using ih by blast
        show "db' = fold (lateral_committed env now start) (?rows # detection_pages env left ?m) db"
          using ih unfolding db2 by simp
        show "el_evaluated run' = el_evaluated run + length (concat (?rows # detection_pages env left ?m))"
          using conjunct2 [OF conjunct2 [OF ih]] by simp
      qed
    next
      case True
      have "changes_after (ev_detections env) ?m = drop DETECTION_BATCH ?all"
        using some by (intro ch.resume [OF ids]) auto
      then have none: "changes_after (ev_detections env) ?m = []" using True by simp
      have "detection_pages env left ?m = []" using none by (cases left) simp_all
      then have "detection_pages env (Suc left) m = [?rows]" using pg by simp
      moreover have "(Inr (finished ?run rc2), db2) = (Inr run' :: eval_error + eval_run, db')"
        unfolding Suc.prems(1) [symmetric] step using True by (simp only: if_True)
      ultimately show ?thesis using at by (auto simp: db2 finished_def end_mark_def)
    qed
  qed
qed

text \<open>C13. An evaluation of the detections changed after a watermark evaluates each of them once, in the order of their
  changes, up to 50,000: the pages it commits are the first ones after the watermark, it counts them all, and when no
  more were waiting none is after the watermark it leaves. Detections that one analysis run stamped alike are told apart
  by their ids, so a page that ends among them goes on where it stopped.\<close>

theorem detections_evaluated_once:
  assumes "watermark_of env SOURCE_LATERAL db = Some (UpdateMark stamp i)" "detection_table_ok (ev_detections env)"
    and "\<forall>k. \<not> ev_stale env k" "evaluate_lateral env now db = (Inr run, db')"
  shows "db' = fold (lateral_committed env now (stamp, i)) (detection_pages env DETECTION_BATCHES (stamp, i)) db
    \<and> concat (detection_pages env DETECTION_BATCHES (stamp, i)) =
        take (DETECTION_BATCHES * DETECTION_BATCH) (changes_after (ev_detections env) (stamp, i))
    \<and> el_evaluated run = length (concat (detection_pages env DETECTION_BATCHES (stamp, i)))
    \<and> (\<exists>m. watermark_of env SOURCE_LATERAL db' = Some (UpdateMark (fst m) (snd m))
         \<and> changes_after (ev_detections env) m =
             drop (DETECTION_BATCHES * DETECTION_BATCH) (changes_after (ev_detections env) (stamp, i)))"
proof -
  let ?pgs = "detection_pages env DETECTION_BATCHES (stamp, i)"
  have "lateral_batches DETECTION_BATCHES env (stamp, i) (stamp, i) (new_recorder env now) (new_eval_run SOURCE_LATERAL) 0 db
      = (Inr run, db')"
    using assms(1,4) by (simp add: evaluate_lateral_def Let_def)
  moreover have "idle env now (new_recorder env now)" by (simp add: idle_def new_recorder_def)
  moreover have "at_change env db (stamp, i)" using assms(1) by (simp add: at_change_def)
  ultimately have r: "at_change env db' (end_mark change_mark ?pgs (stamp, i))"
    "db' = fold (lateral_committed env now (stamp, i)) ?pgs db" "el_evaluated run = length (concat ?pgs)"
    using lateral_batches_pages [OF assms(3,2)] by (auto simp: new_eval_run_def)
  show ?thesis
    using r ch.pages_concat [OF assms(2)] ch.pages_rest [OF assms(2)] unfolding at_change_def by blast
qed

section \<open>Example evaluations\<close>

text \<open>Three events, the second from a backfill; two detections of one stamp.\<close>

definition example_detection :: "int \<Rightarrow> detection_row" where
  "example_detection i = \<lparr> dx_id = i, dx_detector = DK_FANOUT, dx_fingerprint = ''f'', dx_subject_key = ''s'',
     dx_severity = SEV_LOW, dx_critical_asset = False, dx_late = False, dx_first_seen = 0, dx_last_seen = 0,
     dx_summary = [], dx_segment = EventEvidence 0 0 [] [], dx_confidence = no_confidence, dx_ends = None,
     dx_created_at = ''b'', dx_updated_at = ''b'' \<rparr>"

definition example_eval_env :: eval_env where
  "example_eval_env = \<lparr> ev_rx = (\<lambda>_ _. None), ev_pce_url = ''pce'', ev_org_id = ''1'',
     ev_rules = [EventRule example_gate_rule], ev_channels = [''smtp''], ev_lightweight = False, ev_collecting = True,
     ev_stale = (\<lambda>_. False), ev_events_collected = True, ev_traffic_collected = True,
     ev_events = map (\<lambda>i. \<lparr> ne_id = i, ne_ingest = (i \<noteq> 2), ne_fact = example_fact ''h'' (minutes i) \<rparr>) [1, 2, 3],
     ev_patterns = [], ev_annotations = [], ev_newest_increment = None,
     ev_totals = (\<lambda>_ _ _ _. \<lparr> if_connections = 0, if_bytes = None, if_bytes_rows = 0, if_rows = 0, if_new_rows = 0,
       if_max_mbps = None, if_top = [], if_gaps = [], if_latency_seconds = None \<rparr>),
     ev_detections = map example_detection [1, 2], ev_names = [], ev_labels = [], ev_ip_lists = [], ev_label_groups = [],
     ev_known = [], ev_max_gap_id = 0,
     ev_system_facts = (\<lambda>n _. (\<lparr> yf_probe = None, yf_sources = [], yf_new_gaps = [], yf_jobs = [],
       yf_disk_free_bytes = None, yf_disk_warn_bytes = None, yf_siem = [] \<rparr>, n)) \<rparr>"

definition example_eval_db :: alert_db where
  "example_eval_db = set_eval_watermark ''events'' (IdMark 0) ''pce'' ''1''
     (set_eval_watermark ''lateral'' (UpdateMark ''a'' 0) ''pce'' ''1'' empty_alert_db)"

lemma example_marks:
  "watermark_of example_eval_env SOURCE_EVENTS example_eval_db = Some (IdMark 0)"
  "watermark_of example_eval_env SOURCE_LATERAL example_eval_db = Some (UpdateMark ''a'' 0)"
  "event_table_ok (ev_events example_eval_env)" "detection_table_ok (ev_detections example_eval_env)"
  "\<forall>k. \<not> ev_stale example_eval_env k"
  by (simp_all add: watermark_of_def eval_watermark_def example_eval_db_def set_eval_watermark_def dict_simps
      SOURCE_EVENTS_def SOURCE_LATERAL_def example_eval_env_def event_table_ok_def detection_table_ok_def
      example_detection_def)

lemma example_events_run:
  "\<exists>run db'. evaluate_events example_eval_env (minutes 5) example_eval_db = (Inr run, db') \<and> el_evaluated run = 2"
proof -
  have "map_sum id el_evaluated (fst (evaluate_events example_eval_env (minutes 5) example_eval_db)) = Inr 2" by code_simp
  then show ?thesis
    by (cases "evaluate_events example_eval_env (minutes 5) example_eval_db"; cases "fst (evaluate_events example_eval_env (minutes 5) example_eval_db)") auto
qed

lemma example_lateral_run:
  "\<exists>run db'. evaluate_lateral example_eval_env (minutes 5) example_eval_db = (Inr run, db')"
proof -
  have "\<not> isl (fst (evaluate_lateral example_eval_env (minutes 5) example_eval_db))" by code_simp
  then show ?thesis
    by (cases "evaluate_lateral example_eval_env (minutes 5) example_eval_db") (auto simp: isl_def split: sum.splits, metis sum.exhaust)
qed

theorem events_evaluated_once_witness:
  "length (concat (event_pages example_eval_env EVENT_BATCHES 0)) = 2"
proof -
  obtain run db' where r: "evaluate_events example_eval_env (minutes 5) example_eval_db = (Inr run, db')" "el_evaluated run = 2"
    using example_events_run by blast
  have "el_evaluated run = length (concat (event_pages example_eval_env EVENT_BATCHES 0))"
    using events_evaluated_once [OF example_marks(1,3,5) r(1)] by blast
  then show ?thesis by (simp only: r(2))
qed

theorem detections_evaluated_once_witness:
  "concat (detection_pages example_eval_env DETECTION_BATCHES (''a'', 0)) = map example_detection [1, 2]"
proof -
  obtain run db' where r: "evaluate_lateral example_eval_env (minutes 5) example_eval_db = (Inr run, db')"
    using example_lateral_run by blast
  have "changes_after (ev_detections example_eval_env) (''a'', 0) = map example_detection [1, 2]" by code_simp
  then show ?thesis
    using detections_evaluated_once [OF example_marks(2,4,5) r] by (simp add: DETECTION_BATCHES_def DETECTION_BATCH_def)
qed

end
