(* ===== verification/SiemDispatch.thy ===== *)
theory SiemDispatch
  imports Complex_Main SiemStore
begin

text \<open>
  \<open>services/siem/dispatch.py\<close> (with \<open>siem/records.py\<close>): one tick of forwarding to the SIEM destinations.
  What the dispatcher talks to is an argument: the record \<open>siem_env\<close> holds the replies of the transports and
  clocks as functions of everything that went before on the wire, so that a statement about every environment
  covers every pattern of failures and delays. A run threads \<open>siem_world\<close>, the database and the wire so far.
  Within one run the source tables stand still; they grow between runs.
\<close>

section \<open>Records, destinations and settings\<close>

datatype record_kind = RK_AUDIT | RK_DETECTION | RK_ALERT | RK_NEW_CONNECTION | RK_TEST

fun record_kind_text :: "record_kind \<Rightarrow> string" where
  "record_kind_text RK_AUDIT = ''audit''"
| "record_kind_text RK_DETECTION = ''detection''"
| "record_kind_text RK_ALERT = ''alert''"
| "record_kind_text RK_NEW_CONNECTION = ''new_connection''"
| "record_kind_text RK_TEST = ''test''"

text \<open>What of a \<open>SiemRecord\<close> the dispatcher reads; the rest of the line is the formatter's business and
  stays in \<open>sr_content\<close>.\<close>

record siem_record =
  sr_kind :: record_kind
  sr_id :: int
  sr_time :: time
  sr_content :: json

definition external_id :: "siem_record \<Rightarrow> string" where
  "external_id r = record_kind_text (sr_kind r) @ '':'' @ str_of_int (sr_id r)"

datatype siem_transport = ST_UDP | ST_TCP | ST_TLS | ST_HEC
datatype siem_format = SF_CEF | SF_JSON | SF_SYSLOG_CEF | SF_SYSLOG_JSON | SF_CEF_PCE | SF_SYSLOG_CEF_PCE
datatype siem_source = SS_AUDIT | SS_FINDINGS | SS_NEW_CONNECTIONS

fun siem_transport_text :: "siem_transport \<Rightarrow> string" where
  "siem_transport_text ST_UDP = ''udp''"
| "siem_transport_text ST_TCP = ''tcp''"
| "siem_transport_text ST_TLS = ''tls''"
| "siem_transport_text ST_HEC = ''hec''"

fun siem_format_text :: "siem_format \<Rightarrow> string" where
  "siem_format_text SF_CEF = ''cef''"
| "siem_format_text SF_JSON = ''json''"
| "siem_format_text SF_SYSLOG_CEF = ''syslog_cef''"
| "siem_format_text SF_SYSLOG_JSON = ''syslog_json''"
| "siem_format_text SF_CEF_PCE = ''cef_pce''"
| "siem_format_text SF_SYSLOG_CEF_PCE = ''syslog_cef_pce''"

fun CURSOR_SOURCES :: "siem_source \<Rightarrow> string list" where
  "CURSOR_SOURCES SS_AUDIT = [''audit'']"
| "CURSOR_SOURCES SS_FINDINGS = [''alerts'', ''detections'']"
| "CURSOR_SOURCES SS_NEW_CONNECTIONS = [''new_connections'']"

record siem_destination =
  sd_id :: string
  sd_name :: string
  sd_enabled :: bool
  sd_transport :: siem_transport
  sd_format :: siem_format
  sd_host :: string
  sd_port :: int
  sd_batch_size :: nat
  sd_max_retries :: int
  sd_sources :: "siem_source list"
  sd_mask_pii :: bool

record siem_settings =
  ss_pce_url :: string
  ss_org_id :: string
  ss_enabled :: bool
  ss_destinations :: "siem_destination list"
  ss_dlq_max_per_dest :: nat
  ss_tick_seconds :: int
  ss_dlq_retention_days :: int

definition cursor_sources :: "siem_destination \<Rightarrow> string list" where
  "cursor_sources dest = concat (map CURSOR_SOURCES (sd_sources dest))"

section \<open>Errors\<close>

text \<open>What an exception is to the dispatcher: an HTTP error with its status, another \<open>OSError\<close> with its
  \<open>errno\<close>, or anything else; its text and the name of its class.\<close>

datatype exn_kind = HttpStatus int | OsErrno "int option" | OtherExn

record exn =
  ex_kind :: exn_kind
  ex_text :: string
  ex_class :: string

definition EMSGSIZE :: int where "EMSGSIZE = 90"

fun is_os_error :: "exn_kind \<Rightarrow> bool" where
  "is_os_error OtherExn = False"
| "is_os_error _ = True"

definition permanent :: "exn \<Rightarrow> bool" where
  "permanent e = (case ex_kind e of
       HttpStatus code \<Rightarrow> 400 \<le> code \<and> code < 500 \<and> code \<notin> {408, 429}
     | OsErrno n \<Rightarrow> n = Some EMSGSIZE
     | OtherExn \<Rightarrow> False)"

definition error_text :: "exn \<Rightarrow> string" where
  "error_text e = (if ex_text e = [] then ex_class e else ex_text e)"

section \<open>The wire and the world\<close>

datatype wire_event =
    Clock
  | Send string "time option" "exn option"
  | Finish "exn option"
  | Close

record siem_env =
  en_clock :: "wire_event list \<Rightarrow> rat"
  en_now :: "wire_event list \<Rightarrow> time"
  en_send :: "wire_event list \<Rightarrow> string \<Rightarrow> time option \<Rightarrow> exn option"
  en_finish :: "wire_event list \<Rightarrow> exn option"
  en_generation :: "wire_event list \<Rightarrow> int"
  en_setup :: "siem_destination \<Rightarrow> exn option"
  en_format :: "siem_destination \<Rightarrow> siem_record \<Rightarrow> exn + string"
  en_repr :: "siem_record \<Rightarrow> string"
  en_table :: "siem_destination \<Rightarrow> string \<Rightarrow> siem_record list"
  en_newest :: "string \<Rightarrow> int"

record siem_world =
  sw_db :: siem_db
  sw_wire :: "wire_event list"

definition on_wire :: "wire_event \<Rightarrow> siem_world \<Rightarrow> siem_world" where
  "on_wire x w = w\<lparr> sw_wire := sw_wire w @ [x] \<rparr>"

definition clock_now :: "siem_env \<Rightarrow> siem_world \<Rightarrow> rat \<times> siem_world" where
  "clock_now env w = (en_clock env (sw_wire w), on_wire Clock w)"

definition send_record :: "siem_env \<Rightarrow> string \<Rightarrow> time option \<Rightarrow> siem_world \<Rightarrow> exn option \<times> siem_world" where
  "send_record env payload t w =
     (let r = en_send env (sw_wire w) payload t in (r, on_wire (Send payload t r) w))"

definition finish_batch :: "siem_env \<Rightarrow> siem_world \<Rightarrow> exn option \<times> siem_world" where
  "finish_batch env w = (let r = en_finish env (sw_wire w) in (r, on_wire (Finish r) w))"

text \<open>\<open>SELECT ... WHERE id > after ORDER BY id LIMIT limit\<close> on a table in the order of its ids.\<close>

definition read_source :: "siem_env \<Rightarrow> siem_destination \<Rightarrow> string \<Rightarrow> int \<Rightarrow> nat \<Rightarrow> siem_record list" where
  "read_source env dest source after limit = take limit (filter (\<lambda>r. after < sr_id r) (en_table env dest source))"

section \<open>Results of a run\<close>

record source_run =
  rn_sent :: int
  rn_quarantined :: int
  rn_error :: "string option"
  rn_unreachable :: bool
  rn_dlq_full :: bool
  rn_started :: bool
  rn_switched :: bool

definition new_run :: source_run where
  "new_run = \<lparr> rn_sent = 0, rn_quarantined = 0, rn_error = None, rn_unreachable = False, rn_dlq_full = False,
     rn_started = False, rn_switched = False \<rparr>"

definition STUCK_FACTOR :: int where "STUCK_FACTOR = 10"
definition RECENT_UP :: time where "RECENT_UP = 3600 * 1000000"
definition PROBE :: nat where "PROBE = 3"
definition HARD_FACTOR :: int where "HARD_FACTOR = 100"

section \<open>The DLQ as the dispatcher uses it\<close>

definition json_char :: "char \<Rightarrow> string" where
  "json_char c =
     (let n = of_char c :: int in
      if n = 34 then [CHR 0x5C, CHR 0x22] else if n = 92 then [CHR 0x5C, CHR 0x5C]
      else if n = 10 then [CHR 0x5C, CHR ''n''] else if n = 13 then [CHR 0x5C, CHR ''r'']
      else if n = 9 then [CHR 0x5C, CHR ''t''] else if n = 8 then [CHR 0x5C, CHR ''b'']
      else if n = 12 then [CHR 0x5C, CHR ''f'']
      else if 32 \<le> n \<and> n \<le> 126 then [c] else CHR 0x5C # ''u00'' @ hex2 n)"

definition json_text :: "string \<Rightarrow> string" where
  "json_text s = CHR 0x22 # concat (map json_char s) @ [CHR 0x22]"

definition sent_as :: "siem_destination \<Rightarrow> string" where
  "sent_as dest = ''['' @ json_text (siem_transport_text (sd_transport dest)) @ '', '' @ json_text (sd_host dest) @ '', ''
     @ str_of_int (sd_port dest) @ '', '' @ json_text (siem_format_text (sd_format dest)) @ '', ''
     @ (if sd_mask_pii dest then ''true'' else ''false'') @ '']''"

definition dlq_full :: "siem_settings \<Rightarrow> siem_destination \<Rightarrow> siem_world \<Rightarrow> bool" where
  "dlq_full s dest w = (ss_dlq_max_per_dest s \<le> dlq_count (sw_db w) (Some (sd_id dest)) None)"

definition on_db :: "(siem_db \<Rightarrow> siem_db) \<Rightarrow> siem_world \<Rightarrow> siem_world" where
  "on_db f w = w\<lparr> sw_db := f (sw_db w) \<rparr>"

definition held :: "siem_destination \<Rightarrow> string \<Rightarrow> time \<Rightarrow> siem_world \<Rightarrow> siem_world" where
  "held dest source t = on_db (note_error (sd_id dest) source ''dlq_full'' t)"

text \<open>\<open>_quarantine\<close>: false, with nothing in the DLQ, when it is full.\<close>

definition quarantine_record :: "siem_settings \<Rightarrow> siem_destination \<Rightarrow> string \<Rightarrow> siem_record \<Rightarrow> string \<Rightarrow> string \<Rightarrow> int
    \<Rightarrow> time \<Rightarrow> bool \<Rightarrow> siem_world \<Rightarrow> bool \<times> siem_world" where
  "quarantine_record s dest source r payload error attempts t failed_now w =
     (let w1 = (if failed_now then on_db (record_sends (sd_id dest) t 0 1) w else w) in
      if dlq_full s dest w1 then (False, held dest source t w1)
      else (True, on_db (quarantine (sd_id dest) source (sr_id r) (external_id r) (Some (sr_time r)) payload
                           (sent_as dest) error attempts t) w1))"

section \<open>One batch\<close>

record batch =
  bt_consumed :: int
  bt_sent :: int
  bt_failure :: "(siem_record \<times> string) option"
  bt_payloads :: "(int, string) dict"
  bt_run :: source_run

text \<open>A record that goes to the DLQ at once (it cannot be formatted, or is refused for good): either it is in
  the DLQ and the batch goes on, or the DLQ is full and the batch stops at it.\<close>

definition set_aside :: "siem_settings \<Rightarrow> siem_destination \<Rightarrow> string \<Rightarrow> siem_record \<Rightarrow> string \<Rightarrow> string \<Rightarrow> time
    \<Rightarrow> batch \<Rightarrow> siem_world \<Rightarrow> bool \<times> batch \<times> siem_world" where
  "set_aside s dest source r payload error t b w =
     (let (ok, w') = quarantine_record s dest source r payload error 1 t True w
      in if ok then (True, b\<lparr> bt_run := (bt_run b)\<lparr> rn_quarantined := rn_quarantined (bt_run b) + 1 \<rparr>,
                              bt_consumed := sr_id r \<rparr>, w')
         else (False, b\<lparr> bt_run := (bt_run b)\<lparr> rn_dlq_full := True \<rparr> \<rparr>, w'))"

fun send_batch :: "siem_env \<Rightarrow> siem_settings \<Rightarrow> siem_destination \<Rightarrow> string \<Rightarrow> time option \<Rightarrow> rat \<Rightarrow> time
    \<Rightarrow> siem_record list \<Rightarrow> batch \<Rightarrow> siem_world \<Rightarrow> batch \<times> siem_world" where
  "send_batch env s dest source floor_time deadline t [] b w = (b, w)"
| "send_batch env s dest source floor_time deadline t (r # rs) b w =
     (let (c, w1) = clock_now env w in
      if deadline \<le> c then (b, w1)
      else if (case floor_time of None \<Rightarrow> False | Some f \<Rightarrow> sr_time r \<le> f)
      then send_batch env s dest source floor_time deadline t rs (b\<lparr> bt_consumed := sr_id r \<rparr>) w1
      else case en_format env dest r of
        Inl e \<Rightarrow>
          (let (ok, b', w') = set_aside s dest source r (take 4000 (en_repr env r)) (''format: '' @ ex_text e) t b w1
           in if ok then send_batch env s dest source floor_time deadline t rs b' w' else (b', w'))
      | Inr payload \<Rightarrow>
          (let b1 = b\<lparr> bt_payloads := dict_set (sr_id r) payload (bt_payloads b) \<rparr>;
               (reply, w2) = send_record env payload (Some (sr_time r)) w1
           in case reply of
                None \<Rightarrow> send_batch env s dest source floor_time deadline t rs
                          (b1\<lparr> bt_sent := bt_sent b1 + 1, bt_consumed := sr_id r \<rparr>) w2
              | Some e \<Rightarrow>
                  (if permanent e
                   then (let (ok, b', w') = set_aside s dest source r payload (''refused: '' @ ex_text e) t b1 w2
                         in if ok then send_batch env s dest source floor_time deadline t rs b' w' else (b', w'))
                   else (b1\<lparr> bt_failure := Some (r, error_text e) \<rparr>, w2))))"

text \<open>What was sent is confirmed. When it is not, nothing of the batch counts as sent and the first record that
  went out is the one that failed; an exception that is no \<open>OSError\<close> ends the run.\<close>

definition stop_iteration :: exn where
  "stop_iteration = \<lparr> ex_kind = OtherExn, ex_text = [], ex_class = ''StopIteration'' \<rparr>"

definition confirm_batch :: "siem_env \<Rightarrow> siem_record list \<Rightarrow> int \<Rightarrow> batch \<Rightarrow> siem_world \<Rightarrow> (exn + batch) \<times> siem_world" where
  "confirm_batch env records last_id b w =
     (if bt_sent b = 0 then (Inr b, w)
      else let (reply, w') = finish_batch env w in
        case reply of
          None \<Rightarrow> (Inr b, w')
        | Some e \<Rightarrow>
            if is_os_error (ex_kind e) then
              (case find (\<lambda>r. sr_id r \<in> set (dict_keys (bt_payloads b))) records of
                 None \<Rightarrow> (Inl stop_iteration, w')
               | Some hd_rec \<Rightarrow>
                   (Inr (b\<lparr> bt_failure := Some (hd_rec, ''delivery_unconfirmed: '' @ ex_text e),
                            bt_consumed := fold max (map sr_id (filter (\<lambda>r. sr_id r < sr_id hd_rec) records)) last_id,
                            bt_sent := 0 \<rparr>), w'))
            else (Inl e, w'))"

section \<open>After a failure\<close>

definition recently_up :: "siem_destination \<Rightarrow> time \<Rightarrow> siem_world \<Rightarrow> bool" where
  "recently_up dest t w =
     (\<exists>((d, _), c) \<in> set (db_cursors (sw_db w)).
        d = sd_id dest \<and> (case cu_last_sent_at c of None \<Rightarrow> False | Some x \<Rightarrow> t - RECENT_UP \<le> x))"

definition passes_between :: "siem_record list \<Rightarrow> siem_record \<Rightarrow> siem_record \<Rightarrow> bool" where
  "passes_between records head probed = (\<exists>r \<in> set records. sr_id head < sr_id r \<and> sr_id r < sr_id probed)"

text \<open>The next records, one by one, each confirmed on its own; the first that goes through.\<close>

fun probe_each :: "siem_env \<Rightarrow> siem_destination \<Rightarrow> siem_record list \<Rightarrow> siem_world \<Rightarrow> siem_record option \<times> siem_world" where
  "probe_each env dest [] w = (None, w)"
| "probe_each env dest (r # rs) w =
     (case en_format env dest r of
        Inl _ \<Rightarrow> probe_each env dest rs w
      | Inr payload \<Rightarrow>
          (let (sent, w1) = send_record env payload (Some (sr_time r)) w in
           case sent of
             Some _ \<Rightarrow> probe_each env dest rs w1
           | None \<Rightarrow>
               (let (confirmed, w2) = finish_batch env w1 in
                case confirmed of Some _ \<Rightarrow> probe_each env dest rs w2 | None \<Rightarrow> (Some r, w2))))"

definition next_goes_through :: "siem_env \<Rightarrow> siem_destination \<Rightarrow> siem_record list \<Rightarrow> siem_record \<Rightarrow> siem_world
    \<Rightarrow> siem_record option \<times> siem_world" where
  "next_goes_through env dest records head w =
     probe_each env dest (take PROBE (filter (\<lambda>r. sr_id head < sr_id r) records)) w"

definition stuck :: "siem_env \<Rightarrow> siem_destination \<Rightarrow> string \<Rightarrow> siem_record \<Rightarrow> int \<Rightarrow> time \<Rightarrow> siem_world \<Rightarrow> bool" where
  "stuck env dest source head attempts t w =
     (sd_max_retries dest * HARD_FACTOR \<le> attempts \<or>
      (sd_max_retries dest * STUCK_FACTOR \<le> attempts \<and> read_source env dest source (sr_id head) 1 = [] \<and>
       recently_up dest t w))"

text \<open>The head goes to the DLQ: the cursor moves past it, and past the probe that went through when no record
  lies between them.\<close>

definition give_up_head :: "siem_env \<Rightarrow> siem_settings \<Rightarrow> siem_destination \<Rightarrow> string \<Rightarrow> siem_record list \<Rightarrow> siem_record
    \<Rightarrow> string \<Rightarrow> string \<Rightarrow> int \<Rightarrow> siem_record option \<Rightarrow> time \<Rightarrow> source_run \<Rightarrow> siem_world \<Rightarrow> source_run \<times> siem_world" where
  "give_up_head env s dest source ahead head payload error attempts probed t run w =
     (let (ok, w1) = quarantine_record s dest source head payload error attempts t False w;
          sent = (case probed of None \<Rightarrow> 0 | Some _ \<Rightarrow> 1);
          past = (case probed of None \<Rightarrow> sr_id head
                  | Some nxt \<Rightarrow> if passes_between ahead head nxt then sr_id head else sr_id nxt)
      in if ok
         then (run\<lparr> rn_quarantined := rn_quarantined run + 1, rn_sent := rn_sent run + sent \<rparr>,
               on_db (fst \<circ> advance (sd_id dest) source (ss_pce_url s) (ss_org_id s) past sent t) w1)
         else (run\<lparr> rn_dlq_full := True \<rparr>, w1))"

definition look_ahead :: "siem_env \<Rightarrow> siem_destination \<Rightarrow> string \<Rightarrow> siem_record list \<Rightarrow> siem_record \<Rightarrow> bool
    \<Rightarrow> siem_record list" where
  "look_ahead env dest source records head is_stuck =
     (let near = filter (\<lambda>r. sr_id head < sr_id r) records
      in if \<not> is_stuck \<and> length near < PROBE then read_source env dest source (sr_id head) PROBE else near)"

definition head_payload :: "siem_env \<Rightarrow> siem_destination \<Rightarrow> (int, string) dict \<Rightarrow> siem_record \<Rightarrow> exn + string" where
  "head_payload env dest payloads head =
     (case dict_get payloads (sr_id head) of
        Some p \<Rightarrow> if p = [] then en_format env dest head else Inr p
      | None \<Rightarrow> en_format env dest head)"

definition after_failure :: "siem_env \<Rightarrow> siem_settings \<Rightarrow> siem_destination \<Rightarrow> string \<Rightarrow> siem_record list
    \<Rightarrow> (int, string) dict \<Rightarrow> siem_record \<Rightarrow> string \<Rightarrow> time \<Rightarrow> source_run \<Rightarrow> siem_world \<Rightarrow> (exn + source_run) \<times> siem_world" where
  "after_failure env s dest source records payloads head error t run0 w0 =
     (let (db1, attempts) = record_failure (sd_id dest) source (Some (sr_id head)) error t (sw_db w0);
          w = w0\<lparr> sw_db := db1 \<rparr>;
          run = run0\<lparr> rn_error := Some error, rn_unreachable := True \<rparr>;
          is_stuck = stuck env dest source head attempts t w
      in if \<not> is_stuck \<and> attempts < sd_max_retries dest then (Inr run, w)
         else if dlq_full s dest w
         then (Inr (run\<lparr> rn_dlq_full := True, rn_error := Some ''dlq_full'' \<rparr>), held dest source t w)
         else
           let ahead = look_ahead env dest source records head is_stuck;
               (probed, w1) = (if is_stuck then (None, w) else next_goes_through env dest ahead head w)
           in if is_stuck \<or> probed \<noteq> None then
                (case head_payload env dest payloads head of
                   Inl e \<Rightarrow> (Inl e, w1)
                 | Inr payload \<Rightarrow>
                     (let (run', w2) = give_up_head env s dest source ahead head payload error attempts probed t run w1
                      in (Inr run', w2)))
              else (Inr run, w1))"

section \<open>One source of one destination\<close>

text \<open>The body of the loop for a batch that was read: what to return, or \<open>Inr (last_id, run)\<close> to go on.\<close>

definition run_batch :: "siem_env \<Rightarrow> siem_settings \<Rightarrow> siem_destination \<Rightarrow> string \<Rightarrow> rat \<Rightarrow> int \<Rightarrow> time option
    \<Rightarrow> siem_record list \<Rightarrow> source_run \<Rightarrow> siem_world \<Rightarrow> ((exn + source_run) + (int \<times> source_run)) \<times> siem_world" where
  "run_batch env s dest source deadline last_id floor_time records run w =
     (let t = en_now env (sw_wire w);
          (b, w1) = send_batch env s dest source floor_time deadline t records
            \<lparr> bt_consumed = last_id, bt_sent = 0, bt_failure = None, bt_payloads = [], bt_run = run \<rparr> w;
          (confirmed, w2) = confirm_batch env records last_id b w1
      in case confirmed of
           Inl e \<Rightarrow> (Inl (Inl e), w2)
         | Inr b2 \<Rightarrow>
             (let (db3, moved) = advance (sd_id dest) source (ss_pce_url s) (ss_org_id s) (bt_consumed b2) (bt_sent b2) t
                    (sw_db w2);
                  w3 = w2\<lparr> sw_db := db3 \<rparr>;
                  run2 = (bt_run b2)\<lparr> rn_sent := rn_sent (bt_run b2) + bt_sent b2 \<rparr>
              in if \<not> moved then (Inl (Inr (bt_run b2)), w3)
                 else if rn_dlq_full run2 then (Inl (Inr (run2\<lparr> rn_error := Some ''dlq_full'' \<rparr>)), w3)
                 else case bt_failure b2 of
                   Some (head, error) \<Rightarrow>
                     (let (res, w4) = after_failure env s dest source records (bt_payloads b2) head error t run2 w3
                      in (Inl res, w4))
                 | None \<Rightarrow>
                     (if length records < sd_batch_size dest \<or> bt_consumed b2 < sr_id (List.last records)
                      then (Inl (Inr run2), w3) else (Inr (bt_consumed b2, run2), w3))))"

text \<open>How many records a cursor at \<open>last_id\<close> has still to read: what the loop counts down.\<close>

definition left_to_read :: "siem_env \<Rightarrow> siem_destination \<Rightarrow> string \<Rightarrow> int \<Rightarrow> nat" where
  "left_to_read env dest source last_id = length (filter (\<lambda>r. last_id < sr_id r) (en_table env dest source))"

lemma run_batch_goes_on:
  assumes "run_batch env s dest source deadline last_id floor_time records run w = (Inr (last_id', run'), w')"
  shows "sr_id (List.last records) \<le> last_id'"
  using assms unfolding run_batch_def Let_def
  by (auto split: prod.splits sum.splits option.splits if_splits)

lemma left_to_read_less:
  assumes "read_source env dest source last_id n = records" "records \<noteq> []" "sr_id (List.last records) \<le> last_id'"
  shows "left_to_read env dest source last_id' < left_to_read env dest source last_id"
proof -
  have "List.last records \<in> set (filter (\<lambda>r. last_id < sr_id r) (en_table env dest source))"
    using assms(1,2) last_in_set [of records] set_take_subset unfolding read_source_def by fastforce
  then have x: "List.last records \<in> set (en_table env dest source)" "last_id < sr_id (List.last records)" by auto
  have "filter (\<lambda>r. last_id' < sr_id r) (en_table env dest source) =
      filter (\<lambda>r. last_id' < sr_id r) (filter (\<lambda>r. last_id < sr_id r) (en_table env dest source))"
    using x(2) assms(3) by (auto simp: filter_filter intro!: filter_cong)
  moreover have "length (filter (\<lambda>r. last_id' < sr_id r) (filter (\<lambda>r. last_id < sr_id r) (en_table env dest source)))
      < length (filter (\<lambda>r. last_id < sr_id r) (en_table env dest source))"
    using x assms(3) by (intro length_filter_less [of "List.last records"]) auto
  ultimately show ?thesis by (simp add: left_to_read_def)
qed

function run_loop :: "siem_env \<Rightarrow> siem_settings \<Rightarrow> siem_destination \<Rightarrow> string \<Rightarrow> int \<Rightarrow> rat \<Rightarrow> int \<Rightarrow> time option
    \<Rightarrow> source_run \<Rightarrow> siem_world \<Rightarrow> (exn + source_run) \<times> siem_world" where
  "run_loop env s dest source gen deadline last_id floor_time run w =
     (let (c, w1) = clock_now env w in
      if \<not> c < deadline then (Inr run, w1)
      else
        let records = read_source env dest source last_id (sd_batch_size dest) in
        if records = [] then
          (Inr run, if floor_time \<noteq> None \<and> 0 < last_id then on_db (set_floor (sd_id dest) source None) w1 else w1)
        else if en_generation env (sw_wire w1) \<noteq> gen then (Inr (run\<lparr> rn_switched := True \<rparr>), w1)
        else
          case run_batch env s dest source deadline last_id floor_time records run w1 of
            (Inl res, w2) \<Rightarrow> (res, w2)
          | (Inr (last_id', run'), w2) \<Rightarrow> run_loop env s dest source gen deadline last_id' floor_time run' w2)"
  by pat_completeness auto
termination
  by (relation "measure (\<lambda>(env, s, dest, source, gen, deadline, last_id, _). left_to_read env dest source last_id)")
    (auto dest: run_batch_goes_on [OF sym] intro!: left_to_read_less)

declare run_loop.simps [simp del]

definition run_source :: "siem_env \<Rightarrow> siem_settings \<Rightarrow> siem_destination \<Rightarrow> string \<Rightarrow> int \<Rightarrow> rat \<Rightarrow> siem_world
    \<Rightarrow> (exn + source_run) \<times> siem_world" where
  "run_source env s dest source gen deadline w =
     (let start = (Inr (new_run\<lparr> rn_started := True \<rparr>),
            on_db (start_cursor (sd_id dest) source (ss_pce_url s) (ss_org_id s) (en_newest env source)) w)
      in case get_cursor (sw_db w) (sd_id dest) source of
           None \<Rightarrow> start
         | Some c \<Rightarrow>
             (if (cu_pce_url c, cu_org_id c) \<noteq> (ss_pce_url s, ss_org_id s) then start
              else run_loop env s dest source gen deadline (cu_last_id c) (cu_floor_time c) new_run w))"

section \<open>Destinations and the tick\<close>

text \<open>A destination that cannot be set up waits, with the error at each of its cursors.\<close>

definition setup_failed :: "siem_destination \<Rightarrow> exn \<Rightarrow> time \<Rightarrow> siem_world \<Rightarrow> (string, source_run) dict \<times> siem_world" where
  "setup_failed dest e t w =
     (fold (\<lambda>source. dict_set source (new_run\<lparr> rn_error := Some (''setup: '' @ ex_text e), rn_unreachable := True \<rparr>))
        (cursor_sources dest) [],
      fold (\<lambda>source. on_db (note_error (sd_id dest) source (''setup: '' @ ex_text e) t)) (cursor_sources dest) w)"

text \<open>An even share of what is left of the time, computed with two readings of the clock.\<close>

definition time_share :: "siem_env \<Rightarrow> rat \<Rightarrow> nat \<Rightarrow> siem_world \<Rightarrow> rat \<times> siem_world" where
  "time_share env deadline n w =
     (let (c1, w1) = clock_now env w; (c2, w2) = clock_now env w1
      in (c1 + max 0 (deadline - c2) / of_nat n, w2))"

fun run_sources :: "siem_env \<Rightarrow> siem_settings \<Rightarrow> siem_destination \<Rightarrow> int \<Rightarrow> rat \<Rightarrow> string list
    \<Rightarrow> (string, source_run) dict \<Rightarrow> siem_world \<Rightarrow> (exn + (string, source_run) dict) \<times> siem_world" where
  "run_sources env s dest gen deadline [] results w = (Inr results, w)"
| "run_sources env s dest gen deadline (source # others) results w =
     (let (share, w1) = time_share env deadline (Suc (length others)) w
      in case run_source env s dest source gen share w1 of
           (Inl e, w2) \<Rightarrow> (Inl e, w2)
         | (Inr r, w2) \<Rightarrow>
             (if rn_unreachable r \<or> rn_switched r then (Inr (dict_set source r results), w2)
              else run_sources env s dest gen deadline others (dict_set source r results) w2))"

definition run_destination :: "siem_env \<Rightarrow> siem_settings \<Rightarrow> siem_destination \<Rightarrow> int \<Rightarrow> rat \<Rightarrow> siem_world
    \<Rightarrow> (exn + (string, source_run) dict) \<times> siem_world" where
  "run_destination env s dest gen deadline w =
     (case en_setup env dest of
        Some e \<Rightarrow> (let (results, w') = setup_failed dest e (en_now env (sw_wire w)) w in (Inr results, w'))
      | None \<Rightarrow>
          (let (results, w') = run_sources env s dest gen deadline (cursor_sources dest) [] w
           in (results, on_wire Close w')))"

record siem_run =
  sn_destinations :: "(string, (string, source_run) dict) dict"
  sn_skipped :: bool

fun run_destinations :: "siem_env \<Rightarrow> siem_settings \<Rightarrow> int \<Rightarrow> rat \<Rightarrow> siem_destination list
    \<Rightarrow> (string, (string, source_run) dict) dict \<Rightarrow> siem_world
    \<Rightarrow> (exn + (string, (string, source_run) dict) dict) \<times> siem_world" where
  "run_destinations env s gen deadline [] out w = (Inr out, w)"
| "run_destinations env s gen deadline (dest # others) out w =
     (let (share, w1) = time_share env deadline (Suc (length others)) w
      in case run_destination env s dest gen share w1 of
           (Inl e, w2) \<Rightarrow> (Inl e, w2)
         | (Inr r, w2) \<Rightarrow> run_destinations env s gen deadline others (dict_set (sd_name dest) r out) w2)"

text \<open>\<open>busy\<close>: another run holds the lock. The budget is 0.8 of the tick unless one is given.\<close>

definition run_siem :: "siem_env \<Rightarrow> siem_settings \<Rightarrow> rat option \<Rightarrow> bool \<Rightarrow> siem_world \<Rightarrow> (exn + siem_run) \<times> siem_world" where
  "run_siem env s budget busy w =
     (if busy then (Inr \<lparr> sn_destinations = [], sn_skipped = True \<rparr>, w)
      else if \<not> ss_enabled s then (Inr \<lparr> sn_destinations = [], sn_skipped = False \<rparr>, w)
      else
        let (c, w1) = clock_now env w;
            deadline = c + (case budget of Some b \<Rightarrow> b | None \<Rightarrow> of_int (ss_tick_seconds s) * 8 / 10)
        in case run_destinations env s (en_generation env (sw_wire w1)) deadline
                  (filter sd_enabled (ss_destinations s)) [] w1 of
             (Inl e, w2) \<Rightarrow> (Inl e, w2)
           | (Inr out, w2) \<Rightarrow> (Inr \<lparr> sn_destinations = out, sn_skipped = False \<rparr>, w2))"

end
