(* ===== verification/SiemAccount.thy ===== *)
theory SiemAccount
  imports SiemDispatch
begin

text \<open>
  What a tick of the SIEM dispatcher answers for. A record is accounted for when its line went out and the batch
  it went in was confirmed, when it is in the DLQ, or when 5.x had sent it (the floor); the lemmas follow
  the wire and the DLQ through a batch, its confirmation, a failure and the loop.
\<close>

section \<open>Tables after each operation\<close>

lemma dict_get_update_where [dict_simps]:
  "dict_get (update_where P f d) k = map_option (\<lambda>v. if P k v then f v else v) (dict_get d k)"
  by (induction d) (auto simp: update_where_def)

lemma dict_keys_update_where [dict_simps]: "dict_keys (update_where P f d) = dict_keys d"
  by (induction d) (auto simp: update_where_def)

text \<open>Where a cursor stands and whose ids it counts.\<close>

definition position :: "siem_db \<Rightarrow> cursor_key \<Rightarrow> (int \<times> string \<times> string) option" where
  "position db k = map_option (\<lambda>c. (cu_last_id c, cu_pce_url c, cu_org_id c)) (dict_get (db_cursors db) k)"

named_theorems siem_simps \<open>what each operation does to positions, wire and DLQ\<close>

lemma position_simps [siem_simps]:
  "position (count_sends d t a b db) k = position db k"
  "position (record_sends d t a b db) k = position db k"
  "position (note_error d source e t db) k = position db k"
  "position (set_floor d source f db) k = position db k"
  "position (quarantine d source i x et p m e n t db) k = position db k"
  "position (fst (record_failure d source h e t db)) k = position db k"
  by (auto simp: position_def count_sends_def record_sends_def note_error_def set_floor_def quarantine_def
      record_failure_def Let_def failed_at_def dict_simps option.map_comp intro!: option.map_cong)

lemma dlq_simps [siem_simps]:
  "db_dlq (count_sends d t a b db) = db_dlq db"
  "db_dlq (record_sends d t a b db) = db_dlq db"
  "db_dlq (note_error d source e t db) = db_dlq db"
  "db_dlq (set_floor d source f db) = db_dlq db"
  "db_dlq (fst (record_failure d source h e t db)) = db_dlq db"
  "db_dlq (fst (advance d source u g n k t db)) = db_dlq db"
  by (auto simp: count_sends_def record_sends_def note_error_def set_floor_def record_failure_def advance_def Let_def)

lemma world_simps [siem_simps]:
  "sw_wire (on_db f w) = sw_wire w" "sw_db (on_db f w) = f (sw_db w)"
  "sw_wire (on_wire x w) = sw_wire w @ [x]" "sw_db (on_wire x w) = sw_db w"
  by (simp_all add: on_db_def on_wire_def)

lemma advance_position:
  assumes "position db (d, source) = Some (n, u, g)"
  shows "snd (advance d source u g m k t db)"
    and "position (fst (advance d source u g m k t db)) (d, source) = Some (max n m, u, g)"
proof -
  from assms obtain c where c: "dict_get (db_cursors db) (d, source) = Some c"
    and f: "cu_last_id c = n" "cu_pce_url c = u" "cu_org_id c = g"
    by (auto simp: position_def)
  show "snd (advance d source u g m k t db)"
    using map_of_SomeD [OF c] f by (force simp: advance_def Let_def)
  show "position (fst (advance d source u g m k t db)) (d, source) = Some (max n m, u, g)"
    using c f by (auto simp: position_def advance_def Let_def count_sends_def dict_simps advanced_def)
qed

section \<open>What is confirmed\<close>

text \<open>The lines sent since the last confirmation wait for the next one; an unconfirmed batch is not delivered.\<close>

fun confirm :: "(string \<times> time option) list \<Rightarrow> wire_event list \<Rightarrow> (string \<times> time option) list" where
  "confirm out [] = []"
| "confirm out (Send p t None # es) = confirm ((p, t) # out) es"
| "confirm out (Finish None # es) = out @ confirm [] es"
| "confirm out (Finish (Some e) # es) = confirm [] es"
| "confirm out (_ # es) = confirm out es"

definition delivered :: "wire_event list \<Rightarrow> (string \<times> time option) set" where
  "delivered es = set (confirm [] es)"

lemma confirm_mono_out: "set out \<subseteq> set out' \<Longrightarrow> set (confirm out es) \<subseteq> set (confirm out' es)"
proof (induction out es arbitrary: out' rule: confirm.induct)
  case (2 out p t es)
  then have "set (confirm ((p, t) # out) es) \<subseteq> set (confirm ((p, t) # out') es)" by (intro "2.IH") auto
  then show ?case by simp
next
  case (3 out es)
  then show ?case by auto
qed auto

lemma confirm_append_left: "set (confirm out es) \<subseteq> set (confirm out (es @ fs))"
  by (induction out es rule: confirm.induct) auto

lemma confirm_append_right: "set (confirm [] fs) \<subseteq> set (confirm out (es @ fs))"
proof (induction out es rule: confirm.induct)
  case (1 out)
  then show ?case by (simp add: confirm_mono_out)
qed auto

lemma delivered_append: "delivered es \<union> delivered fs \<subseteq> delivered (es @ fs)"
  using confirm_append_left [of "[]"] confirm_append_right by (auto simp: delivered_def)

text \<open>A confirmation delivers every line sent since the last one.\<close>

fun finishes :: "wire_event \<Rightarrow> bool" where
  "finishes (Finish _) = True"
| "finishes _ = False"

lemma confirm_out: "\<forall>x \<in> set es. \<not> finishes x \<Longrightarrow> set out \<subseteq> set (confirm out (es @ [Finish None]))"
  by (induction out es rule: confirm.induct) auto

lemma confirm_sent:
  "\<forall>x \<in> set es. \<not> finishes x \<Longrightarrow> Send p t None \<in> set es \<Longrightarrow> (p, t) \<in> set (confirm out (es @ [Finish None]))"
proof (induction out es rule: confirm.induct)
  case (2 out p' t' es)
  then show ?case using confirm_out [of es "(p', t') # out"] by auto
qed auto

lemma delivered_sent:
  "\<forall>x \<in> set es. \<not> finishes x \<Longrightarrow> Send p t None \<in> set es \<Longrightarrow> (p, t) \<in> delivered (es @ [Finish None])"
  by (simp add: delivered_def confirm_sent)

section \<open>Accounted for\<close>

definition floored :: "time option \<Rightarrow> siem_record \<Rightarrow> bool" where
  "floored floor_time r = (case floor_time of None \<Rightarrow> False | Some f \<Rightarrow> sr_time r \<le> f)"

definition lettered :: "siem_destination \<Rightarrow> string \<Rightarrow> dead_letter list \<Rightarrow> siem_record \<Rightarrow> bool" where
  "lettered dest source letters r =
     (\<exists>d \<in> set letters. dl_destination_id d = sd_id dest \<and> dl_source d = source \<and> dl_record_id d = sr_id r)"

definition accounted :: "siem_env \<Rightarrow> siem_destination \<Rightarrow> string \<Rightarrow> time option \<Rightarrow> wire_event list \<Rightarrow> dead_letter list
    \<Rightarrow> siem_record \<Rightarrow> bool" where
  "accounted env dest source floor_time es letters r =
     (floored floor_time r \<or>
      (\<exists>p. en_format env dest r = Inr p \<and> (p, Some (sr_time r)) \<in> delivered es) \<or>
      lettered dest source letters r)"

text \<open>What came to the wire and to the DLQ between two worlds.\<close>

definition went :: "siem_world \<Rightarrow> siem_world \<Rightarrow> wire_event list \<Rightarrow> dead_letter list \<Rightarrow> bool" where
  "went w w' es letters =
     (sw_wire w' = sw_wire w @ es \<and> db_dlq (sw_db w') = db_dlq (sw_db w) @ letters)"

lemma went_refl [simp]: "went w w [] []"
  by (simp add: went_def)

lemma went_trans: "went w w1 es ls \<Longrightarrow> went w1 w2 fs ms \<Longrightarrow> went w w2 (es @ fs) (ls @ ms)"
  by (simp add: went_def)

lemma lettered_append [simp]: "lettered dest source (ls @ ms) r = (lettered dest source ls r \<or> lettered dest source ms r)"
  by (auto simp: lettered_def)

lemma accounted_before:
  "accounted env dest source fl es ls r \<Longrightarrow> accounted env dest source fl (es @ fs) (ls @ ms) r"
  using delivered_append [of es fs] by (auto simp: accounted_def)

lemma accounted_after:
  "accounted env dest source fl fs ms r \<Longrightarrow> accounted env dest source fl (es @ fs) (ls @ ms) r"
  using delivered_append [of es fs] by (auto simp: accounted_def)

section \<open>The DLQ step\<close>

lemma quarantine_record_went:
  assumes "quarantine_record s dest source r payload error n t now w = (ok, w')"
  shows "\<exists>letters. went w w' [] letters \<and> (ok \<longrightarrow> lettered dest source letters r) \<and> (\<not> ok \<longrightarrow> letters = [])"
    and "position (sw_db w') = position (sw_db w)"
proof -
  show "\<exists>letters. went w w' [] letters \<and> (ok \<longrightarrow> lettered dest source letters r) \<and> (\<not> ok \<longrightarrow> letters = [])"
    using assms by (auto simp: quarantine_record_def Let_def held_def went_def siem_simps quarantine_def lettered_def
        split: if_splits)
  show "position (sw_db w') = position (sw_db w)"
    using assms by (auto simp: quarantine_record_def Let_def held_def siem_simps fun_eq_iff split: if_splits)
qed

section \<open>A batch\<close>

definition payload_ids :: "batch \<Rightarrow> int set" where
  "payload_ids b = set (dict_keys (bt_payloads b))"

text \<open>What a batch leaves: of the records that are \<open>past\<close>, each went out, is in the DLQ or was passed over;
  \<open>left\<close> begins with the record it stopped at.\<close>

definition sent_ok :: "siem_env \<Rightarrow> siem_destination \<Rightarrow> wire_event list \<Rightarrow> siem_record \<Rightarrow> bool" where
  "sent_ok env dest es r = (\<exists>p. en_format env dest r = Inr p \<and> Send p (Some (sr_time r)) None \<in> set es)"

definition passed :: "siem_destination \<Rightarrow> string \<Rightarrow> time option \<Rightarrow> dead_letter list \<Rightarrow> siem_record \<Rightarrow> bool" where
  "passed dest source fl letters r = (floored fl r \<or> lettered dest source letters r)"

definition batch_result :: "siem_env \<Rightarrow> siem_destination \<Rightarrow> string \<Rightarrow> time option \<Rightarrow> batch \<Rightarrow> batch \<Rightarrow> siem_record list
    \<Rightarrow> siem_record list \<Rightarrow> wire_event list \<Rightarrow> dead_letter list \<Rightarrow> bool" where
  "batch_result env dest source fl b b' past left es letters =
     ((\<forall>x \<in> set es. \<not> finishes x) \<and>
      bt_consumed b' = (if past = [] then bt_consumed b else sr_id (List.last past)) \<and>
      bt_sent b \<le> bt_sent b' \<and>
      (\<forall>r \<in> set past. passed dest source fl letters r \<or> sent_ok env dest es r) \<and>
      (bt_sent b' = bt_sent b \<longrightarrow> (\<forall>r \<in> set past. passed dest source fl letters r)) \<and>
      (\<forall>r \<in> set past. sr_id r \<in> payload_ids b' \<or> passed dest source fl letters r) \<and>
      payload_ids b \<subseteq> payload_ids b' \<and>
      payload_ids b' \<subseteq> payload_ids b \<union> sr_id ` set (past @ take 1 left) \<and>
      (bt_failure b' = bt_failure b \<or> (\<exists>h e rest. left = h # rest \<and> bt_failure b' = Some (h, e))))"

lemma batch_resultD:
  assumes "batch_result env dest source fl b b' past left es letters"
  shows "\<forall>x \<in> set es. \<not> finishes x"
    and "bt_consumed b' = (if past = [] then bt_consumed b else sr_id (List.last past))"
    and "\<forall>r \<in> set past. passed dest source fl letters r \<or> sent_ok env dest es r"
    and "bt_sent b' = bt_sent b \<longrightarrow> (\<forall>r \<in> set past. passed dest source fl letters r)"
    and "\<forall>r \<in> set past. sr_id r \<in> payload_ids b' \<or> passed dest source fl letters r"
    and "payload_ids b' \<subseteq> payload_ids b \<union> sr_id ` set (past @ take 1 left)"
    and "bt_failure b' = bt_failure b \<or> (\<exists>h e rest. left = h # rest \<and> bt_failure b' = Some (h, e))"
  using assms unfolding batch_result_def by - ((elim conjE, assumption)+)

lemma passed_append: "passed dest source fl (ls @ ms) r = (passed dest source fl ls r \<or> passed dest source fl ms r)"
  by (auto simp: passed_def)

lemma sent_ok_append: "sent_ok env dest (es @ fs) r = (sent_ok env dest es r \<or> sent_ok env dest fs r)"
  by (auto simp: sent_ok_def)

text \<open>Nothing read, and stopping at the first record.\<close>

lemma batch_result_nothing: "batch_result env dest source fl b b [] left [] []"
  by (simp add: batch_result_def)

lemma batch_result_stop:
  assumes "\<forall>x \<in> set es. \<not> finishes x" "bt_consumed b' = bt_consumed b" "bt_sent b' = bt_sent b"
    "payload_ids b \<subseteq> payload_ids b'"
    "payload_ids b' \<subseteq> payload_ids b \<union> {sr_id r}"
    "bt_failure b' = bt_failure b \<or> (\<exists>e. bt_failure b' = Some (r, e))"
  shows "batch_result env dest source fl b b' [] (r # rs) es []"
  using assms by (auto simp: batch_result_def)

text \<open>One record more.\<close>

lemma batch_result_step:
  assumes rest: "batch_result env dest source fl b1 b' past left fs ms"
    and es: "\<forall>x \<in> set es. \<not> finishes x"
    and b1: "bt_consumed b1 = sr_id r" "bt_sent b \<le> bt_sent b1" "bt_failure b1 = bt_failure b"
    and keys: "payload_ids b \<subseteq> payload_ids b1"
      "payload_ids b1 \<subseteq> payload_ids b \<union> {sr_id r}"
    and r: "passed dest source fl ls r \<or> sent_ok env dest es r \<and> bt_sent b < bt_sent b1 \<and> sr_id r \<in> payload_ids b1"
  shows "batch_result env dest source fl b b' (r # past) left (es @ fs) (ls @ ms)"
proof -
  note rest = rest [unfolded batch_result_def]
  have sent: "bt_sent b1 \<le> bt_sent b'" using rest by blast
  have a: "\<forall>x \<in> set (r # past). passed dest source fl (ls @ ms) x \<or> sent_ok env dest (es @ fs) x"
    using rest r by (auto simp: passed_append sent_ok_append)
  have b: "bt_sent b' = bt_sent b \<longrightarrow> (\<forall>x \<in> set (r # past). passed dest source fl (ls @ ms) x)"
  proof
    assume x: "bt_sent b' = bt_sent b"
    with sent b1(2) have "bt_sent b1 = bt_sent b" "bt_sent b' = bt_sent b1" by auto
    with r rest show "\<forall>x \<in> set (r # past). passed dest source fl (ls @ ms) x"
      by (auto simp: passed_append)
  qed
  have c: "\<forall>x \<in> set (r # past). sr_id x \<in> payload_ids b' \<or> passed dest source fl (ls @ ms) x"
    using rest r by (auto simp: passed_append)
  have d: "payload_ids b' \<subseteq> payload_ids b \<union> sr_id ` set ((r # past) @ take 1 left)"
  proof -
    have "payload_ids b' \<subseteq> payload_ids b1 \<union> sr_id ` set (past @ take 1 left)" using rest by blast
    with keys(2) show ?thesis by (simp add: subset_iff) blast
  qed
  show ?thesis
    unfolding batch_result_def using rest es b1 keys(1) sent a b c d by auto
qed

lemma set_aside_went:
  assumes "set_aside s dest source r payload error t b w = (ok, b', w')"
  shows "\<exists>letters. went w w' [] letters \<and> (ok \<longrightarrow> lettered dest source letters r) \<and> (\<not> ok \<longrightarrow> letters = [])"
    and "position (sw_db w') = position (sw_db w)"
    and "bt_consumed b' = (if ok then sr_id r else bt_consumed b)" "bt_sent b' = bt_sent b"
      "bt_failure b' = bt_failure b" "bt_payloads b' = bt_payloads b"
proof -
  obtain ok1 w1 where q: "quarantine_record s dest source r payload error 1 t True w = (ok1, w1)" by fastforce
  with assms have x: "ok = ok1" "w' = w1" by (auto simp: set_aside_def split: if_splits)
  show "\<exists>letters. went w w' [] letters \<and> (ok \<longrightarrow> lettered dest source letters r) \<and> (\<not> ok \<longrightarrow> letters = [])"
    "position (sw_db w') = position (sw_db w)"
    using quarantine_record_went [OF q] by (simp_all add: x)
  show "bt_consumed b' = (if ok then sr_id r else bt_consumed b)" "bt_sent b' = bt_sent b"
      "bt_failure b' = bt_failure b" "bt_payloads b' = bt_payloads b"
    using assms q by (auto simp: set_aside_def split: if_splits)
qed

text \<open>The last cases of \<open>batch_result_step\<close>: what the record itself put on the wire and in the DLQ.\<close>

lemma batch_step:
  assumes IH: "\<exists>past left fs ms. rs = past @ left \<and> went w1 w' fs ms \<and> batch_result env dest source fl b1 b' past left fs ms"
    and w1: "went w w1 es ls"
    and step: "\<forall>x \<in> set es. \<not> finishes x"
      "bt_consumed b1 = sr_id r" "bt_sent b \<le> bt_sent b1" "bt_failure b1 = bt_failure b"
      "payload_ids b \<subseteq> payload_ids b1" "payload_ids b1 \<subseteq> payload_ids b \<union> {sr_id r}"
      "passed dest source fl ls r \<or> sent_ok env dest es r \<and> bt_sent b < bt_sent b1 \<and> sr_id r \<in> payload_ids b1"
  shows "\<exists>past left fs ms. r # rs = past @ left \<and> went w w' fs ms \<and> batch_result env dest source fl b b' past left fs ms"
proof -
  from IH obtain past left fs ms where x: "rs = past @ left" "went w1 w' fs ms"
    "batch_result env dest source fl b1 b' past left fs ms" by blast
  have "batch_result env dest source fl b b' (r # past) left (es @ fs) (ls @ ms)"
    by (rule batch_result_step [OF x(3) step])
  with x(1) went_trans [OF w1 x(2)] show ?thesis by (metis append_Cons)
qed

lemma batch_stop:
  assumes "went w w' es []" "\<forall>x \<in> set es. \<not> finishes x" "bt_consumed b' = bt_consumed b" "bt_sent b' = bt_sent b"
    "payload_ids b \<subseteq> payload_ids b'" "payload_ids b' \<subseteq> payload_ids b \<union> {sr_id r}"
    "bt_failure b' = bt_failure b \<or> (\<exists>e. bt_failure b' = Some (r, e))"
  shows "\<exists>past left fs ms. r # rs = past @ left \<and> went w w' fs ms \<and> batch_result env dest source fl b b' past left fs ms"
  using batch_result_stop [OF assms(2-7)] assms(1) by (metis append_Nil)

text \<open>One record set aside, whatever it put on the wire before.\<close>

lemma aside_step:
  assumes aside: "set_aside s dest source r payload error t b1 w1 = (ok, b2, w2)"
    and w1: "went w w1 es []" "\<forall>x \<in> set es. \<not> finishes x"
    and b1: "bt_consumed b1 = bt_consumed b" "bt_sent b1 = bt_sent b" "bt_failure b1 = bt_failure b"
      "payload_ids b \<subseteq> payload_ids b1" "payload_ids b1 \<subseteq> payload_ids b \<union> {sr_id r}"
    and res: "(b', w') = (if ok then send_batch env s dest source fl deadline t rs b2 w2 else (b2, w2))"
    and IH: "send_batch env s dest source fl deadline t rs b2 w2 = (b', w') \<Longrightarrow>
        \<exists>past left fs ms. rs = past @ left \<and> went w2 w' fs ms \<and> batch_result env dest source fl b2 b' past left fs ms"
  shows "\<exists>past left fs ms. r # rs = past @ left \<and> went w w' fs ms \<and> batch_result env dest source fl b b' past left fs ms"
proof -
  note facts = set_aside_went [OF aside]
  from facts(1) obtain letters where l: "went w1 w2 [] letters" "ok \<longrightarrow> lettered dest source letters r"
    "\<not> ok \<longrightarrow> letters = []" by blast
  have w2: "went w w2 es letters" using went_trans [OF w1(1) l(1)] by simp
  have ids: "payload_ids b2 = payload_ids b1" using facts(6) by (simp add: payload_ids_def)
  show ?thesis
  proof (cases ok)
    case True
    with res have "send_batch env s dest source fl deadline t rs b2 w2 = (b', w')" by simp
    from IH [OF this] w2 show ?thesis
      by (rule batch_step) (use w1(2) b1 facts l True in \<open>auto simp: ids passed_def\<close>)
  next
    case False
    with res l have x: "b' = b2" "w' = w2" "went w w2 es []" using w2 by auto
    show ?thesis unfolding x(1,2)
      by (rule batch_stop [OF x(3) w1(2)]) (use b1 facts False in \<open>auto simp: ids\<close>)
  qed
qed

lemma went_clock: "clock_now env w = (c, w1) \<Longrightarrow> went w w1 [Clock] []"
  by (auto simp: clock_now_def went_def siem_simps)

lemma went_send: "send_record env p t w = (r, w1) \<Longrightarrow> went w w1 [Send p t r] []"
  by (auto simp: send_record_def Let_def went_def siem_simps)

lemma went_finish: "finish_batch env w = (r, w1) \<Longrightarrow> went w w1 [Finish r] []"
  by (auto simp: finish_batch_def Let_def went_def siem_simps)

lemma payload_ids_set: "payload_ids (b\<lparr> bt_payloads := dict_set k p (bt_payloads b) \<rparr>) = insert k (payload_ids b)"
  by (auto simp: payload_ids_def dict_keys_set)

lemma send_batch_progress:
  "send_batch env s dest source fl deadline t rs b w = (b', w') \<Longrightarrow>
   \<exists>past left es letters. rs = past @ left \<and> went w w' es letters \<and>
     batch_result env dest source fl b b' past left es letters"
proof (induction rs arbitrary: b w)
  case Nil
  then have "b' = b" "w' = w" by simp_all
  then have "[] = [] @ ([] :: siem_record list) \<and> went w w' [] [] \<and> batch_result env dest source fl b b' [] [] [] []"
    by (simp add: batch_result_nothing)
  then show ?case by blast
next
  case (Cons r rs)
  obtain c w1 where c: "clock_now env w = (c, w1)" by fastforce
  note c1 = went_clock [OF c]
  consider (late) "deadline \<le> c" | (old) "\<not> deadline \<le> c" "floored fl r" | (bad) e where "\<not> deadline \<le> c" "\<not> floored fl r" "en_format env dest r = Inl e"
    | (line) p where "\<not> deadline \<le> c" "\<not> floored fl r" "en_format env dest r = Inr p"
    by (cases "en_format env dest r") auto
  then show ?case
  proof cases
    case late
    with Cons.prems c have x: "b' = b" "w' = w1" by auto
    show ?thesis unfolding x by (rule batch_stop [OF c1]) auto
  next
    case old
    with Cons.prems c have "send_batch env s dest source fl deadline t rs (b\<lparr> bt_consumed := sr_id r \<rparr>) w1 = (b', w')"
      by (auto simp: floored_def split: option.splits)
    from Cons.IH [OF this] c1 show ?thesis
      by (rule batch_step) (use old in \<open>auto simp: passed_def payload_ids_def\<close>)
  next
    case bad
    obtain ok b2 w2 where a: "set_aside s dest source r (take 4000 (en_repr env r)) (''format: '' @ ex_text e) t b w1 = (ok, b2, w2)"
      by (metis prod_cases3)
    have res: "(b', w') = (if ok then send_batch env s dest source fl deadline t rs b2 w2 else (b2, w2))"
      using Cons.prems c bad a by (auto simp: floored_def split: option.splits)
    show ?thesis by (rule aside_step [OF a c1 _ _ _ _ _ _ res Cons.IH]) auto
  next
    case line
    define b1 where "b1 = b\<lparr> bt_payloads := dict_set (sr_id r) p (bt_payloads b) \<rparr>"
    have b1: "bt_consumed b1 = bt_consumed b" "bt_sent b1 = bt_sent b" "bt_failure b1 = bt_failure b"
      "payload_ids b1 = insert (sr_id r) (payload_ids b)"
      unfolding b1_def payload_ids_set by simp_all
    obtain reply w2 where s: "send_record env p (Some (sr_time r)) w1 = (reply, w2)" by fastforce
    have w2: "went w w2 [Clock, Send p (Some (sr_time r)) reply] []"
      using went_trans [OF c1 went_send [OF s]] by simp
    have quiet: "\<forall>x \<in> set [Clock, Send p (Some (sr_time r)) reply]. \<not> finishes x" by simp
    consider (ok) "reply = None" | (final) e where "reply = Some e" "permanent e"
      | (fails) e where "reply = Some e" "\<not> permanent e" by (cases reply) auto
    then show ?thesis
    proof cases
      case ok
      have "send_batch env s dest source fl deadline t rs (b1\<lparr> bt_sent := bt_sent b1 + 1, bt_consumed := sr_id r \<rparr>) w2 = (b', w')"
        using Cons.prems c line s ok by (auto simp: floored_def b1_def split: option.splits)
      from Cons.IH [OF this] w2 quiet show ?thesis
        by (rule batch_step) (use line ok b1 in \<open>auto simp: sent_ok_def payload_ids_def\<close>)
    next
      case final
      obtain ok b2 w3 where a: "set_aside s dest source r p (''refused: '' @ ex_text e) t b1 w2 = (ok, b2, w3)"
        by (metis prod_cases3)
      have res: "(b', w') = (if ok then send_batch env s dest source fl deadline t rs b2 w3 else (b2, w3))"
        using Cons.prems c line s final a by (auto simp: floored_def b1_def split: option.splits)
      show ?thesis
        by (rule aside_step [OF a w2 quiet b1(1-3) _ _ res Cons.IH]) (auto simp: b1(4))
    next
      case fails
      have x: "b' = b1\<lparr> bt_failure := Some (r, error_text e) \<rparr>" "w' = w2"
        using Cons.prems c line s fails by (auto simp: floored_def b1_def split: option.splits)
      show ?thesis unfolding x(2)
        by (rule batch_stop [OF w2 quiet]) (use b1 in \<open>auto simp: x(1) payload_ids_def\<close>)
    qed
  qed
qed

lemma send_batch_position:
  "send_batch env s dest source fl deadline t rs b w = (b', w') \<Longrightarrow> position (sw_db w') = position (sw_db w)"
  by (induction rs arbitrary: b w)
    (auto simp: Let_def clock_now_def send_record_def siem_simps set_aside_went(2) dest!: set_aside_went(2)
      split: prod.splits if_splits option.splits sum.splits)

section \<open>Reading in the order of the ids\<close>

definition in_order :: "siem_record list \<Rightarrow> bool" where
  "in_order rs = sorted_wrt (\<lambda>a b. sr_id a < sr_id b) rs"

lemma in_order_append: "in_order (xs @ ys) \<Longrightarrow> x \<in> set xs \<Longrightarrow> y \<in> set ys \<Longrightarrow> sr_id x < sr_id y"
  by (simp add: in_order_def sorted_wrt_append)

lemma in_order_appendD: "in_order (xs @ ys) \<Longrightarrow> in_order xs \<and> in_order ys"
  by (simp add: in_order_def sorted_wrt_append)

lemma in_order_filter: "in_order rs \<Longrightarrow> in_order (filter P rs)"
  by (simp add: in_order_def sorted_wrt_filter)

text \<open>What a read returns is a beginning of what is left: any part of it has everything below its end.\<close>

lemma read_source_beginning:
  assumes "in_order (en_table env dest source)" and "read_source env dest source last_id n = xs @ ys"
    and r: "r \<in> set (en_table env dest source)" "last_id < sr_id r"
  shows "xs \<noteq> [] \<Longrightarrow> sr_id r \<le> sr_id (List.last xs) \<Longrightarrow> r \<in> set xs"
    and "ys = h # zs \<Longrightarrow> sr_id r < sr_id h \<Longrightarrow> r \<in> set xs"
proof -
  define all where "all = filter (\<lambda>r. last_id < sr_id r) (en_table env dest source)"
  have "all = read_source env dest source last_id n @ drop n all"
    by (simp add: read_source_def all_def)
  then have all: "all = xs @ ys @ drop n all" using assms(2) by simp
  have o: "in_order (xs @ ys @ drop n all)"
    using in_order_filter [OF assms(1)] all unfolding all_def by metis
  have "r \<in> set all" using r by (simp add: all_def)
  then have ra: "r \<in> set (xs @ ys @ drop n all)" by (subst (asm) all) simp
  show "r \<in> set xs" if x: "xs \<noteq> []" "sr_id r \<le> sr_id (List.last xs)"
    using ra in_order_append [OF o last_in_set [OF x(1)], of r] x(2) by force
  show "r \<in> set xs" if y: "ys = h # zs" "sr_id r < sr_id h"
  proof (rule ccontr)
    assume "r \<notin> set xs"
    with ra y(1) have "r \<in> set (h # zs @ drop n all)" by simp
    moreover have "in_order (h # zs @ drop n all)" using in_order_appendD [OF o] y(1) by simp
    ultimately have "sr_id h \<le> sr_id r" by (auto simp: in_order_def less_imp_le)
    with y(2) show False by simp
  qed
qed

lemma read_source_mem:
  "r \<in> set (read_source env dest source last_id n) \<Longrightarrow> r \<in> set (en_table env dest source) \<and> last_id < sr_id r"
  using set_take_subset by (fastforce simp: read_source_def)

lemma read_source_in_order: "in_order (en_table env dest source) \<Longrightarrow> in_order (read_source env dest source last_id n)"
  unfolding read_source_def in_order_def by (intro sorted_wrt_take sorted_wrt_filter)

section \<open>A confirmed batch\<close>

definition below :: "siem_env \<Rightarrow> siem_destination \<Rightarrow> string \<Rightarrow> time option \<Rightarrow> wire_event list \<Rightarrow> dead_letter list
    \<Rightarrow> int \<Rightarrow> int \<Rightarrow> bool" where
  "below env dest source fl es letters lo hi =
     (\<forall>r \<in> set (en_table env dest source). lo < sr_id r \<and> sr_id r \<le> hi \<longrightarrow> accounted env dest source fl es letters r)"

lemma below_append:
  "below env dest source fl es ls lo mid \<Longrightarrow> below env dest source fl fs ms mid hi \<Longrightarrow>
   below env dest source fl (es @ fs) (ls @ ms) lo hi"
  unfolding below_def by (meson accounted_before accounted_after not_le)

lemma below_refl [simp]: "below env dest source fl es ls lo lo"
  by (auto simp: below_def)

lemma passed_accounted: "passed dest source fl letters r \<Longrightarrow> accounted env dest source fl es letters r"
  by (auto simp: passed_def accounted_def)

lemma sent_ok_accounted:
  "\<forall>x \<in> set es. \<not> finishes x \<Longrightarrow> sent_ok env dest es r \<Longrightarrow> accounted env dest source fl (es @ [Finish None]) letters r"
  using delivered_sent by (fastforce simp: accounted_def sent_ok_def)

lemma fold_max_bound:
  fixes z :: int
  shows "fold max xs z < y \<longleftrightarrow> z < y \<and> (\<forall>x \<in> set xs. x < y)" and "z \<le> fold max xs z"
  by (induction xs arbitrary: z) (auto, meson max.bounded_iff)

definition fresh_batch :: "int \<Rightarrow> source_run \<Rightarrow> batch" where
  "fresh_batch last_id run =
     \<lparr> bt_consumed = last_id, bt_sent = 0, bt_failure = None, bt_payloads = [], bt_run = run \<rparr>"

lemma batch_confirmed:
  assumes order: "in_order (en_table env dest source)"
    and records: "records = read_source env dest source last_id n"
    and sent: "send_batch env s dest source fl deadline t records (fresh_batch last_id run) w = (b, w1)"
    and conf: "confirm_batch env records last_id b w1 = (Inr b2, w2)"
  shows "\<exists>es letters. went w w2 es letters \<and> last_id \<le> bt_consumed b2 \<and>
    below env dest source fl es letters last_id (bt_consumed b2) \<and>
    (\<forall>h e. bt_failure b2 = Some (h, e) \<longrightarrow> h \<in> set records \<and> below env dest source fl es letters last_id (sr_id h - 1))"
proof -
  obtain past left es letters where split: "records = past @ left" and w1: "went w w1 es letters"
    and res: "batch_result env dest source fl (fresh_batch last_id run) b past left es letters"
    using send_batch_progress [OF sent] by blast
  note quiet = batch_resultD(1) [OF res]
  note begins = read_source_beginning [OF order records [symmetric, unfolded split]]
  have consumed: "bt_consumed b = (if past = [] then last_id else sr_id (List.last past))"
    using batch_resultD(2) [OF res] by (simp add: fresh_batch_def)
  have after_last: "last_id < sr_id r" if "r \<in> set records" for r
    using that read_source_mem unfolding records by blast
  have done_below: "below env dest source fl fs ms last_id (bt_consumed b)"
    if "\<forall>r \<in> set past. accounted env dest source fl fs ms r" for fs ms
  proof (cases "past = []")
    case False
    with that begins(1) show ?thesis unfolding below_def consumed by simp
  qed (simp add: consumed)
  have head_below: "below env dest source fl fs ms last_id (sr_id h - 1)"
    if "\<forall>r \<in> set past. accounted env dest source fl fs ms r" "left = h # rest" for fs ms h rest
    using that(1) begins(2) [OF _ _ that(2)] unfolding below_def by simp
  have grows: "last_id \<le> bt_consumed b"
    using after_last [of "List.last past"] split unfolding consumed by (auto simp: less_imp_le)
  have failed: "\<exists>rest. left = h # rest" if "bt_failure b = Some (h, e)" for h e
    using batch_resultD(7) [OF res] that by (auto simp: fresh_batch_def)
  consider (none) "bt_sent b = 0" "b2 = b" "w2 = w1"
    | (ok) "bt_sent b \<noteq> 0" "finish_batch env w1 = (None, w2)" "b2 = b"
    | (lost) e h where "bt_sent b \<noteq> 0" "finish_batch env w1 = (Some e, w2)"
        "find (\<lambda>r. sr_id r \<in> payload_ids b) records = Some h"
        "bt_consumed b2 = fold max (map sr_id (filter (\<lambda>r. sr_id r < sr_id h) records)) last_id"
        "\<exists>m. bt_failure b2 = Some (h, m)"
    using conf unfolding confirm_batch_def payload_ids_def
    by (auto split: prod.splits option.splits if_splits)
  then show ?thesis
  proof cases
    case none
    have acc: "\<forall>r \<in> set past. accounted env dest source fl es letters r"
      using batch_resultD(4) [OF res] none(1) passed_accounted by (simp add: fresh_batch_def)
    have "h \<in> set records \<and> below env dest source fl es letters last_id (sr_id h - 1)" if "bt_failure b = Some (h, e)" for h e
      using failed [OF that] head_below [OF acc] split by auto
    then show ?thesis using w1 grows done_below [OF acc] unfolding none(2,3) by blast
  next
    case ok
    have w2: "went w w2 (es @ [Finish None]) letters"
      using went_trans [OF w1 went_finish [OF ok(2)]] by simp
    have acc: "\<forall>r \<in> set past. accounted env dest source fl (es @ [Finish None]) letters r"
      using batch_resultD(3) [OF res] passed_accounted sent_ok_accounted [OF quiet] by blast
    have "h \<in> set records \<and> below env dest source fl (es @ [Finish None]) letters last_id (sr_id h - 1)"
      if "bt_failure b = Some (h, e)" for h e
      using failed [OF that] head_below [OF acc] split by auto
    then show ?thesis using w2 grows done_below [OF acc] unfolding ok(3) by blast
  next
    case lost
    have w2: "went w w2 (es @ [Finish (Some e)]) letters"
      using went_trans [OF w1 went_finish [OF lost(2)]] by simp
    obtain us vs where uv: "records = us @ h # vs" and us: "\<forall>u \<in> set us. sr_id u \<notin> payload_ids b" and h: "sr_id h \<in> payload_ids b"
      using lost(3) unfolding find_Some_iff by (metis id_take_nth_drop in_set_conv_nth length_take min.absorb4 nth_take)
    have ids: "payload_ids b \<subseteq> sr_id ` set (past @ take 1 left)"
      using batch_resultD(6) [OF res] by (simp add: fresh_batch_def payload_ids_def)
    note order_r = read_source_in_order [OF order, of last_id n, folded records]
    have before: "r \<in> set past" if "r \<in> set us" for r
    proof -
      obtain g where g: "g \<in> set (past @ take 1 left)" "sr_id g = sr_id h" using h ids by force
      have "sr_id r < sr_id g" using in_order_append [of us "h # vs"] order_r uv that g(2) by simp
      moreover have "r \<in> set (past @ left)" using that unfolding split [symmetric] uv by simp
      moreover have "sr_id g \<le> sr_id r" if "r \<in> set left"
      proof -
        have o: "in_order (past @ left)" using order_r split by simp
        from g(1) consider "g \<in> set past" | rest where "left = g # rest" by (cases left) auto
        then show ?thesis
        proof cases
          case 1
          then show ?thesis using in_order_append [OF o 1 that] by simp
        next
          case 2
          then show ?thesis using in_order_appendD [OF o] that by (auto simp: in_order_def)
        qed
      qed
      ultimately show ?thesis by fastforce
    qed
    have acc: "accounted env dest source fl (es @ [Finish (Some e)]) letters r" if "r \<in> set us" for r
      using batch_resultD(5) [OF res] before [OF that] us that passed_accounted by blast
    have hb: "below env dest source fl (es @ [Finish (Some e)]) letters last_id (sr_id h - 1)"
      using acc read_source_beginning(2) [OF order records [symmetric, unfolded uv]] unfolding below_def by simp
    have "bt_consumed b2 < sr_id h" using after_last [of h] uv unfolding lost(4) fold_max_bound(1) by auto
    moreover have "last_id \<le> bt_consumed b2" unfolding lost(4) by (rule fold_max_bound(2))
    ultimately have "below env dest source fl (es @ [Finish (Some e)]) letters last_id (bt_consumed b2)"
      using hb unfolding below_def by fastforce
    then show ?thesis using w2 hb \<open>last_id \<le> bt_consumed b2\<close> lost(5) uv by fastforce
  qed
qed

lemma confirm_batch_position:
  "confirm_batch env records last_id b w = (res, w') \<Longrightarrow> position (sw_db w') = position (sw_db w)"
  by (auto simp: confirm_batch_def finish_batch_def Let_def siem_simps split: if_splits option.splits)

section \<open>The probes\<close>

lemma probe_each_went:
  assumes "probe_each env dest rs w = (found, w')"
  shows "\<exists>es. went w w' es [] \<and> (\<forall>r. found = Some r \<longrightarrow> r \<in> set rs \<and> accounted env dest source fl es [] r)"
    and "sw_db w' = sw_db w"
proof -
  have "(\<exists>es. went w w' es [] \<and> (\<forall>r. found = Some r \<longrightarrow> r \<in> set rs \<and> accounted env dest source fl es [] r)) \<and>
      sw_db w' = sw_db w"
    using assms
  proof (induction rs arbitrary: w)
    case Nil
    then show ?case by (auto intro: exI [of _ "[]"])
  next
    case (Cons r rs)
    have later: ?case if "went w w1 es0 []" "sw_db w1 = sw_db w" "probe_each env dest rs w1 = (found, w')" for w1 es0
    proof -
      from Cons.IH [OF that(3)] obtain es where es: "went w1 w' es []" "sw_db w' = sw_db w1"
        "\<forall>r. found = Some r \<longrightarrow> r \<in> set rs \<and> accounted env dest source fl es [] r" by blast
      have "\<forall>x. found = Some x \<longrightarrow> x \<in> set (r # rs) \<and> accounted env dest source fl (es0 @ es) ([] @ []) x"
        using es(3) accounted_after by fastforce
      with went_trans [OF that(1) es(1)] es(2) that(2) show ?thesis by fastforce
    qed
    show ?case
    proof (cases "en_format env dest r")
      case (Inl e)
      with Cons.prems later [of w "[]"] show ?thesis by simp
    next
      case (Inr p)
      obtain sent w1 where s: "send_record env p (Some (sr_time r)) w = (sent, w1)" by fastforce
      have d1: "sw_db w1 = sw_db w" using s by (auto simp: send_record_def Let_def siem_simps)
      obtain conf w2 where f: "finish_batch env w1 = (conf, w2)" by fastforce
      have d2: "sw_db w2 = sw_db w" using f d1 by (auto simp: finish_batch_def Let_def siem_simps)
      have w2: "went w w2 [Send p (Some (sr_time r)) sent, Finish conf] []"
        using went_trans [OF went_send [OF s] went_finish [OF f]] by simp
      consider (no) "sent \<noteq> None" | (lost) "sent = None" "conf \<noteq> None" | (yes) "sent = None" "conf = None" by blast
      then show ?thesis
      proof cases
        case no
        then have "probe_each env dest rs w1 = (found, w')" using Cons.prems Inr s by auto
        from later [OF went_send [OF s] d1 this] show ?thesis .
      next
        case lost
        then have "probe_each env dest rs w2 = (found, w')" using Cons.prems Inr s f by auto
        from later [OF w2 d2 this] show ?thesis .
      next
        case yes
        then have x: "found = Some r" "w' = w2" using Cons.prems Inr s f by auto
        have "(p, Some (sr_time r)) \<in> delivered [Send p (Some (sr_time r)) sent, Finish conf]"
          by (simp add: delivered_def yes)
        with Inr have "accounted env dest source fl [Send p (Some (sr_time r)) sent, Finish conf] [] r"
          by (auto simp: accounted_def)
        with w2 d2 x show ?thesis by auto
      qed
    qed
  qed
  then show "\<exists>es. went w w' es [] \<and> (\<forall>r. found = Some r \<longrightarrow> r \<in> set rs \<and> accounted env dest source fl es [] r)"
    and "sw_db w' = sw_db w" by simp_all
qed

section \<open>After a failure\<close>

lemma read_source_below:
  assumes "in_order (en_table env dest source)" and "x \<in> set (read_source env dest source last_id n)"
    and "r \<in> set (en_table env dest source)" "last_id < sr_id r" "sr_id r < sr_id x"
  shows "r \<in> set (read_source env dest source last_id n)"
proof -
  from split_list [OF assms(2)] obtain us vs where "read_source env dest source last_id n = us @ x # vs" by blast
  from read_source_beginning(2) [OF assms(1) this assms(3,4) refl assms(5)] this show ?thesis by simp
qed

lemma in_order_inj: "in_order rs \<Longrightarrow> a \<in> set rs \<Longrightarrow> b \<in> set rs \<Longrightarrow> sr_id a = sr_id b \<Longrightarrow> a = b"
  by (induction rs) (auto simp: in_order_def)

text \<open>Past the head: it is in the DLQ, and a probe the cursor moves to went out with nothing between.\<close>

lemma below_past:
  assumes order: "in_order (en_table env dest source)"
    and letters: "lettered dest source letters h"
    and nxt: "past = sr_id h \<or>
      past = sr_id nxt \<and> nxt \<in> set ahead \<and> \<not> passes_between ahead h nxt \<and> accounted env dest source fl es letters nxt"
    and ahead: "set ahead \<subseteq> set (en_table env dest source)"
      "\<And>x r. x \<in> set ahead \<Longrightarrow> r \<in> set (en_table env dest source) \<Longrightarrow> sr_id h < sr_id r \<Longrightarrow> sr_id r < sr_id x \<Longrightarrow> r \<in> set ahead"
  shows "below env dest source fl es letters (sr_id h - 1) past"
  unfolding below_def
proof (intro ballI impI)
  fix r assume r: "r \<in> set (en_table env dest source)" and b: "sr_id h - 1 < sr_id r \<and> sr_id r \<le> past"
  consider (head) "sr_id r = sr_id h" | (next_one) "sr_id h < sr_id r" "past = sr_id nxt" "sr_id r = sr_id nxt" "nxt \<in> set ahead"
      "accounted env dest source fl es letters nxt"
    | (between) "sr_id h < sr_id r" "sr_id r < sr_id nxt" "nxt \<in> set ahead" "\<not> passes_between ahead h nxt"
    using nxt b by linarith
  then show "accounted env dest source fl es letters r"
  proof cases
    case head
    with letters show ?thesis by (auto simp: accounted_def lettered_def)
  next
    case next_one
    with in_order_inj [OF order r, of nxt] ahead(1) show ?thesis by auto
  next
    case between
    with ahead(2) [OF between(3) r] show ?thesis by (auto simp: passes_between_def)
  qed
qed

lemma give_up_head_went:
  assumes "give_up_head env s dest source ahead h p error attempts probed t run w = (run', w')"
    and pos: "position (sw_db w) (sd_id dest, source) = Some (m, ss_pce_url s, ss_org_id s)"
  shows "\<exists>letters m'. went w w' [] letters \<and>
    position (sw_db w') (sd_id dest, source) = Some (m', ss_pce_url s, ss_org_id s) \<and>
    (m' = m \<or> lettered dest source letters h \<and>
      m' = max m (case probed of None \<Rightarrow> sr_id h | Some nxt \<Rightarrow> if passes_between ahead h nxt then sr_id h else sr_id nxt))"
proof -
  obtain ok w1 where q: "quarantine_record s dest source h p error attempts t False w = (ok, w1)" by fastforce
  note facts = quarantine_record_went [OF q]
  from facts(1) obtain letters where l: "went w w1 [] letters" "ok \<longrightarrow> lettered dest source letters h" by blast
  have pos1: "position (sw_db w1) (sd_id dest, source) = Some (m, ss_pce_url s, ss_org_id s)"
    using facts(2) pos by simp
  show ?thesis
  proof (cases ok)
    case True
    then have "w' = on_db (fst \<circ> advance (sd_id dest) source (ss_pce_url s) (ss_org_id s)
        (case probed of None \<Rightarrow> sr_id h | Some nxt \<Rightarrow> if passes_between ahead h nxt then sr_id h else sr_id nxt)
        (case probed of None \<Rightarrow> 0 | Some _ \<Rightarrow> 1) t) w1"
      using assms(1) q by (auto simp: give_up_head_def Let_def)
    then show ?thesis
      using l True advance_position(2) [OF pos1] by (auto simp: went_def siem_simps)
  next
    case False
    then have "w' = w1" using assms(1) q by (simp add: give_up_head_def Let_def)
    with l pos1 show ?thesis by blast
  qed
qed

lemma after_failure_went:
  assumes order: "in_order (en_table env dest source)"
    and records: "records = read_source env dest source last_id n" and h: "h \<in> set records"
    and pos: "position (sw_db w) (sd_id dest, source) = Some (m, ss_pce_url s, ss_org_id s)"
    and run: "after_failure env s dest source records payloads h error t run w = (res, w')"
  shows "\<exists>es letters m'. went w w' es letters \<and>
    position (sw_db w') (sd_id dest, source) = Some (m', ss_pce_url s, ss_org_id s) \<and>
    (m' = m \<or> (\<exists>past. m' = max m past \<and> below env dest source fl es letters (sr_id h - 1) past))"
proof -
  obtain db1 attempts where rf: "record_failure (sd_id dest) source (Some (sr_id h)) error t (sw_db w) = (db1, attempts)"
    by fastforce
  define w1 where "w1 = w\<lparr> sw_db := db1 \<rparr>"
  define st where "st = stuck env dest source h attempts t w1"
  define ahead where "ahead = look_ahead env dest source records h st"
  obtain probed w2 where pr: "(if st then (None, w1) else next_goes_through env dest ahead h w1) = (probed, w2)"
    by fastforce
  have w1: "went w w1 [] []" "position (sw_db w1) = position (sw_db w)"
    using dlq_simps(5) [of "sd_id dest" source "Some (sr_id h)" error t "sw_db w"]
      position_simps(6) [of "sd_id dest" source "Some (sr_id h)" error t "sw_db w"]
    by (auto simp: w1_def went_def rf)
  have probe: "\<exists>es. went w1 w2 es [] \<and> (\<forall>x. probed = Some x \<longrightarrow> x \<in> set ahead \<and> accounted env dest source fl es [] x)"
    and db2: "sw_db w2 = sw_db w1"
  proof -
    define tried where "tried = take PROBE (filter (\<lambda>r. sr_id h < sr_id r) ahead)"
    have a: "set tried \<subseteq> set ahead" unfolding tried_def using set_take_subset by fastforce
    show "\<exists>es. went w1 w2 es [] \<and> (\<forall>x. probed = Some x \<longrightarrow> x \<in> set ahead \<and> accounted env dest source fl es [] x)"
    proof (cases st)
      case True
      with pr show ?thesis by (auto intro: exI [of _ "[]"])
    next
      case False
      with pr have "probe_each env dest (take PROBE (filter (\<lambda>r. sr_id h < sr_id r) ahead)) w1 = (probed, w2)"
        by (simp add: next_goes_through_def)
      then have "probe_each env dest tried w1 = (probed, w2)" by (simp add: tried_def)
      from probe_each_went(1) [OF this, of source fl] obtain es where es: "went w1 w2 es [] \<and>
          (\<forall>r. probed = Some r \<longrightarrow> r \<in> set tried \<and> accounted env dest source fl es [] r)" by (rule exE)
      show ?thesis
      proof (rule exI [of _ es], rule conjI)
        show "went w1 w2 es []" using es by (rule conjunct1)
        show "\<forall>x. probed = Some x \<longrightarrow> x \<in> set ahead \<and> accounted env dest source fl es [] x"
        proof (intro allI impI)
          fix x
          assume "probed = Some x"
          with es have "x \<in> set tried" "accounted env dest source fl es [] x" by simp_all
          with a show "x \<in> set ahead \<and> accounted env dest source fl es [] x" by (simp add: subset_iff)
        qed
      qed
    qed
    show "sw_db w2 = sw_db w1"
      using pr probe_each_went(2) by (auto simp: next_goes_through_def split: if_splits)
  qed
  from probe obtain es where es: "went w1 w2 es []"
    "\<forall>x. probed = Some x \<longrightarrow> x \<in> set ahead \<and> accounted env dest source fl es [] x" by blast
  have w2: "went w w2 es []" using went_trans [OF w1(1) es(1)] by simp
  have pos2: "position (sw_db w2) (sd_id dest, source) = Some (m, ss_pce_url s, ss_org_id s)"
    using pos w1(2) db2 by simp
  have hid: "last_id < sr_id h" "h \<in> set (en_table env dest source)" using h read_source_mem unfolding records by blast+
  have in_table: "set ahead \<subseteq> set (en_table env dest source)"
    using read_source_mem unfolding ahead_def look_ahead_def records Let_def by (auto split: if_splits)
  have closed: "r \<in> set ahead" if "x \<in> set ahead" "r \<in> set (en_table env dest source)" "sr_id h < sr_id r" "sr_id r < sr_id x" for x r
    using that read_source_below [OF order, of x _ _ r] hid(1)
    unfolding ahead_def look_ahead_def records Let_def by (auto split: if_splits)
  have go: "(res, w') = (if st \<or> probed \<noteq> None then
        (case head_payload env dest payloads h of
           Inl e \<Rightarrow> (Inl e, w2)
         | Inr payload \<Rightarrow> (let (r', w3) = give_up_head env s dest source ahead h payload error attempts probed t
                (run\<lparr> rn_error := Some error, rn_unreachable := True \<rparr>) w2 in (Inr r', w3)))
      else (Inr (run\<lparr> rn_error := Some error, rn_unreachable := True \<rparr>), w2))"
    if "\<not> (\<not> st \<and> attempts < sd_max_retries dest)" "\<not> dlq_full s dest w1"
    using that run unfolding after_failure_def rf Let_def split_def fst_conv snd_conv
      w1_def [symmetric] st_def [symmetric] ahead_def [symmetric] pr by (auto split: if_splits)
  have early: "w' = w1" if "\<not> st" "attempts < sd_max_retries dest"
    using that run by (simp add: after_failure_def rf Let_def st_def w1_def)
  have full: "w' = held dest source t w1" if "\<not> (\<not> st \<and> attempts < sd_max_retries dest)" "dlq_full s dest w1"
    using that run by (simp add: after_failure_def rf Let_def st_def w1_def split: if_splits)
  have "w' = w1 \<or> w' = held dest source t w1 \<or> w' = w2 \<or>
      (\<exists>p r'. give_up_head env s dest source ahead h p error attempts probed t
         (run\<lparr> rn_error := Some error, rn_unreachable := True \<rparr>) w2 = (r', w'))"
  proof (cases "\<not> (\<not> st \<and> attempts < sd_max_retries dest) \<and> \<not> dlq_full s dest w1")
    case True
    from go [OF conjunct1 [OF True] conjunct2 [OF True]] show ?thesis
      by (auto split: if_splits sum.splits prod.splits)
  next
    case False
    then show ?thesis using early full by blast
  qed
  then consider (same1) "w' = w1" | (full) "w' = held dest source t w1" | (same2) "w' = w2"
    | (given_up) p r' where "give_up_head env s dest source ahead h p error attempts probed t
         (run\<lparr> rn_error := Some error, rn_unreachable := True \<rparr>) w2 = (r', w')"
    by blast
  then show ?thesis
  proof cases
    case same1
    then show ?thesis using w1 pos by auto
  next
    case full
    then show ?thesis using w1 pos by (auto simp: held_def went_def siem_simps)
  next
    case same2
    then show ?thesis using w2 pos2 by blast
  next
    case given_up
    from give_up_head_went [OF this pos2] obtain letters m' where g: "went w2 w' [] letters"
      "position (sw_db w') (sd_id dest, source) = Some (m', ss_pce_url s, ss_org_id s)"
      "m' = m \<or> lettered dest source letters h \<and>
        m' = max m (case probed of None \<Rightarrow> sr_id h | Some nxt \<Rightarrow> if passes_between ahead h nxt then sr_id h else sr_id nxt)" by blast
    have w3: "went w w' es letters" using went_trans [OF w2 g(1)] by simp
    from g(3) show ?thesis
    proof
      assume "m' = m"
      then show ?thesis using w3 g(2) by blast
    next
      assume m': "lettered dest source letters h \<and>
        m' = max m (case probed of None \<Rightarrow> sr_id h | Some nxt \<Rightarrow> if passes_between ahead h nxt then sr_id h else sr_id nxt)"
      have acc: "accounted env dest source fl es letters x \<and> x \<in> set ahead" if "probed = Some x" for x
        using es(2) that accounted_before [of env dest source fl es "[]" x "[]" letters] by simp
      have "below env dest source fl es letters (sr_id h - 1)
          (case probed of None \<Rightarrow> sr_id h | Some nxt \<Rightarrow> if passes_between ahead h nxt then sr_id h else sr_id nxt)"
        by (rule below_past [OF order _ _ in_table closed, where nxt = "the probed"])
          (use m' acc in \<open>auto split: option.splits\<close>)
      with w3 g(2) m' show ?thesis by blast
    qed
  qed
qed

section \<open>The loop\<close>

lemma run_batch_went:
  assumes order: "in_order (en_table env dest source)"
    and records: "records = read_source env dest source last_id n"
    and pos: "position (sw_db w) (sd_id dest, source) = Some (last_id, ss_pce_url s, ss_org_id s)"
    and run: "run_batch env s dest source deadline last_id fl records run w = (res, w')"
  shows "\<exists>es letters m. went w w' es letters \<and>
    position (sw_db w') (sd_id dest, source) = Some (m, ss_pce_url s, ss_org_id s) \<and> last_id \<le> m \<and>
    below env dest source fl es letters last_id m \<and> (\<forall>l run'. res = Inr (l, run') \<longrightarrow> l = m)"
proof -
  let ?t = "en_now env (sw_wire w)"
  obtain b w1 where sent: "send_batch env s dest source fl deadline ?t records (fresh_batch last_id run) w = (b, w1)"
    by fastforce
  obtain conf w2 where conf: "confirm_batch env records last_id b w1 = (conf, w2)" by fastforce
  have pos2: "position (sw_db w2) (sd_id dest, source) = Some (last_id, ss_pce_url s, ss_org_id s)"
    using send_batch_position [OF sent] confirm_batch_position [OF conf] pos by simp
  show ?thesis
  proof (cases conf)
    case (Inl e)
    have "\<exists>es letters. went w w2 es letters"
    proof -
      obtain es ls where "went w w1 es ls" using send_batch_progress [OF sent] by blast
      moreover have "\<exists>fs. went w1 w2 fs []"
        using conf by (auto simp: confirm_batch_def finish_batch_def Let_def went_def siem_simps
            split: if_splits option.splits)
      ultimately show ?thesis using went_trans by blast
    qed
    moreover have "w' = w2" "res = Inl (Inl e)"
      using run sent conf Inl by (auto simp: run_batch_def fresh_batch_def Let_def)
    ultimately show ?thesis using pos2 below_refl by blast
  next
    case (Inr b2)
    from batch_confirmed [OF order records sent conf [unfolded Inr]] obtain es letters where
      w2: "went w w2 es letters" and c: "last_id \<le> bt_consumed b2"
        "below env dest source fl es letters last_id (bt_consumed b2)"
      and fail: "\<forall>h e. bt_failure b2 = Some (h, e) \<longrightarrow>
        h \<in> set records \<and> below env dest source fl es letters last_id (sr_id h - 1)" by (elim exE conjE)
    obtain db3 moved where adv: "advance (sd_id dest) source (ss_pce_url s) (ss_org_id s) (bt_consumed b2)
        (bt_sent b2) ?t (sw_db w2) = (db3, moved)" by fastforce
    note adv_facts = advance_position [OF pos2, of "bt_consumed b2" "bt_sent b2" ?t, unfolded adv fst_conv snd_conv]
    define w3 where "w3 = w2\<lparr> sw_db := db3 \<rparr>"
    have w3: "went w w3 es letters"
      using w2 dlq_simps(6) [of "sd_id dest" source "ss_pce_url s" "ss_org_id s" "bt_consumed b2" "bt_sent b2" ?t "sw_db w2"]
      by (simp add: went_def w3_def adv)
    have pos3: "position (sw_db w3) (sd_id dest, source) = Some (bt_consumed b2, ss_pce_url s, ss_org_id s)"
      using adv_facts(2) c(1) by (simp add: w3_def)
    define run2 where "run2 = (bt_run b2)\<lparr> rn_sent := rn_sent (bt_run b2) + bt_sent b2 \<rparr>"
    have run': "(res, w') = (if rn_dlq_full run2 then (Inl (Inr (run2\<lparr> rn_error := Some ''dlq_full'' \<rparr>)), w3)
       else case bt_failure b2 of
         Some (head, error) \<Rightarrow>
           (let (res, w4) = after_failure env s dest source records (bt_payloads b2) head error ?t run2 w3 in (Inl res, w4))
       | None \<Rightarrow>
           (if length records < sd_batch_size dest \<or> bt_consumed b2 < sr_id (List.last records)
            then (Inl (Inr run2), w3) else (Inr (bt_consumed b2, run2), w3)))"
      using run adv_facts(1) sent conf adv unfolding w3_def run2_def
      by (auto simp: run_batch_def fresh_batch_def Let_def Inr split: if_splits option.splits prod.splits)
    consider (stays) "w' = w3" "\<forall>l run'. res = Inr (l, run') \<longrightarrow> l = bt_consumed b2"
      | (failed) h e r' where "bt_failure b2 = Some (h, e)" "res = Inl r'"
          "after_failure env s dest source records (bt_payloads b2) h e ?t run2 w3 = (r', w')"
      using run' by (auto split: if_splits option.splits prod.splits)
    then show ?thesis
    proof cases
      case stays
      then show ?thesis using w3 pos3 c by blast
    next
      case failed
      from fail failed(1) have h: "h \<in> set records" "below env dest source fl es letters last_id (sr_id h - 1)" by simp_all
      from after_failure_went [OF order records h(1) pos3 failed(3), of fl] obtain fs ms m' where
        f: "went w3 w' fs ms" "position (sw_db w') (sd_id dest, source) = Some (m', ss_pce_url s, ss_org_id s)"
        "m' = bt_consumed b2 \<or> (\<exists>past. m' = max (bt_consumed b2) past \<and> below env dest source fl fs ms (sr_id h - 1) past)"
        by (elim exE conjE)
      note w4 = went_trans [OF w3 f(1)]
      have more: "below env dest source fl (es @ fs) (letters @ ms) last_id (bt_consumed b2)"
        using c(2) accounted_before unfolding below_def by blast
      from f(3) show ?thesis
      proof
        assume "m' = bt_consumed b2"
        then show ?thesis using w4 f(2) c(1) more failed(2) by blast
      next
        assume "\<exists>past. m' = max (bt_consumed b2) past \<and> below env dest source fl fs ms (sr_id h - 1) past"
        then obtain past where p: "m' = max (bt_consumed b2) past" "below env dest source fl fs ms (sr_id h - 1) past" by blast
        have "below env dest source fl (es @ fs) (letters @ ms) last_id past" by (rule below_append [OF h(2) p(2)])
        with more have "below env dest source fl (es @ fs) (letters @ ms) last_id m'"
          unfolding p(1) below_def by (simp add: le_max_iff_disj) blast
        moreover have "last_id \<le> m'" using c(1) p(1) by simp
        ultimately show ?thesis using w4 f(2) failed(2) by blast
      qed
    qed
  qed
qed

lemma run_loop_went:
  assumes order: "in_order (en_table env dest source)"
  shows "position (sw_db w) (sd_id dest, source) = Some (last_id, ss_pce_url s, ss_org_id s) \<Longrightarrow>
    run_loop env s dest source gen deadline last_id fl run w = (res, w') \<Longrightarrow>
    \<exists>es letters m. went w w' es letters \<and>
      position (sw_db w') (sd_id dest, source) = Some (m, ss_pce_url s, ss_org_id s) \<and> last_id \<le> m \<and>
      below env dest source fl es letters last_id m"
  using order
proof (induction env s dest source gen deadline last_id fl run w rule: run_loop.induct)
  case (1 env s dest source gen deadline last_id fl run w)
  define records where "records = read_source env dest source last_id (sd_batch_size dest)"
  obtain c w1 where c: "clock_now env w = (c, w1)" by fastforce
  have w1: "went w w1 [Clock] []" using went_clock [OF c] .
  have pos1: "position (sw_db w1) (sd_id dest, source) = Some (last_id, ss_pce_url s, ss_org_id s)"
    using "1.prems"(1) c by (auto simp: clock_now_def siem_simps)
  note step = "1.prems"(2) [unfolded run_loop.simps [of env s dest source gen deadline last_id fl run w] c,
      folded records_def]
  consider (stop) "w' = w1" | (unfloor) "w' = on_db (set_floor (sd_id dest) source None) w1"
    | (batch) "c < deadline" "records \<noteq> []" "en_generation env (sw_wire w1) = gen"
    using step by (auto simp: Let_def records_def [symmetric] split: if_splits)
  then show ?case
  proof cases
    case stop
    then show ?thesis using w1 pos1 below_refl by blast
  next
    case unfloor
    then have "went w w' [Clock] []" "position (sw_db w') (sd_id dest, source) = Some (last_id, ss_pce_url s, ss_org_id s)"
      using w1 pos1 by (auto simp: went_def siem_simps)
    then show ?thesis using below_refl by blast
  next
    case batch
    obtain res1 w2 where b: "run_batch env s dest source deadline last_id fl records run w1 = (res1, w2)" by fastforce
    from run_batch_went [OF "1.prems"(3) records_def pos1 b] obtain es letters m where
      r: "went w1 w2 es letters" "position (sw_db w2) (sd_id dest, source) = Some (m, ss_pce_url s, ss_org_id s)"
        "last_id \<le> m" "below env dest source fl es letters last_id m" "\<forall>l run'. res1 = Inr (l, run') \<longrightarrow> l = m"
      by (elim exE conjE)
    have w2: "went w w2 ([Clock] @ es) ([] @ letters)" by (rule went_trans [OF w1 r(1)])
    have low: "below env dest source fl ([Clock] @ es) ([] @ letters) last_id m"
      using r(4) accounted_after unfolding below_def by blast
    show ?thesis
    proof (cases res1)
      case (Inl a)
      then have "w' = w2" using step batch b by (simp add: Let_def)
      with w2 r(2,3) low show ?thesis by blast
    next
      case (Inr p)
      obtain l run' where p: "p = (l, run')" by fastforce
      have l: "l = m" using r(5) Inr p by simp
      have again: "run_loop env s dest source gen deadline m fl run' w2 = (res, w')"
        using step batch b Inr p l by (simp add: Let_def)
      have "\<exists>es letters m'. went w2 w' es letters \<and>
          position (sw_db w') (sd_id dest, source) = Some (m', ss_pce_url s, ss_org_id s) \<and> m \<le> m' \<and>
          below env dest source fl es letters m m'"
        using "1.IH" [OF refl c [symmetric] _ records_def _ _ b [symmetric] Inr p [symmetric]] batch again r(2) "1.prems"(3)
        unfolding l by blast
      then obtain fs ms m' where f: "went w2 w' fs ms"
        "position (sw_db w') (sd_id dest, source) = Some (m', ss_pce_url s, ss_org_id s)" "m \<le> m'"
        "below env dest source fl fs ms m m'" by (elim exE conjE)
      show ?thesis
        using went_trans [OF w2 f(1)] f(2) below_append [OF low f(4)] r(3) f(3) by (meson order_trans)
    qed
  qed
qed

section \<open>A run\<close>

lemma position_cursor:
  "position db (d, source) = Some (n, u, g) \<longleftrightarrow>
     (\<exists>c. get_cursor db d source = Some c \<and> cu_last_id c = n \<and> cu_pce_url c = u \<and> cu_org_id c = g)"
  by (auto simp: position_def get_cursor_def)

text \<open>C14. A cursor never passes a record over: of the records between where a run of a source started and where its
  cursor is left, each had its line sent and the batch it was in confirmed during that run, or went to the
  DLQ in that run, or is at or before the floor (5.x had sent it). This holds for every pattern of refusals,
  timeouts, unconfirmed batches, formatting errors, probes and a full DLQ, and when the run ends in an exception;
  the cursor never moves back.\<close>

theorem nothing_passed_over:
  assumes "in_order (en_table env dest source)"
    and "get_cursor (sw_db w) (sd_id dest) source = Some c"
    and "cu_pce_url c = ss_pce_url s" "cu_org_id c = ss_org_id s"
    and "run_source env s dest source gen deadline w = (res, w')"
  shows "\<exists>c' es letters. get_cursor (sw_db w') (sd_id dest) source = Some c' \<and> cu_last_id c \<le> cu_last_id c' \<and>
    sw_wire w' = sw_wire w @ es \<and> db_dlq (sw_db w') = db_dlq (sw_db w) @ letters \<and>
    (\<forall>r \<in> set (en_table env dest source). cu_last_id c < sr_id r \<and> sr_id r \<le> cu_last_id c' \<longrightarrow>
       accounted env dest source (cu_floor_time c) es letters r)"
proof -
  have pos: "position (sw_db w) (sd_id dest, source) = Some (cu_last_id c, ss_pce_url s, ss_org_id s)"
    using assms(2-4) by (auto simp: position_cursor)
  have "run_loop env s dest source gen deadline (cu_last_id c) (cu_floor_time c) new_run w = (res, w')"
    using assms(2-5) by (simp add: run_source_def Let_def)
  from run_loop_went [OF assms(1) pos this] show ?thesis
    unfolding went_def below_def position_cursor by blast
qed

end
