(* ===== verification/SiemRuns.thy ===== *)
theory SiemRuns
  imports SiemAccount
begin

text \<open>
  More about the runs of a source: the DLQ stays within its bound, an outage leaves everything where it is, a
  destination that takes what it is sent is caught up with; and example runs.
\<close>

section \<open>What a run keeps\<close>

text \<open>An invariant of the database that each operation a run of one source uses keeps, is kept by the run. A line
  goes to the DLQ only while there is room.\<close>

locale siem_kept =
  fixes s :: siem_settings and dest :: siem_destination and source :: string and K :: "siem_db \<Rightarrow> bool"
  assumes sends_kept: "K db \<Longrightarrow> K (record_sends (sd_id dest) t a b db)"
    and note_kept: "K db \<Longrightarrow> K (note_error (sd_id dest) source e t db)"
    and floor_kept: "K db \<Longrightarrow> K (set_floor (sd_id dest) source None db)"
    and letter_kept: "K db \<Longrightarrow> dlq_count db (Some (sd_id dest)) None < ss_dlq_max_per_dest s \<Longrightarrow>
      K (quarantine (sd_id dest) source i x et p m e n t db)"
    and advance_kept: "K db \<Longrightarrow> K (fst (advance (sd_id dest) source u g n k t db))"
    and failure_kept: "K db \<Longrightarrow> K (fst (record_failure (sd_id dest) source h e t db))"
begin

lemma calls_kept:
  "clock_now env w = (c, w') \<Longrightarrow> K (sw_db w') = K (sw_db w)"
  "send_record env p t w = (r, w') \<Longrightarrow> K (sw_db w') = K (sw_db w)"
  "finish_batch env w = (r, w') \<Longrightarrow> K (sw_db w') = K (sw_db w)"
  by (auto simp: clock_now_def send_record_def finish_batch_def Let_def siem_simps)

lemma quarantine_record_kept:
  assumes "quarantine_record s dest source r payload error n t now w = (ok, w')" "K (sw_db w)"
  shows "K (sw_db w')"
proof -
  define w1 where "w1 = (if now then on_db (record_sends (sd_id dest) t 0 1) w else w)"
  have w1: "K (sw_db w1)" using assms(2) sends_kept by (simp add: w1_def siem_simps)
  show ?thesis
  proof (cases "dlq_full s dest w1")
    case True
    then have "w' = held dest source t w1" using assms(1) by (simp add: quarantine_record_def w1_def Let_def)
    then show ?thesis using w1 note_kept by (simp add: held_def siem_simps)
  next
    case False
    then have "w' = on_db (quarantine (sd_id dest) source (sr_id r) (external_id r) (Some (sr_time r)) payload
        (sent_as dest) error n t) w1"
      using assms(1) by (simp add: quarantine_record_def w1_def Let_def)
    then show ?thesis using False w1 letter_kept by (simp add: dlq_full_def siem_simps)
  qed
qed

lemma set_aside_kept:
  assumes "set_aside s dest source r payload error t b w = (ok, b', w')" "K (sw_db w)"
  shows "K (sw_db w')"
proof -
  obtain ok1 w1 where q: "quarantine_record s dest source r payload error 1 t True w = (ok1, w1)" by fastforce
  with assms(1) have "w' = w1" by (auto simp: set_aside_def split: if_splits)
  then show ?thesis using quarantine_record_kept [OF q assms(2)] by simp
qed

lemma send_batch_kept:
  "send_batch env s dest source fl deadline t rs b w = (b', w') \<Longrightarrow> K (sw_db w) \<Longrightarrow> K (sw_db w')"
proof (induction rs arbitrary: b w)
  case Nil
  then show ?case by simp
next
  case (Cons r rs)
  obtain c w1 where c: "clock_now env w = (c, w1)" by fastforce
  have w1: "K (sw_db w1)" using Cons.prems(2) calls_kept(1) [OF c] by simp
  show ?case
  proof (cases "deadline \<le> c \<or> (case fl of None \<Rightarrow> False | Some f \<Rightarrow> sr_time r \<le> f)")
    case True
    then show ?thesis using Cons.prems(1) c w1 Cons.IH by (auto split: if_splits)
  next
    case go: False
    show ?thesis
    proof (cases "en_format env dest r")
      case (Inl e)
      obtain ok b2 w2 where a: "set_aside s dest source r (take 4000 (en_repr env r)) (''format: '' @ ex_text e) t b w1 = (ok, b2, w2)"
        by (metis prod_cases3)
      show ?thesis
        using Cons.prems(1) c go Inl a set_aside_kept [OF a w1] Cons.IH by (auto split: if_splits)
    next
      case (Inr p)
      obtain reply w2 where r: "send_record env p (Some (sr_time r)) w1 = (reply, w2)" by fastforce
      have w2: "K (sw_db w2)" using w1 calls_kept(2) [OF r] by simp
      let ?b1 = "b\<lparr> bt_payloads := dict_set (sr_id r) p (bt_payloads b) \<rparr>"
      show ?thesis
      proof (cases "\<exists>e. reply = Some e \<and> permanent e")
        case True
        then obtain e where e: "reply = Some e" "permanent e" by blast
        obtain ok b2 w3 where a: "set_aside s dest source r p (''refused: '' @ ex_text e) t ?b1 w2 = (ok, b2, w3)"
          by (metis prod_cases3)
        show ?thesis
          using Cons.prems(1) c go Inr r e a set_aside_kept [OF a w2] Cons.IH
          by (auto simp: Let_def split: if_splits)
      next
        case False
        then show ?thesis
          using Cons.prems(1) c go Inr r w2 Cons.IH by (auto simp: Let_def split: if_splits option.splits)
      qed
    qed
  qed
qed

lemma confirm_batch_kept: "confirm_batch env records last_id b w = (res, w') \<Longrightarrow> K (sw_db w') = K (sw_db w)"
  by (auto simp: confirm_batch_def calls_kept split: if_splits option.splits prod.splits)

lemma give_up_head_kept:
  assumes "give_up_head env s dest source ahead h p error attempts probed t run w = (run', w')" "K (sw_db w)"
  shows "K (sw_db w')"
proof -
  obtain ok w1 where q: "quarantine_record s dest source h p error attempts t False w = (ok, w1)" by fastforce
  from assms(1) q have "w' = w1 \<or> (\<exists>past sent. w' = on_db (fst \<circ> advance (sd_id dest) source (ss_pce_url s) (ss_org_id s) past sent t) w1)"
    by (auto simp: give_up_head_def Let_def split: if_splits)
  then show ?thesis using quarantine_record_kept [OF q assms(2)] advance_kept by (auto simp: siem_simps)
qed

lemma after_failure_kept:
  assumes "after_failure env s dest source records payloads h error t run w = (res, w')" "K (sw_db w)"
  shows "K (sw_db w')"
proof -
  define w1 where "w1 = w\<lparr> sw_db := fst (record_failure (sd_id dest) source (Some (sr_id h)) error t (sw_db w)) \<rparr>"
  define attempts where "attempts = snd (record_failure (sd_id dest) source (Some (sr_id h)) error t (sw_db w))"
  define ahead where "ahead = look_ahead env dest source records h (stuck env dest source h attempts t w1)"
  obtain probed w2 where pr: "(if stuck env dest source h attempts t w1 then (None, w1)
      else next_goes_through env dest ahead h w1) = (probed, w2)" by fastforce
  have w1: "K (sw_db w1)" using assms(2) failure_kept by (simp add: w1_def)
  have w2: "K (sw_db w2)"
    using pr w1 probe_each_went(2) by (auto simp: next_goes_through_def split: if_splits)
  have "w' = w1 \<or> w' = held dest source t w1 \<or> w' = w2 \<or>
      (\<exists>p run1 r'. give_up_head env s dest source ahead h p error attempts probed t run1 w2 = (r', w'))"
    using assms(1) unfolding after_failure_def Let_def split_def w1_def [symmetric] attempts_def [symmetric]
      ahead_def [symmetric] pr fst_conv snd_conv
    by (auto split: if_splits sum.splits) (metis prod.collapse)+
  then show ?thesis
    using w1 w2 note_kept give_up_head_kept [OF _ w2] by (auto simp: held_def siem_simps)
qed

lemma run_batch_kept:
  assumes "run_batch env s dest source deadline last_id fl records run w = (res, w')" "K (sw_db w)"
  shows "K (sw_db w')"
proof -
  let ?t = "en_now env (sw_wire w)"
  obtain b w1 where sent: "send_batch env s dest source fl deadline ?t records (fresh_batch last_id run) w = (b, w1)"
    by fastforce
  obtain conf w2 where conf: "confirm_batch env records last_id b w1 = (conf, w2)" by fastforce
  have w2: "K (sw_db w2)"
    using send_batch_kept [OF sent assms(2)] confirm_batch_kept [OF conf] by simp
  show ?thesis
  proof (cases conf)
    case (Inl e)
    then have "w' = w2" using assms(1) sent conf by (auto simp: run_batch_def fresh_batch_def Let_def)
    with w2 show ?thesis by simp
  next
    case (Inr b2)
    define w3 where "w3 = w2\<lparr> sw_db := fst (advance (sd_id dest) source (ss_pce_url s) (ss_org_id s) (bt_consumed b2)
        (bt_sent b2) ?t (sw_db w2)) \<rparr>"
    have w3: "K (sw_db w3)" using w2 advance_kept by (simp add: w3_def)
    have "w' = w3 \<or> (\<exists>h e run2 r'. after_failure env s dest source records (bt_payloads b2) h e ?t run2 w3 = (r', w'))"
      using assms(1) sent conf Inr
      by (auto simp: run_batch_def fresh_batch_def Let_def w3_def split: if_splits option.splits prod.splits)
    then show ?thesis using w3 after_failure_kept [OF _ w3] by auto
  qed
qed

lemma run_loop_kept:
  "run_loop env s dest source gen deadline last_id fl run w = (res, w') \<Longrightarrow> K (sw_db w) \<Longrightarrow> K (sw_db w')"
proof (induction "left_to_read env dest source last_id" arbitrary: last_id run w rule: less_induct)
  case less
  define records where "records = read_source env dest source last_id (sd_batch_size dest)"
  obtain c w1 where c: "clock_now env w = (c, w1)" by fastforce
  have w1: "K (sw_db w1)" using less.prems(2) calls_kept(1) [OF c] by simp
  note step = less.prems(1) [unfolded run_loop.simps [of env s dest source gen deadline last_id fl run w] c,
      folded records_def]
  consider (stop) "w' = w1" | (unfloor) "w' = on_db (set_floor (sd_id dest) source None) w1"
    | (batch) "c < deadline" "records \<noteq> []" "en_generation env (sw_wire w1) = gen"
    using step by (auto simp: Let_def records_def [symmetric] split: if_splits)
  then show ?case
  proof cases
    case stop
    then show ?thesis using w1 by simp
  next
    case unfloor
    then show ?thesis using w1 floor_kept by (simp add: siem_simps)
  next
    case batch
    obtain res1 w2 where b: "run_batch env s dest source deadline last_id fl records run w1 = (res1, w2)" by fastforce
    have w2: "K (sw_db w2)" by (rule run_batch_kept [OF b w1])
    show ?thesis
    proof (cases res1)
      case (Inl a)
      then have "w' = w2" using step batch b by (simp add: Let_def)
      with w2 show ?thesis by simp
    next
      case (Inr p)
      obtain l run' where p: "p = (l, run')" by fastforce
      have again: "run_loop env s dest source gen deadline l fl run' w2 = (res, w')"
        using step batch b Inr p by (simp add: Let_def)
      have "left_to_read env dest source l < left_to_read env dest source last_id"
        using left_to_read_less [OF records_def [symmetric] batch(2)] run_batch_goes_on b [unfolded Inr p] by blast
      from less.hyps [OF this again w2] show ?thesis .
    qed
  qed
qed

end

text \<open>With the operation that places a cursor, it is kept by the run of a source.\<close>

locale siem_kept_started = siem_kept +
  assumes start_kept: "K db \<Longrightarrow> K (start_cursor (sd_id dest) source u g n db)"
begin

lemma run_source_kept: "K (sw_db w) \<Longrightarrow> K (sw_db (snd (run_source env s dest source gen deadline w)))"
proof -
  assume w: "K (sw_db w)"
  obtain res w' where run: "run_source env s dest source gen deadline w = (res, w')" by fastforce
  consider (start) "w' = on_db (start_cursor (sd_id dest) source (ss_pce_url s) (ss_org_id s) (en_newest env source)) w"
    | (loop) l f where "run_loop env s dest source gen deadline l f new_run w = (res, w')"
    using run by (auto simp: run_source_def Let_def split: option.splits if_splits)
  then show ?thesis
    using w start_kept run_loop_kept by cases (auto simp: run siem_simps)
qed

end

section \<open>The DLQ keeps its bound\<close>

interpretation dlq_bound: siem_kept_started s dest source
  "\<lambda>db. dlq_count db (Some (sd_id dest)) None \<le> max (ss_dlq_max_per_dest s) B" for s dest source B
  by unfold_locales
    (auto simp: dlq_count_def siem_simps quarantine_def start_cursor_def dlq_where_def max_def)

text \<open>C17. The DLQ of a destination is never filled past its limit by a run: afterwards it holds at most the limit of
  the settings, or what it already held when that was more (the limit was lowered since).\<close>

theorem dlq_bounded:
  "dlq_count (sw_db (snd (run_source env s dest source gen deadline w))) (Some (sd_id dest)) None
    \<le> max (ss_dlq_max_per_dest s) (dlq_count (sw_db w) (Some (sd_id dest)) None)"
  by (rule dlq_bound.run_source_kept) simp

section \<open>An outage\<close>

text \<open>Nothing a destination is sent goes through, and no refusal is for good.\<close>

definition down :: "siem_env \<Rightarrow> bool" where
  "down env = (\<forall>es p t. \<exists>e. en_send env es p t = Some e \<and> \<not> permanent e)"

definition formats_all :: "siem_env \<Rightarrow> siem_destination \<Rightarrow> string \<Rightarrow> bool" where
  "formats_all env dest source = (\<forall>r \<in> set (en_table env dest source). \<exists>p. en_format env dest r = Inr p)"

text \<open>The DLQ and every position as before.\<close>

definition unmoved :: "siem_world \<Rightarrow> siem_world \<Rightarrow> bool" where
  "unmoved w w' = (db_dlq (sw_db w') = db_dlq (sw_db w) \<and> position (sw_db w') = position (sw_db w))"

lemma unmoved_refl [simp]: "unmoved w w"
  by (simp add: unmoved_def)

lemma unmoved_trans: "unmoved w w1 \<Longrightarrow> unmoved w1 w2 \<Longrightarrow> unmoved w w2"
  by (simp add: unmoved_def)

lemma unmoved_db: "sw_db w' = sw_db w \<Longrightarrow> unmoved w w'"
  by (simp add: unmoved_def)

lemma same_db_calls:
  "clock_now env w = (c, w') \<Longrightarrow> sw_db w' = sw_db w"
  "send_record env p t w = (r, w') \<Longrightarrow> sw_db w' = sw_db w"
  "finish_batch env w = (r, w') \<Longrightarrow> sw_db w' = sw_db w"
  by (auto simp: clock_now_def send_record_def finish_batch_def Let_def siem_simps)

lemma down_batch:
  assumes "down env" "\<forall>r \<in> set rs. \<exists>p. en_format env dest r = Inr p"
    and "send_batch env s dest source None deadline t rs b w = (b', w')"
  shows "sw_db w' = sw_db w" "bt_sent b' = bt_sent b" "bt_consumed b' = bt_consumed b"
    "bt_failure b' = bt_failure b \<or> (\<exists>e. bt_failure b' = Some (hd rs, e) \<and> rs \<noteq> [])"
proof -
  have "sw_db w' = sw_db w \<and> bt_sent b' = bt_sent b \<and> bt_consumed b' = bt_consumed b \<and>
      (bt_failure b' = bt_failure b \<or> (\<exists>e. bt_failure b' = Some (hd rs, e) \<and> rs \<noteq> []))"
  proof (cases rs)
    case Nil
    then show ?thesis using assms(3) by simp
  next
    case (Cons r rest)
    obtain c w1 where c: "clock_now env w = (c, w1)" by fastforce
    obtain p where p: "en_format env dest r = Inr p" using assms(2) Cons by auto
    obtain reply w2 where s: "send_record env p (Some (sr_time r)) w1 = (reply, w2)" by fastforce
    obtain e where e: "reply = Some e" "\<not> permanent e"
      using assms(1) s unfolding down_def send_record_def Let_def by blast
    show ?thesis
      using assms(3) Cons c p s e same_db_calls(1) [OF c] same_db_calls(2) [OF s]
      by (auto simp: Let_def split: if_splits)
  qed
  then show "sw_db w' = sw_db w" "bt_sent b' = bt_sent b" "bt_consumed b' = bt_consumed b"
    "bt_failure b' = bt_failure b \<or> (\<exists>e. bt_failure b' = Some (hd rs, e) \<and> rs \<noteq> [])" by simp_all
qed

lemma down_probe: "down env \<Longrightarrow> probe_each env dest rs w = (found, w') \<Longrightarrow> found = None"
proof (induction rs arbitrary: w)
  case (Cons r rs)
  show ?case
  proof (cases "en_format env dest r")
    case (Inr p)
    obtain reply w1 where s: "send_record env p (Some (sr_time r)) w = (reply, w1)" by fastforce
    then have "\<exists>e. reply = Some e" using Cons.prems(1) unfolding down_def send_record_def Let_def by blast
    then show ?thesis using Cons s Inr by auto
  qed (use Cons in simp)
qed simp

text \<open>How often the head has failed after one more failure.\<close>

lemma record_failure_attempts:
  assumes "get_cursor db d source = Some c"
  shows "snd (record_failure d source h e t db) = (if cu_head_id c = h then cu_head_attempts c + 1 else 1)"
  using assms by (auto simp: record_failure_def Let_def count_sends_def get_cursor_def dict_simps failed_at_def)

lemma advance_attempts:
  assumes "get_cursor db d source = Some c"
  shows "\<exists>c'. get_cursor (fst (advance d source u g n k t db)) d source = Some c' \<and>
    (cu_head_attempts c' = 0 \<or> cu_head_attempts c' = cu_head_attempts c)"
  using assms by (auto simp: advance_def Let_def count_sends_def get_cursor_def dict_simps advanced_def)

lemma few_attempts_not_stuck:
  "attempts < sd_max_retries dest * STUCK_FACTOR \<Longrightarrow> 0 < sd_max_retries dest \<Longrightarrow> \<not> stuck env dest source h attempts t w"
  by (simp add: stuck_def STUCK_FACTOR_def HARD_FACTOR_def)

lemma down_after_failure:
  assumes "down env" "0 < sd_max_retries dest"
    and "get_cursor (sw_db w) (sd_id dest) source = Some c"
    and "cu_head_attempts c + 1 < sd_max_retries dest * STUCK_FACTOR"
    and run: "after_failure env s dest source records payloads h error t run w = (res, w')"
  shows "unmoved w w'"
proof -
  define w1 where "w1 = w\<lparr> sw_db := fst (record_failure (sd_id dest) source (Some (sr_id h)) error t (sw_db w)) \<rparr>"
  define attempts where "attempts = snd (record_failure (sd_id dest) source (Some (sr_id h)) error t (sw_db w))"
  define ahead where "ahead = look_ahead env dest source records h False"
  obtain probed w2 where pr: "next_goes_through env dest ahead h w1 = (probed, w2)" by fastforce
  have "attempts < sd_max_retries dest * STUCK_FACTOR"
    using assms(2,4) by (simp add: attempts_def record_failure_attempts [OF assms(3)] STUCK_FACTOR_def)
  then have st: "stuck env dest source h attempts t w1 = False" using few_attempts_not_stuck assms(2) by blast
  have w1: "unmoved w w1" by (simp add: unmoved_def w1_def siem_simps fun_eq_iff)
  have probed: "probed = None" using down_probe [OF assms(1)] pr by (simp add: next_goes_through_def)
  have w2: "unmoved w w2"
    using pr probe_each_went(2) w1 by (auto simp: next_goes_through_def unmoved_def)
  have "w' = w1 \<or> w' = held dest source t w1 \<or> w' = w2"
    using run unfolding after_failure_def Let_def split_def w1_def [symmetric] attempts_def [symmetric] st
      ahead_def [symmetric] if_False pr fst_conv snd_conv probed by (auto split: if_splits)
  then show ?thesis using w1 w2 by (auto simp: held_def unmoved_def siem_simps)
qed

lemma advance_in_place:
  assumes "position db (d, source) = Some (n, u, g)"
  shows "position (fst (advance d source u g n 0 t db)) = position db"
proof
  fix k
  show "position (fst (advance d source u g n 0 t db)) k = position db k"
  proof (cases "k = (d, source)")
    case True
    then show ?thesis using advance_position(2) [OF assms, of n 0 t] assms by simp
  next
    case False
    then show ?thesis by (cases "dict_get (db_cursors db) k")
      (auto simp: position_def advance_def Let_def dict_simps)
  qed
qed


section \<open>A destination that works\<close>

text \<open>Everything it is sent goes through and is confirmed, every record can be formatted, time does not run out and
  no PCE switch comes in between.\<close>

definition working :: "siem_env \<Rightarrow> siem_destination \<Rightarrow> string \<Rightarrow> int \<Rightarrow> rat \<Rightarrow> bool" where
  "working env dest source gen deadline =
     ((\<forall>es p t. en_send env es p t = None) \<and> (\<forall>es. en_finish env es = None) \<and>
      (\<forall>es. en_clock env es < deadline) \<and> (\<forall>es. en_generation env es = gen) \<and> formats_all env dest source)"

lemma working_batch:
  assumes "working env dest source gen deadline" "\<forall>r \<in> set rs. \<exists>p. en_format env dest r = Inr p"
  shows "send_batch env s dest source None deadline t rs b w = (b', w') \<Longrightarrow>
    sw_db w' = sw_db w \<and> bt_sent b' = bt_sent b + int (length rs) \<and>
    bt_consumed b' = (if rs = [] then bt_consumed b else sr_id (List.last rs)) \<and>
    bt_failure b' = bt_failure b \<and> bt_run b' = bt_run b"
  using assms(2)
proof (induction rs arbitrary: b w)
  case Nil
  then show ?case by simp
next
  case (Cons r rs)
  obtain c w1 where c: "clock_now env w = (c, w1)" by fastforce
  obtain p where p: "en_format env dest r = Inr p" using Cons.prems(2) by auto
  obtain reply w2 where s: "send_record env p (Some (sr_time r)) w1 = (reply, w2)" by fastforce
  have e: "reply = None" "\<not> deadline \<le> c"
    using assms(1) s c unfolding working_def send_record_def clock_now_def Let_def by (auto simp: not_le)
  have "send_batch env s dest source None deadline t rs
      (b\<lparr> bt_payloads := dict_set (sr_id r) p (bt_payloads b), bt_sent := bt_sent b + 1, bt_consumed := sr_id r \<rparr>) w2 = (b', w')"
    using Cons.prems(1) c p s e by (simp add: Let_def)
  from Cons.IH [OF this] Cons.prems(2) same_db_calls(1) [OF c] same_db_calls(2) [OF s] show ?case by auto
qed

lemma read_source_rest:
  assumes "in_order (en_table env dest source)" "records = read_source env dest source last_id n" "records \<noteq> []"
  shows "left_to_read env dest source last_id = length records + left_to_read env dest source (sr_id (List.last records))"
proof -
  define all where "all = filter (\<lambda>r. last_id < sr_id r) (en_table env dest source)"
  have split: "all = records @ drop n all" by (simp add: assms(2) read_source_def all_def)
  have o: "in_order (records @ drop n all)" using in_order_filter [OF assms(1)] split unfolding all_def by metis
  have last: "List.last records \<in> set records" using assms(3) by simp
  then have above: "last_id < sr_id (List.last records)" using read_source_mem unfolding assms(2) by blast
  have "filter (\<lambda>r. sr_id (List.last records) < sr_id r) (en_table env dest source) =
      filter (\<lambda>r. sr_id (List.last records) < sr_id r) all"
    using above by (auto simp: all_def filter_filter intro!: filter_cong)
  also have "\<dots> = filter (\<lambda>r. sr_id (List.last records) < sr_id r) records @
      filter (\<lambda>r. sr_id (List.last records) < sr_id r) (drop n all)"
    by (subst split) simp
  also have "filter (\<lambda>r. sr_id (List.last records) < sr_id r) (drop n all) = drop n all"
    using in_order_append [OF o last] by (simp add: filter_id_conv)
  also have "filter (\<lambda>r. sr_id (List.last records) < sr_id r) records = []"
  proof -
    have "sr_id r \<le> sr_id (List.last records)" if "r \<in> set records" for r
    proof (cases "r = List.last records")
      case False
      have "records = butlast records @ [List.last records]" using assms(3) by simp
      moreover from False that have "r \<in> set (butlast records)"
        by (cases records rule: rev_cases) auto
      ultimately show ?thesis
        using in_order_appendD [OF o] in_order_append [of "butlast records" "[List.last records]" r "List.last records"] by simp
    qed simp
    then show ?thesis by (auto simp: filter_empty_conv not_less)
  qed
  finally have "left_to_read env dest source (sr_id (List.last records)) = length (drop n all)"
    by (simp add: left_to_read_def)
  moreover have "left_to_read env dest source last_id = length records + length (drop n all)"
    unfolding left_to_read_def all_def [symmetric] by (subst split) simp
  ultimately show ?thesis by simp
qed

lemma working_run_batch:
  assumes ok: "working env dest source gen deadline"
    and records: "records = read_source env dest source last_id n" "records \<noteq> []"
    and pos: "position (sw_db w) (sd_id dest, source) = Some (last_id, ss_pce_url s, ss_org_id s)"
    and full: "\<not> rn_dlq_full run"
    and batch: "run_batch env s dest source deadline last_id None records run w = (res, w')"
  shows "db_dlq (sw_db w') = db_dlq (sw_db w)"
    and "position (sw_db w') (sd_id dest, source) = Some (sr_id (List.last records), ss_pce_url s, ss_org_id s)"
    and "res = (if length records < sd_batch_size dest
      then Inl (Inr (run\<lparr> rn_sent := rn_sent run + int (length records) \<rparr>))
      else Inr (sr_id (List.last records), run\<lparr> rn_sent := rn_sent run + int (length records) \<rparr>))"
proof -
  let ?t = "en_now env (sw_wire w)"
  obtain b w1 where sent: "send_batch env s dest source None deadline ?t records (fresh_batch last_id run) w = (b, w1)"
    by fastforce
  have fmt: "\<forall>r \<in> set records. \<exists>p. en_format env dest r = Inr p"
    using ok read_source_mem unfolding records working_def formats_all_def by blast
  note b = working_batch [OF ok fmt sent, unfolded fresh_batch_def, simplified]
  obtain reply w2 where f: "finish_batch env w1 = (reply, w2)" by fastforce
  have reply: "reply = None" using ok f by (simp add: working_def finish_batch_def Let_def)
  have conf: "confirm_batch env records last_id b w1 = (Inr b, w2)"
    using f reply b records(2) by (simp add: confirm_batch_def)
  have db2: "sw_db w2 = sw_db w" using b same_db_calls(3) [OF f] by simp
  have above: "last_id \<le> sr_id (List.last records)"
    using read_source_mem [of "List.last records"] records last_in_set by fastforce
  obtain db3 moved where adv: "advance (sd_id dest) source (ss_pce_url s) (ss_org_id s) (bt_consumed b) (bt_sent b) ?t (sw_db w2) = (db3, moved)"
    by fastforce
  note facts = advance_position [OF pos, of "bt_consumed b" "bt_sent b" ?t, folded db2, unfolded adv fst_conv snd_conv]
  have res: "w' = w2\<lparr> sw_db := db3 \<rparr> \<and> res = (if length records < sd_batch_size dest
      then Inl (Inr (run\<lparr> rn_sent := rn_sent run + int (length records) \<rparr>))
      else Inr (sr_id (List.last records), run\<lparr> rn_sent := rn_sent run + int (length records) \<rparr>))"
    using batch sent conf adv facts(1) full b records(2)
    by (simp add: run_batch_def fresh_batch_def [symmetric] Let_def split: if_splits)
  show "db_dlq (sw_db w') = db_dlq (sw_db w)"
    using res adv db2 dlq_simps(6) [of "sd_id dest" source "ss_pce_url s" "ss_org_id s" "bt_consumed b" "bt_sent b" ?t "sw_db w2"] by simp
  show "position (sw_db w') (sd_id dest, source) = Some (sr_id (List.last records), ss_pce_url s, ss_org_id s)"
    using res facts(2) b records(2) above by simp
  show "res = (if length records < sd_batch_size dest
      then Inl (Inr (run\<lparr> rn_sent := rn_sent run + int (length records) \<rparr>))
      else Inr (sr_id (List.last records), run\<lparr> rn_sent := rn_sent run + int (length records) \<rparr>))"
    using res by simp
qed

lemma working_run_loop:
  assumes "working env dest source gen deadline" "in_order (en_table env dest source)" "0 < sd_batch_size dest"
  shows "position (sw_db w) (sd_id dest, source) = Some (last_id, ss_pce_url s, ss_org_id s) \<Longrightarrow> \<not> rn_dlq_full run \<Longrightarrow>
    fl = None \<Longrightarrow> run_loop env s dest source gen deadline last_id fl run w = (res, w') \<Longrightarrow>
    res = Inr (run\<lparr> rn_sent := rn_sent run + int (left_to_read env dest source last_id) \<rparr>) \<and>
    db_dlq (sw_db w') = db_dlq (sw_db w) \<and>
    (\<exists>m. position (sw_db w') (sd_id dest, source) = Some (m, ss_pce_url s, ss_org_id s) \<and> left_to_read env dest source m = 0)"
  using assms
proof (induction env s dest source gen deadline last_id fl run w rule: run_loop.induct)
  case (1 env s dest source gen deadline last_id fl run w)
  define records where "records = read_source env dest source last_id (sd_batch_size dest)"
  obtain c w1 where c: "clock_now env w = (c, w1)" by fastforce
  have w1: "sw_db w1 = sw_db w" by (rule same_db_calls(1) [OF c])
  have c': "c < deadline" using "1.prems"(5) c by (auto simp: working_def clock_now_def)
  have gen: "en_generation env (sw_wire w1) = gen" using "1.prems"(5) by (simp add: working_def)
  note step = "1.prems"(4) [unfolded run_loop.simps [of env s dest source gen deadline last_id fl run w] c,
      folded records_def]
  show ?case
  proof (cases "records = []")
    case True
    then have "w' = w1" "res = Inr run" using step c' "1.prems"(3) by (simp_all add: Let_def records_def [symmetric])
    moreover have "left_to_read env dest source last_id = 0"
      using True "1.prems"(7) by (auto simp: records_def read_source_def left_to_read_def)
    ultimately show ?thesis using w1 "1.prems"(1) by simp
  next
    case False
    obtain res1 w2 where b: "run_batch env s dest source deadline last_id fl records run w1 = (res1, w2)" by fastforce
    have pos1: "position (sw_db w1) (sd_id dest, source) = Some (last_id, ss_pce_url s, ss_org_id s)"
      using "1.prems"(1) w1 by simp
    note r = working_run_batch [OF "1.prems"(5) records_def False pos1 "1.prems"(2) b [unfolded "1.prems"(3)]]
    note rest = read_source_rest [OF "1.prems"(6) records_def False]
    let ?run = "run\<lparr> rn_sent := rn_sent run + int (length records) \<rparr>"
    show ?thesis
    proof (cases "length records < sd_batch_size dest")
      case True
      then have x: "w' = w2" "res = Inr ?run" using step c' gen False b r(3) by (simp_all add: Let_def)
      have "left_to_read env dest source last_id = length records"
        using True by (auto simp: records_def read_source_def left_to_read_def)
      then show ?thesis using x r(1,2) w1 rest by simp
    next
      case go: False
      then have p: "res1 = Inr (sr_id (List.last records), ?run)" using r(3) by simp
      have again: "run_loop env s dest source gen deadline (sr_id (List.last records)) fl ?run w2 = (res, w')"
        using step c' gen False b p by (simp add: Let_def)
      have "res = Inr (?run\<lparr> rn_sent := rn_sent ?run + int (left_to_read env dest source (sr_id (List.last records))) \<rparr>) \<and>
          db_dlq (sw_db w') = db_dlq (sw_db w2) \<and>
          (\<exists>m. position (sw_db w') (sd_id dest, source) = Some (m, ss_pce_url s, ss_org_id s) \<and> left_to_read env dest source m = 0)"
        using "1.IH" [OF refl c [symmetric] _ records_def False _ b [symmetric] p refl r(2) _ "1.prems"(3) again "1.prems"(5-7)]
          c' gen "1.prems"(2) by simp
      then show ?thesis using r(1) w1 rest by (auto simp: algebra_simps)
    qed
  qed
qed

text \<open>C15. A destination that works is caught up with: when every line goes through and is confirmed, every record can
  be formatted and time does not run out, one run sends every record after the cursor, confirms each, counts
  them, leaves the cursor past them all and puts nothing in the DLQ.\<close>

theorem working_destination_caught_up:
  assumes "working env dest source gen deadline" "in_order (en_table env dest source)" "0 < sd_batch_size dest"
    and "get_cursor (sw_db w) (sd_id dest) source = Some c"
    and "cu_pce_url c = ss_pce_url s" "cu_org_id c = ss_org_id s" "cu_floor_time c = None"
  shows "\<exists>run w' c' es. run_source env s dest source gen deadline w = (Inr run, w') \<and>
    sw_wire w' = sw_wire w @ es \<and> get_cursor (sw_db w') (sd_id dest) source = Some c' \<and>
    db_dlq (sw_db w') = db_dlq (sw_db w) \<and> rn_error run = None \<and>
    rn_sent run = int (length (filter (\<lambda>r. cu_last_id c < sr_id r) (en_table env dest source))) \<and>
    (\<forall>r \<in> set (en_table env dest source). sr_id r \<le> cu_last_id c' \<and>
       (cu_last_id c < sr_id r \<longrightarrow> (\<exists>p. en_format env dest r = Inr p \<and> (p, Some (sr_time r)) \<in> delivered es)))"
proof -
  have pos: "position (sw_db w) (sd_id dest, source) = Some (cu_last_id c, ss_pce_url s, ss_org_id s)"
    using assms(4-6) by (auto simp: position_cursor)
  obtain res w' where loop: "run_loop env s dest source gen deadline (cu_last_id c) None new_run w = (res, w')"
    by fastforce
  have run: "run_source env s dest source gen deadline w = (res, w')"
    using assms(4-7) loop by (simp add: run_source_def Let_def)
  have "\<not> rn_dlq_full new_run" by (simp add: new_run_def)
  from working_run_loop [OF assms(1-3) pos this refl loop] obtain m where
    res: "res = Inr (new_run\<lparr> rn_sent := rn_sent new_run + int (left_to_read env dest source (cu_last_id c)) \<rparr>)"
    and dlq: "db_dlq (sw_db w') = db_dlq (sw_db w)"
    and m: "position (sw_db w') (sd_id dest, source) = Some (m, ss_pce_url s, ss_org_id s)" "left_to_read env dest source m = 0"
    by (elim conjE exE)
  from run_loop_went [OF assms(2) pos loop] obtain es letters m2 where w: "went w w' es letters"
    "position (sw_db w') (sd_id dest, source) = Some (m2, ss_pce_url s, ss_org_id s)"
    "below env dest source None es letters (cu_last_id c) m2" by (elim exE conjE)
  have eq: "m2 = m" "letters = []" using w(1,2) m(1) dlq by (simp_all add: went_def)
  have past: "sr_id r \<le> m" if "r \<in> set (en_table env dest source)" for r
    using m(2) that by (auto simp: left_to_read_def filter_empty_conv not_less)
  have sent: "\<exists>p. en_format env dest r = Inr p \<and> (p, Some (sr_time r)) \<in> delivered es"
    if "r \<in> set (en_table env dest source)" "cu_last_id c < sr_id r" for r
    using w(3) that past [OF that(1)] unfolding eq below_def accounted_def floored_def lettered_def by auto
  obtain c' where c': "get_cursor (sw_db w') (sd_id dest) source = Some c'" "cu_last_id c' = m"
    using m(1) by (auto simp: position_cursor)
  have "rn_error (new_run\<lparr> rn_sent := rn_sent new_run + int (left_to_read env dest source (cu_last_id c)) \<rparr>) = None"
    "rn_sent (new_run\<lparr> rn_sent := rn_sent new_run + int (left_to_read env dest source (cu_last_id c)) \<rparr>) =
       int (length (filter (\<lambda>r. cu_last_id c < sr_id r) (en_table env dest source)))"
    by (simp_all add: new_run_def left_to_read_def)
  with run [unfolded res] c' dlq w(1) past sent show ?thesis unfolding went_def by blast
qed

section \<open>Example runs\<close>

text \<open>Three alerts, a destination that reads two at a time, a cursor at the beginning. Replies are given by a function
  of the line.\<close>

definition example_record :: "int \<Rightarrow> siem_record" where
  "example_record n = \<lparr> sr_kind = RK_ALERT, sr_id = n, sr_time = 10 * n, sr_content = JNull \<rparr>"

definition example_dest :: siem_destination where
  "example_dest = \<lparr> sd_id = ''d1'', sd_name = ''SOC'', sd_enabled = True, sd_transport = ST_HEC, sd_format = SF_JSON,
     sd_host = ''siem'', sd_port = 8088, sd_batch_size = 2, sd_max_retries = 3, sd_sources = [SS_FINDINGS],
     sd_mask_pii = False \<rparr>"

definition example_siem_settings :: siem_settings where
  "example_siem_settings = \<lparr> ss_pce_url = ''pce'', ss_org_id = ''1'', ss_enabled = True,
     ss_destinations = [example_dest], ss_dlq_max_per_dest = 100, ss_tick_seconds = 60, ss_dlq_retention_days = 30 \<rparr>"

definition example_line :: "siem_record \<Rightarrow> string" where
  "example_line r = (if sr_id r = 1 then ''one'' else if sr_id r = 2 then ''two'' else ''three'')"

definition example_env :: "(string \<Rightarrow> exn option) \<Rightarrow> siem_env" where
  "example_env reply = \<lparr> en_clock = (\<lambda>_. 0), en_now = (\<lambda>_. 1000), en_send = (\<lambda>_ p _. reply p), en_finish = (\<lambda>_. None),
     en_generation = (\<lambda>_. 1), en_setup = (\<lambda>_. None), en_format = (\<lambda>_ r. Inr (example_line r)), en_repr = (\<lambda>_. ''''),
     en_table = (\<lambda>_ _. map example_record [1, 2, 3]), en_newest = (\<lambda>_. 3) \<rparr>"

definition bad_request :: exn where
  "bad_request = \<lparr> ex_kind = HttpStatus 400, ex_text = ''bad request'', ex_class = ''HTTPError'' \<rparr>"

definition refused_connection :: exn where
  "refused_connection = \<lparr> ex_kind = OsErrno (Some 111), ex_text = ''refused'', ex_class = ''ConnectionRefusedError'' \<rparr>"

definition example_world :: siem_world where
  "example_world = \<lparr> sw_db = start_cursor ''d1'' ''alerts'' ''pce'' ''1'' 0
     \<lparr> db_cursors = [], db_dlq = [], db_dlq_seq = 0, db_stats = [] \<rparr>, sw_wire = [] \<rparr>"

definition example_siem_run :: "(string \<Rightarrow> exn option) \<Rightarrow> (exn + source_run) \<times> siem_world" where
  "example_siem_run reply =
     run_source (example_env reply) example_siem_settings example_dest ''alerts'' 1 10 example_world"

definition refuse_two :: "string \<Rightarrow> exn option" where
  "refuse_two p = (if p = ''two'' then Some bad_request else None)"

lemma example_start:
  "in_order (en_table (example_env reply) example_dest ''alerts'')"
  "get_cursor (sw_db example_world) (sd_id example_dest) ''alerts'' = Some (new_cursor ''pce'' ''1'' 0)"
  "cu_pce_url (new_cursor ''pce'' ''1'' 0) = ss_pce_url example_siem_settings"
  "cu_org_id (new_cursor ''pce'' ''1'' 0) = ss_org_id example_siem_settings"
  "cu_floor_time (new_cursor ''pce'' ''1'' 0) = None"
  "cu_last_id (new_cursor ''pce'' ''1'' 0) = 0" "cu_head_attempts (new_cursor ''pce'' ''1'' 0) = 0"
  "sw_wire example_world = []" "db_dlq (sw_db example_world) = []"
  by (simp_all add: in_order_def example_env_def example_record_def example_world_def start_cursor_def get_cursor_def
      new_cursor_def example_dest_def example_siem_settings_def)

lemma example_run_refused:
  "map_option cu_last_id (get_cursor (sw_db (snd (example_siem_run refuse_two))) ''d1'' ''alerts'') = Some 3"
  "map dl_record_id (db_dlq (sw_db (snd (example_siem_run refuse_two)))) = [2]"
  by code_simp+

text \<open>The second alert is refused for good: it is accounted for by the DLQ, and the cursor is past all three.\<close>

theorem nothing_passed_over_witness:
  "list_all (\<lambda>n. accounted (example_env refuse_two) example_dest ''alerts'' None
     (sw_wire (snd (example_siem_run refuse_two))) (db_dlq (sw_db (snd (example_siem_run refuse_two)))) (example_record n))
   [1, 2, 3]"
proof -
  obtain res w' where run: "example_siem_run refuse_two = (res, w')" by fastforce
  obtain c' es letters where x: "get_cursor (sw_db w') (sd_id example_dest) ''alerts'' = Some c'"
    "sw_wire w' = sw_wire example_world @ es" "db_dlq (sw_db w') = db_dlq (sw_db example_world) @ letters"
    "\<forall>r \<in> set (en_table (example_env refuse_two) example_dest ''alerts'').
       cu_last_id (new_cursor ''pce'' ''1'' 0) < sr_id r \<and> sr_id r \<le> cu_last_id c' \<longrightarrow>
       accounted (example_env refuse_two) example_dest ''alerts'' (cu_floor_time (new_cursor ''pce'' ''1'' 0)) es letters r"
    using nothing_passed_over [OF example_start(1-4) run [unfolded example_siem_run_def]] by (elim exE conjE)
  have "cu_last_id c' = 3"
    using example_run_refused(1) x(1) by (simp add: run example_dest_def)
  with x show ?thesis by (simp add: run example_start example_env_def example_record_def)
qed

lemma example_down: "down (example_env (\<lambda>_. Some refused_connection))"
  by (simp add: down_def example_env_def refused_connection_def permanent_def EMSGSIZE_def)

lemma example_formats: "formats_all (example_env reply) example_dest ''alerts''"
  by (simp add: formats_all_def example_env_def)


lemma example_working: "working (example_env (\<lambda>_. None)) example_dest ''alerts'' 1 10"
  by (simp add: working_def example_env_def formats_all_def)

theorem working_destination_caught_up_witness:
  "\<exists>run. fst (example_siem_run (\<lambda>_. None)) = Inr run \<and> rn_sent run = 3"
proof -
  have "0 < sd_batch_size example_dest" by (simp add: example_dest_def)
  from working_destination_caught_up [OF example_working example_start(1) this example_start(2-5)]
  show ?thesis
    by (auto simp: example_siem_run_def example_start example_env_def example_record_def new_cursor_def)
qed

text \<open>A batch that is not confirmed is sent again from its first line; a line of it that could not be formatted is in the
  DLQ already and goes there once more, at every such run.\<close>

definition lost_env :: siem_env where
  "lost_env = (example_env (\<lambda>_. None))\<lparr> en_finish := (\<lambda>_. Some refused_connection),
     en_format := (\<lambda>_ r. if sr_id r = 2 then Inl bad_request else Inr (example_line r)) \<rparr>"

lemma requarantined:
  "map dl_record_id (db_dlq (sw_db (snd
     (run_source lost_env example_siem_settings example_dest ''alerts'' 1 10
       (snd (run_source lost_env example_siem_settings example_dest ''alerts'' 1 10 example_world)))))) = [2, 2]"
  by code_simp

end
