(* ===== verification/SiemDlq.thy ===== *)
theory SiemDlq
  imports SiemDispatch Alerting
begin

text \<open>
  The DLQ and the cursors as the SIEM page and the daily jobs use them: \<open>services/siem/dlq.py\<close> (resend, purge,
  retention, export), \<open>services/siem/cursors.py\<close> (where a destination starts), \<open>services/siem/guard.py\<close>
  (what retention deletes before it was sent) and \<open>services/siem/status.py\<close> (the state shown). An exported line
  is the JSON object \<open>json.dumps\<close> writes; rates are exact fractions.
\<close>

section \<open>Resending\<close>

definition RESEND_MAX :: nat where "RESEND_MAX = 1000"
definition EXPORT_PAGE :: nat where "EXPORT_PAGE = 1000"

record resend_result =
  rs_sent :: int
  rs_failed :: int
  rs_skipped :: int
  rs_changed :: int
  rs_remaining :: int
  rs_error :: "string option"

text \<open>The lines of one destination, one by one: the ids that went, the number that failed and the last error.\<close>

fun send_letters :: "siem_env \<Rightarrow> dead_letter list \<Rightarrow> int list \<Rightarrow> int \<Rightarrow> string option \<Rightarrow> siem_world
    \<Rightarrow> (int list \<times> int \<times> string option) \<times> siem_world" where
  "send_letters env [] ok failed error w = ((ok, failed, error), w)"
| "send_letters env (d # ds) ok failed error w =
     (let (reply, w1) = send_record env (dl_payload d) (dl_event_time d) w in
      case reply of
        None \<Rightarrow> send_letters env ds (ok @ [dl_id d]) failed error w1
      | Some e \<Rightarrow> send_letters env ds ok (failed + 1) (Some (error_text e))
                    (on_db (dlq_failed_again (dl_id d) (error_text e)) w1))"

definition confirm_letters :: "siem_env \<Rightarrow> int list \<Rightarrow> string option \<Rightarrow> siem_world
    \<Rightarrow> (exn + (int list \<times> int \<times> int \<times> string option)) \<times> siem_world" where
  "confirm_letters env ok error w =
     (if ok = [] then (Inr (ok, 0, 0, error), w)
      else let (reply, w') = finish_batch env w in
        case reply of
          None \<Rightarrow> (Inr (ok, 0, 0, error), w')
        | Some e \<Rightarrow>
            if is_os_error (ex_kind e)
            then (Inr ([], int (length ok), 1, Some (''delivery_unconfirmed: '' @ ex_text e)), w')
            else (Inl e, w'))"

definition resend_to :: "siem_env \<Rightarrow> siem_destination \<Rightarrow> dead_letter list \<Rightarrow> time \<Rightarrow> resend_result \<Rightarrow> siem_world
    \<Rightarrow> (exn + resend_result) \<times> siem_world" where
  "resend_to env dest letters t res w =
     (let made_for = sent_as dest;
          stale = filter (\<lambda>d. dl_sent_as d \<noteq> made_for) letters;
          fresh = filter (\<lambda>d. dl_sent_as d = made_for) letters;
          res1 = res\<lparr> rs_changed := rs_changed res + int (length stale) \<rparr>
      in if fresh = [] then (Inr res1, w)
         else case en_setup env dest of
           Some e \<Rightarrow> (Inl e, w)
         | None \<Rightarrow>
             (let ((ok, failed, error), w1) = send_letters env fresh [] 0 (rs_error res1) w;
                  (confirmed, w2) = confirm_letters env ok error w1;
                  w3 = on_wire Close w2
              in case confirmed of
                   Inl e \<Rightarrow> (Inl e, w3)
                 | Inr (ok', lost, counted, error') \<Rightarrow>
                     (Inr (res1\<lparr> rs_sent := rs_sent res1 + int (length ok'),
                                rs_failed := rs_failed res1 + failed + lost, rs_error := error' \<rparr>),
                      on_db (record_sends (sd_id dest) t (int (length ok')) (failed + counted))
                        (on_db (fst \<circ> dlq_delete ok') w3))))"

fun resend_each :: "siem_env \<Rightarrow> (string \<Rightarrow> siem_destination option) \<Rightarrow> time \<Rightarrow> (string \<times> dead_letter list) list
    \<Rightarrow> resend_result \<Rightarrow> siem_world \<Rightarrow> (exn + resend_result) \<times> siem_world" where
  "resend_each env dests t [] res w = (Inr res, w)"
| "resend_each env dests t ((dest_id, letters) # groups) res w =
     (case dests dest_id of
        None \<Rightarrow> resend_each env dests t groups (res\<lparr> rs_skipped := rs_skipped res + int (length letters) \<rparr>) w
      | Some dest \<Rightarrow>
          (case resend_to env dest letters t res w of
             (Inl e, w') \<Rightarrow> (Inl e, w')
           | (Inr res', w') \<Rightarrow> resend_each env dests t groups res' w'))"

definition enabled_by_id :: "siem_settings \<Rightarrow> string \<Rightarrow> siem_destination option" where
  "enabled_by_id s = map_of (map (\<lambda>d. (sd_id d, d)) (List.rev (filter sd_enabled (ss_destinations s))))"

definition to_resend :: "siem_db \<Rightarrow> int list option \<Rightarrow> string option \<Rightarrow> string option \<Rightarrow> dead_letter list" where
  "to_resend db ids dest_id error =
     take RESEND_MAX (case ids of Some xs \<Rightarrow> dlq_by_ids db xs | None \<Rightarrow> dlq_after db dest_id 0 RESEND_MAX error)"

definition no_resend :: resend_result where
  "no_resend = \<lparr> rs_sent = 0, rs_failed = 0, rs_skipped = 0, rs_changed = 0, rs_remaining = 0, rs_error = None \<rparr>"

definition resend :: "siem_env \<Rightarrow> siem_settings \<Rightarrow> int list option \<Rightarrow> string option \<Rightarrow> string option \<Rightarrow> time \<Rightarrow> siem_world
    \<Rightarrow> (exn + resend_result) \<times> siem_world" where
  "resend env s ids dest_id error t w =
     (case resend_each env (enabled_by_id s) t
             (group_by dl_destination_id (to_resend (sw_db w) ids dest_id error)) no_resend w of
        (Inl e, w') \<Rightarrow> (Inl e, w')
      | (Inr res, w') \<Rightarrow> (Inr (res\<lparr> rs_remaining := int (dlq_count (sw_db w') dest_id None) \<rparr>), w'))"

section \<open>Purging, retention and export\<close>

definition purge :: "int list option \<Rightarrow> string option \<Rightarrow> int option \<Rightarrow> string option \<Rightarrow> time \<Rightarrow> siem_db \<Rightarrow> siem_db \<times> nat" where
  "purge ids dest_id older_than_days error t db =
     (case ids of
        Some xs \<Rightarrow> dlq_delete xs db
      | None \<Rightarrow>
          (case older_than_days of
             Some n \<Rightarrow> dlq_purge_before dest_id (t - n * DAY) error db
           | None \<Rightarrow> dlq_purge dest_id error db))"

definition run_dlq_retention :: "siem_settings \<Rightarrow> time \<Rightarrow> siem_db \<Rightarrow> siem_db \<times> nat \<times> nat" where
  "run_dlq_retention s t db =
     (let (db1, dropped) = (if ss_dlq_retention_days s \<noteq> 0
             then dlq_purge_before None (t - ss_dlq_retention_days s * DAY) None db else (db, 0));
          (db2, sends) = delete_sends_before (t - STATS_KEEP) db1
      in (db2, dropped, sends))"

definition opt_json :: "string option \<Rightarrow> json" where
  "opt_json x = (case x of None \<Rightarrow> JNull | Some t \<Rightarrow> JStr t)"

definition export_line :: "siem_settings \<Rightarrow> dead_letter \<Rightarrow> json" where
  "export_line s d = JObj
     [(''id'', JInt (dl_id d)),
      (''destination'', JStr (case map_of (map (\<lambda>x. (sd_id x, sd_name x)) (List.rev (ss_destinations s))) (dl_destination_id d) of
          Some n \<Rightarrow> n | None \<Rightarrow> dl_destination_id d)),
      (''source'', JStr (dl_source d)), (''external_id'', JStr (dl_external_id d)),
      (''event_time'', opt_json (map_option isoformat (dl_event_time d))), (''error'', JStr (dl_error d)),
      (''attempts'', JInt (dl_attempts d)), (''quarantined_at'', JStr (isoformat (dl_quarantined_at d))),
      (''payload'', JStr (dl_payload d))]"

text \<open>A page at a time, after the last id of the page before: the number of lines after that id counts down.\<close>

function export_pages :: "siem_db \<Rightarrow> string option \<Rightarrow> string option \<Rightarrow> int \<Rightarrow> dead_letter list" where
  "export_pages db dest_id error after =
     (let page = dlq_after db dest_id after EXPORT_PAGE error
      in if page = [] then [] else page @ export_pages db dest_id error (dl_id (List.last page)))"
  by pat_completeness auto
termination
proof (relation "measure (\<lambda>(db, dest_id, error, after). length (filter (\<lambda>d. after < dl_id d) (db_dlq db)))")
  fix db dest_id error after page
  assume page: "page = dlq_after db dest_id after EXPORT_PAGE error" and "\<not> page = []"
  then have "List.last page \<in> set page" by simp
  then have x: "List.last page \<in> set (db_dlq db)" "after < dl_id (List.last page)"
    unfolding page dlq_after_def using set_take_subset by fastforce+
  have "filter (\<lambda>d. dl_id (List.last page) < dl_id d) (db_dlq db) =
      filter (\<lambda>d. dl_id (List.last page) < dl_id d) (filter (\<lambda>d. after < dl_id d) (db_dlq db))"
    using x(2) by (auto simp: filter_filter intro!: filter_cong)
  moreover have "length (filter (\<lambda>d. dl_id (List.last page) < dl_id d) (filter (\<lambda>d. after < dl_id d) (db_dlq db)))
      < length (filter (\<lambda>d. after < dl_id d) (db_dlq db))"
    using x by (intro length_filter_less [of "List.last page"]) auto
  ultimately show "((db, dest_id, error, dl_id (List.last page)), (db, dest_id, error, after))
      \<in> measure (\<lambda>(db, dest_id, error, after). length (filter (\<lambda>d. after < dl_id d) (db_dlq db)))" by simp
qed simp

declare export_pages.simps [simp del]

definition export_lines :: "siem_settings \<Rightarrow> siem_db \<Rightarrow> string option \<Rightarrow> string option \<Rightarrow> json list" where
  "export_lines s db dest_id error = map (export_line s) (export_pages db dest_id error 0)"

section \<open>Where a destination starts\<close>

text \<open>\<open>have\<close> are the cursors before the page was saved; each source of an enabled destination gets its cursor, every
  other place of a destination that had one is forgotten.\<close>

definition place_source :: "siem_env \<Rightarrow> siem_settings \<Rightarrow> (cursor_key, cursor) dict \<Rightarrow> string \<Rightarrow> string \<Rightarrow> siem_db \<Rightarrow> siem_db" where
  "place_source env s have_cursors dest_id source db =
     (case dict_get have_cursors (dest_id, source) of
        None \<Rightarrow> start_cursor dest_id source (ss_pce_url s) (ss_org_id s) (en_newest env source) db
      | Some c \<Rightarrow>
          (if (cu_pce_url c, cu_org_id c) \<noteq> (ss_pce_url s, ss_org_id s)
           then start_cursor dest_id source (ss_pce_url s) (ss_org_id s) (en_newest env source) db else db))"

definition kept_sources :: "siem_settings \<Rightarrow> (string, string list) dict" where
  "kept_sources s = fold (\<lambda>d. if ss_enabled s \<and> sd_enabled d then dict_set (sd_id d) (cursor_sources d) else id)
     (ss_destinations s) []"

definition place_new_cursors :: "siem_env \<Rightarrow> siem_settings \<Rightarrow> siem_db \<Rightarrow> siem_db" where
  "place_new_cursors env s db =
     (let have_cursors = db_cursors db;
          db1 = fold (\<lambda>d. if ss_enabled s \<and> sd_enabled d
                  then fold (place_source env s have_cursors (sd_id d)) (cursor_sources d) else id) (ss_destinations s) db
      in fold (\<lambda>dest_id. forget_destination dest_id
             (case dict_get (kept_sources s) dest_id of Some xs \<Rightarrow> xs | None \<Rightarrow> []))
           (nub (map (fst \<circ> fst) have_cursors)) db1)"

section \<open>What retention deletes unsent\<close>

definition expiring :: "siem_settings \<Rightarrow> siem_db \<Rightarrow> string \<Rightarrow> (int \<Rightarrow> siem_destination \<Rightarrow> int) \<Rightarrow> (cursor_key, int) dict" where
  "expiring s db source count_after =
     (let dests = map_of (map (\<lambda>d. (sd_id d, d)) (List.rev (ss_destinations s)))
      in concat (map (\<lambda>((d, src), c).
           if src = source \<and> (cu_pce_url c, cu_org_id c) = (ss_pce_url s, ss_org_id s)
           then (case dests d of
                   None \<Rightarrow> []
                 | Some dest \<Rightarrow> (let n = count_after (cu_last_id c) dest in if n \<noteq> 0 then [((d, source), n)] else []))
           else []) (db_cursors db)))"

definition record_dropped :: "(cursor_key, int) dict \<Rightarrow> siem_db \<Rightarrow> siem_db" where
  "record_dropped counts db = (if counts = [] then db else add_dropped counts db)"

section \<open>What the page shows\<close>

datatype siem_source_state = SO_OK | SO_BEHIND | SO_FAILING | SO_DLQ_FULL | SO_WAITING | SO_NEEDS_ALERT_MODE
  | SO_BASELINE_BUILDING | SO_OFF

definition NEEDS_TRAFFIC :: "string list" where "NEEDS_TRAFFIC = [''detections'', ''new_connections'']"

definition source_state :: "string \<Rightarrow> cursor option \<Rightarrow> int option \<Rightarrow> bool \<Rightarrow> bool \<Rightarrow> bool \<Rightarrow> bool \<Rightarrow> int \<Rightarrow> siem_source_state" where
  "source_state source cur pending on light full is_dlq_full warn =
     (if \<not> on then SO_OFF
      else if light \<and> source \<in> set NEEDS_TRAFFIC then SO_NEEDS_ALERT_MODE
      else if source = ''new_connections'' \<and> \<not> full then SO_BASELINE_BUILDING
      else case cur of
        None \<Rightarrow> SO_WAITING
      | Some c \<Rightarrow>
          (if is_dlq_full \<and> cu_last_error c = Some ''dlq_full'' then SO_DLQ_FULL
           else if cu_head_attempts c \<noteq> 0 \<or>
             (case cu_last_error_at c of
                None \<Rightarrow> False
              | Some e \<Rightarrow> (case cu_last_sent_at c of None \<Rightarrow> True | Some x \<Rightarrow> x < e)) then SO_FAILING
           else if (case pending of None \<Rightarrow> False | Some n \<Rightarrow> warn < n) then SO_BEHIND
           else SO_OK))"

record source_status =
  sy_source :: string
  sy_state :: siem_source_state
  sy_pending :: "int option"
  sy_sent :: int
  sy_dropped :: int
  sy_last_sent_at :: "time option"
  sy_last_error :: "string option"
  sy_last_error_at :: "time option"
  sy_head_attempts :: int

definition sends_of :: "(string, sends) dict \<Rightarrow> string \<Rightarrow> sends" where
  "sends_of window dest_id = (case dict_get window dest_id of Some x \<Rightarrow> x | None \<Rightarrow> \<lparr> se_sent = 0, se_failed = 0 \<rparr>)"

definition success_rate :: "sends \<Rightarrow> rat option" where
  "success_rate w =
     (let tried = se_sent w + se_failed w
      in if tried \<noteq> 0 then Some (of_int (round_half_even (of_int (se_sent w * 100) / of_int tried * 10)) / 10) else None)"

record destination_status =
  dy_id :: string
  dy_enabled :: bool
  dy_dlq :: nat
  dy_dlq_max :: nat
  dy_last_hour :: sends
  dy_last_24h :: sends
  dy_last_7d :: sends
  dy_success_rate_1h :: "rat option"
  dy_sources :: "source_status list"

text \<open>The configured PCE's cursor of a source; one of another PCE starts over on the next tick.\<close>

definition own_cursor :: "siem_settings \<Rightarrow> siem_db \<Rightarrow> siem_destination \<Rightarrow> string \<Rightarrow> cursor option" where
  "own_cursor s db dest source =
     (case get_cursor db (sd_id dest) source of
        None \<Rightarrow> None
      | Some c \<Rightarrow> (if (cu_pce_url c, cu_org_id c) \<noteq> (ss_pce_url s, ss_org_id s) then None else Some c))"

definition source_status_of :: "siem_settings \<Rightarrow> siem_db \<Rightarrow> (string \<Rightarrow> int \<Rightarrow> siem_destination \<Rightarrow> int) \<Rightarrow> bool \<Rightarrow> bool \<Rightarrow> int
    \<Rightarrow> siem_destination \<Rightarrow> string \<Rightarrow> source_status" where
  "source_status_of s db count_pending light full warn dest source =
     (let on = (ss_enabled s \<and> sd_enabled dest);
          cur = own_cursor s db dest source;
          pending = (case cur of None \<Rightarrow> None | Some c \<Rightarrow> if on then Some (count_pending source (cu_last_id c) dest) else None);
          is_full = (ss_dlq_max_per_dest s \<le> (case dict_get (dlq_counts db) (sd_id dest) of Some n \<Rightarrow> n | None \<Rightarrow> 0))
      in \<lparr> sy_source = source, sy_state = source_state source cur pending on light full is_full warn, sy_pending = pending,
           sy_sent = (case cur of None \<Rightarrow> 0 | Some c \<Rightarrow> cu_sent c),
           sy_dropped = (case cur of None \<Rightarrow> 0 | Some c \<Rightarrow> cu_dropped c),
           sy_last_sent_at = Option.bind cur cu_last_sent_at, sy_last_error = Option.bind cur cu_last_error,
           sy_last_error_at = Option.bind cur cu_last_error_at,
           sy_head_attempts = (case cur of None \<Rightarrow> 0 | Some c \<Rightarrow> cu_head_attempts c) \<rparr>)"

definition siem_status :: "siem_settings \<Rightarrow> siem_db \<Rightarrow> (string \<Rightarrow> int \<Rightarrow> siem_destination \<Rightarrow> int) \<Rightarrow> bool \<Rightarrow> bool \<Rightarrow> int \<Rightarrow> time
    \<Rightarrow> destination_status list" where
  "siem_status s db count_pending light full warn t =
     (let hour = sends_since db (t - HOUR); day = sends_since db (t - 24 * HOUR); week = sends_since db (t - 7 * DAY)
      in map (\<lambda>d. \<lparr> dy_id = sd_id d, dy_enabled = sd_enabled d,
                    dy_dlq = (case dict_get (dlq_counts db) (sd_id d) of Some n \<Rightarrow> n | None \<Rightarrow> 0),
                    dy_dlq_max = ss_dlq_max_per_dest s, dy_last_hour = sends_of hour (sd_id d),
                    dy_last_24h = sends_of day (sd_id d), dy_last_7d = sends_of week (sd_id d),
                    dy_success_rate_1h = success_rate (sends_of hour (sd_id d)),
                    dy_sources = map (source_status_of s db count_pending light full warn d) (cursor_sources d) \<rparr>)
           (ss_destinations s))"

end
