(* ===== verification/SiemSystem.thy ===== *)
theory SiemSystem
  imports SiemDlq SiemRuns
begin

text \<open>
  What the DLQ operations keep, and the forwarding of one source as a state machine: records are stored and deleted,
  runs send them, dead letters are resent, purged and expire, in any order.
\<close>

section \<open>Deleting lines\<close>

lemma set_chunks: "0 < n \<Longrightarrow> \<Union> (set ` set (chunks n xs)) = set xs"
proof (induction n xs rule: chunks.induct)
  case (2 n x xs)
  then have "\<Union> (set ` set (chunks n (drop (n - 1) xs))) = set (drop (n - 1) xs)" by simp
  moreover have "set (take (n - 1) xs) \<union> set (drop (n - 1) xs) = set xs"
    by (metis append_take_drop_id set_append)
  ultimately show ?case by auto
qed simp

lemma dlq_delete_chunks:
  "db_dlq (fst (fold (\<lambda>chunk (db', n). let (db'', m) = dlq_delete_where (\<lambda>d. dl_id d \<in> set chunk) db' in (db'', n + m)) cs (db, k))) =
     filter (\<lambda>d. dl_id d \<notin> \<Union> (set ` set cs)) (db_dlq db) \<and>
   db_cursors (fst (fold (\<lambda>chunk (db', n). let (db'', m) = dlq_delete_where (\<lambda>d. dl_id d \<in> set chunk) db' in (db'', n + m)) cs (db, k))) =
     db_cursors db"
proof (induction cs arbitrary: db k)
  case Nil
  then show ?case by simp
next
  case (Cons c cs)
  let ?step = "dlq_delete_where (\<lambda>d. dl_id d \<in> set c) db"
  from Cons.IH [of "fst ?step" "k + snd ?step"] show ?case
    by (simp add: Let_def dlq_delete_where_def filter_filter)
qed

lemma chunk_positive: "0 < CHUNK"
  by (simp add: CHUNK_def)

lemma dlq_delete_lines:
  "db_dlq (fst (dlq_delete ids db)) = filter (\<lambda>d. dl_id d \<notin> set ids) (db_dlq db)"
  "db_cursors (fst (dlq_delete ids db)) = db_cursors db"
  using dlq_delete_chunks [of "chunks CHUNK ids" db 0, unfolded set_chunks [OF chunk_positive]]
  by (simp_all add: dlq_delete_def)

section \<open>A resend\<close>

definition line_ids :: "siem_world \<Rightarrow> int set" where
  "line_ids w = dl_id ` set (db_dlq (sw_db w))"

text \<open>What a failed resend leaves of a line.\<close>

definition same_line :: "dead_letter \<Rightarrow> dead_letter \<Rightarrow> bool" where
  "same_line a b = (a\<lparr> dl_attempts := 0, dl_error := [] \<rparr> = b\<lparr> dl_attempts := 0, dl_error := [] \<rparr>)"

definition lines_kept :: "siem_world \<Rightarrow> siem_world \<Rightarrow> bool" where
  "lines_kept w w' = (db_cursors (sw_db w') = db_cursors (sw_db w) \<and>
     (\<forall>b \<in> set (db_dlq (sw_db w')). \<exists>a \<in> set (db_dlq (sw_db w)). same_line a b))"

lemma same_line_trans: "same_line a b \<Longrightarrow> same_line b c \<Longrightarrow> same_line a c"
  by (simp add: same_line_def)

lemma lines_kept_refl [simp]: "lines_kept w w"
  by (auto simp: lines_kept_def same_line_def)

lemma lines_kept_trans: "lines_kept w w1 \<Longrightarrow> lines_kept w1 w2 \<Longrightarrow> lines_kept w w2"
  unfolding lines_kept_def by (metis same_line_trans)

lemma failed_again_kept:
  "lines_kept w (on_db (dlq_failed_again i e) w)" "line_ids (on_db (dlq_failed_again i e) w) = line_ids w"
proof -
  let ?f = "\<lambda>d. if dl_id d = i then d\<lparr> dl_attempts := dl_attempts d + 1, dl_error := take ERROR_KEEP e \<rparr> else d"
  have dlq: "db_dlq (sw_db (on_db (dlq_failed_again i e) w)) = map ?f (db_dlq (sw_db w))"
    by (simp add: siem_simps dlq_failed_again_def)
  have "same_line a (?f a)" for a by (simp add: same_line_def)
  then have "\<forall>b \<in> ?f ` set (db_dlq (sw_db w)). \<exists>a \<in> set (db_dlq (sw_db w)). same_line a b" by blast
  then show "lines_kept w (on_db (dlq_failed_again i e) w)"
    unfolding lines_kept_def dlq set_map by (simp add: siem_simps dlq_failed_again_def)
  have "map dl_id (map ?f (db_dlq (sw_db w))) = map dl_id (db_dlq (sw_db w))" by simp
  then show "line_ids (on_db (dlq_failed_again i e) w) = line_ids w"
    unfolding line_ids_def dlq by (metis set_map)
qed

lemma send_letters_went:
  "send_letters env ds ok failed error w = ((ok', failed', error'), w') \<Longrightarrow>
   \<exists>es. sw_wire w' = sw_wire w @ es \<and> (\<forall>x \<in> set es. \<not> finishes x) \<and> line_ids w' = line_ids w \<and> lines_kept w w' \<and>
     (\<forall>i \<in> set ok'. i \<in> set ok \<or> (\<exists>d \<in> set ds. dl_id d = i \<and> Send (dl_payload d) (dl_event_time d) None \<in> set es))"
proof (induction ds arbitrary: ok failed error w)
  case Nil
  then show ?case by auto
next
  case (Cons d ds)
  obtain reply w1 where s: "send_record env (dl_payload d) (dl_event_time d) w = (reply, w1)" by fastforce
  have w1: "sw_wire w1 = sw_wire w @ [Send (dl_payload d) (dl_event_time d) reply]" "sw_db w1 = sw_db w"
    using s by (auto simp: send_record_def Let_def siem_simps)
  have kept: "line_ids w1 = line_ids w" "lines_kept w w1"
    by (auto simp: line_ids_def lines_kept_def same_line_def w1(2))
  show ?case
  proof (cases reply)
    case None
    then have "send_letters env ds (ok @ [dl_id d]) failed error w1 = ((ok', failed', error'), w')" using Cons.prems s by simp
    from Cons.IH [OF this] obtain es where es: "sw_wire w' = sw_wire w1 @ es" "\<forall>x \<in> set es. \<not> finishes x"
      "line_ids w' = line_ids w1" "lines_kept w1 w'"
      "\<forall>i \<in> set ok'. i \<in> set (ok @ [dl_id d]) \<or> (\<exists>d \<in> set ds. dl_id d = i \<and> Send (dl_payload d) (dl_event_time d) None \<in> set es)"
      by (elim exE conjE)
    show ?thesis
      by (rule exI [of _ "Send (dl_payload d) (dl_event_time d) None # es"])
        (use es w1 kept None lines_kept_trans in auto)
  next
    case (Some e)
    let ?w2 = "on_db (dlq_failed_again (dl_id d) (error_text e)) w1"
    from Some have "send_letters env ds ok (failed + 1) (Some (error_text e)) ?w2 = ((ok', failed', error'), w')"
      using Cons.prems s by simp
    from Cons.IH [OF this] obtain es where es: "sw_wire w' = sw_wire ?w2 @ es" "\<forall>x \<in> set es. \<not> finishes x"
      "line_ids w' = line_ids ?w2" "lines_kept ?w2 w'"
      "\<forall>i \<in> set ok'. i \<in> set ok \<or> (\<exists>d \<in> set ds. dl_id d = i \<and> Send (dl_payload d) (dl_event_time d) None \<in> set es)"
      by (elim exE conjE)
    have "lines_kept w w'" using lines_kept_trans [OF lines_kept_trans [OF kept(2) failed_again_kept(1)] es(4)] .
    moreover have "line_ids w' = line_ids w" using es(3) failed_again_kept(2) kept(1) by simp
    ultimately show ?thesis
      by (intro exI [of _ "Send (dl_payload d) (dl_event_time d) reply # es"]) (use es w1 in \<open>auto simp: siem_simps\<close>)
  qed
qed

text \<open>A line that is gone went out, was confirmed, and was made for the destination as it is.\<close>

definition gone_delivered :: "(dead_letter \<Rightarrow> siem_destination \<Rightarrow> bool) \<Rightarrow> dead_letter list \<Rightarrow> siem_world \<Rightarrow> siem_world
    \<Rightarrow> wire_event list \<Rightarrow> bool" where
  "gone_delivered P letters w w' es =
     (\<forall>i \<in> line_ids w - line_ids w'. \<exists>d \<in> set letters. dl_id d = i \<and>
        (\<exists>dest. P d dest \<and> sent_as dest = dl_sent_as d) \<and> (dl_payload d, dl_event_time d) \<in> delivered es)"

lemma delivered_prefix: "x \<in> delivered es \<Longrightarrow> x \<in> delivered (es @ fs)"
  using delivered_append [of es fs] by blast

lemma delivered_suffix: "x \<in> delivered fs \<Longrightarrow> x \<in> delivered (es @ fs)"
  using delivered_append [of es fs] by blast

lemma resend_to_went:
  assumes "resend_to env dest letters t res w = (out, w')"
    and P: "\<forall>d \<in> set letters. P d dest"
  shows "\<exists>es. sw_wire w' = sw_wire w @ es \<and> line_ids w' \<subseteq> line_ids w \<and> lines_kept w w' \<and>
    gone_delivered P letters w w' es"
proof -
  define new where "new = filter (\<lambda>d. dl_sent_as d = sent_as dest) letters"
  define res1 where "res1 = res\<lparr> rs_changed := rs_changed res + int (length (filter (\<lambda>d. dl_sent_as d \<noteq> sent_as dest) letters)) \<rparr>"
  have triv: ?thesis if "w' = w"
    by (rule exI [of _ "[]"]) (simp add: that gone_delivered_def)
  show ?thesis
  proof (cases "new = [] \<or> en_setup env dest \<noteq> None")
    case True
    then have "w' = w" using assms(1)
      by (auto simp: resend_to_def Let_def new_def [symmetric] split: if_splits option.splits)
    then show ?thesis by (rule triv)
  next
    case False
    obtain ok failed error w1 where s: "send_letters env new [] 0 (rs_error res1) w = ((ok, failed, error), w1)"
      by (metis prod_cases3 surj_pair)
    obtain conf w2 where c: "confirm_letters env ok error w1 = (conf, w2)" by fastforce
    from send_letters_went [OF s] obtain es where es: "sw_wire w1 = sw_wire w @ es" "\<forall>x \<in> set es. \<not> finishes x"
      "line_ids w1 = line_ids w" "lines_kept w w1"
      "\<forall>i \<in> set ok. \<exists>d \<in> set new. dl_id d = i \<and> Send (dl_payload d) (dl_event_time d) None \<in> set es" by auto
    have w2: "sw_db w2 = sw_db w1" using c same_db_calls(3)
      by (auto simp: confirm_letters_def Let_def split: if_splits option.splits prod.splits)
    consider (bad) e where "conf = Inl e" | (lost) m k er where "conf = Inr ([], m, k, er)"
      | (ok) er where "ok \<noteq> []" "conf = Inr (ok, 0, 0, er)" "finish_batch env w1 = (None, w2)"
      using c by (auto simp: confirm_letters_def split: if_splits option.splits prod.splits)
    then show ?thesis
    proof cases
      case bad
      then have "w' = on_wire Close w2" using assms(1) False s c
        by (auto simp: resend_to_def Let_def new_def [symmetric] res1_def [symmetric] split: option.splits)
      moreover have "\<exists>fs. sw_wire w2 = sw_wire w1 @ fs" using c
        by (auto simp: confirm_letters_def finish_batch_def Let_def siem_simps split: if_splits option.splits)
      ultimately show ?thesis using es w2
        by (auto simp: siem_simps line_ids_def lines_kept_def gone_delivered_def)
    next
      case lost
      then have "w' = on_db (record_sends (sd_id dest) t 0 (failed + k)) (on_db (fst \<circ> dlq_delete []) (on_wire Close w2))"
        using assms(1) False s c
        by (auto simp: resend_to_def Let_def new_def [symmetric] res1_def [symmetric] split: option.splits)
      moreover have "\<exists>fs. sw_wire w2 = sw_wire w1 @ fs" using c
        by (auto simp: confirm_letters_def finish_batch_def Let_def siem_simps split: if_splits option.splits)
      moreover have "db_cursors (record_sends d x a b db) = db_cursors db" for d x a b db
        by (simp add: record_sends_def count_sends_def)
      ultimately show ?thesis using es w2
        by (auto simp: siem_simps line_ids_def lines_kept_def gone_delivered_def dlq_delete_lines)
    next
      case ok
      have w': "w' = on_db (record_sends (sd_id dest) t (int (length ok)) failed) (on_db (fst \<circ> dlq_delete ok) (on_wire Close w2))"
        using assms(1) False s c ok
        by (auto simp: resend_to_def Let_def new_def [symmetric] res1_def [symmetric] split: option.splits)
      have wire: "sw_wire w' = sw_wire w @ ((es @ [Finish None]) @ [Close])"
        using w' es(1) ok(3) by (auto simp: finish_batch_def Let_def siem_simps)
      have dlq: "db_dlq (sw_db w') = filter (\<lambda>d. dl_id d \<notin> set ok) (db_dlq (sw_db w1))"
        by (simp add: w' siem_simps dlq_delete_lines w2)
      have cur: "db_cursors (sw_db w') = db_cursors (sw_db w1)"
        by (simp add: w' siem_simps dlq_delete_lines w2 record_sends_def count_sends_def)
      have "gone_delivered P letters w w' ((es @ [Finish None]) @ [Close])"
        unfolding gone_delivered_def
      proof
        fix i
        assume "i \<in> line_ids w - line_ids w'"
        then have "i \<in> line_ids w1 - line_ids w'" using es(3) by simp
        then have "i \<in> set ok" unfolding line_ids_def dlq by auto
        then obtain d where d: "d \<in> set new" "dl_id d = i" "Send (dl_payload d) (dl_event_time d) None \<in> set es"
          using es(5) by blast
        then have "(dl_payload d, dl_event_time d) \<in> delivered ((es @ [Finish None]) @ [Close])"
          using delivered_sent [OF es(2)] delivered_prefix by blast
        moreover have "d \<in> set letters" "P d dest" "sent_as dest = dl_sent_as d" using d(1) P by (auto simp: new_def)
        ultimately show "\<exists>d \<in> set letters. dl_id d = i \<and> (\<exists>dest. P d dest \<and> sent_as dest = dl_sent_as d) \<and>
            (dl_payload d, dl_event_time d) \<in> delivered ((es @ [Finish None]) @ [Close])"
          using d(2) by blast
      qed
      moreover have "lines_kept w w'" using es(4) cur dlq by (auto simp: lines_kept_def)
      moreover have "line_ids w' \<subseteq> line_ids w" using es(3) dlq by (auto simp: line_ids_def)
      ultimately show ?thesis using wire by blast
    qed
  qed
qed

lemma resend_each_went:
  "resend_each env dests t groups res w = (out, w') \<Longrightarrow>
   (\<forall>(dest_id, letters) \<in> set groups. \<forall>d \<in> set letters. \<forall>dest. dests dest_id = Some dest \<longrightarrow> P d dest) \<Longrightarrow>
   \<exists>es. sw_wire w' = sw_wire w @ es \<and> line_ids w' \<subseteq> line_ids w \<and> lines_kept w w' \<and>
     gone_delivered P (concat (map snd groups)) w w' es"
proof (induction groups arbitrary: res w)
  case Nil
  then show ?case by (auto simp: gone_delivered_def)
next
  case (Cons g groups)
  obtain dest_id letters where g: "g = (dest_id, letters)" by fastforce
  have more: "gone_delivered P (concat (map snd (g # groups))) a b es" if "gone_delivered P (concat (map snd groups)) a b es" for a b es
    using that unfolding gone_delivered_def by fastforce
  show ?case
  proof (cases "dests dest_id")
    case None
    then have "resend_each env dests t groups (res\<lparr> rs_skipped := rs_skipped res + int (length letters) \<rparr>) w = (out, w')"
      using Cons.prems(1) g by simp
    from Cons.IH [OF this] Cons.prems(2) more show ?thesis by fastforce
  next
    case (Some dest)
    obtain r1 w1 where r: "resend_to env dest letters t res w = (r1, w1)" by fastforce
    have "\<forall>d \<in> set letters. P d dest" using Cons.prems(2) g Some by auto
    from resend_to_went [OF r, of P, OF this] obtain es where es: "sw_wire w1 = sw_wire w @ es" "line_ids w1 \<subseteq> line_ids w"
      "lines_kept w w1" "gone_delivered P letters w w1 es" by blast
    show ?thesis
    proof (cases r1)
      case (Inl e)
      then have "w' = w1" using Cons.prems(1) g Some r by simp
      moreover have "gone_delivered P (concat (map snd (g # groups))) w w1 es"
        using es(4) g unfolding gone_delivered_def by fastforce
      ultimately show ?thesis using es by blast
    next
      case (Inr res')
      then have "resend_each env dests t groups res' w1 = (out, w')" using Cons.prems(1) g Some r by simp
      from Cons.IH [OF this] Cons.prems(2) obtain fs where fs: "sw_wire w' = sw_wire w1 @ fs" "line_ids w' \<subseteq> line_ids w1"
        "lines_kept w1 w'" "gone_delivered P (concat (map snd groups)) w1 w' fs" by auto
      have "gone_delivered P (concat (map snd (g # groups))) w w' (es @ fs)"
        unfolding gone_delivered_def
      proof
        fix i
        assume i: "i \<in> line_ids w - line_ids w'"
        show "\<exists>d \<in> set (concat (map snd (g # groups))). dl_id d = i \<and> (\<exists>dest. P d dest \<and> sent_as dest = dl_sent_as d) \<and>
            (dl_payload d, dl_event_time d) \<in> delivered (es @ fs)"
        proof (cases "i \<in> line_ids w1")
          case True
          with i fs(4) obtain d where "d \<in> set (concat (map snd groups))" "dl_id d = i"
            "\<exists>dest. P d dest \<and> sent_as dest = dl_sent_as d" "(dl_payload d, dl_event_time d) \<in> delivered fs"
            unfolding gone_delivered_def by blast
          then show ?thesis using delivered_suffix by (intro bexI [of _ d]) auto
        next
          case False
          with i es(4) obtain d where "d \<in> set letters" "dl_id d = i"
            "\<exists>dest. P d dest \<and> sent_as dest = dl_sent_as d" "(dl_payload d, dl_event_time d) \<in> delivered es"
            unfolding gone_delivered_def by blast
          then show ?thesis using delivered_prefix g by (intro bexI [of _ d]) auto
        qed
      qed
      then show ?thesis using es(1,2) fs(1,2) lines_kept_trans [OF es(3) fs(3)] by (auto intro!: exI [of _ "es @ fs"])
    qed
  qed
qed

text \<open>The ids of the DLQ are given out once, in order.\<close>

definition letters_ok :: "siem_db \<Rightarrow> bool" where
  "letters_ok db = (sorted_wrt (\<lambda>a b. dl_id a < dl_id b) (db_dlq db) \<and> 
     (\<forall>d \<in> set (db_dlq db). 0 < dl_id d \<and> dl_id d \<le> db_dlq_seq db) \<and> 0 \<le> db_dlq_seq db)"

lemma letters_distinct:
  assumes "letters_ok db" "a \<in> set (db_dlq db)" "b \<in> set (db_dlq db)" "dl_id a = dl_id b"
  shows "a = b"
proof -
  have "a = b" if "sorted_wrt (\<lambda>a b. dl_id a < dl_id b) xs" "a \<in> set xs" "b \<in> set xs" for xs
    using that assms(4) by (induction xs) auto
  with assms(1-3) show ?thesis by (auto simp: letters_ok_def)
qed

lemma to_resend_lines: "set (to_resend db ids dest_id error) \<subseteq> set (db_dlq db)"
proof -
  have "set (dlq_by_ids db xs) \<subseteq> set (db_dlq db)" for xs by (auto simp: dlq_by_ids_def)
  moreover have "set (dlq_after db dest_id 0 RESEND_MAX error) \<subseteq> set (db_dlq db)"
    using set_take_subset unfolding dlq_after_def by fastforce
  ultimately show ?thesis using set_take_subset unfolding to_resend_def by (fastforce split: option.splits)
qed

lemma enabled_by_id_Some: "enabled_by_id s i = Some d \<Longrightarrow> d \<in> set (ss_destinations s) \<and> sd_enabled d \<and> sd_id d = i"
  by (auto simp: enabled_by_id_def dest!: map_of_SomeD)

lemma resend_went:
  assumes "letters_ok (sw_db w)"
  shows "\<exists>es. sw_wire (snd (resend env s ids dest_id error t w)) = sw_wire w @ es \<and>
    lines_kept w (snd (resend env s ids dest_id error t w)) \<and>
    (\<forall>d \<in> set (db_dlq (sw_db w)). dl_id d \<notin> line_ids (snd (resend env s ids dest_id error t w)) \<longrightarrow>
       (dl_payload d, dl_event_time d) \<in> delivered es \<and>
       (\<exists>dest \<in> set (ss_destinations s). sd_enabled dest \<and> sd_id dest = dl_destination_id d \<and>
          sent_as dest = dl_sent_as d))"
proof -
  define groups where "groups = group_by dl_destination_id (to_resend (sw_db w) ids dest_id error)"
  define P where "P = (\<lambda>(d :: dead_letter) dest. dest \<in> set (ss_destinations s) \<and> sd_enabled dest \<and> sd_id dest = dl_destination_id d)"
  obtain out w' where r: "resend_each env (enabled_by_id s) t groups no_resend w = (out, w')" by fastforce
  have w': "snd (resend env s ids dest_id error t w) = w'"
    using r by (simp add: resend_def groups_def split: sum.splits)
  have P: "\<forall>(dest_id, letters) \<in> set groups. \<forall>d \<in> set letters. \<forall>dest. enabled_by_id s dest_id = Some dest \<longrightarrow> P d dest"
    using enabled_by_id_Some by (auto simp: groups_def group_by_set P_def)
  from resend_each_went [OF r P] obtain es where es: "sw_wire w' = sw_wire w @ es" "lines_kept w w'"
    "gone_delivered P (concat (map snd groups)) w w' es" by blast
  have from_dlq: "set (concat (map snd groups)) \<subseteq> set (db_dlq (sw_db w))"
    using to_resend_lines by (fastforce simp: groups_def group_by_set)
  have "(dl_payload d, dl_event_time d) \<in> delivered es \<and>
      (\<exists>dest \<in> set (ss_destinations s). sd_enabled dest \<and> sd_id dest = dl_destination_id d \<and> sent_as dest = dl_sent_as d)"
    if d: "d \<in> set (db_dlq (sw_db w))" "dl_id d \<notin> line_ids w'" for d
  proof -
    from d have "dl_id d \<in> line_ids w - line_ids w'" by (simp add: line_ids_def)
    then obtain d2 where d2: "d2 \<in> set (concat (map snd groups))" "dl_id d2 = dl_id d"
      "\<exists>dest. P d2 dest \<and> sent_as dest = dl_sent_as d2" "(dl_payload d2, dl_event_time d2) \<in> delivered es"
      using es(3) unfolding gone_delivered_def by blast
    have "d2 = d" using letters_distinct [OF assms _ d(1) d2(2)] d2(1) from_dlq by blast
    with d2(3,4) show ?thesis by (auto simp: P_def)
  qed
  with es(1,2) show ?thesis unfolding w' by blast
qed

text \<open>C18. A resend takes from the DLQ only what was delivered: each line that is no longer there was sent and its
  batch confirmed in this resend, by an enabled destination of that line which still is what the line was made
  for (transport, host, port, format, masking). The lines that stay are the lines as they were, up to the
  count of attempts and the error, and no cursor is touched; this holds too when the resend ends in an exception.\<close>

theorem resend_takes_only_delivered:
  assumes "letters_ok (sw_db w)"
  shows "\<exists>es. sw_wire (snd (resend env s ids dest_id error t w)) = sw_wire w @ es \<and>
    lines_kept w (snd (resend env s ids dest_id error t w)) \<and>
    (\<forall>d \<in> set (db_dlq (sw_db w)). dl_id d \<notin> line_ids (snd (resend env s ids dest_id error t w)) \<longrightarrow>
       (dl_payload d, dl_event_time d) \<in> delivered es \<and>
       (\<exists>dest \<in> set (ss_destinations s). sd_enabled dest \<and> sd_id dest = dl_destination_id d \<and>
          sent_as dest = dl_sent_as d))"
  by (rule resend_went [OF assms])

section \<open>More that a run keeps\<close>

definition floor_at :: "siem_db \<Rightarrow> cursor_key \<Rightarrow> time option option" where
  "floor_at db k = map_option cu_floor_time (dict_get (db_cursors db) k)"

definition no_floor :: "siem_destination \<Rightarrow> string \<Rightarrow> siem_db \<Rightarrow> bool" where
  "no_floor dest source db = (floor_at db (sd_id dest, source) \<in> {None, Some None})"

lemma cursors_simps [siem_simps]:
  "db_cursors (count_sends d t a b db) = db_cursors db"
  "db_cursors (record_sends d t a b db) = db_cursors db"
  "db_cursors (quarantine d source i x et p m e n t db) = db_cursors db"
  by (simp_all add: count_sends_def record_sends_def quarantine_def)

lemma floor_at_update:
  "(\<And>v. cu_floor_time (f v) = cu_floor_time v) \<Longrightarrow> floor_at (db\<lparr> db_cursors := update_where P f (db_cursors db) \<rparr>) k = floor_at db k"
  by (cases "dict_get (db_cursors db) k") (simp_all add: floor_at_def dict_simps)

lemma floor_at_simps:
  "floor_at (record_sends d t a b db) k = floor_at db k"
  "floor_at (quarantine d source i x et p mf e n t db) k = floor_at db k"
  "floor_at (note_error d source e t db) k = floor_at db k"
  "floor_at (fst (advance d source u g n m t db)) k = floor_at db k"
  "floor_at (fst (record_failure d source h e t db)) k = floor_at db k"
proof -
  show "floor_at (record_sends d t a b db) k = floor_at db k" "floor_at (quarantine d source i x et p mf e n t db) k = floor_at db k"
    by (simp_all add: floor_at_def siem_simps)
  show "floor_at (note_error d source e t db) k = floor_at db k"
    unfolding note_error_def by (rule floor_at_update) simp
  have "floor_at (count_sends d t a b db') k = floor_at db' k" for a b db' by (simp add: floor_at_def siem_simps)
  moreover have "floor_at (db\<lparr> db_cursors := update_where P (advanced n m t) (db_cursors db) \<rparr>) k = floor_at db k"
    "floor_at (db\<lparr> db_cursors := update_where P (failed_at h e t) (db_cursors db) \<rparr>) k = floor_at db k" for P
    by (rule floor_at_update, simp add: advanced_def Let_def) (rule floor_at_update, simp add: failed_at_def)
  ultimately show "floor_at (fst (advance d source u g n m t db)) k = floor_at db k"
    "floor_at (fst (record_failure d source h e t db)) k = floor_at db k"
    by (simp_all add: advance_def record_failure_def Let_def)
qed

interpretation floorless: siem_kept_started s dest source "no_floor dest source" for s dest source
proof
  fix db
  show "no_floor dest source (set_floor (sd_id dest) source None db)"
    by (cases "dict_get (db_cursors db) (sd_id dest, source)") (simp_all add: no_floor_def floor_at_def set_floor_def dict_simps)
next
  fix db u g n
  assume "no_floor dest source db"
  then show "no_floor dest source (start_cursor (sd_id dest) source u g n db)"
    by (cases "dict_get (db_cursors db) (sd_id dest, source)")
      (simp_all add: no_floor_def floor_at_def start_cursor_def get_cursor_def new_cursor_def dict_get_set)
qed (simp_all add: no_floor_def floor_at_simps)

text \<open>A run leaves the cursors of every other source and destination alone, and only adds to the DLQ.\<close>

lemma update_where_other:
  "(\<And>v. \<not> P k v) \<Longrightarrow> dict_get (update_where P f d) k = dict_get d k"
  by (cases "dict_get d k") (simp_all add: dict_simps)

lemma other_cursor:
  assumes "(d2, source2) \<noteq> (d, source)"
  shows "get_cursor (note_error d source e t db) d2 source2 = get_cursor db d2 source2"
    and "get_cursor (set_floor d source f db) d2 source2 = get_cursor db d2 source2"
    and "get_cursor (fst (advance d source u g n k t db)) d2 source2 = get_cursor db d2 source2"
    and "get_cursor (fst (record_failure d source h e t db)) d2 source2 = get_cursor db d2 source2"
    and "get_cursor (start_cursor d source u g n db) d2 source2 = get_cursor db d2 source2"
  using assms
  by (auto simp: get_cursor_def note_error_def set_floor_def advance_def record_failure_def start_cursor_def
      Let_def siem_simps update_where_other dict_get_set)

interpretation others_alone: siem_kept_started s dest source
  "\<lambda>db. (d2, source2) = (sd_id dest, source) \<or> get_cursor db d2 source2 = C" for s dest source d2 source2 C
proof
  fix db t a b
  assume "(d2, source2) = (sd_id dest, source) \<or> get_cursor db d2 source2 = C"
  then show "(d2, source2) = (sd_id dest, source) \<or> get_cursor (record_sends (sd_id dest) t a b db) d2 source2 = C"
    by (simp add: get_cursor_def siem_simps)
next
  fix db i x et p m e n t
  assume "(d2, source2) = (sd_id dest, source) \<or> get_cursor db d2 source2 = C"
  then show "(d2, source2) = (sd_id dest, source) \<or>
      get_cursor (quarantine (sd_id dest) source i x et p m e n t db) d2 source2 = C"
    by (simp add: get_cursor_def siem_simps)
qed (metis other_cursor)+

interpretation dlq_grows: siem_kept_started s dest source "\<lambda>db. \<exists>letters. db_dlq db = start @ letters" for s dest source start
  by unfold_locales (auto simp: siem_simps quarantine_def start_cursor_def)

interpretation ids_in_order: siem_kept_started s dest source letters_ok for s dest source
  by unfold_locales
    (auto simp: letters_ok_def siem_simps quarantine_def start_cursor_def sorted_wrt_append record_sends_def
      count_sends_def note_error_def set_floor_def advance_def record_failure_def Let_def)

section \<open>Forwarding as a state machine\<close>

text \<open>One source of one destination over time: the database and the wire, the source table as it is, and as history
  every record ever stored, every line that ever went to the DLQ and every record deleted with an id the cursor had
  not passed. A step stores records (an id is above every id
  given out before, so above the cursor, which holds one of those), deletes some (retention, a purge), runs this source, or
  another source or destination, or resends, purges or expires dead letters.\<close>

record siem_state =
  st_world :: siem_world
  st_table :: "siem_record list"
  st_stored :: "siem_record list"
  st_letters :: "dead_letter list"
  st_unsent :: "siem_record list"

definition cursor_at :: "siem_destination \<Rightarrow> string \<Rightarrow> siem_world \<Rightarrow> int" where
  "cursor_at dest source w = (case get_cursor (sw_db w) (sd_id dest) source of None \<Rightarrow> 0 | Some c \<Rightarrow> cu_last_id c)"

definition with_world :: "siem_world \<Rightarrow> siem_state \<Rightarrow> siem_state" where
  "with_world w st = st\<lparr> st_world := w,
     st_letters := st_letters st @ drop (length (db_dlq (sw_db (st_world st)))) (db_dlq (sw_db w)) \<rparr>"

inductive siem_step :: "siem_settings \<Rightarrow> siem_destination \<Rightarrow> string \<Rightarrow> (siem_record \<Rightarrow> exn + string) \<Rightarrow> siem_state \<Rightarrow> siem_state \<Rightarrow> bool"
  for s dest source fmt where
  stored: "in_order (st_stored st @ rs) \<Longrightarrow> \<forall>r \<in> set rs. cursor_at dest source (st_world st) < sr_id r \<Longrightarrow>
     siem_step s dest source fmt st (st\<lparr> st_table := st_table st @ rs, st_stored := st_stored st @ rs \<rparr>)"
| deleted: "siem_step s dest source fmt st (st\<lparr> st_table := filter (\<lambda>r. \<not> P r) (st_table st),
     st_unsent := st_unsent st @ filter (\<lambda>r. P r \<and> cursor_at dest source (st_world st) < sr_id r) (st_table st) \<rparr>)"
| run: "en_table env dest source = st_table st \<Longrightarrow> en_format env dest = fmt \<Longrightarrow>
     siem_step s dest source fmt st (with_world (snd (run_source env s dest source gen deadline (st_world st))) st)"
| other: "(sd_id dest2, source2) \<noteq> (sd_id dest, source) \<Longrightarrow> in_order (en_table env dest2 source2) \<Longrightarrow>
     siem_step s dest source fmt st (with_world (snd (run_source env s dest2 source2 gen deadline (st_world st))) st)"
| resent: "siem_step s dest source fmt st (st\<lparr> st_world := snd (resend env s ids dest_id error t (st_world st)) \<rparr>)"
| purged: "siem_step s dest source fmt st (st\<lparr> st_world := on_db (fst \<circ> purge ids dest_id days error t) (st_world st) \<rparr>)"
| expired: "siem_step s dest source fmt st (st\<lparr> st_world := on_db (fst \<circ> run_dlq_retention s t) (st_world st) \<rparr>)"

inductive_cases siem_step_cases: "siem_step s dest source fmt st st'"

text \<open>The cursor was placed at \<open>start\<close>, of the configured PCE and without a floor; the DLQ may hold anything.\<close>

inductive siem_reachable :: "siem_settings \<Rightarrow> siem_destination \<Rightarrow> string \<Rightarrow> (siem_record \<Rightarrow> exn + string) \<Rightarrow> int \<Rightarrow> siem_state \<Rightarrow> bool"
  for s dest source fmt start where
  init: "position (sw_db w) (sd_id dest, source) = Some (start, ss_pce_url s, ss_org_id s) \<Longrightarrow>
     no_floor dest source (sw_db w) \<Longrightarrow> letters_ok (sw_db w) \<Longrightarrow> in_order rs \<Longrightarrow>
     siem_reachable s dest source fmt start
       \<lparr> st_world = w, st_table = rs, st_stored = rs, st_letters = [], st_unsent = [] \<rparr>"
| step: "siem_reachable s dest source fmt start st \<Longrightarrow> siem_step s dest source fmt st st' \<Longrightarrow>
     siem_reachable s dest source fmt start st'"

definition handled :: "siem_destination \<Rightarrow> string \<Rightarrow> (siem_record \<Rightarrow> exn + string) \<Rightarrow> siem_state \<Rightarrow> siem_record \<Rightarrow> bool" where
  "handled dest source fmt st r =
     ((\<exists>p. fmt r = Inr p \<and> (p, Some (sr_time r)) \<in> delivered (sw_wire (st_world st))) \<or>
      lettered dest source (st_letters st) r \<or> r \<in> set (st_unsent st))"

definition siem_inv :: "siem_settings \<Rightarrow> siem_destination \<Rightarrow> string \<Rightarrow> (siem_record \<Rightarrow> exn + string) \<Rightarrow> int \<Rightarrow> siem_state \<Rightarrow> bool" where
  "siem_inv s dest source fmt start st =
     (in_order (st_stored st) \<and> in_order (st_table st) \<and> set (st_table st) \<subseteq> set (st_stored st) \<and>
      no_floor dest source (sw_db (st_world st)) \<and> letters_ok (sw_db (st_world st)) \<and>
      (\<exists>m. position (sw_db (st_world st)) (sd_id dest, source) = Some (m, ss_pce_url s, ss_org_id s) \<and>
        (\<forall>r \<in> set (st_stored st). start < sr_id r \<and> sr_id r \<le> m \<longrightarrow> handled dest source fmt st r) \<and>
        (\<forall>r \<in> set (st_stored st). m < sr_id r \<longrightarrow> r \<in> set (st_table st) \<or> r \<in> set (st_unsent st))))"

lemma siem_invI:
  assumes "in_order (st_stored st)" "in_order (st_table st)" "set (st_table st) \<subseteq> set (st_stored st)"
    "no_floor dest source (sw_db (st_world st))" "letters_ok (sw_db (st_world st))"
    "position (sw_db (st_world st)) (sd_id dest, source) = Some (m, ss_pce_url s, ss_org_id s)"
    "\<forall>r \<in> set (st_stored st). start < sr_id r \<and> sr_id r \<le> m \<longrightarrow> handled dest source fmt st r"
    "\<forall>r \<in> set (st_stored st). m < sr_id r \<longrightarrow> r \<in> set (st_table st) \<or> r \<in> set (st_unsent st)"
  shows "siem_inv s dest source fmt start st"
  unfolding siem_inv_def using assms by blast

lemma siem_invE:
  assumes "siem_inv s dest source fmt start st"
  obtains m where "in_order (st_stored st)" "in_order (st_table st)" "set (st_table st) \<subseteq> set (st_stored st)"
    "no_floor dest source (sw_db (st_world st))" "letters_ok (sw_db (st_world st))"
    "position (sw_db (st_world st)) (sd_id dest, source) = Some (m, ss_pce_url s, ss_org_id s)"
    "\<forall>r \<in> set (st_stored st). start < sr_id r \<and> sr_id r \<le> m \<longrightarrow> handled dest source fmt st r"
    "\<forall>r \<in> set (st_stored st). m < sr_id r \<longrightarrow> r \<in> set (st_table st) \<or> r \<in> set (st_unsent st)"
  using assms unfolding siem_inv_def by (elim conjE exE)

text \<open>What is handled stays handled.\<close>

lemma handled_mono:
  assumes "handled dest source fmt st r" "sw_wire (st_world st') = sw_wire (st_world st) @ es"
    "st_letters st' = st_letters st @ ls" "st_unsent st' = st_unsent st @ us"
  shows "handled dest source fmt st' r"
  using assms delivered_append [of "sw_wire (st_world st)" es] unfolding handled_def by auto

lemma in_order_stored: "in_order (xs @ rs) \<Longrightarrow> in_order ys \<Longrightarrow> set ys \<subseteq> set xs \<Longrightarrow> in_order (ys @ rs)"
  unfolding in_order_def sorted_wrt_append by blast

lemma cursor_at_position: "position (sw_db w) (sd_id dest, source) = Some (m, u, g) \<Longrightarrow> cursor_at dest source w = m"
  by (auto simp: cursor_at_def position_cursor)

text \<open>A step that leaves this cursor and the table alone, and only adds to the wire, keeps the invariant.\<close>

lemma siem_inv_aside:
  assumes "siem_inv s dest source fmt start st"
    and "st_table st' = st_table st" "st_stored st' = st_stored st" "st_unsent st' = st_unsent st"
    and "st_letters st' = st_letters st @ ls" "sw_wire (st_world st') = sw_wire (st_world st) @ es"
    and cursor: "get_cursor (sw_db (st_world st')) (sd_id dest) source = get_cursor (sw_db (st_world st)) (sd_id dest) source"
    and "letters_ok (sw_db (st_world st'))"
  shows "siem_inv s dest source fmt start st'"
proof -
  have p: "position (sw_db (st_world st')) (sd_id dest, source) = position (sw_db (st_world st)) (sd_id dest, source)"
    and f: "no_floor dest source (sw_db (st_world st')) = no_floor dest source (sw_db (st_world st))"
    using cursor by (simp_all add: position_def get_cursor_def no_floor_def floor_at_def)
  have h: "handled dest source fmt st' r" if "handled dest source fmt st r" for r
    using handled_mono [OF that assms(6,5), of "[]"] assms(4) by simp
  from assms(1) obtain m where i: "in_order (st_stored st)" "in_order (st_table st)" "set (st_table st) \<subseteq> set (st_stored st)"
    "no_floor dest source (sw_db (st_world st))" "letters_ok (sw_db (st_world st))"
    "position (sw_db (st_world st)) (sd_id dest, source) = Some (m, ss_pce_url s, ss_org_id s)"
    "\<forall>r \<in> set (st_stored st). start < sr_id r \<and> sr_id r \<le> m \<longrightarrow> handled dest source fmt st r"
    "\<forall>r \<in> set (st_stored st). m < sr_id r \<longrightarrow> r \<in> set (st_table st) \<or> r \<in> set (st_unsent st)"
    by (rule siem_invE)
  show ?thesis
    by (rule siem_invI [where m = m]) (use i assms(2-4,8) h p f in simp_all)
qed

lemma run_source_wire:
  assumes "in_order (en_table env dest source)"
  shows "\<exists>es. sw_wire (snd (run_source env s dest source gen deadline w)) = sw_wire w @ es"
proof (cases "\<exists>c. get_cursor (sw_db w) (sd_id dest) source = Some c \<and> cu_pce_url c = ss_pce_url s \<and> cu_org_id c = ss_org_id s")
  case True
  then obtain c where c: "get_cursor (sw_db w) (sd_id dest) source = Some c" "cu_pce_url c = ss_pce_url s" "cu_org_id c = ss_org_id s"
    by blast
  then have pos: "position (sw_db w) (sd_id dest, source) = Some (cu_last_id c, ss_pce_url s, ss_org_id s)"
    by (simp add: position_cursor)
  obtain res w' where r: "run_loop env s dest source gen deadline (cu_last_id c) (cu_floor_time c) new_run w = (res, w')"
    by fastforce
  then show ?thesis using run_loop_went [OF assms pos r] c by (auto simp: run_source_def Let_def went_def)
next
  case False
  then have "sw_wire (snd (run_source env s dest source gen deadline w)) = sw_wire w"
    by (auto simp: run_source_def Let_def siem_simps split: option.splits)
  then show ?thesis by simp
qed

lemma dlq_appended:
  "db_dlq (sw_db (snd (run_source env s dest source gen deadline w))) =
     db_dlq (sw_db w) @ drop (length (db_dlq (sw_db w))) (db_dlq (sw_db (snd (run_source env s dest source gen deadline w))))"
proof -
  have "\<exists>letters. db_dlq (sw_db (snd (run_source env s dest source gen deadline w))) = db_dlq (sw_db w) @ letters"
    by (rule dlq_grows.run_source_kept) simp
  then show ?thesis by force
qed

lemma siem_inv_run:
  assumes inv: "siem_inv s dest source fmt start st"
    and env: "en_table env dest source = st_table st" "en_format env dest = fmt"
  shows "siem_inv s dest source fmt start (with_world (snd (run_source env s dest source gen deadline (st_world st))) st)"
proof -
  let ?w = "st_world st" and ?w' = "snd (run_source env s dest source gen deadline (st_world st))"
  from inv obtain m where i: "in_order (st_stored st)" "in_order (st_table st)" "set (st_table st) \<subseteq> set (st_stored st)"
    "no_floor dest source (sw_db ?w)" "letters_ok (sw_db ?w)"
    "position (sw_db ?w) (sd_id dest, source) = Some (m, ss_pce_url s, ss_org_id s)"
    "\<forall>r \<in> set (st_stored st). start < sr_id r \<and> sr_id r \<le> m \<longrightarrow> handled dest source fmt st r"
    "\<forall>r \<in> set (st_stored st). m < sr_id r \<longrightarrow> r \<in> set (st_table st) \<or> r \<in> set (st_unsent st)"
    by (rule siem_invE)
  obtain c where c: "get_cursor (sw_db ?w) (sd_id dest) source = Some c" "cu_last_id c = m"
    "cu_pce_url c = ss_pce_url s" "cu_org_id c = ss_org_id s" using i(6) by (auto simp: position_cursor)
  have fl: "cu_floor_time c = None" using i(4) c(1) by (simp add: no_floor_def floor_at_def get_cursor_def)
  obtain res w1 where r: "run_loop env s dest source gen deadline m None new_run ?w = (res, w1)" by fastforce
  have w1: "?w' = w1" using r c fl by (simp add: run_source_def Let_def)
  have order: "in_order (en_table env dest source)" using i(2) env(1) by simp
  from run_loop_went [OF order i(6) r] obtain es letters m' where g: "went ?w w1 es letters"
    "position (sw_db w1) (sd_id dest, source) = Some (m', ss_pce_url s, ss_org_id s)" "m \<le> m'"
    "below env dest source None es letters m m'" by (elim exE conjE)
  let ?st = "with_world ?w' st"
  have st: "st_world ?st = w1" "st_table ?st = st_table st" "st_stored ?st = st_stored st" "st_unsent ?st = st_unsent st"
    "st_letters ?st = st_letters st @ letters"
    using g(1) by (simp_all add: with_world_def w1 went_def)
  have wire: "sw_wire (st_world ?st) = sw_wire ?w @ es" using g(1) st(1) by (simp add: went_def)
  have old: "handled dest source fmt ?st r" if "handled dest source fmt st r" for r
    using handled_mono [OF that wire st(5), of "[]"] st(4) by simp
  have new: "handled dest source fmt ?st r" if "r \<in> set (st_table st)" "m < sr_id r" "sr_id r \<le> m'" for r
  proof -
    have "accounted env dest source None es letters r" using g(4) that env(1) by (simp add: below_def)
    then show ?thesis
      unfolding handled_def accounted_def floored_def wire st(5) env(2) using delivered_suffix by auto
  qed
  have "handled dest source fmt ?st r" if "r \<in> set (st_stored st)" "start < sr_id r" "sr_id r \<le> m'" for r
  proof (cases "sr_id r \<le> m")
    case True
    then show ?thesis using i(7) that old by blast
  next
    case False
    then have "r \<in> set (st_table st) \<or> r \<in> set (st_unsent st)" using i(8) that by simp
    then show ?thesis
    proof
      assume "r \<in> set (st_table st)"
      with new False that(3) show ?thesis by simp
    next
      assume "r \<in> set (st_unsent st)"
      then show ?thesis unfolding handled_def st(4) by blast
    qed
  qed
  moreover have "no_floor dest source (sw_db w1)"
    using floorless.run_source_kept [OF i(4)] w1 by metis
  moreover have "letters_ok (sw_db w1)"
    using ids_in_order.run_source_kept [OF i(5)] w1 by metis
  ultimately show ?thesis
    by (intro siem_invI [where m = m']) (use i g st in simp_all)
qed

lemma siem_inv_other:
  assumes inv: "siem_inv s dest source fmt start st"
    and other: "(sd_id dest2, source2) \<noteq> (sd_id dest, source)" "in_order (en_table env dest2 source2)"
  shows "siem_inv s dest source fmt start (with_world (snd (run_source env s dest2 source2 gen deadline (st_world st))) st)"
proof -
  let ?w = "st_world st" and ?w' = "snd (run_source env s dest2 source2 gen deadline (st_world st))"
  obtain es where es: "sw_wire ?w' = sw_wire ?w @ es" using run_source_wire [OF other(2)] by blast
  have ids: "letters_ok (sw_db ?w')"
    by (rule ids_in_order.run_source_kept) (use inv in \<open>simp add: siem_inv_def\<close>)
  have "(sd_id dest, source) = (sd_id dest2, source2) \<or>
      get_cursor (sw_db ?w') (sd_id dest) source = get_cursor (sw_db ?w) (sd_id dest) source"
    by (rule others_alone.run_source_kept) simp
  then have "get_cursor (sw_db ?w') (sd_id dest) source = get_cursor (sw_db ?w) (sd_id dest) source"
    using other(1) by metis
  then show ?thesis
    by (intro siem_inv_aside [OF inv, where es = es and ls = "drop (length (db_dlq (sw_db ?w))) (db_dlq (sw_db ?w'))"])
      (use es ids in \<open>simp_all add: with_world_def\<close>)
qed

text \<open>Taking lines out of the DLQ.\<close>

lemma letters_ok_filter:
  "letters_ok db \<Longrightarrow> db_dlq db' = filter P (db_dlq db) \<Longrightarrow> db_dlq_seq db' = db_dlq_seq db \<Longrightarrow> letters_ok db'"
  by (auto simp: letters_ok_def sorted_wrt_filter)

lemma siem_inv_fewer:
  assumes inv: "siem_inv s dest source fmt start st"
    and f: "db_dlq (f (sw_db (st_world st))) = filter P (db_dlq (sw_db (st_world st)))"
      "db_dlq_seq (f (sw_db (st_world st))) = db_dlq_seq (sw_db (st_world st))"
      "db_cursors (f (sw_db (st_world st))) = db_cursors (sw_db (st_world st))"
  shows "siem_inv s dest source fmt start (st\<lparr> st_world := on_db f (st_world st) \<rparr>)"
proof -
  have "letters_ok (f (sw_db (st_world st)))"
    by (rule letters_ok_filter [OF _ f(1,2)]) (use inv in \<open>simp add: siem_inv_def\<close>)
  then show ?thesis
    by (intro siem_inv_aside [OF inv, where es = "[]" and ls = "[]"]) (simp_all add: siem_simps get_cursor_def f(3))
qed

lemma dlq_delete_seq: "db_dlq_seq (fst (dlq_delete ids db)) = db_dlq_seq db"
proof -
  have "db_dlq_seq (fst (fold (\<lambda>chunk (db', n). let (db'', m) = dlq_delete_where (\<lambda>d. dl_id d \<in> set chunk) db' in (db'', n + m)) cs (db, k))) =
      db_dlq_seq db" for cs k
  proof (induction cs arbitrary: db k)
    case (Cons c cs)
    from Cons.IH [of "fst (dlq_delete_where (\<lambda>d. dl_id d \<in> set c) db)" "k + snd (dlq_delete_where (\<lambda>d. dl_id d \<in> set c) db)"]
    show ?case by (simp add: Let_def dlq_delete_where_def)
  qed simp
  then show ?thesis by (simp add: dlq_delete_def)
qed

lemma purge_fewer:
  "\<exists>P. db_dlq (fst (purge ids dest_id days error t db)) = filter P (db_dlq db) \<and>
     db_dlq_seq (fst (purge ids dest_id days error t db)) = db_dlq_seq db \<and>
     db_cursors (fst (purge ids dest_id days error t db)) = db_cursors db"
  by (cases ids; cases days)
    (auto simp: purge_def dlq_delete_lines dlq_delete_seq dlq_purge_def dlq_purge_before_def dlq_delete_where_def)

lemma retention_fewer:
  "\<exists>P. db_dlq (fst (run_dlq_retention s t db)) = filter P (db_dlq db) \<and>
     db_dlq_seq (fst (run_dlq_retention s t db)) = db_dlq_seq db \<and>
     db_cursors (fst (run_dlq_retention s t db)) = db_cursors db"
  by (auto simp: run_dlq_retention_def Let_def dlq_purge_before_def dlq_delete_where_def delete_sends_before_def
      intro: exI [of _ "\<lambda>_. True"])

text \<open>A resend keeps the order of the ids: lines are rewritten in place or taken out.\<close>

definition ids_within :: "siem_db \<Rightarrow> siem_db \<Rightarrow> bool" where
  "ids_within db db' = (db_dlq_seq db' = db_dlq_seq db \<and> (\<exists>P. map dl_id (db_dlq db') = filter P (map dl_id (db_dlq db))))"

lemma ids_within_refl: "ids_within db db"
  by (auto simp: ids_within_def intro!: exI [of _ "\<lambda>_. True"])

lemma ids_within_trans:
  assumes "ids_within db db1" "ids_within db1 db2"
  shows "ids_within db db2"
proof -
  from assms obtain P Q where "map dl_id (db_dlq db1) = filter P (map dl_id (db_dlq db))"
    "map dl_id (db_dlq db2) = filter Q (map dl_id (db_dlq db1))" unfolding ids_within_def by blast
  then have "map dl_id (db_dlq db2) = filter (\<lambda>i. P i \<and> Q i) (map dl_id (db_dlq db))"
    by (simp only: filter_filter)
  with assms show ?thesis unfolding ids_within_def by metis
qed

lemma ids_within_ok:
  assumes "ids_within db db'" "letters_ok db"
  shows "letters_ok db'"
proof -
  have ok: "letters_ok db \<longleftrightarrow> sorted_wrt (<) (map dl_id (db_dlq db)) \<and>
      (\<forall>i \<in> set (map dl_id (db_dlq db)). 0 < i \<and> i \<le> db_dlq_seq db) \<and> 0 \<le> db_dlq_seq db" for db
    by (simp add: letters_ok_def sorted_wrt_map)
  from assms(1) obtain P where "map dl_id (db_dlq db') = filter P (map dl_id (db_dlq db))" "db_dlq_seq db' = db_dlq_seq db"
    unfolding ids_within_def by blast
  with assms(2) show ?thesis unfolding ok by (auto simp: sorted_wrt_filter)
qed

lemma failed_again_within: "ids_within db (dlq_failed_again i e db)"
proof -
  have "map dl_id (db_dlq (dlq_failed_again i e db)) = map dl_id (db_dlq db)" by (simp add: dlq_failed_again_def)
  then show ?thesis by (auto simp: ids_within_def dlq_failed_again_def intro!: exI [of _ "\<lambda>_. True"])
qed

lemma dlq_delete_within: "ids_within db (record_sends d t a b (fst (dlq_delete ids db)))"
proof -
  have "db_dlq_seq (record_sends d t a b db') = db_dlq_seq db'" for db' by (simp add: record_sends_def count_sends_def)
  moreover have "map dl_id (filter (\<lambda>d. dl_id d \<notin> set ids) (db_dlq db)) = filter (\<lambda>i. i \<notin> set ids) (map dl_id (db_dlq db))"
    by (simp add: filter_map o_def)
  ultimately show ?thesis by (auto simp: ids_within_def siem_simps dlq_delete_lines dlq_delete_seq)
qed

lemma send_letters_within:
  "send_letters env ds ok failed error w = (x, w') \<Longrightarrow> ids_within (sw_db w) (sw_db w')"
proof (induction ds arbitrary: ok failed error w)
  case Nil
  then show ?case by (simp add: ids_within_refl)
next
  case (Cons d ds)
  obtain reply w1 where s: "send_record env (dl_payload d) (dl_event_time d) w = (reply, w1)" by fastforce
  note w1 = same_db_calls(2) [OF s]
  show ?case
  proof (cases reply)
    case None
    with Cons.prems s have "send_letters env ds (ok @ [dl_id d]) failed error w1 = (x, w')" by simp
    from Cons.IH [OF this] w1 show ?thesis by simp
  next
    case (Some e)
    with Cons.prems s have "send_letters env ds ok (failed + 1) (Some (error_text e))
        (on_db (dlq_failed_again (dl_id d) (error_text e)) w1) = (x, w')" by simp
    from ids_within_trans [OF failed_again_within Cons.IH [OF this, unfolded siem_simps]] w1 show ?thesis by simp
  qed
qed

lemma resend_to_within:
  assumes "resend_to env dest letters t res w = (out, w')"
  shows "ids_within (sw_db w) (sw_db w')"
proof -
  define new where "new = filter (\<lambda>d. dl_sent_as d = sent_as dest) letters"
  define res1 where "res1 = res\<lparr> rs_changed := rs_changed res + int (length (filter (\<lambda>d. dl_sent_as d \<noteq> sent_as dest) letters)) \<rparr>"
  show ?thesis
  proof (cases "new = [] \<or> en_setup env dest \<noteq> None")
    case True
    then have "w' = w" using assms
      by (auto simp: resend_to_def Let_def new_def [symmetric] split: if_splits option.splits)
    then show ?thesis by (simp add: ids_within_refl)
  next
    case False
    obtain ok failed error w1 where s: "send_letters env new [] 0 (rs_error res1) w = ((ok, failed, error), w1)"
      by (metis prod_cases3 surj_pair)
    obtain conf w2 where c: "confirm_letters env ok error w1 = (conf, w2)" by fastforce
    have w2: "sw_db w2 = sw_db w1" using c same_db_calls(3)
      by (auto simp: confirm_letters_def Let_def split: if_splits option.splits prod.splits)
    have "sw_db w' = sw_db w2 \<or> (\<exists>a b ids. sw_db w' = record_sends (sd_id dest) t a b (fst (dlq_delete ids (sw_db w2))))"
      using assms False s c
      by (auto simp: resend_to_def Let_def new_def [symmetric] res1_def [symmetric] siem_simps split: option.splits sum.splits prod.splits)
        blast
    then show ?thesis
      using send_letters_within [OF s] w2 ids_within_trans dlq_delete_within by metis
  qed
qed

lemma resend_each_within:
  "resend_each env dests t groups res w = (out, w') \<Longrightarrow> ids_within (sw_db w) (sw_db w')"
proof (induction groups arbitrary: res w)
  case Nil
  then show ?case by (simp add: ids_within_refl)
next
  case (Cons g groups)
  obtain dest_id letters where g: "g = (dest_id, letters)" by fastforce
  show ?case
  proof (cases "dests dest_id")
    case None
    then show ?thesis using Cons g by simp
  next
    case (Some dest)
    obtain r1 w1 where r: "resend_to env dest letters t res w = (r1, w1)" by fastforce
    note w1 = resend_to_within [OF r]
    show ?thesis
    proof (cases r1)
      case (Inl e)
      then show ?thesis using Cons.prems g Some r w1 by simp
    next
      case (Inr res')
      then have "resend_each env dests t groups res' w1 = (out, w')" using Cons.prems g Some r by simp
      from ids_within_trans [OF w1 Cons.IH [OF this]] show ?thesis .
    qed
  qed
qed

lemma siem_inv_resend:
  assumes inv: "siem_inv s dest source fmt start st"
  shows "siem_inv s dest source fmt start (st\<lparr> st_world := snd (resend env s ids dest_id error t (st_world st)) \<rparr>)"
proof -
  let ?w' = "snd (resend env s ids dest_id error t (st_world st))"
  have ok: "letters_ok (sw_db (st_world st))" using inv by (simp add: siem_inv_def)
  from resend_went [OF ok, of env s ids dest_id error t] obtain es where
    es: "sw_wire ?w' = sw_wire (st_world st) @ es" "lines_kept (st_world st) ?w'" by blast
  obtain out w1 where r: "resend_each env (enabled_by_id s) t
      (group_by dl_destination_id (to_resend (sw_db (st_world st)) ids dest_id error)) no_resend (st_world st) = (out, w1)"
    by fastforce
  then have w1: "?w' = w1" by (simp add: resend_def split: sum.splits)
  have "letters_ok (sw_db ?w')" using ids_within_ok [OF resend_each_within [OF r] ok] w1 by simp
  then show ?thesis
    by (intro siem_inv_aside [OF inv, where es = es and ls = "[]"])
      (use es in \<open>simp_all add: lines_kept_def get_cursor_def\<close>)
qed

lemma siem_inv_stored:
  assumes inv: "siem_inv s dest source fmt start st"
    and rs: "in_order (st_stored st @ rs)" "\<forall>r \<in> set rs. cursor_at dest source (st_world st) < sr_id r"
  shows "siem_inv s dest source fmt start (st\<lparr> st_table := st_table st @ rs, st_stored := st_stored st @ rs \<rparr>)"
proof -
  from inv obtain m where i: "in_order (st_stored st)" "in_order (st_table st)" "set (st_table st) \<subseteq> set (st_stored st)"
    "no_floor dest source (sw_db (st_world st))" "letters_ok (sw_db (st_world st))"
    "position (sw_db (st_world st)) (sd_id dest, source) = Some (m, ss_pce_url s, ss_org_id s)"
    "\<forall>r \<in> set (st_stored st). start < sr_id r \<and> sr_id r \<le> m \<longrightarrow> handled dest source fmt st r"
    "\<forall>r \<in> set (st_stored st). m < sr_id r \<longrightarrow> r \<in> set (st_table st) \<or> r \<in> set (st_unsent st)"
    by (rule siem_invE)
  have new: "\<forall>r \<in> set rs. m < sr_id r" using rs(2) cursor_at_position [OF i(6)] by simp
  have order: "in_order (st_table st @ rs)" by (rule in_order_stored [OF rs(1) i(2,3)])
  show ?thesis
    by (rule siem_invI [where m = m]) (use i rs(1) new order in \<open>auto simp: handled_def\<close>)
qed

lemma siem_inv_deleted:
  assumes inv: "siem_inv s dest source fmt start st"
  shows "siem_inv s dest source fmt start (st\<lparr> st_table := filter (\<lambda>r. \<not> P r) (st_table st),
     st_unsent := st_unsent st @ filter (\<lambda>r. P r \<and> cursor_at dest source (st_world st) < sr_id r) (st_table st) \<rparr>)"
proof -
  from inv obtain m where i: "in_order (st_stored st)" "in_order (st_table st)" "set (st_table st) \<subseteq> set (st_stored st)"
    "no_floor dest source (sw_db (st_world st))" "letters_ok (sw_db (st_world st))"
    "position (sw_db (st_world st)) (sd_id dest, source) = Some (m, ss_pce_url s, ss_org_id s)"
    "\<forall>r \<in> set (st_stored st). start < sr_id r \<and> sr_id r \<le> m \<longrightarrow> handled dest source fmt st r"
    "\<forall>r \<in> set (st_stored st). m < sr_id r \<longrightarrow> r \<in> set (st_table st) \<or> r \<in> set (st_unsent st)"
    by (rule siem_invE)
  note at_m = cursor_at_position [OF i(6)]
  show ?thesis
    by (rule siem_invI [where m = m]) (use i at_m in \<open>auto simp: handled_def in_order_filter\<close>)
qed

lemma siem_step_inv:
  assumes "siem_step s dest source fmt st st'" "siem_inv s dest source fmt start st"
  shows "siem_inv s dest source fmt start st'"
  using assms
proof (cases rule: siem_step.cases)
  case (purged ids dest_id days error t)
  obtain P where "db_dlq (fst (purge ids dest_id days error t (sw_db (st_world st)))) = filter P (db_dlq (sw_db (st_world st)))"
    "db_dlq_seq (fst (purge ids dest_id days error t (sw_db (st_world st)))) = db_dlq_seq (sw_db (st_world st))"
    "db_cursors (fst (purge ids dest_id days error t (sw_db (st_world st)))) = db_cursors (sw_db (st_world st))"
    using purge_fewer by blast
  then show ?thesis unfolding purged by (intro siem_inv_fewer [OF assms(2)]) simp_all
next
  case (expired t)
  obtain P where "db_dlq (fst (run_dlq_retention s t (sw_db (st_world st)))) = filter P (db_dlq (sw_db (st_world st)))"
    "db_dlq_seq (fst (run_dlq_retention s t (sw_db (st_world st)))) = db_dlq_seq (sw_db (st_world st))"
    "db_cursors (fst (run_dlq_retention s t (sw_db (st_world st)))) = db_cursors (sw_db (st_world st))"
    using retention_fewer by blast
  then show ?thesis unfolding expired by (intro siem_inv_fewer [OF assms(2)]) simp_all
next
  case (stored rs)
  show ?thesis unfolding stored(1) by (rule siem_inv_stored [OF assms(2) stored(2,3)])
next
  case (deleted P)
  show ?thesis unfolding deleted by (rule siem_inv_deleted [OF assms(2)])
next
  case (run env gen deadline)
  show ?thesis unfolding run(1) by (rule siem_inv_run [OF assms(2) run(2,3)])
next
  case (other dest2 source2 env gen deadline)
  show ?thesis unfolding other(1) by (rule siem_inv_other [OF assms(2) other(2,3)])
next
  case (resent env ids dest_id error t)
  show ?thesis unfolding resent by (rule siem_inv_resend [OF assms(2)])
qed

lemma siem_reachable_inv: "siem_reachable s dest source fmt start st \<Longrightarrow> siem_inv s dest source fmt start st"
proof (induction rule: siem_reachable.induct)
  case (init w rs)
  then show ?case by (intro siem_invI [where m = start]) auto
next
  case (step st st')
  then show ?case by (blast intro: siem_step_inv)
qed

text \<open>C6. Nothing is lost between the table and the wire. Whatever the order of records stored, rows deleted by
  retention, runs of this and of other sources and destinations, and dead letters resent, purged and expired, every
  record stored after the cursor was placed and that the cursor has passed was delivered (sent in a batch that was
  confirmed), or went to the DLQ, or was deleted from the table before the cursor reached it; the cursor stays
  with the configured PCE, and a record the cursor has not passed is still in the table or was deleted.\<close>

theorem forwarding_loses_nothing:
  assumes "siem_reachable s dest source fmt start st"
  shows "\<exists>c. get_cursor (sw_db (st_world st)) (sd_id dest) source = Some c \<and> cu_pce_url c = ss_pce_url s \<and>
    (\<forall>r \<in> set (st_stored st). start < sr_id r \<longrightarrow>
       (if sr_id r \<le> cu_last_id c
        then (\<exists>p. fmt r = Inr p \<and> (p, Some (sr_time r)) \<in> delivered (sw_wire (st_world st))) \<or>
          lettered dest source (st_letters st) r \<or> r \<in> set (st_unsent st)
        else r \<in> set (st_table st) \<or> r \<in> set (st_unsent st)))"
proof -
  from siem_reachable_inv [OF assms] obtain m where
    pos: "position (sw_db (st_world st)) (sd_id dest, source) = Some (m, ss_pce_url s, ss_org_id s)"
    and m: "\<forall>r \<in> set (st_stored st). start < sr_id r \<and> sr_id r \<le> m \<longrightarrow> handled dest source fmt st r"
      "\<forall>r \<in> set (st_stored st). m < sr_id r \<longrightarrow> r \<in> set (st_table st) \<or> r \<in> set (st_unsent st)"
    by (rule siem_invE)
  from pos obtain c where "get_cursor (sw_db (st_world st)) (sd_id dest) source = Some c" "cu_last_id c = m"
    "cu_pce_url c = ss_pce_url s" by (auto simp: position_cursor)
  with m show ?thesis by (intro exI [of _ c]) (auto simp: handled_def)
qed

section \<open>The export is complete\<close>

lemma filter_above_last_taken:
  fixes f :: "'a \<Rightarrow> int"
  assumes "sorted_wrt (\<lambda>a b. f a < f b) xs" "take n xs \<noteq> []"
  shows "filter (\<lambda>x. f (List.last (take n xs)) < f x) xs = drop n xs"
proof -
  let ?l = "List.last (take n xs)"
  have split: "sorted_wrt (\<lambda>a b. f a < f b) (take n xs @ drop n xs)" using assms(1) by simp
  then have up: "\<forall>x \<in> set (drop n xs). f ?l < f x"
    using last_in_set [OF assms(2)] unfolding sorted_wrt_append by blast
  obtain ys where ys: "take n xs = ys @ [?l]" using assms(2) by (metis append_butlast_last_id)
  have "sorted_wrt (\<lambda>a b. f a < f b) (ys @ [?l])" using split ys by (metis sorted_wrt_append)
  then have "\<forall>x \<in> set (take n xs). \<not> f ?l < f x" by (subst ys) (auto simp: sorted_wrt_append)
  then have "filter (\<lambda>x. f ?l < f x) (take n xs @ drop n xs) = drop n xs"
    using up by (simp add: filter_empty_conv filter_id_conv del: append_take_drop_id)
  then show ?thesis by simp
qed

lemma export_pages_after:
  assumes "letters_ok db"
  shows "export_pages db dest_id error after = filter (\<lambda>d. dlq_where dest_id error d \<and> after < dl_id d) (db_dlq db)"
  using assms
proof (induction db dest_id error after rule: export_pages.induct)
  case (1 db dest_id error after)
  define F where "F = filter (\<lambda>d. dlq_where dest_id error d \<and> after < dl_id d) (db_dlq db)"
  define page where "page = dlq_after db dest_id after EXPORT_PAGE error"
  have page: "page = take EXPORT_PAGE F" by (simp add: page_def F_def dlq_after_def)
  have sorted: "sorted_wrt (\<lambda>a b. dl_id a < dl_id b) F"
    using "1.prems" by (simp add: F_def letters_ok_def sorted_wrt_filter)
  show ?case
  proof (cases "page = []")
    case True
    then have "F = []" using page by (simp add: EXPORT_PAGE_def)
    then show ?thesis
      using True by (simp add: export_pages.simps [of db dest_id error after] page_def [symmetric] F_def [symmetric])
  next
    case False
    have low: "after < dl_id (List.last page)"
      using False last_in_set [OF False] set_take_subset [of EXPORT_PAGE F] unfolding page F_def by fastforce
    have "export_pages db dest_id error after = page @ export_pages db dest_id error (dl_id (List.last page))"
      using False by (simp add: export_pages.simps [of db dest_id error after] page_def [symmetric])
    also have "\<dots> = page @ filter (\<lambda>d. dlq_where dest_id error d \<and> dl_id (List.last page) < dl_id d) (db_dlq db)"
      using "1.IH" [OF page_def False "1.prems"] by simp
    also have "filter (\<lambda>d. dlq_where dest_id error d \<and> dl_id (List.last page) < dl_id d) (db_dlq db) =
        filter (\<lambda>d. dl_id (List.last page) < dl_id d) F"
      using low by (auto simp: F_def filter_filter intro!: filter_cong)
    also have "\<dots> = drop EXPORT_PAGE F"
      using filter_above_last_taken [OF sorted] False unfolding page by blast
    finally show ?thesis by (simp add: page F_def [symmetric])
  qed
qed

text \<open>The pages together are the lines of the DLQ that the filter takes, each once, oldest first.\<close>

lemma export_complete:
  "letters_ok db \<Longrightarrow> export_pages db dest_id error 0 = filter (dlq_where dest_id error) (db_dlq db)"
  by (subst export_pages_after) (auto simp: letters_ok_def intro!: filter_cong)

section \<open>Examples\<close>

definition example_state :: siem_state where
  "example_state = with_world (snd (example_siem_run refuse_two))
     \<lparr> st_world = example_world, st_table = map example_record [1, 2, 3], st_stored = map example_record [1, 2, 3],
       st_letters = [], st_unsent = [] \<rparr>"

lemma example_reachable:
  "siem_reachable example_siem_settings example_dest ''alerts'' (\<lambda>r. Inr (example_line r)) 0 example_state"
proof -
  have start: "siem_reachable example_siem_settings example_dest ''alerts'' (\<lambda>r. Inr (example_line r)) 0
      \<lparr> st_world = example_world, st_table = map example_record [1, 2, 3], st_stored = map example_record [1, 2, 3],
        st_letters = [], st_unsent = [] \<rparr>"
    by (rule siem_reachable.init)
      (simp_all add: example_world_def example_dest_def example_siem_settings_def start_cursor_def get_cursor_def
        new_cursor_def position_def no_floor_def floor_at_def letters_ok_def in_order_def example_record_def)
  show ?thesis
    unfolding example_state_def example_siem_run_def
    by (rule siem_reachable.step [OF start])
      (use siem_step.run [of "example_env refuse_two" example_dest "''alerts''"
          "\<lparr> st_world = example_world, st_table = map example_record [1, 2, 3], st_stored = map example_record [1, 2, 3],
             st_letters = [], st_unsent = [] \<rparr>" "\<lambda>r. Inr (example_line r)" example_siem_settings 1 10]
        in \<open>simp add: example_env_def\<close>)
qed

theorem forwarding_loses_nothing_witness:
  "\<exists>c. get_cursor (sw_db (st_world example_state)) ''d1'' ''alerts'' = Some c \<and> cu_pce_url c = ''pce''"
  using forwarding_loses_nothing [OF example_reachable] by (auto simp: example_dest_def example_siem_settings_def)

theorem resend_takes_only_delivered_witness:
  "\<exists>es. sw_wire (snd (resend (example_env (\<lambda>_. None)) example_siem_settings None None None 2000
       (snd (example_siem_run refuse_two)))) = sw_wire (snd (example_siem_run refuse_two)) @ es \<and>
     (''two'', Some 20) \<in> delivered es"
proof -
  have lines: "map (\<lambda>d. (dl_id d, dl_payload d, dl_event_time d)) (db_dlq (sw_db (snd (example_siem_run refuse_two)))) =
      [(1, ''two'', Some 20)]" "db_dlq_seq (sw_db (snd (example_siem_run refuse_two))) = 1"
    by code_simp+
  then obtain d where d: "db_dlq (sw_db (snd (example_siem_run refuse_two))) = [d]" "dl_id d = 1" "dl_payload d = ''two''"
    "dl_event_time d = Some 20" by auto
  have ok: "letters_ok (sw_db (snd (example_siem_run refuse_two)))" using d lines(2) by (simp add: letters_ok_def)
  have "db_dlq (sw_db (snd (resend (example_env (\<lambda>_. None)) example_siem_settings None None None 2000
      (snd (example_siem_run refuse_two))))) = []" by code_simp
  then show ?thesis
    using resend_takes_only_delivered [OF ok, of "example_env (\<lambda>_. None)" example_siem_settings None None None 2000] d
    by (auto simp: line_ids_def)
qed

end
