(* ===== verification/Spec2Isabelle.thy ===== *)
theory Spec2Isabelle
  imports Prelude PyStr Values Netaddr Identity Json PyTime Flows FlowFilter FilterMatch FlowTables FilterSql SqlAgree
    FilterPce Resolver LabelGroups ResolverSubtract ResolverProofs Lateral Exposure ExposureBfs ExposureGraph ExposureProofs ExposureResult
    AlertRules Alerting AlertGate Policy PolicyProofs PolicyDiff PolicyDiffProofs Tamper RuleSchedule RuleScheduleProofs
    Segment Detectors DetectorWindow DetectorProofs Anomaly DetectorRun
    AlertStore AlertDispatch AlertDelivery AlertRecord AlertEval AlertEvalProofs
    SiemStore SiemDispatch SiemAccount SiemRuns SiemDlq SiemSystem
begin

text \<open>
  A verification development of illumio_ops.
\<close>

end
